(* ===== verification/Prelude.thy ===== *)
theory Prelude
  imports
    "HOL-Library.Word"
    "HOL-Library.Finite_Map"
    "HOL-Library.List_Lexorder"
    "HOL-Library.Char_ord"
    "HOL-Library.Multiset"
begin

unbundle bit_operations_syntax

text \<open>
  What every component of the development shares.

  \<^item> Octets and strings: Rust's \<open>u8\<close> is a \<^typ>\<open>char\<close> (HOL's type of the 256 octets), so a
    \<open>Vec<u8>\<close>, a \<open>&[u8]\<close> and a \<open>String\<close> (its UTF-8 octets) are all \<^typ>\<open>char list\<close>.
    \<open>String::len\<close> is \<^const>\<open>length\<close>, and Rust's \<open>Ord\<close> on strings, the lexicographic order of
    their octets, is the order that \<open>List_Lexorder\<close> and \<open>Char_ord\<close> put on \<^typ>\<open>char list\<close>.
  \<^item> Integers: \<open>i64\<close> is \<^typ>\<open>int\<close> with its saturating operations written out, \<open>usize\<close> is
    \<^typ>\<open>nat\<close> with its saturating addition written out, and a \<open>u64\<close> whose wrap-around or
    whose greatest value matters is a \<^typ>\<open>64 word\<close>. An \<open>f64\<close> is its IEEE-754 bit pattern.
  \<^item> Results: \<open>Result<T, E>\<close> is the sum \<open>'e + 'a\<close>, with \<^const>\<open>Inl\<close> the error.
  \<^item> Maps and sets: \<open>HashMap\<close> and \<open>BTreeMap\<close> are finite maps, \<open>HashSet\<close> and \<open>BTreeSet\<close>
    finite sets; a \<open>BTreeMap\<close> is iterated in the order of its keys.
\<close>

type_synonym byte = char
type_synonym bytes = "char list"

section \<open>Results\<close>

text \<open>
  A sequence of checks, each followed by \<open>?\<close>: the first error is the answer.
\<close>

fun first_err :: "('e + unit) list \<Rightarrow> 'e + unit" where
  "first_err [] = Inr ()"
| "first_err (Inl e # cs) = Inl e"
| "first_err (Inr u # cs) = first_err cs"

fun res_bind :: "'e + 'a \<Rightarrow> ('a \<Rightarrow> 'e + 'b) \<Rightarrow> 'e + 'b" where
  "res_bind (Inl e) f = Inl e"
| "res_bind (Inr a) f = f a"

definition ok_or :: "'e \<Rightarrow> 'a option \<Rightarrow> 'e + 'a" where
  "ok_or e x = (case x of None \<Rightarrow> Inl e | Some a \<Rightarrow> Inr a)"

lemma first_err_ok_iff: "first_err cs = Inr () \<longleftrightarrow> (\<forall>c \<in> set cs. c = Inr ())"
  by (induction cs rule: first_err.induct) auto

lemma first_err_append:
  "first_err (cs @ ds) = (case first_err cs of Inl e \<Rightarrow> Inl e | Inr u \<Rightarrow> first_err ds)"
  by (induction cs rule: first_err.induct) auto

lemma first_err_Inl: "first_err cs = Inl e \<Longrightarrow> Inl e \<in> set cs"
  by (induction cs rule: first_err.induct) auto

lemma first_err_cons:
  "first_err (c # cs) = (case c of Inl e \<Rightarrow> Inl e | Inr u \<Rightarrow> first_err cs)"
  by (cases c) auto

lemma Inr_unit_iff: "(x :: 'e + unit) = Inr u \<longleftrightarrow> x = Inr ()"
  by simp

lemma res_bind_Inr_iff: "res_bind x f = Inr b \<longleftrightarrow> (\<exists>a. x = Inr a \<and> f a = Inr b)"
  by (cases x) auto

lemma ok_or_simps [simp]: "ok_or e (Some a) = Inr a" "ok_or e None = Inl e"
  by (simp_all add: ok_or_def)

lemma ok_or_Inr_iff [simp]: "ok_or e x = Inr a \<longleftrightarrow> x = Some a"
  by (cases x) (auto simp: ok_or_def)

lemma ok_or_Inl_iff [simp]: "ok_or e x = Inl e' \<longleftrightarrow> x = None \<and> e' = e"
  by (cases x) (auto simp: ok_or_def)

section \<open>Machine integers\<close>

definition i64_max :: int where
  "i64_max = 9223372036854775807"

definition i64_min :: int where
  "i64_min = -9223372036854775808"

definition is_i64 :: "int \<Rightarrow> bool" where
  "is_i64 x \<longleftrightarrow> i64_min \<le> x \<and> x \<le> i64_max"

definition i64_saturating_add :: "int \<Rightarrow> int \<Rightarrow> int" where
  "i64_saturating_add a b = max i64_min (min i64_max (a + b))"

definition usize_max :: nat where
  "usize_max = 18446744073709551615"

definition usize_saturating_add :: "nat \<Rightarrow> nat \<Rightarrow> nat" where
  "usize_saturating_add a b = min usize_max (a + b)"

text \<open>\<open>usize::div_ceil\<close>.\<close>

definition div_ceil :: "nat \<Rightarrow> nat \<Rightarrow> nat" where
  "div_ceil a b = (a + b - 1) div b"

definition u64_max :: "64 word" where
  "u64_max = 18446744073709551615"

text \<open>\<open>u64::checked_add(1)\<close>.\<close>

definition u64_checked_succ :: "64 word \<Rightarrow> 64 word option" where
  "u64_checked_succ w = (if w = u64_max then None else Some (w + 1))"

lemma usize_saturating_add_le: "usize_saturating_add a b \<le> a + b"
  by (simp add: usize_saturating_add_def)

lemma usize_saturating_add_small [simp]:
  "a + b \<le> usize_max \<Longrightarrow> usize_saturating_add a b = a + b"
  by (simp add: usize_saturating_add_def)

lemma u64_max_eq: "u64_max = - 1"
  by (simp add: u64_max_def)

lemma u64_max_top [simp]: "w \<le> u64_max"
  by (simp only: u64_max_eq word_order.extremum)

lemma u64_unat_succ:
  assumes "w \<noteq> u64_max"
  shows "unat (w + 1) = Suc (unat w)"
proof -
  from assms have "1 + w \<noteq> 0"
    by (metis add_eq_0_iff minus_equation_iff u64_max_eq)
  then have "unat (1 + w) = Suc (unat w)" by (rule unatSuc)
  then show ?thesis by (simp add: add.commute)
qed

lemma u64_less_succ: "w \<noteq> u64_max \<Longrightarrow> w < w + 1"
  by (simp add: word_less_nat_alt u64_unat_succ)

lemma u64_checked_succ_Some: "u64_checked_succ w = Some v \<Longrightarrow> w < v"
  by (auto simp: u64_checked_succ_def u64_less_succ split: if_splits)

section \<open>Comparisons\<close>

text \<open>Rust's \<open>Ordering\<close>, \<open>Ord::cmp\<close> and \<open>Ordering::then_with\<close>.\<close>

datatype ordering = Less | Equal | Greater

definition cmp :: "'a :: linorder \<Rightarrow> 'a \<Rightarrow> ordering" where
  "cmp a b = (if a < b then Less else if a = b then Equal else Greater)"

fun then_with :: "ordering \<Rightarrow> ordering \<Rightarrow> ordering" where
  "then_with Equal o' = o'"
| "then_with o1 o' = o1"

lemma cmp_Equal [simp]: "cmp a b = Equal \<longleftrightarrow> a = b"
  by (auto simp: cmp_def)

lemma cmp_Greater [simp]: "cmp a b = Greater \<longleftrightarrow> b < a"
  by (auto simp: cmp_def)

lemma cmp_Less [simp]: "cmp a b = Less \<longleftrightarrow> a < b"
  by (auto simp: cmp_def)

lemma then_with_Greater:
  "then_with a b = Greater \<longleftrightarrow> a = Greater \<or> a = Equal \<and> b = Greater"
  by (cases a) auto

lemma then_with_Equal: "then_with a b = Equal \<longleftrightarrow> a = Equal \<and> b = Equal"
  by (cases a) auto

section \<open>Binary64 values\<close>

text \<open>
  An \<open>f64\<close> is its bit pattern. \<open>f64_total_key\<close> is the signed integer \<open>f64::total_cmp\<close>
  compares: the bits as an \<open>i64\<close>, with the 63 low bits flipped when the sign bit is set.
  \<open>f64_eq\<close> is \<open>PartialEq\<close>: a NaN equals nothing and the two zeros are equal.
\<close>

type_synonym f64 = "64 word"

definition f64_exponent_mask :: f64 where
  "f64_exponent_mask = 0x7FF0000000000000"

definition f64_is_finite :: "f64 \<Rightarrow> bool" where
  "f64_is_finite x \<longleftrightarrow> x AND f64_exponent_mask \<noteq> f64_exponent_mask"

definition f64_is_nan :: "f64 \<Rightarrow> bool" where
  "f64_is_nan x \<longleftrightarrow> \<not> f64_is_finite x \<and> x AND 0xFFFFFFFFFFFFF \<noteq> 0"

definition f64_eq :: "f64 \<Rightarrow> f64 \<Rightarrow> bool" where
  "f64_eq x y \<longleftrightarrow> \<not> f64_is_nan x \<and> \<not> f64_is_nan y \<and>
     (x = y \<or> (x OR y) AND 0x7FFFFFFFFFFFFFFF = 0)"

definition f64_total_key :: "f64 \<Rightarrow> int" where
  "f64_total_key x =
     (if bit x 63 then sint (x XOR 0x7FFFFFFFFFFFFFFF) else sint x)"

lemma f64_finite_eq_refl: "f64_is_finite x \<Longrightarrow> f64_eq x x"
  by (simp add: f64_eq_def f64_is_nan_def)

lemma xor_right_cancel: "u XOR m = v XOR m \<Longrightarrow> u = v" for u v m :: "'a :: len word"
  by (metis xor.assoc xor.right_neutral xor_self_eq)

lemma f64_sign_flip: "bit (z XOR 0x7FFFFFFFFFFFFFFF :: 64 word) 63 = bit z 63"
  by (simp only: bit_xor_iff) simp

lemma f64_total_key_inj:
  assumes "f64_total_key x = f64_total_key y"
  shows "x = y"
proof (cases "bit x 63 = bit y 63")
  case True
  with assms show ?thesis
    by (cases "bit y 63") (auto simp only: f64_total_key_def if_True if_False signed_word_eqI
        dest!: signed_word_eqI xor_right_cancel)
next
  case False
  define X where "X = (if bit x 63 then x XOR 0x7FFFFFFFFFFFFFFF else x)"
  define Y where "Y = (if bit y 63 then y XOR 0x7FFFFFFFFFFFFFFF else y)"
  have "bit X 63 = bit x 63" "bit Y 63 = bit y 63"
    by (simp_all only: X_def Y_def f64_sign_flip split: if_split) auto
  moreover from assms have "sint X = sint Y"
    by (simp only: f64_total_key_def X_def Y_def split: if_splits) auto
  then have "X = Y" by (rule signed_word_eqI)
  ultimately show ?thesis using False by simp
qed

section \<open>Octets\<close>

text \<open>Big-endian octets of an unsigned integer (\<open>to_be_bytes\<close>, \<open>from_be_bytes\<close>).\<close>

fun be_bytes :: "nat \<Rightarrow> nat \<Rightarrow> bytes" where
  "be_bytes 0 n = []"
| "be_bytes (Suc k) n = be_bytes k (n div 256) @ [char_of n]"

definition be_val :: "bytes \<Rightarrow> nat" where
  "be_val bs = foldl (\<lambda>a b. a * 256 + of_char b) 0 bs"

lemma length_be_bytes [simp]: "length (be_bytes k n) = k"
  by (induction k arbitrary: n) auto

lemma be_val_snoc [simp]: "be_val (bs @ [b]) = be_val bs * 256 + of_char b"
  by (simp add: be_val_def)

lemma be_val_Nil [simp]: "be_val [] = 0"
  by (simp add: be_val_def)

lemma be_val_be_bytes: "n < 256 ^ k \<Longrightarrow> be_val (be_bytes k n) = n"
proof (induction k arbitrary: n)
  case 0
  then show ?case by simp
next
  case (Suc k)
  then have "n div 256 < 256 ^ k" by (simp add: div_less_iff_less_mult mult.commute)
  with Suc.IH show ?case by (simp add: div_mult_mod_eq)
qed

lemma of_char_less_256: "(of_char b :: nat) < 256"
  using of_char_mod_256[of b, where ?'a = nat] by (metis mod_less_divisor zero_less_numeral)

lemma be_val_less: "be_val bs < 256 ^ length bs"
proof (induction bs rule: rev_induct)
  case Nil
  then show ?case by simp
next
  case (snoc b bs)
  have "be_val bs * 256 + of_char b < (be_val bs + 1) * 256"
    using of_char_less_256[of b] by simp
  also have "\<dots> \<le> 256 ^ length bs * 256"
    using snoc.IH by (intro mult_right_mono) auto
  finally show ?case by (simp add: mult.commute)
qed

lemma be_bytes_be_val: "be_bytes (length bs) (be_val bs) = bs"
proof (induction bs rule: rev_induct)
  case Nil
  then show ?case by simp
next
  case (snoc b bs)
  have "(be_val bs * 256 + of_char b) div 256 = be_val bs"
    using of_char_less_256[of b] by simp
  moreover have "char_of (be_val bs * 256 + of_char b) = b"
    by (simp add: char_of_eq_iff take_bit_eq_mod of_char_less_256 mod_mult_self3 mod_add_eq)
  ultimately show ?case using snoc.IH by simp
qed

text \<open>\<open>[u8]::starts_with\<close>.\<close>

fun starts_with :: "bytes \<Rightarrow> bytes \<Rightarrow> bool" where
  "starts_with bs [] = True"
| "starts_with [] (p # ps) = False"
| "starts_with (b # bs) (p # ps) = (b = p \<and> starts_with bs ps)"

lemma starts_with_iff: "starts_with bs ps \<longleftrightarrow> take (length ps) bs = ps"
  by (induction bs ps rule: starts_with.induct) auto

lemma starts_with_append [simp]: "starts_with (ps @ bs) ps"
  by (simp add: starts_with_iff)

section \<open>UTF-8\<close>

text \<open>
  The octet sequences \<open>String::from_utf8\<close> accepts: the well-formed sequences of the Unicode
  standard (shortest forms, no surrogates, nothing beyond \<open>U+10FFFF\<close>).
\<close>

definition in_range :: "byte \<Rightarrow> nat \<Rightarrow> nat \<Rightarrow> bool" where
  "in_range b lo hi \<longleftrightarrow> lo \<le> of_char b \<and> of_char b \<le> hi"

fun utf8_valid :: "bytes \<Rightarrow> bool" where
  "utf8_valid [] = True"
| "utf8_valid (b0 # r0) =
     (if in_range b0 0 127 then utf8_valid r0
      else case r0 of [] \<Rightarrow> False | b1 # r1 \<Rightarrow>
        if in_range b0 194 223 then in_range b1 128 191 \<and> utf8_valid r1
        else case r1 of [] \<Rightarrow> False | b2 # r2 \<Rightarrow>
          if in_range b0 224 239 then
            in_range b1 (if of_char b0 = (224::nat) then 160 else 128)
                        (if of_char b0 = (237::nat) then 159 else 191)
            \<and> in_range b2 128 191 \<and> utf8_valid r2
          else case r2 of [] \<Rightarrow> False | b3 # r3 \<Rightarrow>
            in_range b0 240 244
            \<and> in_range b1 (if of_char b0 = (240::nat) then 144 else 128)
                          (if of_char b0 = (244::nat) then 143 else 191)
            \<and> in_range b2 128 191 \<and> in_range b3 128 191 \<and> utf8_valid r3)"

text \<open>
  \<open>s.chars().any(char::is_control)\<close> on the octets of a string: the control characters are
  \<open>U+0000\<close> to \<open>U+001F\<close>, \<open>U+007F\<close>, and \<open>U+0080\<close> to \<open>U+009F\<close>, whose UTF-8 form is the octet
  194 followed by one of 128 to 159. The lead octet of a longer form is skipped together with
  nothing else: a continuation octet is never below 128 and never 194.
\<close>

fun has_control :: "bytes \<Rightarrow> bool" where
  "has_control [] = False"
| "has_control (b0 # r0) =
     (in_range b0 0 31 \<or> of_char b0 = (127::nat)
      \<or> (of_char b0 = (194::nat) \<and> (case r0 of [] \<Rightarrow> False | b1 # _ \<Rightarrow> in_range b1 128 159))
      \<or> has_control r0)"

definition is_ascii_digit :: "byte \<Rightarrow> bool" where
  "is_ascii_digit b \<longleftrightarrow> in_range b 48 57"

definition is_ascii_alphanumeric :: "byte \<Rightarrow> bool" where
  "is_ascii_alphanumeric b \<longleftrightarrow> in_range b 48 57 \<or> in_range b 65 90 \<or> in_range b 97 122"

section \<open>Numbers as text\<close>

text \<open>\<open>Display\<close> of an unsigned integer, and \<open>str::parse\<close>: an optional \<open>+\<close>, then digits, within the type.\<close>

definition digit :: "nat \<Rightarrow> char" where
  "digit n = char_of (48 + n mod 10)"

fun show_nat :: "nat \<Rightarrow> string" where
  "show_nat n = (if n < 10 then [digit n] else show_nat (n div 10) @ [digit n])"

declare show_nat.simps [simp del]

definition digits_val :: "string \<Rightarrow> nat" where
  "digits_val s = foldl (\<lambda>a b. a * 10 + (of_char b - 48)) 0 s"

definition parse_unsigned :: "nat \<Rightarrow> string \<Rightarrow> nat option" where
  "parse_unsigned mx s =
     (let ds = (case s of b # bs \<Rightarrow> if b = CHR ''+'' then bs else s | [] \<Rightarrow> s)
      in if ds \<noteq> [] \<and> list_all is_ascii_digit ds \<and> digits_val ds \<le> mx then Some (digits_val ds) else None)"

lemma of_char_digit: "(of_char (digit n) :: nat) = 48 + n mod 10"
proof -
  have "n mod 10 < 10" by simp
  then have "48 + n mod 10 < 256" by linarith
  then show ?thesis by (simp add: digit_def take_bit_eq_mod)
qed

lemma digit_is_digit [simp]: "is_ascii_digit (digit n)"
proof -
  have "n mod 10 \<le> 9" using mod_less_divisor[of 10 n] by linarith
  then show ?thesis by (simp add: is_ascii_digit_def in_range_def of_char_digit)
qed

lemma show_nat_spec: "show_nat n \<noteq> [] \<and> list_all is_ascii_digit (show_nat n) \<and> digits_val (show_nat n) = n"
proof (induction n rule: show_nat.induct)
  case (1 n)
  then show ?case
    by (subst (1 2 3) show_nat.simps) (auto simp: digits_val_def of_char_digit)
qed

lemma show_nat_inj: "show_nat m = show_nat n \<Longrightarrow> m = n"
  using show_nat_spec by metis

lemma parse_show_nat: "n \<le> mx \<Longrightarrow> parse_unsigned mx (show_nat n) = Some n"
proof -
  assume n: "n \<le> mx"
  obtain b bs where s: "show_nat n = b # bs" using show_nat_spec by (cases "show_nat n") auto
  then have "is_ascii_digit b" using show_nat_spec[of n] by simp
  then have "b \<noteq> CHR ''+''" by (auto simp: is_ascii_digit_def in_range_def)
  with n s show_nat_spec[of n] show ?thesis by (simp add: parse_unsigned_def)
qed

section \<open>Sorted lists\<close>

text \<open>What a page of a sorted list leaves out comes after everything it shows.\<close>

lemma sorted_take_before:
  assumes "sorted (map f xs)" and "distinct (map f xs)" and "x \<in> set (take n xs)" and "r \<in> set xs" and "r \<notin> set (take n xs)"
  shows "f x < f r"
proof -
  have r: "r \<in> set (drop n xs)" using assms(4,5) by (metis UnE append_take_drop_id set_append)
  have "sorted (map f (take n xs) @ map f (drop n xs))" "distinct (map f (take n xs) @ map f (drop n xs))"
    using assms(1,2) by (simp_all flip: map_append)
  with assms(3) r have "f x \<le> f r" "f x \<noteq> f r" by (auto simp: sorted_append)
  then show ?thesis by (rule le_neq_trans)
qed

section \<open>Finite maps\<close>

text \<open>\<open>len()\<close> of a map, and its entries, keys and values in the order of the keys.\<close>

definition fm_len :: "('k, 'v) fmap \<Rightarrow> nat" where
  "fm_len m = fcard (fmdom m)"

definition fm_keys :: "('k :: linorder, 'v) fmap \<Rightarrow> 'k list" where
  "fm_keys m = sorted_list_of_fset (fmdom m)"

definition fm_values :: "('k :: linorder, 'v) fmap \<Rightarrow> 'v list" where
  "fm_values m = map (\<lambda>k. the (fmlookup m k)) (fm_keys m)"

definition fm_entries :: "('k :: linorder, 'v) fmap \<Rightarrow> ('k \<times> 'v) list" where
  "fm_entries m = map (\<lambda>k. (k, the (fmlookup m k))) (fm_keys m)"

definition fm_contains :: "('k, 'v) fmap \<Rightarrow> 'k \<Rightarrow> bool" where
  "fm_contains m k \<longleftrightarrow> fmlookup m k \<noteq> None"

text \<open>\<open>retain\<close>: keep the entries the predicate accepts.\<close>

definition fm_retain :: "('k \<Rightarrow> 'v \<Rightarrow> bool) \<Rightarrow> ('k, 'v) fmap \<Rightarrow> ('k, 'v) fmap" where
  "fm_retain P m = fmfilter (\<lambda>k. case fmlookup m k of None \<Rightarrow> False | Some v \<Rightarrow> P k v) m"

lemma set_fm_keys [simp]: "set (fm_keys m) = fset (fmdom m)"
  by (simp add: fm_keys_def)

lemma distinct_fm_keys [simp]: "distinct (fm_keys m)"
  by (simp add: fm_keys_def sorted_list_of_fset.rep_eq)

lemma sorted_fm_keys [simp]: "sorted (fm_keys m)"
  by (simp add: fm_keys_def sorted_list_of_fset.rep_eq)

lemma length_fm_keys [simp]: "length (fm_keys m) = fm_len m"
  by (metis distinct_card distinct_fm_keys fcard.rep_eq fm_len_def set_fm_keys)

lemma length_fm_values [simp]: "length (fm_values m) = fm_len m"
  by (simp add: fm_values_def)

lemma set_fm_values: "v \<in> set (fm_values m) \<longleftrightarrow> (\<exists>k. fmlookup m k = Some v)"
  by (force simp: fm_values_def fmlookup_dom_iff image_iff)

lemma set_fm_entries: "(k, v) \<in> set (fm_entries m) \<longleftrightarrow> fmlookup m k = Some v"
  by (force simp: fm_entries_def fmlookup_dom_iff image_iff)

lemma fm_contains_iff: "fm_contains m k \<longleftrightarrow> k |\<in>| fmdom m"
  by (auto simp: fm_contains_def fmlookup_dom_iff)

lemma fm_contains_empty [simp]: "\<not> fm_contains fmempty k"
  by (simp add: fm_contains_def)

lemma fm_contains_upd [simp]: "fm_contains (fmupd k v m) k' \<longleftrightarrow> k' = k \<or> fm_contains m k'"
  by (auto simp: fm_contains_def)

lemma fm_contains_drop [simp]: "fm_contains (fmdrop k m) k' \<longleftrightarrow> k' \<noteq> k \<and> fm_contains m k'"
  by (auto simp: fm_contains_def)

lemma fmlookup_retain [simp]:
  "fmlookup (fm_retain P m) k =
     (case fmlookup m k of None \<Rightarrow> None | Some v \<Rightarrow> if P k v then Some v else None)"
  by (auto simp: fm_retain_def split: option.splits)

lemma fm_len_empty [simp]: "fm_len fmempty = 0"
  by (simp add: fm_len_def)

lemma fm_len_upd: "fm_len (fmupd k v m) = (if fm_contains m k then fm_len m else Suc (fm_len m))"
  by (auto simp: fm_len_def fm_contains_iff fcard_finsert_if finsert_absorb)

lemma fm_len_retain_le: "fm_len (fm_retain P m) \<le> fm_len m"
proof -
  have "fmdom (fm_retain P m) |\<subseteq>| fmdom m"
    by (auto simp: fm_retain_def)
  then show ?thesis by (simp add: fm_len_def fcard_mono)
qed

lemma fm_len_drop_le: "fm_len (fmdrop k m) \<le> fm_len m"
  unfolding fm_len_def by (rule fcard_mono) auto

lemma fm_keys_empty [simp]: "fm_keys fmempty = []"
  by (simp add: fm_keys_def sorted_list_of_fset.rep_eq)

lemma fm_values_empty [simp]: "fm_values fmempty = []"
  by (simp add: fm_values_def)

lemma fm_entries_empty [simp]: "fm_entries fmempty = []"
  by (simp add: fm_entries_def)

lemma fm_keys_upd:
  "fm_keys (fmupd k v m) = (if fm_contains m k then fm_keys m else insort k (fm_keys m))"
proof (cases "fm_contains m k")
  case True
  then have "fmdom (fmupd k v m) = fmdom m" by (auto simp: fm_contains_iff)
  with True show ?thesis by (simp only: fm_keys_def if_True)
next
  case False
  then show ?thesis
    by (simp add: fm_keys_def fm_contains_iff sorted_list_of_fset.rep_eq)
qed

lemma map_of_fm_entries [simp]: "map_of (fm_entries m) k = fmlookup m k"
proof (cases "fmlookup m k")
  case None
  then have "k \<notin> fst ` set (fm_entries m)" by (auto simp: set_fm_entries)
  with None show ?thesis by (simp add: map_of_eq_None_iff)
next
  case (Some v)
  have "map fst (fm_entries m) = fm_keys m" by (simp add: fm_entries_def comp_def)
  then have "distinct (map fst (fm_entries m))" by simp
  with Some show ?thesis by (simp add: set_fm_entries)
qed

lemma map_fst_fm_entries [simp]: "map fst (fm_entries m) = fm_keys m"
  by (simp add: fm_entries_def comp_def)

lemma fmupd_same: "fmlookup m k = Some v \<Longrightarrow> fmupd k v m = m"
  by (rule fmap_ext) auto

lemma fm_retain_empty [simp]: "fm_retain P fmempty = fmempty"
  by (rule fmap_ext) simp

lemma fm_retain_True [simp]: "fm_retain (\<lambda>_ _. True) m = m"
  by (rule fmap_ext) (simp split: option.splits)

lemma fm_retain_upd:
  "fm_retain P (fmupd k v m) =
     (if P k v then fmupd k v (fm_retain P m) else fm_retain P (fmdrop k m))"
  by (rule fmap_ext) (auto split: option.splits)

end
