(* ===== verification/Net.thy ===== *)
theory Net
  imports Prelude
begin

text \<open>
  Socket addresses: what \<open>crates/copypaste-p2p/src/netif.rs\<close> decides about them, over a model
  of the standard library's \<open>SocketAddr\<close> and of its \<open>FromStr\<close> parser. An IPv4 address is its
  four octets, an IPv6 address its eight 16-bit groups.
\<close>

datatype ip_addr =
    V4 nat nat nat nat
  | V6 "nat list"

record socket_addr =
  sa_ip :: ip_addr
  sa_port :: nat
  sa_scope :: nat

section \<open>Parsing\<close>

text \<open>
  The parser of \<open>core::net::parser\<close>: \<open>read_number\<close> reads the longest run of digits of the
  radix and refuses an empty run, one longer than \<open>max_digits\<close>, a value beyond the type and,
  for an IPv4 octet, a leading zero. A failed alternative consumes nothing.
\<close>

definition to_digit :: "nat \<Rightarrow> byte \<Rightarrow> nat option" where
  "to_digit radix b =
     (let c = of_char b;
          d = (if 48 \<le> c \<and> c \<le> 57 then c - 48
               else if 97 \<le> c \<and> c \<le> 122 then c - 87
               else if 65 \<le> c \<and> c \<le> 90 then c - 55
               else radix)
      in if d < radix then Some d else None)"

definition is_digit :: "nat \<Rightarrow> byte \<Rightarrow> bool" where
  "is_digit radix b \<longleftrightarrow> to_digit radix b \<noteq> None"

definition read_number ::
  "nat \<Rightarrow> nat option \<Rightarrow> nat \<Rightarrow> bool \<Rightarrow> bytes \<Rightarrow> (nat \<times> bytes) option" where
  "read_number radix max_digits limit allow_zero_prefix bs =
     (let ds = takeWhile (is_digit radix) bs;
          v = foldl (\<lambda>a b. a * radix + the (to_digit radix b)) 0 ds
      in if ds = []
            \<or> (case max_digits of None \<Rightarrow> False | Some m \<Rightarrow> m < length ds)
            \<or> limit < v
            \<or> (\<not> allow_zero_prefix \<and> hd ds = CHR ''0'' \<and> 1 < length ds)
         then None else Some (v, drop (length ds) bs))"

fun read_char :: "byte \<Rightarrow> bytes \<Rightarrow> bytes option" where
  "read_char c [] = None"
| "read_char c (b # bs) = (if b = c then Some bs else None)"

definition read_separator ::
  "byte \<Rightarrow> nat \<Rightarrow> (bytes \<Rightarrow> ('a \<times> bytes) option) \<Rightarrow> bytes \<Rightarrow> ('a \<times> bytes) option" where
  "read_separator sep index inner bs =
     (if index = 0 then inner bs
      else case read_char sep bs of None \<Rightarrow> None | Some bs' \<Rightarrow> inner bs')"

definition read_octet :: "nat \<Rightarrow> bytes \<Rightarrow> (nat \<times> bytes) option" where
  "read_octet i = read_separator (CHR ''.'') i (read_number 10 (Some 3) 255 False)"

definition read_ipv4 :: "bytes \<Rightarrow> (ip_addr \<times> bytes) option" where
  "read_ipv4 bs =
     (case read_octet 0 bs of None \<Rightarrow> None | Some (a, bs1) \<Rightarrow>
      case read_octet 1 bs1 of None \<Rightarrow> None | Some (b, bs2) \<Rightarrow>
      case read_octet 2 bs2 of None \<Rightarrow> None | Some (c, bs3) \<Rightarrow>
      case read_octet 3 bs3 of None \<Rightarrow> None | Some (d, bs4) \<Rightarrow> Some (V4 a b c d, bs4))"

text \<open>
  \<open>read_groups limit i\<close> reads the groups \<open>i, i + 1, \<dots>\<close> of at most \<open>limit\<close>; an embedded IPv4
  address takes two and ends the run. It returns the groups, whether they ended in an IPv4
  address, and the rest.
\<close>

fun read_groups :: "nat \<Rightarrow> nat \<Rightarrow> bytes \<Rightarrow> nat list \<times> bool \<times> bytes" where
  "read_groups 0 i bs = ([], False, bs)"
| "read_groups (Suc left) i bs =
     (case (if left = 0 then None else read_separator (CHR '':'') i read_ipv4 bs) of
        Some (V4 a b c d, bs') \<Rightarrow> ([a * 256 + b, c * 256 + d], True, bs')
      | _ \<Rightarrow>
        (case read_separator (CHR '':'') i (read_number 16 (Some 4) 65535 True) bs of
           None \<Rightarrow> ([], False, bs)
         | Some (g, bs') \<Rightarrow>
             (case read_groups left (Suc i) bs' of
                (gs, v4, rest) \<Rightarrow> (g # gs, v4, rest))))"

definition read_ipv6 :: "bytes \<Rightarrow> (ip_addr \<times> bytes) option" where
  "read_ipv6 bs =
     (case read_groups 8 0 bs of (hd_groups, hd_v4, bs1) \<Rightarrow>
        if length hd_groups = 8 then Some (V6 hd_groups, bs1)
        else if hd_v4 then None
        else case read_char (CHR '':'') bs1 of None \<Rightarrow> None | Some bs2 \<Rightarrow>
          case read_char (CHR '':'') bs2 of None \<Rightarrow> None | Some bs3 \<Rightarrow>
            (case read_groups (8 - (length hd_groups + 1)) 0 bs3 of (tl_groups, _, bs4) \<Rightarrow>
               Some (V6 (hd_groups @ replicate (8 - length hd_groups - length tl_groups) 0
                         @ tl_groups), bs4)))"

definition read_port :: "bytes \<Rightarrow> (nat \<times> bytes) option" where
  "read_port bs =
     (case read_char (CHR '':'') bs of None \<Rightarrow> None
      | Some bs' \<Rightarrow> read_number 10 None 65535 True bs')"

definition read_scope_id :: "bytes \<Rightarrow> nat \<times> bytes" where
  "read_scope_id bs =
     (case read_char (CHR ''%'') bs of None \<Rightarrow> (0, bs)
      | Some bs' \<Rightarrow> (case read_number 10 None 4294967295 True bs' of
          None \<Rightarrow> (0, bs) | Some r \<Rightarrow> r))"

definition read_socket_v4 :: "bytes \<Rightarrow> (socket_addr \<times> bytes) option" where
  "read_socket_v4 bs =
     (case read_ipv4 bs of None \<Rightarrow> None | Some (ip, bs1) \<Rightarrow>
      case read_port bs1 of None \<Rightarrow> None | Some (port, bs2) \<Rightarrow>
        Some (\<lparr>sa_ip = ip, sa_port = port, sa_scope = 0\<rparr>, bs2))"

definition read_socket_v6 :: "bytes \<Rightarrow> (socket_addr \<times> bytes) option" where
  "read_socket_v6 bs =
     (case read_char (CHR ''['') bs of None \<Rightarrow> None | Some bs1 \<Rightarrow>
      case read_ipv6 bs1 of None \<Rightarrow> None | Some (ip, bs2) \<Rightarrow>
      case read_scope_id bs2 of (scope, bs3) \<Rightarrow>
      case read_char (CHR '']'') bs3 of None \<Rightarrow> None | Some bs4 \<Rightarrow>
      case read_port bs4 of None \<Rightarrow> None | Some (port, bs5) \<Rightarrow>
        Some (\<lparr>sa_ip = ip, sa_port = port, sa_scope = scope\<rparr>, bs5))"

text \<open>\<open>str::parse::<SocketAddr>()\<close>: the whole text has to be one address.\<close>

definition parse_socket_addr :: "string \<Rightarrow> socket_addr option" where
  "parse_socket_addr s =
     (case (case read_socket_v4 s of Some r \<Rightarrow> Some r | None \<Rightarrow> read_socket_v6 s) of
        Some (a, []) \<Rightarrow> Some a
      | _ \<Rightarrow> None)"

section \<open>Dial targets\<close>

text \<open>\<open>Ipv6Addr::to_ipv4_mapped\<close>, and \<open>netif.rs\<close>'s \<open>to_canonical\<close>.\<close>

fun to_canonical :: "ip_addr \<Rightarrow> ip_addr" where
  "to_canonical (V6 gs) =
     (if length gs = 8 \<and> take 6 gs = [0, 0, 0, 0, 0, 65535]
      then V4 (gs ! 6 div 256) (gs ! 6 mod 256) (gs ! 7 div 256) (gs ! 7 mod 256)
      else V6 gs)"
| "to_canonical ip = ip"

fun is_loopback :: "ip_addr \<Rightarrow> bool" where
  "is_loopback (V4 a b c d) = (a = 127)"
| "is_loopback (V6 gs) = (gs = [0, 0, 0, 0, 0, 0, 0, 1])"

fun is_unspecified :: "ip_addr \<Rightarrow> bool" where
  "is_unspecified (V4 a b c d) = (a = 0 \<and> b = 0 \<and> c = 0 \<and> d = 0)"
| "is_unspecified (V6 gs) = list_all (\<lambda>g. g = 0) gs"

fun is_broadcast :: "ip_addr \<Rightarrow> bool" where
  "is_broadcast (V4 a b c d) = (a = 255 \<and> b = 255 \<and> c = 255 \<and> d = 255)"
| "is_broadcast (V6 gs) = False"

fun is_link_local :: "ip_addr \<Rightarrow> bool" where
  "is_link_local (V4 a b c d) = (a = 169 \<and> b = 254)"
| "is_link_local (V6 gs) = (case gs of [] \<Rightarrow> False | g # _ \<Rightarrow> g div 64 = 65152 div 64)"

fun is_multicast :: "ip_addr \<Rightarrow> bool" where
  "is_multicast (V4 a b c d) = (224 \<le> a \<and> a \<le> 239)"
| "is_multicast (V6 gs) = (case gs of [] \<Rightarrow> False | g # _ \<Rightarrow> g div 256 = 255)"

definition is_dialable :: "socket_addr \<Rightarrow> bool" where
  "is_dialable addr =
     (if sa_port addr = 0 then False
      else let ip = to_canonical (sa_ip addr) in
        (case ip of
           V4 _ _ _ _ \<Rightarrow> \<not> is_unspecified ip \<and> \<not> is_broadcast ip \<and> \<not> is_link_local ip
                          \<and> \<not> is_multicast ip
         | V6 _ \<Rightarrow> \<not> is_unspecified ip \<and> \<not> is_link_local ip \<and> \<not> is_multicast ip))"

definition is_peer_reachable :: "ip_addr \<Rightarrow> bool" where
  "is_peer_reachable ip0 =
     (let ip = to_canonical ip0 in
        (case ip of
           V4 _ _ _ _ \<Rightarrow> \<not> is_loopback ip \<and> \<not> is_unspecified ip \<and> \<not> is_broadcast ip
                          \<and> \<not> is_link_local ip \<and> \<not> is_multicast ip
         | V6 _ \<Rightarrow> \<not> is_loopback ip \<and> \<not> is_unspecified ip \<and> \<not> is_link_local ip
                    \<and> \<not> is_multicast ip))"

text \<open>
  \<open>routable_ip\<close>: the reachable addresses of \<open>local_ips()\<close>, an IPv4 one first
  (\<open>min_by_key\<close> keeps the first of the least).
\<close>

fun is_ipv6 :: "ip_addr \<Rightarrow> bool" where
  "is_ipv6 (V4 a b c d) = False"
| "is_ipv6 (V6 gs) = True"

definition routable_ip :: "ip_addr list \<Rightarrow> ip_addr option" where
  "routable_ip local_ips =
     (let reachable = filter is_peer_reachable local_ips in
        (case filter (\<lambda>ip. \<not> is_ipv6 ip) reachable of
           ip # _ \<Rightarrow> Some ip
         | [] \<Rightarrow> (case reachable of [] \<Rightarrow> None | ip # _ \<Rightarrow> Some ip)))"

text \<open>
  \<open>LocalAddrs\<close>: the enumeration is reused for thirty seconds. \<open>enumerate\<close> stands for the
  addresses \<open>local_ips()\<close> returns when it is asked.
\<close>

definition cache_ttl_ms :: int where
  "cache_ttl_ms = 30000"

type_synonym local_addrs = "(int \<times> ip_addr list) option"

definition is_local :: "ip_addr list \<Rightarrow> local_addrs \<Rightarrow> ip_addr \<Rightarrow> int \<Rightarrow> bool \<times> local_addrs" where
  "is_local now_ips cached ip0 now_ms =
     (let ip = to_canonical ip0;
          fresh = (case cached of None \<Rightarrow> False
                   | Some (taken_at, _) \<Rightarrow>
                       i64_saturating_add now_ms (- taken_at) < cache_ttl_ms);
          cached' = (if fresh then cached else Some (now_ms, now_ips))
      in ((case cached' of None \<Rightarrow> False
           | Some (_, ips) \<Rightarrow> ip \<in> set (map to_canonical ips)), cached'))"

definition is_own_endpoint ::
  "ip_addr list \<Rightarrow> local_addrs \<Rightarrow> nat \<Rightarrow> socket_addr \<Rightarrow> int \<Rightarrow> bool \<times> local_addrs" where
  "is_own_endpoint now_ips cached configured_port addr now_ms =
     (if sa_port addr = configured_port then is_local now_ips cached (sa_ip addr) now_ms
      else (False, cached))"

lemma to_canonical_idem [simp]: "to_canonical (to_canonical ip) = to_canonical ip"
  by (cases ip) auto

text \<open>No stored dial target aims at the network instead of a device.\<close>

lemma is_dialable_safe:
  assumes "is_dialable addr"
  shows "sa_port addr \<noteq> 0" "\<not> is_unspecified (to_canonical (sa_ip addr))"
    "\<not> is_multicast (to_canonical (sa_ip addr))" "\<not> is_broadcast (to_canonical (sa_ip addr))"
    "\<not> is_link_local (to_canonical (sa_ip addr))"
  using assms
  by (auto simp: is_dialable_def Let_def split: if_splits ip_addr.splits)

end
