(* ===== verification/Wire_Base.thy ===== *)
theory Wire_Base
  imports Net
begin

text \<open>
  The data of one peer connection and the field checks: the constants, \<open>ItemSummary\<close> and
  \<open>SyncItem\<close> of \<open>crates/copypaste-p2p/src/protocol.rs\<close>, the error types of \<open>codec.rs\<close> and
  \<open>sync/error.rs\<close>, the \<open>check_*\<close> functions and \<open>SyncItem::validate\<close> of \<open>codec.rs\<close>, and the
  device profile they bound.
\<close>

section \<open>Limits\<close>

definition protocol_version :: nat where "protocol_version = 11"
definition file_chunk_bytes :: nat where "file_chunk_bytes = 65536"
definition max_summaries_per_message :: nat where "max_summaries_per_message = 10000"
definition max_summary_pages_per_session :: nat where "max_summary_pages_per_session = 16"
definition max_request_ids_per_message :: nat where "max_request_ids_per_message = 1000"
definition max_items_per_message :: nat where "max_items_per_message = 8"
definition max_content_bytes :: nat where "max_content_bytes = 4194304"
definition max_sync_metadata_bytes :: nat where "max_sync_metadata_bytes = 49152"
definition max_item_bytes_per_message :: nat where
  "max_item_bytes_per_message = max_content_bytes + max_sync_metadata_bytes"
definition max_message_bytes :: nat where "max_message_bytes = 33554432"
definition max_id_bytes :: nat where "max_id_bytes = 128"
definition max_device_name_bytes :: nat where "max_device_name_bytes = 128"
definition max_listen_addr_bytes :: nat where "max_listen_addr_bytes = 64"
definition max_content_type_bytes :: nat where "max_content_type_bytes = 64"
definition max_hash_bytes :: nat where "max_hash_bytes = 128"

lemmas limit_defs =
  protocol_version_def file_chunk_bytes_def max_summaries_per_message_def
  max_summary_pages_per_session_def max_request_ids_per_message_def max_items_per_message_def
  max_content_bytes_def max_sync_metadata_bytes_def max_item_bytes_per_message_def
  max_message_bytes_def max_id_bytes_def max_device_name_bytes_def max_listen_addr_bytes_def
  max_content_type_bytes_def max_hash_bytes_def

section \<open>Errors\<close>

datatype protocol_error =
    VersionMismatch (ours: nat) (theirs: nat)
  | MessageTooLarge nat nat
  | TooManyEntries string nat nat
  | ContentTooLarge nat nat
  | BatchTooLarge nat nat
  | FieldTooLong string nat nat
  | FieldEmpty string
  | InvalidListenAddr
  | NegativeTimestamp string
  | InvalidPinState
  | Encode string
  | Decode string

datatype sync_issue_code =
    IssueVersionMismatch | ConnectionLost | SecureChannelInterrupted | TimedOut | HistoryBusy
  | ResourcesUnavailable | HistoryUnavailable | StorageFull | StoragePermissionDenied
  | HistoryLocked | HistoryCorrupt | HistoryIncompatible | LocalPayloadInvalid
  | EncryptionUnavailable | MembershipUnavailable | MembershipRejected | InvalidPeerData
  | ProtocolLimit | LocalProtocolError | ItemsTooLarge | ItemsUnavailable | ItemsRejected
  | ClockSkew | MorePending | UnknownFailure

datatype sync_error =
    Protocol protocol_error
  | Channel string
  | Cancelled
  | Diagnostic sync_issue_code
  | Unexpected string string
  | Source string
  | SelfSync
  | PeerOverran
  | TooManySummaryPages

section \<open>Device profiles\<close>

datatype device_platform = Macos | Windows | Android | UnknownPlatform | Linux
datatype device_class = Desktop | Laptop | Phone | Tablet | UnknownClass

record device_profile =
  dp_app_version :: "string option"
  dp_protocol_version :: "nat option"
  dp_platform :: device_platform
  dp_device_class :: device_class
  dp_os_name :: "string option"
  dp_os_version :: "string option"
  dp_model :: "string option"

text \<open>
  The wire form of a profile: Linux is written as an unknown platform with a detail, so a
  build that does not know it reads \<open>Unknown\<close>.
\<close>

definition profile_wire_platform :: "device_platform \<Rightarrow> device_platform \<times> string option" where
  "profile_wire_platform p = (case p of Linux \<Rightarrow> (UnknownPlatform, Some ''linux'') | _ \<Rightarrow> (p, None))"

definition profile_read_platform :: "device_platform \<Rightarrow> string option \<Rightarrow> device_platform" where
  "profile_read_platform p detail =
     (if p = Linux \<or> (p = UnknownPlatform \<and> detail = Some ''linux'') then Linux else p)"

section \<open>Summaries and items\<close>

record item_summary =
  s_item_id :: string
  s_created_at :: int
  s_deleted :: bool
  s_content_hash :: string
  s_origin_device_id :: string
  s_pinned :: bool
  s_pin_order :: "f64 option"
  s_pin_updated_at :: int

record sync_item =
  i_item_id :: string
  i_content :: string
  i_binary_content :: bytes
  i_payload_metadata :: "string option"
  i_source_app_bundle_id :: "string option"
  i_source_app_name :: "string option"
  i_content_type :: string
  i_created_at :: int
  i_deleted :: bool
  i_content_hash :: string
  i_origin_device_id :: string
  i_pinned :: bool
  i_pin_order :: "f64 option"
  i_pin_updated_at :: int

definition summary :: "sync_item \<Rightarrow> item_summary" where
  "summary i =
     \<lparr>s_item_id = i_item_id i, s_created_at = i_created_at i, s_deleted = i_deleted i,
      s_content_hash = i_content_hash i, s_origin_device_id = i_origin_device_id i,
      s_pinned = i_pinned i, s_pin_order = i_pin_order i,
      s_pin_updated_at = i_pin_updated_at i\<rparr>"

text \<open>
  The derived \<open>PartialEq\<close> of \<open>ItemSummary\<close>: field by field, where \<open>pin_order\<close> is compared as
  an \<open>Option<f64>\<close>.
\<close>

definition pin_order_eq :: "f64 option \<Rightarrow> f64 option \<Rightarrow> bool" where
  "pin_order_eq a b =
     (case (a, b) of (None, None) \<Rightarrow> True | (Some x, Some y) \<Rightarrow> f64_eq x y | _ \<Rightarrow> False)"

definition summary_eq :: "item_summary \<Rightarrow> item_summary \<Rightarrow> bool" where
  "summary_eq a b \<longleftrightarrow>
     s_item_id a = s_item_id b \<and> s_created_at a = s_created_at b \<and> s_deleted a = s_deleted b
     \<and> s_content_hash a = s_content_hash b \<and> s_origin_device_id a = s_origin_device_id b
     \<and> s_pinned a = s_pinned b \<and> pin_order_eq (s_pin_order a) (s_pin_order b)
     \<and> s_pin_updated_at a = s_pin_updated_at b"

lemma summary_sel [simp]:
  "s_item_id (summary i) = i_item_id i" "s_created_at (summary i) = i_created_at i"
  "s_deleted (summary i) = i_deleted i" "s_content_hash (summary i) = i_content_hash i"
  "s_origin_device_id (summary i) = i_origin_device_id i" "s_pinned (summary i) = i_pinned i"
  "s_pin_order (summary i) = i_pin_order i" "s_pin_updated_at (summary i) = i_pin_updated_at i"
  by (simp_all add: summary_def)

section \<open>Field checks\<close>

definition check_protocol_version :: "nat \<Rightarrow> protocol_error + unit" where
  "check_protocol_version v =
     (if v \<noteq> protocol_version then Inl (VersionMismatch protocol_version v) else Inr ())"

definition check_count :: "string \<Rightarrow> nat \<Rightarrow> nat \<Rightarrow> protocol_error + unit" where
  "check_count kind n mx = (if n > mx then Inl (TooManyEntries kind n mx) else Inr ())"

definition check_len :: "string \<Rightarrow> string \<Rightarrow> nat \<Rightarrow> protocol_error + unit" where
  "check_len field v mx =
     (if length v > mx then Inl (FieldTooLong field (length v) mx) else Inr ())"

definition check_id :: "string \<Rightarrow> string \<Rightarrow> protocol_error + unit" where
  "check_id field v = (if v = [] then Inl (FieldEmpty field) else check_len field v max_id_bytes)"

definition check_timestamp :: "int \<Rightarrow> protocol_error + unit" where
  "check_timestamp t = (if t < 0 then Inl (NegativeTimestamp ''created_at'') else Inr ())"

definition check_pin_state :: "bool \<Rightarrow> f64 option \<Rightarrow> protocol_error + unit" where
  "check_pin_state pinned pin_order =
     (if (case pin_order of None \<Rightarrow> False | Some v \<Rightarrow> \<not> f64_is_finite v)
         \<or> pinned \<noteq> (pin_order \<noteq> None)
      then Inl InvalidPinState else Inr ())"

definition check_len_opt :: "string \<Rightarrow> string option \<Rightarrow> nat \<Rightarrow> protocol_error + unit" where
  "check_len_opt field v mx = (case v of None \<Rightarrow> Inr () | Some s \<Rightarrow> check_len field s mx)"

definition validate_device_profile :: "device_profile \<Rightarrow> protocol_error + unit" where
  "validate_device_profile p = first_err
     [check_len_opt ''app_version'' (dp_app_version p) 64,
      check_len_opt ''os_name'' (dp_os_name p) 64,
      check_len_opt ''os_version'' (dp_os_version p) 64,
      check_len_opt ''model'' (dp_model p) 128]"

definition validate_profile_opt :: "device_profile option \<Rightarrow> protocol_error + unit" where
  "validate_profile_opt p = (case p of None \<Rightarrow> Inr () | Some p \<Rightarrow> validate_device_profile p)"

lemma check_ok_iff:
  "check_protocol_version v = Inr u \<longleftrightarrow> v = protocol_version"
  "check_count kind n mx = Inr u \<longleftrightarrow> n \<le> mx"
  "check_len field s mx = Inr u \<longleftrightarrow> length s \<le> mx"
  "check_id field s = Inr u \<longleftrightarrow> s \<noteq> [] \<and> length s \<le> max_id_bytes"
  "check_timestamp t = Inr u \<longleftrightarrow> 0 \<le> t"
  "check_pin_state pinned po = Inr u \<longleftrightarrow>
     (case po of None \<Rightarrow> \<not> pinned | Some v \<Rightarrow> pinned \<and> f64_is_finite v)"
  by (auto simp: check_protocol_version_def check_count_def check_len_def check_id_def
      check_timestamp_def check_pin_state_def split: option.splits)

section \<open>The wire contract of one item\<close>

definition content_type_file :: string where "content_type_file = ''file''"
definition content_type_text :: string where "content_type_text = ''text''"

text \<open>\<open>content_type::is_text\<close> and \<open>content_type::is_binary\<close>.\<close>

definition is_text :: "string \<Rightarrow> bool" where
  "is_text ct \<longleftrightarrow> ct = content_type_text \<or> starts_with ct ''text/''"

definition is_binary :: "string \<Rightarrow> bool" where
  "is_binary ct \<longleftrightarrow> \<not> is_text ct"

datatype content_class = TextClass | ImageClass | FileClass | OtherClass

definition classify :: "string \<Rightarrow> content_class" where
  "classify ct =
     (if is_text ct then TextClass
      else if starts_with ct ''image/'' then ImageClass
      else if ct = content_type_file then FileClass
      else OtherClass)"

text \<open>
  \<open>SyncItem::validate\<close>. \<open>metadata_ok json content_type\<close> stands for
  \<open>PayloadMetadata::from_json(json, content_type).is_some()\<close>.
\<close>

type_synonym metadata_check = "string \<Rightarrow> string \<Rightarrow> bool"

definition content_len :: "sync_item \<Rightarrow> nat" where
  "content_len i = usize_saturating_add (length (i_content i)) (length (i_binary_content i))"

definition metadata_len :: "sync_item \<Rightarrow> nat" where
  "metadata_len i = (case i_payload_metadata i of None \<Rightarrow> 0 | Some m \<Rightarrow> length m)"

definition validate_item :: "metadata_check \<Rightarrow> sync_item \<Rightarrow> protocol_error + unit" where
  "validate_item metadata_ok i = first_err
     ([check_id ''item_id'' (i_item_id i),
       check_id ''origin_device_id'' (i_origin_device_id i),
       check_len ''content_type'' (i_content_type i) max_content_type_bytes,
       if \<not> i_deleted i \<and> i_content_type i = content_type_file \<and> i_payload_metadata i = None
       then Inl (Decode ''file item has no payload metadata'') else Inr ()]
      @ (case i_payload_metadata i of
           None \<Rightarrow> []
         | Some m \<Rightarrow>
            [check_len ''payload_metadata'' m max_sync_metadata_bytes,
             if i_deleted i \<or> \<not> metadata_ok m (i_content_type i)
             then Inl (Decode ''item carries invalid payload metadata'') else Inr ()])
      @ [check_len ''content_hash'' (i_content_hash i) max_hash_bytes,
         check_timestamp (i_created_at i),
         check_timestamp (i_pin_updated_at i),
         check_pin_state (i_pinned i) (i_pin_order i),
         if i_content i \<noteq> [] \<and> i_binary_content i \<noteq> []
         then Inl (Decode ''item has both text and binary content'') else Inr (),
         if content_len i > max_content_bytes
         then Inl (ContentTooLarge (content_len i) max_content_bytes) else Inr ()])"

definition item_ok :: "metadata_check \<Rightarrow> sync_item \<Rightarrow> bool" where
  "item_ok metadata_ok i \<longleftrightarrow>
     i_item_id i \<noteq> [] \<and> length (i_item_id i) \<le> max_id_bytes
     \<and> i_origin_device_id i \<noteq> [] \<and> length (i_origin_device_id i) \<le> max_id_bytes
     \<and> length (i_content_type i) \<le> max_content_type_bytes
     \<and> (\<not> i_deleted i \<longrightarrow> i_content_type i = content_type_file \<longrightarrow> i_payload_metadata i \<noteq> None)
     \<and> (case i_payload_metadata i of None \<Rightarrow> True
        | Some m \<Rightarrow> length m \<le> max_sync_metadata_bytes \<and> \<not> i_deleted i
                    \<and> metadata_ok m (i_content_type i))
     \<and> length (i_content_hash i) \<le> max_hash_bytes
     \<and> 0 \<le> i_created_at i \<and> 0 \<le> i_pin_updated_at i
     \<and> (case i_pin_order i of None \<Rightarrow> \<not> i_pinned i | Some v \<Rightarrow> i_pinned i \<and> f64_is_finite v)
     \<and> (i_content i = [] \<or> i_binary_content i = [])
     \<and> content_len i \<le> max_content_bytes"

lemma validate_item_ok_iff: "validate_item mo i = Inr u \<longleftrightarrow> item_ok mo i"
  by (cases "i_payload_metadata i")
     (auto simp: validate_item_def item_ok_def first_err_ok_iff check_ok_iff)

lemma item_ok_content_len:
  "item_ok mo i \<Longrightarrow> length (i_content i) + length (i_binary_content i) \<le> max_content_bytes"
  by (auto simp: item_ok_def content_len_def usize_saturating_add_def usize_max_def
      max_content_bytes_def)

lemma item_ok_metadata_len: "item_ok mo i \<Longrightarrow> metadata_len i \<le> max_sync_metadata_bytes"
  by (auto simp: item_ok_def metadata_len_def split: option.splits)

lemma item_ok_summary_eq: "item_ok mo i \<Longrightarrow> summary_eq (summary i) (summary i)"
  by (auto simp: item_ok_def summary_eq_def pin_order_eq_def f64_finite_eq_refl
      split: option.splits)

lemma profile_platform_roundtrip:
  "profile_wire_platform p = (w, d) \<Longrightarrow> profile_read_platform w d = p"
  by (cases p) (auto simp: profile_wire_platform_def profile_read_platform_def)

end
