(* ===== verification/Merge.thy ===== *)
theory Merge
  imports Wire_Base "HOL-Library.Product_Lexorder" "HOL-Library.Option_ord"
begin

text \<open>
  The merge decision (\<open>crates/copypaste-p2p/src/sync/merge.rs\<close>): which of two versions of one
  item survives, for the content and, separately, for the pin state. The locale \<open>lww\<close> is the
  contract both comparators meet, a last-write-wins register over a linearly ordered key; its
  lemmas are the convergence facts the rest of the development uses.
\<close>

section \<open>The comparators\<close>

datatype MergeDecision = KeepLocal | TakeRemote

definition decide :: "'a :: linorder \<Rightarrow> 'a \<Rightarrow> MergeDecision option" where
  "decide local remote =
     (case cmp remote local of
        Greater \<Rightarrow> Some TakeRemote
      | Less \<Rightarrow> Some KeepLocal
      | Equal \<Rightarrow> None)"

fun or_else :: "'a option \<Rightarrow> 'a option \<Rightarrow> 'a option" where
  "or_else (Some a) y = Some a"
| "or_else None y = y"

definition merge_decision ::
  "item_summary \<Rightarrow> string \<Rightarrow> item_summary \<Rightarrow> string \<Rightarrow> MergeDecision" where
  "merge_decision local local_origin remote remote_origin =
     (case
        or_else (decide (s_created_at local) (s_created_at remote))
       (or_else (decide (s_content_hash local) (s_content_hash remote))
       (or_else (decide (s_deleted local) (s_deleted remote))
                (decide local_origin remote_origin)))
      of Some d \<Rightarrow> d | None \<Rightarrow> KeepLocal)"

definition merge_decision_by_summary :: "item_summary \<Rightarrow> item_summary \<Rightarrow> MergeDecision" where
  "merge_decision_by_summary local remote =
     merge_decision local (s_origin_device_id local) remote (s_origin_device_id remote)"

definition pin_state_wins :: "item_summary \<Rightarrow> item_summary \<Rightarrow> bool" where
  "pin_state_wins local remote \<longleftrightarrow>
     then_with
       (then_with (cmp (s_pin_updated_at remote) (s_pin_updated_at local))
       (then_with (cmp (s_origin_device_id remote) (s_origin_device_id local))
                  (cmp (s_pinned remote) (s_pinned local))))
       (case (s_pin_order remote, s_pin_order local) of
          (Some r, Some l) \<Rightarrow> cmp (f64_total_key r) (f64_total_key l)
        | (Some _, None) \<Rightarrow> Greater
        | (None, Some _) \<Rightarrow> Less
        | (None, None) \<Rightarrow> Equal)
     = Greater"

definition remote_version_wins :: "item_summary \<Rightarrow> item_summary \<Rightarrow> bool" where
  "remote_version_wins local remote \<longleftrightarrow>
     merge_decision_by_summary local remote = TakeRemote
     \<or> (\<not> s_deleted local \<and> \<not> s_deleted remote \<and> pin_state_wins local remote)"

section \<open>Last-write-wins registers\<close>

text \<open>Delivering a list of versions to a register that holds one.\<close>

fun settle :: "('v \<Rightarrow> 'v \<Rightarrow> bool) \<Rightarrow> 'v \<Rightarrow> 'v list \<Rightarrow> 'v" where
  "settle wins v [] = v"
| "settle wins v (r # rs) = settle wins (if wins v r then r else v) rs"

locale lww =
  fixes wins :: "'v \<Rightarrow> 'v \<Rightarrow> bool"
    and key :: "'v \<Rightarrow> 'k :: linorder"
  assumes wins_iff: "wins l r \<longleftrightarrow> key l < key r"
begin

lemma irreflexive: "\<not> wins v v"
  by (simp add: wins_iff)

lemma asymmetric: "wins l r \<Longrightarrow> \<not> wins r l"
  by (simp add: wins_iff)

lemma transitive: "wins a b \<Longrightarrow> wins b c \<Longrightarrow> wins a c"
  by (auto simp: wins_iff)

lemma total: "wins l r \<or> wins r l \<or> key l = key r"
  by (auto simp: wins_iff)

lemma key_step: "key (if wins v r then r else v) = max (key v) (key r)"
  by (auto simp: wins_iff max_def)

lemma settle_key: "key (settle wins v rs) = Max (insert (key v) (key ` set rs))"
proof (induction rs arbitrary: v)
  case Nil
  then show ?case by simp
next
  case (Cons r rs)
  have "Max (insert (max (key v) (key r)) (key ` set rs))
        = Max (insert (key v) (insert (key r) (key ` set rs)))"
    by (cases "rs = []") (simp_all add: max.assoc)
  with Cons.IH[of "if wins v r then r else v"] show ?case
    by (simp only: settle.simps key_step list.set image_insert)
qed

lemma settle_order_independent:
  "insert v (set rs) = insert w (set qs) \<Longrightarrow> key (settle wins v rs) = key (settle wins w qs)"
  by (metis image_insert settle_key)

lemma settle_member: "settle wins v rs \<in> insert v (set rs)"
  by (induction rs arbitrary: v) (auto split: if_splits)

lemma settle_idle: "\<forall>r \<in> set rs. \<not> wins v r \<Longrightarrow> settle wins v rs = v"
  by (induction rs) auto

lemma settle_replay: "set qs \<subseteq> insert v (set rs) \<Longrightarrow> settle wins (settle wins v rs) qs = settle wins v rs"
proof (rule settle_idle)
  assume sub: "set qs \<subseteq> insert v (set rs)"
  have "key r \<le> key (settle wins v rs)" if "r \<in> insert v (set rs)" for r
    using that unfolding settle_key by (intro Max_ge) auto
  with sub show "\<forall>r\<in>set qs. \<not> wins (settle wins v rs) r"
    by (auto simp: wins_iff not_less)
qed

end

section \<open>The two orders\<close>

text \<open>The version key of the content order, and the key of the pin order.\<close>

definition content_key :: "item_summary \<Rightarrow> int \<times> string \<times> bool \<times> string" where
  "content_key s = (s_created_at s, s_content_hash s, s_deleted s, s_origin_device_id s)"

definition pin_key :: "item_summary \<Rightarrow> int \<times> string \<times> bool \<times> int option" where
  "pin_key s =
     (s_pin_updated_at s, s_origin_device_id s, s_pinned s, map_option f64_total_key (s_pin_order s))"

definition takes_remote :: "item_summary \<Rightarrow> item_summary \<Rightarrow> bool" where
  "takes_remote local remote \<longleftrightarrow> merge_decision_by_summary local remote = TakeRemote"

lemma merge_decision_iff:
  "merge_decision l lo r ro = TakeRemote \<longleftrightarrow>
     (s_created_at l, s_content_hash l, s_deleted l, lo)
     < (s_created_at r, s_content_hash r, s_deleted r, ro)"
  by (auto simp: merge_decision_def decide_def cmp_def less_prod_def')

lemma map_option_f64_key_inj:
  "map_option f64_total_key a = map_option f64_total_key b \<Longrightarrow> a = b"
  by (cases a; cases b) (auto dest: f64_total_key_inj)

lemma takes_remote_iff: "takes_remote l r \<longleftrightarrow> content_key l < content_key r"
  by (simp add: takes_remote_def merge_decision_by_summary_def merge_decision_iff content_key_def)

lemma pin_state_wins_iff: "pin_state_wins l r \<longleftrightarrow> pin_key l < pin_key r"
  by (auto simp: pin_state_wins_def pin_key_def then_with_Greater then_with_Equal
      less_prod_def' split: option.splits)

interpretation content: lww takes_remote content_key
  by unfold_locales (rule takes_remote_iff)

interpretation pin: lww pin_state_wins pin_key
  by unfold_locales (rule pin_state_wins_iff)

lemma not_TakeRemote [simp]: "d \<noteq> TakeRemote \<longleftrightarrow> d = KeepLocal"
  by (cases d) auto

lemma remote_version_wins_iff:
  "remote_version_wins l r \<longleftrightarrow>
     takes_remote l r \<or> \<not> s_deleted l \<and> \<not> s_deleted r \<and> pin_state_wins l r"
  by (simp add: remote_version_wins_def takes_remote_def)

lemma remote_version_wins_irrefl [simp]: "\<not> remote_version_wins s s"
  by (simp add: remote_version_wins_iff content.irreflexive pin.irreflexive)

text \<open>Two devices that compare the same two versions name the same survivor.\<close>

lemma merge_decision_symmetric:
  "merge_decision a ao b bo =
     (if (s_created_at a, s_content_hash a, s_deleted a, ao)
         = (s_created_at b, s_content_hash b, s_deleted b, bo)
      then KeepLocal
      else if merge_decision b bo a ao = TakeRemote then KeepLocal else TakeRemote)"
  by (cases "merge_decision a ao b bo"; cases "merge_decision b bo a ao")
     (use merge_decision_iff[of a ao b bo] merge_decision_iff[of b bo a ao] in auto)

section \<open>Properties\<close>

text \<open>
  C18: delivery order does not matter. A device that starts with one version of an item and
  receives others one at a time, in any order and any number of times, ends with a version
  whose merge key is the greatest it has seen, so two devices that have seen the same versions
  hold the same one.
\<close>

theorem merge_converges:
  "content_key (settle takes_remote v vs) = Max (content_key ` set (v # vs))"
  by (simp add: content.settle_key)

text \<open>
  A delete beats the version it deletes. A tombstone that keeps the content hash and is
  stamped no earlier than the live version wins whatever the two origins are, and the live
  version never replaces it.
\<close>

theorem tombstone_beats_its_live_version:
  assumes "s_deleted dead" and "\<not> s_deleted live"
    and "s_content_hash dead = s_content_hash live"
    and "s_created_at live \<le> s_created_at dead"
  shows "merge_decision live lo dead d = TakeRemote \<and> merge_decision dead d live lo = KeepLocal"
proof -
  from assms have take: "merge_decision live lo dead d = TakeRemote"
    by (auto simp: merge_decision_iff less_prod_def')
  moreover from take have "\<not> merge_decision dead d live lo = TakeRemote"
    by (auto simp: merge_decision_iff less_prod_def')
  ultimately show ?thesis by simp
qed

theorem tombstone_beats_its_live_version_witness:
  "let live = \<lparr>s_item_id = ''i'', s_created_at = 5, s_deleted = False, s_content_hash = ''h'',
        s_origin_device_id = ''z'', s_pinned = False, s_pin_order = None, s_pin_updated_at = 0\<rparr>;
       dead = live\<lparr>s_deleted := True\<rparr>
   in merge_decision live ''zzz'' dead ''aaa'' = TakeRemote
      \<and> merge_decision dead ''aaa'' live ''zzz'' = KeepLocal"
  unfolding Let_def by (rule tombstone_beats_its_live_version) simp_all

text \<open>
  The pin state is a register of its own, and pinning is not decided by the content stamp:
  delivering pin states in any order ends in the greatest by stamp, then origin, then pinned,
  then order, under \<open>f64::total_cmp\<close>, and equal keys mean equal pin states.
\<close>

theorem pin_state_converges:
  "pin_key (settle pin_state_wins v vs) = Max (pin_key ` set (v # vs))
   \<and> (pin_key a = pin_key b \<longrightarrow>
        s_pinned a = s_pinned b \<and> s_pin_order a = s_pin_order b
        \<and> s_pin_updated_at a = s_pin_updated_at b)"
proof
  show "pin_key (settle pin_state_wins v vs) = Max (pin_key ` set (v # vs))"
    by (simp only: pin.settle_key list.set image_insert)
  show "pin_key a = pin_key b \<longrightarrow>
        s_pinned a = s_pinned b \<and> s_pin_order a = s_pin_order b
        \<and> s_pin_updated_at a = s_pin_updated_at b"
    by (auto simp: pin_key_def map_option_f64_key_inj)
qed

theorem pin_state_converges_witness:
  "let v = \<lparr>s_item_id = ''i'', s_created_at = 5, s_deleted = False, s_content_hash = ''h'',
        s_origin_device_id = ''d'', s_pinned = True, s_pin_order = Some 7, s_pin_updated_at = 3\<rparr>;
       w = v\<lparr>s_created_at := 9, s_content_hash := ''k''\<rparr>
   in pin_key (settle pin_state_wins v [w, v]) = Max (pin_key ` set [v, w, v])
      \<and> s_pinned v = s_pinned w \<and> s_pin_order v = s_pin_order w
      \<and> s_pin_updated_at v = s_pin_updated_at w"
proof -
  define v :: item_summary where "v = \<lparr>s_item_id = ''i'', s_created_at = 5, s_deleted = False,
     s_content_hash = ''h'', s_origin_device_id = ''d'', s_pinned = True, s_pin_order = Some 7,
     s_pin_updated_at = 3\<rparr>"
  define w where "w = v\<lparr>s_created_at := 9, s_content_hash := ''k''\<rparr>"
  have "pin_key v = pin_key w" by (simp add: pin_key_def w_def)
  with pin_state_converges[of v "[w, v]" v w] show ?thesis
    unfolding Let_def v_def[symmetric] w_def[symmetric] by blast
qed

end
