(* ===== verification/Peers_Base.thy ===== *)
theory Peers_Base
  imports Wire_Base
begin

text \<open>
  One paired device and the errors of the paired-device store:
  \<open>crates/copypaste-p2p/src/peers/error.rs\<close>, \<open>peers/peer.rs\<close>, the constants of
  \<open>peers/mod.rs\<close>, and the pairing-id rule of \<open>discovery/names.rs\<close>. A \<open>[u8; 32]\<close> is an octet
  list; the records that hold one keep its length as part of their invariants.
\<close>

definition max_pairings :: nat where "max_pairings = 16"
definition max_revocations :: nat where "max_revocations = 4096"
definition token_len :: nat where "token_len = 32"
definition max_pairing_id_len :: nat where "max_pairing_id_len = 128"
definition discovery_max_pairing_id_len :: nat where "discovery_max_pairing_id_len = 64"

lemmas peer_limit_defs =
  max_pairings_def max_revocations_def token_len_def max_pairing_id_len_def
  discovery_max_pairing_id_len_def

datatype peer_store_error =
    Io string
  | Corrupt
  | Encrypt
  | Invalid string
  | Revoked
  | AlreadyPaired
  | TooManyPairings
  | TooManyRevocations
  | Contended
  | Poisoned

record peer =
  p_pairing_id :: string
  p_device_id :: "string option"
  p_name :: string
  p_psk :: bytes
  p_last_addr :: "socket_addr option"
  p_last_seen_ms :: int
  p_profile :: "device_profile option"
  p_profile_observed_at_ms :: int

text \<open>A revoked pairing as the listing reports it.\<close>

record revoked_device =
  rd_pairing_id :: string
  rd_revoked_at_ms :: int

definition zero_key :: bytes where
  "zero_key = replicate 32 (CHR 0x00)"

text \<open>\<open>Peer::psk_matches\<close>: equality; that it takes constant time is not part of its value.\<close>

definition psk_matches :: "peer \<Rightarrow> bytes \<Rightarrow> bool" where
  "psk_matches p candidate \<longleftrightarrow> p_psk p = candidate"

definition validate_pairing_id :: "string \<Rightarrow> peer_store_error + unit" where
  "validate_pairing_id pid =
     (if pid = [] then Inl (Invalid ''pairing id is empty'')
      else if length pid > max_pairing_id_len then Inl (Invalid ''pairing id is implausibly long'')
      else Inr ())"

definition validate_peer :: "peer \<Rightarrow> peer_store_error + unit" where
  "validate_peer p = first_err
     ([validate_pairing_id (p_pairing_id p),
       if (case p_device_id p of None \<Rightarrow> False | Some d \<Rightarrow> d = [] \<or> length d > max_id_bytes)
       then Inl (Invalid ''device id is invalid'') else Inr (),
       if p_psk p = zero_key then Inl (Invalid ''pre-shared key is all zeroes'') else Inr ()]
      @ (case p_profile p of
           None \<Rightarrow> []
         | Some profile \<Rightarrow>
            [if p_profile_observed_at_ms p \<le> 0
             then Inl (Invalid ''device profile is missing its local observation time'') else Inr (),
             case validate_device_profile profile of
               Inl _ \<Rightarrow> Inl (Invalid ''device profile is invalid'')
             | Inr _ \<Rightarrow> Inr ()]))"

text \<open>\<open>discovery::is_valid_pairing_id\<close>, and the octet class the group ids share with it.\<close>

definition id_octet :: "byte \<Rightarrow> bool" where
  "id_octet b \<longleftrightarrow> is_ascii_alphanumeric b \<or> b = CHR ''-'' \<or> b = CHR ''_''"

definition is_valid_pairing_id :: "string \<Rightarrow> bool" where
  "is_valid_pairing_id s \<longleftrightarrow>
     s \<noteq> [] \<and> length s \<le> discovery_max_pairing_id_len \<and> list_all id_octet s"

definition peer_ok :: "peer \<Rightarrow> bool" where
  "peer_ok p \<longleftrightarrow>
     p_pairing_id p \<noteq> [] \<and> length (p_pairing_id p) \<le> max_pairing_id_len
     \<and> (\<forall>d. p_device_id p = Some d \<longrightarrow> d \<noteq> [] \<and> length d \<le> max_id_bytes)
     \<and> p_psk p \<noteq> zero_key
     \<and> (\<forall>profile. p_profile p = Some profile \<longrightarrow>
          0 < p_profile_observed_at_ms p \<and> validate_device_profile profile = Inr ())"

lemma validate_pairing_id_ok_iff:
  "validate_pairing_id pid = Inr u \<longleftrightarrow> pid \<noteq> [] \<and> length pid \<le> max_pairing_id_len"
  by (auto simp: validate_pairing_id_def)

lemma validate_peer_ok_iff: "validate_peer p = Inr u \<longleftrightarrow> peer_ok p"
  by (cases "p_device_id p"; cases "p_profile p")
     (auto simp: validate_peer_def peer_ok_def first_err_ok_iff validate_pairing_id_ok_iff
       split: sum.splits)

lemma valid_pairing_id_stored:
  "is_valid_pairing_id s \<Longrightarrow> validate_pairing_id s = Inr ()"
  by (simp add: is_valid_pairing_id_def validate_pairing_id_ok_iff peer_limit_defs)

end
