(* ===== verification/Group.thy ===== *)
theory Group
  imports Peers_Base
begin

text \<open>
  Personal device membership (\<open>crates/copypaste-p2p/src/group.rs\<close>): the admission agreement of
  one pairing, the signed roster, and the operations that change it.

  The Ed25519, X25519, HKDF and SHA-256 crates, the hex and base32 encoders and
  \<open>serde_json\<close> are the fields of the record \<open>crypto\<close>, which every definition that uses
  them takes as an argument. The methods that take \<open>&mut self\<close> return the new state with their
  result; after an error the receiver is not returned, because every caller applies them to a
  clone that it drops.
\<close>

section \<open>Data\<close>

definition max_group_bytes :: nat where "max_group_bytes = 768 * 1024"
definition group_pairing_prefix :: string where "group_pairing_prefix = ''group-''"
definition domain :: bytes where "domain = ''copypaste/group/v1/''"

definition invalid :: peer_store_error where
  "invalid = Invalid ''invalid device group''"

record pair_admissions =
  pa_local :: "64 word"
  pa_remote :: "64 word"

definition pair_admissions_default :: pair_admissions where
  "pair_admissions_default = \<lparr>pa_local = 0, pa_remote = 0\<rparr>"

datatype group_import_error = Rejected | Persistence

record identity =
  id_signing :: bytes
  id_exchange :: bytes

record member =
  m_device_id :: string
  m_name :: string
  m_signing_key :: bytes
  m_exchange_key :: bytes
  m_admission :: "64 word"
  m_revision :: "64 word"
  m_profile :: device_profile
  m_listen_addr :: "socket_addr option"

record roster =
  r_issuer :: string
  r_members :: "(string, member) fmap"
  r_removed :: "(string, 64 word) fmap"

record group_snapshot =
  gs_roster :: roster
  gs_signature :: string

record group_state =
  g_identity :: identity
  g_roster :: roster

record crypto =
  c_roster_json :: "roster \<Rightarrow> bytes option"
  c_snapshot_json :: "group_snapshot \<Rightarrow> string option"
  c_snapshot_of_json :: "string \<Rightarrow> group_snapshot option"
  c_pair_context :: "(string \<times> bytes \<times> 64 word) list \<Rightarrow> bytes option"
  c_channel_context :: "(string \<times> bytes) list \<Rightarrow> bytes option"
  c_hex_encode :: "bytes \<Rightarrow> string"
  c_hex_decode :: "string \<Rightarrow> bytes option"
  c_base32 :: "bytes \<Rightarrow> string"
  c_sha256 :: "bytes \<Rightarrow> bytes"
  c_verifying_key :: "bytes \<Rightarrow> bytes"
  c_sign :: "bytes \<Rightarrow> bytes \<Rightarrow> bytes"
  c_verify_strict :: "bytes \<Rightarrow> bytes \<Rightarrow> bytes \<Rightarrow> bool"
  c_public_key :: "bytes \<Rightarrow> bytes"
  c_diffie_hellman :: "bytes \<Rightarrow> bytes \<Rightarrow> bytes"
  c_was_contributory :: "bytes \<Rightarrow> bool"
  c_hkdf_expand :: "bytes \<Rightarrow> bytes \<Rightarrow> bytes \<Rightarrow> bytes option"

section \<open>The admissions of one pairing\<close>

definition agree :: "pair_admissions \<Rightarrow> pair_admissions \<Rightarrow> peer_store_error + pair_admissions" where
  "agree self remote =
     res_bind (ok_or invalid (u64_checked_succ (pa_local self))) (\<lambda>next_local.
       if pa_remote remote > next_local then Inl invalid
       else let agreed = \<lparr>pa_local = max (pa_local self) (pa_remote remote),
                          pa_remote = max (pa_remote self) (pa_local remote)\<rparr>
            in if pa_local agreed = u64_max \<or> pa_remote agreed = u64_max then Inl invalid
               else Inr agreed)"

section \<open>Snapshots\<close>

definition validate_id :: "string \<Rightarrow> peer_store_error + unit" where
  "validate_id dev =
     (if dev = [] \<or> length dev > max_id_bytes \<or> \<not> list_all id_octet dev then Inl invalid else Inr ())"

definition signed_bytes :: "crypto \<Rightarrow> roster \<Rightarrow> peer_store_error + bytes" where
  "signed_bytes c ro =
     res_bind (ok_or invalid (c_roster_json c ro)) (\<lambda>json.
       let octets = domain @ json
       in if length octets > max_group_bytes then Inl invalid else Inr octets)"

definition validate_member :: "string \<Rightarrow> member \<Rightarrow> peer_store_error + unit" where
  "validate_member dev m = first_err
     [validate_id dev,
      if dev \<noteq> m_device_id m \<or> length (m_name m) > max_device_name_bytes
         \<or> m_exchange_key m = zero_key \<or> m_admission m = u64_max
      then Inl invalid else Inr (),
      case validate_device_profile (m_profile m) of Inl _ \<Rightarrow> Inl invalid | Inr _ \<Rightarrow> Inr (),
      if (case m_listen_addr m of None \<Rightarrow> False | Some a \<Rightarrow> \<not> is_dialable a)
      then Inl invalid else Inr ()]"

definition validate_removed :: "string \<Rightarrow> 64 word \<Rightarrow> peer_store_error + unit" where
  "validate_removed dev generation = first_err
     [validate_id dev, if generation = u64_max then Inl invalid else Inr ()]"

definition gs_verify :: "crypto \<Rightarrow> group_snapshot \<Rightarrow> peer_store_error + unit" where
  "gs_verify c s =
     res_bind (ok_or invalid (fmlookup (r_members (gs_roster s)) (r_issuer (gs_roster s)))) (\<lambda>issuer.
     res_bind (ok_or invalid (c_hex_decode c (gs_signature s))) (\<lambda>signature.
     res_bind (signed_bytes c (gs_roster s)) (\<lambda>message.
       if c_verify_strict c (m_signing_key issuer) message signature then Inr () else Inl invalid)))"

definition gs_validate :: "crypto \<Rightarrow> group_snapshot \<Rightarrow> peer_store_error + unit" where
  "gs_validate c s =
     (let ro = gs_roster s in first_err
       ([if fm_len (r_members ro) = 0 \<or> fm_len (r_members ro) > max_pairings + 1
            \<or> fm_len (r_removed ro) > max_revocations \<or> length (gs_signature s) \<noteq> 128
         then Inl invalid else Inr ()]
        @ map (\<lambda>(dev, m). validate_member dev m) (fm_entries (r_members ro))
        @ map (\<lambda>(dev, generation). validate_removed dev generation) (fm_entries (r_removed ro))
        @ [gs_verify c s]))"

definition gs_encode :: "crypto \<Rightarrow> group_snapshot \<Rightarrow> peer_store_error + string" where
  "gs_encode c s =
     res_bind (ok_or invalid (c_snapshot_json c s)) (\<lambda>json.
       if length json > max_group_bytes then Inl invalid else Inr json)"

definition gs_decode :: "crypto \<Rightarrow> string \<Rightarrow> peer_store_error + group_snapshot" where
  "gs_decode c json =
     (if length json > max_group_bytes then Inl invalid
      else res_bind (ok_or invalid (c_snapshot_of_json c json)) (\<lambda>s.
           res_bind (gs_validate c s) (\<lambda>_. Inr s)))"

section \<open>Reading the group\<close>

definition own_member :: "group_state \<Rightarrow> member option" where
  "own_member g = fmlookup (r_members (g_roster g)) (r_issuer (g_roster g))"

definition roster_active :: "roster \<Rightarrow> string \<Rightarrow> bool" where
  "roster_active ro dev =
     (case fmlookup (r_members ro) dev of
        None \<Rightarrow> False
      | Some m \<Rightarrow> (case fmlookup (r_removed ro) dev of None \<Rightarrow> True | Some r \<Rightarrow> m_admission m > r))"

definition is_active :: "group_state \<Rightarrow> string \<Rightarrow> bool" where
  "is_active g dev = roster_active (g_roster g) dev"

definition group_active :: "group_state \<Rightarrow> bool" where
  "group_active g = is_active g (r_issuer (g_roster g))"

definition removed_device :: "group_state \<Rightarrow> string \<Rightarrow> bool" where
  "removed_device g dev \<longleftrightarrow> fm_contains (r_removed (g_roster g)) dev \<and> \<not> is_active g dev"

definition identity_tag :: "crypto \<Rightarrow> group_state \<Rightarrow> string option \<Rightarrow> string option" where
  "identity_tag c g device_id =
     (let dev = (case device_id of None \<Rightarrow> r_issuer (g_roster g) | Some d \<Rightarrow> d)
      in if is_active g dev
         then map_option (\<lambda>m. c_hex_encode c (c_sha256 c (m_exchange_key m)))
                (fmlookup (r_members (g_roster g)) dev)
         else None)"

definition desired_admission :: "group_state \<Rightarrow> string \<Rightarrow> peer_store_error + 64 word" where
  "desired_admission g dev =
     (let current = (case fmlookup (r_members (g_roster g)) dev of None \<Rightarrow> 0 | Some m \<Rightarrow> m_admission m)
      in case fmlookup (r_removed (g_roster g)) dev of
           None \<Rightarrow> Inr current
         | Some removed \<Rightarrow>
             if current \<le> removed then ok_or invalid (u64_checked_succ removed) else Inr current)"

definition local_admission :: "group_state \<Rightarrow> peer_store_error + 64 word" where
  "local_admission g = desired_admission g (r_issuer (g_roster g))"

definition check_local_admission :: "group_state \<Rightarrow> 64 word \<Rightarrow> peer_store_error + unit" where
  "check_local_admission g admission =
     res_bind (ok_or invalid (own_member g)) (\<lambda>me.
     res_bind (local_admission g) (\<lambda>least.
       if admission < least \<or> admission = u64_max then Inl Revoked
       else res_bind (ok_or invalid (u64_checked_succ (m_admission me))) (\<lambda>most.
              if admission > most then Inl Revoked else Inr ())))"

definition certify_local :: "group_state \<Rightarrow> 64 word \<Rightarrow> peer_store_error + group_state" where
  "certify_local g admission =
     res_bind (check_local_admission g admission) (\<lambda>_.
     res_bind (ok_or invalid (own_member g)) (\<lambda>me.
       Inr (g\<lparr>g_roster := (g_roster g)\<lparr>r_members :=
              fmupd (r_issuer (g_roster g)) (me\<lparr>m_admission := admission\<rparr>)
                (r_members (g_roster g))\<rparr>\<rparr>)))"

definition group_pair_admissions :: "group_state \<Rightarrow> string \<Rightarrow> peer_store_error + pair_admissions" where
  "group_pair_admissions g dev =
     res_bind (ok_or invalid (own_member g)) (\<lambda>me.
     res_bind (ok_or invalid (fmlookup (r_members (g_roster g)) dev)) (\<lambda>other.
       Inr \<lparr>pa_local = m_admission me, pa_remote = m_admission other\<rparr>))"

definition local_matches ::
  "group_state \<Rightarrow> string \<Rightarrow> string \<Rightarrow> device_profile \<Rightarrow> socket_addr option \<Rightarrow> bool" where
  "local_matches g dev name profile addr \<longleftrightarrow>
     dev = r_issuer (g_roster g)
     \<and> (case fmlookup (r_members (g_roster g)) dev of
          None \<Rightarrow> False
        | Some m \<Rightarrow> m_name m = name \<and> m_profile m = profile \<and> m_listen_addr m = addr)"

definition member_changed :: "group_state \<Rightarrow> group_state option \<Rightarrow> string \<Rightarrow> bool" where
  "member_changed g previous dev \<longleftrightarrow>
     fmlookup (r_members (g_roster g)) dev
     \<noteq> (case previous of None \<Rightarrow> None | Some p \<Rightarrow> fmlookup (r_members (g_roster p)) dev)"

text \<open>
  \<open>snapshot\<close>: the roster without the records of removed members, its own excepted, signed with
  this device's key.
\<close>

definition published_roster :: "group_state \<Rightarrow> roster" where
  "published_roster g = (g_roster g)\<lparr>r_members :=
     fm_retain (\<lambda>dev _. dev = r_issuer (g_roster g) \<or> is_active g dev) (r_members (g_roster g))\<rparr>"

definition group_snapshot_of :: "crypto \<Rightarrow> group_state \<Rightarrow> peer_store_error + group_snapshot" where
  "group_snapshot_of c g =
     res_bind (signed_bytes c (published_roster g)) (\<lambda>message.
       Inr \<lparr>gs_roster = published_roster g,
            gs_signature = c_hex_encode c (c_sign c (id_signing (g_identity g)) message)\<rparr>)"

definition group_validate :: "crypto \<Rightarrow> group_state \<Rightarrow> peer_store_error + unit" where
  "group_validate c g =
     res_bind (ok_or invalid (own_member g)) (\<lambda>me.
       if m_signing_key me \<noteq> c_verifying_key c (id_signing (g_identity g))
          \<or> m_exchange_key me \<noteq> c_public_key c (id_exchange (g_identity g))
       then Inl invalid
       else res_bind (group_snapshot_of c g) (gs_validate c))"

section \<open>Changing the group\<close>

text \<open>\<open>GroupState::new\<close>; the freshly drawn identity is an argument.\<close>

definition group_new ::
  "crypto \<Rightarrow> identity \<Rightarrow> string \<Rightarrow> string \<Rightarrow> device_profile \<Rightarrow> socket_addr option
   \<Rightarrow> peer_store_error + group_state" where
  "group_new c fresh dev name profile addr =
     res_bind (validate_id dev) (\<lambda>_.
       let me = \<lparr>m_device_id = dev, m_name = name,
                 m_signing_key = c_verifying_key c (id_signing fresh),
                 m_exchange_key = c_public_key c (id_exchange fresh),
                 m_admission = 0, m_revision = 0, m_profile = profile, m_listen_addr = addr\<rparr>;
           g = \<lparr>g_identity = fresh,
                g_roster = \<lparr>r_issuer = dev, r_members = fmupd dev me fmempty, r_removed = fmempty\<rparr>\<rparr>
       in res_bind (group_snapshot_of c g) (\<lambda>s. res_bind (gs_validate c s) (\<lambda>_. Inr g)))"

definition update_local ::
  "group_state \<Rightarrow> string \<Rightarrow> string \<Rightarrow> device_profile \<Rightarrow> socket_addr option
   \<Rightarrow> peer_store_error + group_state \<times> bool" where
  "update_local g dev name profile addr =
     (if dev \<noteq> r_issuer (g_roster g) then Inl invalid
      else res_bind (ok_or invalid (fmlookup (r_members (g_roster g)) dev)) (\<lambda>m.
        if m_name m = name \<and> m_profile m = profile \<and> m_listen_addr m = addr then Inr (g, False)
        else res_bind (ok_or invalid (u64_checked_succ (m_revision m))) (\<lambda>revision.
          Inr (g\<lparr>g_roster := (g_roster g)\<lparr>r_members := fmupd dev
                 (m\<lparr>m_name := name, m_profile := profile, m_listen_addr := addr,
                    m_revision := revision\<rparr>) (r_members (g_roster g))\<rparr>\<rparr>, True))))"

text \<open>
  \<open>merge\<close>. Its loops run over \<open>BTreeMap\<close>s, so in the order of the keys, and stop at the first
  error.
\<close>

fun merge_removed :: "(string \<times> 64 word) list \<Rightarrow> roster \<Rightarrow> peer_store_error + roster" where
  "merge_removed [] ro = Inr ro"
| "merge_removed ((dev, generation) # rest) ro =
     (if \<not> fm_contains (r_removed ro) dev \<and> fm_len (r_removed ro) \<ge> max_revocations
      then Inl TooManyRevocations
      else merge_removed rest
             (ro\<lparr>r_removed := fmupd dev
                (case fmlookup (r_removed ro) dev of None \<Rightarrow> generation | Some g \<Rightarrow> max g generation)
                (r_removed ro)\<rparr>))"

definition same_keys :: "member \<Rightarrow> member \<Rightarrow> bool" where
  "same_keys a b \<longleftrightarrow> m_signing_key a = m_signing_key b \<and> m_exchange_key a = m_exchange_key b"

definition out_of_date :: "member \<Rightarrow> 64 word option \<Rightarrow> bool" where
  "out_of_date m removed = (case removed of None \<Rightarrow> False | Some r \<Rightarrow> m_admission m \<le> r)"

definition newer_or_same :: "member \<Rightarrow> member \<Rightarrow> bool" where
  "newer_or_same old m \<longleftrightarrow>
     m_admission old > m_admission m
     \<or> m_admission old = m_admission m \<and> m_revision old \<ge> m_revision m"

text \<open>One turn of the loop over the remote members.\<close>

definition merge_member :: "string \<Rightarrow> string \<Rightarrow> member \<Rightarrow> roster \<Rightarrow> peer_store_error + roster" where
  "merge_member remote_issuer dev m ro =
     (let put = (\<lambda>v. ro\<lparr>r_members := fmupd dev v (r_members ro)\<rparr>) in
      if dev = r_issuer ro then
        res_bind (ok_or invalid (fmlookup (r_members ro) dev)) (\<lambda>own.
          if \<not> same_keys own m then Inl invalid
          else Inr (put (own\<lparr>m_admission := max (m_admission own) (m_admission m)\<rparr>)))
      else if out_of_date m (fmlookup (r_removed ro) dev) then Inr ro
      else case fmlookup (r_members ro) dev of
             None \<Rightarrow> Inr (put m)
           | Some old \<Rightarrow>
               if \<not> same_keys old m then
                 if m_admission m \<le> m_admission old \<or> dev = remote_issuer then Inl invalid
                 else Inr (put m)
               else if newer_or_same old m then Inr ro
               else Inr (put m))"

fun merge_members :: "string \<Rightarrow> (string \<times> member) list \<Rightarrow> roster \<Rightarrow> peer_store_error + roster" where
  "merge_members remote_issuer [] ro = Inr ro"
| "merge_members remote_issuer ((dev, m) # rest) ro =
     res_bind (merge_member remote_issuer dev m ro) (merge_members remote_issuer rest)"

text \<open>One turn of the loop over the two devices of an explicit admission.\<close>

definition admit :: "string \<Rightarrow> member \<Rightarrow> string \<Rightarrow> roster \<Rightarrow> peer_store_error + roster" where
  "admit remote_issuer issuer dev ro =
     res_bind (if dev = remote_issuer then Inr issuer
               else ok_or invalid (fmlookup (r_members ro) dev)) (\<lambda>m.
     res_bind (case fmlookup (r_removed ro) dev of
                 None \<Rightarrow> Inr m
               | Some removed \<Rightarrow>
                   res_bind (ok_or invalid (u64_checked_succ removed)) (\<lambda>least.
                     Inr (m\<lparr>m_admission := max (m_admission m) least\<rparr>))) (\<lambda>m.
       Inr (ro\<lparr>r_members := fmupd dev m (r_members ro)\<rparr>)))"

text \<open>The two \<open>retain\<close>s that end a merge.\<close>

definition prune :: "roster \<Rightarrow> roster" where
  "prune ro =
     (let kept = ro\<lparr>r_members := fm_retain (\<lambda>dev m. dev = r_issuer ro
                     \<or> \<not> out_of_date m (fmlookup (r_removed ro) dev)) (r_members ro)\<rparr>
      in if roster_active kept (r_issuer ro) then kept
         else kept\<lparr>r_members := fm_retain (\<lambda>dev _. dev = r_issuer ro) (r_members kept)\<rparr>)"

text \<open>The refusals that precede any change.\<close>

definition merge_guard ::
  "group_state \<Rightarrow> roster \<Rightarrow> member \<Rightarrow> bool \<Rightarrow> peer_store_error + unit" where
  "merge_guard g remote issuer explicit =
     (if (case fmlookup (r_members (g_roster g)) (r_issuer remote) of
            None \<Rightarrow> False | Some known \<Rightarrow> \<not> same_keys known issuer)
      then Inl invalid
      else if \<not> explicit
              \<and> (removed_device g (r_issuer remote)
                 \<or> out_of_date issuer (fmlookup (r_removed remote) (r_issuer remote))
                 \<or> out_of_date issuer (fmlookup (r_removed (g_roster g)) (r_issuer remote)))
      then Inl Revoked
      else res_bind (ok_or invalid (own_member g)) (\<lambda>me.
        if (case fmlookup (r_members remote) (r_issuer (g_roster g)) of
              None \<Rightarrow> False | Some m \<Rightarrow> m_admission m > m_admission me)
           \<or> (case fmlookup (r_removed remote) (r_issuer (g_roster g)) of
                None \<Rightarrow> False | Some r \<Rightarrow> r > m_admission me)
        then Inl invalid else Inr ()))"

definition merge_rosters :: "roster \<Rightarrow> member \<Rightarrow> bool \<Rightarrow> roster \<Rightarrow> peer_store_error + roster" where
  "merge_rosters remote issuer explicit ro =
     res_bind (merge_removed (fm_entries (r_removed remote)) ro) (\<lambda>ro1.
     res_bind (merge_members (r_issuer remote) (fm_entries (r_members remote)) ro1) (\<lambda>ro2.
     res_bind (if explicit
               then res_bind (admit (r_issuer remote) issuer (r_issuer ro2) ro2)
                      (admit (r_issuer remote) issuer (r_issuer remote))
               else Inr ro2) (\<lambda>ro3.
       let ro4 = prune ro3
       in if fm_len (r_members ro4) > max_pairings + 1 then Inl TooManyPairings else Inr ro4)))"

definition group_merge ::
  "crypto \<Rightarrow> group_state \<Rightarrow> group_snapshot \<Rightarrow> bool \<Rightarrow> peer_store_error + group_state \<times> bool" where
  "group_merge c g incoming explicit =
     res_bind (gs_validate c incoming) (\<lambda>_.
     let remote = gs_roster incoming in
     res_bind (ok_or invalid (fmlookup (r_members remote) (r_issuer remote))) (\<lambda>issuer.
       if r_issuer remote = r_issuer (g_roster g) then Inr (g, False)
       else res_bind (merge_guard g remote issuer explicit) (\<lambda>_.
            res_bind (merge_rosters remote issuer explicit (g_roster g)) (\<lambda>ro.
              let g' = g\<lparr>g_roster := ro\<rparr>;
                  changed = (g_roster g \<noteq> ro)
              in if changed then res_bind (group_validate c g') (\<lambda>_. Inr (g', True))
                 else Inr (g', False)))))"

definition group_remove :: "group_state \<Rightarrow> string \<Rightarrow> peer_store_error + group_state \<times> bool" where
  "group_remove g dev =
     res_bind (validate_id dev) (\<lambda>_.
       let ro = g_roster g;
           generation = (case fmlookup (r_members ro) dev of None \<Rightarrow> 0 | Some m \<Rightarrow> m_admission m)
       in if (case fmlookup (r_removed ro) dev of None \<Rightarrow> False | Some old \<Rightarrow> old \<ge> generation)
          then Inr (g, False)
          else if fm_len (r_removed ro) \<ge> max_revocations \<and> \<not> fm_contains (r_removed ro) dev
          then Inl TooManyRevocations
          else Inr (g\<lparr>g_roster := ro\<lparr>r_removed := fmupd dev generation (r_removed ro),
                      r_members := (if dev \<noteq> r_issuer ro then fmdrop dev (r_members ro)
                                    else r_members ro)\<rparr>\<rparr>, True))"

section \<open>Derived credentials\<close>

text \<open>\<open>sort_by\<close> on the two endpoints, a stable sort by device id.\<close>

definition endpoints :: "member \<Rightarrow> member \<Rightarrow> member list" where
  "endpoints me other =
     (if m_device_id me \<le> m_device_id other then [me, other] else [other, me])"

definition metadata_key :: "crypto \<Rightarrow> group_state \<Rightarrow> string \<Rightarrow> peer_store_error + bytes" where
  "metadata_key c g dev =
     (if \<not> group_active g \<or> \<not> is_active g dev \<or> dev = r_issuer (g_roster g) then Inl Revoked
      else res_bind (ok_or invalid (own_member g)) (\<lambda>me.
           res_bind (ok_or invalid (fmlookup (r_members (g_roster g)) dev)) (\<lambda>other.
             let shared = c_diffie_hellman c (id_exchange (g_identity g)) (m_exchange_key other) in
             if \<not> c_was_contributory c shared then Inl invalid
             else res_bind (ok_or invalid (c_channel_context c
                      (map (\<lambda>m. (m_device_id m, m_exchange_key m)) (endpoints me other)))) (\<lambda>context.
                    ok_or invalid (c_hkdf_expand c domain shared context)))))"

definition derive_peer ::
  "crypto \<Rightarrow> identity \<Rightarrow> member \<Rightarrow> member \<Rightarrow> peer_store_error + peer" where
  "derive_peer c self me other =
     (let shared = c_diffie_hellman c (id_exchange self) (m_exchange_key other) in
      if \<not> c_was_contributory c shared then Inl invalid
      else res_bind (ok_or invalid (c_pair_context c
               (map (\<lambda>m. (m_device_id m, m_exchange_key m, m_admission m)) (endpoints me other)))) (\<lambda>context.
           res_bind (ok_or invalid (c_hkdf_expand c domain shared context)) (\<lambda>psk.
             let pairing_id = group_pairing_prefix @ c_base32 c (c_sha256 c context) in
             if \<not> is_valid_pairing_id pairing_id then Inl invalid
             else Inr \<lparr>p_pairing_id = pairing_id, p_device_id = Some (m_device_id other),
                       p_name = m_name other, p_psk = psk, p_last_addr = m_listen_addr other,
                       p_last_seen_ms = 0, p_profile = None, p_profile_observed_at_ms = 0\<rparr>)))"

fun derive_peers ::
  "crypto \<Rightarrow> identity \<Rightarrow> member \<Rightarrow> member list \<Rightarrow> peer_store_error + peer list" where
  "derive_peers c self me [] = Inr []"
| "derive_peers c self me (m # ms) =
     res_bind (derive_peer c self me m) (\<lambda>p.
     res_bind (derive_peers c self me ms) (\<lambda>ps. Inr (p # ps)))"

definition group_peers :: "crypto \<Rightarrow> group_state \<Rightarrow> peer_store_error + peer list" where
  "group_peers c g =
     (if \<not> group_active g then Inr []
      else res_bind (ok_or invalid (own_member g)) (\<lambda>me.
        derive_peers c (g_identity g) me
          (filter (\<lambda>m. m_device_id m \<noteq> m_device_id me \<and> is_active g (m_device_id m))
             (fm_values (r_members (g_roster g))))))"

section \<open>What a merge computes\<close>

text \<open>
  The later of two generations, and the member record that a merge keeps for one device: the
  pointwise description of the loops above.
\<close>

definition later :: "64 word option \<Rightarrow> 64 word option \<Rightarrow> 64 word option" where
  "later a b = (case a of None \<Rightarrow> b | Some x \<Rightarrow> (case b of None \<Rightarrow> Some x | Some y \<Rightarrow> Some (max x y)))"

definition joined :: "bool \<Rightarrow> 64 word option \<Rightarrow> member option \<Rightarrow> member \<Rightarrow> member option" where
  "joined own removed old m =
     (if own then map_option (\<lambda>v. v\<lparr>m_admission := max (m_admission v) (m_admission m)\<rparr>) old
      else if out_of_date m removed then old
      else case old of None \<Rightarrow> Some m
           | Some v \<Rightarrow> if same_keys v m \<and> newer_or_same v m then old else Some m)"

definition joinable :: "bool \<Rightarrow> bool \<Rightarrow> 64 word option \<Rightarrow> member option \<Rightarrow> member \<Rightarrow> bool" where
  "joinable own signer removed old m =
     (case old of
        None \<Rightarrow> \<not> own
      | Some v \<Rightarrow> same_keys v m
          \<or> \<not> own \<and> (out_of_date m removed \<or> m_admission v < m_admission m \<and> \<not> signer))"

lemma later_simps [simp]: "later None b = b" "later a None = a"
  by (cases a; simp add: later_def)+

lemma later_idem [simp]: "later (later a b) b = later a b"
  by (cases a; cases b) (auto simp: later_def)

lemma later_ge: "a = Some x \<or> b = Some x \<Longrightarrow> \<exists>y. later a b = Some y \<and> x \<le> y"
  by (cases a; cases b) (auto simp: later_def)

lemma merge_removed_spec:
  assumes "merge_removed es ro = Inr ro'" and "distinct (map fst es)"
  shows "r_issuer ro' = r_issuer ro" "r_members ro' = r_members ro"
    "\<And>d. fmlookup (r_removed ro') d = later (fmlookup (r_removed ro) d) (map_of es d)"
  using assms
proof (induction es arbitrary: ro)
  case Nil
  {
    case 1 then show ?case by simp
  next
    case 2 then show ?case by simp
  next
    case 3 then show ?case by simp
  }
next
  case (Cons e es)
  obtain d0 g0 where e: "e = (d0, g0)" by (cases e)
  have fresh: "distinct (map fst (e # es)) \<Longrightarrow> map_of es d0 = None"
    by (simp add: e map_of_eq_None_iff)
  {
    case 1 with Cons.IH(1) show ?case by (fastforce simp: e split: if_splits)
  next
    case 2 with Cons.IH(2) show ?case by (fastforce simp: e split: if_splits)
  next
    case (3 d)
    with fresh Cons.IH(3)[of _ d] show ?case
      by (cases "d = d0") (fastforce simp: e later_def split: if_splits option.splits)+
  }
qed

lemma merge_member_eq:
  "merge_member ri d m ro =
     (let old = fmlookup (r_members ro) d; removed = fmlookup (r_removed ro) d in
      if joinable (d = r_issuer ro) (d = ri) removed old m
      then Inr (ro\<lparr>r_members := (case joined (d = r_issuer ro) removed old m of
                    None \<Rightarrow> r_members ro | Some v \<Rightarrow> fmupd d v (r_members ro))\<rparr>)
      else Inl invalid)"
proof -
  have same: "ro = ro\<lparr>r_members := fmupd d v (r_members ro)\<rparr>" if "fmlookup (r_members ro) d = Some v" for v
    using that by (simp add: fmupd_same)
  show ?thesis
    by (cases "fmlookup (r_members ro) d")
       (auto simp: merge_member_def joinable_def joined_def Let_def ok_or_def not_less
         intro: same split: if_splits)
qed

definition member_after :: "string \<Rightarrow> (string, 64 word) fmap \<Rightarrow> member option \<Rightarrow> string \<Rightarrow> member option \<Rightarrow> member option" where
  "member_after own removed old d incoming =
     (case incoming of None \<Rightarrow> old | Some m \<Rightarrow> joined (d = own) (fmlookup removed d) old m)"

lemma joined_fixed: "joined own removed old m = None \<Longrightarrow> old = None"
  by (auto simp: joined_def split: if_splits option.splits)

lemma merge_members_spec:
  assumes "merge_members ri es ro = Inr ro'" and "distinct (map fst es)"
  shows "r_issuer ro' = r_issuer ro \<and> r_removed ro' = r_removed ro
    \<and> (\<forall>d. fmlookup (r_members ro') d =
             member_after (r_issuer ro) (r_removed ro) (fmlookup (r_members ro) d) d (map_of es d))
    \<and> (\<forall>d m. (d, m) \<in> set es \<longrightarrow> joinable (d = r_issuer ro) (d = ri) (fmlookup (r_removed ro) d)
             (fmlookup (r_members ro) d) m)"
  using assms
proof (induction es arbitrary: ro)
  case Nil
  then show ?case by (simp add: member_after_def)
next
  case (Cons e es)
  obtain d0 m0 where e: "e = (d0, m0)" by (cases e)
  from Cons.prems obtain ro1 where step: "merge_member ri d0 m0 ro = Inr ro1"
    and rest: "merge_members ri es ro1 = Inr ro'" and new: "d0 \<notin> fst ` set es"
    by (auto simp: e res_bind_Inr_iff)
  from step have ro1: "r_issuer ro1 = r_issuer ro" "r_removed ro1 = r_removed ro"
    "joinable (d0 = r_issuer ro) (d0 = ri) (fmlookup (r_removed ro) d0) (fmlookup (r_members ro) d0) m0"
    "\<And>d. fmlookup (r_members ro1) d =
       (if d = d0 then joined (d0 = r_issuer ro) (fmlookup (r_removed ro) d0) (fmlookup (r_members ro) d0) m0
        else fmlookup (r_members ro) d)"
    by (auto simp: merge_member_eq Let_def split: if_splits option.splits dest: joined_fixed)
  from new have "map_of es d0 = None" by (simp add: map_of_eq_None_iff)
  moreover have "joinable (d = r_issuer ro) (d = ri) (fmlookup (r_removed ro) d) (fmlookup (r_members ro) d) m"
    if "(d, m) \<in> set es" for d m
  proof -
    from that new have "d \<noteq> d0" by force
    moreover from Cons.IH[OF rest] Cons.prems(2) that
    have "joinable (d = r_issuer ro1) (d = ri) (fmlookup (r_removed ro1) d) (fmlookup (r_members ro1) d) m"
      by (auto simp: e)
    ultimately show ?thesis by (simp add: ro1)
  qed
  ultimately show ?case
    using Cons.IH[OF rest] Cons.prems(2) ro1 by (auto simp: e member_after_def)
qed

lemma admit_spec:
  assumes "admit ri issuer d ro = Inr ro'"
  obtains m where
    "if d = ri then m = issuer else fmlookup (r_members ro) d = Some m"
    and "ro' = ro\<lparr>r_members := fmupd d
           (case fmlookup (r_removed ro) d of None \<Rightarrow> m
            | Some r \<Rightarrow> m\<lparr>m_admission := max (m_admission m) (r + 1)\<rparr>) (r_members ro)\<rparr>"
    and "fmlookup (r_removed ro) d \<noteq> Some u64_max"
  using assms
  by (fastforce simp: admit_def res_bind_Inr_iff u64_checked_succ_def ok_or_def
      split: if_splits option.splits)

lemma prune_sel [simp]:
  "r_issuer (prune ro) = r_issuer ro" "r_removed (prune ro) = r_removed ro"
  by (auto simp: prune_def Let_def)

lemma prune_lookup:
  "fmlookup (r_members (prune ro)) d =
     (case fmlookup (r_members ro) d of
        None \<Rightarrow> None
      | Some m \<Rightarrow>
          if d = r_issuer ro \<or> roster_active ro (r_issuer ro) \<and> \<not> out_of_date m (fmlookup (r_removed ro) d)
          then Some m else None)"
  by (auto simp: prune_def Let_def roster_active_def split: option.splits)

lemma roster_active_prune [simp]:
  "roster_active (prune ro) (r_issuer ro) = roster_active ro (r_issuer ro)"
  by (auto simp: roster_active_def prune_lookup split: option.splits)

lemma prune_member_current:
  "fmlookup (r_members (prune ro)) d = Some m \<Longrightarrow> d \<noteq> r_issuer ro \<Longrightarrow>
     \<not> out_of_date m (fmlookup (r_removed ro) d)"
  by (auto simp: prune_lookup split: option.splits if_splits)

lemma group_merge_cases:
  assumes "group_merge c g s ex = Inr (g', b)"
  obtains (own) "r_issuer (gs_roster s) = r_issuer (g_roster g)" "g' = g" "\<not> b"
  | (other) issuer ro where
      "r_issuer (gs_roster s) \<noteq> r_issuer (g_roster g)"
      "gs_validate c s = Inr ()"
      "fmlookup (r_members (gs_roster s)) (r_issuer (gs_roster s)) = Some issuer"
      "merge_guard g (gs_roster s) issuer ex = Inr ()"
      "merge_rosters (gs_roster s) issuer ex (g_roster g) = Inr ro"
      "g' = g\<lparr>g_roster := ro\<rparr>" "b \<longleftrightarrow> g_roster g \<noteq> ro" "b \<longrightarrow> group_validate c g' = Inr ()"
  using assms
  by (auto simp: group_merge_def res_bind_Inr_iff Let_def split: if_splits)

lemma merge_rosters_cases:
  assumes "merge_rosters remote issuer ex ro = Inr ro'"
  obtains ro1 ro2 ro3 :: roster where
    "r_issuer ro1 = r_issuer ro" "r_members ro1 = r_members ro"
    "\<And>d. fmlookup (r_removed ro1) d = later (fmlookup (r_removed ro) d) (fmlookup (r_removed remote) d)"
    "r_issuer ro2 = r_issuer ro" "r_removed ro2 = r_removed ro1"
    "\<And>d. fmlookup (r_members ro2) d = member_after (r_issuer ro) (r_removed ro1)
             (fmlookup (r_members ro) d) d (fmlookup (r_members remote) d)"
    "\<And>d m. fmlookup (r_members remote) d = Some m \<Longrightarrow>
       joinable (d = r_issuer ro) (d = r_issuer remote) (fmlookup (r_removed ro1) d)
         (fmlookup (r_members ro) d) m"
    "if ex then res_bind (admit (r_issuer remote) issuer (r_issuer ro2) ro2)
                  (admit (r_issuer remote) issuer (r_issuer remote)) = Inr ro3
     else ro3 = ro2"
    "ro' = prune ro3" "fm_len (r_members ro') \<le> max_pairings + 1"
proof -
  from assms obtain ro1 ro2 ro3 where
    1: "merge_removed (fm_entries (r_removed remote)) ro = Inr ro1" and
    2: "merge_members (r_issuer remote) (fm_entries (r_members remote)) ro1 = Inr ro2" and
    3: "if ex then res_bind (admit (r_issuer remote) issuer (r_issuer ro2) ro2)
                  (admit (r_issuer remote) issuer (r_issuer remote)) = Inr ro3
        else ro3 = ro2" and
    4: "ro' = prune ro3" "fm_len (r_members ro') \<le> max_pairings + 1"
    by (cases ex) (fastforce simp: merge_rosters_def res_bind_Inr_iff Let_def not_less split: if_splits)+
  note s1 = merge_removed_spec[OF 1, simplified]
  note s2 = merge_members_spec[OF 2, simplified]
  show ?thesis
    by (rule that[of ro1 ro2 ro3]) (use s1 s2 3 4 in \<open>auto simp: set_fm_entries\<close>)
qed

lemma admitted_both:
  assumes "res_bind (admit ri issuer own ro) (admit ri issuer ri) = Inr ro'"
    and "own \<noteq> ri" and "r_issuer ro = own" and "r_removed ro = removed"
  obtains me where "r_issuer ro' = own" "r_removed ro' = removed"
    "fmlookup (r_members ro) own = Some me"
    "\<And>d. fmlookup (r_members ro') d =
       (if d = own then Some (case fmlookup removed own of None \<Rightarrow> me
            | Some r \<Rightarrow> me\<lparr>m_admission := max (m_admission me) (r + 1)\<rparr>)
        else if d = ri then Some (case fmlookup removed ri of None \<Rightarrow> issuer
            | Some r \<Rightarrow> issuer\<lparr>m_admission := max (m_admission issuer) (r + 1)\<rparr>)
        else fmlookup (r_members ro) d)"
proof -
  from assms(1) obtain ro1 where 1: "admit ri issuer own ro = Inr ro1"
    and 2: "admit ri issuer ri ro1 = Inr ro'"
    by (auto simp: res_bind_Inr_iff)
  from 1 assms(2-4) obtain me where me: "fmlookup (r_members ro) own = Some me"
    "ro1 = ro\<lparr>r_members := fmupd own
           (case fmlookup removed own of None \<Rightarrow> me
            | Some r \<Rightarrow> me\<lparr>m_admission := max (m_admission me) (r + 1)\<rparr>) (r_members ro)\<rparr>"
    by (auto elim!: admit_spec)
  from 2 me(2) assms(4) have "ro' = ro1\<lparr>r_members := fmupd ri
           (case fmlookup removed ri of None \<Rightarrow> issuer
            | Some r \<Rightarrow> issuer\<lparr>m_admission := max (m_admission issuer) (r + 1)\<rparr>) (r_members ro1)\<rparr>"
    by (auto elim!: admit_spec)
  with me assms(2-4) show ?thesis by (intro that[of me]) auto
qed

section \<open>Merging again\<close>

lemma merge_removed_known:
  "\<forall>(d, generation) \<in> set es. \<exists>r. fmlookup (r_removed ro) d = Some r \<and> generation \<le> r \<Longrightarrow>
     merge_removed es ro = Inr ro"
  by (induction es) (auto simp: fm_contains_def fmupd_same max_def)

lemma merge_members_known:
  assumes "\<And>d m. (d, m) \<in> set es \<Longrightarrow>
      joinable (d = r_issuer ro) (d = ri) (fmlookup (r_removed ro) d) (fmlookup (r_members ro) d) m
      \<and> joined (d = r_issuer ro) (fmlookup (r_removed ro) d) (fmlookup (r_members ro) d) m
        = fmlookup (r_members ro) d"
  shows "merge_members ri es ro = Inr ro"
  using assms
proof (induction es)
  case Nil
  then show ?case by simp
next
  case (Cons e es)
  obtain d m where e: "e = (d, m)" by (cases e)
  have "merge_member ri d m ro = Inr ro"
    using Cons.prems[of d m] by (auto simp: e merge_member_eq Let_def fmupd_same split: option.splits)
  with Cons show ?case by (simp add: e)
qed

lemma prune_idem: "prune (prune ro) = prune ro"
proof (rule roster.equality)
  show "r_members (prune (prune ro)) = r_members (prune ro)"
    by (rule fmap_ext) (auto simp: prune_lookup split: option.splits)
qed simp_all

lemma newer_or_same_refl [simp]: "newer_or_same m m"
  by (simp add: newer_or_same_def)

lemma same_keys_refl [simp]: "same_keys m m"
  by (simp add: same_keys_def)

lemma joined_current:
  assumes "\<not> out_of_date m removed" and "\<not> own"
  obtains v where "joined own removed old m = Some v" "same_keys v m" "newer_or_same v m"
    "\<not> out_of_date v removed"
proof (cases "\<exists>o'. old = Some o' \<and> same_keys o' m \<and> newer_or_same o' m")
  case True
  then obtain o' where "old = Some o'" "same_keys o' m" "newer_or_same o' m" by blast
  with assms show ?thesis
    by (intro that[of o']) (auto simp: joined_def newer_or_same_def out_of_date_def split: option.splits)
next
  case False
  with assms show ?thesis by (intro that[of m]) (auto simp: joined_def split: option.splits)
qed

text \<open>What a successful merge without an explicit admission leaves for each device it names.\<close>

lemma merge_rosters_member:
  assumes "merge_rosters remote issuer False ro = Inr ro'" and "roster_active ro' (r_issuer ro)"
    and "fmlookup (r_members remote) d = Some m"
  shows "d \<noteq> r_issuer ro \<Longrightarrow> \<not> out_of_date m (fmlookup (r_removed ro') d) \<Longrightarrow>
           \<exists>v. fmlookup (r_members ro') d = Some v \<and> same_keys v m \<and> newer_or_same v m
             \<and> \<not> out_of_date v (fmlookup (r_removed ro') d)"
    and "d = r_issuer ro \<Longrightarrow> \<exists>v. fmlookup (r_members ro) d = Some v \<and> same_keys v m
           \<and> fmlookup (r_members ro') d = Some (v\<lparr>m_admission := max (m_admission v) (m_admission m)\<rparr>)"
proof -
  from assms(1) obtain ro1 ro2 :: roster where st: "r_issuer ro2 = r_issuer ro" "r_removed ro2 = r_removed ro1"
    "\<And>d. fmlookup (r_members ro2) d = member_after (r_issuer ro) (r_removed ro1)
             (fmlookup (r_members ro) d) d (fmlookup (r_members remote) d)"
    "joinable (d = r_issuer ro) (d = r_issuer remote) (fmlookup (r_removed ro1) d)
         (fmlookup (r_members ro) d) m"
    "ro' = prune ro2"
  proof (rule merge_rosters_cases, goal_cases)
    case (1 ro1 ro2 ro3)
    show ?case by (rule 1(1)[of ro2 ro1]) (use 1(2-) assms(3) in simp_all)
  qed
  have active: "roster_active ro2 (r_issuer ro2)"
    using assms(2) st(1,5) roster_active_prune[of ro2] by simp
  show "\<exists>v. fmlookup (r_members ro') d = Some v \<and> same_keys v m \<and> newer_or_same v m
          \<and> \<not> out_of_date v (fmlookup (r_removed ro') d)"
    if other: "d \<noteq> r_issuer ro" and cur: "\<not> out_of_date m (fmlookup (r_removed ro') d)"
  proof -
    from cur have "\<not> out_of_date m (fmlookup (r_removed ro1) d)" by (simp add: st(5,2))
    with other obtain v where "fmlookup (r_members ro2) d = Some v" "same_keys v m"
      "newer_or_same v m" "\<not> out_of_date v (fmlookup (r_removed ro1) d)"
      using assms(3) by (auto simp: st(3) member_after_def elim: joined_current)
    with active show ?thesis by (auto simp: st(5,2) prune_lookup)
  qed
  show "\<exists>v. fmlookup (r_members ro) d = Some v \<and> same_keys v m
          \<and> fmlookup (r_members ro') d = Some (v\<lparr>m_admission := max (m_admission v) (m_admission m)\<rparr>)"
    if "d = r_issuer ro"
    using that st(4) assms(3)
    by (auto simp: st(1,3,5) prune_lookup member_after_def joined_def joinable_def split: option.splits)
qed

lemma merge_rosters_sel:
  assumes "merge_rosters remote issuer ex ro = Inr ro'" and "r_issuer remote \<noteq> r_issuer ro"
  shows "r_issuer ro' = r_issuer ro"
    and "\<And>d. fmlookup (r_removed ro') d = later (fmlookup (r_removed ro) d) (fmlookup (r_removed remote) d)"
    and "prune ro' = ro'" and "fm_len (r_members ro') \<le> max_pairings + 1"
proof -
  from assms obtain ro3 :: roster where "r_issuer ro3 = r_issuer ro" "ro' = prune ro3"
    "\<And>d. fmlookup (r_removed ro3) d = later (fmlookup (r_removed ro) d) (fmlookup (r_removed remote) d)"
    "fm_len (r_members ro') \<le> max_pairings + 1"
  proof (elim merge_rosters_cases, goal_cases)
    case (1 ro1 ro2 ro3)
    show ?case
    proof (cases ex)
      case True
      with 1 obtain me where "r_issuer ro3 = r_issuer ro" "r_removed ro3 = r_removed ro1"
        by (auto elim!: admitted_both[of _ _ _ ro2 ro3])
      with 1 show ?thesis by (intro 1(1)[of ro3]) auto
    next
      case False
      with 1 show ?thesis by (intro 1(1)[of ro3]) auto
    qed
  qed
  then show "r_issuer ro' = r_issuer ro"
    "\<And>d. fmlookup (r_removed ro') d = later (fmlookup (r_removed ro) d) (fmlookup (r_removed remote) d)"
    "prune ro' = ro'" "fm_len (r_members ro') \<le> max_pairings + 1"
    by (simp_all add: prune_idem)
qed

section \<open>Histories of a group\<close>

text \<open>One change of the group: each operation above, on any input it accepts.\<close>

inductive group_step :: "crypto \<Rightarrow> group_state \<Rightarrow> group_state \<Rightarrow> bool" for c where
  step_merge: "group_merge c g s explicit = Inr (g', b) \<Longrightarrow> group_step c g g'"
| step_remove: "group_remove g dev = Inr (g', b) \<Longrightarrow> group_step c g g'"
| step_update: "update_local g dev name profile addr = Inr (g', b) \<Longrightarrow> group_step c g g'"
| step_certify: "certify_local g admission = Inr g' \<Longrightarrow> group_step c g g'"

lemma group_merge_removed:
  assumes "group_merge c g s ex = Inr (g', b)"
    and "fmlookup (r_removed (g_roster g)) d = Some r"
  shows "\<exists>r'. fmlookup (r_removed (g_roster g')) d = Some r' \<and> r \<le> r'"
  using assms(1)
proof (cases rule: group_merge_cases)
  case own
  with assms(2) show ?thesis by auto
next
  case (other issuer ro)
  then show ?thesis using assms(2) by (auto simp: merge_rosters_sel(2) intro: later_ge)
qed

lemma group_remove_sel:
  assumes "group_remove g d = Inr (g', b)"
  shows "g_identity g' = g_identity g" "r_issuer (g_roster g') = r_issuer (g_roster g)"
    "own_member g' = own_member g"
  using assms
  by (auto simp: group_remove_def own_member_def res_bind_Inr_iff Let_def split: if_splits)

lemma group_remove_removed:
  assumes "group_remove g d = Inr (g', b)"
  shows "fmlookup (r_removed (g_roster g)) d' = Some r \<Longrightarrow>
      \<exists>r'. fmlookup (r_removed (g_roster g')) d' = Some r' \<and> r \<le> r'"
    and "\<exists>r'. fmlookup (r_removed (g_roster g')) d = Some r'
      \<and> (case fmlookup (r_members (g_roster g)) d of None \<Rightarrow> 0 | Some m \<Rightarrow> m_admission m) \<le> r'"
  using assms
  by (auto simp: group_remove_def res_bind_Inr_iff Let_def split: if_splits option.splits)

lemma update_local_sel:
  assumes "update_local g d name profile addr = Inr (g', b)"
  shows "g_identity g' = g_identity g" "r_issuer (g_roster g') = r_issuer (g_roster g)"
    "r_removed (g_roster g') = r_removed (g_roster g)"
    "\<exists>me me'. own_member g = Some me \<and> own_member g' = Some me' \<and> same_keys me me'
       \<and> m_admission me' = m_admission me"
  using assms
  by (auto simp: update_local_def own_member_def same_keys_def res_bind_Inr_iff split: if_splits)

lemma local_admission_ge:
  "local_admission g = Inr a \<Longrightarrow> own_member g = Some me \<Longrightarrow> m_admission me \<le> a"
  by (auto simp: local_admission_def desired_admission_def own_member_def Let_def
      split: option.splits if_splits dest!: u64_checked_succ_Some)

lemma certify_local_sel:
  assumes "certify_local g a = Inr g'"
  shows "g_identity g' = g_identity g" "r_issuer (g_roster g') = r_issuer (g_roster g)"
    "r_removed (g_roster g') = r_removed (g_roster g)"
    "\<exists>me. own_member g = Some me \<and> own_member g' = Some (me\<lparr>m_admission := a\<rparr>) \<and> m_admission me \<le> a"
proof -
  from assms obtain me least where "own_member g = Some me" "local_admission g = Inr least" "\<not> a < least"
    "g' = g\<lparr>g_roster := (g_roster g)\<lparr>r_members :=
              fmupd (r_issuer (g_roster g)) (me\<lparr>m_admission := a\<rparr>) (r_members (g_roster g))\<rparr>\<rparr>"
    by (auto simp: certify_local_def check_local_admission_def res_bind_Inr_iff split: if_splits)
  then show "g_identity g' = g_identity g" "r_issuer (g_roster g') = r_issuer (g_roster g)"
    "r_removed (g_roster g') = r_removed (g_roster g)"
    "\<exists>me. own_member g = Some me \<and> own_member g' = Some (me\<lparr>m_admission := a\<rparr>) \<and> m_admission me \<le> a"
    using local_admission_ge[of g least me] by (auto simp: own_member_def)
qed

lemma merge_guard_own:
  "merge_guard g remote issuer ex = Inr u \<Longrightarrow>
     \<exists>me. own_member g = Some me
       \<and> (\<forall>m. fmlookup (r_members remote) (r_issuer (g_roster g)) = Some m \<longrightarrow> m_admission m \<le> m_admission me)
       \<and> (\<forall>r. fmlookup (r_removed remote) (r_issuer (g_roster g)) = Some r \<longrightarrow> r \<le> m_admission me)"
  by (auto simp: merge_guard_def res_bind_Inr_iff split: if_splits option.splits)

text \<open>The own record in the middle of a merge, and at its end.\<close>

lemma group_merge_own_member:
  assumes "group_merge c g s ex = Inr (g', b)"
  shows "g_identity g' = g_identity g" and "r_issuer (g_roster g') = r_issuer (g_roster g)"
    and "own_member g = Some me \<Longrightarrow> \<exists>me'. own_member g' = Some me' \<and> same_keys me me'
           \<and> m_admission me \<le> m_admission me' \<and> (\<not> ex \<longrightarrow> me' = me)"
proof -
  have "g_identity g' = g_identity g \<and> r_issuer (g_roster g') = r_issuer (g_roster g)
    \<and> (own_member g = Some me \<longrightarrow> (\<exists>me'. own_member g' = Some me' \<and> same_keys me me'
           \<and> m_admission me \<le> m_admission me' \<and> (\<not> ex \<longrightarrow> me' = me)))"
    using assms
  proof (cases rule: group_merge_cases)
    case own
    then show ?thesis by auto
  next
    case (other issuer ro)
    note guard = merge_guard_own[OF other(4)]
    from other(5) show ?thesis
    proof (cases rule: merge_rosters_cases)
      case (1 ro1 ro2 ro3)
      have mid: "own_member g = Some me \<Longrightarrow> fmlookup (r_members ro2) (r_issuer (g_roster g)) = Some me"
        using guard by (auto simp: 1(6) member_after_def joined_def own_member_def max_absorb1 split: option.splits)
      show ?thesis
      proof (cases ex)
        case True
        with 1(8) have "res_bind (admit (r_issuer (gs_roster s)) issuer (r_issuer (g_roster g)) ro2)
            (admit (r_issuer (gs_roster s)) issuer (r_issuer (gs_roster s))) = Inr ro3"
          by (simp add: 1(4))
        then obtain me' where "r_issuer ro3 = r_issuer (g_roster g)" "r_removed ro3 = r_removed ro1"
          "fmlookup (r_members ro2) (r_issuer (g_roster g)) = Some me'"
          "fmlookup (r_members ro3) (r_issuer (g_roster g)) =
             Some (case fmlookup (r_removed ro1) (r_issuer (g_roster g)) of None \<Rightarrow> me'
              | Some r \<Rightarrow> me'\<lparr>m_admission := max (m_admission me') (r + 1)\<rparr>)"
          using other(1) 1(4,5) by (elim admitted_both) auto
        with mid True show ?thesis
          by (auto simp: own_member_def other(6) 1(9) prune_lookup same_keys_def split: option.splits)
      next
        case False
        with 1(8,4) mid show ?thesis
          by (auto simp: own_member_def other(6) 1(9) prune_lookup)
      qed
    qed
  qed
  then show "g_identity g' = g_identity g" "r_issuer (g_roster g') = r_issuer (g_roster g)"
    "own_member g = Some me \<Longrightarrow> \<exists>me'. own_member g' = Some me' \<and> same_keys me me'
           \<and> m_admission me \<le> m_admission me' \<and> (\<not> ex \<longrightarrow> me' = me)"
    by blast+
qed

lemma group_step_removed:
  assumes "group_step c g g'" and "fmlookup (r_removed (g_roster g)) d = Some r"
  shows "\<exists>r'. fmlookup (r_removed (g_roster g')) d = Some r' \<and> r \<le> r'"
  using assms
  by cases (auto simp: update_local_sel certify_local_sel
      dest: group_merge_removed group_remove_removed(1))

lemma group_steps_removed:
  assumes "(group_step c)\<^sup>*\<^sup>* g g'" and "fmlookup (r_removed (g_roster g)) d = Some r"
  shows "\<exists>r'. fmlookup (r_removed (g_roster g')) d = Some r' \<and> r \<le> r'"
  using assms by (induction rule: rtranclp_induct) (auto dest: group_step_removed intro: order_trans)

lemma group_step_own:
  assumes "group_step c g g'" and "own_member g = Some me"
  shows "g_identity g' = g_identity g \<and> r_issuer (g_roster g') = r_issuer (g_roster g)
    \<and> (\<exists>me'. own_member g' = Some me' \<and> same_keys me me' \<and> m_admission me \<le> m_admission me')"
  using assms(1)
proof cases
  case (step_merge s ex b)
  then show ?thesis using group_merge_own_member[OF step_merge] assms(2) by blast
next
  case (step_remove dev b)
  then show ?thesis using assms(2) by (simp add: group_remove_sel)
next
  case (step_update dev name profile addr b)
  then show ?thesis using update_local_sel[OF step_update] assms(2) by auto
next
  case (step_certify a)
  then show ?thesis using certify_local_sel[OF step_certify] assms(2) by (auto simp: same_keys_def)
qed

lemma same_keys_trans: "same_keys a b \<Longrightarrow> same_keys b d \<Longrightarrow> same_keys a d"
  by (simp add: same_keys_def)

lemma group_steps_own:
  assumes "(group_step c)\<^sup>*\<^sup>* g g'" and "own_member g = Some me"
  shows "g_identity g' = g_identity g \<and> r_issuer (g_roster g') = r_issuer (g_roster g)
    \<and> (\<exists>me'. own_member g' = Some me' \<and> same_keys me me' \<and> m_admission me \<le> m_admission me')"
  using assms
proof (induction rule: rtranclp_induct)
  case base
  then show ?case by simp
next
  case (step g1 g2)
  then obtain me1 where "own_member g1 = Some me1" "same_keys me me1" "m_admission me \<le> m_admission me1"
    and "g_identity g1 = g_identity g" "r_issuer (g_roster g1) = r_issuer (g_roster g)" by blast
  moreover from group_step_own[OF step.hyps(2) this(1)] obtain me2 where "own_member g2 = Some me2"
    "same_keys me1 me2" "m_admission me1 \<le> m_admission me2" "g_identity g2 = g_identity g1"
    "r_issuer (g_roster g2) = r_issuer (g_roster g1)" by blast
  ultimately show ?case by (auto intro: same_keys_trans order_trans)
qed

lemma admitted_member:
  assumes "res_bind (admit ri issuer own ro) (admit ri issuer ri) = Inr ro'"
    and "own \<noteq> ri" and "r_issuer ro = own" and "r_removed ro = removed"
    and "fmlookup (r_members ro') d = Some new"
  shows "\<exists>v. (fmlookup (r_members ro) d = Some v \<or> d = ri \<and> v = issuer)
    \<and> same_keys v new \<and> m_admission v \<le> m_admission new"
proof -
  have raised: "same_keys m (case x of None \<Rightarrow> m | Some r \<Rightarrow> m\<lparr>m_admission := max (m_admission m) (r + 1)\<rparr>)"
    "m_admission m \<le> m_admission (case x of None \<Rightarrow> m | Some r \<Rightarrow> m\<lparr>m_admission := max (m_admission m) (r + 1)\<rparr>)"
    for m :: member and x :: "64 word option"
    by (auto simp: same_keys_def split: option.splits)
  from assms(1-4) obtain me where me: "fmlookup (r_members ro) own = Some me" and all:
    "\<And>d. fmlookup (r_members ro') d =
       (if d = own then Some (case fmlookup removed own of None \<Rightarrow> me
            | Some r \<Rightarrow> me\<lparr>m_admission := max (m_admission me) (r + 1)\<rparr>)
        else if d = ri then Some (case fmlookup removed ri of None \<Rightarrow> issuer
            | Some r \<Rightarrow> issuer\<lparr>m_admission := max (m_admission issuer) (r + 1)\<rparr>)
        else fmlookup (r_members ro) d)"
    by (rule admitted_both) blast
  consider "d = own" | "d = ri" "d \<noteq> own" | "d \<noteq> own" "d \<noteq> ri" by blast
  then show ?thesis
  proof cases
    case 3
    with all[of d] assms(5) show ?thesis by (intro exI[of _ new]) simp
  qed (use all[of d] assms(5) me in \<open>auto intro: raised\<close>)
qed

lemma merge_rosters_keys:
  assumes "merge_rosters remote issuer ex ro = Inr ro'" and "r_issuer remote \<noteq> r_issuer ro"
    and "fmlookup (r_members remote) (r_issuer remote) = Some issuer"
    and "\<And>known. fmlookup (r_members ro) (r_issuer remote) = Some known \<Longrightarrow> same_keys known issuer"
    and "fmlookup (r_members ro) d = Some old" and "fmlookup (r_members ro') d = Some new"
    and "\<not> same_keys old new"
  shows "d \<noteq> r_issuer ro \<and> d \<noteq> r_issuer remote \<and> m_admission old < m_admission new"
  using assms(1)
proof (cases rule: merge_rosters_cases)
  case (1 ro1 ro2 ro3)
  have mid: "d \<noteq> r_issuer ro \<and> d \<noteq> r_issuer remote \<and> m_admission old < m_admission v"
    if "fmlookup (r_members ro2) d = Some v" "\<not> same_keys old v" for v
    using that assms(5) 1(7)[of d]
    by (auto simp: 1(6) member_after_def joined_def joinable_def same_keys_def
        split: option.splits if_splits)
  from assms(6) have r3: "fmlookup (r_members ro3) d = Some new"
    by (auto simp: 1(9) prune_lookup split: option.splits if_splits)
  obtain v where
    "fmlookup (r_members ro2) d = Some v \<or> d = r_issuer remote \<and> v = issuer"
    "same_keys v new" "m_admission v \<le> m_admission new"
  proof (cases ex)
    case True
    with 1(8,4,5) assms(2) r3 that show ?thesis
      using admitted_member[of "r_issuer remote" issuer "r_issuer ro" ro2 ro3 "r_removed ro1" d new]
      by auto
  next
    case False
    with 1(8) r3 that[of new] show ?thesis by simp
  qed
  note v = this
  from v(2) assms(7) have differs: "\<not> same_keys old v" by (auto simp: same_keys_def)
  with v(1) assms(4,5) have "fmlookup (r_members ro2) d = Some v" by auto
  from mid[OF this differs] v(3) show ?thesis by auto
qed

lemma merge_guard_keys:
  "merge_guard g remote issuer ex = Inr u \<Longrightarrow>
     fmlookup (r_members (g_roster g)) (r_issuer remote) = Some known \<Longrightarrow> same_keys known issuer"
  by (auto simp: merge_guard_def split: if_splits)

lemma merge_rosters_again:
  assumes "merge_rosters remote issuer False ro = Inr ro'" and "r_issuer remote \<noteq> r_issuer ro"
    and "roster_active ro' (r_issuer ro)"
  shows "merge_rosters remote issuer False ro' = Inr ro'"
proof -
  note sel = merge_rosters_sel[OF assms(1,2)]
  note mem = merge_rosters_member[OF assms(1,3)]
  have "merge_removed (fm_entries (r_removed remote)) ro' = Inr ro'"
    by (rule merge_removed_known) (auto simp: set_fm_entries sel(2) intro: later_ge)
  moreover have "merge_members (r_issuer remote) (fm_entries (r_members remote)) ro' = Inr ro'"
  proof (rule merge_members_known)
    fix d m assume "(d, m) \<in> set (fm_entries (r_members remote))"
    then have m: "fmlookup (r_members remote) d = Some m" by (simp add: set_fm_entries)
    show "joinable (d = r_issuer ro') (d = r_issuer remote) (fmlookup (r_removed ro') d) (fmlookup (r_members ro') d) m
      \<and> joined (d = r_issuer ro') (fmlookup (r_removed ro') d) (fmlookup (r_members ro') d) m
        = fmlookup (r_members ro') d"
    proof (cases "d = r_issuer ro")
      case True
      with mem(2)[OF m] show ?thesis by (auto simp: sel(1) joinable_def joined_def same_keys_def)
    next
      case False
      with mem(1)[OF m] show ?thesis
        by (cases "out_of_date m (fmlookup (r_removed ro') d)")
           (auto simp: sel(1) joinable_def joined_def split: option.splits)
    qed
  qed
  ultimately show ?thesis using sel(3,4) by (simp add: merge_rosters_def)
qed

end
