(* ===== verification/Group_Props.thy ===== *)
theory Group_Props
  imports Group
begin

text \<open>
  The properties of the device group: what removals mean over any history, that nobody else
  touches this device's own record, that keys change only with a fresh admission, that merging a
  snapshot twice is merging it once, that both ends of a pair derive the same credential, and
  that a published snapshot reads back on another device.
\<close>

section \<open>A concrete group\<close>

definition demo_profile :: device_profile where
  "demo_profile = \<lparr>dp_app_version = None, dp_protocol_version = Some 11, dp_platform = Macos,
     dp_device_class = Laptop, dp_os_name = None, dp_os_version = None, dp_model = None\<rparr>"

definition demo_member :: "string \<Rightarrow> 64 word \<Rightarrow> member" where
  "demo_member dev admission =
     \<lparr>m_device_id = dev, m_name = dev, m_signing_key = dev, m_exchange_key = dev,
      m_admission = admission, m_revision = 0, m_profile = demo_profile, m_listen_addr = None\<rparr>"

definition demo_roster :: "string \<Rightarrow> 64 word \<Rightarrow> 64 word \<Rightarrow> roster" where
  "demo_roster own a b =
     \<lparr>r_issuer = own,
      r_members = fmupd ''a'' (demo_member ''a'' a) (fmupd ''b'' (demo_member ''b'' b) fmempty),
      r_removed = fmempty\<rparr>"

definition demo_group :: "string \<Rightarrow> 64 word \<Rightarrow> 64 word \<Rightarrow> group_state" where
  "demo_group own a b =
     \<lparr>g_identity = \<lparr>id_signing = own, id_exchange = own\<rparr>, g_roster = demo_roster own a b\<rparr>"

definition demo_snapshot :: "string \<Rightarrow> 64 word \<Rightarrow> 64 word \<Rightarrow> group_snapshot" where
  "demo_snapshot own a b = \<lparr>gs_roster = demo_roster own a b, gs_signature = replicate 128 CHR ''0''\<rparr>"

text \<open>
  Concrete functions for the crates: a key pair is one string, a shared secret is the pair of
  keys in order, a signature is accepted when it is 64 octets.
\<close>

definition demo_crypto :: crypto where
  "demo_crypto =
     \<lparr>c_roster_json = (\<lambda>ro. Some (r_issuer ro)),
      c_snapshot_json = (\<lambda>s. if s = demo_snapshot ''a'' 0 0 then Some ''{}'' else None),
      c_snapshot_of_json = (\<lambda>j. if j = ''{}'' then Some (demo_snapshot ''a'' 0 0) else None),
      c_pair_context = (\<lambda>es. Some (concat (map fst es))),
      c_channel_context = (\<lambda>es. Some (concat (map fst es))),
      c_hex_encode = (\<lambda>b. concat (map (\<lambda>x. [x, x]) b)),
      c_hex_decode = (\<lambda>t. Some (replicate 64 CHR ''0'')),
      c_base32 = (\<lambda>b. ''A2''), c_sha256 = (\<lambda>b. b),
      c_verifying_key = (\<lambda>k. k), c_sign = (\<lambda>k m. replicate 64 CHR ''0''),
      c_verify_strict = (\<lambda>k m t. length t = 64),
      c_public_key = (\<lambda>k. k),
      c_diffie_hellman = (\<lambda>k p. if k \<le> p then k @ p else p @ k),
      c_was_contributory = (\<lambda>t. t \<noteq> []),
      c_hkdf_expand = (\<lambda>salt k ctx. Some (k @ ctx))\<rparr>"

lemma demo_hex: "concat (map (\<lambda>x. [x, x]) (replicate 64 CHR ''0'')) = replicate 128 CHR ''0''"
  by (simp add: numeral_eq_Suc)

lemma demo_keys_neq: "''a'' \<noteq> zero_key" "''b'' \<noteq> zero_key"
  by (auto simp: zero_key_def numeral_eq_Suc)

lemmas demo_defs =
  demo_profile_def demo_member_def demo_roster_def demo_group_def demo_snapshot_def demo_crypto_def

lemmas demo_eval =
  demo_defs gs_validate_def Let_def fm_len_upd fm_entries_def fm_keys_upd validate_member_def
  validate_id_def id_octet_def is_ascii_alphanumeric_def in_range_def limit_defs peer_limit_defs
  validate_device_profile_def check_len_opt_def gs_verify_def ok_or_def signed_bytes_def
  domain_def max_group_bytes_def demo_keys_neq demo_hex validate_removed_def u64_max_def

lemma demo_snapshot_valid:
  "a \<noteq> u64_max \<Longrightarrow> b \<noteq> u64_max \<Longrightarrow> gs_validate demo_crypto (demo_snapshot ''a'' a b) = Inr ()"
  by (simp add: demo_eval)

lemma demo_group_valid:
  "a \<noteq> u64_max \<Longrightarrow> b \<noteq> u64_max \<Longrightarrow> group_validate demo_crypto (demo_group ''b'' a b) = Inr ()"
  by (simp add: demo_eval group_validate_def group_snapshot_of_def published_roster_def
      own_member_def is_active_def roster_active_def fm_retain_def length_concat sum_list_replicate)

lemma demo_merge_rosters:
  "merge_rosters (demo_roster ''a'' 3 0) (demo_member ''a'' 3) False (demo_roster ''b'' 0 0)
   = Inr (demo_roster ''b'' 3 0)"
  by (simp add: demo_defs merge_rosters_def fm_entries_def fm_keys_upd merge_member_def Let_def
        out_of_date_def same_keys_def newer_or_same_def prune_def roster_active_def ok_or_def
        fm_len_upd max_pairings_def fm_retain_upd)
     (auto intro!: fmap_ext)

lemma demo_merge_guard:
  "merge_guard (demo_group ''b'' 0 0) (demo_roster ''a'' 3 0) (demo_member ''a'' 3) False = Inr ()"
  by (simp add: demo_defs merge_guard_def same_keys_def removed_device_def out_of_date_def
      own_member_def ok_or_def)

lemma demo_rosters_differ: "demo_roster ''b'' 0 0 \<noteq> demo_roster ''b'' 3 0"
proof
  assume "demo_roster ''b'' 0 0 = demo_roster ''b'' 3 0"
  then have "fmlookup (r_members (demo_roster ''b'' 0 0)) ''a'' = fmlookup (r_members (demo_roster ''b'' 3 0)) ''a''"
    by simp
  then show False by (simp add: demo_defs)
qed

lemma demo_merge:
  "group_merge demo_crypto (demo_group ''b'' 0 0) (demo_snapshot ''a'' 3 0) False
   = Inr (demo_group ''b'' 3 0, True)"
proof -
  have "r_issuer (demo_roster own a b) = own"
    "fmlookup (r_members (demo_roster own a b)) ''a'' = Some (demo_member ''a'' a)"
    "gs_roster (demo_snapshot own a b) = demo_roster own a b"
    "g_roster (demo_group own a b) = demo_roster own a b"
    "(demo_group own a b)\<lparr>g_roster := demo_roster own d b\<rparr> = demo_group own d b"
    for own a b d by (simp_all add: demo_defs)
  moreover have "gs_validate demo_crypto (demo_snapshot ''a'' 3 0) = Inr ()"
    "group_validate demo_crypto (demo_group ''b'' 3 0) = Inr ()"
    by (rule demo_snapshot_valid demo_group_valid; simp add: u64_max_def)+
  ultimately show ?thesis
    by (simp add: group_merge_def Let_def ok_or_def demo_merge_guard demo_merge_rosters demo_rosters_differ)
qed

text \<open>The same group after \<open>b\<close> removed \<open>a\<close>, and after a ceremony brought \<open>a\<close> back.\<close>

definition demo_removed :: group_state where
  "demo_removed = (demo_group ''b'' 0 0)\<lparr>g_roster :=
     \<lparr>r_issuer = ''b'', r_members = fmupd ''b'' (demo_member ''b'' 0) fmempty,
      r_removed = fmupd ''a'' 0 fmempty\<rparr>\<rparr>"

definition demo_readmitted :: group_state where
  "demo_readmitted = (demo_group ''b'' 0 0)\<lparr>g_roster :=
     (demo_roster ''b'' 1 0)\<lparr>r_removed := fmupd ''a'' 0 fmempty\<rparr>\<rparr>"

lemma demo_remove: "group_remove (demo_group ''b'' 0 0) ''a'' = Inr (demo_removed, True)"
  by (simp add: demo_defs demo_removed_def group_remove_def validate_id_def id_octet_def
      is_ascii_alphanumeric_def in_range_def limit_defs peer_limit_defs Let_def)
     (auto intro!: fmap_ext)

lemma demo_readmit_rosters:
  "merge_rosters (demo_roster ''a'' 0 0) (demo_member ''a'' 0) True (g_roster demo_removed)
   = Inr (g_roster demo_readmitted)"
  by (simp add: demo_defs demo_removed_def demo_readmitted_def merge_rosters_def fm_entries_def
        fm_keys_upd merge_member_def Let_def out_of_date_def same_keys_def newer_or_same_def prune_def
        roster_active_def ok_or_def admit_def u64_checked_succ_def u64_max_def
        fm_len_upd max_pairings_def fm_retain_upd)

lemma demo_readmit_guard:
  "merge_guard demo_removed (demo_roster ''a'' 0 0) (demo_member ''a'' 0) True = Inr ()"
  by (simp add: demo_defs demo_removed_def merge_guard_def same_keys_def removed_device_def
      out_of_date_def own_member_def ok_or_def)

lemma demo_readmit_valid: "group_validate demo_crypto demo_readmitted = Inr ()"
  by (simp add: demo_readmitted_def demo_eval group_validate_def group_snapshot_of_def
      published_roster_def own_member_def is_active_def roster_active_def fm_retain_upd
      length_concat sum_list_replicate)

lemma demo_readmit:
  "group_merge demo_crypto demo_removed (demo_snapshot ''a'' 0 0) True = Inr (demo_readmitted, True)"
proof -
  have "r_issuer (demo_roster ''a'' 0 0) = ''a''" "r_issuer (g_roster demo_removed) = ''b''"
    "fmlookup (r_members (demo_roster ''a'' 0 0)) ''a'' = Some (demo_member ''a'' 0)"
    "gs_roster (demo_snapshot ''a'' 0 0) = demo_roster ''a'' 0 0"
    "demo_removed\<lparr>g_roster := g_roster demo_readmitted\<rparr> = demo_readmitted"
    by (simp_all add: demo_defs demo_removed_def demo_readmitted_def)
  moreover have "gs_validate demo_crypto (demo_snapshot ''a'' 0 0) = Inr ()"
    by (rule demo_snapshot_valid) (simp_all add: u64_max_def)
  moreover have "fmlookup (r_members (g_roster demo_removed)) ''a''
      \<noteq> fmlookup (r_members (g_roster demo_readmitted)) ''a''"
    by (simp add: demo_defs demo_removed_def demo_readmitted_def)
  then have "g_roster demo_removed \<noteq> g_roster demo_readmitted" by auto
  ultimately show ?thesis
    by (simp add: group_merge_def Let_def ok_or_def demo_readmit_guard demo_readmit_rosters demo_readmit_valid)
qed

text \<open>
  A third device \<open>c\<close> that was reset: \<open>b\<close> still knows its first key, and \<open>a\<close> certifies the second
  one under the next admission.
\<close>

definition with_reset :: "string \<Rightarrow> 64 word \<Rightarrow> roster \<Rightarrow> roster" where
  "with_reset key admission ro = ro\<lparr>r_members :=
     fmupd ''c'' ((demo_member ''c'' admission)\<lparr>m_exchange_key := key\<rparr>) (r_members ro)\<rparr>"

lemma demo_reset:
  defines "g \<equiv> (demo_group ''b'' 0 0)\<lparr>g_roster := with_reset ''k'' 0 (demo_roster ''b'' 0 0)\<rparr>"
    and "s \<equiv> (demo_snapshot ''a'' 0 0)\<lparr>gs_roster := with_reset ''l'' 1 (demo_roster ''a'' 0 0)\<rparr>"
    and "g' \<equiv> (demo_group ''b'' 0 0)\<lparr>g_roster := with_reset ''l'' 1 (demo_roster ''b'' 0 0)\<rparr>"
  shows "group_merge demo_crypto g s False = Inr (g', True)"
proof -
  have "''k'' \<noteq> zero_key" "''l'' \<noteq> zero_key" by (auto simp: zero_key_def numeral_eq_Suc)
  then have "gs_validate demo_crypto s = Inr ()" "group_validate demo_crypto g' = Inr ()"
    by (simp_all add: s_def g'_def with_reset_def demo_eval group_validate_def group_snapshot_of_def
        published_roster_def own_member_def is_active_def roster_active_def fm_retain_upd
        length_concat sum_list_replicate)
  moreover have "merge_rosters (gs_roster s) (demo_member ''a'' 0) False (g_roster g) = Inr (g_roster g')"
    by (simp add: g_def s_def g'_def with_reset_def demo_defs merge_rosters_def fm_entries_def
        fm_keys_upd merge_member_def Let_def out_of_date_def same_keys_def newer_or_same_def prune_def
        roster_active_def ok_or_def fm_len_upd max_pairings_def fm_retain_upd)
       (auto intro!: fmap_ext)
  moreover have "merge_guard g (gs_roster s) (demo_member ''a'' 0) False = Inr ()"
    by (simp add: g_def s_def with_reset_def demo_defs merge_guard_def same_keys_def
        removed_device_def out_of_date_def own_member_def ok_or_def)
  moreover have "r_issuer (gs_roster s) = ''a''" "r_issuer (g_roster g) = ''b''"
    "fmlookup (r_members (gs_roster s)) ''a'' = Some (demo_member ''a'' 0)"
    "g\<lparr>g_roster := g_roster g'\<rparr> = g'"
    "fmlookup (r_members (g_roster g)) ''c'' \<noteq> fmlookup (r_members (g_roster g')) ''c''"
    by (simp_all add: g_def s_def g'_def with_reset_def demo_defs)
  ultimately show ?thesis by (auto simp: group_merge_def Let_def ok_or_def)
qed

section \<open>Properties\<close>

text \<open>
  Removal evidence only grows. After any successful merge the removed generation of every
  device is the later of the two rosters' generations, and no other device is kept whose
  admission is not beyond its removal.
\<close>

theorem group_merge_removals:
  assumes "group_merge c g s explicit = Inr (g', changed)"
    and "r_issuer (gs_roster s) \<noteq> r_issuer (g_roster g)"
  shows "fmlookup (r_removed (g_roster g')) d =
           later (fmlookup (r_removed (g_roster g)) d) (fmlookup (r_removed (gs_roster s)) d)
     \<and> (\<forall>m r. d \<noteq> r_issuer (g_roster g) \<and> fmlookup (r_members (g_roster g')) d = Some m
             \<and> fmlookup (r_removed (g_roster g')) d = Some r \<longrightarrow> r < m_admission m)"
proof -
  from assms obtain issuer where merged:
    "merge_rosters (gs_roster s) issuer explicit (g_roster g) = Inr (g_roster g')"
    by (elim group_merge_cases) auto
  note sel = merge_rosters_sel[OF merged assms(2)]
  have "r < m_admission m" if "d \<noteq> r_issuer (g_roster g)"
    "fmlookup (r_members (g_roster g')) d = Some m" "fmlookup (r_removed (g_roster g')) d = Some r" for m r
    using that prune_member_current[of "g_roster g'" d m] sel(1,3) by (auto simp: out_of_date_def)
  with sel(2) show ?thesis by blast
qed

theorem group_merge_removals_witness:
  "fmlookup (r_removed (g_roster demo_readmitted)) ''a'' =
     later (fmlookup (r_removed (g_roster demo_removed)) ''a'')
           (fmlookup (r_removed (gs_roster (demo_snapshot ''a'' 0 0))) ''a'')
   \<and> (0 :: 64 word) < m_admission (demo_member ''a'' 1)"
proof -
  have "r_issuer (gs_roster (demo_snapshot ''a'' 0 0)) \<noteq> r_issuer (g_roster demo_removed)"
    "''a'' \<noteq> r_issuer (g_roster demo_removed)"
    "fmlookup (r_members (g_roster demo_readmitted)) ''a'' = Some (demo_member ''a'' 1)"
    "fmlookup (r_removed (g_roster demo_readmitted)) ''a'' = Some 0"
    by (simp_all add: demo_defs demo_removed_def demo_readmitted_def)
  with group_merge_removals[OF demo_readmit, of "''a''"] show ?thesis by blast
qed

text \<open>
  Nobody else can change this device's own record. A merge that no local ceremony confirmed
  leaves the own member, the private identity and the issuer exactly as they were.
\<close>

theorem group_merge_own_record:
  assumes "group_merge c g s False = Inr (g', changed)"
  shows "own_member g' = own_member g \<and> g_identity g' = g_identity g
     \<and> r_issuer (g_roster g') = r_issuer (g_roster g)"
proof (cases "own_member g")
  case (Some me)
  with group_merge_own_member[OF assms] show ?thesis by auto
next
  case None
  with assms have "g' = g" by (auto elim!: group_merge_cases dest: merge_guard_own)
  then show ?thesis by simp
qed

theorem group_merge_own_record_witness:
  "own_member (demo_group ''b'' 3 0) = own_member (demo_group ''b'' 0 0)
     \<and> g_identity (demo_group ''b'' 3 0) = g_identity (demo_group ''b'' 0 0)
     \<and> r_issuer (g_roster (demo_group ''b'' 3 0)) = r_issuer (g_roster (demo_group ''b'' 0 0))"
  by (rule group_merge_own_record[OF demo_merge])

text \<open>
  C20: keys are continuous. When a merge, explicit or not, replaces the keys of a device that was
  known, that device is neither this one nor the signer of the snapshot, and its admission has
  advanced: a self-signed key swap and an equal-generation replacement never succeed.
\<close>

theorem group_merge_key_continuity:
  assumes "group_merge c g s explicit = Inr (g', changed)"
    and "fmlookup (r_members (g_roster g)) d = Some old"
    and "fmlookup (r_members (g_roster g')) d = Some new"
    and "\<not> same_keys old new"
  shows "d \<noteq> r_issuer (g_roster g) \<and> d \<noteq> r_issuer (gs_roster s) \<and> m_admission old < m_admission new"
  using assms(1)
proof (cases rule: group_merge_cases)
  case own
  with assms(2-4) show ?thesis by simp
next
  case (other issuer ro)
  with merge_rosters_keys[OF other(5,1,3) merge_guard_keys[OF other(4)] assms(2) _ assms(4)] assms(3)
  show ?thesis by simp
qed

theorem group_merge_key_continuity_witness:
  "''c'' \<noteq> r_issuer (with_reset ''k'' 0 (demo_roster ''b'' 0 0))
   \<and> ''c'' \<noteq> r_issuer (with_reset ''l'' 1 (demo_roster ''a'' 0 0))
   \<and> m_admission ((demo_member ''c'' 0)\<lparr>m_exchange_key := ''k''\<rparr>)
       < m_admission ((demo_member ''c'' 1)\<lparr>m_exchange_key := ''l''\<rparr>)"
  using group_merge_key_continuity[OF demo_reset, of "''c''"
      "(demo_member ''c'' 0)\<lparr>m_exchange_key := ''k''\<rparr>" "(demo_member ''c'' 1)\<lparr>m_exchange_key := ''l''\<rparr>"]
  by (simp add: with_reset_def same_keys_def)

text \<open>
  A snapshot delivered twice is a snapshot delivered once: while this device is an active
  member, merging the same snapshot again is accepted and reports no change.
\<close>

theorem group_merge_idempotent:
  assumes "group_merge c g s False = Inr (g', changed)" and "group_active g'"
  shows "group_merge c g' s False = Inr (g', False)"
  using assms(1)
proof (cases rule: group_merge_cases)
  case own
  with assms(1) show ?thesis by simp
next
  case (other issuer ro)
  note sel = merge_rosters_sel[OF other(5,1)]
  have active: "roster_active ro (r_issuer (g_roster g))"
    using assms(2) sel(1) by (simp add: group_active_def is_active_def other(6))
  have fresh: "\<not> out_of_date issuer (fmlookup (r_removed (gs_roster s)) (r_issuer (gs_roster s)))"
    "\<not> out_of_date issuer (fmlookup (r_removed (g_roster g)) (r_issuer (gs_roster s)))"
    using other(4) by (auto simp: merge_guard_def split: if_splits)
  then have "\<not> out_of_date issuer (fmlookup (r_removed ro) (r_issuer (gs_roster s)))"
    by (auto simp: sel(2) out_of_date_def later_def le_max_iff_disj split: option.splits)
  moreover from merge_rosters_member(1)[OF other(5) active other(3) other(1) this]
  obtain v where "fmlookup (r_members ro) (r_issuer (gs_roster s)) = Some v" "same_keys v issuer"
    "\<not> out_of_date v (fmlookup (r_removed ro) (r_issuer (gs_roster s)))" by blast
  moreover have "own_member g' = own_member g"
    using group_merge_own_member[OF assms(1)] merge_guard_own[OF other(4)] by auto
  moreover have "\<not> removed_device g' (r_issuer (gs_roster s))"
    using calculation by (auto simp: removed_device_def is_active_def roster_active_def other(6)
        out_of_date_def split: option.splits)
  ultimately have "merge_guard g' (gs_roster s) issuer False = Inr ()"
    using merge_guard_own[OF other(4)] fresh(1)
    by (auto simp: merge_guard_def other(6) sel(1) ok_or_def leD split: option.splits)
  then show ?thesis
    using merge_rosters_again[OF other(5,1) active] other(2,3,1) sel(1)
    by (simp add: group_merge_def Let_def ok_or_def other(6))
qed

theorem group_merge_idempotent_witness:
  "group_merge demo_crypto (demo_group ''b'' 3 0) (demo_snapshot ''a'' 3 0) False
   = Inr (demo_group ''b'' 3 0, False)"
  by (rule group_merge_idempotent[OF demo_merge])
     (simp add: demo_defs group_active_def is_active_def roster_active_def)

text \<open>
  C19: a removal outlives every later change. After this device removes another, whatever
  sequence of merges, removals, profile updates and admissions follows, the removed device is
  active again only under an admission beyond the removed one.
\<close>

theorem removal_outlives_history:
  assumes "group_remove g dev = Inr (g1, changed)" and "(group_step c)\<^sup>*\<^sup>* g1 g2"
    and "is_active g2 dev"
  shows "\<exists>m. fmlookup (r_members (g_roster g2)) dev = Some m
     \<and> (case fmlookup (r_members (g_roster g)) dev of None \<Rightarrow> 0 | Some old \<Rightarrow> m_admission old)
         < m_admission m"
proof -
  from group_remove_removed(2)[OF assms(1)] obtain r where
    "fmlookup (r_removed (g_roster g1)) dev = Some r" and
    r: "(case fmlookup (r_members (g_roster g)) dev of None \<Rightarrow> 0 | Some old \<Rightarrow> m_admission old) \<le> r"
    by blast
  from group_steps_removed[OF assms(2) this(1)] obtain r' where
    "fmlookup (r_removed (g_roster g2)) dev = Some r'" "r \<le> r'" by blast
  moreover from assms(3) calculation(1) obtain m where
    "fmlookup (r_members (g_roster g2)) dev = Some m" "r' < m_admission m"
    by (auto simp: is_active_def roster_active_def split: option.splits)
  ultimately show ?thesis using r by (intro exI[of _ m]) auto
qed

theorem removal_outlives_history_witness:
  "\<exists>g1 g2 changed. group_remove (demo_group ''b'' 0 0) ''a'' = Inr (g1, changed)
     \<and> (group_step demo_crypto)\<^sup>*\<^sup>* g1 g2 \<and> is_active g2 ''a''
     \<and> (\<exists>m. fmlookup (r_members (g_roster g2)) ''a'' = Some m \<and> 0 < m_admission m)"
proof -
  have steps: "(group_step demo_crypto)\<^sup>*\<^sup>* demo_removed demo_readmitted"
    by (intro r_into_rtranclp step_merge[OF demo_readmit])
  have active: "is_active demo_readmitted ''a''"
    by (simp add: demo_defs is_active_def roster_active_def demo_readmitted_def)
  have "fmlookup (r_members (g_roster (demo_group ''b'' 0 0))) ''a'' = Some (demo_member ''a'' 0)"
    "m_admission (demo_member ''a'' 0) = 0"
    by (simp_all add: demo_defs)
  with removal_outlives_history[OF demo_remove steps active] demo_remove steps active show ?thesis
    by fastforce
qed

text \<open>
  This device stays itself. Over every history its private identity, its id and its public
  keys are constant and its own admission never goes back.
\<close>

theorem own_identity_is_stable:
  assumes "(group_step c)\<^sup>*\<^sup>* g g'" and "own_member g = Some me"
  shows "g_identity g' = g_identity g \<and> r_issuer (g_roster g') = r_issuer (g_roster g)
     \<and> (\<exists>me'. own_member g' = Some me' \<and> same_keys me me' \<and> m_admission me \<le> m_admission me')"
  using assms by (rule group_steps_own)

theorem own_identity_is_stable_witness:
  "g_identity (demo_group ''b'' 3 0) = g_identity (demo_group ''b'' 0 0)
     \<and> r_issuer (g_roster (demo_group ''b'' 3 0)) = r_issuer (g_roster (demo_group ''b'' 0 0))
     \<and> (\<exists>me'. own_member (demo_group ''b'' 3 0) = Some me' \<and> same_keys (demo_member ''b'' 0) me'
            \<and> m_admission (demo_member ''b'' 0) \<le> m_admission me')"
  by (rule own_identity_is_stable[of demo_crypto])
     (use demo_merge in \<open>auto intro: r_into_rtranclp step_merge simp: demo_defs own_member_def\<close>)

text \<open>
  Both ends of a pair derive the same credential. When the two devices hold the same
  public record of each other, the pairing id and the pre-shared key that one derives for the
  other are the ones the other derives for it, given only that the key exchange commutes.
\<close>

lemma endpoints_commute:
  "m_device_id a \<noteq> m_device_id b \<Longrightarrow> endpoints a b = endpoints b a"
  by (auto simp: endpoints_def)

theorem derived_credentials_agree:
  assumes "derive_peer c ida a b = Inr p"
    and "\<And>x y. c_diffie_hellman c x (c_public_key c y) = c_diffie_hellman c y (c_public_key c x)"
    and "m_exchange_key a = c_public_key c (id_exchange ida)"
    and "m_exchange_key b = c_public_key c (id_exchange idb)"
    and "m_device_id a \<noteq> m_device_id b"
  shows "\<exists>q. derive_peer c idb b a = Inr q \<and> p_pairing_id q = p_pairing_id p \<and> p_psk q = p_psk p
     \<and> p_device_id p = Some (m_device_id b) \<and> p_device_id q = Some (m_device_id a)"
proof -
  have "c_diffie_hellman c (id_exchange idb) (m_exchange_key a)
      = c_diffie_hellman c (id_exchange ida) (m_exchange_key b)"
    using assms(2)[of "id_exchange idb" "id_exchange ida"] by (simp add: assms(3,4))
  with assms(1) endpoints_commute[OF assms(5)] show ?thesis
    by (auto simp: derive_peer_def Let_def res_bind_Inr_iff split: if_splits)
qed

theorem derived_credentials_agree_witness:
  "\<exists>p q. derive_peer demo_crypto (g_identity (demo_group ''a'' 0 0)) (demo_member ''a'' 1) (demo_member ''b'' 2) = Inr p
     \<and> derive_peer demo_crypto (g_identity (demo_group ''b'' 0 0)) (demo_member ''b'' 2) (demo_member ''a'' 1) = Inr q
     \<and> p_pairing_id q = p_pairing_id p \<and> p_psk q = p_psk p"
proof -
  have "\<exists>p. derive_peer demo_crypto (g_identity (demo_group ''a'' 0 0)) (demo_member ''a'' 1) (demo_member ''b'' 2) = Inr p"
    by (simp add: derive_peer_def demo_defs Let_def ok_or_def is_valid_pairing_id_def group_pairing_prefix_def
        id_octet_def is_ascii_alphanumeric_def in_range_def peer_limit_defs)
  then obtain p where p: "derive_peer demo_crypto (g_identity (demo_group ''a'' 0 0)) (demo_member ''a'' 1)
      (demo_member ''b'' 2) = Inr p" by blast
  have "c_diffie_hellman demo_crypto x (c_public_key demo_crypto y)
      = c_diffie_hellman demo_crypto y (c_public_key demo_crypto x)" for x y
    by (auto simp: demo_crypto_def)
  from derived_credentials_agree[OF p this, of "g_identity (demo_group ''b'' 0 0)"] p show ?thesis
    by (force simp: demo_member_def demo_group_def demo_crypto_def)
qed

text \<open>
  The two ends of a SAS ceremony settle on the same admissions. Whenever both accept, each
  one's local generation is the other's remote generation, neither goes back, a peer moves this
  device's generation by at most one, and the last generation is never certified.
\<close>

theorem admissions_agree:
  assumes "agree a b = Inr x" and "agree b a = Inr y"
  shows "pa_local x = pa_remote y \<and> pa_remote x = pa_local y
     \<and> pa_local a \<le> pa_local x \<and> pa_remote a \<le> pa_remote x
     \<and> unat (pa_local x) \<le> unat (pa_local a) + 1
     \<and> pa_local x \<noteq> u64_max \<and> pa_remote x \<noteq> u64_max"
proof -
  from assms(1) have x: "x = \<lparr>pa_local = max (pa_local a) (pa_remote b), pa_remote = max (pa_remote a) (pa_local b)\<rparr>"
    and top: "pa_local x \<noteq> u64_max" "pa_remote x \<noteq> u64_max"
    and ends: "pa_local a \<noteq> u64_max" "pa_remote b \<le> pa_local a + 1"
    by (auto simp: agree_def res_bind_Inr_iff u64_checked_succ_def Let_def split: if_splits)
  from assms(2) have y: "y = \<lparr>pa_local = max (pa_local b) (pa_remote a), pa_remote = max (pa_remote b) (pa_local a)\<rparr>"
    by (auto simp: agree_def res_bind_Inr_iff Let_def split: if_splits)
  have "unat (pa_local a + 1) = unat (pa_local a) + 1"
    using u64_unat_succ[OF ends(1)] by simp
  with ends(2) have "unat (pa_remote b) \<le> unat (pa_local a) + 1" by (simp add: word_le_nat_alt)
  then have "unat (pa_local x) \<le> unat (pa_local a) + 1" by (simp add: x max_def)
  with x y top show ?thesis by (simp add: max.commute)
qed

theorem admissions_agree_witness:
  "pa_local (\<lparr>pa_local = 3, pa_remote = 7\<rparr> :: pair_admissions) = 3
   \<and> (\<exists>x y. agree \<lparr>pa_local = 2, pa_remote = 7\<rparr> \<lparr>pa_local = 6, pa_remote = 3\<rparr> = Inr x
        \<and> agree \<lparr>pa_local = 6, pa_remote = 3\<rparr> \<lparr>pa_local = 2, pa_remote = 7\<rparr> = Inr y
        \<and> pa_local x = pa_remote y \<and> pa_remote x = pa_local y)"
proof -
  have "agree \<lparr>pa_local = 2, pa_remote = 7\<rparr> \<lparr>pa_local = 6, pa_remote = 3\<rparr> = Inr \<lparr>pa_local = 3, pa_remote = 7\<rparr>"
    "agree \<lparr>pa_local = 6, pa_remote = 3\<rparr> \<lparr>pa_local = 2, pa_remote = 7\<rparr> = Inr \<lparr>pa_local = 7, pa_remote = 3\<rparr>"
    by (simp_all add: agree_def u64_checked_succ_def u64_max_def ok_or_def)
  with admissions_agree[OF this] show ?thesis by simp
qed

text \<open>
  What a device publishes, another device can read. When the roster is within its limits,
  every record passes its checks and the own record carries the identity's public keys, the
  signed snapshot exists, encodes when its JSON fits, and decodes and verifies to itself,
  for any signature scheme that accepts its own signatures and any encoders that invert.
\<close>

definition roster_ok :: "roster \<Rightarrow> bool" where
  "roster_ok ro \<longleftrightarrow>
     fm_len (r_members ro) \<le> max_pairings + 1 \<and> fm_len (r_removed ro) \<le> max_revocations
     \<and> list_all (\<lambda>(d, m). validate_member d m = Inr ()) (fm_entries (r_members ro))
     \<and> list_all (\<lambda>(d, r). validate_removed d r = Inr ()) (fm_entries (r_removed ro))"

lemma fm_len_pos: "fmlookup m k = Some v \<Longrightarrow> fm_len m \<noteq> 0"
  by (metis fcard_0_eq fempty_iff fm_len_def fmdomI)

lemma published_roster_ok: "roster_ok (g_roster g) \<Longrightarrow> roster_ok (published_roster g)"
  using fm_len_retain_le[of _ "r_members (g_roster g)"]
  by (fastforce simp: roster_ok_def published_roster_def list_all_iff set_fm_entries
      intro: order_trans split: option.splits if_splits)

theorem snapshot_travels:
  assumes verify: "\<And>k t. c_verify_strict c (c_verifying_key c k) t (c_sign c k t)"
    and hex: "\<And>b. c_hex_decode c (c_hex_encode c b) = Some b"
    and hex_len: "\<And>k t. length (c_hex_encode c (c_sign c k t)) = 128"
    and json: "\<And>s j. c_snapshot_json c s = Some j \<Longrightarrow> c_snapshot_of_json c j = Some s"
    and own: "own_member g = Some me" "m_signing_key me = c_verifying_key c (id_signing (g_identity g))"
    and ok: "roster_ok (g_roster g)"
    and fits: "signed_bytes c (published_roster g) = Inr t"
  shows "\<exists>s. group_snapshot_of c g = Inr s \<and> gs_roster s = published_roster g
     \<and> gs_validate c s = Inr ()
     \<and> (\<forall>j. gs_encode c s = Inr j \<longrightarrow> gs_decode c j = Inr s)"
proof -
  define s where "s = \<lparr>gs_roster = published_roster g,
     gs_signature = c_hex_encode c (c_sign c (id_signing (g_identity g)) t)\<rparr>"
  have "fmlookup (r_members (published_roster g)) (r_issuer (published_roster g)) = Some me"
    using own(1) by (simp add: published_roster_def own_member_def)
  then have "gs_verify c s = Inr ()" and "fm_len (r_members (published_roster g)) \<noteq> 0"
    by (auto simp: gs_verify_def s_def ok_or_def hex fits own(2) verify dest: fm_len_pos)
  with published_roster_ok[OF ok] have "gs_validate c s = Inr ()"
    by (auto simp: gs_validate_def Let_def first_err_ok_iff s_def roster_ok_def hex_len list_all_iff)
  moreover have "group_snapshot_of c g = Inr s" by (simp add: group_snapshot_of_def fits s_def)
  moreover have "\<forall>j. gs_encode c s = Inr j \<longrightarrow> gs_decode c j = Inr s"
    using calculation json by (auto simp: gs_encode_def gs_decode_def res_bind_Inr_iff split: if_splits)
  ultimately show ?thesis by (auto simp: s_def)
qed

text \<open>An encoder whose decoder inverts it: each octet twice.\<close>

fun halve :: "string \<Rightarrow> bytes option" where
  "halve [] = Some []"
| "halve [x] = None"
| "halve (x # y # rest) = (if x = y then map_option (\<lambda>r. x # r) (halve rest) else None)"

lemma halve_twice: "halve (concat (map (\<lambda>x. [x, x]) b)) = Some b"
  by (induction b) auto

theorem snapshot_travels_witness:
  "\<exists>s. group_snapshot_of (demo_crypto\<lparr>c_hex_decode := halve\<rparr>) (demo_group ''a'' 0 0) = Inr s
     \<and> gs_validate (demo_crypto\<lparr>c_hex_decode := halve\<rparr>) s = Inr ()
     \<and> gs_encode (demo_crypto\<lparr>c_hex_decode := halve\<rparr>) s = Inr ''{}''
     \<and> gs_decode (demo_crypto\<lparr>c_hex_decode := halve\<rparr>) ''{}'' = Inr s"
proof -
  let ?c = "demo_crypto\<lparr>c_hex_decode := halve\<rparr>"
  have "\<exists>s. group_snapshot_of ?c (demo_group ''a'' 0 0) = Inr s
     \<and> gs_roster s = published_roster (demo_group ''a'' 0 0) \<and> gs_validate ?c s = Inr ()
     \<and> (\<forall>j. gs_encode ?c s = Inr j \<longrightarrow> gs_decode ?c j = Inr s)"
  proof (rule snapshot_travels[where me = "demo_member ''a'' 0" and t = "domain @ ''a''"])
    show "roster_ok (g_roster (demo_group ''a'' 0 0))"
      by (simp add: roster_ok_def demo_eval)
  qed (auto simp: demo_defs halve_twice length_concat sum_list_replicate own_member_def signed_bytes_def
        published_roster_def ok_or_def Let_def domain_def max_group_bytes_def split: if_splits)
  moreover have "group_snapshot_of ?c (demo_group ''a'' 0 0) = Inr (demo_snapshot ''a'' 0 0)"
    using demo_hex
    by (simp add: group_snapshot_of_def published_roster_def is_active_def roster_active_def
        demo_defs signed_bytes_def domain_def max_group_bytes_def Let_def fm_retain_upd)
  moreover have "gs_encode ?c (demo_snapshot ''a'' 0 0) = Inr ''{}''"
    by (simp add: gs_encode_def demo_crypto_def max_group_bytes_def)
  ultimately show ?thesis by auto
qed

end
