(* ===== verification/Codec.thy ===== *)
theory Codec
  imports Group
begin

text \<open>
  The message set and its codec: \<open>SyncMessage\<close> of \<open>crates/copypaste-p2p/src/protocol.rs\<close>,
  \<open>protocol/codec.rs\<close> and the binary items envelope of \<open>protocol/items.rs\<close>.

  \<open>serde_json\<close> is the record \<open>wire\<close>: a writer and a reader for each type the code passes to it,
  with the crates that the group snapshot and the payload metadata need. Zeroising a buffer
  has no value, so the error paths that wipe one are the plain error.
\<close>

section \<open>Messages\<close>

datatype sync_message =
    GroupMsg (g_version: nat) (g_snapshot: group_snapshot)
  | Probe nat "64 word" "device_profile option"
  | ProbeAck nat "64 word" "device_profile option"
  | Hello (h_version: nat) (h_device_id: string) (h_device_name: string)
          (h_profile: "device_profile option") (h_listen_addr: "string option") (h_since_ms: int)
  | Summary (sm_items: "item_summary list") (sm_more: bool)
  | Request (rq_item_ids: "string list")
  | Items (it_items: "sync_item list")
  | FileRequest nat string string "64 word" "64 word"
  | FileChunk "64 word" bytes
  | FileUnavailable string
  | FileChecksum string
  | Done

fun kind :: "sync_message \<Rightarrow> string" where
  "kind (GroupMsg _ _) = ''group''"
| "kind (Probe _ _ _) = ''probe''"
| "kind (ProbeAck _ _ _) = ''probe_ack''"
| "kind (Hello _ _ _ _ _ _) = ''hello''"
| "kind (Summary _ _) = ''summary''"
| "kind (Request _) = ''request''"
| "kind (Items _) = ''items''"
| "kind Done = ''done''"
| "kind (FileRequest _ _ _ _ _) = ''file_request''"
| "kind (FileChunk _ _) = ''file_chunk''"
| "kind (FileUnavailable _) = ''file_unavailable''"
| "kind (FileChecksum _) = ''file_checksum''"

type_synonym payload_table = "(nat \<times> bool) list"

record wire =
  w_crypto :: crypto
  w_metadata_ok :: metadata_check
  w_to_json :: "sync_message \<Rightarrow> string + bytes"
  w_from_json :: "bytes \<Rightarrow> string + sync_message"
  w_summary_body :: "bytes \<Rightarrow> string + item_summary list \<times> bool"
  w_header_version :: "bytes \<Rightarrow> nat option"
  w_header_out :: "sync_item list \<Rightarrow> payload_table \<Rightarrow> string + bytes"
  w_header_in :: "bytes \<Rightarrow> (sync_item list \<times> payload_table) option"

section \<open>Validation\<close>

definition hex_digit :: "byte \<Rightarrow> bool" where
  "hex_digit b \<longleftrightarrow> is_ascii_digit b \<or> in_range b 97 102"

definition validate_summary :: "item_summary \<Rightarrow> protocol_error + unit" where
  "validate_summary s = first_err
     [check_id ''item_id'' (s_item_id s),
      check_id ''origin_device_id'' (s_origin_device_id s),
      check_len ''content_hash'' (s_content_hash s) max_hash_bytes,
      check_timestamp (s_created_at s),
      check_timestamp (s_pin_updated_at s),
      check_pin_state (s_pinned s) (s_pin_order s)]"

text \<open>The loop over the items of one batch: the running total, or the first refusal.\<close>

fun validate_items :: "metadata_check \<Rightarrow> sync_item list \<Rightarrow> nat \<Rightarrow> protocol_error + nat" where
  "validate_items mo [] acc = Inr acc"
| "validate_items mo (i # rest) acc =
     res_bind (validate_item mo i) (\<lambda>_.
       validate_items mo rest
         (usize_saturating_add (usize_saturating_add acc (content_len i)) (metadata_len i)))"

definition validate_listen_addr :: "string option \<Rightarrow> protocol_error + unit" where
  "validate_listen_addr a =
     (case a of
        None \<Rightarrow> Inr ()
      | Some addr \<Rightarrow> first_err
         [check_len ''listen_addr'' addr max_listen_addr_bytes,
          if parse_socket_addr addr = None then Inl InvalidListenAddr else Inr ()])"

fun validate :: "wire \<Rightarrow> sync_message \<Rightarrow> protocol_error + unit" where
  "validate w (GroupMsg v s) = first_err
     [check_protocol_version v,
      case gs_validate (w_crypto w) s of
        Inl _ \<Rightarrow> Inl (Decode ''invalid device group'') | Inr _ \<Rightarrow> Inr (),
      case gs_encode (w_crypto w) s of
        Inl _ \<Rightarrow> Inl (Decode ''invalid device group'') | Inr _ \<Rightarrow> Inr ()]"
| "validate w (Probe v _ profile) = first_err [check_protocol_version v, validate_profile_opt profile]"
| "validate w (ProbeAck v _ profile) = first_err [check_protocol_version v, validate_profile_opt profile]"
| "validate w (Hello v device_id device_name profile listen_addr since_ms) = first_err
     [check_protocol_version v,
      check_id ''device_id'' device_id,
      check_len ''device_name'' device_name max_device_name_bytes,
      validate_profile_opt profile,
      if since_ms < 0 then Inl (NegativeTimestamp ''since_ms'') else Inr (),
      validate_listen_addr listen_addr]"
| "validate w (Summary items _) = first_err
     (check_count ''summary'' (length items) max_summaries_per_message # map validate_summary items)"
| "validate w (Request item_ids) = first_err
     (check_count ''request'' (length item_ids) max_request_ids_per_message
      # map (check_id ''item_id'') item_ids)"
| "validate w (Items items) =
     res_bind (check_count ''items'' (length items) max_items_per_message) (\<lambda>_.
     res_bind (validate_items (w_metadata_ok w) items 0) (\<lambda>total.
       if total > max_item_bytes_per_message
       then Inl (BatchTooLarge total max_item_bytes_per_message) else Inr ()))"
| "validate w Done = Inr ()"
| "validate w (FileRequest v item_id sha256 sz idx) = first_err
     [check_protocol_version v,
      check_id ''item_id'' item_id,
      if (sha256 \<noteq> [] \<and> length sha256 \<noteq> 64) \<or> \<not> list_all hex_digit sha256
         \<or> (sz = 0 \<and> idx \<noteq> 0) \<or> (sz > 0 \<and> idx > (sz - 1) div 65536)
      then Inl (Decode ''invalid file request'') else Inr ()]"
| "validate w (FileChunk _ octets) =
     (if length octets > file_chunk_bytes then Inl (ContentTooLarge (length octets) file_chunk_bytes)
      else Inr ())"
| "validate w (FileUnavailable reason) =
     (if reason = [] \<or> length reason > 512 \<or> has_control reason
      then Inl (Decode ''invalid file failure reason'') else Inr ())"
| "validate w (FileChecksum sha256) =
     (if length sha256 \<noteq> 64 \<or> \<not> list_all hex_digit sha256
      then Inl (Decode ''invalid file checksum'') else Inr ())"

section \<open>The items envelope\<close>

definition items_magic :: bytes where "items_magic = ''CPI1''"
definition prefix_bytes :: nat where "prefix_bytes = 12"
definition u32_max :: nat where "u32_max = 4294967295"

definition payload :: "sync_item \<Rightarrow> bytes \<times> bool" where
  "payload i = (if i_binary_content i = [] then (i_content i, False) else (i_binary_content i, True))"

definition envelope_invalid :: protocol_error where
  "envelope_invalid = Decode ''invalid items envelope''"

record items_frame =
  f_head :: bytes
  f_payloads :: "bytes list"
  f_total :: nat

text \<open>The loop of \<open>ItemsFrame::new\<close>: the payload table, the payloads and the length of the body.\<close>

fun frame_table ::
  "sync_item list \<Rightarrow> payload_table \<Rightarrow> bytes list \<Rightarrow> nat
   \<Rightarrow> protocol_error + payload_table \<times> bytes list \<times> nat" where
  "frame_table [] table payloads body = Inr (table, payloads, body)"
| "frame_table (i # rest) table payloads body =
     (let (octets, binary) = payload i in
      if length octets > u32_max then Inl (ContentTooLarge (length octets) max_content_bytes)
      else frame_table rest (table @ [(length octets, binary)]) (payloads @ [octets])
             (usize_saturating_add body (length octets)))"

text \<open>\<open>json_len\<close>: the length of the JSON, counted without keeping it.\<close>

definition json_len :: "string + bytes \<Rightarrow> protocol_error + nat" where
  "json_len written =
     (case written of
        Inl e \<Rightarrow> Inl (Encode e)
      | Inr octets \<Rightarrow>
          if length octets > usize_max then Inl (Encode ''message size overflow'')
          else Inr (length octets))"

definition items_frame_new :: "wire \<Rightarrow> sync_item list \<Rightarrow> protocol_error + items_frame" where
  "items_frame_new w items =
     res_bind (frame_table items [] [] 0) (\<lambda>(table, payloads, body).
     res_bind (json_len (w_header_out w items table)) (\<lambda>header_len.
       let total = usize_saturating_add (usize_saturating_add prefix_bytes header_len) body in
       if total > max_message_bytes then Inl (MessageTooLarge total max_message_bytes)
       else case w_header_out w items table of
              Inl e \<Rightarrow> Inl (Encode e)
            | Inr header \<Rightarrow>
                Inr \<lparr>f_head = items_magic @ be_bytes 4 total @ be_bytes 4 header_len @ header,
                     f_payloads = payloads, f_total = total\<rparr>))"

definition frame_parts :: "items_frame \<Rightarrow> bytes list" where
  "frame_parts f = f_head f # f_payloads f"

definition frame_to_vec :: "items_frame \<Rightarrow> bytes" where
  "frame_to_vec f = concat (frame_parts f)"

text \<open>\<open>bytes.get(at..at + 4)\<close> read as a big-endian \<open>u32\<close>.\<close>

definition u32_at :: "bytes \<Rightarrow> nat \<Rightarrow> nat option" where
  "u32_at octets at = (if at + 4 \<le> length octets then Some (be_val (take 4 (drop at octets))) else None)"

definition announced_len :: "bytes \<Rightarrow> nat option" where
  "announced_len first = (if starts_with first items_magic then u32_at first 4 else None)"

type_synonym payload_range = "nat \<times> nat \<times> bool"

fun payload_ranges :: "payload_table \<Rightarrow> nat \<Rightarrow> nat \<Rightarrow> protocol_error + payload_range list \<times> nat" where
  "payload_ranges [] at n = Inr ([], at)"
| "payload_ranges ((len, binary) # rest) at n =
     (if len > max_content_bytes then Inl (ContentTooLarge len max_content_bytes)
      else if at + len > n then Inl envelope_invalid
      else res_bind (payload_ranges rest (at + len) n) (\<lambda>(rs, stop).
             Inr ((at, at + len, binary) # rs, stop)))"

definition layout :: "wire \<Rightarrow> bytes \<Rightarrow> protocol_error + sync_item list \<times> payload_range list" where
  "layout w octets =
     res_bind (ok_or envelope_invalid (u32_at octets 4)) (\<lambda>total.
       if total \<noteq> length octets then Inl envelope_invalid
       else res_bind (ok_or envelope_invalid (u32_at octets 8)) (\<lambda>header_len.
         let header_end = prefix_bytes + header_len in
         if header_end > length octets then Inl envelope_invalid
         else res_bind (ok_or envelope_invalid
                (w_header_in w (take header_len (drop prefix_bytes octets)))) (\<lambda>(items, payloads).
           if length payloads \<noteq> length items then Inl envelope_invalid
           else res_bind (payload_ranges payloads header_end (length octets)) (\<lambda>(ranges, stop).
             if stop \<noteq> length octets then Inl envelope_invalid else Inr (items, ranges)))))"

definition slice :: "bytes \<Rightarrow> nat \<Rightarrow> nat \<Rightarrow> bytes" where
  "slice octets start stop = take (stop - start) (drop start octets)"

definition fill :: "sync_item \<Rightarrow> bytes \<Rightarrow> bool \<Rightarrow> protocol_error + sync_item" where
  "fill i octets binary =
     (if binary then Inr (i\<lparr>i_binary_content := octets\<rparr>)
      else if utf8_valid octets then Inr (i\<lparr>i_content := octets\<rparr>)
      else Inl (Decode ''item text is not UTF-8''))"

fun fill_all :: "bytes \<Rightarrow> sync_item list \<Rightarrow> payload_range list \<Rightarrow> protocol_error + sync_item list" where
  "fill_all octets (i # is) ((start, stop, binary) # rs) =
     res_bind (fill i (slice octets start stop) binary) (\<lambda>i'.
     res_bind (fill_all octets is rs) (\<lambda>is'. Inr (i' # is')))"
| "fill_all octets is rs = Inr is"

definition items_decode :: "wire \<Rightarrow> bytes \<Rightarrow> protocol_error + sync_item list" where
  "items_decode w octets =
     res_bind (layout w octets) (\<lambda>(items, ranges). fill_all octets items ranges)"

text \<open>
  \<open>decode_owned\<close>. \<open>capacity\<close> is the capacity of the buffer, which decides whether the longest
  payload takes the buffer over. \<open>Iterator::max_by_key\<close> answers the last of the greatest.
\<close>

definition range_len :: "payload_range \<Rightarrow> nat" where
  "range_len r = (case r of (start, stop, _) \<Rightarrow> stop - start)"

fun last_longest :: "payload_range list \<Rightarrow> nat \<Rightarrow> (nat \<times> payload_range) option \<Rightarrow> (nat \<times> payload_range) option" where
  "last_longest [] k best = best"
| "last_longest (r # rs) k best =
     last_longest rs (Suc k)
       (case best of None \<Rightarrow> Some (k, r)
        | Some (j, b) \<Rightarrow> if range_len b \<le> range_len r then Some (k, r) else best)"

definition reused_index :: "nat \<Rightarrow> payload_range list \<Rightarrow> nat option" where
  "reused_index capacity ranges =
     (case last_longest ranges 0 None of
        None \<Rightarrow> None
      | Some (k, r) \<Rightarrow> if range_len r \<ge> capacity div 2 then Some k else None)"

text \<open>The first loop: every payload but the reused one is copied out.\<close>

fun fill_copied ::
  "bytes \<Rightarrow> nat option \<Rightarrow> nat \<Rightarrow> payload_range list \<Rightarrow> sync_item list \<Rightarrow> protocol_error + sync_item list" where
  "fill_copied octets reused k [] items = Inr items"
| "fill_copied octets reused k ((start, stop, binary) # rs) items =
     (if Some k \<noteq> reused
      then res_bind (fill (items ! k) (slice octets start stop) binary) (\<lambda>i.
             fill_copied octets reused (Suc k) rs (items[k := i]))
      else fill_copied octets reused (Suc k) rs items)"

definition items_decode_owned :: "wire \<Rightarrow> nat \<Rightarrow> bytes \<Rightarrow> protocol_error + sync_item list" where
  "items_decode_owned w capacity raw =
     res_bind (layout w raw) (\<lambda>(items, ranges).
       let reused = reused_index capacity ranges in
       res_bind (fill_copied raw reused 0 ranges items) (\<lambda>items.
         case reused of
           None \<Rightarrow> Inr items
         | Some k \<Rightarrow>
             (case ranges ! k of (start, stop, binary) \<Rightarrow>
                let octets = drop start (take stop raw) in
                res_bind (fill (items ! k) octets binary) (\<lambda>i. Inr (items[k := i])))))"

section \<open>Encoding and decoding a message\<close>

definition file_chunk_magic :: bytes where "file_chunk_magic = ''CPF1''"
definition file_chunk_header_bytes :: nat where "file_chunk_header_bytes = 16"

definition json_encode :: "wire \<Rightarrow> sync_message \<Rightarrow> protocol_error + bytes" where
  "json_encode w m =
     res_bind (json_len (w_to_json w m)) (\<lambda>len.
       if len > max_message_bytes then Inl (MessageTooLarge len max_message_bytes)
       else case w_to_json w m of Inl e \<Rightarrow> Inl (Encode e) | Inr octets \<Rightarrow> Inr octets)"

definition encode :: "wire \<Rightarrow> sync_message \<Rightarrow> protocol_error + bytes" where
  "encode w m =
     res_bind (validate w m) (\<lambda>_.
       case m of
         FileChunk idx octets \<Rightarrow>
           Inr (file_chunk_magic @ be_bytes 8 (unat idx) @ be_bytes 4 (length octets) @ octets)
       | Items items \<Rightarrow> res_bind (items_frame_new w items) (\<lambda>f. Inr (frame_to_vec f))
       | _ \<Rightarrow> json_encode w m)"

definition items_frame_of :: "wire \<Rightarrow> sync_message \<Rightarrow> (protocol_error + items_frame) option" where
  "items_frame_of w m =
     (case m of
        Items items \<Rightarrow> Some (res_bind (validate w m) (\<lambda>_. items_frame_new w items))
      | _ \<Rightarrow> None)"

definition clamp_summary :: "item_summary \<Rightarrow> item_summary" where
  "clamp_summary s =
     s\<lparr>s_created_at := max (s_created_at s) 0, s_pin_updated_at := max (s_pin_updated_at s) 0\<rparr>"

definition clamp_item :: "sync_item \<Rightarrow> sync_item" where
  "clamp_item i =
     i\<lparr>i_created_at := max (i_created_at i) 0, i_pin_updated_at := max (i_pin_updated_at i) 0\<rparr>"

fun clamp_timestamps :: "sync_message \<Rightarrow> sync_message" where
  "clamp_timestamps (Summary items has_more) = Summary (map clamp_summary items) has_more"
| "clamp_timestamps (Items items) = Items (map clamp_item items)"
| "clamp_timestamps (Hello v d n p l since_ms) = Hello v d n p l (max since_ms 0)"
| "clamp_timestamps m = m"

definition checked :: "wire \<Rightarrow> sync_message \<Rightarrow> protocol_error + sync_message" where
  "checked w m =
     (let m = clamp_timestamps m in res_bind (validate w m) (\<lambda>_. Inr m))"

definition decode_file_chunk :: "wire \<Rightarrow> bytes \<Rightarrow> protocol_error + sync_message" where
  "decode_file_chunk w octets =
     (if length octets < file_chunk_header_bytes then Inl (Decode ''invalid binary file chunk'')
      else let idx = word_of_nat (be_val (slice octets 4 12)) :: 64 word;
               len = be_val (slice octets 12 16)
           in if len > file_chunk_bytes \<or> length octets \<noteq> file_chunk_header_bytes + len
              then Inl (Decode ''invalid binary file chunk'')
              else let m = FileChunk idx (drop file_chunk_header_bytes octets)
                   in res_bind (validate w m) (\<lambda>_. Inr m))"

text \<open>\<open>parse_json\<close>: the fast path for summary pages, taken when the tag is the first field.\<close>

definition json_tag_prefix :: bytes where
  "json_tag_prefix = [CHR ''{'', CHR 0x22, CHR ''t'', CHR 0x22, CHR '':'', CHR 0x22]"

definition json_tag :: "bytes \<Rightarrow> bytes option" where
  "json_tag octets =
     (if starts_with octets json_tag_prefix
      then Some (takeWhile (\<lambda>b. b \<noteq> CHR 0x22) (drop (length json_tag_prefix) octets)) else None)"

definition parse_json :: "wire \<Rightarrow> bytes \<Rightarrow> string + sync_message" where
  "parse_json w octets =
     (if json_tag octets = Some ''summary''
      then res_bind (w_summary_body w octets) (\<lambda>(items, more). Inr (Summary items more))
      else w_from_json w octets)"

definition decode :: "wire \<Rightarrow> bytes \<Rightarrow> protocol_error + sync_message" where
  "decode w octets =
     (if length octets > max_message_bytes then Inl (MessageTooLarge (length octets) max_message_bytes)
      else if starts_with octets file_chunk_magic then decode_file_chunk w octets
      else if starts_with octets items_magic
      then res_bind (items_decode w octets) (\<lambda>items. checked w (Items items))
      else case parse_json w octets of
             Inr m \<Rightarrow> checked w m
           | Inl e \<Rightarrow>
               (case w_header_version w octets of
                  Some v \<Rightarrow> res_bind (check_protocol_version v) (\<lambda>_. Inl (Decode e))
                | None \<Rightarrow> Inl (Decode e)))"

definition decode_owned :: "wire \<Rightarrow> nat \<Rightarrow> bytes \<Rightarrow> protocol_error + sync_message" where
  "decode_owned w capacity raw =
     (if length raw \<le> max_message_bytes \<and> starts_with raw items_magic
      then res_bind (items_decode_owned w capacity raw) (\<lambda>items. checked w (Items items))
      else decode w raw)"

end
