(* ===== verification/Codec_Props.thy ===== *)
theory Codec_Props
  imports Codec
begin

text \<open>
  What the codec guarantees: nothing leaves the decoder that the validator would refuse, an
  encoded message decodes to itself, the two decoders of the items envelope agree for every
  buffer, and a file chunk has exactly one encoding.
\<close>

section \<open>Validated messages\<close>

lemma validate_items_ok:
  "validate_items mo xs acc = Inr t \<Longrightarrow> i \<in> set xs \<Longrightarrow> item_ok mo i"
  by (induction xs arbitrary: acc) (auto simp: res_bind_Inr_iff validate_item_ok_iff)

lemma validate_items_sum:
  assumes "validate_items mo xs acc = Inr t" and "acc \<le> usize_max"
  shows "t = min usize_max (acc + (\<Sum>i\<leftarrow>xs. content_len i + metadata_len i))"
  using assms
proof (induction xs arbitrary: acc)
  case Nil
  then show ?case by simp
next
  case (Cons i xs)
  then have "t = min usize_max (usize_saturating_add (usize_saturating_add acc (content_len i)) (metadata_len i)
      + (\<Sum>i\<leftarrow>xs. content_len i + metadata_len i))"
    by (auto simp: res_bind_Inr_iff usize_saturating_add_def)
  then show ?case by (simp add: usize_saturating_add_def)
qed

lemma validate_items_all_ok:
  "(\<And>i. i \<in> set xs \<Longrightarrow> item_ok mo i) \<Longrightarrow> \<exists>t. validate_items mo xs acc = Inr t"
proof (induction xs arbitrary: acc)
  case Nil
  then show ?case by simp
next
  case (Cons i xs)
  then have "validate_item mo i = Inr ()" by (simp add: validate_item_ok_iff)
  with Cons show ?case by simp
qed

lemma items_valid_iff:
  "validate w (Items xs) = Inr u \<longleftrightarrow>
     length xs \<le> max_items_per_message \<and> (\<forall>i \<in> set xs. item_ok (w_metadata_ok w) i)
     \<and> (\<Sum>i\<leftarrow>xs. content_len i + metadata_len i) \<le> max_item_bytes_per_message"
proof -
  have "max_item_bytes_per_message < usize_max" by (simp add: limit_defs usize_max_def)
  moreover have "t = min usize_max (\<Sum>i\<leftarrow>xs. content_len i + metadata_len i)"
    if "validate_items (w_metadata_ok w) xs 0 = Inr t" for t
    using validate_items_sum[OF that] by (simp add: usize_max_def)
  moreover have "(\<forall>i \<in> set xs. item_ok (w_metadata_ok w) i) \<longleftrightarrow>
      (\<exists>t. validate_items (w_metadata_ok w) xs 0 = Inr t)"
    using validate_items_ok validate_items_all_ok by metis
  moreover have "validate w (Items xs) = Inr u \<longleftrightarrow> length xs \<le> max_items_per_message
      \<and> (\<exists>t. validate_items (w_metadata_ok w) xs 0 = Inr t \<and> t \<le> max_item_bytes_per_message)"
    by (cases "validate_items (w_metadata_ok w) xs 0") (simp_all add: check_count_def)
  moreover have "(\<exists>t. validate_items (w_metadata_ok w) xs 0 = Inr t \<and> t \<le> max_item_bytes_per_message) \<longleftrightarrow>
      (\<exists>t. validate_items (w_metadata_ok w) xs 0 = Inr t)
      \<and> (\<Sum>i\<leftarrow>xs. content_len i + metadata_len i) \<le> max_item_bytes_per_message"
    using calculation(1,2)
    by (cases "validate_items (w_metadata_ok w) xs 0") (auto simp: min_def split: if_splits)
  ultimately show ?thesis by simp
qed

lemma validate_summary_ok_iff:
  "validate_summary s = Inr u \<longleftrightarrow>
     s_item_id s \<noteq> [] \<and> length (s_item_id s) \<le> max_id_bytes
     \<and> s_origin_device_id s \<noteq> [] \<and> length (s_origin_device_id s) \<le> max_id_bytes
     \<and> length (s_content_hash s) \<le> max_hash_bytes
     \<and> 0 \<le> s_created_at s \<and> 0 \<le> s_pin_updated_at s
     \<and> (case s_pin_order s of None \<Rightarrow> \<not> s_pinned s | Some v \<Rightarrow> s_pinned s \<and> f64_is_finite v)"
  by (auto simp: validate_summary_def first_err_ok_iff check_ok_iff)

text \<open>Every stamp a message carries.\<close>

fun stamps :: "sync_message \<Rightarrow> int list" where
  "stamps (Summary items has_more) = concat (map (\<lambda>s. [s_created_at s, s_pin_updated_at s]) items)"
| "stamps (Items items) = concat (map (\<lambda>i. [i_created_at i, i_pin_updated_at i]) items)"
| "stamps (Hello v d n p l since_ms) = [since_ms]"
| "stamps m = []"

lemma validate_stamps:
  assumes "validate w m = Inr ()" and "t \<in> set (stamps m)"
  shows "0 \<le> t"
proof (cases m)
  case (Items xs)
  with assms have "\<forall>i \<in> set xs. item_ok (w_metadata_ok w) i" using items_valid_iff[of w xs "()"] by simp
  with Items assms(2) show ?thesis by (auto simp: item_ok_def)
next
  case (Summary ss b)
  with assms show ?thesis by (auto simp: first_err_ok_iff validate_summary_ok_iff)
qed (use assms in \<open>auto simp: first_err_ok_iff split: if_splits\<close>)

lemma clamp_id: "(\<And>t. t \<in> set (stamps m) \<Longrightarrow> 0 \<le> t) \<Longrightarrow> clamp_timestamps m = m"
proof (induction m rule: clamp_timestamps.induct)
  case (1 items has_more)
  then have "0 \<le> s_created_at s \<and> 0 \<le> s_pin_updated_at s" if "s \<in> set items" for s
    using that by fastforce
  then show ?case by (auto simp: clamp_summary_def intro!: map_idI)
next
  case (2 items)
  then have "0 \<le> i_created_at i \<and> 0 \<le> i_pin_updated_at i" if "i \<in> set items" for i
    using that by fastforce
  then show ?case by (auto simp: clamp_item_def intro!: map_idI)
qed auto

lemma checked_valid: "checked w m = Inr m' \<Longrightarrow> validate w m' = Inr () \<and> m' = clamp_timestamps m"
  by (auto simp: checked_def Let_def res_bind_Inr_iff)

lemma checked_id: "validate w m = Inr () \<Longrightarrow> checked w m = Inr m"
  by (simp add: checked_def Let_def clamp_id[OF validate_stamps])

lemma decode_validates:
  "decode w octets = Inr m \<Longrightarrow> validate w m = Inr () \<and> length octets \<le> max_message_bytes"
  by (auto simp: decode_def decode_file_chunk_def Let_def res_bind_Inr_iff
      split: if_splits sum.splits option.splits dest: checked_valid)

section \<open>The two decoders of the envelope\<close>

definition text_ok :: "bytes \<Rightarrow> payload_range \<Rightarrow> bool" where
  "text_ok octets r = (case r of (start, stop, binary) \<Rightarrow> binary \<or> utf8_valid (slice octets start stop))"

definition filled :: "bytes \<Rightarrow> sync_item \<Rightarrow> payload_range \<Rightarrow> sync_item" where
  "filled octets i r =
     (case r of (start, stop, binary) \<Rightarrow>
        if binary then i\<lparr>i_binary_content := slice octets start stop\<rparr>
        else i\<lparr>i_content := slice octets start stop\<rparr>)"

lemma fill_eq:
  "fill i (slice octets start stop) binary =
     (if text_ok octets (start, stop, binary) then Inr (filled octets i (start, stop, binary))
      else Inl (Decode ''item text is not UTF-8''))"
  by (simp add: fill_def text_ok_def filled_def)

lemma fill_all_eq:
  "length xs = length rs \<Longrightarrow> fill_all octets xs rs =
     (if list_all (text_ok octets) rs then Inr (map2 (filled octets) xs rs)
      else Inl (Decode ''item text is not UTF-8''))"
proof (induction octets xs rs rule: fill_all.induct)
  case (1 octets i xs start stop binary rs)
  then show ?case by (auto simp: fill_eq)
qed auto

lemma fill_copied_eq:
  "length xs = length rs \<Longrightarrow> fill_copied octets reused (length pre) rs (pre @ xs) =
     (if \<forall>j < length rs. Some (length pre + j) \<noteq> reused \<longrightarrow> text_ok octets (rs ! j)
      then Inr (pre @ map (\<lambda>j. if Some (length pre + j) \<noteq> reused then filled octets (xs ! j) (rs ! j) else xs ! j)
                  [0..<length rs])
      else Inl (Decode ''item text is not UTF-8''))"
proof (induction rs arbitrary: pre xs)
  case Nil
  then show ?case by simp
next
  case (Cons r rs)
  obtain start stop binary where r: "r = (start, stop, binary)" by (cases r)
  from Cons.prems obtain i xs' where i: "xs = i # xs'" "length xs' = length rs" by (cases xs) auto
  have upt: "[0..<Suc (length rs)] = 0 # map Suc [0..<length rs]"
    by (simp add: map_Suc_upt upt_conv_Cons del: upt_Suc)
  show ?case
  proof (cases "Some (length pre) = reused")
    case True
    with Cons.IH[of xs' "pre @ [i]"] i show ?thesis
      by (auto simp: r All_less_Suc2 Ex_less_Suc2 upt comp_def simp del: upt_Suc)
  next
    case False
    with Cons.IH[of xs' "pre @ [filled octets i r]"] i show ?thesis
      by (auto simp: r All_less_Suc2 Ex_less_Suc2 upt comp_def fill_eq simp del: upt_Suc)
  qed
qed

lemma last_longest_index:
  "last_longest rs k best = Some (j, r) \<Longrightarrow> best = Some (j, r) \<or> k \<le> j \<and> j < k + length rs \<and> rs ! (j - k) = r"
proof (induction rs k best rule: last_longest.induct)
  case (2 r0 rs k best)
  define best' where "best' = (case best of None \<Rightarrow> Some (k, r0)
        | Some (j, b) \<Rightarrow> if range_len b \<le> range_len r0 then Some (k, r0) else best)"
  with 2 have "best' = Some (j, r) \<or> Suc k \<le> j \<and> j < Suc k + length rs \<and> rs ! (j - Suc k) = r"
    by simp
  moreover have "best' = Some (k, r0) \<or> best' = best"
    by (auto simp: best'_def split: option.splits)
  moreover have "(r0 # rs) ! (j - k) = rs ! (j - Suc k)" if "Suc k \<le> j"
    using that by (simp add: nth_Cons')
  ultimately show ?case by auto
qed simp

lemma reused_index_less: "reused_index cap rs = Some k \<Longrightarrow> k < length rs"
  by (auto simp: reused_index_def split: option.splits if_splits dest!: last_longest_index)

lemma layout_lengths: "layout w octets = Inr (xs, rs) \<Longrightarrow> length xs = length rs"
proof -
  have "payload_ranges t at n = Inr (rs, stop) \<Longrightarrow> length rs = length t" for t at n rs stop
    by (induction t at n arbitrary: rs rule: payload_ranges.induct) (auto simp: res_bind_Inr_iff split: if_splits)
  then show "layout w octets = Inr (xs, rs) \<Longrightarrow> length xs = length rs"
    by (auto simp: layout_def res_bind_Inr_iff Let_def split: if_splits)
qed

lemma items_decode_owned_eq: "items_decode_owned w cap raw = items_decode w raw"
proof (cases "layout w raw")
  case (Inr l)
  obtain xs rs where l: "l = (xs, rs)" by (cases l)
  then have len: "length xs = length rs" using layout_lengths Inr by blast
  let ?re = "reused_index cap rs"
  note copied = fill_copied_eq[OF len, of raw _ "[]", simplified]
  have all: "map2 (filled raw) xs rs = map (\<lambda>j. filled raw (xs ! j) (rs ! j)) [0..<length rs]"
    by (rule nth_equalityI) (simp_all add: len)
  show ?thesis
  proof (cases ?re)
    case None
    then show ?thesis
      by (simp add: items_decode_owned_def items_decode_def Inr l copied fill_all_eq[OF len] all
          list_all_length)
  next
    case (Some k)
    then have k: "k < length rs" by (rule reused_index_less)
    obtain start stop binary where r: "rs ! k = (start, stop, binary)" by (cases "rs ! k")
    have slice: "drop start (take stop raw) = slice raw start stop" by (simp add: slice_def drop_take)
    have split: "list_all (text_ok raw) rs \<longleftrightarrow>
        (\<forall>j < length rs. j \<noteq> k \<longrightarrow> text_ok raw (rs ! j)) \<and> text_ok raw (rs ! k)"
      using k by (auto simp: list_all_length)
    have upd: "(map (\<lambda>j. if j \<noteq> k then filled raw (xs ! j) (rs ! j) else xs ! j) [0..<length rs])
        [k := filled raw (xs ! k) (rs ! k)] = map (\<lambda>j. filled raw (xs ! j) (rs ! j)) [0..<length rs]"
      using k by (intro nth_equalityI) (auto simp: nth_list_update)
    show ?thesis
      using k upd split
      by (auto simp: items_decode_owned_def items_decode_def Inr l Some copied fill_all_eq[OF len] all
          r slice fill_eq Let_def)
  qed
qed (simp add: items_decode_owned_def items_decode_def)

section \<open>The envelope round trip\<close>

text \<open>\<open>#[serde(skip)]\<close>: an item as the header of the envelope carries it.\<close>

definition without_payload :: "sync_item \<Rightarrow> sync_item" where
  "without_payload i = i\<lparr>i_content := [], i_binary_content := []\<rparr>"

definition table_of :: "sync_item list \<Rightarrow> payload_table" where
  "table_of items = map (\<lambda>i. (length (fst (payload i)), snd (payload i))) items"

definition body_of :: "sync_item list \<Rightarrow> bytes" where
  "body_of items = concat (map (\<lambda>i. fst (payload i)) items)"

lemma payload_length: "item_ok mo i \<Longrightarrow> length (fst (payload i)) \<le> max_content_bytes"
  using item_ok_content_len[of mo i] by (auto simp: payload_def)

lemma frame_table_eq:
  assumes "\<forall>i \<in> set items. item_ok mo i" and "body + length (body_of items) \<le> usize_max"
  shows "frame_table items table payloads body =
     Inr (table @ table_of items, payloads @ map (\<lambda>i. fst (payload i)) items, body + length (body_of items))"
  using assms
proof (induction items arbitrary: table payloads body)
  case Nil
  then show ?case by (simp add: table_of_def body_of_def)
next
  case (Cons i items)
  from Cons.prems(1) have "length (fst (payload i)) \<le> u32_max"
    using payload_length[of mo i] by (simp add: u32_max_def max_content_bytes_def)
  with Cons show ?case
    by (cases "payload i") (simp add: table_of_def body_of_def)
qed

lemma fill_payload:
  assumes "item_ok mo i" and "utf8_valid (i_content i)"
  shows "fill (without_payload i) (fst (payload i)) (snd (payload i)) = Inr i"
  using assms by (auto simp: fill_def without_payload_def payload_def item_ok_def)

lemma unpack_payloads:
  assumes "\<forall>i \<in> set items. item_ok mo i \<and> utf8_valid (i_content i)"
  shows "\<exists>ranges. payload_ranges (table_of items) (length pre) (length pre + length (body_of items))
           = Inr (ranges, length pre + length (body_of items))
      \<and> fill_all (pre @ body_of items) (map without_payload items) ranges = Inr items
      \<and> length ranges = length items"
  using assms
proof (induction items arbitrary: pre)
  case Nil
  then show ?case by (simp add: table_of_def body_of_def)
next
  case (Cons i items)
  let ?p = "fst (payload i)"
  from Cons.IH[of "pre @ ?p"] Cons.prems obtain ranges where
    rs: "payload_ranges (table_of items) (length pre + length ?p) (length pre + length ?p + length (body_of items))
           = Inr (ranges, length pre + length ?p + length (body_of items))"
    "fill_all (pre @ ?p @ body_of items) (map without_payload items) ranges = Inr items"
    "length ranges = length items" by (auto simp: add.assoc)
  have len: "length ?p \<le> max_content_bytes" using Cons.prems payload_length[of mo i] by simp
  have cut: "slice (pre @ ?p @ body_of items) (length pre) (length pre + length ?p) = ?p"
    by (simp add: slice_def)
  have one: "fill (without_payload i) ?p (snd (payload i)) = Inr i"
    using Cons.prems fill_payload[of mo i] by simp
  show ?case
    by (rule exI[of _ "(length pre, length pre + length ?p, snd (payload i)) # ranges"])
       (use rs len cut one in \<open>simp add: table_of_def body_of_def add.assoc\<close>)
qed

lemma items_envelope_roundtrip:
  assumes ok: "\<forall>i \<in> set items. item_ok mo i \<and> utf8_valid (i_content i)"
    and header: "\<And>h. w_header_out w items (table_of items) = Inr h \<Longrightarrow>
        w_header_in w h = Some (map without_payload items, table_of items)"
    and frame: "items_frame_new w items = Inr f"
    and small: "length (body_of items) \<le> usize_max"
  shows "items_decode w (frame_to_vec f) = Inr items"
    and "starts_with (frame_to_vec f) items_magic" and "length (frame_to_vec f) \<le> max_message_bytes"
proof -
  from ok have "\<forall>i \<in> set items. item_ok mo i" by blast
  from frame_table_eq[OF this, of 0 "[]" "[]"] small
  have table: "frame_table items [] [] 0 = Inr (table_of items, map (\<lambda>i. fst (payload i)) items, length (body_of items))"
    by simp
  from frame obtain h where h: "w_header_out w items (table_of items) = Inr h"
    by (auto simp: items_frame_new_def table res_bind_Inr_iff json_len_def Let_def split: sum.splits if_splits)
  let ?n = "12 + length h + length (body_of items)"
  have fit: "?n \<le> max_message_bytes" and f: "f = \<lparr>f_head = items_magic @ be_bytes 4 ?n @ be_bytes 4 (length h) @ h,
      f_payloads = map (\<lambda>i. fst (payload i)) items, f_total = ?n\<rparr>"
    using frame
    by (auto simp: items_frame_new_def table h res_bind_Inr_iff json_len_def Let_def prefix_bytes_def
        usize_saturating_add_def usize_max_def max_message_bytes_def split: if_splits)
  have vec: "frame_to_vec f = (items_magic @ be_bytes 4 ?n @ be_bytes 4 (length h) @ h) @ body_of items"
    by (simp add: frame_to_vec_def frame_parts_def f body_of_def)
  have small4: "?n < 256 ^ 4" "length h < 256 ^ 4" using fit by (simp_all add: max_message_bytes_def)
  have len: "length (frame_to_vec f) = ?n" by (simp add: vec items_magic_def)
  have at4: "u32_at (frame_to_vec f) 4 = Some ?n"
    using be_val_be_bytes[OF small4(1)] by (simp add: u32_at_def vec items_magic_def)
  have at8: "u32_at (frame_to_vec f) 8 = Some (length h)"
    using be_val_be_bytes[OF small4(2)] by (simp add: u32_at_def vec items_magic_def)
  have head: "take (length h) (drop 12 (frame_to_vec f)) = h"
    by (simp add: vec items_magic_def)
  obtain ranges where rs: "payload_ranges (table_of items) (12 + length h) ?n = Inr (ranges, ?n)"
    "fill_all (frame_to_vec f) (map without_payload items) ranges = Inr items"
    using unpack_payloads[OF ok, of "items_magic @ be_bytes 4 ?n @ be_bytes 4 (length h) @ h"]
    by (auto simp: vec items_magic_def add.assoc)
  have "layout w (frame_to_vec f) = Inr (map without_payload items, ranges)"
    using header[OF h] rs(1) by (simp add: layout_def at4 at8 len head prefix_bytes_def table_of_def)
  then show "items_decode w (frame_to_vec f) = Inr items" by (simp add: items_decode_def rs(2))
  show "starts_with (frame_to_vec f) items_magic" by (simp add: vec)
  show "length (frame_to_vec f) \<le> max_message_bytes" using fit by (simp add: len)
qed

section \<open>File chunks\<close>

lemma unat_word_be_val:
  assumes "length bs = 8"
  shows "unat (word_of_nat (be_val bs) :: 64 word) = be_val bs"
proof -
  have "be_val bs < 2 ^ 64" using be_val_less[of bs] by (simp add: assms)
  then show ?thesis by (simp add: unat_of_nat take_bit_nat_eq_self)
qed

lemma file_chunk_decodes:
  assumes "length octets \<le> file_chunk_bytes"
  shows "decode w (file_chunk_magic @ be_bytes 8 (unat idx) @ be_bytes 4 (length octets) @ octets)
     = Inr (FileChunk idx octets)"
proof -
  have "unat idx < 256 ^ 8" using unsigned_less[of idx, where ?'a = nat] by simp
  then have "be_val (be_bytes 8 (unat idx)) = unat idx" by (rule be_val_be_bytes)
  moreover have "be_val (be_bytes 4 (length octets)) = length octets"
    using assms by (intro be_val_be_bytes) (simp add: file_chunk_bytes_def)
  moreover have "starts_with (file_chunk_magic @ r) file_chunk_magic" for r by simp
  ultimately show ?thesis using assms
    by (simp add: decode_def decode_file_chunk_def slice_def Let_def file_chunk_header_bytes_def
        max_message_bytes_def file_chunk_bytes_def file_chunk_magic_def)
qed

lemma file_chunk_canonical:
  assumes "decode_file_chunk w octets = Inr m" and "starts_with octets file_chunk_magic"
  shows "encode w m = Inr octets"
proof -
  have len: "16 \<le> length octets" "length octets = 16 + be_val (slice octets 12 16)"
    "be_val (slice octets 12 16) \<le> file_chunk_bytes"
    and m: "m = FileChunk (word_of_nat (be_val (slice octets 4 12))) (drop 16 octets)"
    using assms(1) by (auto simp: decode_file_chunk_def file_chunk_header_bytes_def Let_def
        res_bind_Inr_iff split: if_splits)
  have "length (slice octets 4 12) = 8" "length (slice octets 12 16) = 4"
    using len(1) by (simp_all add: slice_def)
  then have "be_bytes 8 (unat (word_of_nat (be_val (slice octets 4 12)) :: 64 word)) = slice octets 4 12"
    and "be_bytes 4 (be_val (slice octets 12 16)) = slice octets 12 16"
    using unat_word_be_val be_bytes_be_val by metis+
  moreover have "octets = take 4 octets @ slice octets 4 12 @ slice octets 12 16 @ drop 16 octets"
    using append_take_drop_id[of 4 octets] append_take_drop_id[of 8 "drop 4 octets"]
      append_take_drop_id[of 4 "drop 12 octets"]
    by (simp add: slice_def)
  moreover have "take 4 octets = file_chunk_magic"
    using assms(2) by (simp add: starts_with_iff file_chunk_magic_def eval_nat_numeral)
  ultimately show ?thesis using len(2,3) by (simp add: encode_def m)
qed

section \<open>JSON messages\<close>

text \<open>
  What the codec relies on from \<open>serde_json\<close> for one message: the tag is written first, and a
  reader returns what the writer wrote; and for one batch: the header returns the items with
  their skipped fields empty.
\<close>

definition json_laws :: "wire \<Rightarrow> sync_message \<Rightarrow> bool" where
  "json_laws w m \<longleftrightarrow> (\<forall>b. w_to_json w m = Inr b \<longrightarrow>
     starts_with b (json_tag_prefix @ kind m @ [CHR 0x22])
     \<and> w_from_json w b = Inr m
     \<and> (\<forall>items has_more. m = Summary items has_more \<longrightarrow> w_summary_body w b = Inr (items, has_more)))"

definition header_laws :: "wire \<Rightarrow> sync_message \<Rightarrow> bool" where
  "header_laws w m \<longleftrightarrow> (\<forall>items h. m = Items items \<longrightarrow>
     w_header_out w items (table_of items) = Inr h \<longrightarrow>
     w_header_in w h = Some (map without_payload items, table_of items))"

lemma starts_with_appendD: "starts_with b ps \<Longrightarrow> \<exists>r. b = ps @ r"
  by (metis append_take_drop_id starts_with_iff)

lemma kind_no_quote: "takeWhile (\<lambda>b. b \<noteq> CHR 0x22) (kind m @ CHR 0x22 # r) = kind m"
  by (cases m) simp_all

lemma json_message_decodes:
  assumes laws: "json_laws w m" and valid: "validate w m = Inr ()"
    and enc: "json_encode w m = Inr b"
  shows "decode w b = Inr m"
proof -
  from enc have b: "w_to_json w m = Inr b" "length b \<le> max_message_bytes"
    by (auto simp: json_encode_def json_len_def res_bind_Inr_iff split: sum.splits if_splits)
  with laws obtain r where r: "b = json_tag_prefix @ kind m @ [CHR 0x22] @ r"
    using starts_with_appendD[of b "json_tag_prefix @ kind m @ [CHR 0x22]"] by (auto simp: json_laws_def)
  have tag: "json_tag b = Some (kind m)"
    by (simp add: json_tag_def r kind_no_quote)
  have "parse_json w b = Inr m"
  proof (cases "kind m = ''summary''")
    case True
    then obtain items has_more where "m = Summary items has_more" by (cases m) auto
    with laws b(1) tag True show ?thesis by (simp add: json_laws_def parse_json_def)
  next
    case False
    with laws b(1) tag show ?thesis by (simp add: json_laws_def parse_json_def)
  qed
  moreover have "\<not> starts_with b file_chunk_magic" "\<not> starts_with b items_magic"
    by (simp_all add: r json_tag_prefix_def file_chunk_magic_def items_magic_def)
  ultimately show ?thesis using b(2) checked_id[OF valid] by (simp add: decode_def)
qed

lemma items_body_small:
  assumes "validate w (Items items) = Inr ()"
  shows "length (body_of items) \<le> usize_max"
proof -
  have ok: "\<forall>i \<in> set items. item_ok (w_metadata_ok w) i"
    and budget: "(\<Sum>i\<leftarrow>items. content_len i + metadata_len i) \<le> max_item_bytes_per_message"
    using assms items_valid_iff by blast+
  have "length (fst (payload i)) \<le> content_len i" if "i \<in> set items" for i
    using ok that item_ok_content_len[of "w_metadata_ok w" i]
    by (auto simp: payload_def content_len_def usize_saturating_add_def usize_max_def max_content_bytes_def)
  then have "(\<Sum>i\<leftarrow>items. length (fst (payload i))) \<le> (\<Sum>i\<leftarrow>items. content_len i + metadata_len i)"
    by (intro sum_list_mono) (simp add: trans_le_add1)
  with budget show ?thesis
    by (simp add: body_of_def length_concat comp_def limit_defs usize_max_def)
qed

lemma decode_owned_eq: "decode_owned w capacity b = decode w b"
  by (auto simp: decode_owned_def decode_def items_decode_owned_eq starts_with_iff
      file_chunk_magic_def items_magic_def)

text \<open>What the encoder wrote, either decoder reads.\<close>

lemma encoded_decodes:
  assumes "encode w m = Inr b" and "json_laws w m" and "header_laws w m"
    and "\<And>items i. m = Items items \<Longrightarrow> i \<in> set items \<Longrightarrow> utf8_valid (i_content i)"
  shows "decode w b = Inr m \<and> decode_owned w capacity b = Inr m \<and> length b \<le> max_message_bytes"
proof -
  from assms(1) have valid: "validate w m = Inr ()" by (auto simp: encode_def res_bind_Inr_iff)
  have dec: "decode w b = Inr m"
  proof (cases "\<exists>items. m = Items items")
    case True
    then obtain items where m: "m = Items items" by blast
    with assms(1) obtain f where f: "items_frame_new w items = Inr f" "b = frame_to_vec f"
      by (auto simp: encode_def res_bind_Inr_iff)
    have ok: "\<forall>i \<in> set items. item_ok (w_metadata_ok w) i \<and> utf8_valid (i_content i)"
      using valid assms(4) items_valid_iff m by blast
    have reads: "w_header_in w h = Some (map without_payload items, table_of items)"
      if "w_header_out w items (table_of items) = Inr h" for h
      using assms(3) that by (simp add: header_laws_def m)
    note trip = items_envelope_roundtrip[OF ok reads f(1) items_body_small[OF valid[unfolded m]]]
    then have "\<not> starts_with b file_chunk_magic"
      by (auto simp: f(2) items_magic_def file_chunk_magic_def starts_with_iff)
    with trip show ?thesis using checked_id[OF valid] by (simp add: decode_def f(2) m)
  next
    case False
    show ?thesis
    proof (cases "\<exists>idx octets. m = FileChunk idx octets")
      case True
      with assms(1) show ?thesis
        by (auto simp: encode_def res_bind_Inr_iff intro!: file_chunk_decodes split: if_splits)
    next
      case no_chunk: False
      with False assms(1) have "json_encode w m = Inr b"
        by (cases m) (auto simp: encode_def res_bind_Inr_iff)
      then show ?thesis by (rule json_message_decodes[OF assms(2) valid])
    qed
  qed
  then show ?thesis using decode_validates by (metis decode_owned_eq)
qed

section \<open>A concrete wire\<close>

definition demo_item :: sync_item where
  "demo_item = \<lparr>i_item_id = ''i'', i_content = ''hi'', i_binary_content = [], i_payload_metadata = None,
     i_source_app_bundle_id = None, i_source_app_name = None, i_content_type = ''text'',
     i_created_at = 5, i_deleted = False, i_content_hash = ''h'', i_origin_device_id = ''d'',
     i_pinned = False, i_pin_order = None, i_pin_updated_at = 0\<rparr>"

text \<open>A JSON layer that knows one message, the batch of that item.\<close>

definition demo_wire :: "crypto \<Rightarrow> wire" where
  "demo_wire c =
     \<lparr>w_crypto = c, w_metadata_ok = (\<lambda>m ct. True),
      w_to_json = (\<lambda>m. Inr (json_tag_prefix @ kind m @ [CHR 0x22, CHR 0x7D])),
      w_from_json = (\<lambda>b. Inr (Items [demo_item])),
      w_summary_body = (\<lambda>b. Inl ''no summary''),
      w_header_version = (\<lambda>b. None),
      w_header_out = (\<lambda>items table. Inr ''{}''),
      w_header_in = (\<lambda>b. Some ([without_payload demo_item], [(2, False)]))\<rparr>"

lemma demo_item_ok: "item_ok mo demo_item"
  by (simp add: item_ok_def demo_item_def limit_defs content_type_file_def content_len_def
      usize_saturating_add_def)

lemma demo_table: "table_of [demo_item] = [(2, False)]"
  by (simp add: table_of_def payload_def demo_item_def)

lemma demo_wire_laws:
  "json_laws (demo_wire c) (Items [demo_item])" "header_laws (demo_wire c) (Items [demo_item])"
  by (simp_all add: json_laws_def header_laws_def demo_wire_def starts_with_iff demo_table)

lemma demo_encodes: "\<exists>b. encode (demo_wire c) (Items [demo_item]) = Inr b"
proof -
  have "validate (demo_wire c) (Items [demo_item]) = Inr ()"
    unfolding items_valid_iff
    by (simp add: demo_item_ok) (simp add: demo_item_def content_len_def metadata_len_def
        usize_saturating_add_def limit_defs)
  moreover have "frame_table [demo_item] [] [] 0 = Inr ([(2, False)], [''hi''], 2)"
    by (simp add: payload_def demo_item_def u32_max_def usize_saturating_add_def usize_max_def)
  ultimately show ?thesis
    by (simp add: encode_def items_frame_new_def json_len_def demo_wire_def Let_def
        usize_saturating_add_def usize_max_def prefix_bytes_def max_message_bytes_def)
qed

section \<open>Properties\<close>

text \<open>
  C21: the decoder fails closed. Whatever octets arrive and whatever the JSON reader answers, a
  message that decoding returns passes every bound the encoder enforces, came from a frame
  within the frame limit, and carries no negative stamp.
\<close>

theorem decode_fails_closed:
  assumes "decode w octets = Inr m"
  shows "validate w m = Inr () \<and> length octets \<le> max_message_bytes \<and> (\<forall>t \<in> set (stamps m). 0 \<le> t)"
  using decode_validates[OF assms] validate_stamps by blast

theorem decode_fails_closed_witness:
  "\<exists>w :: wire. decode w (file_chunk_magic @ be_bytes 8 (unat (0 :: 64 word)) @ be_bytes 4 (length ''hi'') @ ''hi'')
       = Inr (FileChunk 0 ''hi'')
     \<and> validate w (FileChunk 0 ''hi'') = Inr ()"
proof -
  have "decode w (file_chunk_magic @ be_bytes 8 (unat (0 :: 64 word)) @ be_bytes 4 (length ''hi'') @ ''hi'')
       = Inr (FileChunk 0 ''hi'')" for w
    by (rule file_chunk_decodes) (simp add: file_chunk_bytes_def)
  with decode_fails_closed[OF this] show ?thesis by blast
qed

text \<open>
  C22: an encoded message decodes to itself, by either decoder and whatever the capacity of the
  receiving buffer, given that the JSON layer returns what it wrote.
\<close>

theorem codec_roundtrip:
  assumes "encode w m = Inr b" and "json_laws w m" and "header_laws w m"
    and "\<And>items i. m = Items items \<Longrightarrow> i \<in> set items \<Longrightarrow> utf8_valid (i_content i)"
  shows "decode w b = Inr m \<and> decode_owned w capacity b = Inr m \<and> length b \<le> max_message_bytes"
  by (rule encoded_decodes[OF assms])

theorem codec_roundtrip_witness:
  "\<exists>(w :: wire) b. encode w (Items [demo_item]) = Inr b \<and> decode w b = Inr (Items [demo_item])
     \<and> decode_owned w 0 b = Inr (Items [demo_item]) \<and> length b \<le> max_message_bytes"
proof -
  obtain c :: crypto where "True" by blast
  from demo_encodes[of c] obtain b where b: "encode (demo_wire c) (Items [demo_item]) = Inr b" by blast
  have "utf8_valid (i_content demo_item)" by (simp add: demo_item_def in_range_def)
  then have "decode (demo_wire c) b = Inr (Items [demo_item])
     \<and> decode_owned (demo_wire c) 0 b = Inr (Items [demo_item]) \<and> length b \<le> max_message_bytes"
    by (intro codec_roundtrip[OF b demo_wire_laws]) auto
  with b show ?thesis by blast
qed

text \<open>
  C23: reusing the receive buffer changes nothing. For every frame and every buffer capacity
  the decoder that lets the longest payload take the buffer over returns exactly what the
  copying decoder returns, errors included.
\<close>

theorem decode_owned_agrees:
  "decode_owned w capacity raw = decode w raw"
  by (rule decode_owned_eq)

text \<open>
  A file chunk has one encoding. Octets that start as a binary file chunk and decode are
  exactly the octets the encoder writes for the decoded message.
\<close>

theorem file_chunk_has_one_encoding:
  assumes "decode w octets = Inr m" and "starts_with octets file_chunk_magic"
  shows "encode w m = Inr octets"
  using assms by (intro file_chunk_canonical) (auto simp: decode_def split: if_splits)

theorem file_chunk_has_one_encoding_witness:
  "\<exists>w :: wire. encode w (FileChunk 7 ''hi'')
     = Inr (file_chunk_magic @ be_bytes 8 (unat (7 :: 64 word)) @ be_bytes 4 (length ''hi'') @ ''hi'')"
  by (intro exI file_chunk_has_one_encoding file_chunk_decodes) (simp_all add: file_chunk_bytes_def)

text \<open>
  A batch is accepted exactly when it has at most eight items, each item meets the wire
  contract, and the content and metadata sum to at most the byte budget; so an item that is
  valid alone always fits a message of its own.
\<close>

theorem batch_accepted_iff:
  "validate w (Items items) = Inr () \<longleftrightarrow>
     length items \<le> max_items_per_message
     \<and> list_all (\<lambda>i. validate_item (w_metadata_ok w) i = Inr ()) items
     \<and> (\<Sum>i\<leftarrow>items. content_len i + metadata_len i) \<le> max_content_bytes + max_sync_metadata_bytes"
  using items_valid_iff[of w items "()"]
  by (simp add: list_all_iff validate_item_ok_iff max_item_bytes_per_message_def)

end
