(* ===== verification/Workspace.thy ===== *)
theory Workspace
  imports Merge
begin

text \<open>
  Session-local summary storage (\<open>crates/copypaste-p2p/src/sync/workspace.rs\<close>). The trait
  \<open>SummaryWorkspace\<close> is the record \<open>workspace_ops\<close> of its methods, each a function on the state of
  the implementation; what every implementation promises is the locale \<open>summary_workspace\<close>, over
  an abstraction to the five collections of a session. The in-memory implementation is
  interpreted below, and \<open>spill_into\<close> is shown to move a session between implementations
  without loss.

  The iteration order of a \<open>HashMap\<close> and the order \<open>sort_unstable\<close> leaves equal keys in are not
  determined by the program: they are the argument \<open>order\<close>, any function that lists each value
  of the map once. Positions in the remote log are natural numbers.
\<close>

section \<open>The interface\<close>

type_synonym summaries = "(string, item_summary) fmap"

record 'w workspace_ops =
  wo_add_advertised :: "item_summary list \<Rightarrow> 'w \<Rightarrow> sync_error + 'w"
  wo_add_comparison :: "item_summary list \<Rightarrow> 'w \<Rightarrow> sync_error + 'w"
  wo_add_remote :: "item_summary list \<Rightarrow> 'w \<Rightarrow> sync_error + 'w"
  wo_remote_page :: "nat \<Rightarrow> nat \<Rightarrow> 'w \<Rightarrow> sync_error + (nat \<times> item_summary) list \<times> 'w"
  wo_advertised :: "string \<Rightarrow> 'w \<Rightarrow> sync_error + item_summary option \<times> 'w"
  wo_comparison :: "string \<Rightarrow> 'w \<Rightarrow> sync_error + item_summary option \<times> 'w"
  wo_wanted :: "string \<Rightarrow> 'w \<Rightarrow> sync_error + item_summary option \<times> 'w"
  wo_set_wanted :: "item_summary \<Rightarrow> 'w \<Rightarrow> sync_error + 'w"
  wo_remote_wins :: "item_summary \<Rightarrow> 'w \<Rightarrow> sync_error + bool \<times> 'w"
  wo_consider_wanted :: "item_summary \<Rightarrow> 'w \<Rightarrow> sync_error + bool \<times> 'w"
  wo_defer :: "string \<Rightarrow> 'w \<Rightarrow> sync_error + 'w"
  wo_is_deferred :: "string \<Rightarrow> 'w \<Rightarrow> sync_error + bool \<times> 'w"
  wo_finish_plan :: "nat \<Rightarrow> 'w \<Rightarrow> sync_error + (item_summary list \<times> nat) \<times> 'w"

text \<open>The provided methods of the trait.\<close>

definition default_remote_wins ::
  "'w workspace_ops \<Rightarrow> item_summary \<Rightarrow> 'w \<Rightarrow> sync_error + bool \<times> 'w" where
  "default_remote_wins ops item w =
     res_bind (wo_comparison ops (s_item_id item) w) (\<lambda>(found, w').
       Inr (case found of None \<Rightarrow> True | Some local \<Rightarrow> remote_version_wins local item, w'))"

definition default_consider_wanted ::
  "'w workspace_ops \<Rightarrow> item_summary \<Rightarrow> 'w \<Rightarrow> sync_error + bool \<times> 'w" where
  "default_consider_wanted ops item w =
     res_bind (wo_wanted ops (s_item_id item) w) (\<lambda>(found, w').
       if (case found of None \<Rightarrow> False
           | Some seen \<Rightarrow> merge_decision_by_summary seen item \<noteq> TakeRemote)
       then Inr (False, w')
       else res_bind (wo_set_wanted ops item w') (\<lambda>w''. Inr (True, w'')))"

section \<open>The in-memory workspace\<close>

record memory_workspace =
  mw_advertised :: summaries
  mw_comparison :: summaries
  mw_remote :: "item_summary list"
  mw_wanted :: summaries
  mw_deferred :: "string fset"

definition memory_workspace_default :: memory_workspace where
  "memory_workspace_default =
     \<lparr>mw_advertised = fmempty, mw_comparison = fmempty, mw_remote = [], mw_wanted = fmempty,
      mw_deferred = {||}\<rparr>"

fun insert_all :: "item_summary list \<Rightarrow> summaries \<Rightarrow> summaries" where
  "insert_all [] m = m"
| "insert_all (item # items) m = insert_all items (fmupd (s_item_id item) item m)"

definition mem_remote_wins :: "item_summary \<Rightarrow> memory_workspace \<Rightarrow> bool" where
  "mem_remote_wins item w =
     (case fmlookup (mw_comparison w) (s_item_id item) of
        None \<Rightarrow> True | Some local \<Rightarrow> remote_version_wins local item)"

definition mem_consider_wanted :: "item_summary \<Rightarrow> memory_workspace \<Rightarrow> bool \<times> memory_workspace" where
  "mem_consider_wanted item w =
     (if (case fmlookup (mw_wanted w) (s_item_id item) of None \<Rightarrow> False
          | Some seen \<Rightarrow> merge_decision_by_summary seen item \<noteq> TakeRemote)
      then (False, w)
      else (True, w\<lparr>mw_wanted := fmupd (s_item_id item) item (mw_wanted w)\<rparr>))"

definition mem_remote_page :: "nat \<Rightarrow> nat \<Rightarrow> memory_workspace \<Rightarrow> (nat \<times> item_summary) list" where
  "mem_remote_page after limit w =
     take limit (drop after (zip [1..<length (mw_remote w) + 1] (mw_remote w)))"

definition newest_first :: "item_summary list \<Rightarrow> item_summary list" where
  "newest_first items = sort_key (\<lambda>s. - s_created_at s) items"

definition mem_finish_plan ::
  "(summaries \<Rightarrow> item_summary list) \<Rightarrow> nat \<Rightarrow> memory_workspace
   \<Rightarrow> (item_summary list \<times> nat) \<times> memory_workspace" where
  "mem_finish_plan order limit w =
     (let ordered = newest_first (order (mw_wanted w));
          dropped = length ordered - limit
      in ((take limit ordered, dropped),
          w\<lparr>mw_deferred := mw_deferred w |\<union>| fset_of_list (map s_item_id (drop limit ordered))\<rparr>))"

definition memory_ops :: "(summaries \<Rightarrow> item_summary list) \<Rightarrow> memory_workspace workspace_ops" where
  "memory_ops order =
     \<lparr>wo_add_advertised = (\<lambda>items w. Inr (w\<lparr>mw_advertised := insert_all items (mw_advertised w)\<rparr>)),
      wo_add_comparison = (\<lambda>items w. Inr (w\<lparr>mw_comparison := insert_all items (mw_comparison w)\<rparr>)),
      wo_add_remote = (\<lambda>items w. Inr (w\<lparr>mw_remote := mw_remote w @ items\<rparr>)),
      wo_remote_page = (\<lambda>after limit w. Inr (mem_remote_page after limit w, w)),
      wo_advertised = (\<lambda>k w. Inr (fmlookup (mw_advertised w) k, w)),
      wo_comparison = (\<lambda>k w. Inr (fmlookup (mw_comparison w) k, w)),
      wo_wanted = (\<lambda>k w. Inr (fmlookup (mw_wanted w) k, w)),
      wo_set_wanted = (\<lambda>item w. Inr (w\<lparr>mw_wanted := fmupd (s_item_id item) item (mw_wanted w)\<rparr>)),
      wo_remote_wins = (\<lambda>item w. Inr (mem_remote_wins item w, w)),
      wo_consider_wanted = (\<lambda>item w. Inr (mem_consider_wanted item w)),
      wo_defer = (\<lambda>k w. Inr (w\<lparr>mw_deferred := finsert k (mw_deferred w)\<rparr>)),
      wo_is_deferred = (\<lambda>k w. Inr (k |\<in>| mw_deferred w, w)),
      wo_finish_plan = (\<lambda>limit w. Inr (mem_finish_plan order limit w))\<rparr>"

section \<open>Moving a session to another backend\<close>

text \<open>
  One of the batched loops of \<open>spill_into\<close>: \<open>batch\<close> is what is pushed and not yet handed over; the
  loop ends by handing over whatever is left, the empty batch included.
\<close>

fun spill_loop ::
  "(item_summary list \<Rightarrow> 'w \<Rightarrow> sync_error + 'w) \<Rightarrow> item_summary list \<Rightarrow> item_summary list \<Rightarrow> 'w
   \<Rightarrow> sync_error + 'w" where
  "spill_loop add [] batch w = add batch w"
| "spill_loop add (item # rest) batch w =
     (let batch = batch @ [item] in
      if length batch = 256 then res_bind (add batch w) (\<lambda>w'. spill_loop add rest [] w')
      else spill_loop add rest batch w)"

fun each :: "('a \<Rightarrow> 'w \<Rightarrow> sync_error + 'w) \<Rightarrow> 'a list \<Rightarrow> 'w \<Rightarrow> sync_error + 'w" where
  "each f [] w = Inr w"
| "each f (x # xs) w = res_bind (f x w) (\<lambda>w'. each f xs w')"

definition spill_into ::
  "(summaries \<Rightarrow> item_summary list) \<Rightarrow> (string fset \<Rightarrow> string list)
   \<Rightarrow> 'w workspace_ops \<Rightarrow> memory_workspace \<Rightarrow> 'w \<Rightarrow> sync_error + 'w" where
  "spill_into order ids ops m w =
     res_bind (spill_loop (wo_add_advertised ops) (order (mw_advertised m)) [] w) (\<lambda>w.
     res_bind (spill_loop (wo_add_comparison ops) (order (mw_comparison m)) [] w) (\<lambda>w.
     res_bind (spill_loop (wo_add_remote ops) (mw_remote m) [] w) (\<lambda>w.
     res_bind (each (wo_set_wanted ops) (order (mw_wanted m)) w) (\<lambda>w.
       each (wo_defer ops) (ids (mw_deferred m)) w))))"

section \<open>The contract\<close>

text \<open>
  The abstract state of a workspace is the value of the in-memory one. \<open>keys\<close> are the positions an
  implementation gives the rows of the remote log: strictly increasing and not zero.
\<close>

definition by_id :: "summaries \<Rightarrow> bool" where
  "by_id m \<longleftrightarrow> (\<forall>k s. fmlookup m k = Some s \<longrightarrow> s_item_id s = k)"

definition log_keys :: "nat list \<Rightarrow> bool" where
  "log_keys ks \<longleftrightarrow> sorted_wrt (<) ks \<and> (\<forall>k \<in> set ks. 0 < k)"

definition page_of :: "nat list \<Rightarrow> item_summary list \<Rightarrow> nat \<Rightarrow> nat \<Rightarrow> (nat \<times> item_summary) list" where
  "page_of ks log after limit = take limit (filter (\<lambda>(k, _). after < k) (zip ks log))"

definition splits_newest :: "summaries \<Rightarrow> nat \<Rightarrow> item_summary list \<Rightarrow> item_summary list \<Rightarrow> bool" where
  "splits_newest m limit kept rest \<longleftrightarrow>
     mset (kept @ rest) = mset (fm_values m) \<and> length kept = min limit (fm_len m)
     \<and> (\<forall>s \<in> set kept. \<forall>t \<in> set rest. s_created_at t \<le> s_created_at s)"

locale summary_workspace =
  fixes ops :: "'w workspace_ops"
    and absw :: "'w \<Rightarrow> memory_workspace"
    and keys :: "'w \<Rightarrow> nat list"
    and inv :: "'w \<Rightarrow> bool"
  assumes keys_ok: "inv w \<Longrightarrow> log_keys (keys w) \<and> length (keys w) = length (mw_remote (absw w))"
    and ids_ok: "inv w \<Longrightarrow> by_id (mw_advertised (absw w)) \<and> by_id (mw_comparison (absw w)) \<and> by_id (mw_wanted (absw w))"
    and add_advertised: "inv w \<Longrightarrow> wo_add_advertised ops items w = Inr w' \<Longrightarrow>
      inv w' \<and> absw w' = (absw w)\<lparr>mw_advertised := insert_all items (mw_advertised (absw w))\<rparr>"
    and add_comparison: "inv w \<Longrightarrow> wo_add_comparison ops items w = Inr w' \<Longrightarrow>
      inv w' \<and> absw w' = (absw w)\<lparr>mw_comparison := insert_all items (mw_comparison (absw w))\<rparr>"
    and add_remote: "inv w \<Longrightarrow> wo_add_remote ops items w = Inr w' \<Longrightarrow>
      inv w' \<and> absw w' = (absw w)\<lparr>mw_remote := mw_remote (absw w) @ items\<rparr>"
    and remote_page: "inv w \<Longrightarrow> wo_remote_page ops after limit w = Inr (page, w') \<Longrightarrow>
      inv w' \<and> absw w' = absw w \<and> keys w' = keys w
      \<and> page = page_of (keys w) (mw_remote (absw w)) after limit"
    and advertised: "inv w \<Longrightarrow> wo_advertised ops k w = Inr (r, w') \<Longrightarrow>
      inv w' \<and> absw w' = absw w \<and> keys w' = keys w \<and> r = fmlookup (mw_advertised (absw w)) k"
    and comparison: "inv w \<Longrightarrow> wo_comparison ops k w = Inr (r, w') \<Longrightarrow>
      inv w' \<and> absw w' = absw w \<and> keys w' = keys w \<and> r = fmlookup (mw_comparison (absw w)) k"
    and wanted: "inv w \<Longrightarrow> wo_wanted ops k w = Inr (r, w') \<Longrightarrow>
      inv w' \<and> absw w' = absw w \<and> keys w' = keys w \<and> r = fmlookup (mw_wanted (absw w)) k"
    and set_wanted: "inv w \<Longrightarrow> wo_set_wanted ops item w = Inr w' \<Longrightarrow>
      inv w' \<and> absw w' = (absw w)\<lparr>mw_wanted := fmupd (s_item_id item) item (mw_wanted (absw w))\<rparr>
      \<and> keys w' = keys w"
    and remote_wins: "inv w \<Longrightarrow> wo_remote_wins ops item w = Inr (b, w') \<Longrightarrow>
      inv w' \<and> absw w' = absw w \<and> keys w' = keys w \<and> b = mem_remote_wins item (absw w)"
    and consider_wanted: "inv w \<Longrightarrow> wo_consider_wanted ops item w = Inr (b, w') \<Longrightarrow>
      inv w' \<and> (b, absw w') = mem_consider_wanted item (absw w) \<and> keys w' = keys w"
    and defer_id: "inv w \<Longrightarrow> wo_defer ops k w = Inr w' \<Longrightarrow>
      inv w' \<and> absw w' = (absw w)\<lparr>mw_deferred := finsert k (mw_deferred (absw w))\<rparr> \<and> keys w' = keys w"
    and is_deferred: "inv w \<Longrightarrow> wo_is_deferred ops k w = Inr (b, w') \<Longrightarrow>
      inv w' \<and> absw w' = absw w \<and> keys w' = keys w \<and> (b \<longleftrightarrow> k |\<in>| mw_deferred (absw w))"
    and finish_plan: "inv w \<Longrightarrow> wo_finish_plan ops limit w = Inr ((kept, dropped), w') \<Longrightarrow>
      \<exists>rest. splits_newest (mw_wanted (absw w)) limit kept rest \<and> dropped = length rest \<and> inv w'
        \<and> keys w' = keys w
        \<and> absw w' = (absw w)\<lparr>mw_deferred := mw_deferred (absw w) |\<union>| fset_of_list (map s_item_id rest)\<rparr>"

text \<open>A workspace whose operations cannot fail: one that needs no storage.\<close>

locale reliable_workspace = summary_workspace +
  assumes add_advertised_ok: "inv w \<Longrightarrow> \<exists>w'. wo_add_advertised ops items w = Inr w'"
    and add_comparison_ok: "inv w \<Longrightarrow> \<exists>w'. wo_add_comparison ops items w = Inr w'"
    and add_remote_ok: "inv w \<Longrightarrow> \<exists>w'. wo_add_remote ops items w = Inr w'"
    and remote_page_ok: "inv w \<Longrightarrow> \<exists>v. wo_remote_page ops after limit w = Inr v"
    and advertised_ok: "inv w \<Longrightarrow> \<exists>v. wo_advertised ops k w = Inr v"
    and remote_wins_ok: "inv w \<Longrightarrow> \<exists>v. wo_remote_wins ops item w = Inr v"
    and consider_wanted_ok: "inv w \<Longrightarrow> \<exists>v. wo_consider_wanted ops item w = Inr v"
    and defer_id_ok: "inv w \<Longrightarrow> \<exists>w'. wo_defer ops k w = Inr w'"
    and is_deferred_ok: "inv w \<Longrightarrow> \<exists>v. wo_is_deferred ops k w = Inr v"
    and finish_plan_ok: "inv w \<Longrightarrow> \<exists>v. wo_finish_plan ops limit w = Inr v"

section \<open>The in-memory workspace meets the contract\<close>

lemma by_id_upd: "by_id m \<Longrightarrow> by_id (fmupd (s_item_id item) item m)"
  by (auto simp: by_id_def)

lemma by_id_insert_all: "by_id m \<Longrightarrow> by_id (insert_all items m)"
  by (induction items m rule: insert_all.induct) (simp_all add: by_id_upd)

lemma filter_later_keys:
  "filter (\<lambda>(k, _). after < k) (zip [Suc a..<Suc (a + length log)] log)
   = drop (after - a) (zip [Suc a..<Suc (a + length log)] log)"
proof (induction log arbitrary: a)
  case Nil
  then show ?case by simp
next
  case (Cons r log)
  have "[Suc a..<Suc (a + length (r # log))] = Suc a # [Suc (Suc a)..<Suc (Suc a + length log)]"
    by (simp add: upt_conv_Cons del: upt_Suc)
  moreover have "filter (\<lambda>(k, _). after < k) (zip [Suc (Suc a)..<Suc (Suc a + length log)] log)
      = drop (after - Suc a) (zip [Suc (Suc a)..<Suc (Suc a + length log)] log)"
    by (rule Cons.IH)
  moreover have "after - a = Suc (after - Suc a)" if "\<not> after < Suc a"
    using that by simp
  ultimately show ?case by (cases "after < Suc a") (simp_all del: upt_Suc)
qed

lemma mem_page: "mem_remote_page after limit w = page_of [1..<length (mw_remote w) + 1] (mw_remote w) after limit"
  using filter_later_keys[of after 0 "mw_remote w"] by (simp add: mem_remote_page_def page_of_def del: upt_Suc)

lemma log_keys_upt: "log_keys [1..<n]"
  by (auto simp: log_keys_def)

definition mem_inv :: "memory_workspace \<Rightarrow> bool" where
  "mem_inv w \<longleftrightarrow> by_id (mw_advertised w) \<and> by_id (mw_comparison w) \<and> by_id (mw_wanted w)"

text \<open>An iteration order: it lists each value of the map once.\<close>

locale hash_order =
  fixes order :: "summaries \<Rightarrow> item_summary list"
  assumes permutes: "mset (order m) = mset (fm_values m)"
begin

lemma order_set: "set (order m) = set (fm_values m)"
  using permutes by (metis set_mset_mset)

lemma order_length: "length (order m) = fm_len m"
  using permutes[of m] by (metis length_fm_values size_mset)

lemma mem_finish_splits:
  assumes "mem_finish_plan order limit w = ((kept, dropped), w')"
  shows "splits_newest (mw_wanted w) limit kept (drop limit (newest_first (order (mw_wanted w))))
    \<and> dropped = length (drop limit (newest_first (order (mw_wanted w))))
    \<and> w' = w\<lparr>mw_deferred := mw_deferred w |\<union>|
        fset_of_list (map s_item_id (drop limit (newest_first (order (mw_wanted w)))))\<rparr>"
proof -
  let ?o = "newest_first (order (mw_wanted w))"
  have len: "length ?o = fm_len (mw_wanted w)" by (simp add: newest_first_def order_length)
  have kept: "kept = take limit ?o"
    using assms by (auto simp: mem_finish_plan_def Let_def)
  have "sorted (map (\<lambda>s. - s_created_at s) ?o)" by (simp add: newest_first_def)
  then have "sorted (map (\<lambda>s. - s_created_at s) (take limit ?o @ drop limit ?o))" by simp
  then have "\<forall>s \<in> set (take limit ?o). \<forall>t \<in> set (drop limit ?o). s_created_at t \<le> s_created_at s"
    unfolding map_append sorted_append by auto
  moreover have "mset (take limit ?o @ drop limit ?o) = mset (fm_values (mw_wanted w))"
    by (simp only: append_take_drop_id) (simp add: newest_first_def permutes)
  ultimately show ?thesis
    using assms len kept by (auto simp: splits_newest_def mem_finish_plan_def Let_def min.commute)
qed

end

sublocale hash_order \<subseteq> memory: reliable_workspace "memory_ops order" "\<lambda>w. w"
  "\<lambda>w. [1..<length (mw_remote w) + 1]" mem_inv
proof (unfold_locales, goal_cases)
  case (1 w)
  then show ?case using log_keys_upt by (simp del: upt_Suc)
next
  case (15 w limit kept dropped w')
  then have "mem_finish_plan order limit w = ((kept, dropped), w')" by (simp add: memory_ops_def)
  from mem_finish_splits[OF this] 15(1) show ?case by (auto simp: mem_inv_def)
qed (auto simp: memory_ops_def mem_inv_def by_id_insert_all by_id_upd mem_page mem_consider_wanted_def
      split: if_splits simp del: upt_Suc)

text \<open>The order of the keys is one such order.\<close>

interpretation key_order: hash_order fm_values
  by unfold_locales simp

section \<open>The provided methods\<close>

context summary_workspace
begin

lemma default_remote_wins_agrees:
  assumes "inv w" and "default_remote_wins ops item w = Inr (b, w')"
  shows "inv w' \<and> absw w' = absw w \<and> b = mem_remote_wins item (absw w)"
  using assms(2) comparison[OF assms(1)]
  by (auto simp: default_remote_wins_def mem_remote_wins_def res_bind_Inr_iff)

lemma default_consider_wanted_agrees:
  assumes "inv w" and "default_consider_wanted ops item w = Inr (b, w')"
  shows "inv w' \<and> (b, absw w') = mem_consider_wanted item (absw w)"
proof -
  from assms(2) obtain found w1 where one: "wo_wanted ops (s_item_id item) w = Inr (found, w1)"
    by (auto simp: default_consider_wanted_def res_bind_Inr_iff)
  note w1 = wanted[OF assms(1) one]
  show ?thesis
    using assms(2) w1 set_wanted[of w1 item]
    by (auto simp: default_consider_wanted_def one mem_consider_wanted_def res_bind_Inr_iff split: if_splits)
qed

end

section \<open>Spilling\<close>

lemma insert_all_append: "insert_all (xs @ ys) m = insert_all ys (insert_all xs m)"
  by (induction xs m rule: insert_all.induct) auto

lemma insert_all_other: "k \<notin> s_item_id ` set xs \<Longrightarrow> fmlookup (insert_all xs m) k = fmlookup m k"
  by (induction xs m rule: insert_all.induct) auto

lemma insert_all_member:
  "distinct (map s_item_id xs) \<Longrightarrow> s \<in> set xs \<Longrightarrow> fmlookup (insert_all xs m) (s_item_id s) = Some s"
  by (induction xs m rule: insert_all.induct) (auto simp: insert_all_other)

lemma distinct_map_values: "by_id m \<Longrightarrow> map s_item_id (fm_values m) = fm_keys m"
  unfolding fm_values_def map_map by (rule map_idI) (auto simp: by_id_def fmlookup_dom_iff)

lemma by_id_values_ids:
  "by_id m \<Longrightarrow> mset xs = mset (fm_values m) \<Longrightarrow> distinct (map s_item_id xs)"
  by (metis distinct_fm_keys distinct_map_values mset_eq_imp_distinct_iff mset_map)

lemma insert_all_values:
  assumes "by_id m" and "mset xs = mset (fm_values m)"
  shows "insert_all xs fmempty = m"
proof (rule fmap_ext)
  fix k
  have set: "set xs = set (fm_values m)" using assms(2) by (metis set_mset_mset)
  have dist: "distinct (map s_item_id xs)" by (rule by_id_values_ids[OF assms])
  show "fmlookup (insert_all xs fmempty) k = fmlookup m k"
  proof (cases "fmlookup m k")
    case None
    have "k \<notin> s_item_id ` set xs"
    proof
      assume "k \<in> s_item_id ` set xs"
      then obtain s where "s \<in> set xs" "k = s_item_id s" by blast
      then obtain k' where "fmlookup m k' = Some s" by (auto simp: set set_fm_values)
      with assms(1) \<open>k = s_item_id s\<close> None show False by (auto simp: by_id_def)
    qed
    with None show ?thesis by (simp add: insert_all_other)
  next
    case (Some s)
    then have "s \<in> set xs" "s_item_id s = k"
      using assms(1) by (auto simp: set set_fm_values by_id_def)
    with Some show ?thesis using insert_all_member[OF dist] by auto
  qed
qed

context summary_workspace
begin

lemma spill_advertised:
  assumes "inv w" and "spill_loop (wo_add_advertised ops) xs batch w = Inr w'"
  shows "inv w' \<and> absw w' = (absw w)\<lparr>mw_advertised := insert_all (batch @ xs) (mw_advertised (absw w))\<rparr>"
  using assms
proof (induction xs arbitrary: batch w)
  case Nil
  then show ?case using add_advertised by auto
next
  case (Cons x xs)
  then show ?case
    by (fastforce simp: Let_def res_bind_Inr_iff insert_all_append dest: add_advertised split: if_splits)
qed

lemma spill_comparison:
  assumes "inv w" and "spill_loop (wo_add_comparison ops) xs batch w = Inr w'"
  shows "inv w' \<and> absw w' = (absw w)\<lparr>mw_comparison := insert_all (batch @ xs) (mw_comparison (absw w))\<rparr>"
  using assms
proof (induction xs arbitrary: batch w)
  case Nil
  then show ?case using add_comparison by auto
next
  case (Cons x xs)
  then show ?case
    by (fastforce simp: Let_def res_bind_Inr_iff insert_all_append dest: add_comparison split: if_splits)
qed

lemma spill_remote:
  assumes "inv w" and "spill_loop (wo_add_remote ops) xs batch w = Inr w'"
  shows "inv w' \<and> absw w' = (absw w)\<lparr>mw_remote := mw_remote (absw w) @ batch @ xs\<rparr>"
  using assms
proof (induction xs arbitrary: batch w)
  case Nil
  then show ?case using add_remote by auto
next
  case (Cons x xs)
  then show ?case
    by (fastforce simp: Let_def res_bind_Inr_iff dest: add_remote split: if_splits)
qed

lemma each_wanted:
  assumes "inv w" and "each (wo_set_wanted ops) xs w = Inr w'"
  shows "inv w' \<and> absw w' = (absw w)\<lparr>mw_wanted := insert_all xs (mw_wanted (absw w))\<rparr>"
  using assms
proof (induction xs arbitrary: w)
  case Nil
  then show ?case by simp
next
  case (Cons x xs)
  then show ?case by (fastforce simp: res_bind_Inr_iff dest: set_wanted)
qed

lemma each_deferred:
  assumes "inv w" and "each (wo_defer ops) xs w = Inr w'"
  shows "inv w' \<and> absw w' = (absw w)\<lparr>mw_deferred := mw_deferred (absw w) |\<union>| fset_of_list xs\<rparr>"
  using assms
proof (induction xs arbitrary: w)
  case Nil
  then show ?case by simp
next
  case (Cons x xs)
  from Cons.prems obtain w1 where one: "wo_defer ops x w = Inr w1" and rest: "each (wo_defer ops) xs w1 = Inr w'"
    by (auto simp: res_bind_Inr_iff)
  from defer_id[OF Cons.prems(1) one] Cons.IH[OF _ rest] show ?case by auto
qed

lemma spill_into_preserves:
  assumes "inv w" and "absw w = memory_workspace_default" and "mem_inv m"
    and order: "\<And>x. mset (order x) = mset (fm_values x)" and ids: "\<And>x. set (ids x) = fset x"
    and "spill_into order ids ops m w = Inr w'"
  shows "inv w' \<and> absw w' = m"
proof -
  have full: "insert_all (order x) fmempty = x" if "by_id x" for x
    using insert_all_values[OF that order] by simp
  have "fset_of_list (ids x) = x" for x by (rule fset_eqI) (simp add: ids fset_of_list_elem)
  moreover from assms(6) obtain w1 w2 w3 w4 where
    1: "spill_loop (wo_add_advertised ops) (order (mw_advertised m)) [] w = Inr w1"
    and 2: "spill_loop (wo_add_comparison ops) (order (mw_comparison m)) [] w1 = Inr w2"
    and 3: "spill_loop (wo_add_remote ops) (mw_remote m) [] w2 = Inr w3"
    and 4: "each (wo_set_wanted ops) (order (mw_wanted m)) w3 = Inr w4"
    and 5: "each (wo_defer ops) (ids (mw_deferred m)) w4 = Inr w'"
    by (auto simp: spill_into_def res_bind_Inr_iff)
  note a1 = spill_advertised[OF assms(1) 1]
  note a2 = spill_comparison[OF conjunct1[OF a1] 2]
  note a3 = spill_remote[OF conjunct1[OF a2] 3]
  note a4 = each_wanted[OF conjunct1[OF a3] 4]
  note a5 = each_deferred[OF conjunct1[OF a4] 5]
  ultimately show ?thesis
    using a1 a2 a3 a4 a5 assms(2,3) full
    by (simp add: memory_workspace_default_def mem_inv_def)
qed

end

section \<open>Properties\<close>

definition demo_summary :: "string \<Rightarrow> int \<Rightarrow> item_summary" where
  "demo_summary k t = \<lparr>s_item_id = k, s_created_at = t, s_deleted = False, s_content_hash = ''h'',
     s_origin_device_id = ''d'', s_pinned = False, s_pin_order = None, s_pin_updated_at = 0\<rparr>"

text \<open>
  Moving a session to another backend loses nothing. Into any workspace that keeps the
  contract and is still empty, a spill that succeeds leaves exactly the maps, the remote log in
  wire order with its duplicates, and the deferred ids of the session it moved, whatever
  order the hash maps are drained in.
\<close>

theorem spill_into_loses_nothing:
  assumes "summary_workspace ops absw keys good" and "good w" and "absw w = memory_workspace_default"
    and "mem_inv m" and "\<And>x. mset (order x) = mset (fm_values x)" and "\<And>x. set (ids x) = fset x"
    and "spill_into order ids ops m w = Inr w'"
  shows "good w' \<and> absw w' = m"
  using assms by (rule summary_workspace.spill_into_preserves)

theorem spill_into_loses_nothing_witness:
  "\<exists>w'. spill_into fm_values sorted_list_of_fset (memory_ops fm_values)
        (memory_workspace_default\<lparr>mw_remote := [demo_summary ''a'' 5, demo_summary ''a'' 5],
           mw_wanted := fmupd ''a'' (demo_summary ''a'' 5) fmempty\<rparr>) memory_workspace_default = Inr w'
     \<and> w' = memory_workspace_default\<lparr>mw_remote := [demo_summary ''a'' 5, demo_summary ''a'' 5],
           mw_wanted := fmupd ''a'' (demo_summary ''a'' 5) fmempty\<rparr>"
proof -
  let ?m = "memory_workspace_default\<lparr>mw_remote := [demo_summary ''a'' 5, demo_summary ''a'' 5],
           mw_wanted := fmupd ''a'' (demo_summary ''a'' 5) fmempty\<rparr>"
  have "\<exists>w'. spill_into fm_values sorted_list_of_fset (memory_ops fm_values) ?m memory_workspace_default = Inr w'"
    by (simp add: spill_into_def memory_ops_def memory_workspace_default_def fm_values_def fm_keys_upd
        sorted_list_of_fset.rep_eq)
  then obtain w' where w': "spill_into fm_values sorted_list_of_fset (memory_ops fm_values) ?m memory_workspace_default = Inr w'"
    by blast
  moreover have "mem_inv memory_workspace_default" "mem_inv ?m"
    by (simp_all add: mem_inv_def by_id_def memory_workspace_default_def demo_summary_def)
  ultimately show ?thesis
    using spill_into_loses_nothing[OF key_order.memory.summary_workspace_axioms _ _ _ _ _ w'] by auto
qed

end
