(* ===== verification/Plan.thy ===== *)
theory Plan
  imports Workspace
begin

text \<open>
  Planning a session from the two summary logs and the watermark that ends it:
  \<open>crates/copypaste-p2p/src/sync/plan.rs\<close> and the watermark functions of \<open>sync/summary.rs\<close>, with
  \<open>SyncStats\<close> of \<open>sync/source.rs\<close>. Both loops page through a workspace that may be any
  implementation, so they are partial functions whose value is \<^const>\<open>None\<close> when they do not
  end; that they end on every workspace that keeps its contract is proved below. A \<open>usize\<close>
  counter of the statistics is a natural number.
\<close>

definition max_future_skew_ms :: int where
  "max_future_skew_ms = 24 * 60 * 60 * 1000"

definition summary_key :: "item_summary \<Rightarrow> int" where
  "summary_key s = max (s_created_at s) (s_pin_updated_at s)"

record sync_stats =
  st_sent :: nat
  st_received :: nat
  st_skipped :: nat
  st_skipped_too_large :: nat
  st_skipped_unavailable :: nat
  st_skipped_invalid :: nat
  st_skipped_future :: nat
  st_deferred :: nat

definition sync_stats_default :: sync_stats where
  "sync_stats_default =
     \<lparr>st_sent = 0, st_received = 0, st_skipped = 0, st_skipped_too_large = 0,
      st_skipped_unavailable = 0, st_skipped_invalid = 0, st_skipped_future = 0, st_deferred = 0\<rparr>"

definition skip :: "sync_stats \<Rightarrow> sync_stats" where
  "skip st = st\<lparr>st_skipped := st_skipped st + 1\<rparr>"

definition skip_future :: "sync_stats \<Rightarrow> sync_stats" where
  "skip_future st = st\<lparr>st_skipped := st_skipped st + 1, st_skipped_future := st_skipped_future st + 1\<rparr>"

section \<open>Planning\<close>

text \<open>The body of the loop over one page.\<close>

fun plan_page ::
  "'w workspace_ops \<Rightarrow> int \<Rightarrow> (nat \<times> item_summary) list \<Rightarrow> nat \<Rightarrow> sync_stats \<Rightarrow> 'w
   \<Rightarrow> sync_error + nat \<times> sync_stats \<times> 'w" where
  "plan_page ops ceil [] cursor st w = Inr (cursor, st, w)"
| "plan_page ops ceil ((nxt, r) # rest) cursor st w =
     (if summary_key r > ceil
      then res_bind (wo_defer ops (s_item_id r) w) (\<lambda>w.
             plan_page ops ceil rest nxt (skip_future st) w)
      else res_bind (wo_remote_wins ops r w) (\<lambda>(wins, w).
        if \<not> wins then plan_page ops ceil rest nxt (skip st) w
        else res_bind (wo_consider_wanted ops r w) (\<lambda>(taken, w).
               plan_page ops ceil rest nxt (if taken then st else skip st) w)))"

partial_function (option) plan_loop ::
  "'w workspace_ops \<Rightarrow> int \<Rightarrow> nat \<Rightarrow> sync_stats \<Rightarrow> 'w \<Rightarrow> (sync_error + sync_stats \<times> 'w) option" where
  "plan_loop ops ceil cursor st w =
     (case wo_remote_page ops cursor 256 w of
        Inl e \<Rightarrow> Some (Inl e)
      | Inr (page, w) \<Rightarrow>
          if page = [] then Some (Inr (st, w))
          else (case plan_page ops ceil page cursor st w of
                  Inl e \<Rightarrow> Some (Inl e)
                | Inr (cursor, st, w) \<Rightarrow> plan_loop ops ceil cursor st w))"

text \<open>\<open>collect\<close> of the selected summaries into a map by id.\<close>

definition collect_by_id :: "item_summary list \<Rightarrow> summaries" where
  "collect_by_id items = insert_all items fmempty"

definition plan_finish ::
  "'w workspace_ops \<Rightarrow> sync_stats \<Rightarrow> 'w \<Rightarrow> sync_error + summaries \<times> sync_stats \<times> 'w" where
  "plan_finish ops st w =
     res_bind (wo_finish_plan ops max_request_ids_per_message w) (\<lambda>((selected, dropped), w).
       Inr (collect_by_id selected,
            if dropped > 0
            then st\<lparr>st_skipped := st_skipped st + dropped, st_deferred := st_deferred st + dropped\<rparr>
            else st, w))"

definition plan_workspace ::
  "'w workspace_ops \<Rightarrow> int \<Rightarrow> sync_stats \<Rightarrow> 'w
   \<Rightarrow> (sync_error + summaries \<times> sync_stats \<times> 'w) option" where
  "plan_workspace ops now st w =
     (let ceil = i64_saturating_add now max_future_skew_ms in
      case plan_loop ops ceil 0 st w of
        None \<Rightarrow> None
      | Some (Inl e) \<Rightarrow> Some (Inl e)
      | Some (Inr (st, w)) \<Rightarrow> Some (plan_finish ops st w))"

section \<open>The watermark\<close>

fun watermark_page ::
  "'w workspace_ops \<Rightarrow> summaries \<Rightarrow> string fset \<Rightarrow> (nat \<times> item_summary) list
   \<Rightarrow> nat \<Rightarrow> int \<Rightarrow> int \<Rightarrow> 'w \<Rightarrow> sync_error + nat \<times> int \<times> int \<times> 'w" where
  "watermark_page ops wanted attempted [] cursor reached blocked w = Inr (cursor, reached, blocked, w)"
| "watermark_page ops wanted attempted ((nxt, s) # rest) cursor reached blocked w =
     res_bind (wo_is_deferred ops (s_item_id s) w) (\<lambda>(deferred, w).
       if deferred \<or> (fm_contains wanted (s_item_id s) \<and> s_item_id s |\<notin>| attempted)
       then watermark_page ops wanted attempted rest nxt reached (min blocked (summary_key s)) w
       else watermark_page ops wanted attempted rest nxt (max reached (summary_key s)) blocked w)"

partial_function (option) watermark_loop ::
  "'w workspace_ops \<Rightarrow> summaries \<Rightarrow> string fset \<Rightarrow> nat \<Rightarrow> int \<Rightarrow> int \<Rightarrow> 'w
   \<Rightarrow> (sync_error + int) option" where
  "watermark_loop ops wanted attempted cursor reached blocked w =
     (case wo_remote_page ops cursor 256 w of
        Inl e \<Rightarrow> Some (Inl e)
      | Inr (page, w) \<Rightarrow>
          if page = [] then Some (Inr (min reached blocked))
          else (case watermark_page ops wanted attempted page cursor reached blocked w of
                  Inl e \<Rightarrow> Some (Inl e)
                | Inr (cursor, reached, blocked, w) \<Rightarrow>
                    watermark_loop ops wanted attempted cursor reached blocked w))"

definition workspace_watermark ::
  "int \<Rightarrow> 'w workspace_ops \<Rightarrow> summaries \<Rightarrow> string fset \<Rightarrow> 'w \<Rightarrow> (sync_error + int) option" where
  "workspace_watermark previous ops wanted attempted w =
     watermark_loop ops wanted attempted 0 previous i64_max w"

section \<open>What planning computes\<close>

text \<open>The loop over a remote log, on the abstract workspace.\<close>

definition plan_one :: "int \<Rightarrow> item_summary \<Rightarrow> sync_stats \<times> memory_workspace \<Rightarrow> sync_stats \<times> memory_workspace" where
  "plan_one ceil r acc =
     (case acc of (st, m) \<Rightarrow>
        if summary_key r > ceil then (skip_future st, m\<lparr>mw_deferred := finsert (s_item_id r) (mw_deferred m)\<rparr>)
        else if \<not> mem_remote_wins r m then (skip st, m)
        else (case mem_consider_wanted r m of (taken, m') \<Rightarrow> (if taken then st else skip st, m')))"

definition eligible :: "int \<Rightarrow> summaries \<Rightarrow> item_summary \<Rightarrow> bool" where
  "eligible ceil local r \<longleftrightarrow>
     summary_key r \<le> ceil
     \<and> (case fmlookup local (s_item_id r) of None \<Rightarrow> True | Some l \<Rightarrow> remote_version_wins l r)"

text \<open>Rows of a log that come after a position.\<close>

definition rows_after :: "nat list \<Rightarrow> item_summary list \<Rightarrow> nat \<Rightarrow> (nat \<times> item_summary) list" where
  "rows_after ks log after = filter (\<lambda>(k, _). after < k) (zip ks log)"

lemma sorted_fst_last:
  "sorted_wrt (\<lambda>a b. fst a < fst b) xs \<Longrightarrow> x \<in> set xs \<Longrightarrow> fst x \<le> (fst (last xs) :: nat)"
proof (induction xs)
  case (Cons a xs)
  then show ?case by (cases "xs = []") (auto intro: less_imp_le)
qed simp

lemma rows_after_later:
  "after < c \<Longrightarrow> rows_after ks log c = filter (\<lambda>(k, _). c < k) (rows_after ks log after)"
  by (auto simp: rows_after_def intro!: filter_cong)

lemma rows_after_next:
  assumes "log_keys ks" and "take n (rows_after ks log after) \<noteq> []"
  shows "rows_after ks log (fst (last (take n (rows_after ks log after)))) = drop n (rows_after ks log after)"
proof -
  let ?rows = "rows_after ks log after"
  let ?page = "take n ?rows" let ?c = "fst (last ?page)"
  have "sorted_wrt (\<lambda>a b. fst a < fst b) (zip ks log)"
    using assms(1) by (auto simp: log_keys_def sorted_wrt_iff_nth_less)
  then have "sorted_wrt (\<lambda>a b. fst a < fst b) (?page @ drop n ?rows)"
    by (simp add: rows_after_def sorted_wrt_filter)
  then have sw: "sorted_wrt (\<lambda>a b. fst a < fst b) ?page"
    "\<forall>x \<in> set ?page. \<forall>y \<in> set (drop n ?rows). fst x < fst y"
    unfolding sorted_wrt_append by blast+
  have last: "last ?page \<in> set ?page" using assms(2) by (rule last_in_set)
  note page_le = sorted_fst_last[OF sw(1)]
  have "last ?page \<in> set ?rows" using last by (meson in_set_takeD)
  then have "after < ?c" by (auto simp: rows_after_def)
  then have "rows_after ks log ?c = filter (\<lambda>(k, _). ?c < k) ?rows"
    by (rule rows_after_later)
  also have "\<dots> = filter (\<lambda>(k, _). ?c < k) ?page @ filter (\<lambda>(k, _). ?c < k) (drop n ?rows)"
    by (metis append_take_drop_id filter_append)
  also have "filter (\<lambda>(k, _). ?c < k) ?page = []"
    using page_le by (fastforce simp: filter_empty_conv)
  also have "filter (\<lambda>(k, _). ?c < k) (drop n ?rows) = drop n ?rows"
    using sw(2) last by (intro filter_True) fastforce
  finally show ?thesis by simp
qed

lemma rows_after_0:
  assumes "log_keys ks" and "length ks = length log"
  shows "map snd (rows_after ks log 0) = log"
proof -
  have "rows_after ks log 0 = zip ks log"
    unfolding rows_after_def using assms by (intro filter_True) (auto simp: log_keys_def dest: set_zip_leftD)
  then show ?thesis using assms(2) by simp
qed

lemma plan_one_keeps:
  "mw_remote (snd (plan_one ceil r (st, m))) = mw_remote m"
  "mw_comparison (snd (plan_one ceil r (st, m))) = mw_comparison m"
  "mw_advertised (snd (plan_one ceil r (st, m))) = mw_advertised m"
  by (auto simp: plan_one_def mem_consider_wanted_def split: if_splits option.splits)

lemma plan_fold_keeps:
  "mw_remote (snd (fold (plan_one ceil) log (st, m))) = mw_remote m"
  "mw_comparison (snd (fold (plan_one ceil) log (st, m))) = mw_comparison m"
  "mw_advertised (snd (fold (plan_one ceil) log (st, m))) = mw_advertised m"
proof (induction log arbitrary: st m)
  case (Cons r log)
  {
    case 1 then show ?case
      by (cases "plan_one ceil r (st, m)") (metis Cons.IH(1) fold_simps(2) plan_one_keeps(1) snd_conv)
  next
    case 2 then show ?case
      by (cases "plan_one ceil r (st, m)") (metis Cons.IH(2) fold_simps(2) plan_one_keeps(2) snd_conv)
  next
    case 3 then show ?case
      by (cases "plan_one ceil r (st, m)") (metis Cons.IH(3) fold_simps(2) plan_one_keeps(3) snd_conv)
  }
qed simp_all

context summary_workspace
begin

lemma plan_page_refines:
  assumes "inv w" and "plan_page ops ceil page cursor st w = Inr (c', st', w')"
  shows "inv w' \<and> keys w' = keys w \<and> (st', absw w') = fold (plan_one ceil) (map snd page) (st, absw w)
    \<and> c' = (if page = [] then cursor else fst (last page))"
  using assms
proof (induction page arbitrary: cursor st w)
  case Nil
  then show ?case by simp
next
  case (Cons e page)
  obtain nxt r where e: "e = (nxt, r)" by (cases e)
  show ?case
  proof (cases "summary_key r > ceil")
    case True
    with Cons.prems obtain w1 where one: "wo_defer ops (s_item_id r) w = Inr w1"
      and rest: "plan_page ops ceil page nxt (skip_future st) w1 = Inr (c', st', w')"
      by (auto simp: e res_bind_Inr_iff)
    from Cons.IH[OF _ rest] defer_id[OF Cons.prems(1) one] True show ?thesis
      by (auto simp: e plan_one_def)
  next
    case False
    with Cons.prems obtain wins w1 where one: "wo_remote_wins ops r w = Inr (wins, w1)"
      by (auto simp: e res_bind_Inr_iff)
    note w1 = remote_wins[OF Cons.prems(1) one]
    show ?thesis
    proof (cases wins)
      case True
      with Cons.prems False obtain taken w2 where two: "wo_consider_wanted ops r w1 = Inr (taken, w2)"
        and rest: "plan_page ops ceil page nxt (if taken then st else skip st) w2 = Inr (c', st', w')"
        by (auto simp: e one res_bind_Inr_iff)
      have "inv w1" using w1 by blast
      from Cons.IH[OF _ rest] consider_wanted[OF this two] w1 True False show ?thesis
        by (cases "mem_consider_wanted r (absw w)") (auto simp: e plan_one_def)
    next
      case lost: False
      with Cons.prems False have rest: "plan_page ops ceil page nxt (skip st) w1 = Inr (c', st', w')"
        by (simp add: e one)
      from Cons.IH[OF _ rest] w1 lost False show ?thesis by (auto simp: e plan_one_def)
    qed
  qed
qed

lemma plan_loop_refines:
  assumes "inv w"
  shows "\<exists>result. plan_loop ops ceil cursor st w = Some result
    \<and> (\<forall>st' w'. result = Inr (st', w') \<longrightarrow> inv w' \<and> keys w' = keys w
         \<and> (st', absw w') = fold (plan_one ceil)
               (map snd (rows_after (keys w) (mw_remote (absw w)) cursor)) (st, absw w))"
  using assms
proof (induction "length (rows_after (keys w) (mw_remote (absw w)) cursor)" arbitrary: cursor st w rule: less_induct)
  case less
  let ?rows = "rows_after (keys w) (mw_remote (absw w)) cursor"
  show ?case
  proof (cases "wo_remote_page ops cursor 256 w")
    case (Inl e)
    then show ?thesis by (simp add: plan_loop.simps)
  next
    case (Inr p)
    obtain page w1 where p: "p = (page, w1)" by (cases p)
    with Inr have one: "wo_remote_page ops cursor 256 w = Inr (page, w1)" by simp
    from remote_page[OF less.prems one] have w1: "inv w1" "absw w1 = absw w" "keys w1 = keys w"
      and page: "page = take 256 ?rows" by (auto simp: page_of_def rows_after_def)
    show ?thesis
    proof (cases "page = []")
      case True
      then have "?rows = []" using page by simp
      with True one w1 show ?thesis by (simp add: plan_loop.simps)
    next
      case False
      show ?thesis
      proof (cases "plan_page ops ceil page cursor st w1")
        case (Inl e)
        with False one show ?thesis by (simp add: plan_loop.simps)
      next
        case (Inr q)
        obtain c' st' w2 where q: "q = (c', st', w2)" by (cases q)
        with Inr have two: "plan_page ops ceil page cursor st w1 = Inr (c', st', w2)" by simp
        from plan_page_refines[OF w1(1) two] have w2: "inv w2" "keys w2 = keys w"
          and fold: "(st', absw w2) = fold (plan_one ceil) (map snd page) (st, absw w)"
          and c': "c' = fst (last page)" using False w1 by auto
        have remote: "mw_remote (absw w2) = mw_remote (absw w)"
          using plan_fold_keeps(1)[of ceil "map snd page" st "absw w"] fold by (metis snd_conv)
        have drop: "rows_after (keys w) (mw_remote (absw w)) c' = drop 256 ?rows"
          using rows_after_next[of "keys w" 256 "mw_remote (absw w)" cursor] keys_ok[OF less.prems] False
          by (simp add: page c')
        have "length (drop 256 ?rows) < length ?rows"
          using False page by (cases ?rows) auto
        then obtain result where result: "plan_loop ops ceil c' st' w2 = Some result"
          "\<forall>st'' w'. result = Inr (st'', w') \<longrightarrow> inv w' \<and> keys w' = keys w2
             \<and> (st'', absw w') = fold (plan_one ceil) (map snd (drop 256 ?rows)) (st', absw w2)"
          using less.hyps[of w2 c' st'] w2 remote drop by auto
        have "plan_loop ops ceil cursor st w = Some result"
          using False one two result(1) by (simp add: plan_loop.simps[of ops ceil cursor])
        moreover have "fold (plan_one ceil) (map snd ?rows) (st, absw w)
            = fold (plan_one ceil) (map snd (drop 256 ?rows)) (st', absw w2)"
          unfolding fold[unfolded page] fold_append[symmetric, THEN fun_cong, unfolded comp_def]
          by (metis append_take_drop_id map_append fold_append comp_apply)
        ultimately show ?thesis using result(2) w2(2) by auto
      qed
    qed
  qed
qed

end

section \<open>The outcome of a scan\<close>

definition keep_best :: "item_summary \<Rightarrow> item_summary option \<Rightarrow> item_summary option" where
  "keep_best r acc =
     (case acc of None \<Rightarrow> Some r | Some s \<Rightarrow> if takes_remote s r then Some r else acc)"

lemma keep_best_settle: "fold keep_best rs (Some v) = Some (settle takes_remote v rs)"
  by (induction rs arbitrary: v) (auto simp: keep_best_def)

lemma mem_remote_wins_eligible:
  "summary_key r \<le> ceil \<Longrightarrow> mem_remote_wins r m \<longleftrightarrow> eligible ceil (mw_comparison m) r"
  by (simp add: mem_remote_wins_def eligible_def)

lemma plan_one_wanted:
  "fmlookup (mw_wanted (snd (plan_one ceil r (st, m)))) k =
     (if eligible ceil (mw_comparison m) r \<and> s_item_id r = k
      then keep_best r (fmlookup (mw_wanted m) k) else fmlookup (mw_wanted m) k)"
proof (cases "summary_key r > ceil")
  case True
  then show ?thesis by (simp add: plan_one_def eligible_def)
next
  case False
  then have "mem_remote_wins r m \<longleftrightarrow> eligible ceil (mw_comparison m) r"
    by (simp add: mem_remote_wins_eligible)
  with False show ?thesis
    by (auto simp: plan_one_def mem_consider_wanted_def keep_best_def takes_remote_def
        split: option.splits)
qed

lemma plan_one_deferred:
  "mw_deferred (snd (plan_one ceil r (st, m))) =
     (if summary_key r > ceil then finsert (s_item_id r) (mw_deferred m) else mw_deferred m)"
  by (auto simp: plan_one_def mem_consider_wanted_def split: option.splits)

lemma plan_fold_wanted:
  "fmlookup (mw_wanted (snd (fold (plan_one ceil) log (st, m)))) k =
     fold keep_best (filter (\<lambda>r. eligible ceil (mw_comparison m) r \<and> s_item_id r = k) log)
       (fmlookup (mw_wanted m) k)"
proof (induction log arbitrary: st m)
  case (Cons r log)
  obtain st1 m1 where one: "plan_one ceil r (st, m) = (st1, m1)" by (cases "plan_one ceil r (st, m)")
  then have "m1 = snd (plan_one ceil r (st, m))" by simp
  then show ?case
    using plan_one_wanted[of ceil r st m k] plan_one_keeps(2)[of ceil r st m]
    by (simp add: one Cons.IH)
qed simp

lemma plan_fold_deferred:
  "k |\<in>| mw_deferred (snd (fold (plan_one ceil) log (st, m))) \<longleftrightarrow>
     k |\<in>| mw_deferred m \<or> (\<exists>r \<in> set log. summary_key r > ceil \<and> s_item_id r = k)"
proof (induction log arbitrary: st m)
  case (Cons r log)
  obtain st1 m1 where one: "plan_one ceil r (st, m) = (st1, m1)" by (cases "plan_one ceil r (st, m)")
  then have "m1 = snd (plan_one ceil r (st, m))" by simp
  then show ?case
    using plan_one_deferred[of ceil r st m] by (auto simp: one Cons.IH)
qed simp

lemma best_of_fresh:
  assumes "fold keep_best (filter P log) None = Some s"
  shows "s \<in> set log \<and> P s \<and> (\<forall>r \<in> set log. P r \<longrightarrow> content_key r \<le> content_key s)"
proof (cases "filter P log")
  case Nil
  with assms show ?thesis by simp
next
  case (Cons v vs)
  with assms have s: "s = settle takes_remote v vs" by (simp add: keep_best_def keep_best_settle)
  have key: "content_key s = Max (insert (content_key v) (content_key ` set vs))"
    unfolding s by (rule content.settle_key)
  have set: "set (filter P log) = insert v (set vs)" by (simp add: Cons)
  have "s \<in> set (filter P log)" using content.settle_member[of v vs] unfolding s set .
  moreover have "content_key r \<le> content_key s" if "r \<in> set (filter P log)" for r
    using that unfolding key set by (intro Max_ge) auto
  ultimately show ?thesis by auto
qed

lemma best_of_none: "fold keep_best (filter P log) None = None \<longleftrightarrow> (\<forall>r \<in> set log. \<not> P r)"
proof (cases "filter P log")
  case Nil
  then show ?thesis by (auto simp: filter_empty_conv)
next
  case (Cons v vs)
  then have "v \<in> set (filter P log)" by simp
  then have "v \<in> set log" "P v" by simp_all
  with Cons show ?thesis by (auto simp: keep_best_def keep_best_settle)
qed

lemma collect_by_id_iff:
  assumes "distinct (map s_item_id xs)"
  shows "fmlookup (collect_by_id xs) k = Some s \<longleftrightarrow> s \<in> set xs \<and> s_item_id s = k"
proof
  assume "fmlookup (collect_by_id xs) k = Some s"
  moreover have "fmlookup (insert_all ys m) k = Some s \<Longrightarrow> fmlookup m k = Some s \<or> s \<in> set ys \<and> s_item_id s = k" for ys m
    by (induction ys m rule: insert_all.induct) (auto split: if_splits)
  ultimately show "s \<in> set xs \<and> s_item_id s = k" by (fastforce simp: collect_by_id_def)
qed (auto simp: collect_by_id_def insert_all_member[OF assms])

lemma fm_len_insert_all: "fm_len (insert_all xs m) \<le> fm_len m + length xs"
  by (induction xs m rule: insert_all.induct) (auto simp: fm_len_upd split: if_splits)

text \<open>
  What a plan means: which versions it wants, what it defers, and that it wants the newest when
  there are more than one session transfers.
\<close>

definition plan_ok :: "int \<Rightarrow> memory_workspace \<Rightarrow> summaries \<Rightarrow> memory_workspace \<Rightarrow> bool" where
  "plan_ok ceil m wanted m' \<longleftrightarrow>
     fm_len wanted \<le> max_request_ids_per_message
     \<and> mw_remote m' = mw_remote m \<and> mw_comparison m' = mw_comparison m \<and> mw_advertised m' = mw_advertised m
     \<and> (\<forall>k s. fmlookup wanted k = Some s \<longrightarrow>
          s \<in> set (mw_remote m) \<and> s_item_id s = k \<and> eligible ceil (mw_comparison m) s
          \<and> (\<forall>r \<in> set (mw_remote m). eligible ceil (mw_comparison m) r \<and> s_item_id r = k \<longrightarrow>
               content_key r \<le> content_key s))
     \<and> (\<forall>r \<in> set (mw_remote m). eligible ceil (mw_comparison m) r \<longrightarrow>
          fm_contains wanted (s_item_id r) \<or> s_item_id r |\<in>| mw_deferred m')
     \<and> (\<forall>r \<in> set (mw_remote m). summary_key r > ceil \<longrightarrow> s_item_id r |\<in>| mw_deferred m')
     \<and> (fm_len wanted < max_request_ids_per_message \<longrightarrow>
          (\<forall>r \<in> set (mw_remote m). eligible ceil (mw_comparison m) r \<longrightarrow> fm_contains wanted (s_item_id r)))
     \<and> (\<forall>k s. fmlookup wanted k = Some s \<longrightarrow>
          (\<forall>r \<in> set (mw_remote m). eligible ceil (mw_comparison m) r \<and> \<not> fm_contains wanted (s_item_id r) \<longrightarrow>
             s_created_at r \<le> s_created_at s))"

lemma plan_ok_intro:
  assumes scan: "m1 = snd (fold (plan_one ceil) (mw_remote m) (st, m))"
    and fresh: "mw_wanted m = fmempty"
    and split: "splits_newest (mw_wanted m1) max_request_ids_per_message kept rest"
    and m': "m' = m1\<lparr>mw_deferred := mw_deferred m1 |\<union>| fset_of_list (map s_item_id rest)\<rparr>"
    and ids: "by_id (mw_wanted m1)"
  shows "plan_ok ceil m (collect_by_id kept) m'"
proof -
  let ?E = "\<lambda>k r. eligible ceil (mw_comparison m) r \<and> s_item_id r = k"
  have best: "fmlookup (mw_wanted m1) k = fold keep_best (filter (?E k) (mw_remote m)) None" for k
    unfolding scan plan_fold_wanted by (simp add: fresh)
  have perm: "mset (kept @ rest) = mset (fm_values (mw_wanted m1))"
    and len: "length kept = min max_request_ids_per_message (fm_len (mw_wanted m1))"
    using split by (auto simp: splits_newest_def)
  have dist: "distinct (map s_item_id kept)"
    using by_id_values_ids[OF ids perm] by simp
  note want = collect_by_id_iff[OF dist]
  have vals: "s \<in> set (kept @ rest) \<longleftrightarrow> fmlookup (mw_wanted m1) (s_item_id s) = Some s" for s
    using perm ids by (metis by_id_def set_fm_values set_mset_mset)
  have keep: "mw_remote m' = mw_remote m" "mw_comparison m' = mw_comparison m" "mw_advertised m' = mw_advertised m"
    by (simp_all add: m' scan plan_fold_keeps)
  have sound: "s \<in> set (mw_remote m) \<and> s_item_id s = k \<and> eligible ceil (mw_comparison m) s
      \<and> (\<forall>r \<in> set (mw_remote m). eligible ceil (mw_comparison m) r \<and> s_item_id r = k \<longrightarrow>
           content_key r \<le> content_key s)" if "fmlookup (collect_by_id kept) k = Some s" for k s
  proof -
    from that have "s \<in> set (kept @ rest)" "s_item_id s = k" by (auto simp: want)
    then have "fold keep_best (filter (?E k) (mw_remote m)) None = Some s" by (simp only: vals best)
    from best_of_fresh[OF this] show ?thesis by blast
  qed
  have complete: "fm_contains (collect_by_id kept) (s_item_id r)
      \<or> (\<exists>t \<in> set rest. s_item_id t = s_item_id r \<and> content_key r \<le> content_key t)"
    if "r \<in> set (mw_remote m)" "eligible ceil (mw_comparison m) r" for r
  proof -
    note r = that
    obtain s where s: "fmlookup (mw_wanted m1) (s_item_id r) = Some s"
      using best_of_none[of "?E (s_item_id r)" "mw_remote m"] r by (auto simp: best)
    then have id: "s_item_id s = s_item_id r" using ids by (auto simp: by_id_def)
    have "content_key r \<le> content_key s" using best_of_fresh[OF s[unfolded best]] r by blast
    moreover from s id have "s \<in> set (kept @ rest)" by (simp only: vals)
    ultimately show ?thesis
      using id want[of "s_item_id r" s] by (auto simp: fm_contains_def simp flip: id)
  qed
  have newest: "s_created_at r \<le> s_created_at s"
    if s: "fmlookup (collect_by_id kept) k = Some s" and r: "r \<in> set (mw_remote m)" "eligible ceil (mw_comparison m) r"
      "\<not> fm_contains (collect_by_id kept) (s_item_id r)" for k s r
  proof -
    from complete[OF r(1,2)] r(3) obtain t where t: "t \<in> set rest" "content_key r \<le> content_key t" by blast
    have "s \<in> set kept" using s by (simp add: want)
    then have "s_created_at t \<le> s_created_at s" using split t(1) by (simp add: splits_newest_def)
    with t(2) show ?thesis by (auto simp: content_key_def)
  qed
  have size: "fm_len (collect_by_id kept) = length kept"
  proof -
    have "fset (fmdom (collect_by_id kept)) = set (map s_item_id kept)"
      by (auto simp: fmlookup_dom_iff want)
    then show ?thesis using dist by (metis distinct_card fcard.rep_eq fm_len_def length_map)
  qed
  have all_kept: "rest = []" if "length kept < max_request_ids_per_message"
    using that len perm by (metis add_cancel_right_right length_0_conv length_append length_fm_values
        min_def nat_neq_iff size_mset)
  have "length kept \<le> max_request_ids_per_message" by (simp add: len)
  moreover have "fm_contains (collect_by_id kept) (s_item_id r) \<or> s_item_id r |\<in>| mw_deferred m'"
    if "r \<in> set (mw_remote m)" "eligible ceil (mw_comparison m) r" for r
    using complete[OF that] by (auto simp: m' fset_of_list.rep_eq) (metis imageI)
  moreover have "s_item_id r |\<in>| mw_deferred m'" if "r \<in> set (mw_remote m)" "summary_key r > ceil" for r
    using that plan_fold_deferred[of _ ceil "mw_remote m" st m] by (auto simp: m' scan)
  moreover have "fm_contains (collect_by_id kept) (s_item_id r)"
    if "length kept < max_request_ids_per_message" "r \<in> set (mw_remote m)" "eligible ceil (mw_comparison m) r" for r
    using complete[OF that(2,3)] all_kept[OF that(1)] by simp
  ultimately show ?thesis unfolding plan_ok_def size using keep sound newest by blast
qed

section \<open>The outcome of the watermark\<close>

definition unresolved :: "string fset \<Rightarrow> summaries \<Rightarrow> string fset \<Rightarrow> item_summary \<Rightarrow> bool" where
  "unresolved deferred wanted attempted s \<longleftrightarrow>
     s_item_id s |\<in>| deferred \<or> (fm_contains wanted (s_item_id s) \<and> s_item_id s |\<notin>| attempted)"

text \<open>\<open>watermark\<close>: the single pass over a whole log that the paged loop has to agree with.\<close>

fun watermark :: "string fset \<Rightarrow> summaries \<Rightarrow> string fset \<Rightarrow> item_summary list \<Rightarrow> int \<Rightarrow> int \<Rightarrow> int" where
  "watermark deferred wanted attempted [] reached blocked = min reached blocked"
| "watermark deferred wanted attempted (s # rest) reached blocked =
     (if unresolved deferred wanted attempted s
      then watermark deferred wanted attempted rest reached (min blocked (summary_key s))
      else watermark deferred wanted attempted rest (max reached (summary_key s)) blocked)"

lemma watermark_le_blocked: "watermark d wanted a log reached blocked \<le> blocked"
  by (induction d wanted a log reached blocked rule: watermark.induct) (auto intro: order_trans)

lemma watermark_blocked:
  "s \<in> set log \<Longrightarrow> unresolved d wanted a s \<Longrightarrow> watermark d wanted a log reached blocked \<le> summary_key s"
proof (induction d wanted a log reached blocked rule: watermark.induct)
  case (2 d wanted a s' rest reached blocked)
  then show ?case
    using watermark_le_blocked[of d wanted a rest reached "min blocked (summary_key s')"] by auto
qed simp

lemma watermark_resolved:
  assumes "\<And>s. s \<in> set log \<Longrightarrow> \<not> unresolved d wanted a s" and "reached \<le> blocked"
    and "\<And>s. s \<in> set log \<Longrightarrow> summary_key s \<le> blocked"
  shows "watermark d wanted a log reached blocked = Max (insert reached (summary_key ` set log))"
  using assms
proof (induction log arbitrary: reached)
  case (Cons s log)
  have "Max (insert (max reached (summary_key s)) (summary_key ` set log))
      = Max (insert reached (insert (summary_key s) (summary_key ` set log)))"
    by (cases "log = []") (simp_all add: max.assoc)
  with Cons show ?case by simp
qed simp

context summary_workspace
begin

lemma watermark_page_refines:
  assumes "inv w" and "watermark_page ops wanted attempted page cursor reached blocked w = Inr (c', reached', blocked', w')"
  shows "inv w' \<and> keys w' = keys w \<and> absw w' = absw w
    \<and> c' = (if page = [] then cursor else fst (last page))
    \<and> (\<forall>rest. watermark (mw_deferred (absw w)) wanted attempted (map snd page @ rest) reached blocked
              = watermark (mw_deferred (absw w)) wanted attempted rest reached' blocked')"
  using assms
proof (induction page arbitrary: cursor reached blocked w)
  case Nil
  then show ?case by simp
next
  case (Cons e page)
  obtain nxt s where e: "e = (nxt, s)" by (cases e)
  from Cons.prems obtain d w1 where one: "wo_is_deferred ops (s_item_id s) w = Inr (d, w1)"
    by (auto simp: e res_bind_Inr_iff)
  note w1 = is_deferred[OF Cons.prems(1) one]
  have un: "unresolved (mw_deferred (absw w)) wanted attempted s \<longleftrightarrow>
      d \<or> fm_contains wanted (s_item_id s) \<and> s_item_id s |\<notin>| attempted"
    using w1 by (simp add: unresolved_def)
  show ?case
  proof (cases "unresolved (mw_deferred (absw w)) wanted attempted s")
    case True
    with Cons.prems un have "watermark_page ops wanted attempted page nxt reached (min blocked (summary_key s)) w1
        = Inr (c', reached', blocked', w')"
      by (simp add: e one)
    from Cons.IH[OF _ this] w1 True show ?thesis by (simp add: e)
  next
    case False
    with Cons.prems un have "watermark_page ops wanted attempted page nxt (max reached (summary_key s)) blocked w1
        = Inr (c', reached', blocked', w')"
      by (auto simp: e one split: if_splits)
    from Cons.IH[OF _ this] w1 False show ?thesis by (simp add: e)
  qed
qed

lemma watermark_loop_refines:
  assumes "inv w"
  shows "\<exists>result. watermark_loop ops wanted attempted cursor reached blocked w = Some result
    \<and> (\<forall>t. result = Inr t \<longrightarrow> t = watermark (mw_deferred (absw w)) wanted attempted
          (map snd (rows_after (keys w) (mw_remote (absw w)) cursor)) reached blocked)"
  using assms
proof (induction "length (rows_after (keys w) (mw_remote (absw w)) cursor)"
    arbitrary: cursor reached blocked w rule: less_induct)
  case less
  let ?rows = "rows_after (keys w) (mw_remote (absw w)) cursor"
  show ?case
  proof (cases "wo_remote_page ops cursor 256 w")
    case (Inl e)
    then show ?thesis by (simp add: watermark_loop.simps)
  next
    case (Inr p)
    obtain page w1 where p: "p = (page, w1)" by (cases p)
    with Inr have one: "wo_remote_page ops cursor 256 w = Inr (page, w1)" by simp
    from remote_page[OF less.prems one] have w1: "inv w1" "absw w1 = absw w" "keys w1 = keys w"
      and page: "page = take 256 ?rows" by (auto simp: page_of_def rows_after_def)
    show ?thesis
    proof (cases "page = []")
      case True
      then have "?rows = []" using page by simp
      with True one w1 show ?thesis by (simp add: watermark_loop.simps)
    next
      case False
      show ?thesis
      proof (cases "watermark_page ops wanted attempted page cursor reached blocked w1")
        case (Inl e)
        with False one show ?thesis by (simp add: watermark_loop.simps)
      next
        case (Inr q)
        obtain c' r' b' w2 where q: "q = (c', r', b', w2)" by (cases q)
        with Inr have two: "watermark_page ops wanted attempted page cursor reached blocked w1 = Inr (c', r', b', w2)"
          by simp
        note w2 = watermark_page_refines[OF w1(1) two, unfolded w1(2,3)]
        have drop: "rows_after (keys w) (mw_remote (absw w)) c' = drop 256 ?rows"
          using rows_after_next[of "keys w" 256 "mw_remote (absw w)" cursor] keys_ok[OF less.prems] False w2
          by (simp add: page)
        have "length (drop 256 ?rows) < length ?rows" using False page by (cases ?rows) auto
        then obtain result where result: "watermark_loop ops wanted attempted c' r' b' w2 = Some result"
          "\<forall>t. result = Inr t \<longrightarrow> t = watermark (mw_deferred (absw w)) wanted attempted
             (map snd (drop 256 ?rows)) r' b'"
          using less.hyps[of w2 c' r' b'] w2 drop by auto
        moreover have "watermark_loop ops wanted attempted cursor reached blocked w = Some result"
          using False one two result(1) by (simp add: watermark_loop.simps[of ops wanted attempted cursor])
        moreover have "map snd ?rows = map snd page @ map snd (drop 256 ?rows)"
          by (simp only: page map_append[symmetric] append_take_drop_id)
        ultimately show ?thesis using w2 by auto
      qed
    qed
  qed
qed

lemma workspace_watermark_refines:
  assumes "inv w"
  shows "\<exists>result. workspace_watermark previous ops wanted attempted w = Some result
    \<and> (\<forall>t. result = Inr t \<longrightarrow> t = watermark (mw_deferred (absw w)) wanted attempted
          (mw_remote (absw w)) previous i64_max)"
  using watermark_loop_refines[OF assms, of wanted attempted 0 previous i64_max] keys_ok[OF assms]
  by (simp add: workspace_watermark_def rows_after_0)

lemma plan_workspace_refines:
  assumes "inv w"
  shows "\<exists>result. plan_workspace ops now st w = Some result
    \<and> (mw_wanted (absw w) = fmempty \<longrightarrow> (\<forall>wanted st' w'. result = Inr (wanted, st', w') \<longrightarrow>
          inv w' \<and> plan_ok (i64_saturating_add now max_future_skew_ms) (absw w) wanted (absw w')))"
proof -
  let ?ceil = "i64_saturating_add now max_future_skew_ms"
  have rows: "map snd (rows_after (keys w) (mw_remote (absw w)) 0) = mw_remote (absw w)"
    using keys_ok[OF assms] by (simp add: rows_after_0)
  from plan_loop_refines[OF assms, of ?ceil 0 st, unfolded rows] obtain result where
    loop: "plan_loop ops ?ceil 0 st w = Some result"
    "\<And>st' w'. result = Inr (st', w') \<Longrightarrow> inv w'
       \<and> (st', absw w') = fold (plan_one ?ceil) (mw_remote (absw w)) (st, absw w)" by blast
  show ?thesis
  proof (cases result)
    case (Inl e)
    with loop(1) show ?thesis by (simp add: plan_workspace_def)
  next
    case (Inr q)
    obtain st1 w1 where q: "q = (st1, w1)" by (cases q)
    with loop(2) Inr have w1: "inv w1"
      "absw w1 = snd (fold (plan_one ?ceil) (mw_remote (absw w)) (st, absw w))"
      by (simp, metis snd_conv)
    have "inv w' \<and> plan_ok ?ceil (absw w) wanted (absw w')"
      if fresh: "mw_wanted (absw w) = fmempty" and fin: "plan_finish ops st1 w1 = Inr (wanted, st', w')" for wanted st' w'
    proof -
      from fin obtain kept dropped where kept: "wo_finish_plan ops max_request_ids_per_message w1 = Inr ((kept, dropped), w')"
        "wanted = collect_by_id kept" by (auto simp: plan_finish_def res_bind_Inr_iff)
      from finish_plan[OF w1(1) kept(1)] obtain rest where
        rest: "splits_newest (mw_wanted (absw w1)) max_request_ids_per_message kept rest" "inv w'"
        "absw w' = (absw w1)\<lparr>mw_deferred := mw_deferred (absw w1) |\<union>| fset_of_list (map s_item_id rest)\<rparr>"
        by blast
      have "by_id (mw_wanted (absw w1))" using ids_ok[OF w1(1)] by blast
      from plan_ok_intro[OF w1(2) fresh rest(1,3) this] rest(2) show ?thesis by (simp add: kept(2))
    qed
    with loop(1) Inr q show ?thesis by (simp add: plan_workspace_def)
  qed
qed

end

text \<open>On a workspace that cannot fail, neither can planning or the watermark.\<close>

context reliable_workspace
begin

lemma plan_page_ok: "inv w \<Longrightarrow> \<exists>v. plan_page ops ceil page cursor st w = Inr v"
proof (induction page arbitrary: cursor st w)
  case (Cons e page)
  obtain nxt r where e: "e = (nxt, r)" by (cases e)
  obtain w1 wins w2 where w1: "wo_defer ops (s_item_id r) w = Inr w1"
    and w2: "wo_remote_wins ops r w = Inr (wins, w2)"
    using defer_id_ok[OF Cons.prems] remote_wins_ok[OF Cons.prems] by (metis surj_pair)
  moreover have "inv w1" "inv w2"
    using defer_id[OF Cons.prems w1] remote_wins[OF Cons.prems w2] by simp_all
  moreover obtain taken w3 where w3: "wo_consider_wanted ops r w2 = Inr (taken, w3)"
    using consider_wanted_ok[OF \<open>inv w2\<close>] by (metis surj_pair)
  moreover have "inv w3" using consider_wanted[OF \<open>inv w2\<close> w3] by simp
  ultimately show ?case using Cons.IH by (simp add: e)
qed simp

lemma plan_loop_ok:
  assumes "plan_loop ops ceil cursor st w = Some result" and "inv w"
  shows "\<exists>v. result = Inr v"
  using assms
proof (induction "length (rows_after (keys w) (mw_remote (absw w)) cursor)" arbitrary: cursor st w rule: less_induct)
  case less
  let ?rows = "rows_after (keys w) (mw_remote (absw w)) cursor"
  obtain page w1 where one: "wo_remote_page ops cursor 256 w = Inr (page, w1)"
    using remote_page_ok[OF less.prems(2)] by (metis surj_pair)
  from remote_page[OF less.prems(2) one] have w1: "inv w1" "absw w1 = absw w" "keys w1 = keys w"
    and page: "page = take 256 ?rows" by (auto simp: page_of_def rows_after_def)
  obtain c' st' w2 where two: "plan_page ops ceil page cursor st w1 = Inr (c', st', w2)"
    using plan_page_ok[OF w1(1)] by (metis surj_pair)
  show ?case
  proof (cases "page = []")
    case True
    with less.prems(1) one show ?thesis by (auto simp: plan_loop.simps[of ops ceil cursor])
  next
    case False
    note w2 = plan_page_refines[OF w1(1) two]
    have remote: "mw_remote (absw w2) = mw_remote (absw w)"
      using plan_fold_keeps(1)[of ceil "map snd page" st "absw w"] w2 w1(2) by (metis snd_conv)
    have "rows_after (keys w) (mw_remote (absw w)) c' = drop 256 ?rows"
      using rows_after_next[of "keys w" 256 "mw_remote (absw w)" cursor] keys_ok[OF less.prems(2)] False w2
      by (simp add: page)
    moreover have "length (drop 256 ?rows) < length ?rows" using False page by (cases ?rows) auto
    moreover have "plan_loop ops ceil c' st' w2 = Some result"
      using less.prems(1) False one two by (simp add: plan_loop.simps[of ops ceil cursor])
    ultimately show ?thesis using less.hyps[of w2 c' st'] w2 w1 remote by simp
  qed
qed

lemma plan_workspace_ok:
  assumes "inv w" and "mw_wanted (absw w) = fmempty"
  shows "\<exists>wanted st' w'. plan_workspace ops now st w = Some (Inr (wanted, st', w')) \<and> inv w'
    \<and> plan_ok (i64_saturating_add now max_future_skew_ms) (absw w) wanted (absw w')"
proof -
  let ?ceil = "i64_saturating_add now max_future_skew_ms"
  from plan_loop_refines[OF assms(1), of ?ceil 0 st] obtain result where
    loop: "plan_loop ops ?ceil 0 st w = Some result"
    "\<And>st' w'. result = Inr (st', w') \<Longrightarrow> inv w'" by blast
  from plan_loop_ok[OF loop(1) assms(1)] obtain st1 w1 where "result = Inr (st1, w1)" by auto
  moreover obtain kept dropped w2 where "wo_finish_plan ops max_request_ids_per_message w1 = Inr ((kept, dropped), w2)"
    using finish_plan_ok[of w1] loop(2) calculation by (metis surj_pair)
  ultimately have "\<exists>v. plan_workspace ops now st w = Some (Inr v)"
    using loop(1) by (simp add: plan_workspace_def plan_finish_def)
  then show ?thesis using plan_workspace_refines[OF assms(1), of now st] assms(2) by fastforce
qed

end

context hash_order
begin

lemmas memory_plan = memory.plan_workspace_ok
lemmas memory_watermark = memory.workspace_watermark_refines

end

text \<open>What the watermark may step over.\<close>

lemma version_resolved:
  assumes "plan_ok ceil m wanted m'"
    and "t = watermark (mw_deferred m') wanted attempted (mw_remote m') previous i64_max"
    and "r \<in> set (mw_remote m)" and "summary_key r < t"
  shows "summary_key r \<le> ceil \<and> (\<not> eligible ceil (mw_comparison m) r
     \<or> s_item_id r |\<in>| attempted
        \<and> (\<exists>s. fmlookup wanted (s_item_id r) = Some s \<and> content_key r \<le> content_key s))"
proof -
  from assms(1) have same: "mw_remote m' = mw_remote m" by (simp add: plan_ok_def)
  have "\<not> unresolved (mw_deferred m') wanted attempted r"
    using watermark_blocked[of r "mw_remote m'" "mw_deferred m'" wanted attempted previous i64_max]
      assms(2-4) same by auto
  then have d: "s_item_id r |\<notin>| mw_deferred m'"
    and a: "fm_contains wanted (s_item_id r) \<Longrightarrow> s_item_id r |\<in>| attempted"
    by (auto simp: unresolved_def)
  have ceil: "summary_key r \<le> ceil"
    using assms(1,3) d by (force simp: plan_ok_def not_less[symmetric])
  show ?thesis
  proof (cases "eligible ceil (mw_comparison m) r")
    case True
    then have "fm_contains wanted (s_item_id r)" using assms(1,3) d by (auto simp: plan_ok_def)
    then obtain s where "fmlookup wanted (s_item_id r) = Some s" by (auto simp: fm_contains_def)
    with True a ceil assms(1,3) show ?thesis by (fastforce simp: plan_ok_def fm_contains_def)
  qed (use ceil in simp)
qed

section \<open>Properties\<close>

text \<open>
  C31: planning is right and ends. From a fresh plan, whatever the peer's log and whatever the
  iteration order of the maps, the plan of the in-memory workspace is computed, asks for at most
  a thousand ids, asks only for versions the peer offered that are within the clock ceiling and
  win against the local row, asks for the best version of each such id, and either asks for an
  offered winner or defers its id; it leaves none out while there is room, and where there is not,
  no version it leaves out is newer than one it asks for.
\<close>

theorem plan_is_right:
  assumes "\<And>m. mset (order m) = mset (fm_values m)"
    and "mem_inv w" and "mw_wanted w = fmempty"
  shows "\<exists>wanted stats' w'. plan_workspace (memory_ops order) now stats w = Some (Inr (wanted, stats', w'))
     \<and> plan_ok (i64_saturating_add now max_future_skew_ms) w wanted w'"
proof -
  from assms(1) have "hash_order order" by unfold_locales
  from hash_order.memory_plan[OF this assms(2,3), of now stats] show ?thesis by blast
qed

definition demo_log :: memory_workspace where
  "demo_log = memory_workspace_default\<lparr>mw_remote := [demo_summary ''a'' 5, demo_summary ''a'' 9],
     mw_comparison := fmupd ''a'' (demo_summary ''a'' 5) fmempty\<rparr>"

lemma demo_log_inv: "mem_inv demo_log" "mw_wanted demo_log = fmempty"
  by (simp_all add: demo_log_def mem_inv_def by_id_def memory_workspace_default_def demo_summary_def)

theorem plan_is_right_witness:
  "\<exists>wanted stats' w'. plan_workspace (memory_ops fm_values) 0 sync_stats_default demo_log = Some (Inr (wanted, stats', w'))
     \<and> plan_ok (i64_saturating_add 0 max_future_skew_ms) demo_log wanted w'
     \<and> fm_contains wanted ''a''"
proof -
  have "\<exists>wanted stats' w'. plan_workspace (memory_ops fm_values) 0 sync_stats_default demo_log = Some (Inr (wanted, stats', w'))
     \<and> plan_ok (i64_saturating_add 0 max_future_skew_ms) demo_log wanted w'"
    by (rule plan_is_right[OF refl demo_log_inv])
  moreover have "fm_contains wanted ''a''"
    if "plan_ok (i64_saturating_add 0 max_future_skew_ms) demo_log wanted w'" for wanted w'
  proof -
    have "eligible (i64_saturating_add 0 max_future_skew_ms) (mw_comparison demo_log) (demo_summary ''a'' 9)"
      "demo_summary ''a'' 9 \<in> set (mw_remote demo_log)"
      by (simp_all add: eligible_def demo_log_def demo_summary_def summary_key_def remote_version_wins_def
          merge_decision_by_summary_def merge_decision_def decide_def cmp_def i64_saturating_add_def
          max_future_skew_ms_def i64_max_def i64_min_def memory_workspace_default_def)
    moreover have "fm_len wanted < max_request_ids_per_message"
    proof (rule ccontr)
      assume "\<not> fm_len wanted < max_request_ids_per_message"
      then have "fm_len wanted \<ge> 1000" by (simp add: max_request_ids_per_message_def)
      moreover have "\<forall>s \<in> set (mw_remote demo_log). s_item_id s = ''a''"
        by (simp add: demo_log_def demo_summary_def)
      moreover have "\<forall>k s. fmlookup wanted k = Some s \<longrightarrow> s \<in> set (mw_remote demo_log) \<and> s_item_id s = k"
        using that unfolding plan_ok_def by blast
      ultimately have "fset (fmdom wanted) \<subseteq> {''a''}" "fm_len wanted \<ge> 1000"
        by (fastforce simp: fmlookup_dom_iff)+
      then have "card (fset (fmdom wanted)) \<le> card {''a''}" by (intro card_mono) simp_all
      then have "fm_len wanted \<le> 1" by (simp add: fm_len_def fcard.rep_eq)
      with \<open>fm_len wanted \<ge> 1000\<close> show False by simp
    qed
    ultimately show ?thesis using that by (auto simp: plan_ok_def demo_summary_def)
  qed
  ultimately show ?thesis by blast
qed

text \<open>
  C32: the paged watermark is the watermark of the whole log, on every workspace that keeps its
  contract, whatever its pages and positions: the loop ends, and unless storage fails its
  answer is the one a single pass over the remote log gives.
\<close>

theorem paged_watermark_agrees:
  assumes "summary_workspace ops absw keys good" and "good w"
  shows "\<exists>result. workspace_watermark previous ops wanted attempted w = Some result
     \<and> (\<forall>t. result = Inr t \<longrightarrow>
          t = watermark (mw_deferred (absw w)) wanted attempted (mw_remote (absw w)) previous i64_max)"
  by (rule summary_workspace.workspace_watermark_refines[OF assms])

theorem paged_watermark_agrees_witness:
  "\<exists>result. workspace_watermark 3 (memory_ops fm_values) fmempty {||} demo_log = Some result
     \<and> (result = Inr 9 \<or> (\<exists>e. result = Inl e))"
proof -
  have "summary_workspace (memory_ops fm_values) (\<lambda>w. w) (\<lambda>w. [1..<length (mw_remote w) + 1]) mem_inv"
    by (rule key_order.memory.summary_workspace_axioms)
  from paged_watermark_agrees[OF this demo_log_inv(1), of 3 fmempty "{||}"]
  obtain result where "workspace_watermark 3 (memory_ops fm_values) fmempty {||} demo_log = Some result"
    "\<forall>t. result = Inr t \<longrightarrow> t = watermark (mw_deferred demo_log) fmempty {||} (mw_remote demo_log) 3 i64_max"
    by blast
  moreover have "watermark (mw_deferred demo_log) fmempty {||} (mw_remote demo_log) 3 i64_max = 9"
    by (simp add: demo_log_def demo_summary_def unresolved_def summary_key_def memory_workspace_default_def i64_max_def)
  ultimately show ?thesis by (cases result) auto
qed

text \<open>
  The cursor never passes work that is not done. When a plan was made and the session
  attempted some ids, a version in the peer's log below the resulting watermark is either one the
  local row already beats, or its id was asked for and attempted in a version at least as good;
  so nothing the peer offered and this device still needs is left behind the cursor.
\<close>

theorem no_version_is_left_behind:
  assumes "plan_ok ceil m wanted m'"
    and "t = watermark (mw_deferred m') wanted attempted (mw_remote m') previous i64_max"
    and "r \<in> set (mw_remote m)" and "summary_key r < t"
  shows "summary_key r \<le> ceil \<and> (\<not> eligible ceil (mw_comparison m) r
     \<or> s_item_id r |\<in>| attempted
        \<and> (\<exists>s. fmlookup wanted (s_item_id r) = Some s \<and> content_key r \<le> content_key s))"
  by (rule version_resolved[OF assms])

theorem no_version_is_left_behind_witness:
  "let r = demo_summary ''a'' 9; m = memory_workspace_default\<lparr>mw_remote := [r]\<rparr>;
       wanted = fmupd ''a'' r fmempty
   in summary_key r \<le> 100 \<and> (\<not> eligible 100 (mw_comparison m) r
      \<or> s_item_id r |\<in>| {|''a''|}
         \<and> (\<exists>s. fmlookup wanted (s_item_id r) = Some s \<and> content_key r \<le> content_key s))"
proof -
  define r where "r = demo_summary ''a'' 9"
  define m where "m = memory_workspace_default\<lparr>mw_remote := [r]\<rparr>"
  define wanted where "wanted = fmupd ''a'' r fmempty"
  have el: "eligible 100 (mw_comparison m) r"
    by (simp add: eligible_def m_def r_def demo_summary_def memory_workspace_default_def summary_key_def)
  have plan: "plan_ok 100 m wanted (m\<lparr>mw_wanted := wanted\<rparr>)"
    unfolding plan_ok_def using el
    by (auto simp: m_def wanted_def r_def demo_summary_def memory_workspace_default_def fm_len_upd
        max_request_ids_per_message_def summary_key_def split: if_splits)
  have "watermark (mw_deferred m) wanted {|''a''|} (mw_remote m) 20 i64_max = 20"
    by (simp add: m_def r_def unresolved_def memory_workspace_default_def demo_summary_def summary_key_def
        i64_max_def wanted_def)
  then show ?thesis
    using no_version_is_left_behind[OF plan refl, of r "{|''a''|}" 20]
    unfolding Let_def r_def[symmetric] m_def[symmetric] wanted_def[symmetric]
    by (simp add: m_def r_def demo_summary_def summary_key_def)
qed

end
