(* ===== verification/Session.thy ===== *)
theory Session
  imports Plan Codec_Props
begin

text \<open>
  One complete sync session: \<open>crates/copypaste-p2p/src/sync/session.rs\<close>, \<open>summary.rs\<close>,
  \<open>transfer.rs\<close>, \<open>application.rs\<close> and the traits of \<open>source.rs\<close>.

  A session runs against a world: the channel and the state of the local store. The channel is
  what the peer does in this run, as the list of what \<open>recv\<close> answers (a message or a failure) and
  the failures of \<open>send\<close>, with the messages sent so far; a theorem about every channel is a
  theorem about every peer. The store is any record \<open>source\<close> of operations on a state, the
  trait \<open>SyncSource\<close>. A step returns an error or a value together with the world, so that what
  happened before an error stays visible, and \<^const>\<open>None\<close> when it does not return.
  \<open>workspace_call\<close> moves an operation to another thread; a thread that dies is an operation of
  the workspace that fails.
\<close>

section \<open>The world\<close>

record channel =
  ch_in :: "(sync_error + sync_message) list"
  ch_out :: "sync_message list"
  ch_fault :: "nat \<Rightarrow> sync_error option"

record 'st world =
  wd_chan :: channel
  wd_store :: 'st

type_synonym ('st, 'a) act = "'st world \<Rightarrow> ((sync_error + 'a) \<times> 'st world) option"

definition ret :: "'a \<Rightarrow> ('st, 'a) act" where
  "ret a s = Some (Inr a, s)"

definition lift :: "sync_error + 'a \<Rightarrow> ('st, 'a) act" where
  "lift r s = Some (r, s)"

definition bind_act :: "('st, 'a) act \<Rightarrow> ('a \<Rightarrow> ('st, 'b) act) \<Rightarrow> ('st, 'b) act" where
  "bind_act m f s =
     (case m s of
        None \<Rightarrow> None
      | Some (Inl e, s') \<Rightarrow> Some (Inl e, s')
      | Some (Inr a, s') \<Rightarrow> f a s')"

text \<open>\<open>SyncChannel\<close>: \<open>recv\<close> reports an error when the peer is gone rather than wait for ever.\<close>

definition send :: "sync_message \<Rightarrow> ('st, unit) act" where
  "send m s =
     (case ch_fault (wd_chan s) (length (ch_out (wd_chan s))) of
        Some e \<Rightarrow> Some (Inl e, s)
      | None \<Rightarrow> Some (Inr (), s\<lparr>wd_chan := (wd_chan s)\<lparr>ch_out := ch_out (wd_chan s) @ [m]\<rparr>\<rparr>))"

definition recv :: "('st, sync_message) act" where
  "recv s =
     (case ch_in (wd_chan s) of
        [] \<Rightarrow> Some (Inl (Channel ''closed''), s)
      | Inl e # rest \<Rightarrow> Some (Inl e, s\<lparr>wd_chan := (wd_chan s)\<lparr>ch_in := rest\<rparr>\<rparr>)
      | Inr m # rest \<Rightarrow> Some (Inr m, s\<lparr>wd_chan := (wd_chan s)\<lparr>ch_in := rest\<rparr>\<rparr>))"

definition stored :: "('st \<Rightarrow> (sync_error + 'a) \<times> 'st) \<Rightarrow> ('st, 'a) act" where
  "stored f s = (case f (wd_store s) of (r, st) \<Rightarrow> Some (r, s\<lparr>wd_store := st\<rparr>))"

text \<open>\<open>msg.validate()?\<close>\<close>

definition check_message :: "wire \<Rightarrow> sync_message \<Rightarrow> ('st, unit) act" where
  "check_message w m = lift (case validate w m of Inl e \<Rightarrow> Inl (Protocol e) | Inr u \<Rightarrow> Inr u)"

section \<open>The local store\<close>

record ('st, 'w) source =
  so_device_id :: string
  so_device_name :: string
  so_device_profile :: device_profile
  so_summary_workspace :: "'st \<Rightarrow> (sync_error + 'w) \<times> 'st"
  so_summary_page :: "int \<Rightarrow> string option \<Rightarrow> nat \<Rightarrow> 'st \<Rightarrow> (sync_error + item_summary list) \<times> 'st"
  so_local_summaries :: "string list \<Rightarrow> 'st \<Rightarrow> (sync_error + item_summary list) \<times> 'st"
  so_fetch :: "string list \<Rightarrow> 'st \<Rightarrow> (sync_error + sync_item list) \<times> 'st"
  so_apply_batch :: "sync_item list \<Rightarrow> 'st \<Rightarrow> (sync_error + bool list) \<times> 'st"

text \<open>The provided methods \<open>apply_batch\<close> and \<open>summary_page\<close>.\<close>

fun default_apply_batch ::
  "(sync_item \<Rightarrow> 'st \<Rightarrow> (sync_error + bool) \<times> 'st) \<Rightarrow> sync_item list \<Rightarrow> 'st \<Rightarrow> (sync_error + bool list) \<times> 'st" where
  "default_apply_batch apply_one [] st = (Inr [], st)"
| "default_apply_batch apply_one (item # items) st =
     (case apply_one item st of
        (Inl e, st) \<Rightarrow> (Inl e, st)
      | (Inr b, st) \<Rightarrow>
          (case default_apply_batch apply_one items st of
             (Inl e, st) \<Rightarrow> (Inl e, st)
           | (Inr bs, st) \<Rightarrow> (Inr (b # bs), st)))"

fun position_after :: "string \<Rightarrow> item_summary list \<Rightarrow> nat" where
  "position_after k [] = 0"
| "position_after k (s # rest) = (if s_item_id s = k then 1 else Suc (position_after k rest))"

definition default_summary_page :: "item_summary list \<Rightarrow> string option \<Rightarrow> nat \<Rightarrow> item_summary list" where
  "default_summary_page all after_id limit =
     take limit (drop (case after_id of None \<Rightarrow> 0 | Some k \<Rightarrow> position_after k all) all)"

record sync_cursor =
  cu_since_ms :: int
  cu_relay_floor_ms :: "int option"

definition advertise_from :: "sync_cursor \<Rightarrow> int \<Rightarrow> int" where
  "advertise_from c peer_since_ms =
     max (case cu_relay_floor_ms c of None \<Rightarrow> peer_since_ms | Some fl \<Rightarrow> min fl peer_since_ms) 0"

record sync_outcome =
  oc_stats :: sync_stats
  oc_peer_device_id :: string
  oc_peer_device_name :: string
  oc_peer_profile :: "device_profile option"
  oc_peer_listen_addr :: "socket_addr option"
  oc_cursor :: sync_cursor
  oc_applied_floor :: "int option"

text \<open>
  What else a session depends on: the wire, the workspace, the clock, and the order in which a
  hash map lists its keys.
\<close>

record 'w env =
  en_wire :: wire
  en_ops :: "'w workspace_ops"
  en_now :: int
  en_key_order :: "summaries \<Rightarrow> string list"

section \<open>Exchanging summaries\<close>

definition receive_page :: "'w env \<Rightarrow> ('st, item_summary list \<times> bool) act" where
  "receive_page env =
     bind_act recv (\<lambda>m. bind_act (check_message (en_wire env) m) (\<lambda>_.
       case m of
         Summary items has_more \<Rightarrow> ret (items, has_more)
       | other \<Rightarrow> lift (Inl (Unexpected ''summary'' (kind other)))))"

definition next_page ::
  "('st, 'w) source \<Rightarrow> int \<Rightarrow> string option \<Rightarrow> ('st, item_summary list \<times> bool) act" where
  "next_page src since_ms after_id =
     bind_act (stored (so_summary_page src since_ms after_id (max_summaries_per_message + 1))) (\<lambda>items.
       ret (take max_summaries_per_message items, length items > max_summaries_per_message))"

fun exchange_loop ::
  "'w env \<Rightarrow> ('st, 'w) source \<Rightarrow> bool \<Rightarrow> nat \<Rightarrow> int \<Rightarrow> string option \<Rightarrow> 'w \<Rightarrow> ('st, 'w) act" where
  "exchange_loop env src initiator 0 cursor_ms after_id ws = lift (Inl TooManySummaryPages)"
| "exchange_loop env src initiator (Suc n) cursor_ms after_id ws =
     bind_act (if initiator then ret None else bind_act (receive_page env) (\<lambda>p. ret (Some p))) (\<lambda>peer_first.
     bind_act (next_page src cursor_ms after_id) (\<lambda>(items, has_more).
     bind_act (lift (wo_add_advertised (en_ops env) items ws)) (\<lambda>ws.
     bind_act (send (Summary items has_more)) (\<lambda>_.
     bind_act (case peer_first of Some p \<Rightarrow> ret p | None \<Rightarrow> receive_page env) (\<lambda>(peer_items, peer_more).
     bind_act (stored (so_local_summaries src (map s_item_id peer_items))) (\<lambda>comparison.
     bind_act (lift (wo_add_comparison (en_ops env) comparison ws)) (\<lambda>ws.
     bind_act (lift (wo_add_remote (en_ops env) peer_items ws)) (\<lambda>ws.
       if \<not> has_more \<and> \<not> peer_more then ret ws
       else exchange_loop env src initiator n
              (if items = [] then cursor_ms else summary_key (last items))
              (if items = [] then after_id else Some (s_item_id (last items))) ws))))))))"

definition exchange_workspace ::
  "'w env \<Rightarrow> ('st, 'w) source \<Rightarrow> int \<Rightarrow> 'w \<Rightarrow> bool \<Rightarrow> ('st, 'w) act" where
  "exchange_workspace env src since_ms ws initiator =
     exchange_loop env src initiator max_summary_pages_per_session since_ms None ws"

section \<open>Serving a request\<close>

definition receive_request :: "'w env \<Rightarrow> ('st, string list) act" where
  "receive_request env =
     bind_act recv (\<lambda>m. bind_act (check_message (en_wire env) m) (\<lambda>_.
       case m of
         Request item_ids \<Rightarrow> ret item_ids
       | other \<Rightarrow> lift (Inl (Unexpected ''request'' (kind other)))))"

fun allowed_ids :: "summaries \<Rightarrow> string fset \<Rightarrow> string list \<Rightarrow> string list" where
  "allowed_ids advertised seen [] = []"
| "allowed_ids advertised seen (k # ks) =
     (if \<not> fm_contains advertised k \<or> k |\<in>| seen then allowed_ids advertised seen ks
      else k # allowed_ids advertised (finsert k seen) ks)"

text \<open>\<open>slice::chunks\<close>.\<close>

function chunks :: "nat \<Rightarrow> 'a list \<Rightarrow> 'a list list" where
  "chunks n xs = (if xs = [] \<or> n = 0 then [] else take n xs # chunks n (drop n xs))"
  by pat_completeness auto
termination by (relation "measure (\<lambda>(n, xs). length xs)") auto

declare chunks.simps [simp del]

record serve_state =
  sv_batch :: "sync_item list"
  sv_bytes :: nat
  sv_unavailable :: "string fset"
  sv_stats :: sync_stats

text \<open>Sending the pending batch.\<close>

definition flush :: "serve_state \<Rightarrow> ('st, serve_state) act" where
  "flush sv =
     (let sv' = sv\<lparr>sv_stats := (sv_stats sv)\<lparr>st_sent := st_sent (sv_stats sv) + length (sv_batch sv)\<rparr>,
                   sv_batch := [], sv_bytes := 0\<rparr>
      in bind_act (send (Items (sv_batch sv))) (\<lambda>_. ret sv'))"

text \<open>The body of the loop over the items of one fetch.\<close>

definition serve_one :: "metadata_check \<Rightarrow> string list \<Rightarrow> sync_item \<Rightarrow> serve_state \<Rightarrow> ('st, serve_state) act" where
  "serve_one mo chunk item sv =
     (if i_item_id item \<notin> set chunk \<or> i_item_id item |\<notin>| sv_unavailable sv then ret sv
      else let item = (if i_deleted item then item\<lparr>i_content := [], i_binary_content := []\<rparr> else item);
               content_bytes = content_len item
           in if content_bytes > max_content_bytes
              then ret (sv\<lparr>sv_stats := (sv_stats sv)\<lparr>st_skipped := st_skipped (sv_stats sv) + 1,
                             st_skipped_too_large := st_skipped_too_large (sv_stats sv) + 1\<rparr>,
                           sv_unavailable := sv_unavailable sv |-| {|i_item_id item|}\<rparr>)
              else if (case validate_item mo item of Inl _ \<Rightarrow> True | Inr _ \<Rightarrow> False)
              then ret (sv\<lparr>sv_stats := (sv_stats sv)\<lparr>st_skipped_invalid := st_skipped_invalid (sv_stats sv) + 1\<rparr>\<rparr>)
              else let sv = sv\<lparr>sv_unavailable := sv_unavailable sv |-| {|i_item_id item|}\<rparr>;
                       message_bytes = usize_saturating_add content_bytes (metadata_len item)
                   in bind_act
                        (if sv_batch sv \<noteq> []
                            \<and> (length (sv_batch sv) = max_items_per_message
                               \<or> usize_saturating_add (sv_bytes sv) message_bytes > max_item_bytes_per_message)
                         then flush sv else ret sv) (\<lambda>sv.
                        ret (sv\<lparr>sv_bytes := sv_bytes sv + message_bytes, sv_batch := sv_batch sv @ [item]\<rparr>)))"

fun serve_fetched :: "metadata_check \<Rightarrow> string list \<Rightarrow> sync_item list \<Rightarrow> serve_state \<Rightarrow> ('st, serve_state) act" where
  "serve_fetched mo chunk [] sv = ret sv"
| "serve_fetched mo chunk (item # items) sv =
     bind_act (serve_one mo chunk item sv) (\<lambda>sv. serve_fetched mo chunk items sv)"

fun serve_chunks ::
  "metadata_check \<Rightarrow> ('st, 'w) source \<Rightarrow> string list list \<Rightarrow> serve_state \<Rightarrow> ('st, serve_state) act" where
  "serve_chunks mo src [] sv = ret sv"
| "serve_chunks mo src (chunk # rest) sv =
     bind_act (stored (so_fetch src chunk)) (\<lambda>items.
     bind_act (serve_fetched mo chunk items sv) (\<lambda>sv. serve_chunks mo src rest sv))"

definition serve_items ::
  "'w env \<Rightarrow> ('st, 'w) source \<Rightarrow> summaries \<Rightarrow> string list \<Rightarrow> sync_stats \<Rightarrow> ('st, sync_stats) act" where
  "serve_items env src advertised requested st =
     (let allowed = allowed_ids advertised {||} requested in
      bind_act (serve_chunks (w_metadata_ok (en_wire env)) src (chunks max_items_per_message allowed)
         \<lparr>sv_batch = [], sv_bytes = 0, sv_unavailable = fset_of_list allowed, sv_stats = st\<rparr>) (\<lambda>sv.
      bind_act (if sv_batch sv \<noteq> [] then flush sv else ret sv) (\<lambda>sv.
        let n = fcard (sv_unavailable sv);
            st = (sv_stats sv)\<lparr>st_skipped := st_skipped (sv_stats sv) + n,
                               st_skipped_unavailable := st_skipped_unavailable (sv_stats sv) + n\<rparr>
        in bind_act (send Done) (\<lambda>_. ret st))))"

section \<open>Applying what arrives\<close>

definition plaintext_content_hash :: "wire \<Rightarrow> bytes \<Rightarrow> string" where
  "plaintext_content_hash w content = c_hex_encode (w_crypto w) (c_sha256 (w_crypto w) content)"

record receive_state =
  rv_applied :: "string fset"
  rv_received :: "string fset"
  rv_floor :: "int option"
  rv_stats :: sync_stats

definition drop_invalid :: "receive_state \<Rightarrow> receive_state" where
  "drop_invalid rv = rv\<lparr>rv_stats := (rv_stats rv)\<lparr>st_skipped := st_skipped (rv_stats rv) + 1,
     st_skipped_invalid := st_skipped_invalid (rv_stats rv) + 1\<rparr>\<rparr>"

text \<open>The body of the loop over one \<open>Items\<close> message: the batch to apply, with its stamps.\<close>

definition accept_one ::
  "wire \<Rightarrow> summaries \<Rightarrow> sync_item \<Rightarrow> receive_state \<times> sync_item list \<times> int list
   \<Rightarrow> receive_state \<times> sync_item list \<times> int list" where
  "accept_one w wanted item acc =
     (case acc of (rv, batch, marks) \<Rightarrow>
       case fmlookup wanted (i_item_id item) of
         None \<Rightarrow> (drop_invalid rv, batch, marks)
       | Some promised \<Rightarrow>
           let rv = rv\<lparr>rv_received := finsert (i_item_id item) (rv_received rv)\<rparr> in
           if \<not> summary_eq (summary item) promised then (drop_invalid rv, batch, marks)
           else if \<not> i_deleted item
                   \<and> plaintext_content_hash w (fst (payload item)) \<noteq> i_content_hash item
           then (drop_invalid rv, batch, marks)
           else if i_item_id item |\<in>| rv_applied rv
           then (rv\<lparr>rv_stats := skip (rv_stats rv)\<rparr>, batch, marks)
           else let rv = rv\<lparr>rv_applied := finsert (i_item_id item) (rv_applied rv)\<rparr>;
                    item = (if i_deleted item then item\<lparr>i_content := []\<rparr> else item)
                in (rv, batch @ [item], marks @ [summary_key (summary item)]))"

fun accept_all ::
  "wire \<Rightarrow> summaries \<Rightarrow> sync_item list \<Rightarrow> receive_state \<times> sync_item list \<times> int list
   \<Rightarrow> receive_state \<times> sync_item list \<times> int list" where
  "accept_all w wanted [] acc = acc"
| "accept_all w wanted (item # items) acc = accept_all w wanted items (accept_one w wanted item acc)"

fun tally :: "(bool \<times> int) list \<Rightarrow> receive_state \<Rightarrow> receive_state" where
  "tally [] rv = rv"
| "tally ((was_stored, stamp) # rest) rv =
     tally rest
       (if was_stored
        then rv\<lparr>rv_stats := (rv_stats rv)\<lparr>st_received := st_received (rv_stats rv) + 1\<rparr>,
                rv_floor := Some (case rv_floor rv of None \<Rightarrow> stamp | Some low \<Rightarrow> min low stamp)\<rparr>
        else rv\<lparr>rv_stats := skip (rv_stats rv)\<rparr>)"

fun receive_loop ::
  "'w env \<Rightarrow> ('st, 'w) source \<Rightarrow> summaries \<Rightarrow> nat \<Rightarrow> receive_state \<Rightarrow> ('st, receive_state) act" where
  "receive_loop env src wanted 0 rv = lift (Inl PeerOverran)"
| "receive_loop env src wanted (Suc budget) rv =
     bind_act recv (\<lambda>m. bind_act (check_message (en_wire env) m) (\<lambda>_.
       case m of
         Items items \<Rightarrow>
           (case accept_all (en_wire env) wanted items (rv, [], []) of (rv, batch, marks) \<Rightarrow>
              if batch = [] then receive_loop env src wanted budget rv
              else bind_act (stored (so_apply_batch src batch)) (\<lambda>outcomes.
                     receive_loop env src wanted budget (tally (zip outcomes marks) rv)))
       | Done \<Rightarrow>
           ret (rv\<lparr>rv_stats := (rv_stats rv)\<lparr>
             st_skipped_unavailable := st_skipped_unavailable (rv_stats rv) + (fm_len wanted - fcard (rv_applied rv)),
             st_skipped := st_skipped (rv_stats rv) + (fm_len wanted - fcard (rv_received rv))\<rparr>\<rparr>)
       | other \<Rightarrow> lift (Inl (Unexpected ''items'' (kind other)))))"

definition receive_items ::
  "'w env \<Rightarrow> ('st, 'w) source \<Rightarrow> summaries \<Rightarrow> sync_stats \<Rightarrow> ('st, receive_state) act" where
  "receive_items env src wanted st =
     receive_loop env src wanted (usize_saturating_add (fm_len wanted) 2)
       \<lparr>rv_applied = {||}, rv_received = {||}, rv_floor = None, rv_stats = st\<rparr>"

section \<open>The session\<close>

definition local_hello :: "('st, 'w) source \<Rightarrow> string option \<Rightarrow> int \<Rightarrow> sync_message" where
  "local_hello src listen_addr since_ms =
     Hello protocol_version (so_device_id src) (so_device_name src) (Some (so_device_profile src))
       listen_addr since_ms"

type_synonym peer_hello =
  "string \<times> string \<times> device_profile option \<times> socket_addr option \<times> int"

definition parse_hello :: "wire \<Rightarrow> ('st, 'w) source \<Rightarrow> sync_message \<Rightarrow> sync_error + peer_hello" where
  "parse_hello w src m =
     (case validate w m of
        Inl e \<Rightarrow> Inl (Protocol e)
      | Inr _ \<Rightarrow>
          (case m of
             Hello _ device_id device_name profile listen_addr since_ms \<Rightarrow>
               if device_id = so_device_id src then Inl SelfSync
               else Inr (device_id, device_name, profile,
                         (case Option.bind listen_addr parse_socket_addr of
                            None \<Rightarrow> None
                          | Some addr \<Rightarrow> if is_dialable addr then Some addr else None),
                         since_ms)
           | other \<Rightarrow> Inl (Unexpected ''hello'' (kind other))))"

definition recv_hello :: "'w env \<Rightarrow> ('st, 'w) source \<Rightarrow> ('st, peer_hello) act" where
  "recv_hello env src = bind_act recv (\<lambda>m. lift (parse_hello (en_wire env) src m))"

fun requested_advertised ::
  "'w workspace_ops \<Rightarrow> string list \<Rightarrow> summaries \<Rightarrow> 'w \<Rightarrow> sync_error + summaries \<times> 'w" where
  "requested_advertised ops [] acc ws = Inr (acc, ws)"
| "requested_advertised ops (k # ks) acc ws =
     res_bind (wo_advertised ops k ws) (\<lambda>(found, ws).
       requested_advertised ops ks (case found of None \<Rightarrow> acc | Some item \<Rightarrow> fmupd k item acc) ws)"

definition prepare_plan :: "'w env \<Rightarrow> 'w \<Rightarrow> sync_stats \<Rightarrow> ('st, summaries \<times> sync_stats \<times> 'w) act" where
  "prepare_plan env ws st s =
     (case plan_workspace (en_ops env) (en_now env) st ws of None \<Rightarrow> None | Some r \<Rightarrow> Some (r, s))"

definition finish_watermark :: "'w env \<Rightarrow> 'w \<Rightarrow> int \<Rightarrow> summaries \<Rightarrow> string fset \<Rightarrow> ('st, int) act" where
  "finish_watermark env ws previous wanted attempted s =
     (case workspace_watermark previous (en_ops env) wanted attempted ws of None \<Rightarrow> None | Some r \<Rightarrow> Some (r, s))"

definition outcome_of :: "sync_stats \<Rightarrow> peer_hello \<Rightarrow> int \<Rightarrow> int option \<Rightarrow> sync_outcome" where
  "outcome_of st peer since_ms fl =
     (case peer of (device_id, device_name, profile, listen_addr, _) \<Rightarrow>
       \<lparr>oc_stats = st, oc_peer_device_id = device_id, oc_peer_device_name = device_name,
        oc_peer_profile = profile, oc_peer_listen_addr = listen_addr,
        oc_cursor = \<lparr>cu_since_ms = since_ms, cu_relay_floor_ms = None\<rparr>, oc_applied_floor = fl\<rparr>)"

definition peer_since :: "peer_hello \<Rightarrow> int" where
  "peer_since peer = (case peer of (_, _, _, _, since_ms) \<Rightarrow> since_ms)"

definition run_initiator ::
  "'w env \<Rightarrow> ('st, 'w) source \<Rightarrow> string option \<Rightarrow> sync_cursor \<Rightarrow> ('st, sync_outcome) act" where
  "run_initiator env src listen_addr cursor =
     bind_act (send (local_hello src listen_addr (cu_since_ms cursor))) (\<lambda>_.
     bind_act (recv_hello env src) (\<lambda>peer.
     bind_act (stored (so_summary_workspace src)) (\<lambda>ws.
     bind_act (exchange_workspace env src (advertise_from cursor (peer_since peer)) ws True) (\<lambda>ws.
     bind_act (prepare_plan env ws sync_stats_default) (\<lambda>(wanted, st, ws).
     bind_act (send (Request (en_key_order env wanted))) (\<lambda>_.
     bind_act (receive_items env src wanted st) (\<lambda>rv.
     bind_act (receive_request env) (\<lambda>requested.
     bind_act (lift (requested_advertised (en_ops env) requested fmempty ws)) (\<lambda>(advertised, ws).
     bind_act (serve_items env src advertised requested (rv_stats rv)) (\<lambda>st.
     bind_act (finish_watermark env ws (cu_since_ms cursor) wanted (rv_applied rv)) (\<lambda>since_ms.
       ret (outcome_of st peer since_ms (rv_floor rv)))))))))))))"

definition run_responder_from_first ::
  "'w env \<Rightarrow> ('st, 'w) source \<Rightarrow> string option \<Rightarrow> sync_cursor \<Rightarrow> sync_message \<Rightarrow> ('st, sync_outcome) act" where
  "run_responder_from_first env src listen_addr cursor first =
     bind_act (lift (parse_hello (en_wire env) src first)) (\<lambda>peer.
     bind_act (send (local_hello src listen_addr (cu_since_ms cursor))) (\<lambda>_.
     bind_act (stored (so_summary_workspace src)) (\<lambda>ws.
     bind_act (exchange_workspace env src (advertise_from cursor (peer_since peer)) ws False) (\<lambda>ws.
     bind_act (receive_request env) (\<lambda>requested.
     bind_act (lift (requested_advertised (en_ops env) requested fmempty ws)) (\<lambda>(advertised, ws).
     bind_act (serve_items env src advertised requested sync_stats_default) (\<lambda>st.
     bind_act (prepare_plan env ws st) (\<lambda>(wanted, st, ws).
     bind_act (send (Request (en_key_order env wanted))) (\<lambda>_.
     bind_act (receive_items env src wanted st) (\<lambda>rv.
     bind_act (finish_watermark env ws (cu_since_ms cursor) wanted (rv_applied rv)) (\<lambda>since_ms.
       ret (outcome_of (rv_stats rv) peer since_ms (rv_floor rv)))))))))))))"

definition run_responder ::
  "'w env \<Rightarrow> ('st, 'w) source \<Rightarrow> string option \<Rightarrow> sync_cursor \<Rightarrow> ('st, sync_outcome) act" where
  "run_responder env src listen_addr cursor =
     bind_act recv (run_responder_from_first env src listen_addr cursor)"

end
