(* ===== verification/Session_Props.thy ===== *)
theory Session_Props
  imports Session Group_Props
begin

text \<open>
  The properties of one session: what it sends, what it applies, how long it can run, and what
  its cursor means, against every peer and every local store. \<open>triple P m Q E\<close> is the total
  correctness judgement for a step: from a world that satisfies \<open>P\<close> it returns, with a
  value and a world that satisfy \<open>Q\<close> or with an error and a world that satisfies \<open>E\<close>.
\<close>

section \<open>Reasoning about steps\<close>

definition triple ::
  "('st world \<Rightarrow> bool) \<Rightarrow> ('st, 'a) act \<Rightarrow> ('a \<Rightarrow> 'st world \<Rightarrow> bool) \<Rightarrow> ('st world \<Rightarrow> bool) \<Rightarrow> bool" where
  "triple P m Q E \<longleftrightarrow> (\<forall>s. P s \<longrightarrow>
     (case m s of None \<Rightarrow> False | Some (Inl e, s') \<Rightarrow> E s' | Some (Inr a, s') \<Rightarrow> Q a s'))"

lemma tripleD:
  assumes "triple P m Q E" and "P s"
  shows "m s = Some (Inr a, s') \<Longrightarrow> Q a s'" and "m s = Some (Inl e, s') \<Longrightarrow> E s'"
  using assms by (fastforce simp: triple_def)+

lemma triple_returns: "triple P m Q E \<Longrightarrow> P s \<Longrightarrow> \<exists>r s'. m s = Some (r, s')"
  by (cases "m s") (auto simp: triple_def)

lemma triple_weaken:
  "triple P m Q E \<Longrightarrow> (\<And>s. P' s \<Longrightarrow> P s) \<Longrightarrow> (\<And>a s. Q a s \<Longrightarrow> Q' a s) \<Longrightarrow> (\<And>s. E s \<Longrightarrow> E' s)
   \<Longrightarrow> triple P' m Q' E'"
  by (fastforce simp: triple_def split: option.splits sum.splits)

lemma triple_bind:
  assumes "triple P m Q E" and "\<And>a. triple (Q a) (f a) R E"
  shows "triple P (bind_act m f) R E"
  using assms unfolding triple_def bind_act_def
  by (fastforce split: option.splits sum.splits)

lemma triple_ret: "(\<And>s. P s \<Longrightarrow> Q a s) \<Longrightarrow> triple P (ret a) Q E"
  by (simp add: triple_def ret_def)

lemma triple_lift:
  "(\<And>s a. r = Inr a \<Longrightarrow> P s \<Longrightarrow> Q a s) \<Longrightarrow> (\<And>s e. r = Inl e \<Longrightarrow> P s \<Longrightarrow> E s) \<Longrightarrow> triple P (lift r) Q E"
  by (auto simp: triple_def lift_def split: sum.splits)

definition put_out :: "sync_message \<Rightarrow> 'st world \<Rightarrow> 'st world" where
  "put_out m s = s\<lparr>wd_chan := (wd_chan s)\<lparr>ch_out := ch_out (wd_chan s) @ [m]\<rparr>\<rparr>"

lemma triple_send:
  "(\<And>s. P s \<Longrightarrow> Q () (put_out m s)) \<Longrightarrow> (\<And>s. P s \<Longrightarrow> E s) \<Longrightarrow> triple P (send m) Q E"
  by (auto simp: triple_def send_def put_out_def split: option.splits)

lemma triple_stored:
  "(\<And>s. P s \<Longrightarrow> (case f (wd_store s) of (Inr a, st) \<Rightarrow> Q a (s\<lparr>wd_store := st\<rparr>) | (Inl e, st) \<Rightarrow> E (s\<lparr>wd_store := st\<rparr>)))
   \<Longrightarrow> triple P (stored f) Q E"
  by (force simp: triple_def stored_def split: sum.splits prod.splits)

section \<open>What is served\<close>

definition sent :: "'st world \<Rightarrow> sync_message list" where
  "sent s = ch_out (wd_chan s)"

lemma sent_simps [simp]:
  "sent (put_out m s) = sent s @ [m]" "sent (s\<lparr>wd_store := st\<rparr>) = sent s"
  by (simp_all add: sent_def put_out_def)

text \<open>
  What holds while a request is served: the batches sent so far and the pending one are valid,
  nothing is in them twice, everything in them was allowed, and what is still unavailable is
  not in them.
\<close>

definition batch_ok :: "wire \<Rightarrow> sync_item list \<Rightarrow> bool" where
  "batch_ok w batch \<longleftrightarrow> batch \<noteq> [] \<and> validate w (Items batch) = Inr ()"

definition item_bytes :: "sync_item \<Rightarrow> nat" where
  "item_bytes i = content_len i + metadata_len i"

definition carried :: "string fset \<Rightarrow> string fset \<Rightarrow> sync_item list \<Rightarrow> bool" where
  "carried allowed unavailable items \<longleftrightarrow>
     distinct (map i_item_id items)
     \<and> i_item_id ` set items \<subseteq> fset allowed \<and> i_item_id ` set items \<inter> fset unavailable = {}
     \<and> unavailable |\<subseteq>| allowed
     \<and> (\<forall>i \<in> set items. i_deleted i \<longrightarrow> i_content i = [] \<and> i_binary_content i = [])"

definition pending_ok :: "wire \<Rightarrow> serve_state \<Rightarrow> bool" where
  "pending_ok w sv \<longleftrightarrow>
     (\<forall>i \<in> set (sv_batch sv). item_ok (w_metadata_ok w) i)
     \<and> length (sv_batch sv) \<le> max_items_per_message
     \<and> sv_bytes sv = (\<Sum>i\<leftarrow>sv_batch sv. item_bytes i)
     \<and> sv_bytes sv \<le> max_item_bytes_per_message"

definition served :: "wire \<Rightarrow> string fset \<Rightarrow> sync_message list \<Rightarrow> serve_state \<Rightarrow> sync_message list \<Rightarrow> bool" where
  "served w allowed before sv out \<longleftrightarrow> (\<exists>batches.
     out = before @ map Items batches \<and> list_all (batch_ok w) batches
     \<and> carried allowed (sv_unavailable sv) (concat batches @ sv_batch sv) \<and> pending_ok w sv)"

lemma pending_batch_ok: "pending_ok w sv \<Longrightarrow> sv_batch sv \<noteq> [] \<Longrightarrow> batch_ok w (sv_batch sv)"
  using items_valid_iff[of w "sv_batch sv" "()"]
  by (simp add: pending_ok_def batch_ok_def item_bytes_def del: validate.simps)

lemma served_flush:
  assumes "served w allowed before sv out" and "sv_batch sv \<noteq> []"
  shows "served w allowed before (sv\<lparr>sv_stats := st, sv_batch := [], sv_bytes := 0\<rparr>) (out @ [Items (sv_batch sv)])"
proof -
  from assms(1) obtain batches where b: "out = before @ map Items batches" "list_all (batch_ok w) batches"
    "carried allowed (sv_unavailable sv) (concat batches @ sv_batch sv)" "pending_ok w sv"
    unfolding served_def by blast
  with pending_batch_ok[OF b(4) assms(2)] show ?thesis
    unfolding served_def by (intro exI[of _ "batches @ [sv_batch sv]"]) (simp add: pending_ok_def)
qed

lemma served_cong:
  "served w allowed before a out \<Longrightarrow> sv_batch a = sv_batch b \<Longrightarrow> sv_bytes a = sv_bytes b \<Longrightarrow>
   sv_unavailable a = sv_unavailable b \<Longrightarrow> served w allowed before b out"
  by (simp add: served_def pending_ok_def)

lemma triple_flush:
  assumes "sv_batch sv \<noteq> []"
  shows "triple (\<lambda>s. served w allowed before (sv\<lparr>sv_unavailable := U\<rparr>) (sent s)) (flush sv)
     (\<lambda>sv' s. served w allowed before (sv'\<lparr>sv_unavailable := U\<rparr>) (sent s) \<and> sv_batch sv' = []
        \<and> sv_bytes sv' = 0 \<and> sv_unavailable sv' = sv_unavailable sv)
     (\<lambda>s. \<exists>sv'. served w allowed before sv' (sent s))"
proof -
  have "served w allowed before (sv\<lparr>sv_unavailable := U, sv_stats := st, sv_batch := [], sv_bytes := 0\<rparr>)
        (out @ [Items (sv_batch sv)])"
    if "served w allowed before (sv\<lparr>sv_unavailable := U\<rparr>) out" for out st
    using served_flush[OF that] assms by simp
  then show ?thesis
    unfolding flush_def Let_def
    by (intro triple_bind[where Q = "\<lambda>_ s. served w allowed before
          (sv\<lparr>sv_unavailable := U, sv_stats := (sv_stats sv)\<lparr>st_sent := st_sent (sv_stats sv) + length (sv_batch sv)\<rparr>,
              sv_batch := [], sv_bytes := 0\<rparr>) (sent s)"] triple_send triple_ret)
       (auto elim: served_cong)
qed

lemma triple_flush_all:
  assumes "sv_batch sv \<noteq> []"
  shows "triple (\<lambda>s :: 'st world. served w allowed before sv (sent s)) (flush sv)
     (\<lambda>sv' s. served w allowed before sv' (sent s)) (\<lambda>s. \<exists>sv'. served w allowed before sv' (sent s))"
proof (rule triple_weaken[OF triple_flush[OF assms, of w allowed before "sv_unavailable sv"]])
  fix sv' :: serve_state and s :: "'st world"
  assume "served w allowed before (sv'\<lparr>sv_unavailable := sv_unavailable sv\<rparr>) (sent s) \<and> sv_batch sv' = []
    \<and> sv_bytes sv' = 0 \<and> sv_unavailable sv' = sv_unavailable sv"
  then show "served w allowed before sv' (sent s)" by (elim conjE served_cong) simp_all
qed auto

lemma item_bytes_fit: "item_ok mo i \<Longrightarrow> item_bytes i \<le> max_item_bytes_per_message"
  using item_ok_metadata_len[of mo i]
  by (auto simp: item_ok_def item_bytes_def max_item_bytes_per_message_def)

text \<open>An item may join the pending batch once its id is taken out of the unavailable ones.\<close>

lemma carried_push:
  assumes "carried allowed unavailable items" and "i_item_id item |\<in>| unavailable"
    and "i_deleted item \<Longrightarrow> i_content item = [] \<and> i_binary_content item = []"
  shows "carried allowed (unavailable |-| {|i_item_id item|}) (items @ [item])"
  using assms unfolding carried_def by (auto simp: fsubset_iff)

lemma carried_less: "carried allowed unavailable items \<Longrightarrow> carried allowed (unavailable |-| {|k|}) items"
  by (auto simp: carried_def)

lemma pending_push:
  assumes "pending_ok w sv" and "item_ok (w_metadata_ok w) item"
    and "length (sv_batch sv) < max_items_per_message"
    and "sv_bytes sv + item_bytes item \<le> max_item_bytes_per_message"
  shows "pending_ok w (sv\<lparr>sv_bytes := sv_bytes sv + item_bytes item, sv_batch := sv_batch sv @ [item]\<rparr>)"
  using assms by (auto simp: pending_ok_def)

lemma served_stats: "served w allowed before sv out \<Longrightarrow> served w allowed before (sv\<lparr>sv_stats := st\<rparr>) out"
  by (simp add: served_def pending_ok_def)

lemma served_withhold:
  "served w allowed before sv out \<Longrightarrow>
   served w allowed before (sv\<lparr>sv_stats := st, sv_unavailable := sv_unavailable sv |-| {|k|}\<rparr>) out"
  unfolding served_def by (auto simp: pending_ok_def intro: carried_less)

lemma served_push:
  assumes "served w allowed before sv out" and "i_item_id item |\<in>| sv_unavailable sv"
    and "i_deleted item \<Longrightarrow> i_content item = [] \<and> i_binary_content item = []"
    and "item_ok (w_metadata_ok w) item" and "length (sv_batch sv) < max_items_per_message"
    and "sv_bytes sv + item_bytes item \<le> max_item_bytes_per_message"
  shows "served w allowed before (sv\<lparr>sv_unavailable := sv_unavailable sv |-| {|i_item_id item|},
      sv_bytes := sv_bytes sv + item_bytes item, sv_batch := sv_batch sv @ [item]\<rparr>) out"
proof -
  from assms(1) obtain batches where b: "out = before @ map Items batches" "list_all (batch_ok w) batches"
    "carried allowed (sv_unavailable sv) (concat batches @ sv_batch sv)" "pending_ok w sv"
    unfolding served_def by blast
  from carried_push[OF b(3) assms(2,3)] pending_push[OF b(4) assms(4,5,6)] b(1,2) show ?thesis
    unfolding served_def by (intro exI[of _ batches]) (simp add: pending_ok_def)
qed

text \<open>The last step for an item that is sent: make room when needed, then push it.\<close>

lemma triple_push:
  fixes E :: "'st world \<Rightarrow> bool"
  assumes "i_item_id it |\<in>| U" and "i_deleted it \<Longrightarrow> i_content it = [] \<and> i_binary_content it = []"
    and "item_ok (w_metadata_ok w) it"
  shows "triple (\<lambda>s. served w allowed before (sv\<lparr>sv_unavailable := U\<rparr>) (sent s)
          \<and> sv_unavailable sv = U |-| {|i_item_id it|} \<and> length (sv_batch sv) < max_items_per_message
          \<and> sv_bytes sv + item_bytes it \<le> max_item_bytes_per_message)
     (ret (sv\<lparr>sv_bytes := sv_bytes sv + item_bytes it, sv_batch := sv_batch sv @ [it]\<rparr>))
     (\<lambda>sv' s. served w allowed before sv' (sent s)) E"
proof (rule triple_ret, elim conjE)
  fix s :: "'st world"
  assume *: "served w allowed before (sv\<lparr>sv_unavailable := U\<rparr>) (sent s)"
    "sv_unavailable sv = U |-| {|i_item_id it|}" "length (sv_batch sv) < max_items_per_message"
    "sv_bytes sv + item_bytes it \<le> max_item_bytes_per_message"
  have "served w allowed before ((sv\<lparr>sv_unavailable := U\<rparr>)\<lparr>sv_unavailable := U |-| {|i_item_id it|},
      sv_bytes := sv_bytes sv + item_bytes it, sv_batch := sv_batch sv @ [it]\<rparr>) (sent s)"
    using served_push[OF *(1), of it] assms *(3,4) by simp
  then show "served w allowed before (sv\<lparr>sv_bytes := sv_bytes sv + item_bytes it, sv_batch := sv_batch sv @ [it]\<rparr>) (sent s)"
    by (rule served_cong) (simp_all add: *(2))
qed

lemma triple_make_room:
  assumes "item_ok (w_metadata_ok w) it" and "sv_unavailable sv = V"
  shows "triple (\<lambda>s. served w allowed before (sv\<lparr>sv_unavailable := U\<rparr>) (sent s))
     (if sv_batch sv \<noteq> [] \<and> (length (sv_batch sv) = max_items_per_message
           \<or> usize_saturating_add (sv_bytes sv) (item_bytes it) > max_item_bytes_per_message)
      then flush sv else ret sv)
     (\<lambda>sv' s. served w allowed before (sv'\<lparr>sv_unavailable := U\<rparr>) (sent s) \<and> sv_unavailable sv' = V
        \<and> length (sv_batch sv') < max_items_per_message
        \<and> sv_bytes sv' + item_bytes it \<le> max_item_bytes_per_message)
     (\<lambda>s. \<exists>sv'. served w allowed before sv' (sent s))"
proof (cases "sv_batch sv \<noteq> [] \<and> (length (sv_batch sv) = max_items_per_message
           \<or> usize_saturating_add (sv_bytes sv) (item_bytes it) > max_item_bytes_per_message)")
  case True
  then have ne: "sv_batch sv \<noteq> []" by blast
  have "item_bytes it \<le> max_item_bytes_per_message" "0 < max_items_per_message"
    using item_bytes_fit[OF assms(1)] by (simp_all add: max_items_per_message_def)
  then show ?thesis
    unfolding if_P[OF True] by (rule_tac triple_weaken[OF triple_flush[OF ne, of w allowed before U]]) (simp_all add: assms(2))
next
  case False
  have small: "max_item_bytes_per_message < usize_max" by (simp add: limit_defs usize_max_def)
  have "length (sv_batch sv) < max_items_per_message \<and> sv_bytes sv + item_bytes it \<le> max_item_bytes_per_message"
    if "served w allowed before (sv\<lparr>sv_unavailable := U\<rparr>) out" for out
    using that False small item_bytes_fit[OF assms(1)]
    by (auto simp: served_def pending_ok_def usize_saturating_add_def max_items_per_message_def not_less)
  then show ?thesis unfolding if_not_P[OF False] by (intro triple_ret) (simp add: assms(2))
qed

lemma triple_serve_one:
  "triple (\<lambda>s. served w allowed before sv (sent s)) (serve_one (w_metadata_ok w) chunk item sv)
     (\<lambda>sv' s. served w allowed before sv' (sent s)) (\<lambda>s. \<exists>sv'. served w allowed before sv' (sent s))"
proof (cases "i_item_id item \<notin> set chunk \<or> i_item_id item |\<notin>| sv_unavailable sv")
  case True
  then show ?thesis by (simp add: serve_one_def triple_ret)
next
  case False
  define it where "it = (if i_deleted item then item\<lparr>i_content := [], i_binary_content := []\<rparr> else item)"
  have tomb: "i_deleted it \<Longrightarrow> i_content it = [] \<and> i_binary_content it = []" and ident: "i_item_id it = i_item_id item"
    by (auto simp: it_def)
  show ?thesis
  proof (cases "content_len it > max_content_bytes \<or> \<not> item_ok (w_metadata_ok w) it")
    case True
    then show ?thesis
      using False validate_item_ok_iff[of "w_metadata_ok w" it]
      by (auto simp: serve_one_def Let_def it_def[symmetric] ident
          intro!: triple_ret served_stats served_withhold split: sum.splits)
  next
    case ok: False
    then have valid: "validate_item (w_metadata_ok w) it = Inr ()" by (simp add: validate_item_ok_iff)
    have bytes: "usize_saturating_add (content_len it) (metadata_len it) = item_bytes it"
      using item_bytes_fit[of "w_metadata_ok w" it] ok
      by (simp add: item_bytes_def usize_saturating_add_def usize_max_def limit_defs)
    define sv1 where "sv1 = sv\<lparr>sv_unavailable := sv_unavailable sv |-| {|i_item_id it|}\<rparr>"
    have eq: "serve_one (w_metadata_ok w) chunk item sv = bind_act
        (if sv_batch sv1 \<noteq> [] \<and> (length (sv_batch sv1) = max_items_per_message
           \<or> usize_saturating_add (sv_bytes sv1) (item_bytes it) > max_item_bytes_per_message)
         then flush sv1 else ret sv1)
        (\<lambda>sv. ret (sv\<lparr>sv_bytes := sv_bytes sv + item_bytes it, sv_batch := sv_batch sv @ [it]\<rparr>))"
      using False ok by (simp add: serve_one_def Let_def it_def[symmetric] bytes valid ident sv1_def)
    have "triple (\<lambda>s. served w allowed before (sv1\<lparr>sv_unavailable := sv_unavailable sv\<rparr>) (sent s)) (serve_one (w_metadata_ok w) chunk item sv)
        (\<lambda>sv' s. served w allowed before sv' (sent s)) (\<lambda>s. \<exists>sv'. served w allowed before sv' (sent s))"
      unfolding eq by (rule triple_bind[OF triple_make_room triple_push]) (use False ok tomb ident in \<open>auto simp: sv1_def\<close>)
    then show ?thesis by (rule triple_weaken) (auto simp: sv1_def)
  qed
qed


lemma triple_serve_fetched:
  "triple (\<lambda>s. served w allowed before sv (sent s)) (serve_fetched (w_metadata_ok w) chunk items sv)
     (\<lambda>sv' s. served w allowed before sv' (sent s)) (\<lambda>s. \<exists>sv'. served w allowed before sv' (sent s))"
  by (induction items arbitrary: sv) (auto intro!: triple_ret triple_bind[OF triple_serve_one])

lemma triple_serve_chunks:
  "triple (\<lambda>s. served w allowed before sv (sent s)) (serve_chunks (w_metadata_ok w) src cs sv)
     (\<lambda>sv' s. served w allowed before sv' (sent s)) (\<lambda>s. \<exists>sv'. served w allowed before sv' (sent s))"
proof (induction cs arbitrary: sv)
  case (Cons c cs)
  have "triple (\<lambda>s. served w allowed before sv (sent s)) (stored (so_fetch src c))
      (\<lambda>_ s. served w allowed before sv (sent s)) (\<lambda>s. \<exists>sv'. served w allowed before sv' (sent s))"
    by (rule triple_stored) (auto split: prod.splits sum.splits)
  then show ?case
    by (auto intro: triple_bind triple_serve_fetched Cons.IH)
qed (auto intro: triple_ret)

text \<open>What the peer is allowed to ask for: what was advertised to it, each id once.\<close>

lemma allowed_ids_set:
  "set (allowed_ids advertised seen ks) = (set ks \<inter> fset (fmdom advertised)) - fset seen"
  by (induction ks arbitrary: seen) (auto simp: fm_contains_def fmdomI fmdomE fmlookup_dom_iff)

lemma allowed_ids_distinct: "distinct (allowed_ids advertised seen ks)"
  by (induction ks arbitrary: seen) (auto simp: allowed_ids_set)

text \<open>What serving may put on the wire: whole valid batches, and nothing but what was allowed.\<close>

definition batches_ok :: "wire \<Rightarrow> string set \<Rightarrow> sync_item list list \<Rightarrow> bool" where
  "batches_ok w allowed batches \<longleftrightarrow>
     (\<forall>b \<in> set batches. b \<noteq> [] \<and> validate w (Items b) = Inr ())
     \<and> distinct (map i_item_id (concat batches))
     \<and> i_item_id ` set (concat batches) \<subseteq> allowed
     \<and> (\<forall>i \<in> set (concat batches). i_deleted i \<longrightarrow> i_content i = [] \<and> i_binary_content i = [])"

lemma served_batches:
  assumes "served w allowed before sv out" and "fset allowed \<subseteq> A"
  shows "\<exists>batches. out = before @ map Items batches \<and> batches_ok w A batches"
proof -
  from assms(1) obtain batches where "out = before @ map Items batches" "list_all (batch_ok w) batches"
    "carried allowed (sv_unavailable sv) (concat batches @ sv_batch sv)"
    unfolding served_def by blast
  with assms(2) show ?thesis
    by (intro exI[of _ batches])
       (auto simp: batches_ok_def carried_def list_all_iff batch_ok_def image_subset_iff simp del: validate.simps)
qed

lemma triple_serve_items:
  fixes src :: "('st, 'w) source"
  assumes "A = set requested \<inter> fset (fmdom advertised)"
  shows "triple (\<lambda>s. sent s = before) (serve_items env src advertised requested st)
     (\<lambda>st' s. \<exists>batches. sent s = before @ map Items batches @ [Done] \<and> batches_ok (en_wire env) A batches)
     (\<lambda>s. \<exists>batches. sent s = before @ map Items batches \<and> batches_ok (en_wire env) A batches)"
proof -
  define al where "al = fset_of_list (allowed_ids advertised {||} requested)"
  let ?w = "en_wire env"
  let ?E = "\<lambda>s :: 'st world. \<exists>sv'. served ?w al before sv' (sent s)"
  have alset: "fset al = A" by (simp add: al_def assms fset_of_list.rep_eq allowed_ids_set)
  have start: "served ?w al before \<lparr>sv_batch = [], sv_bytes = 0, sv_unavailable = al, sv_stats = st\<rparr> before"
    by (auto simp: served_def pending_ok_def carried_def intro!: exI[of _ "[]"])
  have first: "triple (\<lambda>s. sent s = before)
      (serve_chunks (w_metadata_ok ?w) src (chunks max_items_per_message (allowed_ids advertised {||} requested))
        \<lparr>sv_batch = [], sv_bytes = 0, sv_unavailable = al, sv_stats = st\<rparr>)
      (\<lambda>sv' s. served ?w al before sv' (sent s)) ?E"
    by (rule triple_weaken[OF triple_serve_chunks[where w = ?w and allowed = al and before = before]])
       (use start in auto)
  have fin: "triple (\<lambda>s. served ?w al before sv (sent s)) (if sv_batch sv \<noteq> [] then flush sv else ret sv)
      (\<lambda>sv' s. served ?w al before sv' (sent s)) ?E" for sv
    by (cases "sv_batch sv = []") (auto intro!: triple_ret triple_flush_all)
  have last: "triple (\<lambda>s. served ?w al before sv (sent s)) (bind_act (send Done) (\<lambda>_. ret st'))
      (\<lambda>st' s. \<exists>out sv'. served ?w al before sv' out \<and> sent s = out @ [Done]) ?E" for sv st'
    by (rule triple_bind[where Q = "\<lambda>_ s. \<exists>out sv'. served ?w al before sv' out \<and> sent s = out @ [Done]"])
       (auto intro!: triple_send triple_ret)
  have "triple (\<lambda>s. sent s = before) (serve_items env src advertised requested st)
      (\<lambda>st' s. \<exists>out sv'. served ?w al before sv' out \<and> sent s = out @ [Done]) ?E"
    unfolding serve_items_def Let_def al_def[symmetric]
    by (rule triple_bind[OF first triple_bind[OF fin last]])
  then show ?thesis
    by (rule triple_weaken) (auto dest!: served_batches[where A = A] simp: alset)
qed


section \<open>What is applied\<close>

text \<open>
  \<open>feed\<close> is what a run of batches does to the store: its state after them, and the items it
  reported as stored.
\<close>

fun feed :: "('st, 'w) source \<Rightarrow> sync_item list list \<Rightarrow> 'st \<Rightarrow> 'st \<times> sync_item list" where
  "feed src [] st = (st, [])"
| "feed src (b # bs) st =
     (case so_apply_batch src b st of (r, st') \<Rightarrow>
        (case feed src bs st' of (st'', rest) \<Rightarrow>
           (st'', (case r of Inl _ \<Rightarrow> [] | Inr os \<Rightarrow> map snd (filter fst (zip os b))) @ rest)))"

text \<open>An item the session may apply: promised in the summaries, and with the content promised.\<close>

definition promised :: "wire \<Rightarrow> summaries \<Rightarrow> sync_item \<Rightarrow> bool" where
  "promised w wanted i \<longleftrightarrow>
     (\<exists>p. fmlookup wanted (i_item_id i) = Some p \<and> summary_eq (summary i) p)
     \<and> (i_deleted i \<longrightarrow> i_content i = [])
     \<and> (\<not> i_deleted i \<longrightarrow> plaintext_content_hash w (fst (payload i)) = i_content_hash i)"

definition fresh_batch :: "wire \<Rightarrow> summaries \<Rightarrow> string fset \<Rightarrow> sync_item list \<Rightarrow> bool" where
  "fresh_batch w wanted before items \<longleftrightarrow>
     (\<forall>i \<in> set items. promised w wanted i) \<and> distinct (map i_item_id items)
     \<and> i_item_id ` set items \<inter> fset before = {}"

abbreviation item_ids :: "sync_item list \<Rightarrow> string fset" where
  "item_ids items \<equiv> fset_of_list (map i_item_id items)"

lemma fresh_batch_append:
  "fresh_batch w wanted before (xs @ ys) \<longleftrightarrow>
   fresh_batch w wanted before xs \<and> fresh_batch w wanted (before |\<union>| item_ids xs) ys"
  by (auto simp: fresh_batch_def fset_of_list.rep_eq)

definition accepted :: "wire \<Rightarrow> summaries \<Rightarrow> receive_state \<Rightarrow> receive_state \<Rightarrow> sync_item list \<Rightarrow> bool" where
  "accepted w wanted rv rv' new \<longleftrightarrow>
     fresh_batch w wanted (rv_applied rv) new \<and> rv_applied rv' = rv_applied rv |\<union>| item_ids new
     \<and> rv_floor rv' = rv_floor rv"

lemma accept_one_accepted:
  assumes "accept_one w wanted item (rv, batch, marks) = (rv', batch', marks')"
  shows "\<exists>new. batch' = batch @ new \<and> marks' = marks @ map (\<lambda>i. summary_key (summary i)) new
     \<and> accepted w wanted rv rv' new"
proof -
  have none: ?thesis if "batch' = batch" "marks' = marks" "rv_applied rv' = rv_applied rv" "rv_floor rv' = rv_floor rv"
    using that by (auto simp: accepted_def fresh_batch_def intro!: exI[of _ "[]"])
  show ?thesis
  proof (cases "batch' = batch")
    case True
    with assms have "marks' = marks" "rv_applied rv' = rv_applied rv" "rv_floor rv' = rv_floor rv"
      by (auto simp: accept_one_def drop_invalid_def Let_def split: option.splits if_splits)
    with True none show ?thesis by blast
  next
    case False
    define it where "it = (if i_deleted item then item\<lparr>i_content := []\<rparr> else item)"
    have same: "i_item_id it = i_item_id item" "summary it = summary item" "i_deleted it = i_deleted item"
      by (simp_all add: it_def summary_def)
    from False assms have "batch' = batch @ [it]" "marks' = marks @ [summary_key (summary it)]"
      "promised w wanted it" "i_item_id it |\<notin>| rv_applied rv"
      "rv_applied rv' = finsert (i_item_id it) (rv_applied rv)" "rv_floor rv' = rv_floor rv"
      by (auto simp: accept_one_def drop_invalid_def Let_def promised_def it_def summary_def
          split: option.splits if_splits)
    then show ?thesis by (intro exI[of _ "[it]"]) (auto simp: accepted_def fresh_batch_def)
  qed
qed

lemma accept_all_accepted:
  "accept_all w wanted items (rv, batch, marks) = (rv', batch', marks') \<Longrightarrow>
   \<exists>new. batch' = batch @ new \<and> marks' = marks @ map (\<lambda>i. summary_key (summary i)) new
     \<and> accepted w wanted rv rv' new"
proof (induction items arbitrary: rv batch marks)
  case Nil
  then show ?case by (auto simp: accepted_def fresh_batch_def intro!: exI[of _ "[]"])
next
  case (Cons item items)
  obtain rv1 b1 m1 where one: "accept_one w wanted item (rv, batch, marks) = (rv1, b1, m1)"
    by (cases "accept_one w wanted item (rv, batch, marks)")
  from Cons.IH[of rv1 b1 m1] Cons.prems one obtain new2 where 2:
    "batch' = b1 @ new2" "marks' = m1 @ map (\<lambda>i. summary_key (summary i)) new2" "accepted w wanted rv1 rv' new2"
    by auto
  from accept_one_accepted[OF one] obtain new1 where 1:
    "b1 = batch @ new1" "m1 = marks @ map (\<lambda>i. summary_key (summary i)) new1" "accepted w wanted rv rv1 new1"
    by auto
  with 2 show ?case
    by (intro exI[of _ "new1 @ new2"]) (auto simp: accepted_def fresh_batch_append funion_assoc)
qed

lemma tally_keeps: "rv_applied (tally xs rv) = rv_applied rv"
  by (induction xs rv rule: tally.induct) auto

text \<open>A floor that covers a set of stamps: it is at or below each of them.\<close>

definition covers :: "int option \<Rightarrow> int set \<Rightarrow> bool" where
  "covers fl S \<longleftrightarrow> (\<forall>x \<in> S. case fl of None \<Rightarrow> False | Some f \<Rightarrow> f \<le> x)"

lemma tally_covers:
  "covers (rv_floor rv) S \<Longrightarrow> covers (rv_floor (tally xs rv)) (S \<union> snd ` set (filter fst xs))"
proof (induction xs arbitrary: rv S)
  case (Cons x xs)
  obtain b t where x: "x = (b, t)" by (cases x)
  define rv1 where "rv1 = (if b then rv\<lparr>rv_stats := (rv_stats rv)\<lparr>st_received := st_received (rv_stats rv) + 1\<rparr>,
                rv_floor := Some (case rv_floor rv of None \<Rightarrow> t | Some low \<Rightarrow> min low t)\<rparr>
        else rv\<lparr>rv_stats := skip (rv_stats rv)\<rparr>)"
  have "covers (rv_floor rv1) (S \<union> (if b then {t} else {}))"
    using Cons.prems by (force simp: rv1_def covers_def split: option.splits)
  from Cons.IH[OF this] show ?case
    by (cases b) (simp_all add: x rv1_def Un_assoc del: Un_insert_right)
qed simp


text \<open>
  What one run of the receiving loop does: the batches it applied, all promised and none applied
  before, each item once; the messages it consumed, at most its budget; nothing sent.
\<close>

definition received_ok ::
  "'w env \<Rightarrow> ('st, 'w) source \<Rightarrow> summaries \<Rightarrow> nat \<Rightarrow> receive_state \<Rightarrow> 'st world
   \<Rightarrow> sync_error + receive_state \<Rightarrow> 'st world \<Rightarrow> bool" where
  "received_ok env src wanted n rv s r s' \<longleftrightarrow> (\<exists>bs stored_items got.
     feed src bs (wd_store s) = (wd_store s', stored_items)
     \<and> fresh_batch (en_wire env) wanted (rv_applied rv) (concat bs) \<and> length bs \<le> n
     \<and> ch_in (wd_chan s) = got @ ch_in (wd_chan s') \<and> length got \<le> n \<and> sent s' = sent s
     \<and> (case r of Inl _ \<Rightarrow> True | Inr rv' \<Rightarrow>
          rv_applied rv' = rv_applied rv |\<union>| item_ids (concat bs)
          \<and> (\<forall>S. covers (rv_floor rv) S \<longrightarrow>
               covers (rv_floor rv') (S \<union> (\<lambda>i. summary_key (summary i)) ` set stored_items))))"

lemma received_stop:
  assumes "wd_store s' = wd_store s" and "ch_in (wd_chan s) = got @ ch_in (wd_chan s')" and "length got \<le> n"
    and "sent s' = sent s"
    and "\<And>rv'. r = Inr rv' \<Longrightarrow> rv_applied rv' = rv_applied rv \<and> rv_floor rv' = rv_floor rv"
  shows "received_ok env src wanted n rv s r s'"
  unfolding received_ok_def
  by (rule exI[of _ "[]"], rule exI[of _ "[]"], rule exI[of _ got])
     (cases r; insert assms; simp add: fresh_batch_def)

text \<open>A message taken off the channel.\<close>

definition took :: "'st world \<Rightarrow> sync_message \<Rightarrow> 'st world \<Rightarrow> bool" where
  "took s m s1 \<longleftrightarrow> ch_in (wd_chan s) = Inr m # ch_in (wd_chan s1) \<and> wd_store s1 = wd_store s \<and> sent s1 = sent s"

lemma recv_returns: "\<exists>r s'. recv s = Some (r, s')"
  by (simp add: recv_def split: list.split sum.split)

lemma recv_cases:
  assumes "recv s = Some (r, s')"
  obtains (failed) e got where "r = Inl e" "length got \<le> 1" "ch_in (wd_chan s) = got @ ch_in (wd_chan s')"
      "wd_store s' = wd_store s" "sent s' = sent s"
  | (got) m where "r = Inr m" "took s m s'"
proof (cases "ch_in (wd_chan s)")
  case Nil
  with assms show ?thesis by (intro failed[where got = "[]"]) (auto simp: recv_def)
next
  case (Cons x xs)
  show ?thesis
  proof (cases x)
    case (Inl e)
    with Cons assms show ?thesis by (intro failed[where got = "[x]"]) (auto simp: recv_def sent_def)
  next
    case (Inr m)
    with Cons assms show ?thesis by (intro got[of m]) (auto simp: recv_def sent_def took_def)
  qed
qed

lemma zip_map_filter:
  "snd ` set (filter fst (zip os (map f b))) = f ` set (map snd (filter fst (zip os b)))"
  by (induction os b rule: list_induct2') auto

lemma received_step:
  assumes "took s m s1" and "accept_all (en_wire env) wanted items (rv, [], []) = (rv1, batch, marks)"
    and "so_apply_batch src batch (wd_store s1) = (Inr os, st')"
    and "received_ok env src wanted n (tally (zip os marks) rv1) (s1\<lparr>wd_store := st'\<rparr>) r s'"
  shows "received_ok env src wanted (Suc n) rv s r s'"
proof -
  from accept_all_accepted[OF assms(2)] have marks: "marks = map (\<lambda>i. summary_key (summary i)) batch"
    and acc: "accepted (en_wire env) wanted rv rv1 batch" by auto
  let ?rv2 = "tally (zip os marks) rv1"
  from assms(4) obtain bs si got where ih: "feed src bs st' = (wd_store s', si)"
    "fresh_batch (en_wire env) wanted (rv_applied ?rv2) (concat bs)" "length bs \<le> n"
    "ch_in (wd_chan s1) = got @ ch_in (wd_chan s')" "length got \<le> n" "sent s' = sent s1"
    "case r of Inl _ \<Rightarrow> True | Inr rv' \<Rightarrow>
          rv_applied rv' = rv_applied ?rv2 |\<union>| item_ids (concat bs)
          \<and> (\<forall>S. covers (rv_floor ?rv2) S \<longrightarrow>
               covers (rv_floor rv') (S \<union> (\<lambda>i. summary_key (summary i)) ` set si))"
    unfolding received_ok_def by auto
  have cov: "covers (rv_floor ?rv2) (S \<union> (\<lambda>i. summary_key (summary i)) ` set (map snd (filter fst (zip os batch))))"
    if "covers (rv_floor rv) S" for S
    using tally_covers[of rv1 S "zip os marks"] that acc
    by (simp only: marks zip_map_filter accepted_def)
  show ?thesis
    unfolding received_ok_def
  proof (rule exI[of _ "batch # bs"], rule exI[of _ "map snd (filter fst (zip os batch)) @ si"],
      rule exI[of _ "Inr m # got"], intro conjI)
    show "fresh_batch (en_wire env) wanted (rv_applied rv) (concat (batch # bs))"
      using ih(2) acc by (simp add: accepted_def tally_keeps fresh_batch_append)
    show "case r of Inl _ \<Rightarrow> True | Inr rv' \<Rightarrow>
        rv_applied rv' = rv_applied rv |\<union>| item_ids (concat (batch # bs))
        \<and> (\<forall>S. covers (rv_floor rv) S \<longrightarrow> covers (rv_floor rv')
              (S \<union> (\<lambda>i. summary_key (summary i)) ` set (map snd (filter fst (zip os batch)) @ si)))"
      using ih(7) acc cov
      by (auto simp: accepted_def tally_keeps funion_assoc image_Un Un_assoc[symmetric] split: sum.splits
          simp del: set_map)
  qed (use ih assms(1,3) in \<open>simp_all add: took_def\<close>)
qed

lemma received_failed:
  assumes "took s m s1" and "accept_all (en_wire env) wanted items (rv, [], []) = (rv1, batch, marks)"
    and "so_apply_batch src batch (wd_store s1) = (Inl e, st')"
  shows "received_ok env src wanted (Suc n) rv s (Inl e) (s1\<lparr>wd_store := st'\<rparr>)"
  using accept_all_accepted[OF assms(2)] assms(1,3) unfolding received_ok_def accepted_def
  by (intro exI[of _ "[batch]"] exI[of _ "[Inr m]"]) (auto simp: took_def)

text \<open>A message all of whose items were dropped: nothing is applied.\<close>

lemma received_nothing:
  assumes "took s m s1" and "accept_all (en_wire env) wanted items (rv, [], []) = (rv1, [], marks)"
    and "received_ok env src wanted n rv1 s1 r s'"
  shows "received_ok env src wanted (Suc n) rv s r s'"
proof -
  from accept_all_accepted[OF assms(2)] have same: "rv_applied rv1 = rv_applied rv" "rv_floor rv1 = rv_floor rv"
    by (auto simp: accepted_def)
  from assms(3) obtain bs si got where "feed src bs (wd_store s1) = (wd_store s', si)"
    "fresh_batch (en_wire env) wanted (rv_applied rv1) (concat bs)" "length bs \<le> n"
    "ch_in (wd_chan s1) = got @ ch_in (wd_chan s')" "length got \<le> n" "sent s' = sent s1"
    "case r of Inl _ \<Rightarrow> True | Inr rv' \<Rightarrow>
          rv_applied rv' = rv_applied rv1 |\<union>| item_ids (concat bs)
          \<and> (\<forall>S. covers (rv_floor rv1) S \<longrightarrow>
               covers (rv_floor rv') (S \<union> (\<lambda>i. summary_key (summary i)) ` set si))"
    unfolding received_ok_def by auto
  then show ?thesis
    unfolding received_ok_def same
    by (intro exI[of _ bs] exI[of _ si] exI[of _ "Inr m # got"]) (use assms(1) in \<open>simp add: took_def\<close>)
qed


lemma triple_recv:
  "(\<And>s s1 m. P s \<Longrightarrow> took s m s1 \<Longrightarrow> Q m s1) \<Longrightarrow>
   (\<And>s s1 got. P s \<Longrightarrow> length got \<le> 1 \<Longrightarrow> ch_in (wd_chan s) = got @ ch_in (wd_chan s1) \<Longrightarrow>
      wd_store s1 = wd_store s \<Longrightarrow> sent s1 = sent s \<Longrightarrow> E s1) \<Longrightarrow> triple P recv Q E"
  unfolding triple_def
proof (intro allI impI)
  fix s
  assume *: "\<And>s s1 m. P s \<Longrightarrow> took s m s1 \<Longrightarrow> Q m s1" "P s"
    "\<And>s s1 got. P s \<Longrightarrow> length got \<le> 1 \<Longrightarrow> ch_in (wd_chan s) = got @ ch_in (wd_chan s1) \<Longrightarrow>
      wd_store s1 = wd_store s \<Longrightarrow> sent s1 = sent s \<Longrightarrow> E s1"
  from recv_returns obtain r s1 where r: "recv s = Some (r, s1)" by blast
  then show "case recv s of None \<Rightarrow> False | Some (Inl e, s') \<Rightarrow> E s' | Some (Inr a, s') \<Rightarrow> Q a s'"
    by (cases rule: recv_cases) (use r * in \<open>auto\<close>)
qed

abbreviation returns :: "('st, 'a) act \<Rightarrow> bool" where
  "returns m \<equiv> triple (\<lambda>_. True) m (\<lambda>_ _. True) (\<lambda>_. True)"

lemma returns_stored: "returns (stored f)"
  by (rule triple_stored) (auto split: prod.splits sum.splits)

lemma receive_loop_returns: "returns (receive_loop env src wanted n rv)"
proof (induction n arbitrary: rv)
  case (Suc n)
  then show ?case
    by (auto simp: check_message_def split: sync_message.split prod.split
        intro!: triple_bind[OF triple_recv] triple_bind[OF triple_lift] triple_bind[OF returns_stored] triple_ret triple_lift)
qed (auto intro: triple_lift)

lemma receive_loop_ok:
  "receive_loop env src wanted n rv s = Some (r, s') \<Longrightarrow> received_ok env src wanted n rv s r s'"
proof (induction n arbitrary: rv s)
  case 0
  then show ?case by (intro received_stop[where got = "[]"]) (auto simp: lift_def)
next
  case (Suc n)
  from recv_returns obtain r1 s1 where r1: "recv s = Some (r1, s1)" by blast
  from r1 show ?case
  proof (cases rule: recv_cases)
    case (failed e got)
    with Suc.prems r1 show ?thesis by (intro received_stop[where got = got]) (auto simp: bind_act_def)
  next
    case (got m)
    have stop: "received_ok env src wanted (Suc n) rv s r s'"
      if "s' = s1" "\<And>rv'. r = Inr rv' \<Longrightarrow> rv_applied rv' = rv_applied rv \<and> rv_floor rv' = rv_floor rv"
      using that got by (intro received_stop[where got = "[Inr m]"]) (auto simp: took_def)
    show ?thesis
    proof (cases "validate (en_wire env) m")
      case (Inl e)
      with Suc.prems r1 got show ?thesis
        by (intro stop) (auto simp: bind_act_def check_message_def lift_def)
    next
      case valid: (Inr u)
      show ?thesis
      proof (cases "\<exists>items. m = Items items")
        case False
        with Suc.prems r1 got valid show ?thesis
          by (intro stop) (auto simp: bind_act_def check_message_def lift_def ret_def split: sync_message.splits)
      next
        case True
        then obtain items where m: "m = Items items" by blast
        obtain rv1 batch marks where acc: "accept_all (en_wire env) wanted items (rv, [], []) = (rv1, batch, marks)"
          by (cases "accept_all (en_wire env) wanted items (rv, [], [])")
        obtain res st' where ap: "so_apply_batch src batch (wd_store s1) = (res, st')" by fastforce
        have run: "(if batch = [] then receive_loop env src wanted n rv1 s1
            else case res of Inl e \<Rightarrow> Some (Inl e, s1\<lparr>wd_store := st'\<rparr>)
              | Inr os \<Rightarrow> receive_loop env src wanted n (tally (zip os marks) rv1) (s1\<lparr>wd_store := st'\<rparr>)) = Some (r, s')"
          using Suc.prems r1 got valid m acc ap
          by (auto simp: bind_act_def check_message_def lift_def stored_def split: sum.splits)
        show ?thesis
        proof (cases "batch = []")
          case True
          with run have "received_ok env src wanted n rv1 s1 r s'" by (simp add: Suc.IH)
          with True acc show ?thesis by (blast intro: received_nothing[OF got(2)])
        next
          case False
          with run Suc.IH received_step[OF got(2) acc] received_failed[OF got(2) acc] ap show ?thesis
            by (auto split: sum.splits)
        qed
      qed
    qed
  qed
qed


lemma receive_items_ok:
  assumes "receive_items env src wanted st s = Some (r, s')"
  shows "\<exists>bs stored_items. feed src bs (wd_store s) = (wd_store s', stored_items)
     \<and> (\<forall>i \<in> set (concat bs). promised (en_wire env) wanted i) \<and> distinct (map i_item_id (concat bs))
     \<and> sent s' = sent s
     \<and> (\<forall>rv. r = Inr rv \<longrightarrow> rv_applied rv = item_ids (concat bs)
          \<and> covers (rv_floor rv) ((\<lambda>i. summary_key (summary i)) ` set stored_items))"
proof -
  have "covers None {}" by (simp add: covers_def)
  with receive_loop_ok[OF assms[unfolded receive_items_def]] show ?thesis
    unfolding received_ok_def fresh_batch_def
    by (elim exE, rule_tac x = bs in exI, rule_tac x = stored_items in exI) (auto split: sum.splits)
qed

section \<open>Properties of a request and its answer\<close>

definition demo_text :: sync_item where
  "demo_text = demo_item\<lparr>i_content := ''h'', i_content_hash := ''hh''\<rparr>"

definition demo_env :: "memory_workspace env" where
  "demo_env = \<lparr>en_wire = demo_wire demo_crypto, en_ops = memory_ops fm_values, en_now = 100, en_key_order = fm_keys\<rparr>"

text \<open>A store that is a list of items and takes every item of a batch.\<close>

definition demo_source :: "(sync_item list, memory_workspace) source" where
  "demo_source =
     \<lparr>so_device_id = ''b'', so_device_name = ''B'', so_device_profile = demo_profile,
      so_summary_workspace = (\<lambda>st. (Inr memory_workspace_default, st)),
      so_summary_page = (\<lambda>since after limit st. (Inr (if after = None then map summary st else []), st)),
      so_local_summaries = (\<lambda>ids st. (Inr (filter (\<lambda>c. s_item_id c \<in> set ids) (map summary st)), st)),
      so_fetch = (\<lambda>ids st. (Inr (filter (\<lambda>i. i_item_id i \<in> set ids) st), st)),
      so_apply_batch = (\<lambda>b st. (Inr (map (\<lambda>_. True) b), st @ b))\<rparr>"

definition demo_world :: "sync_message list \<Rightarrow> sync_item list \<Rightarrow> sync_item list world" where
  "demo_world msgs st = \<lparr>wd_chan = \<lparr>ch_in = map Inr msgs, ch_out = [], ch_fault = (\<lambda>_. None)\<rparr>, wd_store = st\<rparr>"

lemma demo_text_ok: "item_ok mo demo_text"
  by (simp add: item_ok_def demo_text_def demo_item_def limit_defs content_type_file_def content_len_def
      usize_saturating_add_def)

lemma demo_text_valid: "validate (en_wire demo_env) (Items [demo_text]) = Inr ()"
  unfolding items_valid_iff
  by (simp add: demo_text_ok) (simp add: demo_text_def demo_item_def content_len_def metadata_len_def
      usize_saturating_add_def limit_defs)

definition demo_wanted :: summaries where
  "demo_wanted = fmupd ''i'' (summary demo_text) fmempty"

lemma demo_accepts:
  "accept_all (en_wire demo_env) demo_wanted [demo_text]
     (\<lparr>rv_applied = {||}, rv_received = {||}, rv_floor = None, rv_stats = st\<rparr>, [], [])
   = (\<lparr>rv_applied = {|''i''|}, rv_received = {|''i''|}, rv_floor = None, rv_stats = st\<rparr>, [demo_text], [5])"
  using item_ok_summary_eq[OF demo_text_ok]
  by (simp add: accept_one_def demo_wanted_def Let_def summary_key_def)
     (simp add: demo_text_def demo_item_def plaintext_content_hash_def demo_env_def demo_wire_def
        demo_crypto_def payload_def)

lemma demo_receives:
  "\<exists>rv. receive_items demo_env demo_source demo_wanted sync_stats_default
       (demo_world [Items [demo_text], Done] []) = Some (Inr rv, demo_world [] [demo_text])"
proof -
  have "usize_saturating_add (fm_len demo_wanted) 2 = Suc (Suc (Suc 0))"
    by (simp add: usize_saturating_add_def demo_wanted_def fm_len_upd usize_max_def)
  moreover have "validate (en_wire demo_env) Done = Inr ()" by simp
  ultimately show ?thesis
    using demo_accepts[of sync_stats_default] demo_text_valid
    by (simp add: receive_items_def bind_act_def recv_def demo_world_def check_message_def lift_def
        stored_def ret_def demo_source_def del: validate.simps)
qed

text \<open>
  A request is answered with what was advertised and nothing else. Whatever the peer asks
  for and whatever the store fetches, serving returns, and what it puts on the wire is a sequence of
  messages each of which passes the bounds a receiver enforces, every item of which was both
  requested and advertised, no item twice and no deleted item with its payload; \<open>Done\<close> follows
  exactly when serving succeeds.
\<close>

theorem serving_is_confined:
  "\<exists>r s' batches. serve_items env src advertised requested st s = Some (r, s')
     \<and> ch_out (wd_chan s') = ch_out (wd_chan s) @ map Items batches @ (if isl r then [] else [Done])
     \<and> batches_ok (en_wire env) (set requested \<inter> fset (fmdom advertised)) batches"
proof -
  note t = triple_serve_items[OF refl, of "sent s" env src advertised requested st]
  from triple_returns[OF t refl] obtain r s' where r: "serve_items env src advertised requested st s = Some (r, s')"
    by blast
  then show ?thesis
    using tripleD[OF t refl] by (cases r) (fastforce simp: sent_def)+
qed

text \<open>
  What arrives is applied only if it was promised. Whatever the peer sends, the
  store is changed only by batches of items whose id was requested, whose summary is the one the
  plan was made from and whose payload has the hash that summary names, a deleted item without its
  text, and no item twice in a session; the receiver sends nothing meanwhile. On success the ids
  recorded as applied are exactly those, and the floor is at or below every item stored.
\<close>

theorem receiving_is_confined:
  assumes "receive_items env src wanted st s = Some (r, s')"
  shows "\<exists>bs stored_items. feed src bs (wd_store s) = (wd_store s', stored_items)
     \<and> (\<forall>i \<in> set (concat bs). promised (en_wire env) wanted i) \<and> distinct (map i_item_id (concat bs))
     \<and> ch_out (wd_chan s') = ch_out (wd_chan s)
     \<and> (\<forall>rv. r = Inr rv \<longrightarrow> rv_applied rv = item_ids (concat bs)
          \<and> covers (rv_floor rv) ((\<lambda>i. summary_key (summary i)) ` set stored_items))"
  using receive_items_ok[OF assms] by (simp add: sent_def)

theorem receiving_is_confined_witness:
  "\<exists>rv bs stored_items. receive_items demo_env demo_source demo_wanted sync_stats_default
       (demo_world [Items [demo_text], Done] []) = Some (Inr rv, demo_world [] [demo_text])
     \<and> feed demo_source bs [] = ([demo_text], stored_items) \<and> distinct (map i_item_id (concat bs))
     \<and> rv_applied rv = item_ids (concat bs)"
proof -
  from demo_receives obtain rv where rv: "receive_items demo_env demo_source demo_wanted sync_stats_default
       (demo_world [Items [demo_text], Done] []) = Some (Inr rv, demo_world [] [demo_text])" by blast
  from receiving_is_confined[OF rv] show ?thesis
    using rv by (auto simp: demo_world_def)
qed

text \<open>
  Receiving ends. For every peer, however many messages it has to send, the receiver
  returns after at most two messages more than it asked items for.
\<close>

theorem receiving_is_bounded:
  "\<exists>r s' got. receive_items env src wanted st s = Some (r, s')
     \<and> ch_in (wd_chan s) = got @ ch_in (wd_chan s') \<and> length got \<le> fm_len wanted + 2"
proof -
  from triple_returns[OF receive_loop_returns] obtain r s' where r: "receive_items env src wanted st s = Some (r, s')"
    unfolding receive_items_def by blast
  have "usize_saturating_add (fm_len wanted) 2 \<le> fm_len wanted + 2" by (simp add: usize_saturating_add_def)
  with receive_loop_ok[OF r[unfolded receive_items_def]] r show ?thesis
    unfolding received_ok_def by (meson order_trans)
qed

end
