(* ===== verification/Sync_Run.thy ===== *)
theory Sync_Run
  imports Session_Props
begin

text \<open>
  A whole session, from the first message to the cursor it leaves behind: \<open>run_initiator\<close> and
  \<open>run_responder\<close> over any workspace that keeps its contract. The local store is assumed to do
  what its trait documents: reading does not change it (\<open>reads_only\<close>), it opens an empty
  workspace (\<open>opens_empty\<close>), and it answers with the row it has for each id asked about
  (\<open>local_rows\<close>).
\<close>

section \<open>What the local store documents\<close>

definition reads_only :: "('st, 'w) source \<Rightarrow> bool" where
  "reads_only src \<longleftrightarrow>
     (\<forall>st. snd (so_summary_workspace src st) = st)
     \<and> (\<forall>since after limit st. snd (so_summary_page src since after limit st) = st)
     \<and> (\<forall>ids st. snd (so_local_summaries src ids st) = st)
     \<and> (\<forall>ids st. snd (so_fetch src ids st) = st)"

definition opens_empty :: "('w \<Rightarrow> bool) \<Rightarrow> ('w \<Rightarrow> memory_workspace) \<Rightarrow> ('st, 'w) source \<Rightarrow> bool" where
  "opens_empty good absw src \<longleftrightarrow>
     (\<forall>st w. fst (so_summary_workspace src st) = Inr w \<longrightarrow> good w \<and> absw w = memory_workspace_default)"

definition local_rows :: "('st, 'w) source \<Rightarrow> 'st \<Rightarrow> (string \<Rightarrow> item_summary option) \<Rightarrow> bool" where
  "local_rows src st tbl \<longleftrightarrow>
     (\<forall>ids xs k. fst (so_local_summaries src ids st) = Inr xs \<longrightarrow>
        fmlookup (insert_all xs fmempty) k = (if k \<in> set ids then tbl k else None))"

lemma triple_read:
  assumes "\<And>st. snd (f st) = st" and "\<And>s a. P s \<Longrightarrow> fst (f (wd_store s)) = Inr a \<Longrightarrow> Q a s"
    and "\<And>s. P s \<Longrightarrow> E s"
  shows "triple P (stored f) Q E"
proof (rule triple_stored)
  fix s :: "'a world"
  assume P: "P s"
  obtain r st where f: "f (wd_store s) = (r, st)" by fastforce
  with assms(1)[of "wd_store s"] have "st = wd_store s" by simp
  with f assms(2,3)[OF P] show "case f (wd_store s) of (Inr a, st) \<Rightarrow> Q a (s\<lparr>wd_store := st\<rparr>)
      | (Inl e, st) \<Rightarrow> E (s\<lparr>wd_store := st\<rparr>)"
    by (auto split: sum.split)
qed

lemma triple_conj:
  "triple P m Q E \<Longrightarrow> triple P' m Q' E' \<Longrightarrow>
   triple (\<lambda>s. P s \<and> P' s) m (\<lambda>a s. Q a s \<and> Q' a s) (\<lambda>s. E s \<and> E' s)"
  by (fastforce simp: triple_def split: option.splits sum.splits)

lemma triple_assume: "(A \<Longrightarrow> triple P m Q E) \<Longrightarrow> triple (\<lambda>s. P s \<and> A) m Q E"
  by (auto simp: triple_def)

lemma triple_lift_then:
  assumes "\<And>s. P s \<Longrightarrow> E s" and "\<And>a. r = Inr a \<Longrightarrow> triple P (k a) Q E"
  shows "triple P (bind_act (lift r) k) Q E"
  by (rule triple_bind[where Q = "\<lambda>a s. P s \<and> r = Inr a"]) (auto intro!: triple_lift triple_assume assms)

lemma insert_all_lookup:
  "fmlookup (insert_all xs m) k =
     (case fmlookup (insert_all xs fmempty) k of None \<Rightarrow> fmlookup m k | Some c \<Rightarrow> Some c)"
proof (induction xs arbitrary: m)
  case (Cons x xs)
  show ?case
    using Cons.IH[of "fmupd (s_item_id x) x m"] Cons.IH[of "fmupd (s_item_id x) x fmempty"]
    by (auto split: option.splits)
qed simp

section \<open>Exchanging summaries\<close>

type_synonym page = "item_summary list \<times> bool"

definition page_msg :: "page \<Rightarrow> sync_message" where
  "page_msg p = Summary (fst p) (snd p)"

definition rows :: "page list \<Rightarrow> item_summary list" where
  "rows ps = concat (map fst ps)"

text \<open>The world after \<open>mine\<close> was sent and \<open>inbound\<close> received, and nothing was stored.\<close>

definition swapped ::
  "'st \<Rightarrow> sync_message list \<Rightarrow> (sync_error + sync_message) list \<Rightarrow> page list \<Rightarrow> page list \<Rightarrow> 'st world \<Rightarrow> bool" where
  "swapped st0 before input mine inbound s \<longleftrightarrow>
     wd_store s = st0 \<and> sent s = before @ map page_msg mine
     \<and> input = map (\<lambda>p. Inr (page_msg p)) inbound @ ch_in (wd_chan s)"

definition swap_failed :: "'st \<Rightarrow> sync_message list \<Rightarrow> nat \<Rightarrow> 'st world \<Rightarrow> bool" where
  "swap_failed st0 before n s \<longleftrightarrow>
     wd_store s = st0 \<and> (\<exists>mine. sent s = before @ map page_msg mine \<and> length mine \<le> n)"

definition compared :: "(string \<Rightarrow> item_summary option) \<Rightarrow> string set \<Rightarrow> summaries \<Rightarrow> bool" where
  "compared tbl seen m \<longleftrightarrow>
     (\<forall>k c. fmlookup m k = Some c \<longrightarrow> tbl k = Some c) \<and> (\<forall>k \<in> seen. fmlookup m k = tbl k)"

text \<open>The workspace at that point: \<open>seen\<close> are the ids that were compared with the local rows.\<close>

definition gathered ::
  "(string \<Rightarrow> item_summary option) \<Rightarrow> page list \<Rightarrow> string set \<Rightarrow> page list \<Rightarrow> memory_workspace \<Rightarrow> bool" where
  "gathered tbl mine seen inbound m \<longleftrightarrow>
     mw_advertised m = insert_all (rows mine) fmempty \<and> mw_remote m = rows inbound
     \<and> mw_wanted m = fmempty \<and> mw_deferred m = {||}
     \<and> compared tbl seen (mw_comparison m)"

lemma swap_failedI: "swapped st0 before input mine inbound s \<Longrightarrow> length mine \<le> n \<Longrightarrow> swap_failed st0 before n s"
  by (auto simp: swapped_def swap_failed_def)

lemma rows_append [simp]: "rows (ps @ qs) = rows ps @ rows qs"
  by (simp add: rows_def)

lemma rows_single [simp]: "rows [p] = fst p" "rows [] = []"
  by (simp_all add: rows_def)

lemma compared_lookup: "compared tbl seen m \<Longrightarrow> k \<in> seen \<Longrightarrow> fmlookup m k = tbl k"
  unfolding compared_def by blast

lemma compared_more:
  assumes "compared tbl seen m" and "local_rows src st tbl"
    and "fst (so_local_summaries src ids st) = Inr xs"
  shows "compared tbl (seen \<union> set ids) (insert_all xs m)"
proof -
  have xs: "fmlookup (insert_all xs fmempty) k = (if k \<in> set ids then tbl k else None)" for k
    using assms(2,3) by (auto simp: local_rows_def)
  have old: "fmlookup m k = Some c \<Longrightarrow> tbl k = Some c" for k c
    using assms(1) unfolding compared_def by blast
  have "fmlookup (insert_all xs m) k = (if k \<in> set ids then tbl k else fmlookup m k)" for k
    using old[of k] unfolding insert_all_lookup[of xs m] xs
    by (cases "tbl k"; cases "fmlookup m k") simp_all
  with assms(1) show ?thesis unfolding compared_def by (metis Un_iff)
qed

lemma gathered_comparison:
  "gathered tbl mine seen inbound m \<Longrightarrow> local_rows src st tbl \<Longrightarrow>
   fst (so_local_summaries src ids st) = Inr xs \<Longrightarrow>
   gathered tbl mine (seen \<union> set ids) inbound (m\<lparr>mw_comparison := insert_all xs (mw_comparison m)\<rparr>)"
  by (simp add: gathered_def compared_more)

lemma gathered_remote:
  "gathered tbl mine seen inbound m \<Longrightarrow>
   gathered tbl mine seen (inbound @ [q]) (m\<lparr>mw_remote := mw_remote m @ fst q\<rparr>)"
  by (simp add: gathered_def)

lemma triple_receive_page:
  assumes "length mine \<le> n"
  shows "triple (swapped st0 before input mine inbound) (receive_page env)
     (\<lambda>p. swapped st0 before input mine (inbound @ [p])) (swap_failed st0 before n)"
proof -
  define Q where "Q m s \<longleftrightarrow> wd_store s = st0 \<and> sent s = before @ map page_msg mine
     \<and> input = map (\<lambda>p. Inr (page_msg p)) inbound @ Inr m # ch_in (wd_chan s)" for m and s :: "'a world"
  have failed: "Q m s \<Longrightarrow> swap_failed st0 before n s" for m s
    using assms by (auto simp: Q_def swap_failed_def)
  have "triple (swapped st0 before input mine inbound) recv Q (swap_failed st0 before n)"
    by (rule triple_recv) (use assms in \<open>auto simp: Q_def swapped_def took_def swap_failed_def\<close>)
  moreover have "triple (Q m) (bind_act (check_message (en_wire env) m) (\<lambda>_.
       case m of Summary items has_more \<Rightarrow> ret (items, has_more)
       | other \<Rightarrow> lift (Inl (Unexpected ''summary'' (kind other)))))
      (\<lambda>p. swapped st0 before input mine (inbound @ [p])) (swap_failed st0 before n)" for m
    by (rule triple_bind[where Q = "\<lambda>_. Q m"])
       (auto simp: check_message_def intro!: triple_lift triple_ret failed split: sync_message.split,
        auto simp: Q_def swapped_def page_msg_def)
  ultimately show ?thesis unfolding receive_page_def by (rule triple_bind)
qed


lemma triple_next_page:
  assumes "reads_only src" and "length mine \<le> n"
  shows "triple (swapped st0 before input mine inbound) (next_page src since_ms after_id)
     (\<lambda>p s. swapped st0 before input mine inbound s \<and> length (fst p) \<le> max_summaries_per_message)
     (swap_failed st0 before n)"
  unfolding next_page_def
proof (rule triple_bind[where Q = "\<lambda>_. swapped st0 before input mine inbound"])
  show "triple (swapped st0 before input mine inbound)
      (stored (so_summary_page src since_ms after_id (max_summaries_per_message + 1)))
      (\<lambda>_. swapped st0 before input mine inbound) (swap_failed st0 before n)"
    by (rule triple_read) (use assms in \<open>auto simp: reads_only_def intro: swap_failedI\<close>)
qed (auto intro!: triple_ret)

lemma triple_send_page:
  assumes "length mine < n"
  shows "triple (swapped st0 before input mine inbound) (send (Summary items has_more))
     (\<lambda>_. swapped st0 before input (mine @ [(items, has_more)]) inbound) (swap_failed st0 before n)"
proof (rule triple_send)
  fix s :: "'a world"
  assume "swapped st0 before input mine inbound s"
  then show "swapped st0 before input (mine @ [(items, has_more)]) inbound (put_out (Summary items has_more) s)"
    by (simp add: swapped_def page_msg_def) (simp add: put_out_def)
qed (use assms in \<open>auto intro: swap_failedI\<close>)

text \<open>
  What an exchange that succeeded leaves: the workspace holds exactly what was sent, what came in,
  and the local row of every id that came in.
\<close>

definition exchanged ::
  "('w \<Rightarrow> bool) \<Rightarrow> ('w \<Rightarrow> memory_workspace) \<Rightarrow> (string \<Rightarrow> item_summary option) \<Rightarrow> 'st \<Rightarrow> sync_message list
   \<Rightarrow> (sync_error + sync_message) list \<Rightarrow> nat \<Rightarrow> 'w \<Rightarrow> 'st world \<Rightarrow> bool" where
  "exchanged good absw tbl st0 before input n w s \<longleftrightarrow> (\<exists>mine inbound.
     swapped st0 before input mine inbound s \<and> good w
     \<and> gathered tbl mine (s_item_id ` set (rows inbound)) inbound (absw w)
     \<and> length mine = length inbound \<and> length mine \<le> n
     \<and> (\<forall>p \<in> set mine. length (fst p) \<le> max_summaries_per_message)
     \<and> inbound \<noteq> [] \<and> \<not> snd (last inbound) \<and> \<not> snd (last mine))"

context summary_workspace
begin

lemma triple_compare:
  fixes src :: "('st, 'w) source"
  assumes "reads_only src" and rows: "local_rows src st0 tbl" and "length mine \<le> N"
    and inv: "inv w" and so_far: "gathered tbl mine (s_item_id ` set (rows inbound)) inbound (absw w)"
    and k: "\<And>w'. inv w' \<Longrightarrow> gathered tbl mine (s_item_id ` set (rows (inbound @ [q]))) (inbound @ [q]) (absw w') \<Longrightarrow>
       triple (swapped st0 before input mine (inbound @ [q])) (k w') Q (swap_failed st0 before N)"
  shows "triple (swapped st0 before input mine (inbound @ [q]))
     (bind_act (stored (so_local_summaries src (map s_item_id (fst q)))) (\<lambda>comparison.
      bind_act (lift (wo_add_comparison ops comparison w)) (\<lambda>ws.
      bind_act (lift (wo_add_remote ops (fst q) ws)) k))) Q (swap_failed st0 before N)"
proof (rule triple_bind[where Q = "\<lambda>xs s. swapped st0 before input mine (inbound @ [q]) s
      \<and> fst (so_local_summaries src (map s_item_id (fst q)) st0) = Inr xs"])
  show "triple (swapped st0 before input mine (inbound @ [q])) (stored (so_local_summaries src (map s_item_id (fst q))))
     (\<lambda>xs s. swapped st0 before input mine (inbound @ [q]) s
      \<and> fst (so_local_summaries src (map s_item_id (fst q)) st0) = Inr xs) (swap_failed st0 before N)"
    by (rule triple_read) (use assms(1,3) in \<open>auto simp: reads_only_def swapped_def intro: swap_failedI\<close>)
  fix xs
  show "triple (\<lambda>s. swapped st0 before input mine (inbound @ [q]) s
      \<and> fst (so_local_summaries src (map s_item_id (fst q)) st0) = Inr xs)
     (bind_act (lift (wo_add_comparison ops xs w)) (\<lambda>ws. bind_act (lift (wo_add_remote ops (fst q) ws)) k))
     Q (swap_failed st0 before N)"
  proof (intro triple_assume triple_lift_then)
    fix w1 w2
    assume xs: "fst (so_local_summaries src (map s_item_id (fst q)) st0) = Inr xs"
      and w1: "wo_add_comparison ops xs w = Inr w1" and w2: "wo_add_remote ops (fst q) w1 = Inr w2"
    note a1 = add_comparison[OF inv w1]
    note a2 = add_remote[OF conjunct1[OF a1] w2]
    have "gathered tbl mine (s_item_id ` set (rows (inbound @ [q]))) (inbound @ [q]) (absw w2)"
      using gathered_remote[OF gathered_comparison[OF so_far rows xs], of q] conjunct2[OF a1] conjunct2[OF a2]
      by (simp only: rows_append rows_single set_append image_Un set_map)
    with a2 k show "triple (swapped st0 before input mine (inbound @ [q])) (k w2) Q (swap_failed st0 before N)" by blast
  qed (use assms(3) in \<open>auto intro: swap_failedI\<close>)
qed

lemma triple_exchange:
  fixes src :: "('st, 'w) source"
  assumes "en_ops env = ops" and "reads_only src" and "local_rows src st0 tbl"
    and "inv w" and "gathered tbl mine (s_item_id ` set (rows inbound)) inbound (absw w)"
    and "length mine = length inbound" and "length mine + n = N"
    and "\<forall>p \<in> set mine. length (fst p) \<le> max_summaries_per_message"
  shows "triple (swapped st0 before input mine inbound) (exchange_loop env src initiator n since_ms after_id w)
     (exchanged inv absw tbl st0 before input N) (swap_failed st0 before N)"
  using assms(4-8)
proof (induction n arbitrary: since_ms after_id w mine inbound)
  case 0
  then show ?case by (auto intro!: triple_lift intro: swap_failedI)
next
  case (Suc n)
  let ?E = "swap_failed st0 before N :: 'st world \<Rightarrow> bool"
  let ?W = "swapped st0 before input :: page list \<Rightarrow> page list \<Rightarrow> 'st world \<Rightarrow> bool"
  have lt: "length mine < N" "length mine \<le> N" using Suc.prems(4) by auto
  define first where "first pf = (case pf of None \<Rightarrow> inbound | Some p \<Rightarrow> inbound @ [p])" for pf :: "page option"
  have start: "triple (?W mine inbound)
        (if initiator then ret None else bind_act (receive_page env) (\<lambda>p. ret (Some p)))
        (\<lambda>pf. ?W mine (first pf)) ?E"
    by (auto simp: first_def intro!: triple_ret triple_bind[OF triple_receive_page[OF lt(2)]])
  have page: "triple (?W (mine @ [p]) (first pf)) (case pf of Some p \<Rightarrow> ret p | None \<Rightarrow> receive_page env)
        (\<lambda>q. ?W (mine @ [p]) (inbound @ [q])) ?E" for p pf
    using lt by (auto simp: first_def intro!: triple_ret triple_receive_page split: option.split)
  have rest: "triple (?W (mine @ [p]) (inbound @ [q]))
      (if \<not> snd p \<and> \<not> snd q then ret w' else exchange_loop env src initiator n since' after' w')
      (exchanged inv absw tbl st0 before input N) ?E"
    if "inv w'" "gathered tbl (mine @ [p]) (s_item_id ` set (rows (inbound @ [q]))) (inbound @ [q]) (absw w')"
      "length (fst p) \<le> max_summaries_per_message" for p q w' since' after'
  proof (cases "\<not> snd p \<and> \<not> snd q")
    case True
    then show ?thesis
      using that Suc.prems lt unfolding if_P[OF True] exchanged_def
      by (intro triple_ret exI[of _ "mine @ [p]"] exI[of _ "inbound @ [q]"]) auto
  next
    case False
    with Suc.IH[OF that(1,2), of since' after'] Suc.prems that(3) show ?thesis unfolding if_not_P[OF False] by simp
  qed
  show ?case
    unfolding exchange_loop.simps assms(1) split_def
  proof (rule triple_bind[OF start], rule triple_bind[OF triple_next_page[OF assms(2) lt(2)]],
      rule triple_assume, rule triple_lift_then)
    fix pf and p :: page and w1
    assume short: "length (fst p) \<le> max_summaries_per_message" and w1: "wo_add_advertised ops (fst p) w = Inr w1"
    have w1': "inv w1" "gathered tbl (mine @ [p]) (s_item_id ` set (rows inbound)) inbound (absw w1)"
      using add_advertised[OF Suc.prems(1) w1] Suc.prems(2) by (auto simp: gathered_def insert_all_append)
    have sent: "triple (?W mine (first pf)) (send (Summary (fst p) (snd p))) (\<lambda>_. ?W (mine @ [p]) (first pf)) ?E"
      using triple_send_page[OF lt(1), of st0 before input "first pf" "fst p" "snd p"] by simp
    show "triple (?W mine (first pf)) (bind_act (send (Summary (fst p) (snd p))) (\<lambda>_.
        bind_act (case pf of Some p \<Rightarrow> ret p | None \<Rightarrow> receive_page env) (\<lambda>q.
        bind_act (stored (so_local_summaries src (map s_item_id (fst q)))) (\<lambda>comparison.
        bind_act (lift (wo_add_comparison ops comparison w1)) (\<lambda>ws.
        bind_act (lift (wo_add_remote ops (fst q) ws)) (\<lambda>ws.
          if \<not> snd p \<and> \<not> snd q then ret ws
          else exchange_loop env src initiator n
                (if fst p = [] then since_ms else summary_key (last (fst p)))
                (if fst p = [] then after_id else Some (s_item_id (last (fst p)))) ws))))))
      (exchanged inv absw tbl st0 before input N) ?E"
      using lt(1) by (intro triple_bind[OF sent] triple_bind[OF page] triple_compare[OF assms(2,3) _ w1'] rest short) auto
  qed (use lt in \<open>auto intro: swap_failedI\<close>)
qed

end


section \<open>What a session does to the store and says to the peer\<close>

text \<open>Every summary among the messages the peer had to send.\<close>

fun heard :: "(sync_error + sync_message) list \<Rightarrow> item_summary list" where
  "heard [] = []"
| "heard (Inr (Summary items has_more) # rest) = items @ heard rest"
| "heard (x # rest) = heard rest"

definition newer :: "(string \<Rightarrow> item_summary option) \<Rightarrow> item_summary \<Rightarrow> bool" where
  "newer tbl r \<longleftrightarrow> (case tbl (s_item_id r) of None \<Rightarrow> True | Some l \<Rightarrow> remote_version_wins l r)"

text \<open>An item may be applied when the peer summarised it, it wins over the local row, and its payload is the one promised.\<close>

definition justified ::
  "wire \<Rightarrow> int \<Rightarrow> (string \<Rightarrow> item_summary option) \<Rightarrow> item_summary list \<Rightarrow> sync_item \<Rightarrow> bool" where
  "justified w ceil tbl log i \<longleftrightarrow>
     (\<exists>r \<in> set log. summary_eq (summary i) r \<and> summary_key r \<le> ceil \<and> newer tbl r)
     \<and> (\<not> i_deleted i \<longrightarrow> plaintext_content_hash w (fst (payload i)) = i_content_hash i)"

definition changed ::
  "wire \<Rightarrow> ('st, 'w) source \<Rightarrow> int \<Rightarrow> (string \<Rightarrow> item_summary option) \<Rightarrow> item_summary list \<Rightarrow> 'st
   \<Rightarrow> sync_item list list \<Rightarrow> sync_item list \<Rightarrow> 'st \<Rightarrow> bool" where
  "changed w src ceil tbl log st0 bs stored_items st \<longleftrightarrow>
     feed src bs st0 = (st, stored_items) \<and> distinct (map i_item_id (concat bs))
     \<and> (\<forall>i \<in> set (concat bs). justified w ceil tbl log i)"

text \<open>What the cursor may step over: every version below it is settled.\<close>

definition cursor_ok ::
  "int \<Rightarrow> (string \<Rightarrow> item_summary option) \<Rightarrow> item_summary list \<Rightarrow> sync_item list list \<Rightarrow> int \<Rightarrow> bool" where
  "cursor_ok ceil tbl log bs t \<longleftrightarrow> (\<forall>r \<in> set log. summary_key r < t \<longrightarrow>
     summary_key r \<le> ceil \<and> (newer tbl r \<longrightarrow>
       (\<exists>i \<in> set (concat bs). i_item_id i = s_item_id r \<and> content_key r \<le> content_key (summary i))))"

text \<open>Every item sent was summarised to the same peer.\<close>

definition spoken :: "sync_message list \<Rightarrow> bool" where
  "spoken out \<longleftrightarrow> (\<forall>b i. Items b \<in> set out \<longrightarrow> i \<in> set b \<longrightarrow>
     (\<exists>items has_more. Summary items has_more \<in> set out \<and> i_item_id i \<in> s_item_id ` set items))"

lemma heard_append [simp]: "heard (xs @ ys) = heard xs @ heard ys"
  by (induction xs rule: heard.induct) auto

lemma heard_pages [simp]: "heard (map (\<lambda>p. Inr (page_msg p)) ps) = rows ps"
  by (induction ps) (auto simp: page_msg_def rows_def)

lemma insert_all_dom: "fset (fmdom (insert_all xs m)) = s_item_id ` set xs \<union> fset (fmdom m)"
  by (induction xs arbitrary: m) auto

lemma plan_justifies:
  assumes "plan_ok ceil m wanted m'" and "gathered tbl mine (s_item_id ` set (rows inbound)) inbound m"
    and "promised w wanted i"
  shows "justified w ceil tbl (rows inbound) i"
proof -
  from assms(3) obtain p where p: "fmlookup wanted (i_item_id i) = Some p" "summary_eq (summary i) p"
    by (auto simp: promised_def)
  with assms(1) have r: "p \<in> set (mw_remote m)" "eligible ceil (mw_comparison m) p"
    by (auto simp: plan_ok_def)
  have log: "mw_remote m = rows inbound" and "compared tbl (s_item_id ` set (rows inbound)) (mw_comparison m)"
    using assms(2) by (auto simp: gathered_def)
  with r have "fmlookup (mw_comparison m) (s_item_id p) = tbl (s_item_id p)"
    by (intro compared_lookup) auto
  with r(2) have "newer tbl p" "summary_key p \<le> ceil" by (simp_all add: eligible_def newer_def)
  with p r(1) log assms(3) show ?thesis by (auto simp: justified_def promised_def)
qed

lemma justified_mono: "justified w ceil tbl log i \<Longrightarrow> set log \<subseteq> set log' \<Longrightarrow> justified w ceil tbl log' i"
  by (auto simp: justified_def)

lemma plan_changed:
  assumes "plan_ok ceil m wanted m'" and "gathered tbl mine (s_item_id ` set (rows inbound)) inbound m"
    and "set (rows inbound) \<subseteq> set log" and "feed src bs st0 = (st1, si)"
    and "distinct (map i_item_id (concat bs))" and "\<forall>i \<in> set (concat bs). promised w wanted i"
  shows "changed w src ceil tbl log st0 bs si st1"
  unfolding changed_def using assms(3-6) plan_justifies[OF assms(1,2)] justified_mono by blast

lemma plan_cursor_ok:
  assumes "plan_ok ceil m wanted m'" and "gathered tbl mine (s_item_id ` set (rows inbound)) inbound m"
    and "\<forall>i \<in> set (concat bs). promised w wanted i"
    and "t = watermark (mw_deferred m') wanted (item_ids (concat bs)) (mw_remote m') previous i64_max"
  shows "cursor_ok ceil tbl (rows inbound) bs t"
  unfolding cursor_ok_def
proof (intro ballI impI)
  fix r
  assume "r \<in> set (rows inbound)" and key: "summary_key r < t"
  have "mw_remote m = rows inbound" and "compared tbl (s_item_id ` set (rows inbound)) (mw_comparison m)"
    using assms(2) by (auto simp: gathered_def)
  with \<open>r \<in> set (rows inbound)\<close> have r: "r \<in> set (mw_remote m)"
    and row: "fmlookup (mw_comparison m) (s_item_id r) = tbl (s_item_id r)"
    by (auto intro: compared_lookup)
  then have el: "eligible ceil (mw_comparison m) r \<longleftrightarrow> summary_key r \<le> ceil \<and> newer tbl r"
    by (simp add: eligible_def newer_def)
  show "summary_key r \<le> ceil \<and> (newer tbl r \<longrightarrow>
      (\<exists>i \<in> set (concat bs). i_item_id i = s_item_id r \<and> content_key r \<le> content_key (summary i)))"
  proof (intro conjI impI)
    show ceil: "summary_key r \<le> ceil" using version_resolved[OF assms(1,4) r key] by blast
    assume "newer tbl r"
    with version_resolved[OF assms(1,4) r key] el ceil obtain p where
      at: "s_item_id r |\<in>| item_ids (concat bs)" and p: "fmlookup wanted (s_item_id r) = Some p"
      "content_key r \<le> content_key p" by blast
    from at have "s_item_id r \<in> i_item_id ` set (concat bs)" by (simp add: fset_of_list.rep_eq)
    then obtain i where i: "i \<in> set (concat bs)" "i_item_id i = s_item_id r" by (metis imageE)
    with assms(3) have "promised w wanted i" by blast
    with i p(1) have "summary_eq (summary i) p" by (auto simp: promised_def)
    then have "content_key (summary i) = content_key p" by (simp add: summary_eq_def content_key_def)
    with i p(2) show "\<exists>i \<in> set (concat bs). i_item_id i = s_item_id r \<and> content_key r \<le> content_key (summary i)"
      by metis
  qed
qed


text \<open>Steps that leave the store alone.\<close>

definition keeps :: "('st, 'a) act \<Rightarrow> bool" where
  "keeps m \<longleftrightarrow> (\<forall>st. triple (\<lambda>s. wd_store s = st) m (\<lambda>_ s. wd_store s = st) (\<lambda>s. wd_store s = st))"

lemma keeps_bind: "keeps m \<Longrightarrow> (\<And>a. keeps (f a)) \<Longrightarrow> keeps (bind_act m f)"
  unfolding keeps_def by (blast intro: triple_bind)

lemma keeps_basic: "keeps (ret a)" "keeps (lift r)" "keeps (send m)"
  by (auto simp: keeps_def put_out_def intro: triple_ret triple_lift triple_send)

lemma keeps_read: "(\<And>st. snd (f st) = st) \<Longrightarrow> keeps (stored f)"
  by (auto simp: keeps_def intro: triple_read)

lemma keeps_serve_one: "keeps (serve_one mo chunk item sv)"
  by (auto simp: serve_one_def flush_def Let_def intro!: keeps_bind keeps_basic)

lemma keeps_serve_fetched: "keeps (serve_fetched mo chunk items sv)"
  by (induction items arbitrary: sv) (auto intro!: keeps_bind keeps_basic keeps_serve_one)

lemma keeps_serve_items:
  assumes "reads_only src"
  shows "keeps (serve_items env src advertised requested st)"
proof -
  have "keeps (serve_chunks mo src cs sv)" for mo cs sv
    by (induction cs arbitrary: sv)
       (use assms in \<open>auto simp: reads_only_def intro!: keeps_bind keeps_basic keeps_read keeps_serve_fetched\<close>)
  then show ?thesis
    by (auto simp: serve_items_def flush_def Let_def intro!: keeps_bind keeps_basic)
qed

text \<open>Serving, with the store: what is said stays within what was said before.\<close>

lemma spoken_serve:
  assumes "fset (fmdom advertised) \<subseteq> s_item_id ` set (rows mine)"
    and "set (map page_msg mine) \<subseteq> set out" and "spoken out" and "set tail \<subseteq> {Done}"
    and "batches_ok w (set requested \<inter> fset (fmdom advertised)) batches"
  shows "spoken (out @ map Items batches @ tail)"
  unfolding spoken_def
proof (intro allI impI)
  fix b i
  assume b: "Items b \<in> set (out @ map Items batches @ tail)" and i: "i \<in> set b"
  have "\<exists>items has_more. Summary items has_more \<in> set out \<and> i_item_id i \<in> s_item_id ` set items"
  proof (cases "Items b \<in> set out")
    case True
    with assms(3) i show ?thesis by (auto simp: spoken_def)
  next
    case False
    with b assms(4) have "b \<in> set batches" by auto
    with i have "i \<in> set (concat batches)" by auto
    with assms(5) have "i_item_id i \<in> fset (fmdom advertised)" unfolding batches_ok_def by blast
    with assms(1) obtain p where "p \<in> set mine" "i_item_id i \<in> s_item_id ` set (fst p)" by (auto simp: rows_def)
    moreover from this(1) assms(2) have "Summary (fst p) (snd p) \<in> set out" by (auto simp: page_msg_def)
    ultimately show ?thesis by blast
  qed
  then show "\<exists>items has_more. Summary items has_more \<in> set (out @ map Items batches @ tail)
      \<and> i_item_id i \<in> s_item_id ` set items" by auto
qed

lemma triple_serve:
  assumes "reads_only src" and "fset (fmdom advertised) \<subseteq> s_item_id ` set (rows mine)"
    and "set (map page_msg mine) \<subseteq> set out" and "spoken out"
  shows "triple (\<lambda>s. wd_store s = st1 \<and> sent s = before @ out) (serve_items env src advertised requested st)
     (\<lambda>_ s. wd_store s = st1 \<and> (\<exists>out'. sent s = before @ out @ out' \<and> spoken (out @ out')))
     (\<lambda>s. wd_store s = st1 \<and> (\<exists>out'. sent s = before @ out' \<and> spoken out'))"
proof -
  from keeps_serve_items[OF assms(1)]
  have "triple (\<lambda>s. wd_store s = st1) (serve_items env src advertised requested st)
      (\<lambda>_ s. wd_store s = st1) (\<lambda>s. wd_store s = st1)" by (simp add: keeps_def)
  from triple_conj[OF this triple_serve_items[OF refl, of "before @ out"]] show ?thesis
    by (rule triple_weaken)
       (use spoken_serve[OF assms(2-4), of "[Done]"] spoken_serve[OF assms(2-4), of "[]"] in fastforce)+
qed

lemma triple_receive_items:
  "triple (\<lambda>s. wd_store s = st1 \<and> sent s = out) (receive_items env src wanted st)
     (\<lambda>rv s. sent s = out \<and> (\<exists>bs si. feed src bs st1 = (wd_store s, si) \<and> distinct (map i_item_id (concat bs))
        \<and> (\<forall>i \<in> set (concat bs). promised (en_wire env) wanted i) \<and> rv_applied rv = item_ids (concat bs)
        \<and> covers (rv_floor rv) ((\<lambda>i. summary_key (summary i)) ` set si)))
     (\<lambda>s. sent s = out \<and> (\<exists>bs si. feed src bs st1 = (wd_store s, si) \<and> distinct (map i_item_id (concat bs))
        \<and> (\<forall>i \<in> set (concat bs). promised (en_wire env) wanted i)))"
  (is "triple ?P _ ?Q ?E")
  unfolding triple_def
proof (intro allI impI)
  fix s :: "'a world"
  assume P: "?P s"
  from triple_returns[OF receive_loop_returns] obtain r s' where r: "receive_items env src wanted st s = Some (r, s')"
    unfolding receive_items_def by blast
  from receive_items_ok[OF r] obtain bs si where
    *: "feed src bs (wd_store s) = (wd_store s', si)" "sent s' = sent s" "distinct (map i_item_id (concat bs))"
    "\<forall>i \<in> set (concat bs). promised (en_wire env) wanted i"
    "\<forall>rv. r = Inr rv \<longrightarrow> rv_applied rv = item_ids (concat bs)
        \<and> covers (rv_floor rv) ((\<lambda>i. summary_key (summary i)) ` set si)"
    by blast
  have same: "st1 = wd_store s" "out = sent s" using P by auto
  show "case receive_items env src wanted st s of None \<Rightarrow> False | Some (Inl e, s') \<Rightarrow> ?E s' | Some (Inr a, s') \<Rightarrow> ?Q a s'"
    unfolding r same by (cases r; simp only: option.case prod.case sum.case; use * in blast)
qed


section \<open>The session as a whole\<close>

text \<open>
  How a session ends. \<open>concluded\<close> on success, where \<open>input\<close> is what the peer had to send after its
  hello; \<open>broken\<close> on every error.
\<close>

definition concluded ::
  "wire \<Rightarrow> ('st, 'w) source \<Rightarrow> int \<Rightarrow> (string \<Rightarrow> item_summary option) \<Rightarrow> 'st \<Rightarrow> sync_message list
   \<Rightarrow> (sync_error + sync_message) list \<Rightarrow> sync_outcome \<Rightarrow> 'st world \<Rightarrow> bool" where
  "concluded w src ceil tbl st0 before input oc s \<longleftrightarrow> (\<exists>inbound rest bs si out.
     input = map (\<lambda>p. Inr (page_msg p)) inbound @ rest \<and> inbound \<noteq> [] \<and> \<not> snd (last inbound)
     \<and> changed w src ceil tbl (rows inbound) st0 bs si (wd_store s)
     \<and> cursor_ok ceil tbl (rows inbound) bs (cu_since_ms (oc_cursor oc))
     \<and> covers (oc_applied_floor oc) ((\<lambda>i. summary_key (summary i)) ` set si)
     \<and> sent s = before @ out \<and> spoken out)"

definition broken ::
  "wire \<Rightarrow> ('st, 'w) source \<Rightarrow> int \<Rightarrow> (string \<Rightarrow> item_summary option) \<Rightarrow> 'st \<Rightarrow> sync_message list
   \<Rightarrow> item_summary list \<Rightarrow> 'st world \<Rightarrow> bool" where
  "broken w src ceil tbl st0 before log s \<longleftrightarrow> (\<exists>bs si out.
     changed w src ceil tbl log st0 bs si (wd_store s) \<and> sent s = before @ out \<and> spoken out)"

lemma changed_none: "changed w src ceil tbl log st0 [] [] st0"
  by (simp add: changed_def)

lemma spoken_silent: "(\<And>b. Items b \<notin> set out) \<Longrightarrow> spoken out"
  by (auto simp: spoken_def)

lemma spoken_more: "spoken out \<Longrightarrow> (\<And>b. Items b \<notin> set more_out) \<Longrightarrow> spoken (out @ more_out)"
  by (fastforce simp: spoken_def)

lemma brokenI:
  "wd_store s = st0 \<Longrightarrow> sent s = before @ out \<Longrightarrow> spoken out \<Longrightarrow> broken w src ceil tbl st0 before log s"
  using changed_none by (fastforce simp: broken_def)

lemma triple_exists: "(\<And>x. triple (P x) m Q E) \<Longrightarrow> triple (\<lambda>s. \<exists>x. P x s) m Q E"
  by (auto simp: triple_def)

lemma triple_request:
  assumes "\<And>s. wd_store s = st1 \<Longrightarrow> sent s = out \<Longrightarrow> E s"
  shows "triple (\<lambda>s. wd_store s = st1 \<and> sent s = out) (receive_request env)
    (\<lambda>_ s. wd_store s = st1 \<and> sent s = out) E"
  unfolding receive_request_def check_message_def
  by (rule triple_bind[where Q = "\<lambda>_ s. wd_store s = st1 \<and> sent s = out"],
      rule triple_recv)
     (auto simp: took_def intro!: assms triple_bind[where Q = "\<lambda>_ s. wd_store s = st1 \<and> sent s = out"]
        triple_lift triple_ret split: sync_message.split)

context summary_workspace
begin

lemma requested_ok:
  assumes "inv w" and "requested_advertised ops ks acc w = Inr (adv, w')"
    and "fset (fmdom acc) \<subseteq> fset (fmdom (mw_advertised (absw w)))"
  shows "inv w' \<and> absw w' = absw w \<and> fset (fmdom adv) \<subseteq> fset (fmdom (mw_advertised (absw w)))"
  using assms
proof (induction ks arbitrary: acc w)
  case (Cons k ks)
  from Cons.prems(2) obtain found w1 where one: "wo_advertised ops k w = Inr (found, w1)"
    and rest: "requested_advertised ops ks (case found of None \<Rightarrow> acc | Some item \<Rightarrow> fmupd k item acc) w1 = Inr (adv, w')"
    by (auto simp: res_bind_Inr_iff)
  note w1 = advertised[OF Cons.prems(1) one]
  from w1 Cons.prems(3) have "fset (fmdom (case found of None \<Rightarrow> acc | Some item \<Rightarrow> fmupd k item acc))
      \<subseteq> fset (fmdom (mw_advertised (absw w1)))"
    by (auto split: option.split intro: fmdomI)
  with Cons.IH[OF _ rest] w1 show ?case by auto
qed simp

text \<open>Answering a request, and what comes after it.\<close>

lemma triple_ask_serve:
  fixes src :: "('st, 'w) source"
  assumes "en_ops env = ops" and "reads_only src" and "inv w"
    and "mw_advertised (absw w) = insert_all (rows mine) fmempty"
    and "set (map page_msg mine) \<subseteq> set out" and "spoken out"
    and E: "\<And>s out'. wd_store s = st1 \<Longrightarrow> sent s = before @ out' \<Longrightarrow> spoken out' \<Longrightarrow> E s"
    and k: "\<And>w' st' out'. inv w' \<Longrightarrow> absw w' = absw w \<Longrightarrow> spoken (out @ out') \<Longrightarrow>
      triple (\<lambda>s. wd_store s = st1 \<and> sent s = before @ out @ out') (k w' st') Q E"
  shows "triple (\<lambda>s. wd_store s = st1 \<and> sent s = before @ out)
    (bind_act (receive_request env) (\<lambda>requested.
     bind_act (lift (requested_advertised (en_ops env) requested fmempty w)) (\<lambda>(adv, w').
     bind_act (serve_items env src adv requested st) (\<lambda>st. k w' st)))) Q E"
proof (rule triple_bind[OF triple_request], use E assms(6) in blast, rule triple_lift_then, use E assms(6) in blast)
  fix requested a
  assume a: "requested_advertised (en_ops env) requested fmempty w = Inr a"
  obtain adv w' where aw: "a = (adv, w')" by (cases a)
  from requested_ok[OF assms(3), of requested fmempty adv w'] a aw assms(1)
  have w': "inv w'" "absw w' = absw w" "fset (fmdom adv) \<subseteq> s_item_id ` set (rows mine)"
    by (auto simp: assms(4) insert_all_dom)
  show "triple (\<lambda>s. wd_store s = st1 \<and> sent s = before @ out)
      (case a of (adv, w') \<Rightarrow> bind_act (serve_items env src adv requested st) (\<lambda>st. k w' st)) Q E"
    unfolding aw prod.case
  proof (rule triple_bind[where Q = "\<lambda>_ s. \<exists>out'. (wd_store s = st1 \<and> sent s = before @ out @ out') \<and> spoken (out @ out')"])
    show "triple (\<lambda>s. wd_store s = st1 \<and> sent s = before @ out) (serve_items env src adv requested st)
        (\<lambda>_ s. \<exists>out'. (wd_store s = st1 \<and> sent s = before @ out @ out') \<and> spoken (out @ out')) E"
      by (rule triple_weaken[OF triple_serve[OF assms(2) w'(3) assms(5,6)]]) (use E in auto)
  qed (intro triple_exists triple_assume k w')
qed

text \<open>Planning, asking and receiving, and what comes after it.\<close>

lemma triple_plan_receive:
  fixes src :: "('st, 'w) source"
  assumes "en_ops env = ops" and "inv w" and "ceil = i64_saturating_add (en_now env) max_future_skew_ms"
    and g: "gathered tbl mine (s_item_id ` set (rows inbound)) inbound (absw w)"
    and log: "set (rows inbound) \<subseteq> set log" and out: "spoken out"
    and k: "\<And>wanted rv w' bs si st1. inv w' \<Longrightarrow> plan_ok ceil (absw w) wanted (absw w') \<Longrightarrow>
      feed src bs st0 = (st1, si) \<Longrightarrow> distinct (map i_item_id (concat bs)) \<Longrightarrow>
      \<forall>i \<in> set (concat bs). promised (en_wire env) wanted i \<Longrightarrow> rv_applied rv = item_ids (concat bs) \<Longrightarrow>
      covers (rv_floor rv) ((\<lambda>i. summary_key (summary i)) ` set si) \<Longrightarrow>
      triple (\<lambda>s. wd_store s = st1 \<and> sent s = before @ out @ [Request (en_key_order env wanted)]) (k wanted rv w') Q
        (broken (en_wire env) src ceil tbl st0 before log)"
  shows "triple (\<lambda>s. wd_store s = st0 \<and> sent s = before @ out)
    (bind_act (prepare_plan env w st) (\<lambda>(wanted, st, w').
     bind_act (send (Request (en_key_order env wanted))) (\<lambda>_.
     bind_act (receive_items env src wanted st) (\<lambda>rv. k wanted rv w')))) Q
    (broken (en_wire env) src ceil tbl st0 before log)" (is "triple ?P _ _ ?E")
proof -
  have fresh: "mw_wanted (absw w) = fmempty" using g by (simp add: gathered_def)
  have prep: "triple ?P (prepare_plan env w st) (\<lambda>(wanted, st', w') s. ?P s \<and> inv w' \<and> plan_ok ceil (absw w) wanted (absw w')) ?E"
    using plan_workspace_refines[OF assms(2), of "en_now env" st] fresh out
    by (fastforce simp: triple_def prepare_plan_def assms(1,3) split: sum.splits prod.splits intro: brokenI)
  show ?thesis
  proof (rule triple_bind[OF prep], clarify)
    fix wanted st' w'
    let ?R = "Request (en_key_order env wanted)"
    let ?out = "before @ out @ [?R]"
    have said: "spoken (out @ [?R])" using out by (auto intro: spoken_more)
    have sent: "triple (\<lambda>s. wd_store s = st0 \<and> sent s = before @ out) (send ?R) (\<lambda>_ s. wd_store s = st0 \<and> sent s = ?out) ?E"
      using out by (intro triple_send) (auto simp: put_out_def sent_def intro: brokenI)
    show "triple (\<lambda>s. ?P s \<and> inv w' \<and> plan_ok ceil (absw w) wanted (absw w'))
       (bind_act (send ?R) (\<lambda>_. bind_act (receive_items env src wanted st') (\<lambda>rv. k wanted rv w'))) Q ?E"
    proof (rule triple_assume, rule triple_bind[OF sent])
      assume w': "inv w' \<and> plan_ok ceil (absw w) wanted (absw w')"
      note ch = plan_changed[OF conjunct2[OF w'] g log]
      show "triple (\<lambda>s. wd_store s = st0 \<and> sent s = ?out) (bind_act (receive_items env src wanted st') (\<lambda>rv. k wanted rv w')) Q ?E"
      proof (rule triple_bind[where Q = "\<lambda>rv s. \<exists>bs si st1. (wd_store s = st1 \<and> sent s = ?out)
            \<and> (feed src bs st0 = (st1, si) \<and> distinct (map i_item_id (concat bs))
            \<and> (\<forall>i \<in> set (concat bs). promised (en_wire env) wanted i) \<and> rv_applied rv = item_ids (concat bs)
            \<and> covers (rv_floor rv) ((\<lambda>i. summary_key (summary i)) ` set si))"])
        show "triple (\<lambda>s. wd_store s = st0 \<and> sent s = ?out) (receive_items env src wanted st')
          (\<lambda>rv s. \<exists>bs si st1. (wd_store s = st1 \<and> sent s = ?out)
            \<and> (feed src bs st0 = (st1, si) \<and> distinct (map i_item_id (concat bs))
            \<and> (\<forall>i \<in> set (concat bs). promised (en_wire env) wanted i) \<and> rv_applied rv = item_ids (concat bs)
            \<and> covers (rv_floor rv) ((\<lambda>i. summary_key (summary i)) ` set si))) ?E"
        proof (rule triple_weaken[OF triple_receive_items[of st0 ?out env src wanted st']], goal_cases)
          case (2 rv s)
          then show ?case by (elim conjE exE, intro exI conjI) (assumption | rule refl)+
        next
          case (3 s)
          then obtain bs si where "sent s = ?out" "feed src bs st0 = (wd_store s, si)"
            "distinct (map i_item_id (concat bs))" "\<forall>i \<in> set (concat bs). promised (en_wire env) wanted i" by blast
          with ch[of src bs st0 "wd_store s" si "en_wire env"] said show ?case
            unfolding broken_def by (intro exI[of _ bs] exI[of _ si] exI[of _ "out @ [?R]"]) simp
        qed simp
      qed (intro triple_exists triple_assume, elim conjE, rule k[OF conjunct1[OF w'] conjunct2[OF w']])
    qed
  qed
qed

lemma triple_finish:
  assumes "en_ops env = ops" and "inv w" and "\<And>s. P s \<Longrightarrow> E s"
    and "\<And>t s. t = watermark (mw_deferred (absw w)) wanted attempted (mw_remote (absw w)) previous i64_max \<Longrightarrow> P s \<Longrightarrow> Q (f t) s"
  shows "triple P (bind_act (finish_watermark env w previous wanted attempted) (\<lambda>t. ret (f t))) Q E"
proof (rule triple_bind[where Q = "\<lambda>t s. P s
      \<and> t = watermark (mw_deferred (absw w)) wanted attempted (mw_remote (absw w)) previous i64_max"])
  show "triple P (finish_watermark env w previous wanted attempted) (\<lambda>t s. P s
      \<and> t = watermark (mw_deferred (absw w)) wanted attempted (mw_remote (absw w)) previous i64_max) E"
    using workspace_watermark_refines[OF assms(2), of previous wanted attempted] assms(3)
    by (fastforce simp: triple_def finish_watermark_def assms(1) split: sum.splits)
qed (use assms(4) in \<open>auto intro!: triple_ret\<close>)

lemma concluded_intro:
  assumes "swapped st0 before' input mine inbound s0" and "inbound \<noteq> []" and "\<not> snd (last inbound)"
    and g: "gathered tbl mine (s_item_id ` set (rows inbound)) inbound (absw w)"
    and plan: "plan_ok ceil (absw w) wanted m'" and fed: "feed src bs st0 = (wd_store s, si)"
    and bs: "distinct (map i_item_id (concat bs))" "\<forall>i \<in> set (concat bs). promised (en_wire env) wanted i"
    and "covers fl ((\<lambda>i. summary_key (summary i)) ` set si)" and "sent s = before @ out" and "spoken out"
    and t: "t = watermark (mw_deferred m') wanted (item_ids (concat bs)) (mw_remote m') previous i64_max"
  shows "concluded (en_wire env) src ceil tbl st0 before input (outcome_of stats peer t fl) s"
proof -
  have oc: "oc_applied_floor (outcome_of stats peer t fl) = fl" "cu_since_ms (oc_cursor (outcome_of stats peer t fl)) = t"
    by (simp_all add: outcome_of_def split: prod.splits)
  have input: "input = map (\<lambda>p. Inr (page_msg p)) inbound @ ch_in (wd_chan s0)"
    using assms(1) by (simp add: swapped_def)
  show ?thesis
    unfolding concluded_def oc
    using input assms(2,3,9-11) plan_changed[OF plan g order.refl fed bs] plan_cursor_ok[OF plan g bs(2) t] by blast
qed

lemma triple_open:
  assumes "reads_only src" and "opens_empty inv absw src"
    and k: "\<And>w. inv w \<Longrightarrow> absw w = memory_workspace_default \<Longrightarrow> triple P (k w) Q E" and "\<And>s. P s \<Longrightarrow> E s"
  shows "triple P (bind_act (stored (so_summary_workspace src)) k) Q E"
proof (rule triple_bind[where Q = "\<lambda>w s. P s \<and> (inv w \<and> absw w = memory_workspace_default)"])
  show "triple P (stored (so_summary_workspace src)) (\<lambda>w s. P s \<and> (inv w \<and> absw w = memory_workspace_default)) E"
    by (rule triple_read) (use assms(1,2,4) in \<open>auto simp: reads_only_def opens_empty_def\<close>)
qed (auto intro!: triple_assume k)

text \<open>The exchange of a session, and what comes after it.\<close>

lemma triple_exchange_then:
  fixes src :: "('st, 'w) source"
  assumes "en_ops env = ops" and "reads_only src" and "local_rows src st0 tbl"
    and "inv w" and "absw w = memory_workspace_default" and hello: "spoken hello"
    and k: "\<And>w' mine inbound s0. swapped st0 (before @ hello) input mine inbound s0 \<Longrightarrow> inv w' \<Longrightarrow>
       gathered tbl mine (s_item_id ` set (rows inbound)) inbound (absw w') \<Longrightarrow> inbound \<noteq> [] \<Longrightarrow> \<not> snd (last inbound) \<Longrightarrow>
       set (rows inbound) \<subseteq> set (heard input) \<Longrightarrow> spoken (hello @ map page_msg mine) \<Longrightarrow>
       triple (\<lambda>s. wd_store s = st0 \<and> sent s = before @ hello @ map page_msg mine) (k w') Q
         (broken (en_wire env) src ceil tbl st0 before (heard input))"
  shows "triple (\<lambda>s. wd_store s = st0 \<and> sent s = before @ hello \<and> ch_in (wd_chan s) = input)
     (bind_act (exchange_workspace env src since_ms w initiator) k) Q
     (broken (en_wire env) src ceil tbl st0 before (heard input))" (is "triple ?P _ _ ?E")
proof (rule triple_bind[where Q = "\<lambda>w' s. exchanged inv absw tbl st0 (before @ hello) input max_summary_pages_per_session w' s"])
  have said: "spoken (hello @ map page_msg mine)" for mine
    using hello by (auto intro!: spoken_more simp: page_msg_def)
  have "gathered tbl [] (s_item_id ` set (rows [])) [] (absw w)"
    by (simp add: gathered_def assms(5) memory_workspace_default_def compared_def)
  from triple_exchange[OF assms(1-4) this refl]
  have "triple (swapped st0 (before @ hello) input [] []) (exchange_workspace env src since_ms w initiator)
     (exchanged inv absw tbl st0 (before @ hello) input max_summary_pages_per_session)
     (swap_failed st0 (before @ hello) max_summary_pages_per_session)"
    unfolding exchange_workspace_def by simp
  then show "triple ?P (exchange_workspace env src since_ms w initiator)
     (\<lambda>w' s. exchanged inv absw tbl st0 (before @ hello) input max_summary_pages_per_session w' s) ?E"
    by (rule triple_weaken) (use said in \<open>auto simp: swapped_def swap_failed_def intro: brokenI\<close>)
  show "triple (exchanged inv absw tbl st0 (before @ hello) input max_summary_pages_per_session w') (k w') Q ?E" for w'
    unfolding triple_def
  proof (intro allI impI)
    fix s
    assume "exchanged inv absw tbl st0 (before @ hello) input max_summary_pages_per_session w' s"
    then obtain mine inbound where *: "swapped st0 (before @ hello) input mine inbound s" "inv w'"
      "gathered tbl mine (s_item_id ` set (rows inbound)) inbound (absw w')" "inbound \<noteq> []" "\<not> snd (last inbound)"
      by (auto simp: exchanged_def)
    moreover from *(1) have "set (rows inbound) \<subseteq> set (heard input)"
      and now: "wd_store s = st0 \<and> sent s = before @ hello @ map page_msg mine"
      by (auto simp: swapped_def)
    ultimately have "triple (\<lambda>s. wd_store s = st0 \<and> sent s = before @ hello @ map page_msg mine) (k w') Q ?E"
      using said by (intro k)
    with now show "case k w' s of None \<Rightarrow> False | Some (Inl e, s') \<Rightarrow> ?E s' | Some (Inr a, s') \<Rightarrow> Q a s'"
      by (simp add: triple_def)
  qed
qed

lemma triple_conclude:
  fixes src :: "('st, 'w) source"
  assumes "en_ops env = ops" and "inv w2" and same: "absw w2 = m'"
    and x: "swapped st0 before' input mine inbound s0" "inbound \<noteq> []" "\<not> snd (last inbound)"
    and g: "gathered tbl mine (s_item_id ` set (rows inbound)) inbound (absw w)"
    and log: "set (rows inbound) \<subseteq> set (heard input)" and plan: "plan_ok ceil (absw w) wanted m'"
    and fed: "feed src bs st0 = (st1, si)" and bs: "distinct (map i_item_id (concat bs))"
      "\<forall>i \<in> set (concat bs). promised (en_wire env) wanted i"
    and rv: "rv_applied rv = item_ids (concat bs)" "covers (rv_floor rv) ((\<lambda>i. summary_key (summary i)) ` set si)"
    and out: "spoken out"
  shows "triple (\<lambda>s. wd_store s = st1 \<and> sent s = before @ out)
     (bind_act (finish_watermark env w2 previous wanted (rv_applied rv)) (\<lambda>t. ret (outcome_of stats peer t (rv_floor rv))))
     (concluded (en_wire env) src ceil tbl st0 before input)
     (broken (en_wire env) src ceil tbl st0 before (heard input))"
proof (rule triple_finish[OF assms(1,2)], goal_cases)
  case (1 s)
  then show ?case using plan_changed[OF plan g log fed bs] out unfolding broken_def by blast
next
  case (2 t s)
  then show ?case
    using fed rv(1) same by (intro concluded_intro[OF x g plan _ bs rv(2) _ out]) simp_all
qed

lemma triple_initiator_body:
  fixes src :: "('st, 'w) source"
  assumes "en_ops env = ops" and "reads_only src" and "local_rows src st0 tbl" and "opens_empty inv absw src"
    and "ceil = i64_saturating_add (en_now env) max_future_skew_ms" and "spoken hello"
  shows "triple (\<lambda>s. wd_store s = st0 \<and> sent s = before @ hello \<and> ch_in (wd_chan s) = input)
     (bind_act (stored (so_summary_workspace src)) (\<lambda>ws.
      bind_act (exchange_workspace env src since_ms ws True) (\<lambda>ws.
      bind_act (prepare_plan env ws sync_stats_default) (\<lambda>(wanted, st, ws).
      bind_act (send (Request (en_key_order env wanted))) (\<lambda>_.
      bind_act (receive_items env src wanted st) (\<lambda>rv.
      bind_act (receive_request env) (\<lambda>requested.
      bind_act (lift (requested_advertised (en_ops env) requested fmempty ws)) (\<lambda>(advertised, ws).
      bind_act (serve_items env src advertised requested (rv_stats rv)) (\<lambda>st.
      bind_act (finish_watermark env ws (cu_since_ms cursor) wanted (rv_applied rv)) (\<lambda>since_ms.
        ret (outcome_of st peer since_ms (rv_floor rv))))))))))))
     (concluded (en_wire env) src ceil tbl st0 before input)
     (broken (en_wire env) src ceil tbl st0 before (heard input))" (is "triple ?P _ ?Q ?E")
proof (rule triple_open[OF assms(2,4)], rule triple_exchange_then[OF assms(1-3) _ _ assms(6)], assumption, assumption)
  fix w mine inbound s0
  assume x: "swapped st0 (before @ hello) input mine inbound s0" "inv w"
    "gathered tbl mine (s_item_id ` set (rows inbound)) inbound (absw w)" "inbound \<noteq> []" "\<not> snd (last inbound)"
    "set (rows inbound) \<subseteq> set (heard input)" "spoken (hello @ map page_msg mine)"
  let ?out = "hello @ map page_msg mine"
  show "triple (\<lambda>s. wd_store s = st0 \<and> sent s = before @ ?out)
     (bind_act (prepare_plan env w sync_stats_default) (\<lambda>(wanted, st, ws).
      bind_act (send (Request (en_key_order env wanted))) (\<lambda>_.
      bind_act (receive_items env src wanted st) (\<lambda>rv.
      bind_act (receive_request env) (\<lambda>requested.
      bind_act (lift (requested_advertised (en_ops env) requested fmempty ws)) (\<lambda>(advertised, ws).
      bind_act (serve_items env src advertised requested (rv_stats rv)) (\<lambda>st.
      bind_act (finish_watermark env ws (cu_since_ms cursor) wanted (rv_applied rv)) (\<lambda>since_ms.
        ret (outcome_of st peer since_ms (rv_floor rv))))))))))
     ?Q ?E"
  proof (rule triple_plan_receive[OF assms(1) x(2) assms(5) x(3,6,7)])
    fix wanted rv w1 bs si st1
    assume y: "inv w1" "plan_ok ceil (absw w) wanted (absw w1)" "feed src bs st0 = (st1, si)"
      "distinct (map i_item_id (concat bs))" "\<forall>i \<in> set (concat bs). promised (en_wire env) wanted i"
      "rv_applied rv = item_ids (concat bs)" "covers (rv_floor rv) ((\<lambda>i. summary_key (summary i)) ` set si)"
    let ?R = "[Request (en_key_order env wanted)]"
    have adv: "mw_advertised (absw w1) = insert_all (rows mine) fmempty"
      using y(2) x(3) by (simp add: plan_ok_def gathered_def)
    have brk: "?E s" if "wd_store s = st1" "sent s = before @ out'" "spoken out'" for s out'
      using that plan_changed[OF y(2) x(3,6) y(3-5)] unfolding broken_def by blast
    have said: "spoken (?out @ ?R)" by (rule spoken_more[OF x(7)]) simp
    show "triple (\<lambda>s. wd_store s = st1 \<and> sent s = before @ ?out @ ?R)
     (bind_act (receive_request env) (\<lambda>requested.
      bind_act (lift (requested_advertised (en_ops env) requested fmempty w1)) (\<lambda>(advertised, ws).
      bind_act (serve_items env src advertised requested (rv_stats rv)) (\<lambda>st.
      bind_act (finish_watermark env ws (cu_since_ms cursor) wanted (rv_applied rv)) (\<lambda>since_ms.
        ret (outcome_of st peer since_ms (rv_floor rv))))))) ?Q ?E"
    proof (rule triple_ask_serve[OF assms(1,2) y(1) adv _ said brk])
      fix w2 st2 out'
      assume z: "inv w2" "absw w2 = absw w1" "spoken ((?out @ ?R) @ out')"
      show "triple (\<lambda>s. wd_store s = st1 \<and> sent s = before @ (?out @ ?R) @ out')
        (bind_act (finish_watermark env w2 (cu_since_ms cursor) wanted (rv_applied rv)) (\<lambda>since_ms.
          ret (outcome_of st2 peer since_ms (rv_floor rv)))) ?Q ?E"
        by (rule triple_conclude[OF assms(1) z(1,2) x(1,4,5,3,6) y(2-7) z(3)])
    qed auto
  qed
qed (use assms(6) in \<open>auto intro: brokenI\<close>)

lemma triple_responder_body:
  fixes src :: "('st, 'w) source"
  assumes "en_ops env = ops" and "reads_only src" and "local_rows src st0 tbl" and "opens_empty inv absw src"
    and "ceil = i64_saturating_add (en_now env) max_future_skew_ms" and "spoken hello"
  shows "triple (\<lambda>s. wd_store s = st0 \<and> sent s = before @ hello \<and> ch_in (wd_chan s) = input)
     (bind_act (stored (so_summary_workspace src)) (\<lambda>ws.
      bind_act (exchange_workspace env src since_ms ws False) (\<lambda>ws.
      bind_act (receive_request env) (\<lambda>requested.
      bind_act (lift (requested_advertised (en_ops env) requested fmempty ws)) (\<lambda>(advertised, ws).
      bind_act (serve_items env src advertised requested sync_stats_default) (\<lambda>st.
      bind_act (prepare_plan env ws st) (\<lambda>(wanted, st, ws).
      bind_act (send (Request (en_key_order env wanted))) (\<lambda>_.
      bind_act (receive_items env src wanted st) (\<lambda>rv.
      bind_act (finish_watermark env ws (cu_since_ms cursor) wanted (rv_applied rv)) (\<lambda>since_ms.
        ret (outcome_of (rv_stats rv) peer since_ms (rv_floor rv))))))))))))
     (concluded (en_wire env) src ceil tbl st0 before input)
     (broken (en_wire env) src ceil tbl st0 before (heard input))" (is "triple ?P _ ?Q ?E")
proof (rule triple_open[OF assms(2,4)], rule triple_exchange_then[OF assms(1-3) _ _ assms(6)], assumption, assumption)
  fix w mine inbound s0
  assume x: "swapped st0 (before @ hello) input mine inbound s0" "inv w"
    "gathered tbl mine (s_item_id ` set (rows inbound)) inbound (absw w)" "inbound \<noteq> []" "\<not> snd (last inbound)"
    "set (rows inbound) \<subseteq> set (heard input)" "spoken (hello @ map page_msg mine)"
  let ?out = "hello @ map page_msg mine"
  have adv: "mw_advertised (absw w) = insert_all (rows mine) fmempty" using x(3) by (simp add: gathered_def)
  show "triple (\<lambda>s. wd_store s = st0 \<and> sent s = before @ ?out)
     (bind_act (receive_request env) (\<lambda>requested.
      bind_act (lift (requested_advertised (en_ops env) requested fmempty w)) (\<lambda>(advertised, ws).
      bind_act (serve_items env src advertised requested sync_stats_default) (\<lambda>st.
      bind_act (prepare_plan env ws st) (\<lambda>(wanted, st, ws).
      bind_act (send (Request (en_key_order env wanted))) (\<lambda>_.
      bind_act (receive_items env src wanted st) (\<lambda>rv.
      bind_act (finish_watermark env ws (cu_since_ms cursor) wanted (rv_applied rv)) (\<lambda>since_ms.
        ret (outcome_of (rv_stats rv) peer since_ms (rv_floor rv)))))))))) ?Q ?E"
  proof (rule triple_ask_serve[OF assms(1,2) x(2) adv _ x(7) brokenI])
    fix w1 st1 out'
    assume y: "inv w1" "absw w1 = absw w" "spoken (?out @ out')"
    note g = x(3)[folded y(2)]
    show "triple (\<lambda>s. wd_store s = st0 \<and> sent s = before @ ?out @ out')
     (bind_act (prepare_plan env w1 st1) (\<lambda>(wanted, st, ws).
      bind_act (send (Request (en_key_order env wanted))) (\<lambda>_.
      bind_act (receive_items env src wanted st) (\<lambda>rv.
      bind_act (finish_watermark env ws (cu_since_ms cursor) wanted (rv_applied rv)) (\<lambda>since_ms.
        ret (outcome_of (rv_stats rv) peer since_ms (rv_floor rv))))))) ?Q ?E"
    proof (rule triple_plan_receive[OF assms(1) y(1) assms(5) g x(6) y(3)])
      fix wanted rv w2 bs si st2
      assume z: "inv w2" "plan_ok ceil (absw w1) wanted (absw w2)" "feed src bs st0 = (st2, si)"
        "distinct (map i_item_id (concat bs))" "\<forall>i \<in> set (concat bs). promised (en_wire env) wanted i"
        "rv_applied rv = item_ids (concat bs)" "covers (rv_floor rv) ((\<lambda>i. summary_key (summary i)) ` set si)"
      let ?R = "[Request (en_key_order env wanted)]"
      have said: "spoken ((?out @ out') @ ?R)" by (rule spoken_more[OF y(3)]) simp
      show "triple (\<lambda>s. wd_store s = st2 \<and> sent s = before @ (?out @ out') @ ?R)
        (bind_act (finish_watermark env w2 (cu_since_ms cursor) wanted (rv_applied rv)) (\<lambda>since_ms.
          ret (outcome_of (rv_stats rv) peer since_ms (rv_floor rv)))) ?Q ?E"
        by (rule triple_conclude[OF assms(1) z(1) refl x(1,4,5) g x(6) z(2-7) said])
    qed
  qed auto
qed (use assms(6) in \<open>auto intro: brokenI\<close>)

end

end
