(* ===== verification/Sync_Props.thy ===== *)
theory Sync_Props
  imports Sync_Run
begin

text \<open>
  The properties of a whole session over the in-memory workspace: it returns, against every peer
  and every store; what it stores, what it says, and what the cursor it leaves behind means.
\<close>

section \<open>From the first message\<close>

lemma broken_mono:
  "broken w src ceil tbl st0 before log s \<Longrightarrow> set log \<subseteq> set log' \<Longrightarrow> broken w src ceil tbl st0 before log' s"
  unfolding broken_def changed_def by (blast intro: justified_mono)

lemma hello_spoken: "spoken [local_hello src listen_addr since_ms]"
  by (rule spoken_silent) (simp add: local_hello_def)

lemma took_heard: "took s m s1 \<Longrightarrow> set (heard (ch_in (wd_chan s1))) \<subseteq> set (heard (ch_in (wd_chan s)))"
  by (cases m) (auto simp: took_def)

text \<open>A session as the initiator or as the responder.\<close>

definition runs ::
  "'w env \<Rightarrow> ('st, 'w) source \<Rightarrow> string option \<Rightarrow> sync_cursor \<Rightarrow> bool \<Rightarrow> ('st, sync_outcome) act" where
  "runs env src listen_addr cursor initiator =
     (if initiator then run_initiator env src listen_addr cursor else run_responder env src listen_addr cursor)"

definition ended ::
  "wire \<Rightarrow> ('st, 'w) source \<Rightarrow> int \<Rightarrow> (string \<Rightarrow> item_summary option) \<Rightarrow> 'st world \<Rightarrow> sync_outcome \<Rightarrow> 'st world \<Rightarrow> bool" where
  "ended w src ceil tbl s0 oc s \<longleftrightarrow> (\<exists>m input. ch_in (wd_chan s0) = Inr m # input
     \<and> concluded w src ceil tbl (wd_store s0) (sent s0) input oc s)"

abbreviation failed ::
  "wire \<Rightarrow> ('st, 'w) source \<Rightarrow> int \<Rightarrow> (string \<Rightarrow> item_summary option) \<Rightarrow> 'st world \<Rightarrow> 'st world \<Rightarrow> bool" where
  "failed w src ceil tbl s0 \<equiv> broken w src ceil tbl (wd_store s0) (sent s0) (heard (ch_in (wd_chan s0)))"

context summary_workspace
begin

lemma triple_initiator:
  fixes src :: "('st, 'w) source"
  assumes "en_ops env = ops" and "reads_only src" and "local_rows src (wd_store s0) tbl" and "opens_empty inv absw src"
    and "ceil = i64_saturating_add (en_now env) max_future_skew_ms"
  shows "triple (\<lambda>s. s = s0) (run_initiator env src listen_addr cursor)
    (ended (en_wire env) src ceil tbl s0) (failed (en_wire env) src ceil tbl s0)" (is "triple _ _ ?Q ?E")
proof -
  let ?h = "local_hello src listen_addr (cu_since_ms cursor)"
  let ?P = "\<lambda>input s. wd_store s = wd_store s0 \<and> sent s = sent s0 @ [?h] \<and> ch_in (wd_chan s) = input"
  have quiet: "?E s" if "?P input s" for s input
    using that by (intro brokenI[OF _ _ hello_spoken]) auto
  have greet: "triple (\<lambda>s. s = s0) (send ?h) (\<lambda>_. ?P (ch_in (wd_chan s0))) ?E"
    by (rule triple_send) (auto simp: put_out_def sent_def intro!: brokenI[where out = "[]"] spoken_silent)
  have hear: "triple (?P (ch_in (wd_chan s0))) (recv_hello env src)
      (\<lambda>_ s. \<exists>m input. ?P input s \<and> ch_in (wd_chan s0) = Inr m # input) ?E"
    unfolding recv_hello_def
  proof (rule triple_bind[where Q = "\<lambda>_ s. \<exists>m input. ?P input s \<and> ch_in (wd_chan s0) = Inr m # input"])
    show "triple (?P (ch_in (wd_chan s0))) recv
      (\<lambda>_ s. \<exists>m input. ?P input s \<and> ch_in (wd_chan s0) = Inr m # input) ?E"
      by (rule triple_recv) (auto simp: took_def intro: quiet)
  qed (auto intro!: triple_lift intro: quiet)
  show ?thesis
    unfolding run_initiator_def
  proof (rule triple_bind[OF greet], rule triple_bind[OF hear], intro triple_exists triple_assume)
    fix peer m input
    assume ch: "ch_in (wd_chan s0) = Inr m # input"
    have "set (heard input) \<subseteq> set (heard (ch_in (wd_chan s0)))" unfolding ch by (cases m) auto
    then show "triple (?P input)
     (bind_act (stored (so_summary_workspace src)) (\<lambda>ws.
      bind_act (exchange_workspace env src (advertise_from cursor (peer_since peer)) ws True) (\<lambda>ws.
      bind_act (prepare_plan env ws sync_stats_default) (\<lambda>(wanted, st, ws).
      bind_act (send (Request (en_key_order env wanted))) (\<lambda>_.
      bind_act (receive_items env src wanted st) (\<lambda>rv.
      bind_act (receive_request env) (\<lambda>requested.
      bind_act (lift (requested_advertised (en_ops env) requested fmempty ws)) (\<lambda>(advertised, ws).
      bind_act (serve_items env src advertised requested (rv_stats rv)) (\<lambda>st.
      bind_act (finish_watermark env ws (cu_since_ms cursor) wanted (rv_applied rv)) (\<lambda>since_ms.
        ret (outcome_of st peer since_ms (rv_floor rv)))))))))))) ?Q ?E"
      by (intro triple_weaken[OF triple_initiator_body[OF assms hello_spoken, where input = input and before = "sent s0"]])
         (use ch in \<open>auto simp: ended_def elim: broken_mono\<close>)
  qed
qed

lemma triple_responder:
  fixes src :: "('st, 'w) source"
  assumes "en_ops env = ops" and "reads_only src" and "local_rows src (wd_store s0) tbl" and "opens_empty inv absw src"
    and "ceil = i64_saturating_add (en_now env) max_future_skew_ms"
  shows "triple (\<lambda>s. s = s0) (run_responder env src listen_addr cursor)
    (ended (en_wire env) src ceil tbl s0) (failed (en_wire env) src ceil tbl s0)" (is "triple _ _ ?Q ?E")
proof -
  let ?h = "local_hello src listen_addr (cu_since_ms cursor)"
  let ?P = "\<lambda>out input s. wd_store s = wd_store s0 \<and> sent s = sent s0 @ out \<and> ch_in (wd_chan s) = input"
  have quiet: "?E s" if "?P [] input s" for s input
    using that by (intro brokenI[where out = "[]"]) (auto intro: spoken_silent)
  have hear: "triple (\<lambda>s. s = s0) recv (\<lambda>m s. \<exists>input. ?P [] input s \<and> ch_in (wd_chan s0) = Inr m # input) ?E"
    by (rule triple_recv) (auto simp: took_def intro!: brokenI[where out = "[]"] spoken_silent)
  have greet: "triple (?P [] input) (send ?h) (\<lambda>_. ?P [?h] input) ?E" for input
    by (rule triple_send) (auto simp: put_out_def sent_def intro: quiet[unfolded sent_def])
  show ?thesis
    unfolding run_responder_def
  proof (rule triple_bind[OF hear], unfold run_responder_from_first_def, intro triple_exists triple_assume triple_lift_then)
    fix peer m input
    assume ch: "ch_in (wd_chan s0) = Inr m # input"
    have "set (heard input) \<subseteq> set (heard (ch_in (wd_chan s0)))" unfolding ch by (cases m) auto
    then show "triple (?P [] input)
     (bind_act (send ?h) (\<lambda>_.
      bind_act (stored (so_summary_workspace src)) (\<lambda>ws.
      bind_act (exchange_workspace env src (advertise_from cursor (peer_since peer)) ws False) (\<lambda>ws.
      bind_act (receive_request env) (\<lambda>requested.
      bind_act (lift (requested_advertised (en_ops env) requested fmempty ws)) (\<lambda>(advertised, ws).
      bind_act (serve_items env src advertised requested sync_stats_default) (\<lambda>st.
      bind_act (prepare_plan env ws st) (\<lambda>(wanted, st, ws).
      bind_act (send (Request (en_key_order env wanted))) (\<lambda>_.
      bind_act (receive_items env src wanted st) (\<lambda>rv.
      bind_act (finish_watermark env ws (cu_since_ms cursor) wanted (rv_applied rv)) (\<lambda>since_ms.
        ret (outcome_of (rv_stats rv) peer since_ms (rv_floor rv))))))))))))) ?Q ?E"
      by (intro triple_bind[OF greet] triple_weaken[OF triple_responder_body[OF assms hello_spoken, where input = input and before = "sent s0"]])
         (use ch in \<open>auto simp: ended_def elim: broken_mono\<close>)
  qed (rule quiet)
qed

end


context hash_order
begin

lemmas memory_session = memory.triple_initiator memory.triple_responder

end

text \<open>
  The store's contract for one session: it opens an empty workspace, reading leaves it alone, and
  \<open>tbl\<close> is what it answers for each id. The maps of the session list their values in some order.
\<close>

definition session_setting ::
  "memory_workspace env \<Rightarrow> ('st, memory_workspace) source \<Rightarrow> 'st \<Rightarrow> (string \<Rightarrow> item_summary option) \<Rightarrow> bool" where
  "session_setting env src st tbl \<longleftrightarrow>
     (\<exists>order. (\<forall>m. mset (order m) = mset (fm_values m)) \<and> en_ops env = memory_ops order)
     \<and> reads_only src \<and> opens_empty mem_inv (\<lambda>w. w) src \<and> local_rows src st tbl"

definition clock_ceiling :: "'w env \<Rightarrow> int" where
  "clock_ceiling env = i64_saturating_add (en_now env) max_future_skew_ms"

lemma session_outcome:
  assumes "session_setting env src (wd_store s) tbl"
  shows "\<exists>r s'. runs env src listen_addr cursor initiator s = Some (r, s')
    \<and> (case r of Inl _ \<Rightarrow> failed (en_wire env) src (clock_ceiling env) tbl s s'
       | Inr oc \<Rightarrow> ended (en_wire env) src (clock_ceiling env) tbl s oc s')"
proof -
  from assms obtain order where ops: "en_ops env = memory_ops order" and "hash_order order"
    and src: "reads_only src" "local_rows src (wd_store s) tbl" "opens_empty mem_inv (\<lambda>w. w) src"
    by (auto simp: session_setting_def hash_order_def)
  note t = hash_order.memory_session[OF \<open>hash_order order\<close> ops src clock_ceiling_def, of listen_addr cursor]
  have "triple (\<lambda>s'. s' = s) (runs env src listen_addr cursor initiator)
      (ended (en_wire env) src (clock_ceiling env) tbl s) (failed (en_wire env) src (clock_ceiling env) tbl s)"
    using t by (simp add: runs_def)
  note t = triple_returns[OF this refl] tripleD[OF this refl]
  from t(1) obtain r s' where "runs env src listen_addr cursor initiator s = Some (r, s')" by blast
  then show ?thesis using t(2,3) by (intro exI[of _ r] exI[of _ s']) (auto split: sum.split)
qed

lemma session_changed:
  assumes "session_setting env src (wd_store s) tbl"
  shows "\<exists>r s' bs si out. runs env src listen_addr cursor initiator s = Some (r, s')
    \<and> changed (en_wire env) src (clock_ceiling env) tbl (heard (ch_in (wd_chan s))) (wd_store s) bs si (wd_store s')
    \<and> sent s' = sent s @ out \<and> spoken out"
proof -
  from session_outcome[OF assms] obtain r s' where r: "runs env src listen_addr cursor initiator s = Some (r, s')"
    "case r of Inl _ \<Rightarrow> failed (en_wire env) src (clock_ceiling env) tbl s s'
       | Inr oc \<Rightarrow> ended (en_wire env) src (clock_ceiling env) tbl s oc s'" by blast
  show ?thesis
  proof (cases r)
    case (Inl e)
    with r show ?thesis unfolding broken_def by auto
  next
    case (Inr oc)
    with r(2) obtain m inbound rest bs si out where
      *: "ch_in (wd_chan s) = Inr m # map (\<lambda>p. Inr (page_msg p)) inbound @ rest"
      "changed (en_wire env) src (clock_ceiling env) tbl (rows inbound) (wd_store s) bs si (wd_store s')"
      "sent s' = sent s @ out" "spoken out"
      unfolding ended_def concluded_def by auto
    have "set (rows inbound) \<subseteq> set (heard (ch_in (wd_chan s)))"
      unfolding *(1) by (cases m) auto
    with *(2) have "changed (en_wire env) src (clock_ceiling env) tbl (heard (ch_in (wd_chan s))) (wd_store s) bs si (wd_store s')"
      unfolding changed_def by (blast intro: justified_mono)
    with r(1) *(3,4) show ?thesis by blast
  qed
qed

section \<open>A session that runs\<close>

text \<open>One item, from a peer that has it to a device that has nothing.\<close>

definition demo_messages :: "sync_message list" where
  "demo_messages = [Hello protocol_version ''a'' ''A'' None None 0, Summary [summary demo_text] False, Items [demo_text], Done, Request []]"

definition demo_cursor :: sync_cursor where
  "demo_cursor = \<lparr>cu_since_ms = 0, cu_relay_floor_ms = None\<rparr>"

lemma memory_ops_sel:
  "wo_add_advertised (memory_ops order) = (\<lambda>items w. Inr (w\<lparr>mw_advertised := insert_all items (mw_advertised w)\<rparr>))"
  "wo_add_comparison (memory_ops order) = (\<lambda>items w. Inr (w\<lparr>mw_comparison := insert_all items (mw_comparison w)\<rparr>))"
  "wo_add_remote (memory_ops order) = (\<lambda>items w. Inr (w\<lparr>mw_remote := mw_remote w @ items\<rparr>))"
  "wo_remote_page (memory_ops order) = (\<lambda>after limit w. Inr (mem_remote_page after limit w, w))"
  "wo_remote_wins (memory_ops order) = (\<lambda>item w. Inr (mem_remote_wins item w, w))"
  "wo_consider_wanted (memory_ops order) = (\<lambda>item w. Inr (mem_consider_wanted item w))"
  "wo_is_deferred (memory_ops order) = (\<lambda>k w. Inr (k |\<in>| mw_deferred w, w))"
  "wo_finish_plan (memory_ops order) = (\<lambda>limit w. Inr (mem_finish_plan order limit w))"
  by (simp_all add: memory_ops_def)

lemma demo_text_key: "summary_key (summary demo_text) = 5" "s_item_id (summary demo_text) = ''i''" "i_item_id demo_text = ''i''"
  by (simp_all add: demo_text_def demo_item_def summary_key_def)

lemmas demo_run = memory_ops_sel demo_text_key mem_remote_page_def mem_remote_wins_def mem_consider_wanted_def
  mem_finish_plan_def newest_first_def

definition demo_gathered :: memory_workspace where
  "demo_gathered = memory_workspace_default\<lparr>mw_remote := [summary demo_text]\<rparr>"

lemma fm_values_demo: "fm_values demo_wanted = [summary demo_text]"
  by (simp add: demo_wanted_def fm_values_def fm_keys_upd)

lemma demo_plan:
  "plan_workspace (memory_ops fm_values) 100 sync_stats_default demo_gathered
    = Some (Inr (demo_wanted, sync_stats_default, demo_gathered\<lparr>mw_wanted := demo_wanted\<rparr>))"
  by (simp add: plan_workspace_def Let_def, subst plan_loop.simps,
      simp add: demo_run demo_gathered_def memory_workspace_default_def i64_saturating_add_def max_future_skew_ms_def
        i64_max_def i64_min_def,
      subst plan_loop.simps,
      simp add: demo_run fm_values_demo plan_finish_def Let_def demo_wanted_def[symmetric]
        max_request_ids_per_message_def collect_by_id_def,
      simp add: demo_wanted_def fm_len_upd)

lemma demo_valid:
  "validate (en_wire demo_env) (Hello protocol_version ''a'' ''A'' None None 0) = Inr ()"
  "validate (en_wire demo_env) (Summary [summary demo_text] False) = Inr ()"
  "validate (en_wire demo_env) (Request []) = Inr ()" "validate (en_wire demo_env) Done = Inr ()"
  by (simp_all add: demo_text_def demo_item_def limit_defs validate_id_def id_octet_def is_ascii_alphanumeric_def in_range_def demo_env_def demo_wire_def
     check_protocol_version_def check_id_def check_len_def check_count_def validate_profile_opt_def validate_listen_addr_def
     validate_summary_def check_timestamp_def check_pin_state_def summary_def)

lemma demo_watermark:
  "workspace_watermark 0 (memory_ops fm_values) demo_wanted {|''i''|} (demo_gathered\<lparr>mw_wanted := demo_wanted\<rparr>) = Some (Inr 5)"
  by (simp add: workspace_watermark_def, subst watermark_loop.simps,
      simp add: demo_run demo_gathered_def memory_workspace_default_def, subst watermark_loop.simps,
      simp add: demo_run i64_max_def)

definition demo_at :: "sync_message list \<Rightarrow> sync_message list \<Rightarrow> sync_item list \<Rightarrow> sync_item list world" where
  "demo_at msgs out st = \<lparr>wd_chan = \<lparr>ch_in = map Inr msgs, ch_out = out, ch_fault = (\<lambda>_. None)\<rparr>, wd_store = st\<rparr>"

lemma demo_steps:
  "send m (demo_at ms out st) = Some (Inr (), demo_at ms (out @ [m]) st)"
  "recv (demo_at (m # ms) out st) = Some (Inr m, demo_at ms out st)"
  "ret a s = Some (Inr a, s)" "lift r s = Some (r, s)"
  "stored f (demo_at ms out st) = (case f st of (r, st') \<Rightarrow> Some (r, demo_at ms out st'))"
  by (simp_all add: demo_at_def send_def recv_def ret_def lift_def stored_def split: prod.split)

lemma demo_at_store: "wd_store (demo_at ms out st) = st"
  by (simp add: demo_at_def)

lemma bind_act_step:
  "m s = Some (Inr a, s') \<Longrightarrow> bind_act m f s = f a s'"
  by (simp add: bind_act_def)

lemma demo_source_sel:
  "so_device_id demo_source = ''b''" "so_summary_workspace demo_source st = (Inr memory_workspace_default, st)"
  "so_summary_page demo_source since None limit st = (Inr (map summary st), st)"
  "so_local_summaries demo_source ids [] = (Inr [], [])"
  "so_apply_batch demo_source b st = (Inr (map (\<lambda>_. True) b), st @ b)"
  by (simp_all add: demo_source_def)

lemma demo_env_sel: "en_ops demo_env = memory_ops fm_values" "en_now demo_env = 100" "en_key_order demo_env = fm_keys"
  by (simp_all add: demo_env_def)

lemma demo_exchange:
  "exchange_workspace demo_env demo_source since memory_workspace_default True
     (demo_at (Summary [summary demo_text] False # ms) out []) = Some (Inr demo_gathered, demo_at ms (out @ [Summary [] False]) [])"
  by (simp add: exchange_workspace_def max_summary_pages_per_session_def numeral_eq_Suc bind_act_step demo_steps
     next_page_def receive_page_def check_message_def demo_valid demo_source_sel demo_env_sel memory_ops_sel
     demo_gathered_def memory_workspace_default_def del: validate.simps)

lemma demo_receives_at:
  "receive_items demo_env demo_source demo_wanted sync_stats_default (demo_at (Items [demo_text] # Done # ms) out [])
   = Some (Inr \<lparr>rv_applied = {|''i''|}, rv_received = {|''i''|}, rv_floor = Some 5,
       rv_stats = sync_stats_default\<lparr>st_received := 1\<rparr>\<rparr>, demo_at ms out [demo_text])"
proof -
  have "usize_saturating_add (fm_len demo_wanted) 2 = Suc (Suc (Suc 0))" and "fm_len demo_wanted = 1"
    by (simp_all add: usize_saturating_add_def demo_wanted_def fm_len_upd usize_max_def)
  then show ?thesis
    using demo_accepts[of sync_stats_default] demo_text_valid
    by (simp add: receive_items_def bind_act_step demo_steps check_message_def demo_valid demo_source_sel
        sync_stats_default_def fcard_finsert_disjoint del: validate.simps)
qed

lemma demo_serves:
  "serve_items demo_env demo_source fmempty [] st (demo_at ms out s) = Some (Inr st, demo_at ms (out @ [Done]) s)"
  by (simp add: serve_items_def chunks.simps[of _ "[]"] bind_act_step demo_steps Let_def)

lemma demo_run_ok: "\<exists>oc s'. run_initiator demo_env demo_source None demo_cursor (demo_world demo_messages []) = Some (Inr oc, s')
   \<and> cu_since_ms (oc_cursor oc) = 5 \<and> wd_store s' = [demo_text]"
proof -
  have "demo_world demo_messages [] = demo_at demo_messages [] []" by (simp add: demo_world_def demo_at_def)
  then show ?thesis
    by (simp add: run_initiator_def demo_messages_def bind_act_step demo_steps recv_hello_def parse_hello_def demo_valid
      demo_source_sel demo_exchange prepare_plan_def demo_env_sel demo_plan demo_receives_at receive_request_def check_message_def
      demo_serves finish_watermark_def demo_cursor_def demo_watermark outcome_of_def demo_at_store del: validate.simps)
qed
section \<open>Properties\<close>

text \<open>
  C1: a session ends, and it neither stores nor says anything it should not. In either role,
  against every peer and whatever fails on the way, it returns; what changed in the store is
  exactly some batches of items handed to it, each item once, each summarised by the peer, stamped no
  later than the clock allows, winning over the local row, and with the content its summary
  promised; and every item sent was summarised to this peer in this session.
\<close>

theorem session_is_confined:
  assumes "session_setting env src (wd_store s) tbl"
  shows "\<exists>r s' bs si out. runs env src listen_addr cursor initiator s = Some (r, s')
    \<and> changed (en_wire env) src (clock_ceiling env) tbl (heard (ch_in (wd_chan s))) (wd_store s) bs si (wd_store s')
    \<and> ch_out (wd_chan s') = ch_out (wd_chan s) @ out \<and> spoken out"
  using session_changed[OF assms] by (simp add: sent_def)

lemma demo_setting:
  "session_setting demo_env demo_source [] (\<lambda>_. None)"
  by (auto simp: session_setting_def demo_env_def reads_only_def opens_empty_def local_rows_def demo_source_def
      mem_inv_def memory_workspace_default_def by_id_def intro!: exI[of _ fm_values])

lemma demo_feed: "fst (feed demo_source bs st) = st @ concat bs"
  by (induction bs arbitrary: st) (simp_all add: demo_source_def case_prod_unfold)

theorem session_is_confined_witness:
  "\<exists>oc s' bs si. run_initiator demo_env demo_source None demo_cursor (demo_world demo_messages []) = Some (Inr oc, s')
    \<and> wd_store s' = [demo_text] \<and> concat bs = [demo_text]
    \<and> changed (en_wire demo_env) demo_source (clock_ceiling demo_env) (\<lambda>_. None) [summary demo_text] [] bs si [demo_text]"
proof -
  have set: "session_setting demo_env demo_source (wd_store (demo_world demo_messages [])) (\<lambda>_. None)"
    by (simp add: demo_setting demo_world_def)
  have "heard (ch_in (wd_chan (demo_world demo_messages []))) = [summary demo_text]"
    by (simp add: demo_messages_def demo_world_def)
  with session_is_confined[OF set, of None demo_cursor True] demo_run_ok obtain oc s' bs si where
    *: "run_initiator demo_env demo_source None demo_cursor (demo_world demo_messages []) = Some (Inr oc, s')"
    "wd_store s' = [demo_text]"
    "changed (en_wire demo_env) demo_source (clock_ceiling demo_env) (\<lambda>_. None) [summary demo_text] [] bs si (wd_store s')"
    by (auto simp: runs_def demo_world_def)
  with demo_feed[of bs "[]"] have "concat bs = [demo_text]" by (simp add: changed_def)
  with * show ?thesis by metis
qed

text \<open>
  C2: the cursor a session leaves behind loses nothing. When a session succeeds, the peer had
  greeted and sent whole pages of summaries up to its last; every version in them below the new cursor is
  stamped no later than the clock allows and, if it wins over the local row, an item at least as new
  under the merge order was handed to the store in this session; and the floor reported for relaying is
  at or below every item the store took.
\<close>

theorem session_cursor_loses_nothing:
  assumes "session_setting env src (wd_store s) tbl"
  shows "\<exists>r s'. runs env src listen_addr cursor initiator s = Some (r, s')
    \<and> (case r of Inl _ \<Rightarrow> True | Inr oc \<Rightarrow> (\<exists>hello inbound rest bs si.
         ch_in (wd_chan s) = Inr hello # map (\<lambda>p. Inr (page_msg p)) inbound @ rest
         \<and> inbound \<noteq> [] \<and> \<not> snd (last inbound) \<and> feed src bs (wd_store s) = (wd_store s', si)
         \<and> cursor_ok (clock_ceiling env) tbl (rows inbound) bs (cu_since_ms (oc_cursor oc))
         \<and> covers (oc_applied_floor oc) ((\<lambda>i. summary_key (summary i)) ` set si)))"
proof -
  from session_outcome[OF assms] obtain r s' where r: "runs env src listen_addr cursor initiator s = Some (r, s')"
    "case r of Inl _ \<Rightarrow> failed (en_wire env) src (clock_ceiling env) tbl s s'
       | Inr oc \<Rightarrow> ended (en_wire env) src (clock_ceiling env) tbl s oc s'" by blast
  then show ?thesis
    by (intro exI[of _ r] exI[of _ s']) (auto simp: ended_def concluded_def changed_def split: sum.splits)
qed

theorem session_cursor_loses_nothing_witness:
  "\<exists>oc s' inbound bs si. run_initiator demo_env demo_source None demo_cursor (demo_world demo_messages []) = Some (Inr oc, s')
    \<and> cu_since_ms (oc_cursor oc) = 5 \<and> feed demo_source bs [] = ([demo_text], si)
    \<and> cursor_ok (clock_ceiling demo_env) (\<lambda>_. None) (rows inbound) bs 5"
proof -
  have "session_setting demo_env demo_source (wd_store (demo_world demo_messages [])) (\<lambda>_. None)"
    by (simp add: demo_setting demo_world_def)
  from session_cursor_loses_nothing[OF this, of None demo_cursor True] demo_run_ok show ?thesis
    by (auto simp: runs_def demo_world_def) blast
qed

text \<open>
  A bad greeting ends a session before it starts. When the first message is not a valid hello
  of another device, both roles return that error, nothing of the history is summarised or
  stored, and all that was sent is the initiator's own hello.
\<close>

theorem bad_greeting_ends_session:
  assumes "parse_hello (en_wire env) src m = Inl e" and "ch_in (wd_chan s) = Inr m # rest"
    and "ch_fault (wd_chan s) = (\<lambda>_. None)"
  shows "run_responder env src listen_addr cursor s = Some (Inl e, s\<lparr>wd_chan := (wd_chan s)\<lparr>ch_in := rest\<rparr>\<rparr>)
    \<and> run_initiator env src listen_addr cursor s = Some (Inl e, s\<lparr>wd_chan := (wd_chan s)\<lparr>ch_in := rest,
        ch_out := ch_out (wd_chan s) @ [local_hello src listen_addr (cu_since_ms cursor)]\<rparr>\<rparr>)"
  using assms
  by (simp add: run_responder_def run_responder_from_first_def run_initiator_def bind_act_def recv_def lift_def
      recv_hello_def send_def)

theorem bad_greeting_ends_session_witness:
  "parse_hello (en_wire demo_env) demo_source (Hello protocol_version ''b'' ''B'' None None 0) = Inl SelfSync
   \<and> run_responder demo_env demo_source None demo_cursor
       (demo_world [Hello protocol_version ''b'' ''B'' None None 0] []) = Some (Inl SelfSync, demo_world [] [])"
proof -
  have own: "parse_hello (en_wire demo_env) demo_source (Hello protocol_version ''b'' ''B'' None None 0) = Inl SelfSync"
    by (simp add: parse_hello_def demo_source_def check_protocol_version_def check_id_def check_len_def
        validate_profile_opt_def validate_listen_addr_def limit_defs)
  then show ?thesis
    using bad_greeting_ends_session[OF own, of "demo_world [Hello protocol_version ''b'' ''B'' None None 0] []" "[]" None demo_cursor]
    by (simp add: demo_world_def)
qed

end
