(* ===== verification/Cursor.thy ===== *)
theory Cursor
  imports Session
begin

text \<open>
  The sync cursors kept per pairing and their file: \<open>crates/copypaste-p2p/src/peers/cursor.rs\<close>, and
  \<open>record_cursor\<close> of \<open>node/mod.rs\<close>. The JSON layer is a pair of functions, the file is its octets or
  absent, and each write may fail. A \<open>Record\<close> has the fields of a \<open>SyncCursor\<close> and is one here.
\<close>

section \<open>The store\<close>

type_synonym cursors = "(string, sync_cursor) fmap"

record cursor_json =
  cj_to_vec :: "cursors \<Rightarrow> bytes option"
  cj_from_slice :: "bytes \<Rightarrow> cursors option"

record cursor_store =
  cs_state :: cursors
  cs_disk :: "bytes option"
  cs_poisoned :: bool

datatype read_result = ReadOk bytes | NotFound | ReadFailed

definition sync_cursor_default :: sync_cursor where
  "sync_cursor_default = \<lparr>cu_since_ms = 0, cu_relay_floor_ms = None\<rparr>"

definition load_cursors :: "cursor_json \<Rightarrow> read_result \<Rightarrow> cursors" where
  "load_cursors j r =
     (case r of
        ReadOk b \<Rightarrow> (case cj_from_slice j b of None \<Rightarrow> fmempty | Some peers \<Rightarrow> peers)
      | NotFound \<Rightarrow> fmempty
      | ReadFailed \<Rightarrow> fmempty)"

text \<open>\<open>CursorStore::open\<close>; \<open>unreadable\<close> is a read error other than a missing file.\<close>

definition open_cursors :: "cursor_json \<Rightarrow> bool \<Rightarrow> bytes option \<Rightarrow> cursor_store" where
  "open_cursors j unreadable disk =
     \<lparr>cs_state = load_cursors j (if unreadable then ReadFailed
                                else case disk of None \<Rightarrow> NotFound | Some b \<Rightarrow> ReadOk b),
      cs_disk = disk, cs_poisoned = False\<rparr>"

definition cursor_get :: "cursor_store \<Rightarrow> string \<Rightarrow> sync_cursor" where
  "cursor_get cs pid =
     (if cs_poisoned cs then sync_cursor_default
      else case fmlookup (cs_state cs) pid of None \<Rightarrow> sync_cursor_default | Some r \<Rightarrow> r)"

definition write_cursors :: "cursor_json \<Rightarrow> bool \<Rightarrow> cursors \<Rightarrow> bytes option" where
  "write_cursors j fails peers = (if fails then None else cj_to_vec j peers)"

definition mutate :: "cursor_json \<Rightarrow> bool \<Rightarrow> (cursors \<Rightarrow> bool \<times> cursors) \<Rightarrow> cursor_store \<Rightarrow> cursor_store" where
  "mutate j fails f cs =
     (if cs_poisoned cs then cs
      else case f (cs_state cs) of (changed, peers) \<Rightarrow>
        if \<not> changed then cs\<lparr>cs_state := peers\<rparr>
        else case write_cursors j fails peers of
               None \<Rightarrow> cs
             | Some b \<Rightarrow> cs\<lparr>cs_state := peers, cs_disk := Some b\<rparr>)"

section \<open>Operations\<close>

definition put_session :: "string \<Rightarrow> int \<Rightarrow> cursors \<Rightarrow> bool \<times> cursors" where
  "put_session pid since_ms m =
     (let r = \<lparr>cu_since_ms = max since_ms 0, cu_relay_floor_ms = None\<rparr>
      in if fmlookup m pid = Some r then (False, m) else (True, fmupd pid r m))"

definition record_session :: "cursor_json \<Rightarrow> bool \<Rightarrow> string \<Rightarrow> int \<Rightarrow> cursor_store \<Rightarrow> cursor_store" where
  "record_session j fails pid since_ms = mutate j fails (put_session pid since_ms)"

text \<open>One record of the loop of \<open>note_written\<close>.\<close>

definition lower :: "string option \<Rightarrow> int \<Rightarrow> string \<Rightarrow> sync_cursor \<Rightarrow> sync_cursor" where
  "lower from floor_ms pid r =
     (if from = Some pid \<or> cu_since_ms r \<le> floor_ms then r
      else r\<lparr>cu_relay_floor_ms := Some (case cu_relay_floor_ms r of None \<Rightarrow> floor_ms | Some f \<Rightarrow> min f floor_ms)\<rparr>)"

definition lower_all :: "string option \<Rightarrow> int \<Rightarrow> cursors \<Rightarrow> bool \<times> cursors" where
  "lower_all from floor_ms m =
     (\<exists>(pid, r) \<in> set (fm_entries m). lower from floor_ms pid r \<noteq> r, fmmap_keys (lower from floor_ms) m)"

definition note_written :: "cursor_json \<Rightarrow> bool \<Rightarrow> string option \<Rightarrow> int \<Rightarrow> cursor_store \<Rightarrow> cursor_store" where
  "note_written j fails from floor_ms = mutate j fails (lower_all from floor_ms)"

definition note_applied :: "cursor_json \<Rightarrow> bool \<Rightarrow> string \<Rightarrow> int \<Rightarrow> cursor_store \<Rightarrow> cursor_store" where
  "note_applied j fails from floor_ms = note_written j fails (Some from) floor_ms"

definition note_local :: "cursor_json \<Rightarrow> bool \<Rightarrow> int \<Rightarrow> cursor_store \<Rightarrow> cursor_store" where
  "note_local j fails floor_ms = note_written j fails None floor_ms"

definition forget :: "cursor_json \<Rightarrow> bool \<Rightarrow> string \<Rightarrow> cursor_store \<Rightarrow> cursor_store" where
  "forget j fails pid = mutate j fails (\<lambda>m. (fm_contains m pid, fmdrop pid m))"

definition retain :: "cursor_json \<Rightarrow> bool \<Rightarrow> string list \<Rightarrow> cursor_store \<Rightarrow> cursor_store" where
  "retain j fails keep = mutate j fails (\<lambda>m.
     let m' = fm_retain (\<lambda>pid _. pid \<in> set keep) m in (fm_len m' \<noteq> fm_len m, m'))"

text \<open>\<open>Node::record_cursor\<close>: the floors of the others before the cursor of this pairing.\<close>

definition record_cursor ::
  "cursor_json \<Rightarrow> bool \<Rightarrow> bool \<Rightarrow> string \<Rightarrow> sync_outcome \<Rightarrow> cursor_store \<Rightarrow> cursor_store" where
  "record_cursor j fails1 fails2 pid oc cs =
     (let cs = (case oc_applied_floor oc of None \<Rightarrow> cs | Some fl \<Rightarrow> note_applied j fails1 pid fl cs)
      in record_session j fails2 pid (cu_since_ms (oc_cursor oc)) cs)"

inductive cursor_step :: "cursor_json \<Rightarrow> cursor_store \<Rightarrow> cursor_store \<Rightarrow> bool" for j where
  step_session: "cursor_step j cs (record_session j fails pid since_ms cs)"
| step_written: "cursor_step j cs (note_written j fails from floor_ms cs)"
| step_forget: "cursor_step j cs (forget j fails pid cs)"
| step_retain: "cursor_step j cs (retain j fails keep cs)"

section \<open>Memory and file\<close>

text \<open>What opening the file again would find.\<close>

definition on_disk :: "cursor_json \<Rightarrow> cursor_store \<Rightarrow> cursors" where
  "on_disk j cs = cs_state (open_cursors j False (cs_disk cs))"

definition json_inverse :: "cursor_json \<Rightarrow> bool" where
  "json_inverse j \<longleftrightarrow> (\<forall>m b. cj_to_vec j m = Some b \<longrightarrow> cj_from_slice j b = Some m)"

text \<open>A change that reports \<open>False\<close> changed nothing.\<close>

definition honest_change :: "(cursors \<Rightarrow> bool \<times> cursors) \<Rightarrow> bool" where
  "honest_change f \<longleftrightarrow> (\<forall>m. \<not> fst (f m) \<longrightarrow> snd (f m) = m)"

text \<open>An operation writes what it leaves in memory, or changes neither.\<close>

definition written_or_kept :: "cursor_json \<Rightarrow> cursor_store \<Rightarrow> cursor_store \<Rightarrow> bool" where
  "written_or_kept j cs cs' \<longleftrightarrow>
     cs_state cs' = on_disk j cs' \<or> cs_state cs' = cs_state cs \<and> cs_disk cs' = cs_disk cs"

lemma mutate_written_or_kept:
  assumes "json_inverse j" and "honest_change f"
  shows "written_or_kept j cs (mutate j fails f cs)"
proof -
  obtain flag m where f: "f (cs_state cs) = (flag, m)" by fastforce
  with assms(2) have "\<not> flag \<Longrightarrow> m = cs_state cs" by (auto simp: honest_change_def dest: spec[of _ "cs_state cs"])
  with f assms(1) show ?thesis
    by (auto simp: written_or_kept_def mutate_def write_cursors_def on_disk_def open_cursors_def load_cursors_def json_inverse_def
        split: option.split)
qed

lemma lower_all_honest: "honest_change (lower_all from floor_ms)"
proof -
  have "fmmap_keys (lower from floor_ms) m = m"
    if "\<not> (\<exists>(pid, r) \<in> set (fm_entries m). lower from floor_ms pid r \<noteq> r)" for m
  proof (rule fmap_ext)
    fix k
    show "fmlookup (fmmap_keys (lower from floor_ms) m) k = fmlookup m k"
      using that set_fm_entries[of k _ m] by (cases "fmlookup m k") auto
  qed
  then show ?thesis by (simp add: honest_change_def lower_all_def)
qed

lemma fm_len_retain_all:
  assumes "fm_len (fm_retain P m) = fm_len m"
  shows "fm_retain P m = m"
proof (rule fmap_ext)
  fix k
  have "fmdom (fm_retain P m) |\<subseteq>| fmdom m"
    by (auto simp: fmlookup_dom_iff split: option.splits if_splits)
  with assms have "fmdom (fm_retain P m) = fmdom m"
    unfolding fm_len_def by (metis fcard_seteq order_refl)
  then have "k |\<in>| fmdom (fm_retain P m) \<longleftrightarrow> k |\<in>| fmdom m" by simp
  then show "fmlookup (fm_retain P m) k = fmlookup m k"
    by (cases "fmlookup m k") (auto simp: fmlookup_dom_iff split: if_splits)
qed

lemma honest_changes:
  "honest_change (put_session pid since_ms)" "honest_change (lower_all from floor_ms)"
  "honest_change (\<lambda>m. (fm_contains m pid, fmdrop pid m))"
  "honest_change (\<lambda>m. let m' = fm_retain (\<lambda>pid _. pid \<in> set keep) m in (fm_len m' \<noteq> fm_len m, m'))"
proof -
  show "honest_change (\<lambda>m. (fm_contains m pid, fmdrop pid m))"
    by (auto simp: honest_change_def fm_contains_def intro!: fmap_ext)
qed (auto simp: honest_change_def put_session_def Let_def fm_len_retain_all lower_all_honest[unfolded honest_change_def])

lemma cursor_step_written_or_kept:
  assumes "json_inverse j" and "cursor_step j cs cs'"
  shows "written_or_kept j cs cs'"
  using assms(2)
  by cases (simp_all add: record_session_def note_written_def forget_def retain_def mutate_written_or_kept[OF assms(1)] honest_changes)

section \<open>Relaying\<close>

lemma mutate_written:
  assumes "\<not> cs_poisoned cs" and "f (cs_state cs) = (flag, m)" and "honest_change f" and "cj_to_vec j m = Some b"
  shows "cs_state (mutate j False f cs) = m"
proof -
  from assms(2,3) have "\<not> flag \<Longrightarrow> m = cs_state cs"
    by (auto simp: honest_change_def dest: spec[of _ "cs_state cs"])
  with assms show ?thesis by (auto simp: mutate_def write_cursors_def)
qed

lemma mutate_poisoned [simp]: "cs_poisoned (mutate j fails f cs) = cs_poisoned cs"
  by (auto simp: mutate_def split: prod.split option.split)

definition writes :: "cursor_json \<Rightarrow> bool" where
  "writes j \<longleftrightarrow> (\<forall>m. cj_to_vec j m \<noteq> None)"

lemma note_applied_lookup:
  assumes "writes j" and "\<not> cs_poisoned cs" and "fmlookup (cs_state cs) pid = Some r"
  shows "cursor_get (note_applied j False from fl cs) pid = lower (Some from) fl pid r"
proof -
  from assms(1) obtain b where b: "cj_to_vec j (fmmap_keys (lower (Some from) fl) (cs_state cs)) = Some b"
    by (auto simp: writes_def)
  have "cs_state (note_applied j False from fl cs) = fmmap_keys (lower (Some from) fl) (cs_state cs)"
    unfolding note_applied_def note_written_def
    by (rule mutate_written[OF assms(2) _ honest_changes(2) b]) (simp add: lower_all_def)
  then show ?thesis
    using assms(2,3) by (simp add: cursor_get_def note_applied_def note_written_def)
qed

lemma record_session_other:
  "pid' \<noteq> pid \<Longrightarrow> cursor_get (record_session j fails pid since_ms cs) pid' = cursor_get cs pid'"
  by (auto simp: cursor_get_def record_session_def mutate_def put_session_def Let_def split: option.split)

text \<open>
  When a stamp is noted as applied, the peer it came from keeps its cursor, no other peer's history
  starts later than before, and for each peer whose cursor was above the stamp it starts at the
  stamp or below.
\<close>

lemma applied_stamp_is_relayed:
  assumes "writes j" and "\<not> cs_poisoned cs" and "fmlookup (cs_state cs) pid = Some r"
  shows "(pid = from \<longrightarrow> cursor_get (note_applied j False from fl cs) pid = r)
    \<and> (\<forall>reported. advertise_from (cursor_get (note_applied j False from fl cs) pid) reported \<le> advertise_from r reported)
    \<and> (pid \<noteq> from \<and> fl < cu_since_ms r \<longrightarrow>
         (\<forall>reported. advertise_from (cursor_get (note_applied j False from fl cs) pid) reported \<le> max fl 0))"
  unfolding note_applied_lookup[OF assms]
  by (auto simp: lower_def advertise_from_def split: option.split)

section \<open>Properties\<close>

definition demo_cursors :: cursors where
  "demo_cursors = fmupd ''p'' \<lparr>cu_since_ms = 5, cu_relay_floor_ms = None\<rparr> fmempty"

definition demo_cursor_json :: cursor_json where
  "demo_cursor_json = \<lparr>cj_to_vec = (\<lambda>m. if m = demo_cursors then Some ''{p:5}'' else None),
     cj_from_slice = (\<lambda>b. if b = ''{p:5}'' then Some demo_cursors else None)\<rparr>"

text \<open>
  C33: memory never claims what the file does not hold. Whatever follows the opening of the cursors,
  sessions, floors, removals, each with its write failing or not, the cursors in memory are exactly
  those that opening the file again would give. When the file was there but could not be read, they
  are so from the first write that succeeds; until then memory is empty and the file is untouched.
\<close>

theorem cursors_match_file:
  assumes "json_inverse j" and "(cursor_step j)\<^sup>*\<^sup>* (open_cursors j unreadable disk) cs"
  shows "cs_state cs = cs_state (open_cursors j False (cs_disk cs))
    \<or> unreadable \<and> cs_state cs = fmempty \<and> cs_disk cs = disk"
proof -
  from assms(2) have "cs_state cs = on_disk j cs \<or> unreadable \<and> cs_state cs = fmempty \<and> cs_disk cs = disk"
  proof (induction rule: rtranclp_induct)
    case base
    then show ?case by (simp add: on_disk_def open_cursors_def load_cursors_def)
  next
    case (step cs cs')
    with cursor_step_written_or_kept[OF assms(1) step.hyps(2)] show ?case
      by (auto simp: written_or_kept_def on_disk_def)
  qed
  then show ?thesis by (simp add: on_disk_def)
qed

theorem cursors_match_file_witness:
  "cs_state (record_session demo_cursor_json False ''p'' 5 (open_cursors demo_cursor_json False None)) = demo_cursors
   \<and> cs_state (open_cursors demo_cursor_json False (Some ''{p:5}'')) = demo_cursors
   \<and> cs_state (record_session demo_cursor_json True ''p'' 5 (open_cursors demo_cursor_json True (Some ''old''))) = fmempty"
proof -
  let ?run = "\<lambda>fails unreadable disk. record_session demo_cursor_json fails ''p'' 5 (open_cursors demo_cursor_json unreadable disk)"
  have inv: "json_inverse demo_cursor_json" by (simp add: json_inverse_def demo_cursor_json_def split: if_splits)
  have "(cursor_step demo_cursor_json)\<^sup>*\<^sup>* (open_cursors demo_cursor_json unreadable disk) (?run fails unreadable disk)"
    for fails unreadable disk by (intro r_into_rtranclp step_session)
  note same = cursors_match_file[OF inv this]
  have "cs_disk (?run False False None) = Some ''{p:5}''" "cs_disk (?run True True (Some ''old'')) = Some ''old''"
    by (simp_all add: record_session_def mutate_def open_cursors_def load_cursors_def put_session_def Let_def
        write_cursors_def demo_cursor_json_def demo_cursors_def)
  with same[of False False None] same[of True True "Some ''old''"] show ?thesis
    by (auto simp: open_cursors_def load_cursors_def demo_cursor_json_def)
qed

text \<open>
  A stamp between the two cursors of a pairing is not relayed. A peer whose cursor here is at or
  below the stamp keeps its history's start unchanged, so a version stamped \<open>fl\<close> that was just
  applied from elsewhere is not offered to it when the cursor it reports is above \<open>fl\<close>.
\<close>

theorem stamp_between_cursors_is_not_relayed:
  assumes "writes j" and "\<not> cs_poisoned cs" and "fmlookup (cs_state cs) pid = Some r"
    and "cu_since_ms r \<le> fl" and "cu_relay_floor_ms r = None" and "0 \<le> fl" and "fl < reported"
  shows "fl < advertise_from (cursor_get (note_applied j False from fl cs) pid) reported"
  unfolding note_applied_lookup[OF assms(1-3)] using assms(4-7) by (simp add: lower_def advertise_from_def)

theorem stamp_between_cursors_is_not_relayed_witness:
  "\<exists>j. 7 < advertise_from (cursor_get (note_applied j False ''q'' 7
       \<lparr>cs_state = demo_cursors, cs_disk = None, cs_poisoned = False\<rparr>) ''p'') 9"
proof -
  define j where "j = \<lparr>cj_to_vec = (\<lambda>m. Some []), cj_from_slice = (\<lambda>b. None)\<rparr>"
  have "writes j" by (simp add: writes_def j_def)
  from stamp_between_cursors_is_not_relayed[OF this, of "\<lparr>cs_state = demo_cursors, cs_disk = None, cs_poisoned = False\<rparr>" "''p''"
      "\<lparr>cu_since_ms = 5, cu_relay_floor_ms = None\<rparr>" 7 9 "''q''"]
  show ?thesis by (intro exI[of _ j]) (simp add: demo_cursors_def)
qed

end
