(* ===== verification/Peer_Store.thy ===== *)
theory Peer_Store
  imports Group
begin

text \<open>
  The paired-device store: \<open>crates/copypaste-p2p/src/peers/file.rs\<close>, \<open>crypto.rs\<close>, \<open>store.rs\<close>,
  \<open>revocation.rs\<close>, \<open>tentative.rs\<close> and \<open>group.rs\<close>. An operation takes the store and returns its
  result with the store after it. The JSON layer and the cipher are the arguments \<open>store_env\<close>; the
  nonce a write draws and whether the file system takes it are the argument \<open>write_input\<close>; the
  order in which a \<open>HashMap\<close> lists its values is \<open>se_order\<close>. A lock poisoned by a thread that died
  holding it is the flag \<open>ps_poisoned\<close>. Wiping and constant time are not values and are left out,
  as is the log.
\<close>

section \<open>State and file\<close>

record store_state =
  ss_pair_admissions :: "(string, pair_admissions) fmap"
  ss_group :: "group_state option"
  ss_group_admissions :: "string fset"
  ss_peers :: "(string, peer) fmap"
  ss_revoked :: "(string, int) fmap"
  ss_generations :: "(string, 64 word) fmap"

definition store_state_default :: store_state where
  "store_state_default = \<lparr>ss_pair_admissions = fmempty, ss_group = None, ss_group_admissions = {||},
     ss_peers = fmempty, ss_revoked = fmempty, ss_generations = fmempty\<rparr>"

record store_file =
  sf_pair_admissions :: "(string, pair_admissions) fmap"
  sf_group_admissions :: "string fset"
  sf_group :: "group_state option"
  sf_peers :: "peer list"
  sf_revoked :: "(string, int) fmap"

record store_env =
  se_crypto :: crypto
  se_to_json :: "store_file \<Rightarrow> bytes option"
  se_from_json :: "bytes \<Rightarrow> store_file option"
  se_encrypt :: "bytes \<Rightarrow> bytes \<Rightarrow> bytes \<Rightarrow> bytes \<Rightarrow> bytes option"
  se_decrypt :: "bytes \<Rightarrow> bytes \<Rightarrow> bytes \<Rightarrow> bytes \<Rightarrow> bytes option"
  se_order :: "(string, peer) fmap \<Rightarrow> peer list"

record write_input =
  wi_nonce :: bytes
  wi_fault :: "string option"

definition key_candidate :: "peer \<Rightarrow> string \<times> bytes" where
  "key_candidate p = (p_pairing_id p, p_psk p)"

record peer_store =
  ps_state :: store_state
  ps_unflushed :: bool
  ps_changes :: "64 word"
  ps_cache :: "(64 word \<times> (string \<times> bytes) list) option"
  ps_poisoned :: bool
  ps_key :: bytes
  ps_disk :: "bytes option"

type_synonym 'a stored = "(peer_store_error + 'a) \<times> peer_store"

fun insert_peers :: "peer list \<Rightarrow> (string, peer) fmap \<Rightarrow> peer_store_error + (string, peer) fmap" where
  "insert_peers [] m = Inr m"
| "insert_peers (p # ps) m =
     (case validate_peer p of Inl _ \<Rightarrow> Inl Corrupt | Inr _ \<Rightarrow> insert_peers ps (fmupd (p_pairing_id p) p m))"

definition parse_file :: "crypto \<Rightarrow> store_file \<Rightarrow> peer_store_error + store_state" where
  "parse_file c file =
     res_bind (case sf_group file of
                 None \<Rightarrow> Inr ()
               | Some g \<Rightarrow> (case group_validate c g of Inl _ \<Rightarrow> Inl Corrupt | Inr _ \<Rightarrow> Inr ())) (\<lambda>_.
     if fcard (sf_group_admissions file) > max_pairings then Inl Corrupt
     else res_bind (insert_peers (sf_peers file) fmempty) (\<lambda>peers.
       if fm_len (sf_pair_admissions file) > max_pairings
          \<or> \<not> list_all (fm_contains peers) (fm_keys (sf_pair_admissions file)) then Inl Corrupt
       else if fm_len (sf_revoked file) > max_revocations then Inl Corrupt
       else if \<not> list_all (\<lambda>pid. validate_pairing_id pid = Inr ()) (fm_keys (sf_revoked file)) then Inl Corrupt
       else Inr \<lparr>ss_pair_admissions = sf_pair_admissions file, ss_group = sf_group file,
                 ss_group_admissions = sf_group_admissions file, ss_peers = peers,
                 ss_revoked = sf_revoked file, ss_generations = fmempty\<rparr>))"

definition parse :: "store_env \<Rightarrow> bytes \<Rightarrow> peer_store_error + store_state" where
  "parse env b = (case se_from_json env b of None \<Rightarrow> Inl Corrupt | Some file \<Rightarrow> parse_file (se_crypto env) file)"

text \<open>\<open>write_now\<close> puts the records in the order of their pairing ids.\<close>

definition file_of :: "store_state \<Rightarrow> store_file" where
  "file_of st =
     \<lparr>sf_pair_admissions = ss_pair_admissions st, sf_group_admissions = ss_group_admissions st,
      sf_group = ss_group st, sf_peers = sort_key p_pairing_id (fm_values (ss_peers st)),
      sf_revoked = ss_revoked st\<rparr>"

section \<open>The envelope\<close>

definition magic :: bytes where "magic = ''CPP1''"
definition nonce_len :: nat where "nonce_len = 24"
definition header_len :: nat where "header_len = length magic + nonce_len"
definition tag_len :: nat where "tag_len = 16"
definition aad :: bytes where "aad = ''copypaste/v2/peer-store|1''"

lemmas envelope_defs = magic_def nonce_len_def header_len_def tag_len_def

definition seal :: "store_env \<Rightarrow> bytes \<Rightarrow> bytes \<Rightarrow> bytes \<Rightarrow> peer_store_error + bytes" where
  "seal env nonce plaintext key =
     (case se_encrypt env key nonce aad plaintext of
        None \<Rightarrow> Inl Encrypt
      | Some ciphertext \<Rightarrow> Inr (magic @ nonce @ ciphertext))"

definition unseal :: "store_env \<Rightarrow> bytes \<Rightarrow> bytes \<Rightarrow> peer_store_error + bytes" where
  "unseal env envelope key =
     (if length envelope < header_len + tag_len \<or> \<not> starts_with envelope magic then Inl Corrupt
      else case se_decrypt env key (take nonce_len (drop (length magic) envelope)) aad (drop header_len envelope) of
             None \<Rightarrow> Inl Corrupt
           | Some text \<Rightarrow> Inr text)"

definition write_now :: "store_env \<Rightarrow> write_input \<Rightarrow> store_state \<Rightarrow> bytes \<Rightarrow> peer_store_error + bytes" where
  "write_now env w st key =
     (case se_to_json env (file_of st) of
        None \<Rightarrow> Inl Corrupt
      | Some json \<Rightarrow>
          res_bind (seal env (wi_nonce w) json key) (\<lambda>envelope.
            case wi_fault w of Some e \<Rightarrow> Inl (Io e) | None \<Rightarrow> Inr envelope))"

definition persist :: "store_env \<Rightarrow> write_input \<Rightarrow> store_state \<Rightarrow> peer_store \<Rightarrow> unit stored" where
  "persist env w st ps =
     (case write_now env w st (ps_key ps) of
        Inl e \<Rightarrow> (Inl e, ps)
      | Inr envelope \<Rightarrow> (Inr (), ps\<lparr>ps_disk := Some envelope, ps_unflushed := False\<rparr>))"

definition persist_unflushed :: "store_env \<Rightarrow> write_input \<Rightarrow> store_state \<Rightarrow> peer_store \<Rightarrow> unit stored" where
  "persist_unflushed env w st ps =
     (case persist env w st ps of
        (Inl e, ps) \<Rightarrow> (Inl e, ps\<lparr>ps_unflushed := True\<rparr>)
      | (Inr u, ps) \<Rightarrow> (Inr u, ps))"

text \<open>\<open>unreadable\<close> is the error of a read that failed for another reason than a missing file.\<close>

definition open_store ::
  "store_env \<Rightarrow> string option \<Rightarrow> bytes option \<Rightarrow> bytes \<Rightarrow> peer_store_error + peer_store" where
  "open_store env unreadable disk key =
     res_bind (case (unreadable, disk) of
                 (Some e, _) \<Rightarrow> Inl (Io e)
               | (None, Some b) \<Rightarrow> res_bind (unseal env b key) (parse env)
               | (None, None) \<Rightarrow> Inr store_state_default) (\<lambda>st.
       Inr \<lparr>ps_state = st, ps_unflushed = False, ps_changes = 0, ps_cache = None, ps_poisoned = False,
            ps_key = key, ps_disk = disk\<rparr>)"

definition migrate_plaintext ::
  "store_env \<Rightarrow> write_input \<Rightarrow> string option \<Rightarrow> bytes option \<Rightarrow> bytes \<Rightarrow> peer_store_error + bytes option" where
  "migrate_plaintext env w unreadable disk key =
     (case (unreadable, disk) of
        (Some e, _) \<Rightarrow> Inl (Io e)
      | (None, None) \<Rightarrow> Inr None
      | (None, Some b) \<Rightarrow>
          if starts_with b magic then res_bind (unseal env b key) (\<lambda>text. res_bind (parse env text) (\<lambda>_. Inr disk))
          else res_bind (parse env b) (\<lambda>st. res_bind (write_now env w st key) (\<lambda>envelope. Inr (Some envelope))))"

definition only_last_seen_moved :: "store_state \<Rightarrow> peer \<Rightarrow> bool" where
  "only_last_seen_moved st incoming \<longleftrightarrow>
     (case fmlookup (ss_peers st) (p_pairing_id incoming) of
        None \<Rightarrow> False
      | Some old \<Rightarrow>
          p_name old = p_name incoming \<and> p_device_id old = p_device_id incoming
          \<and> p_last_addr old = p_last_addr incoming \<and> psk_matches old (p_psk incoming)
          \<and> p_profile old = p_profile incoming
          \<and> p_profile_observed_at_ms old = p_profile_observed_at_ms incoming)"

section \<open>Reading\<close>

definition store_list :: "peer_store \<Rightarrow> peer list" where
  "store_list ps = (if ps_poisoned ps then [] else sort_key p_pairing_id (fm_values (ss_peers (ps_state ps))))"

definition store_get :: "peer_store \<Rightarrow> string \<Rightarrow> peer option" where
  "store_get ps pid = (if ps_poisoned ps then None else fmlookup (ss_peers (ps_state ps)) pid)"

definition contains_device :: "peer_store \<Rightarrow> string \<Rightarrow> string \<Rightarrow> bool" where
  "contains_device ps dev except_id =
     (if ps_poisoned ps then False
      else list_ex (\<lambda>p. p_pairing_id p \<noteq> except_id \<and> p_device_id p = Some dev) (fm_values (ss_peers (ps_state ps))))"

definition admission_of :: "store_state \<Rightarrow> string \<Rightarrow> pair_admissions" where
  "admission_of st pid =
     (case fmlookup (ss_pair_admissions st) pid of None \<Rightarrow> pair_admissions_default | Some a \<Rightarrow> a)"

text \<open>The credentials of \<open>psks\<close> that a group has outlived.\<close>

definition outlived :: "store_state \<Rightarrow> peer \<Rightarrow> bool" where
  "outlived st p =
     (case ss_group st of
        None \<Rightarrow> False
      | Some g \<Rightarrow>
          \<not> group_active g
          \<or> (case local_admission g of Inl _ \<Rightarrow> False
             | Inr least \<Rightarrow> pa_local (admission_of st (p_pairing_id p)) < least))"

definition psks :: "peer_store \<Rightarrow> (string \<times> bytes) list" where
  "psks ps =
     (if ps_poisoned ps then []
      else sort_key fst (map key_candidate
             (filter (\<lambda>p. \<not> outlived (ps_state ps) p) (fm_values (ss_peers (ps_state ps))))))"

definition store_len :: "peer_store \<Rightarrow> nat" where
  "store_len ps = (if ps_poisoned ps then 0 else fm_len (ss_peers (ps_state ps)))"

definition revoked_list :: "peer_store \<Rightarrow> revoked_device list" where
  "revoked_list ps =
     (if ps_poisoned ps then []
      else map (\<lambda>(pid, at). \<lparr>rd_pairing_id = pid, rd_revoked_at_ms = at\<rparr>) (fm_entries (ss_revoked (ps_state ps))))"

definition store_flush :: "store_env \<Rightarrow> write_input \<Rightarrow> peer_store \<Rightarrow> unit stored" where
  "store_flush env w ps =
     (if \<not> ps_unflushed ps then (Inr (), ps)
      else if ps_poisoned ps then (Inl Poisoned, ps)
      else persist env w (ps_state ps) ps)"


section \<open>Writing\<close>

text \<open>\<open>tentative::generation\<close> and \<open>bump\<close>.\<close>

definition generation :: "store_state \<Rightarrow> string \<Rightarrow> 64 word" where
  "generation st pid = (case fmlookup (ss_generations st) pid of None \<Rightarrow> 0 | Some g \<Rightarrow> g)"

definition bump :: "string \<Rightarrow> store_state \<Rightarrow> store_state" where
  "bump pid st =
     (if starts_with pid group_pairing_prefix then st
      else st\<lparr>ss_generations := fmupd pid (generation st pid + 1) (ss_generations st)\<rparr>)"

definition group_changed :: "peer_store \<Rightarrow> peer_store" where
  "group_changed ps = ps\<lparr>ps_cache := None, ps_changes := ps_changes ps + 1\<rparr>"

text \<open>\<open>match value { Some(v) => insert, None => remove }\<close>.\<close>

definition fm_put :: "'k \<Rightarrow> 'v option \<Rightarrow> ('k, 'v) fmap \<Rightarrow> ('k, 'v) fmap" where
  "fm_put k v m = (case v of None \<Rightarrow> fmdrop k m | Some x \<Rightarrow> fmupd k x m)"

definition check_certified :: "store_state \<Rightarrow> peer \<Rightarrow> pair_admissions option \<Rightarrow> peer_store_error + unit" where
  "check_certified st p admission =
     (case (admission, ss_group st) of
        (Some certified, Some g) \<Rightarrow>
          res_bind (check_local_admission g (pa_local certified)) (\<lambda>_.
            if pa_remote certified = u64_max
               \<or> (case p_device_id p of
                    None \<Rightarrow> False
                  | Some dev \<Rightarrow> (case desired_admission g dev of Inl _ \<Rightarrow> False | Inr required \<Rightarrow> pa_remote certified < required))
            then Inl Revoked else Inr ())
      | _ \<Rightarrow> Inr ())"

definition upsert_checks :: "store_state \<Rightarrow> peer \<Rightarrow> pair_admissions option \<Rightarrow> peer_store_error + unit" where
  "upsert_checks st p admission =
     res_bind (validate_peer p) (\<lambda>_.
     res_bind (check_certified st p admission) (\<lambda>_.
       if fm_contains (ss_revoked st) (p_pairing_id p) then Inl Revoked
       else if (case p_device_id p of
                  None \<Rightarrow> False
                | Some dev \<Rightarrow> list_ex (\<lambda>q. p_pairing_id q \<noteq> p_pairing_id p \<and> p_device_id q = Some dev)
                              (fm_values (ss_peers st)))
       then Inl AlreadyPaired
       else if \<not> fm_contains (ss_peers st) (p_pairing_id p) \<and> fm_len (ss_peers st) \<ge> max_pairings
       then Inl TooManyPairings
       else Inr ()))"

definition upsert_locked_certified ::
  "store_env \<Rightarrow> write_input \<Rightarrow> peer \<Rightarrow> pair_admissions option \<Rightarrow> peer_store \<Rightarrow> unit stored" where
  "upsert_locked_certified env w p admission ps =
     (let st = ps_state ps; pid = p_pairing_id p in
      case upsert_checks st p admission of
        Inl e \<Rightarrow> (Inl e, ps)
      | Inr _ \<Rightarrow>
          let previous_admission = fmlookup (ss_pair_admissions st) pid;
              next_admission =
                (case admission of
                   Some a \<Rightarrow> Some a
                 | None \<Rightarrow> (case fmlookup (ss_peers st) pid of
                              None \<Rightarrow> None
                            | Some old \<Rightarrow> if psk_matches old (p_psk p) then previous_admission else None));
              st1 = st\<lparr>ss_pair_admissions := fm_put pid next_admission (ss_pair_admissions st)\<rparr>
          in if only_last_seen_moved st1 p \<and> previous_admission = next_admission
             then (Inr (), ps\<lparr>ps_state := bump pid (st1\<lparr>ss_peers := fmupd pid p (ss_peers st1)\<rparr>), ps_unflushed := True\<rparr>)
             else let previous = fmlookup (ss_peers st1) pid;
                      st2 = st1\<lparr>ss_peers := fmupd pid p (ss_peers st1)\<rparr>
                  in case persist env w st2 ps of
                       (Inr _, ps) \<Rightarrow> (Inr (), ps\<lparr>ps_state := bump pid st2\<rparr>)
                     | (Inl e, ps) \<Rightarrow>
                         (Inl e, ps\<lparr>ps_state := st2\<lparr>
                            ss_pair_admissions := fm_put pid previous_admission (ss_pair_admissions st2),
                            ss_peers := fm_put pid previous (ss_peers st2)\<rparr>\<rparr>))"

definition upsert :: "store_env \<Rightarrow> write_input \<Rightarrow> peer \<Rightarrow> peer_store \<Rightarrow> unit stored" where
  "upsert env w p ps =
     (if ps_poisoned ps then (Inl Poisoned, ps) else upsert_locked_certified env w p None ps)"

definition touch :: "store_env \<Rightarrow> write_input \<Rightarrow> peer \<Rightarrow> peer_store \<Rightarrow> bool stored" where
  "touch env w p ps =
     (if ps_poisoned ps then (Inl Poisoned, ps)
      else if \<not> fm_contains (ss_peers (ps_state ps)) (p_pairing_id p) then (Inr False, ps)
      else case upsert_locked_certified env w p None ps of
             (Inl e, ps) \<Rightarrow> (Inl e, ps) | (Inr _, ps) \<Rightarrow> (Inr True, ps))"

text \<open>\<open>group.remove\<close> for the device behind a pairing, shared by \<open>remove\<close> and \<open>revoke\<close>.\<close>

definition remove_device :: "string \<Rightarrow> store_state \<Rightarrow> peer_store_error + store_state" where
  "remove_device pid st =
     (case (Option.bind (fmlookup (ss_peers st) pid) p_device_id, ss_group st) of
        (Some dev, Some g) \<Rightarrow> res_bind (group_remove g dev) (\<lambda>(g', _). Inr (st\<lparr>ss_group := Some g'\<rparr>))
      | _ \<Rightarrow> Inr st)"

definition remove :: "store_env \<Rightarrow> write_input \<Rightarrow> string \<Rightarrow> peer_store \<Rightarrow> bool stored" where
  "remove env w pid ps =
     (if ps_poisoned ps then (Inl Poisoned, ps)
      else case remove_device pid (ps_state ps) of
             Inl e \<Rightarrow> (Inl e, ps)
           | Inr st1 \<Rightarrow>
               if \<not> fm_contains (ss_peers st1) pid then (Inr False, ps\<lparr>ps_state := st1\<rparr>)
               else let st2 = st1\<lparr>ss_peers := fmdrop pid (ss_peers st1),
                                  ss_group_admissions := ss_group_admissions st1 |-| {|pid|},
                                  ss_pair_admissions := fmdrop pid (ss_pair_admissions st1)\<rparr>
                    in case persist env w st2 ps of
                         (Inr _, ps) \<Rightarrow> (Inr True, group_changed (ps\<lparr>ps_state := bump pid st2\<rparr>))
                       | (Inl e, ps) \<Rightarrow> (Inl e, ps))"

definition revoke :: "store_env \<Rightarrow> write_input \<Rightarrow> string \<Rightarrow> int \<Rightarrow> peer_store \<Rightarrow> bool stored" where
  "revoke env w pid now_ms ps =
     (case validate_pairing_id pid of
        Inl e \<Rightarrow> (Inl e, ps)
      | Inr _ \<Rightarrow>
          if ps_poisoned ps then (Inl Poisoned, ps)
          else let st = ps_state ps in
            if \<not> fm_contains (ss_revoked st) pid \<and> fm_len (ss_revoked st) \<ge> max_revocations
            then (Inl TooManyRevocations, ps)
            else case remove_device pid st of
                   Inl e \<Rightarrow> (Inl e, ps)
                 | Inr st1 \<Rightarrow>
                     let st2 = st1\<lparr>ss_peers := fmdrop pid (ss_peers st1),
                                   ss_pair_admissions := fmdrop pid (ss_pair_admissions st1),
                                   ss_group_admissions := ss_group_admissions st1 |-| {|pid|},
                                   ss_revoked := fmupd pid now_ms (ss_revoked st1)\<rparr>
                     in case persist env w st2 ps of
                          (Inr _, ps) \<Rightarrow>
                            (Inr (fm_contains (ss_peers st1) pid),
                             (group_changed ps)\<lparr>ps_state := bump pid st2\<rparr>)
                        | (Inl e, ps) \<Rightarrow>
                            (Inl e, ps\<lparr>ps_state := st2\<lparr>
                               ss_pair_admissions :=
                                 (case fmlookup (ss_pair_admissions st) pid of
                                    None \<Rightarrow> ss_pair_admissions st2
                                  | Some a \<Rightarrow> fmupd pid a (ss_pair_admissions st2)),
                               ss_group := ss_group st,
                               ss_group_admissions :=
                                 (if pid |\<in>| ss_group_admissions st then finsert pid (ss_group_admissions st2)
                                  else ss_group_admissions st2),
                               ss_peers :=
                                 (case fmlookup (ss_peers st1) pid of
                                    None \<Rightarrow> ss_peers st2 | Some p \<Rightarrow> fmupd pid p (ss_peers st2)),
                               ss_revoked := fm_put pid (fmlookup (ss_revoked st1) pid) (ss_revoked st2)\<rparr>\<rparr>))"

fun remove_all :: "string list \<Rightarrow> group_state \<Rightarrow> peer_store_error + group_state" where
  "remove_all [] g = Inr g"
| "remove_all (dev # devs) g = res_bind (group_remove g dev) (\<lambda>(g', _). remove_all devs g')"

fun revoke_each :: "string list \<Rightarrow> int \<Rightarrow> (string, int) fmap \<Rightarrow> (string, int) fmap" where
  "revoke_each [] now_ms m = m"
| "revoke_each (pid # pids) now_ms m = revoke_each pids now_ms (fmupd pid now_ms m)"

definition revoke_all :: "store_env \<Rightarrow> write_input \<Rightarrow> int \<Rightarrow> peer_store \<Rightarrow> nat stored" where
  "revoke_all env w now_ms ps =
     (if ps_poisoned ps then (Inl Poisoned, ps)
      else let st = ps_state ps in
        if ss_peers st = fmempty then (Inr 0, ps)
        else let devs = List.map_filter p_device_id (se_order env (ss_peers st)) in
          case (case ss_group st of None \<Rightarrow> Inr None
                | Some g \<Rightarrow> res_bind (remove_all devs g) (\<lambda>g'. Inr (Some g'))) of
            Inl e \<Rightarrow> (Inl e, ps)
          | Inr g' \<Rightarrow>
              let pids = fm_keys (ss_peers st);
                  st2 = st\<lparr>ss_group := g', ss_peers := fmempty, ss_group_admissions := {||},
                           ss_pair_admissions := fmempty,
                           ss_revoked := revoke_each pids now_ms (ss_revoked st)\<rparr>
              in case persist env w st2 ps of
                   (Inr _, ps) \<Rightarrow> (Inr (fm_len (ss_peers st)), (group_changed ps)\<lparr>ps_state := fold bump pids st2\<rparr>)
                 | (Inl e, ps) \<Rightarrow> (Inl e, ps))"

section \<open>The two-phase write\<close>

record peer_snapshot =
  sn_previous_admission :: "pair_admissions option"
  sn_pairing_id :: string
  sn_previous :: "peer option"
  sn_generation :: "64 word"

datatype rollback = Undone | UndoneOverContention

definition take_snapshot :: "string \<Rightarrow> peer_store \<Rightarrow> peer_snapshot" where
  "take_snapshot pid ps =
     (if ps_poisoned ps
      then \<lparr>sn_previous_admission = None, sn_pairing_id = pid, sn_previous = None, sn_generation = 0\<rparr>
      else \<lparr>sn_previous_admission = fmlookup (ss_pair_admissions (ps_state ps)) pid, sn_pairing_id = pid,
            sn_previous = fmlookup (ss_peers (ps_state ps)) pid, sn_generation = generation (ps_state ps) pid\<rparr>)"

definition upsert_from_admission ::
  "store_env \<Rightarrow> write_input \<Rightarrow> peer_snapshot \<Rightarrow> peer \<Rightarrow> pair_admissions option \<Rightarrow> peer_store
   \<Rightarrow> peer_snapshot stored" where
  "upsert_from_admission env w sn p admission ps =
     (if ps_poisoned ps then (Inl Poisoned, ps)
      else if generation (ps_state ps) (sn_pairing_id sn) \<noteq> sn_generation sn then (Inl Contended, ps)
      else case upsert_locked_certified env w p admission ps of
             (Inl e, ps) \<Rightarrow> (Inl e, ps)
           | (Inr _, ps) \<Rightarrow> (Inr (sn\<lparr>sn_generation := generation (ps_state ps) (sn_pairing_id sn)\<rparr>), ps))"

definition restored_peer :: "peer_snapshot \<Rightarrow> store_state \<Rightarrow> peer option" where
  "restored_peer sn st =
     (let pid = sn_pairing_id sn in
      if fm_contains (ss_revoked st) pid then None
      else case sn_previous sn of
             None \<Rightarrow> None
           | Some previous \<Rightarrow>
               if generation st pid \<noteq> sn_generation sn
               then map_option (\<lambda>current. current\<lparr>p_pairing_id := pid,
                      p_device_id := (case p_device_id previous of None \<Rightarrow> p_device_id current | Some d \<Rightarrow> Some d),
                      p_psk := p_psk previous\<rparr>) (fmlookup (ss_peers st) pid)
               else Some previous)"

definition restore :: "store_env \<Rightarrow> write_input \<Rightarrow> peer_snapshot \<Rightarrow> peer_store \<Rightarrow> rollback stored" where
  "restore env w sn ps =
     (if ps_poisoned ps then (Inl Poisoned, ps)
      else let st = ps_state ps; pid = sn_pairing_id sn;
               contended = (generation st pid \<noteq> sn_generation sn);
               st1 = bump pid (st\<lparr>ss_peers := fm_put pid (restored_peer sn st) (ss_peers st)\<rparr>);
               st2 = st1\<lparr>ss_pair_admissions := fm_put pid
                       (if \<not> fm_contains (ss_revoked st) pid \<and> fm_contains (ss_peers st1) pid
                        then sn_previous_admission sn else None) (ss_pair_admissions st1)\<rparr>
           in case persist_unflushed env w st2 (ps\<lparr>ps_state := st2\<rparr>) of
                (Inl e, ps) \<Rightarrow> (Inl e, ps)
              | (Inr _, ps) \<Rightarrow> (Inr (if contended then UndoneOverContention else Undone), ps))"

end
