(* ===== verification/Peer_Group.thy ===== *)
theory Peer_Group
  imports Peer_Store
begin

text \<open>
  Device-group membership in the paired-device store:
  \<open>crates/copypaste-p2p/src/peers/group.rs\<close>. \<open>project\<close> makes the peers follow the group; the
  operations around it persist the new state before they install it.
\<close>

section \<open>Projection\<close>

definition keeps_credential :: "group_state \<Rightarrow> store_state \<Rightarrow> peer \<Rightarrow> bool" where
  "keeps_credential g st p =
     (case p_device_id p of
        None \<Rightarrow> pa_local (admission_of st (p_pairing_id p))
                 \<ge> (case local_admission g of Inl _ \<Rightarrow> u64_max | Inr least \<Rightarrow> least)
      | Some dev \<Rightarrow>
          \<not> removed_device g dev
          \<or> (p_pairing_id p |\<in>| ss_group_admissions st
             \<and> (case fmlookup (ss_pair_admissions st) (p_pairing_id p) of
                  None \<Rightarrow> False
                | Some a \<Rightarrow> (case desired_admission g dev of Inl _ \<Rightarrow> False | Inr required \<Rightarrow> pa_remote a \<ge> required))))"

definition install_derived :: "peer \<Rightarrow> pair_admissions \<Rightarrow> store_state \<Rightarrow> peer_store_error + store_state" where
  "install_derived p admission st =
     (if fm_contains (ss_revoked st) (p_pairing_id p) then Inl Revoked
      else if fm_len (ss_peers st) \<ge> max_pairings then Inl TooManyPairings
      else Inr (st\<lparr>ss_pair_admissions := fmupd (p_pairing_id p) admission (ss_pair_admissions st),
                   ss_peers := fmupd (p_pairing_id p) p (ss_peers st)\<rparr>))"

definition refresh_member :: "group_state \<Rightarrow> group_state option \<Rightarrow> peer \<Rightarrow> string \<Rightarrow> string \<Rightarrow> store_state
   \<Rightarrow> peer_store_error + store_state" where
  "refresh_member g previous p dev pid st =
     (if member_changed g previous dev
      then (case fmlookup (ss_peers st) pid of
              None \<Rightarrow> Inl Corrupt
            | Some old \<Rightarrow> Inr (st\<lparr>ss_peers := fmupd pid (old\<lparr>p_name := p_name p,
                 p_last_addr := (case p_last_addr p of None \<Rightarrow> p_last_addr old | Some a \<Rightarrow> Some a)\<rparr>) (ss_peers st)\<rparr>))
      else Inr st)"

definition project_one ::
  "store_env \<Rightarrow> group_state \<Rightarrow> group_state option \<Rightarrow> peer \<Rightarrow> store_state \<Rightarrow> peer_store_error + store_state" where
  "project_one env g previous p st =
     res_bind (validate_peer p) (\<lambda>_.
     res_bind (ok_or Corrupt (p_device_id p)) (\<lambda>dev.
     res_bind (group_pair_admissions g dev) (\<lambda>admission.
       case List.find (\<lambda>old. p_device_id old = p_device_id p) (se_order env (ss_peers st)) of
         None \<Rightarrow> install_derived p admission st
       | Some old \<Rightarrow>
           let pid = p_pairing_id old in
           if (\<not> starts_with pid group_pairing_prefix \<and> admission_of st pid = admission) \<or> pid = p_pairing_id p
           then refresh_member g previous p dev pid st
           else install_derived p admission
                  (st\<lparr>ss_peers := fmdrop pid (ss_peers st),
                      ss_group_admissions := ss_group_admissions st |-| {|pid|},
                      ss_pair_admissions := fmdrop pid (ss_pair_admissions st)\<rparr>))))"

fun project_each ::
  "store_env \<Rightarrow> group_state \<Rightarrow> group_state option \<Rightarrow> peer list \<Rightarrow> store_state \<Rightarrow> peer_store_error + store_state" where
  "project_each env g previous [] st = Inr st"
| "project_each env g previous (p # ps) st =
     res_bind (project_one env g previous p st) (\<lambda>st. project_each env g previous ps st)"

definition project :: "store_env \<Rightarrow> group_state option \<Rightarrow> store_state \<Rightarrow> peer_store_error + store_state" where
  "project env previous st =
     (case ss_group st of
        None \<Rightarrow> Inr st
      | Some g \<Rightarrow>
          if \<not> group_active g
          then Inr (st\<lparr>ss_peers := fmempty, ss_group_admissions := {||}, ss_pair_admissions := fmempty\<rparr>)
          else let st1 = st\<lparr>ss_peers := fm_retain (\<lambda>_ p. keeps_credential g st p) (ss_peers st)\<rparr>;
                   st2 = st1\<lparr>ss_group_admissions := ffilter (fm_contains (ss_peers st1)) (ss_group_admissions st1)\<rparr>
               in res_bind (group_peers (se_crypto env) g) (\<lambda>ps.
                  res_bind (project_each env g previous ps st2) (\<lambda>st3.
                    Inr (st3\<lparr>ss_pair_admissions :=
                           fm_retain (\<lambda>pid _. fm_contains (ss_peers st3) pid) (ss_pair_admissions st3)\<rparr>))))"

section \<open>Operations\<close>

definition stored_group :: "store_env \<Rightarrow> peer_store \<Rightarrow> peer_store_error + group_snapshot" where
  "stored_group env ps =
     (if ps_poisoned ps then Inl Poisoned
      else case ss_group (ps_state ps) of
             None \<Rightarrow> Inl (Invalid ''group is not initialized'')
           | Some g \<Rightarrow> group_snapshot_of (se_crypto env) g)"

definition store_identity_tag :: "store_env \<Rightarrow> peer_store \<Rightarrow> string option \<Rightarrow> string option" where
  "store_identity_tag env ps device_id =
     (if ps_poisoned ps then None
      else case ss_group (ps_state ps) of None \<Rightarrow> None | Some g \<Rightarrow> identity_tag (se_crypto env) g device_id)"

definition store_metadata_key :: "store_env \<Rightarrow> peer_store \<Rightarrow> string \<Rightarrow> bytes option" where
  "store_metadata_key env ps dev =
     (if ps_poisoned ps then None
      else case ss_group (ps_state ps) of
             None \<Rightarrow> None
           | Some g \<Rightarrow> (case metadata_key (se_crypto env) g dev of Inl _ \<Rightarrow> None | Inr k \<Rightarrow> Some k))"

definition derived_metadata :: "store_env \<Rightarrow> store_state \<Rightarrow> (string \<times> bytes) list" where
  "derived_metadata env st =
     (case ss_group st of
        None \<Rightarrow> []
      | Some g \<Rightarrow> List.map_filter (\<lambda>p.
          case p_device_id p of
            None \<Rightarrow> None
          | Some dev \<Rightarrow> (case metadata_key (se_crypto env) g dev of Inl _ \<Rightarrow> None | Inr k \<Rightarrow> Some (p_pairing_id p, k)))
          (se_order env (ss_peers st)))"

text \<open>The cache is keyed by the revision of the group.\<close>

definition metadata_psks :: "store_env \<Rightarrow> peer_store \<Rightarrow> (string \<times> bytes) list \<times> peer_store" where
  "metadata_psks env ps =
     (case ps_cache ps of
        Some (revision, keys) \<Rightarrow>
          if revision = ps_changes ps then (keys, ps)
          else if ps_poisoned ps then ([], ps)
          else let keys = derived_metadata env (ps_state ps) in (keys, ps\<lparr>ps_cache := Some (ps_changes ps, keys)\<rparr>)
      | None \<Rightarrow>
          if ps_poisoned ps then ([], ps)
          else let keys = derived_metadata env (ps_state ps) in (keys, ps\<lparr>ps_cache := Some (ps_changes ps, keys)\<rparr>))"

text \<open>\<open>PeerStore::group_snapshot\<close>; the identity a new group draws is an argument.\<close>

definition publish_group ::
  "store_env \<Rightarrow> write_input \<Rightarrow> identity \<Rightarrow> string \<Rightarrow> string \<Rightarrow> device_profile \<Rightarrow> socket_addr option
   \<Rightarrow> peer_store \<Rightarrow> group_snapshot stored" where
  "publish_group env w fresh dev name profile addr ps =
     (if ps_poisoned ps then (Inl Poisoned, ps)
      else let c = se_crypto env; st = ps_state ps in
        case ss_group st of
          Some g \<Rightarrow>
            if local_matches g dev name profile addr then (group_snapshot_of c g, ps)
            else (case update_local g dev name profile addr of
                    Inl e \<Rightarrow> (Inl e, ps)
                  | Inr (g', changed) \<Rightarrow>
                      (case group_snapshot_of c g' of
                         Inl e \<Rightarrow> (Inl e, ps)
                       | Inr snapshot \<Rightarrow>
                           if \<not> changed then (Inr snapshot, ps)
                           else (case gs_validate c snapshot of
                                   Inl e \<Rightarrow> (Inl e, ps)
                                 | Inr _ \<Rightarrow>
                                     let st' = st\<lparr>ss_group := Some g'\<rparr> in
                                     case persist env w st' ps of
                                       (Inl e, ps) \<Rightarrow> (Inl e, ps)
                                     | (Inr _, ps) \<Rightarrow> (Inr snapshot, group_changed (ps\<lparr>ps_state := st'\<rparr>)))))
        | None \<Rightarrow>
            (case group_new c fresh dev name profile addr of
               Inl e \<Rightarrow> (Inl e, ps)
             | Inr g' \<Rightarrow>
                 (case group_snapshot_of c g' of
                    Inl e \<Rightarrow> (Inl e, ps)
                  | Inr snapshot \<Rightarrow>
                      (case gs_validate c snapshot of
                         Inl e \<Rightarrow> (Inl e, ps)
                       | Inr _ \<Rightarrow>
                           let st' = st\<lparr>ss_group := Some g'\<rparr> in
                           case persist env w st' ps of
                             (Inl e, ps) \<Rightarrow> (Inl e, ps)
                           | (Inr _, ps) \<Rightarrow> (Inr snapshot, group_changed (ps\<lparr>ps_state := st'\<rparr>))))))"

text \<open>Binding the issuer of a snapshot to the pairing it arrived over.\<close>

definition bind_identity ::
  "string \<Rightarrow> string option \<Rightarrow> store_state \<Rightarrow> peer_store_error + store_state \<times> bool" where
  "bind_identity issuer pairing_id st =
     (case pairing_id of
        None \<Rightarrow> Inr (st, False)
      | Some pid \<Rightarrow>
          (case fmlookup (ss_peers st) pid of
             None \<Rightarrow> Inl Revoked
           | Some p \<Rightarrow>
               if p_device_id p \<noteq> None \<and> p_device_id p \<noteq> Some issuer
               then Inl (Invalid ''group identity does not match pairing'')
               else Inr (st\<lparr>ss_peers := fmupd pid (p\<lparr>p_device_id := Some issuer\<rparr>) (ss_peers st)\<rparr>,
                         p_device_id p = None)))"

definition peers_changed :: "store_state \<Rightarrow> store_state \<Rightarrow> bool" where
  "peers_changed old new \<longleftrightarrow>
     fm_len (ss_peers new) \<noteq> fm_len (ss_peers old)
     \<or> list_ex (\<lambda>p. \<not> only_last_seen_moved old p
          \<or> (case fmlookup (ss_peers old) (p_pairing_id p) of
               None \<Rightarrow> True | Some q \<Rightarrow> p_last_seen_ms q \<noteq> p_last_seen_ms p)) (fm_values (ss_peers new))"

definition merge_group ::
  "store_env \<Rightarrow> write_input \<Rightarrow> group_snapshot \<Rightarrow> string option \<Rightarrow> bool \<Rightarrow> peer_store \<Rightarrow> bool stored" where
  "merge_group env w snapshot pairing_id explicit ps =
     (if ps_poisoned ps then (Inl Poisoned, ps)
      else let st = ps_state ps in
        case ss_group st of
          None \<Rightarrow> (Inl (Invalid ''group is not initialized''), ps)
        | Some g \<Rightarrow>
            (case bind_identity (r_issuer (gs_roster snapshot)) pairing_id st of
               Inl e \<Rightarrow> (Inl e, ps)
             | Inr (st1, bound_identity) \<Rightarrow>
                 let fresh_sas = (case pairing_id of None \<Rightarrow> False | Some pid \<Rightarrow> pid |\<in>| ss_group_admissions st1) in
                 case group_merge (se_crypto env) g snapshot (explicit \<or> fresh_sas) of
                   Inl e \<Rightarrow> (Inl e, ps)
                 | Inr (g', changed) \<Rightarrow>
                     if \<not> changed \<and> \<not> fresh_sas \<and> \<not> bound_identity then (Inr False, ps)
                     else let st2 = st1\<lparr>ss_group := Some g',
                                ss_group_admissions := (case pairing_id of None \<Rightarrow> ss_group_admissions st1
                                  | Some pid \<Rightarrow> ss_group_admissions st1 |-| {|pid|})\<rparr> in
                       case project env (ss_group st) st2 of
                         Inl e \<Rightarrow> (Inl e, ps)
                       | Inr st3 \<Rightarrow>
                           if changed \<or> peers_changed st st3
                              \<or> ss_group_admissions st3 \<noteq> ss_group_admissions st
                              \<or> ss_pair_admissions st3 \<noteq> ss_pair_admissions st
                           then (case persist env w st3 ps of
                                   (Inl e, ps) \<Rightarrow> (Inl e, ps)
                                 | (Inr _, ps) \<Rightarrow>
                                     (Inr True, group_changed (ps\<lparr>ps_state :=
                                        fold bump (fm_keys (ss_peers st) @ fm_keys (ss_peers st3)) st3\<rparr>)))
                           else (Inr False, ps)))"

definition store_group_active :: "peer_store \<Rightarrow> bool" where
  "store_group_active ps \<longleftrightarrow>
     \<not> ps_poisoned ps \<and> (case ss_group (ps_state ps) of None \<Rightarrow> True | Some g \<Rightarrow> group_active g)"

definition is_current_credential :: "peer_store \<Rightarrow> string \<Rightarrow> bool" where
  "is_current_credential ps pid \<longleftrightarrow>
     \<not> ps_poisoned ps \<and> fm_contains (ss_peers (ps_state ps)) pid
     \<and> (case ss_group (ps_state ps) of
          None \<Rightarrow> True
        | Some g \<Rightarrow> group_active g
            \<and> (case local_admission g of Inl _ \<Rightarrow> False
               | Inr current \<Rightarrow> pa_local (admission_of (ps_state ps) pid) \<ge> current))"

definition confirm_group_admission :: "store_env \<Rightarrow> write_input \<Rightarrow> string \<Rightarrow> peer_store \<Rightarrow> unit stored" where
  "confirm_group_admission env w pid ps =
     (if ps_poisoned ps then (Inl Poisoned, ps)
      else let st = ps_state ps in
        if \<not> fm_contains (ss_peers st) pid then (Inl Revoked, ps)
        else case (case (fmlookup (ss_pair_admissions st) pid, ss_group st) of
                     (Some admission, Some g) \<Rightarrow>
                       res_bind (certify_local g (pa_local admission)) (\<lambda>g'. Inr (st\<lparr>ss_group := Some g'\<rparr>))
                   | _ \<Rightarrow> Inr st) of
               Inl e \<Rightarrow> (Inl e, ps)
             | Inr st1 \<Rightarrow>
                 (case project env (ss_group st) (st1\<lparr>ss_group_admissions := finsert pid (ss_group_admissions st1)\<rparr>) of
                    Inl e \<Rightarrow> (Inl e, ps)
                  | Inr st2 \<Rightarrow>
                      (case persist env w st2 ps of
                         (Inl e, ps) \<Rightarrow> (Inl e, ps)
                       | (Inr _, ps) \<Rightarrow> (Inr (), group_changed (ps\<lparr>ps_state := st2\<rparr>)))))"

definition desired_group_admission :: "peer_store \<Rightarrow> string option \<Rightarrow> peer_store_error + 64 word" where
  "desired_group_admission ps device_id =
     (if ps_poisoned ps then Inl Poisoned
      else case ss_group (ps_state ps) of
             None \<Rightarrow> Inl (Invalid ''group is not initialized'')
           | Some g \<Rightarrow> (case device_id of Some dev \<Rightarrow> desired_admission g dev | None \<Rightarrow> local_admission g))"

end
