(* ===== verification/Peer_Invariant.thy ===== *)
theory Peer_Invariant
  imports Peer_Group
begin

text \<open>
  The invariant of the paired-device store, that the projection of the group keeps it, and what a
  file that the store wrote reads back to.
\<close>

section \<open>The invariant of the state\<close>

text \<open>
  A peer is filed under its own pairing id, is valid and is not revoked; a certificate belongs to
  a peer; a revoked id is one that the file reader accepts.
\<close>

definition peers_ok :: "store_state \<Rightarrow> bool" where
  "peers_ok st \<longleftrightarrow> (\<forall>k p. fmlookup (ss_peers st) k = Some p \<longrightarrow>
     p_pairing_id p = k \<and> peer_ok p \<and> \<not> fm_contains (ss_revoked st) k)"

definition certs_ok :: "store_state \<Rightarrow> bool" where
  "certs_ok st \<longleftrightarrow> (\<forall>k. fm_contains (ss_pair_admissions st) k \<longrightarrow> fm_contains (ss_peers st) k)"

definition revocations_ok :: "store_state \<Rightarrow> bool" where
  "revocations_ok st \<longleftrightarrow> (\<forall>k. fm_contains (ss_revoked st) k \<longrightarrow> validate_pairing_id k = Inr ())"

definition store_ok :: "store_state \<Rightarrow> bool" where
  "store_ok st \<longleftrightarrow> peers_ok st \<and> certs_ok st \<and> revocations_ok st"

lemmas store_ok_defs = store_ok_def peers_ok_def certs_ok_def revocations_ok_def

lemma fmlookup_put [simp]: "fmlookup (fm_put k v m) k' = (if k' = k then v else fmlookup m k')"
  by (auto simp: fm_put_def split: option.split)

lemma fm_contains_put [simp]: "fm_contains (fm_put k v m) k' \<longleftrightarrow> (if k' = k then v \<noteq> None else fm_contains m k')"
  by (auto simp: fm_put_def split: option.split)

lemma fm_contains_lookup: "fm_contains m k \<longleftrightarrow> (\<exists>v. fmlookup m k = Some v)"
  by (auto simp: fm_contains_iff fmlookup_dom_iff)

lemma fm_contains_retain: "fm_contains (fm_retain P m) k \<longleftrightarrow> (\<exists>v. fmlookup m k = Some v \<and> P k v)"
  by (auto simp: fm_contains_lookup split: option.splits)

lemma fm_put_back:
  "fm_put k (fmlookup m k) (fm_put k v m) = m" "fm_put k (fmlookup m k) (fmupd k x m) = m"
  "fm_put k (fmlookup m k) (fmdrop k m) = m"
  by (auto intro!: fmap_ext)

lemma fmupd_back: "fmlookup m k = Some v \<Longrightarrow> fmupd k v (fmdrop k m) = m"
  by (auto intro!: fmap_ext)

lemma fmdrop_absent: "fmlookup m k = None \<Longrightarrow> fmdrop k m = m"
  by (auto intro!: fmap_ext)

lemma bump_sel [simp]:
  "ss_pair_admissions (bump pid st) = ss_pair_admissions st" "ss_group (bump pid st) = ss_group st"
  "ss_group_admissions (bump pid st) = ss_group_admissions st" "ss_peers (bump pid st) = ss_peers st"
  "ss_revoked (bump pid st) = ss_revoked st"
  by (simp_all add: bump_def)

lemma bumps_sel [simp]:
  "ss_pair_admissions (fold bump pids st) = ss_pair_admissions st" "ss_group (fold bump pids st) = ss_group st"
  "ss_group_admissions (fold bump pids st) = ss_group_admissions st" "ss_peers (fold bump pids st) = ss_peers st"
  "ss_revoked (fold bump pids st) = ss_revoked st"
  by (induction pids arbitrary: st) simp_all

lemma store_ok_bump [simp]: "store_ok (bump pid st) = store_ok st" "store_ok (fold bump pids st) = store_ok st"
  by (simp_all add: store_ok_defs)

lemma revoke_each_contains:
  "fm_contains (revoke_each pids now m) k \<longleftrightarrow> k \<in> set pids \<or> fm_contains m k"
  by (induction pids arbitrary: m) auto

lemma upsert_checks_ok:
  "upsert_checks st p admission = Inr u \<Longrightarrow> peer_ok p \<and> \<not> fm_contains (ss_revoked st) (p_pairing_id p)"
  by (auto simp: upsert_checks_def res_bind_Inr_iff validate_peer_ok_iff split: if_splits)

lemma store_ok_upsert:
  assumes "store_ok st" and "peer_ok p" and "\<not> fm_contains (ss_revoked st) (p_pairing_id p)"
  shows "store_ok (st\<lparr>ss_pair_admissions := fm_put (p_pairing_id p) a (ss_pair_admissions st),
                      ss_peers := fmupd (p_pairing_id p) p (ss_peers st)\<rparr>)"
  using assms by (auto simp: store_ok_defs)

lemma store_ok_drop:
  assumes "store_ok st"
  shows "store_ok (st\<lparr>ss_peers := fmdrop pid (ss_peers st),
      ss_group_admissions := ga, ss_pair_admissions := fmdrop pid (ss_pair_admissions st)\<rparr>)"
  using assms by (auto simp: store_ok_defs)

lemma store_ok_group [simp]: "store_ok (st\<lparr>ss_group := g\<rparr>) = store_ok st"
  by (simp add: store_ok_defs)

subsection \<open>Projection\<close>

lemma install_derived_ok:
  "install_derived p a st = Inr st' \<Longrightarrow> peer_ok p \<Longrightarrow> peers_ok st \<Longrightarrow>
     peers_ok st' \<and> ss_revoked st' = ss_revoked st \<and> ss_group st' = ss_group st"
  by (auto simp: install_derived_def peers_ok_def split: if_splits)

lemma peer_ok_shown [simp]:
  "peer_ok (p\<lparr>p_name := n\<rparr>) = peer_ok p" "peer_ok (p\<lparr>p_last_addr := a\<rparr>) = peer_ok p"
  by (simp_all add: peer_ok_def)

lemma refresh_member_ok:
  "refresh_member g previous p dev pid st = Inr st' \<Longrightarrow> peers_ok st \<Longrightarrow>
     peers_ok st' \<and> ss_revoked st' = ss_revoked st \<and> ss_group st' = ss_group st"
  by (auto simp: refresh_member_def peers_ok_def split: if_splits option.splits)

lemma peers_ok_drop: "peers_ok st \<Longrightarrow> peers_ok (st\<lparr>ss_peers := fmdrop pid (ss_peers st),
    ss_group_admissions := ga, ss_pair_admissions := pa\<rparr>)"
  by (auto simp: peers_ok_def split: if_splits)

lemma project_one_ok:
  assumes "project_one env g previous p st = Inr st'" and "peers_ok st"
  shows "peers_ok st' \<and> ss_revoked st' = ss_revoked st \<and> ss_group st' = ss_group st"
  using assms
  by (auto simp: project_one_def res_bind_Inr_iff validate_peer_ok_iff Let_def
      dest!: install_derived_ok[OF _ _ peers_ok_drop] refresh_member_ok split: option.splits if_splits)
     (auto dest!: install_derived_ok)

lemma project_each_ok:
  "project_each env g previous ps st = Inr st' \<Longrightarrow> peers_ok st \<Longrightarrow>
     peers_ok st' \<and> ss_revoked st' = ss_revoked st \<and> ss_group st' = ss_group st"
  by (induction ps arbitrary: st) (auto simp: res_bind_Inr_iff dest!: project_one_ok)

lemma store_ok_retained:
  "peers_ok st \<Longrightarrow> revocations_ok st \<Longrightarrow>
     store_ok (st\<lparr>ss_pair_admissions := fm_retain (\<lambda>pid _. fm_contains (ss_peers st) pid) (ss_pair_admissions st)\<rparr>)"
  by (auto simp: store_ok_defs fm_contains_retain)

lemma project_ok:
  assumes proj: "project env previous st = Inr st'" and ok: "store_ok st"
  shows "store_ok st' \<and> ss_revoked st' = ss_revoked st \<and> ss_group st' = ss_group st"
proof (cases "ss_group st")
  case None
  then show ?thesis using assms by (simp add: project_def)
next
  case (Some g)
  show ?thesis
  proof (cases "group_active g")
    case False
    then show ?thesis using assms Some by (auto simp: project_def store_ok_defs)
  next
    case True
    let ?st1 = "st\<lparr>ss_peers := fm_retain (\<lambda>_ p. keeps_credential g st p) (ss_peers st)\<rparr>"
    let ?st2 = "?st1\<lparr>ss_group_admissions := ffilter (fm_contains (ss_peers ?st1)) (ss_group_admissions ?st1)\<rparr>"
    from proj Some True obtain ps st3 where each: "project_each env g previous ps ?st2 = Inr st3"
      and st': "st' = st3\<lparr>ss_pair_admissions :=
        fm_retain (\<lambda>pid _. fm_contains (ss_peers st3) pid) (ss_pair_admissions st3)\<rparr>"
      by (auto simp: project_def res_bind_Inr_iff Let_def)
    have "peers_ok ?st2" using ok by (auto simp: store_ok_defs split: option.splits if_splits)
    from project_each_ok[OF each this] have "peers_ok st3" "ss_revoked st3 = ss_revoked st" "ss_group st3 = ss_group st"
      by simp_all
    then show ?thesis unfolding st' using ok store_ok_retained[of st3]
      by (simp add: store_ok_def revocations_ok_def)
  qed
qed

section \<open>The file\<close>

text \<open>
  The two libraries: \<open>serde_json\<close> reads what it wrote, and the cipher opens what it sealed under the
  same key, nonce and associated data, with a tag of sixteen octets.
\<close>

definition env_ok :: "store_env \<Rightarrow> bool" where
  "env_ok env \<longleftrightarrow>
     (\<forall>f b. se_to_json env f = Some b \<longrightarrow> se_from_json env b = Some f)
     \<and> (\<forall>key nonce ad text ct. se_encrypt env key nonce ad text = Some ct \<longrightarrow>
          se_decrypt env key nonce ad ct = Some text \<and> length ct = length text + tag_len)"

definition nonce_ok :: "write_input \<Rightarrow> bool" where
  "nonce_ok w \<longleftrightarrow> length (wi_nonce w) = nonce_len"

text \<open>The limits of the file reader that the invariant does not give.\<close>

definition within_limits :: "crypto \<Rightarrow> store_state \<Rightarrow> bool" where
  "within_limits c st \<longleftrightarrow>
     (\<forall>g. ss_group st = Some g \<longrightarrow> group_validate c g = Inr ())
     \<and> fcard (ss_group_admissions st) \<le> max_pairings \<and> fm_len (ss_pair_admissions st) \<le> max_pairings
     \<and> fm_len (ss_revoked st) \<le> max_revocations"

lemma insert_peers_spec:
  assumes "\<forall>p \<in> set ps. peer_ok p" and "\<forall>p \<in> set ps. \<forall>q \<in> set ps. p_pairing_id p = p_pairing_id q \<longrightarrow> p = q"
  shows "\<exists>m'. insert_peers ps m = Inr m' \<and> (\<forall>p \<in> set ps. fmlookup m' (p_pairing_id p) = Some p)
           \<and> (\<forall>k. k \<notin> p_pairing_id ` set ps \<longrightarrow> fmlookup m' k = fmlookup m k)"
  using assms
proof (induction ps arbitrary: m)
  case (Cons p ps)
  from Cons.IH[of "fmupd (p_pairing_id p) p m"] Cons.prems obtain m' where
    m': "insert_peers ps (fmupd (p_pairing_id p) p m) = Inr m'"
    "\<forall>q \<in> set ps. fmlookup m' (p_pairing_id q) = Some q"
    "\<forall>k. k \<notin> p_pairing_id ` set ps \<longrightarrow> fmlookup m' k = fmlookup (fmupd (p_pairing_id p) p m) k"
    by auto
  have "fmlookup m' (p_pairing_id p) = Some p"
  proof (cases "p_pairing_id p \<in> p_pairing_id ` set ps")
    case True
    then obtain q where q: "q \<in> set ps" "p_pairing_id p = p_pairing_id q" by blast
    with Cons.prems(2) have "p = q" by simp
    with q(1) m'(2) show ?thesis by blast
  next
    case False
    with m'(3) show ?thesis by simp
  qed
  moreover have "validate_peer p = Inr ()" using Cons.prems(1) by (simp add: validate_peer_ok_iff)
  ultimately show ?case using m' by auto
qed simp

definition keyed :: "(string, peer) fmap \<Rightarrow> bool" where
  "keyed m \<longleftrightarrow> (\<forall>k p. fmlookup m k = Some p \<longrightarrow> p_pairing_id p = k \<and> peer_ok p)"

lemma keyed_upd: "keyed m \<Longrightarrow> peer_ok p \<Longrightarrow> keyed (fmupd (p_pairing_id p) p m)"
  by (simp add: keyed_def)

lemma insert_peers_keyed: "insert_peers ps m = Inr m' \<Longrightarrow> keyed m \<Longrightarrow> keyed m'"
proof (induction ps arbitrary: m)
  case (Cons p ps)
  then have "validate_peer p = Inr ()" and "insert_peers ps (fmupd (p_pairing_id p) p m) = Inr m'"
    by (auto split: sum.splits)
  with Cons show ?case using keyed_upd by (simp add: validate_peer_ok_iff)
qed simp

lemma set_peer_values:
  "peers_ok st \<Longrightarrow> p \<in> set (fm_values (ss_peers st)) \<longleftrightarrow> fmlookup (ss_peers st) (p_pairing_id p) = Some p"
  by (auto simp: set_fm_values peers_ok_def)

lemma insert_stored_peers:
  assumes "peers_ok st"
  shows "insert_peers (sf_peers (file_of st)) fmempty = Inr (ss_peers st)"
proof -
  let ?ps = "sf_peers (file_of st)"
  have mem: "p \<in> set ?ps \<longleftrightarrow> fmlookup (ss_peers st) (p_pairing_id p) = Some p" for p
    using assms by (simp add: file_of_def set_peer_values)
  have "\<forall>p \<in> set ?ps. peer_ok p" using assms by (auto simp: mem peers_ok_def)
  moreover have "\<forall>p \<in> set ?ps. \<forall>q \<in> set ?ps. p_pairing_id p = p_pairing_id q \<longrightarrow> p = q" by (auto simp: mem)
  ultimately obtain m' where m': "insert_peers ?ps fmempty = Inr m'"
    "\<forall>p \<in> set ?ps. fmlookup m' (p_pairing_id p) = Some p"
    "\<forall>k. k \<notin> p_pairing_id ` set ?ps \<longrightarrow> fmlookup m' k = None"
    using insert_peers_spec[of ?ps fmempty] by auto
  have "fmlookup m' k = fmlookup (ss_peers st) k" for k
  proof (cases "fmlookup (ss_peers st) k")
    case None
    then have "k \<notin> p_pairing_id ` set ?ps" by (auto simp: mem)
    with m'(3) None show ?thesis by simp
  next
    case (Some p)
    with assms have "p_pairing_id p = k" by (simp add: peers_ok_def)
    with Some m'(2) show ?thesis by (auto simp: mem)
  qed
  then have "m' = ss_peers st" by (intro fmap_ext) simp
  with m'(1) show ?thesis by simp
qed

lemma parse_written:
  "peers_ok st \<Longrightarrow> parse_file c (file_of st) = Inr st' \<Longrightarrow> st' = st\<lparr>ss_generations := fmempty\<rparr>"
  by (auto simp: parse_file_def insert_stored_peers res_bind_Inr_iff split: if_splits)
     (simp add: file_of_def)

lemma parse_within_limits:
  assumes "store_ok st" and "within_limits c st"
  shows "parse_file c (file_of st) = Inr (st\<lparr>ss_generations := fmempty\<rparr>)"
proof -
  have "insert_peers (sf_peers (file_of st)) fmempty = Inr (ss_peers st)"
    using assms(1) insert_stored_peers by (simp add: store_ok_def)
  moreover have "list_all (fm_contains (ss_peers st)) (fm_keys (ss_pair_admissions st))"
    using assms(1) by (auto simp: list_all_iff store_ok_defs fm_contains_iff)
  moreover have "list_all (\<lambda>pid. validate_pairing_id pid = Inr ()) (fm_keys (ss_revoked st))"
    using assms(1) by (auto simp: list_all_iff store_ok_defs fm_contains_iff)
  ultimately show ?thesis using assms(2)
    by (auto simp: parse_file_def within_limits_def file_of_def split: option.split)
qed

lemma unseal_seal:
  assumes "env_ok env" and "length nonce = nonce_len" and "seal env nonce text key = Inr e"
  shows "unseal env e key = Inr text"
proof -
  from assms(3) obtain ct where ct: "se_encrypt env key nonce aad text = Some ct" "e = magic @ nonce @ ct"
    by (auto simp: seal_def split: option.splits)
  with assms(1) have "se_decrypt env key nonce aad ct = Some text" "length ct = length text + tag_len"
    by (auto simp: env_ok_def)
  with ct(2) assms(2) show ?thesis by (simp add: unseal_def header_len_def)
qed

lemma write_now_reads_back:
  assumes "env_ok env" and "nonce_ok w" and "write_now env w st key = Inr e"
  shows "res_bind (unseal env e key) (parse env) = parse_file (se_crypto env) (file_of st)"
proof -
  from assms(3) obtain json where json: "se_to_json env (file_of st) = Some json"
    "seal env (wi_nonce w) json key = Inr e"
    by (auto simp: write_now_def res_bind_Inr_iff split: option.splits)
  then have "unseal env e key = Inr json" "se_from_json env json = Some (file_of st)"
    using assms(1,2) unseal_seal by (auto simp: nonce_ok_def env_ok_def)
  then show ?thesis by (simp add: parse_def)
qed

lemma open_written:
  assumes "env_ok env" and "nonce_ok w" and "write_now env w st key = Inr e" and "peers_ok st"
    and "open_store env None (Some e) key = Inr ps"
  shows "ps_state ps = st\<lparr>ss_generations := fmempty\<rparr>"
  using assms(5) parse_written[OF assms(4)]
  by (auto simp: open_store_def write_now_reads_back[OF assms(1-3)] res_bind_Inr_iff)

end
