(* ===== verification/Peer_Contract.thy ===== *)
theory Peer_Contract
  imports Peer_Invariant
begin

text \<open>
  The contract of the operations that write the paired-device store: each keeps the invariant in
  memory and on disk, never forgets a revocation, and on an error leaves everything as it was. The
  contract is a locale; every writing operation of the store is an interpretation of it, except
  \<open>restore\<close>, which rolls memory back even when the file cannot be written.
\<close>

section \<open>The contract of an operation\<close>

text \<open>
  \<open>good\<close>: the state satisfies the invariant, and whatever the file on disk opens to does too and has
  the same revocations.
\<close>

definition good :: "store_env \<Rightarrow> peer_store \<Rightarrow> bool" where
  "good env ps \<longleftrightarrow> store_ok (ps_state ps)
     \<and> (\<forall>ps'. open_store env None (ps_disk ps) (ps_key ps) = Inr ps' \<longrightarrow>
          store_ok (ps_state ps') \<and> ss_revoked (ps_state ps') = ss_revoked (ps_state ps))"

definition is_revoked :: "peer_store \<Rightarrow> string \<Rightarrow> bool" where
  "is_revoked ps pid \<longleftrightarrow> fm_contains (ss_revoked (ps_state ps)) pid"

locale store_operation =
  fixes run :: "store_env \<Rightarrow> write_input \<Rightarrow> peer_store \<Rightarrow> 'r stored"
  assumes keeps_good: "env_ok env \<Longrightarrow> nonce_ok w \<Longrightarrow> good env ps \<Longrightarrow> good env (snd (run env w ps))"
    and keeps_revoked: "is_revoked ps pid \<Longrightarrow> is_revoked (snd (run env w ps)) pid"

locale atomic_operation = store_operation +
  assumes all_or_nothing: "fst (run env w ps) = Inl e \<Longrightarrow> snd (run env w ps) = ps"

lemma good_revoked_out:
  "good env ps \<Longrightarrow> is_revoked ps pid \<Longrightarrow> fmlookup (ss_peers (ps_state ps)) pid = None"
  by (cases "fmlookup (ss_peers (ps_state ps)) pid") (auto simp: good_def store_ok_defs is_revoked_def)

text \<open>What a client of the contract relies on.\<close>

context store_operation
begin

lemma keeps: 
  "env_ok env \<Longrightarrow> nonce_ok w \<Longrightarrow> good env ps \<Longrightarrow>
     good env (snd (run env w ps)) \<and> (\<forall>pid. is_revoked ps pid \<longrightarrow>
       is_revoked (snd (run env w ps)) pid \<and> fmlookup (ss_peers (ps_state (snd (run env w ps)))) pid = None)"
  using keeps_good keeps_revoked good_revoked_out by blast

end

context atomic_operation
begin

lemma retry: "fst (run env w ps) = Inl e \<Longrightarrow> run env w' (snd (run env w ps)) = run env w' ps"
  using all_or_nothing by simp

end

lemma persist_Inl: "persist env w st ps = (Inl e, ps') \<Longrightarrow> ps' = ps"
  by (auto simp: persist_def split: sum.splits)

lemma persist_Inr:
  "persist env w st ps = (Inr u, ps') \<Longrightarrow>
     \<exists>e. write_now env w st (ps_key ps) = Inr e \<and> ps' = ps\<lparr>ps_disk := Some e, ps_unflushed := False\<rparr>"
  by (auto simp: persist_def split: sum.splits)

lemma persist_Inr_sel:
  assumes "persist env w st ps = (Inr u, ps')"
  shows "ps_state ps' = ps_state ps \<and> ps_key ps' = ps_key ps \<and> ps_poisoned ps' = ps_poisoned ps
    \<and> ps_changes ps' = ps_changes ps \<and> ps_cache ps' = ps_cache ps"
  using persist_Inr[OF assms] by auto

lemma store_ok_generations [simp]: "store_ok (st\<lparr>ss_generations := x\<rparr>) = store_ok st"
  by (simp add: store_ok_defs)

lemma good_persisted:
  assumes "env_ok env" and "nonce_ok w" and "persist env w st ps = (Inr u, ps1)" and "store_ok st"
    and "ps_disk ps' = ps_disk ps1" and "ps_key ps' = ps_key ps1" and "store_ok (ps_state ps')"
    and "ss_revoked (ps_state ps') = ss_revoked st"
  shows "good env ps'"
proof -
  from persist_Inr[OF assms(3)] obtain e where e: "write_now env w st (ps_key ps) = Inr e"
    "ps1 = ps\<lparr>ps_disk := Some e, ps_unflushed := False\<rparr>" by blast
  have peers: "peers_ok st" using assms(4) by (simp add: store_ok_def)
  have disk: "ps_disk ps' = Some e" "ps_key ps' = ps_key ps" using assms(5,6) e(2) by simp_all
  show ?thesis unfolding good_def disk
  proof (intro conjI allI impI)
    fix ps2
    assume "open_store env None (Some e) (ps_key ps) = Inr ps2"
    from open_written[OF assms(1,2) e(1) peers this]
    show "store_ok (ps_state ps2)" and "ss_revoked (ps_state ps2) = ss_revoked (ps_state ps')"
      using assms(4,8) by simp_all
  qed (rule assms(7))
qed

lemma good_in_memory:
  "good env ps \<Longrightarrow> ps_disk ps' = ps_disk ps \<Longrightarrow> ps_key ps' = ps_key ps \<Longrightarrow> store_ok (ps_state ps')
     \<Longrightarrow> ss_revoked (ps_state ps') = ss_revoked (ps_state ps) \<Longrightarrow> good env ps'"
  by (simp add: good_def)

lemma good_ok: "good env ps \<Longrightarrow> store_ok (ps_state ps)"
  by (simp add: good_def)

section \<open>Effects\<close>

text \<open>
  How an operation may move the store: in memory only, or by persisting a state and installing one
  with the same revocations. An operation that fails does not move it.
\<close>

definition moves :: "store_env \<Rightarrow> write_input \<Rightarrow> peer_store \<Rightarrow> peer_store \<Rightarrow> bool" where
  "moves env w ps ps' \<longleftrightarrow>
     (ps_disk ps' = ps_disk ps \<and> ps_key ps' = ps_key ps \<and> ss_revoked (ps_state ps') = ss_revoked (ps_state ps)
       \<and> (store_ok (ps_state ps) \<longrightarrow> store_ok (ps_state ps')))
     \<or> (\<exists>st u ps1. persist env w st ps = (Inr u, ps1) \<and> ps_disk ps' = ps_disk ps1 \<and> ps_key ps' = ps_key ps1
          \<and> ss_revoked (ps_state ps') = ss_revoked st
          \<and> (store_ok (ps_state ps) \<longrightarrow> store_ok st \<and> store_ok (ps_state ps'))
          \<and> (\<forall>pid. is_revoked ps pid \<longrightarrow> fm_contains (ss_revoked st) pid))"

definition effect :: "store_env \<Rightarrow> write_input \<Rightarrow> peer_store \<Rightarrow> 'r stored \<Rightarrow> bool" where
  "effect env w ps r = (case r of (Inl _, ps') \<Rightarrow> ps' = ps | (Inr _, ps') \<Rightarrow> moves env w ps ps')"

lemma moves_good: "moves env w ps ps' \<Longrightarrow> env_ok env \<Longrightarrow> nonce_ok w \<Longrightarrow> good env ps \<Longrightarrow> good env ps'"
  unfolding moves_def
  by (elim disjE exE conjE) (auto intro: good_in_memory good_persisted dest: good_ok)

lemma moves_revoked: "moves env w ps ps' \<Longrightarrow> is_revoked ps pid \<Longrightarrow> is_revoked ps' pid"
  by (auto simp: moves_def is_revoked_def)

lemma moves_refl [simp]: "moves env w ps ps"
  by (simp add: moves_def)

lemma moves_memory:
  "ps_disk ps' = ps_disk ps \<Longrightarrow> ps_key ps' = ps_key ps \<Longrightarrow> ss_revoked (ps_state ps') = ss_revoked (ps_state ps)
    \<Longrightarrow> (store_ok (ps_state ps) \<Longrightarrow> store_ok (ps_state ps')) \<Longrightarrow> moves env w ps ps'"
  by (simp add: moves_def)

lemma moves_persist:
  "persist env w st ps = (Inr u, ps1) \<Longrightarrow> ps_disk ps' = ps_disk ps1 \<Longrightarrow> ps_key ps' = ps_key ps1
    \<Longrightarrow> ss_revoked (ps_state ps') = ss_revoked st
    \<Longrightarrow> (store_ok (ps_state ps) \<Longrightarrow> store_ok st) \<Longrightarrow> (store_ok st \<Longrightarrow> store_ok (ps_state ps'))
    \<Longrightarrow> (\<And>pid. is_revoked ps pid \<Longrightarrow> fm_contains (ss_revoked st) pid) \<Longrightarrow> moves env w ps ps'"
  unfolding moves_def by blast

lemma atomic_operationI:
  assumes "\<And>env w ps. effect env w ps (run env w ps)"
  shows "atomic_operation run"
proof
  have moves: "moves env w ps (snd (run env w ps))" for env w ps
    using assms[of env w ps] by (auto simp: effect_def split: prod.splits sum.splits)
  show "good env (snd (run env w ps))" if "env_ok env" "nonce_ok w" "good env ps" for env w ps
    using moves_good[OF moves that] .
  show "is_revoked (snd (run env w ps)) pid" if "is_revoked ps pid" for env w ps pid
    using moves_revoked[OF moves that] .
  show "snd (run env w ps) = ps" if "fst (run env w ps) = Inl e" for env w ps e
    using assms[of env w ps] that by (auto simp: effect_def split: prod.splits sum.splits)
qed

lemma effect_Inl [simp]: "effect env w ps (Inl e, ps') \<longleftrightarrow> ps' = ps" 
  and effect_Inr [simp]: "effect env w ps (Inr x, ps') \<longleftrightarrow> moves env w ps ps'"
  by (simp_all add: effect_def)

lemma effect_same [simp]: "effect env w ps (r, ps)"
  by (simp add: effect_def split: sum.split)

lemma in_fm_keys: "k \<in> set (fm_keys m) \<longleftrightarrow> fm_contains m k"
  by (simp add: fm_contains_iff)

lemma persist_cases:
  obtains (no) e where "persist env w st ps = (Inl e, ps)"
  | (yes) b where "persist env w st ps = (Inr (), ps\<lparr>ps_disk := Some b, ps_unflushed := False\<rparr>)"
  by (cases "write_now env w st (ps_key ps)") (auto simp: persist_def)

lemma moves_yes:
  assumes "persist env w st ps = (Inr (), ps\<lparr>ps_disk := Some b, ps_unflushed := False\<rparr>)"
    and "ps_disk ps' = Some b" and "ps_key ps' = ps_key ps" and "ss_revoked (ps_state ps') = ss_revoked st"
    and "store_ok (ps_state ps) \<Longrightarrow> store_ok st" and "store_ok (ps_state ps') = store_ok st"
    and "\<And>pid. is_revoked ps pid \<Longrightarrow> fm_contains (ss_revoked st) pid"
  shows "moves env w ps ps'"
  using assms by (intro moves_persist[OF assms(1)]) auto

lemma upsert_locked_effect: "effect env w ps (upsert_locked_certified env w p a ps)"
proof (cases "upsert_checks (ps_state ps) p a")
  case (Inr u)
  define pid where "pid = p_pairing_id p"
  define certificate where "certificate = (case a of Some a \<Rightarrow> Some a
    | None \<Rightarrow> (case fmlookup (ss_peers (ps_state ps)) pid of
        None \<Rightarrow> None
      | Some old \<Rightarrow> if psk_matches old (p_psk p) then fmlookup (ss_pair_admissions (ps_state ps)) pid else None))"
  define st where "st = (ps_state ps)\<lparr>ss_pair_admissions := fm_put pid certificate (ss_pair_admissions (ps_state ps)),
                      ss_peers := fmupd pid p (ss_peers (ps_state ps))\<rparr>"
  have ok: "store_ok (ps_state ps) \<Longrightarrow> store_ok st"
    using store_ok_upsert upsert_checks_ok[OF Inr] by (simp add: st_def pid_def)
  have [simp]: "ss_revoked st = ss_revoked (ps_state ps)" by (simp add: st_def)
  have run: "upsert_locked_certified env w p a ps =
    (if only_last_seen_moved ((ps_state ps)\<lparr>ss_pair_admissions := fm_put pid certificate (ss_pair_admissions (ps_state ps))\<rparr>) p
        \<and> fmlookup (ss_pair_admissions (ps_state ps)) pid = certificate
     then (Inr (), ps\<lparr>ps_state := bump pid st, ps_unflushed := True\<rparr>)
     else case persist env w st ps of
            (Inr _, ps) \<Rightarrow> (Inr (), ps\<lparr>ps_state := bump pid st\<rparr>)
          | (Inl e, ps) \<Rightarrow> (Inl e, ps\<lparr>ps_state := ps_state ps\<rparr>))"
    unfolding upsert_locked_certified_def Let_def Inr sum.case pid_def[symmetric] certificate_def[symmetric]
    by (cases rule: persist_cases[of env w st ps]) (simp_all add: st_def fm_put_back)
  have memory: "moves env w ps (ps\<lparr>ps_state := bump pid st, ps_unflushed := True\<rparr>)"
    using ok by (intro moves_memory) simp_all
  show ?thesis
  proof (cases rule: persist_cases[of env w st ps])
    case (yes b)
    have "moves env w ps (ps\<lparr>ps_disk := Some b, ps_unflushed := False, ps_state := bump pid st\<rparr>)"
      using ok by (intro moves_yes[OF yes]) (simp_all add: is_revoked_def)
    with yes memory show ?thesis by (simp add: run)
  qed (simp add: run memory)
qed (simp add: upsert_locked_certified_def Let_def)

section \<open>The operations\<close>

lemma remove_device_ok:
  "remove_device pid st = Inr st' \<Longrightarrow> st' = st\<lparr>ss_group := ss_group st'\<rparr>"
  by (auto simp: remove_device_def res_bind_Inr_iff split: option.splits prod.splits)

lemma remove_effect: "effect env w ps (remove env w pid ps)"
proof (cases "ps_poisoned ps \<or> (\<exists>e. remove_device pid (ps_state ps) = Inl e)")
  case False
  then obtain st1 where st1: "remove_device pid (ps_state ps) = Inr st1" by (cases "remove_device pid (ps_state ps)") auto
  from remove_device_ok[OF this] obtain g where g: "st1 = (ps_state ps)\<lparr>ss_group := g\<rparr>" by blast
  let ?st = "st1\<lparr>ss_peers := fmdrop pid (ss_peers st1), ss_group_admissions := ss_group_admissions st1 |-| {|pid|},
                 ss_pair_admissions := fmdrop pid (ss_pair_admissions st1)\<rparr>"
  have ok: "store_ok (ps_state ps) \<Longrightarrow> store_ok ?st" using store_ok_drop[of st1] g by simp
  have same: "moves env w ps (ps\<lparr>ps_state := st1\<rparr>)" using g by (intro moves_memory) simp_all
  show ?thesis
  proof (cases rule: persist_cases[of env w ?st ps])
    case (yes b)
    have "moves env w ps (group_changed (ps\<lparr>ps_disk := Some b, ps_unflushed := False, ps_state := bump pid ?st\<rparr>))"
      using ok g by (intro moves_yes[OF yes]) (simp_all add: is_revoked_def group_changed_def)
    with yes same False st1 show ?thesis by (simp add: remove_def Let_def)
  qed (use False st1 same in \<open>simp add: remove_def Let_def\<close>)
qed (auto simp: remove_def)

lemma revoke_effect: "effect env w ps (revoke env w pid now ps)"
proof (cases "validate_pairing_id pid = Inr () \<and> \<not> ps_poisoned ps
    \<and> (fm_contains (ss_revoked (ps_state ps)) pid \<or> fm_len (ss_revoked (ps_state ps)) < max_revocations)
    \<and> (\<forall>e. remove_device pid (ps_state ps) \<noteq> Inl e)")
  case True
  then obtain st1 where st1: "remove_device pid (ps_state ps) = Inr st1" by (cases "remove_device pid (ps_state ps)") auto
  from remove_device_ok[OF this] obtain g where g: "st1 = (ps_state ps)\<lparr>ss_group := g\<rparr>" by blast
  let ?st = "st1\<lparr>ss_peers := fmdrop pid (ss_peers st1), ss_pair_admissions := fmdrop pid (ss_pair_admissions st1),
                 ss_group_admissions := ss_group_admissions st1 |-| {|pid|},
                 ss_revoked := fmupd pid now (ss_revoked st1)\<rparr>"
  have ok: "store_ok (ps_state ps) \<Longrightarrow> store_ok ?st" using g True by (auto simp: store_ok_defs)
  show ?thesis
  proof (cases rule: persist_cases[of env w ?st ps])
    case (yes b)
    have "moves env w ps ((group_changed (ps\<lparr>ps_disk := Some b, ps_unflushed := False\<rparr>))\<lparr>ps_state := bump pid ?st\<rparr>)"
      using ok g by (intro moves_yes[OF yes]) (auto simp: is_revoked_def group_changed_def)
    with yes True st1 show ?thesis by (auto simp: revoke_def Let_def)
  next
    case (no e)
    have "ga |-| {|pid|} = ga" if "pid |\<notin>| ga" for ga using that by auto
    moreover have "finsert pid (ga |-| {|pid|}) = ga" if "pid |\<in>| ga" for ga using that by auto
    ultimately show ?thesis using no True st1
      by (auto simp: revoke_def Let_def g fm_put_back fmupd_back fmdrop_absent split: option.split)
  qed
next
  case False
  then consider (bad) e where "validate_pairing_id pid = Inl e"
    | (poisoned) "validate_pairing_id pid = Inr ()" "ps_poisoned ps"
    | (full) "validate_pairing_id pid = Inr ()" "\<not> ps_poisoned ps" "\<not> fm_contains (ss_revoked (ps_state ps)) pid"
        "fm_len (ss_revoked (ps_state ps)) \<ge> max_revocations"
    | (refused) e where "validate_pairing_id pid = Inr ()" "\<not> ps_poisoned ps"
        "fm_contains (ss_revoked (ps_state ps)) pid \<or> fm_len (ss_revoked (ps_state ps)) < max_revocations"
        "remove_device pid (ps_state ps) = Inl e"
    by (cases "validate_pairing_id pid") force+
  then show ?thesis by cases (auto simp: revoke_def Let_def)
qed

lemma revoke_all_effect: "effect env w ps (revoke_all env w now ps)"
proof (cases "ps_poisoned ps \<or> ss_peers (ps_state ps) = fmempty")
  case False
  let ?devs = "List.map_filter p_device_id (se_order env (ss_peers (ps_state ps)))"
  let ?removal = "case ss_group (ps_state ps) of None \<Rightarrow> Inr None
                | Some g \<Rightarrow> res_bind (remove_all ?devs g) (\<lambda>g'. Inr (Some g'))"
  show ?thesis
  proof (cases ?removal)
    case (Inl e)
    with False show ?thesis by (simp add: revoke_all_def Let_def)
  next
    case (Inr g)
    let ?pids = "fm_keys (ss_peers (ps_state ps))"
    let ?st = "(ps_state ps)\<lparr>ss_group := g, ss_peers := fmempty, ss_group_admissions := {||},
                  ss_pair_admissions := fmempty, ss_revoked := revoke_each ?pids now (ss_revoked (ps_state ps))\<rparr>"
    have valid: "validate_pairing_id k = Inr ()" if "store_ok (ps_state ps)" "fm_contains (ss_peers (ps_state ps)) k" for k
      using that by (auto simp: store_ok_defs fm_contains_lookup peer_ok_def validate_pairing_id_ok_iff)
    have ok: "store_ok ?st" if "store_ok (ps_state ps)"
      using that valid[OF that]
      by (auto simp: store_ok_defs revoke_each_contains in_fm_keys simp del: set_fm_keys)
    show ?thesis
    proof (cases rule: persist_cases[of env w ?st ps])
      case (yes b)
      have "moves env w ps ((group_changed (ps\<lparr>ps_disk := Some b, ps_unflushed := False\<rparr>))\<lparr>ps_state := fold bump ?pids ?st\<rparr>)"
        using ok by (intro moves_yes[OF yes]) (auto simp: is_revoked_def group_changed_def revoke_each_contains)
      with yes False Inr show ?thesis by (simp add: revoke_all_def Let_def)
    next
      case (no e)
      with False Inr show ?thesis by (simp add: revoke_all_def Let_def)
    qed
  qed
qed (auto simp: revoke_all_def)

lemma effect_result:
  assumes "effect env w ps r"
  shows "effect env w ps (case r of (Inl e, ps) \<Rightarrow> (Inl e, ps) | (Inr x, ps) \<Rightarrow> (Inr (f x ps), ps))"
  using assms by (auto simp: effect_def split: prod.splits sum.splits)

lemma upsert_effect: "effect env w ps (upsert env w p ps)"
  by (simp add: upsert_def upsert_locked_effect)

lemma touch_effect: "effect env w ps (touch env w p ps)"
  using effect_result[OF upsert_locked_effect[of env w ps p None], of "\<lambda>_ _. True"] by (simp add: touch_def)

lemma upsert_from_effect: "effect env w ps (upsert_from_admission env w sn p a ps)"
  using effect_result[OF upsert_locked_effect[of env w ps p a], of
      "\<lambda>_ ps. sn\<lparr>sn_generation := generation (ps_state ps) (sn_pairing_id sn)\<rparr>"]
  by (simp add: upsert_from_admission_def)

lemma flush_effect: "effect env w ps (store_flush env w ps)"
proof (cases rule: persist_cases[of env w "ps_state ps" ps])
  case (yes b)
  have "moves env w ps (ps\<lparr>ps_disk := Some b, ps_unflushed := False\<rparr>)"
    by (intro moves_yes[OF yes]) (simp_all add: is_revoked_def)
  with yes show ?thesis by (simp add: store_flush_def)
qed (simp add: store_flush_def)

lemma publish_group_effect: "effect env w ps (publish_group env w fresh dev name profile addr ps)"
proof -
  have stored: "effect env w ps (case persist env w ((ps_state ps)\<lparr>ss_group := g\<rparr>) ps of
      (Inl e, ps) \<Rightarrow> (Inl e, ps)
    | (Inr _, ps) \<Rightarrow> (Inr snapshot, group_changed (ps\<lparr>ps_state := (ps_state ps')\<lparr>ss_group := g\<rparr>\<rparr>)))"
    if "ps' = ps" for g snapshot ps'
  proof (cases rule: persist_cases[of env w "(ps_state ps)\<lparr>ss_group := g\<rparr>" ps])
    case (yes b)
    have "moves env w ps (group_changed (ps\<lparr>ps_disk := Some b, ps_unflushed := False, ps_state := (ps_state ps)\<lparr>ss_group := g\<rparr>\<rparr>))"
      by (intro moves_yes[OF yes]) (simp_all add: is_revoked_def group_changed_def)
    with yes that show ?thesis by simp
  qed simp
  show ?thesis
    unfolding publish_group_def Let_def
    by (auto split: option.split sum.split prod.split simp: stored simp del: effect_Inl effect_Inr)
qed

lemma group_merge_issuer:
  assumes "group_merge c g snapshot explicit = Inr r"
  shows "validate_id (r_issuer (gs_roster snapshot)) = Inr ()"
proof -
  from assms obtain m where v: "gs_validate c snapshot = Inr ()"
    and "fmlookup (r_members (gs_roster snapshot)) (r_issuer (gs_roster snapshot)) = Some m"
    by (auto simp: group_merge_def res_bind_Inr_iff Let_def)
  then have "validate_member (r_issuer (gs_roster snapshot)) m = Inr ()"
    by (auto simp: gs_validate_def first_err_ok_iff Let_def set_fm_entries[symmetric])
  then show ?thesis by (simp add: validate_member_def first_err_ok_iff)
qed

lemma bind_identity_ok:
  assumes "bind_identity issuer pairing_id st = Inr (st1, b)" and "validate_id issuer = Inr ()"
  shows "(store_ok st \<longrightarrow> store_ok st1) \<and> ss_revoked st1 = ss_revoked st"
proof (cases pairing_id)
  case (Some pid)
  with assms(1) obtain p where p: "fmlookup (ss_peers st) pid = Some p"
    "st1 = st\<lparr>ss_peers := fmupd pid (p\<lparr>p_device_id := Some issuer\<rparr>) (ss_peers st)\<rparr>"
    by (auto simp: bind_identity_def split: option.splits if_splits)
  have "issuer \<noteq> [] \<and> length issuer \<le> max_id_bytes" using assms(2) by (auto simp: validate_id_def split: if_splits)
  then have "peer_ok p \<Longrightarrow> peer_ok (p\<lparr>p_device_id := Some issuer\<rparr>)" by (simp add: peer_ok_def)
  with p show ?thesis by (auto simp: store_ok_defs)
qed (use assms in \<open>simp add: bind_identity_def\<close>)

lemma project_revoked: "project env previous st = Inr st' \<Longrightarrow> ss_revoked st' = ss_revoked st"
proof -
  have one: "project_one env g previous p st = Inr st' \<Longrightarrow> ss_revoked st' = ss_revoked st" for g p st st'
  proof -
    have install: "install_derived p a st = Inr st' \<Longrightarrow> ss_revoked st' = ss_revoked st" for a st st'
      by (auto simp: install_derived_def split: if_splits)
    have refresh: "refresh_member g previous p dev pid st = Inr st' \<Longrightarrow> ss_revoked st' = ss_revoked st" for dev pid
      by (auto simp: refresh_member_def split: if_splits option.splits)
    show "project_one env g previous p st = Inr st' \<Longrightarrow> ss_revoked st' = ss_revoked st"
      by (auto simp: project_one_def res_bind_Inr_iff Let_def dest!: install refresh split: option.splits if_splits)
  qed
  have each: "project_each env g previous ps st = Inr st' \<Longrightarrow> ss_revoked st' = ss_revoked st" for g ps st st'
    by (induction ps arbitrary: st) (auto simp: res_bind_Inr_iff dest: one)
  show "project env previous st = Inr st' \<Longrightarrow> ss_revoked st' = ss_revoked st"
    by (auto simp: project_def Let_def res_bind_Inr_iff dest!: each split: option.splits if_splits)
qed

lemma store_ok_admissions [simp]: "store_ok (st\<lparr>ss_group_admissions := x\<rparr>) = store_ok st"
  by (simp add: store_ok_defs)

text \<open>A projected state that is persisted and then installed, as \<open>merge_group\<close> and \<open>confirm_group_admission\<close> do.\<close>

lemma moves_projected:
  assumes "project env previous st2 = Inr st3" and "store_ok (ps_state ps) \<Longrightarrow> store_ok st2"
    and "ss_revoked st2 = ss_revoked (ps_state ps)"
    and "persist env w st3 ps = (Inr (), ps\<lparr>ps_disk := Some b, ps_unflushed := False\<rparr>)"
  shows "moves env w ps (group_changed (ps\<lparr>ps_disk := Some b, ps_unflushed := False, ps_state := fold bump pids st3\<rparr>))"
  using project_ok[OF assms(1)] project_revoked[OF assms(1)] assms(2,3)
  by (intro moves_yes[OF assms(4)]) (simp_all add: is_revoked_def group_changed_def)

lemma merge_group_effect: "effect env w ps (merge_group env w snapshot pairing_id explicit ps)"
proof (cases "ps_poisoned ps \<or> ss_group (ps_state ps) = None")
  case False
  then obtain g where alive: "\<not> ps_poisoned ps" and g: "ss_group (ps_state ps) = Some g" by auto
  show ?thesis
  proof (cases "bind_identity (r_issuer (gs_roster snapshot)) pairing_id (ps_state ps)")
    case (Inr r)
    then obtain st1 bound where bound: "bind_identity (r_issuer (gs_roster snapshot)) pairing_id (ps_state ps) = Inr (st1, bound)"
      by (cases r) auto
    define sas where "sas = (case pairing_id of None \<Rightarrow> False | Some pid \<Rightarrow> pid |\<in>| ss_group_admissions st1)"
    show ?thesis
    proof (cases "group_merge (se_crypto env) g snapshot (explicit \<or> sas)")
      case (Inr r)
      then obtain g' ch where merged: "group_merge (se_crypto env) g snapshot (explicit \<or> sas) = Inr (g', ch)"
        by (cases r) auto
      note bound_ok = bind_identity_ok[OF bound group_merge_issuer[OF merged]]
      let ?st2 = "st1\<lparr>ss_group := Some g', ss_group_admissions := (case pairing_id of None \<Rightarrow> ss_group_admissions st1
                                  | Some pid \<Rightarrow> ss_group_admissions st1 |-| {|pid|})\<rparr>"
      have ok2: "store_ok (ps_state ps) \<Longrightarrow> store_ok ?st2" using bound_ok by simp
      show ?thesis
      proof (cases "project env (Some g) ?st2")
        case (Inl e)
        with alive g bound merged show ?thesis
          by (simp add: merge_group_def Let_def sas_def[symmetric])
      next
        case (Inr st3)
        let ?keys = "fm_keys (ss_peers (ps_state ps)) @ fm_keys (ss_peers st3)"
        show ?thesis
        proof (cases rule: persist_cases[of env w st3 ps])
          case (yes b)
          have "moves env w ps (group_changed (ps\<lparr>ps_disk := Some b, ps_unflushed := False, ps_state := fold bump ?keys st3\<rparr>))"
            using moves_projected[OF Inr ok2 _ yes, of ?keys] bound_ok by simp
          with yes alive g bound merged Inr show ?thesis
            by (simp add: merge_group_def Let_def sas_def[symmetric])
        next
          case (no e)
          with alive g bound merged Inr show ?thesis
            by (simp add: merge_group_def Let_def sas_def[symmetric])
        qed
      qed
    qed (use alive g bound in \<open>simp add: merge_group_def Let_def sas_def[symmetric]\<close>)
  qed (use alive g in \<open>simp add: merge_group_def Let_def\<close>)
qed (auto simp: merge_group_def Let_def)

lemma confirm_effect: "effect env w ps (confirm_group_admission env w pid ps)"
proof (cases "ps_poisoned ps \<or> \<not> fm_contains (ss_peers (ps_state ps)) pid")
  case False
  let ?certified = "case (fmlookup (ss_pair_admissions (ps_state ps)) pid, ss_group (ps_state ps)) of
      (Some admission, Some g) \<Rightarrow> res_bind (certify_local g (pa_local admission)) (\<lambda>g'. Inr ((ps_state ps)\<lparr>ss_group := Some g'\<rparr>))
    | _ \<Rightarrow> Inr (ps_state ps)"
  show ?thesis
  proof (cases ?certified)
    case (Inr st1)
    then have ok1: "store_ok st1 = store_ok (ps_state ps)" "ss_revoked st1 = ss_revoked (ps_state ps)"
      by (auto simp: res_bind_Inr_iff split: option.splits)
    let ?st2 = "st1\<lparr>ss_group_admissions := finsert pid (ss_group_admissions st1)\<rparr>"
    show ?thesis
    proof (cases "project env (ss_group (ps_state ps)) ?st2")
      case (Inl e)
      with False \<open>?certified = Inr st1\<close> show ?thesis by (simp add: confirm_group_admission_def Let_def)
    next
      case (Inr st2)
      show ?thesis
      proof (cases rule: persist_cases[of env w st2 ps])
        case (yes b)
        have "moves env w ps (group_changed (ps\<lparr>ps_disk := Some b, ps_unflushed := False, ps_state := st2\<rparr>))"
          using moves_projected[OF Inr _ _ yes, of "[]"] ok1 by simp
        with yes False \<open>?certified = Inr st1\<close> Inr show ?thesis by (simp add: confirm_group_admission_def Let_def)
      next
        case (no e)
        with False \<open>?certified = Inr st1\<close> Inr show ?thesis by (simp add: confirm_group_admission_def Let_def)
      qed
    qed
  qed (use False in \<open>simp add: confirm_group_admission_def Let_def\<close>)
qed (auto simp: confirm_group_admission_def Let_def)

subsection \<open>The rollback\<close>

text \<open>A snapshot that the store took: its peer is a valid one of the same slot.\<close>

definition snapshot_ok :: "peer_snapshot \<Rightarrow> bool" where
  "snapshot_ok sn \<longleftrightarrow> (\<forall>p. sn_previous sn = Some p \<longrightarrow> p_pairing_id p = sn_pairing_id sn \<and> peer_ok p)"

lemma take_snapshot_ok: "store_ok (ps_state ps) \<Longrightarrow> snapshot_ok (take_snapshot pid ps)"
  by (auto simp: take_snapshot_def snapshot_ok_def store_ok_defs)

lemma upsert_from_snapshot_ok:
  "upsert_from_admission env w sn p a ps = (Inr sn', ps') \<Longrightarrow> snapshot_ok sn \<Longrightarrow> snapshot_ok sn'"
  by (auto simp: upsert_from_admission_def snapshot_ok_def split: if_splits prod.splits sum.splits)

lemma peer_ok_credential:
  "peer_ok p \<Longrightarrow> peer_ok q \<Longrightarrow> pid = p_pairing_id p \<Longrightarrow>
     peer_ok (q\<lparr>p_pairing_id := pid,
       p_device_id := (case p_device_id p of None \<Rightarrow> p_device_id q | Some d \<Rightarrow> Some d), p_psk := p_psk p\<rparr>)"
  by (cases "p_device_id p") (simp_all add: peer_ok_def)

lemma restored_peer_ok:
  assumes "restored_peer sn st = Some p" and "snapshot_ok sn" and "peers_ok st"
  shows "p_pairing_id p = sn_pairing_id sn \<and> peer_ok p \<and> \<not> fm_contains (ss_revoked st) (sn_pairing_id sn)"
proof -
  from assms(1) obtain previous where previous: "sn_previous sn = Some previous"
    and free: "\<not> fm_contains (ss_revoked st) (sn_pairing_id sn)"
    by (auto simp: restored_peer_def Let_def split: option.splits if_splits)
  with assms(2) have sn: "p_pairing_id previous = sn_pairing_id sn" "peer_ok previous" by (auto simp: snapshot_ok_def)
  show ?thesis
  proof (cases "generation st (sn_pairing_id sn) = sn_generation sn")
    case True
    with assms(1) previous free have "p = previous" by (simp add: restored_peer_def Let_def)
    with sn free show ?thesis by simp
  next
    case False
    with assms(1) previous free obtain current where current: "fmlookup (ss_peers st) (sn_pairing_id sn) = Some current"
      and p: "p = current\<lparr>p_pairing_id := sn_pairing_id sn,
        p_device_id := (case p_device_id previous of None \<Rightarrow> p_device_id current | Some d \<Rightarrow> Some d), p_psk := p_psk previous\<rparr>"
      by (auto simp: restored_peer_def Let_def)
    from current assms(3) have "peer_ok current" by (simp add: peers_ok_def)
    from peer_ok_credential[OF sn(2) this sn(1)[symmetric]] free show ?thesis unfolding p by simp
  qed
qed

definition rolled_back :: "peer_snapshot \<Rightarrow> store_state \<Rightarrow> store_state" where
  "rolled_back sn st =
     (let pid = sn_pairing_id sn; p = restored_peer sn st in
      bump pid (st\<lparr>ss_peers := fm_put pid p (ss_peers st),
        ss_pair_admissions := fm_put pid (if p \<noteq> None then sn_previous_admission sn else None) (ss_pair_admissions st)\<rparr>))"

lemma restore_is_rolled_back:
  assumes "\<not> ps_poisoned ps"
  shows "restore env w sn ps =
    (case persist_unflushed env w (rolled_back sn (ps_state ps)) (ps\<lparr>ps_state := rolled_back sn (ps_state ps)\<rparr>) of
       (Inl e, ps) \<Rightarrow> (Inl e, ps)
     | (Inr _, ps') \<Rightarrow> (Inr (if generation (ps_state ps) (sn_pairing_id sn) \<noteq> sn_generation sn
                          then UndoneOverContention else Undone), ps'))"
proof -
  let ?st = "ps_state ps" and ?pid = "sn_pairing_id sn"
  have "restored_peer sn ?st \<noteq> None \<Longrightarrow> \<not> fm_contains (ss_revoked ?st) ?pid" by (auto simp: restored_peer_def)
  then have "(let st1 = bump ?pid (?st\<lparr>ss_peers := fm_put ?pid (restored_peer sn ?st) (ss_peers ?st)\<rparr>) in
     st1\<lparr>ss_pair_admissions := fm_put ?pid
       (if \<not> fm_contains (ss_revoked ?st) ?pid \<and> fm_contains (ss_peers st1) ?pid
        then sn_previous_admission sn else None) (ss_pair_admissions st1)\<rparr>) = rolled_back sn ?st"
    by (auto simp: rolled_back_def Let_def bump_def generation_def)
  then show ?thesis using assms by (simp add: restore_def Let_def)
qed

lemma rolled_back_ok:
  assumes "store_ok st" and "snapshot_ok sn"
  shows "store_ok (rolled_back sn st)"
  using assms restored_peer_ok[of sn st]
  by (auto simp: rolled_back_def Let_def store_ok_defs)

lemma rolled_back_sel [simp]: "ss_revoked (rolled_back sn st) = ss_revoked st"
  by (simp add: rolled_back_def Let_def)

lemma restore_moves:
  assumes "store_ok (ps_state ps) \<Longrightarrow> snapshot_ok sn"
  shows "moves env w ps (snd (restore env w sn ps))"
proof (cases "ps_poisoned ps")
  case False
  let ?st = "rolled_back sn (ps_state ps)"
  have ok: "store_ok (ps_state ps) \<Longrightarrow> store_ok ?st" using rolled_back_ok assms by blast
  show ?thesis
  proof (cases rule: persist_cases[of env w ?st "ps\<lparr>ps_state := ?st\<rparr>"])
    case (yes b)
    then have "write_now env w ?st (ps_key ps) = Inr b"
      by (auto simp: persist_def dest: arg_cong[where f = ps_disk] split: sum.splits)
    then have same: "persist env w ?st ps = (Inr (), ps\<lparr>ps_disk := Some b, ps_unflushed := False\<rparr>)"
      by (simp add: persist_def)
    have "moves env w ps (ps\<lparr>ps_state := ?st, ps_disk := Some b, ps_unflushed := False\<rparr>)"
      using ok by (intro moves_yes[OF same]) (simp_all add: is_revoked_def)
    with yes False show ?thesis by (simp add: restore_is_rolled_back persist_unflushed_def)
  next
    case (no e)
    have "moves env w ps (ps\<lparr>ps_state := ?st, ps_unflushed := True\<rparr>)" using ok by (intro moves_memory) simp_all
    with no False show ?thesis by (simp add: restore_is_rolled_back persist_unflushed_def)
  qed
qed (simp add: restore_def)

section \<open>Every operation fulfils the contract\<close>

interpretation up: atomic_operation "\<lambda>env w. upsert env w p" for p
  by (rule atomic_operationI) (rule upsert_effect)

interpretation touched: atomic_operation "\<lambda>env w. touch env w p" for p
  by (rule atomic_operationI) (rule touch_effect)

interpretation removed: atomic_operation "\<lambda>env w. remove env w pid" for pid
  by (rule atomic_operationI) (rule remove_effect)

interpretation revoked: atomic_operation "\<lambda>env w. revoke env w pid now" for pid now
  by (rule atomic_operationI) (rule revoke_effect)

interpretation revoked_all: atomic_operation "\<lambda>env w. revoke_all env w now" for now
  by (rule atomic_operationI) (rule revoke_all_effect)

interpretation tentative: atomic_operation "\<lambda>env w. upsert_from_admission env w sn p a" for sn p a
  by (rule atomic_operationI) (rule upsert_from_effect)

interpretation published: atomic_operation "\<lambda>env w. publish_group env w fresh dev name profile addr"
  for fresh dev name profile addr
  by (rule atomic_operationI) (rule publish_group_effect)

interpretation merged: atomic_operation "\<lambda>env w. merge_group env w snapshot pairing_id explicit"
  for snapshot pairing_id explicit
  by (rule atomic_operationI) (rule merge_group_effect)

interpretation confirmed: atomic_operation "\<lambda>env w. confirm_group_admission env w pid" for pid
  by (rule atomic_operationI) (rule confirm_effect)

interpretation flushed: atomic_operation store_flush
  by (rule atomic_operationI) (rule flush_effect)

end
