(* ===== verification/Peer_Props.thy ===== *)
theory Peer_Props
  imports Peer_Contract Group_Props
begin

text \<open>
  The properties of the paired-device store: revocation is for good over every history of
  operations, ceremonies and restarts; an operation that fails changes nothing; a rollback ends
  with the old credential; the keys offered are the current ones; the file reads back; and two
  defects, the removal that fails for some device ids and the revocation list that outgrows what
  the file reader accepts.
\<close>

section \<open>Histories\<close>

text \<open>
  The store with the snapshots its ceremonies hold. A ceremony takes a snapshot, writes from it and
  may roll back; any thread may run an operation in between, die with the lock or restart the
  process, which reads the file and forgets the snapshots.
\<close>

inductive peer_step :: "store_env \<Rightarrow> peer_store \<times> peer_snapshot set \<Rightarrow> peer_store \<times> peer_snapshot set \<Rightarrow> bool"
  for env where
  step_upsert: "nonce_ok w \<Longrightarrow> peer_step env (ps, sns) (snd (upsert env w p ps), sns)"
| step_touch: "nonce_ok w \<Longrightarrow> peer_step env (ps, sns) (snd (touch env w p ps), sns)"
| step_remove: "nonce_ok w \<Longrightarrow> peer_step env (ps, sns) (snd (remove env w pid ps), sns)"
| step_revoke: "nonce_ok w \<Longrightarrow> peer_step env (ps, sns) (snd (revoke env w pid now ps), sns)"
| step_revoke_all: "nonce_ok w \<Longrightarrow> peer_step env (ps, sns) (snd (revoke_all env w now ps), sns)"
| step_publish: "nonce_ok w \<Longrightarrow> peer_step env (ps, sns) (snd (publish_group env w fresh dev name profile addr ps), sns)"
| step_merge: "nonce_ok w \<Longrightarrow> peer_step env (ps, sns) (snd (merge_group env w snapshot pairing_id explicit ps), sns)"
| step_confirm: "nonce_ok w \<Longrightarrow> peer_step env (ps, sns) (snd (confirm_group_admission env w pid ps), sns)"
| step_flush: "nonce_ok w \<Longrightarrow> peer_step env (ps, sns) (snd (store_flush env w ps), sns)"
| step_metadata: "peer_step env (ps, sns) (snd (metadata_psks env ps), sns)"
| step_snapshot: "peer_step env (ps, sns) (ps, insert (take_snapshot pid ps) sns)"
| step_tentative: "nonce_ok w \<Longrightarrow> sn \<in> sns \<Longrightarrow> upsert_from_admission env w sn p a ps = (Inr sn', ps') \<Longrightarrow>
    peer_step env (ps, sns) (ps', insert sn' (sns - {sn}))"
| step_refused: "nonce_ok w \<Longrightarrow> upsert_from_admission env w sn p a ps = (Inl e, ps') \<Longrightarrow>
    peer_step env (ps, sns) (ps', sns)"
| step_restore: "nonce_ok w \<Longrightarrow> sn \<in> sns \<Longrightarrow> peer_step env (ps, sns) (snd (restore env w sn ps), sns - {sn})"
| step_poison: "peer_step env (ps, sns) (ps\<lparr>ps_poisoned := True\<rparr>, sns)"
| step_restart: "open_store env None (ps_disk ps) (ps_key ps) = Inr ps' \<Longrightarrow> peer_step env (ps, sns) (ps', {})"

definition world_ok :: "store_env \<Rightarrow> peer_store \<times> peer_snapshot set \<Rightarrow> bool" where
  "world_ok env world \<longleftrightarrow> good env (fst world) \<and> (\<forall>sn \<in> snd world. snapshot_ok sn)"

definition new_store :: "bytes \<Rightarrow> peer_store" where
  "new_store key = \<lparr>ps_state = store_state_default, ps_unflushed = False, ps_changes = 0, ps_cache = None,
     ps_poisoned = False, ps_key = key, ps_disk = None\<rparr>"

lemma open_new_store: "open_store env None None key = Inr (new_store key)"
  by (simp add: open_store_def new_store_def)

lemma store_ok_default: "store_ok store_state_default"
  by (simp add: store_ok_defs store_state_default_def)

lemma world_ok_new: "world_ok env (new_store key, {})"
  by (simp add: world_ok_def good_def new_store_def open_store_def store_ok_default)

lemma good_reopened:
  assumes "good env ps" and "open_store env None (ps_disk ps) (ps_key ps) = Inr ps'"
  shows "good env ps' \<and> ss_revoked (ps_state ps') = ss_revoked (ps_state ps)"
proof -
  from assms(2) have "ps_disk ps' = ps_disk ps" "ps_key ps' = ps_key ps"
    by (auto simp: open_store_def res_bind_Inr_iff)
  with assms show ?thesis by (auto simp: good_def)
qed

lemma metadata_psks_sel:
  "ps_state (snd (metadata_psks env ps)) = ps_state ps" "ps_disk (snd (metadata_psks env ps)) = ps_disk ps"
  "ps_key (snd (metadata_psks env ps)) = ps_key ps"
  by (auto simp: metadata_psks_def Let_def split: option.split)

lemma peer_step_ok:
  assumes "env_ok env" and "peer_step env world world'" and "world_ok env world"
  shows "world_ok env world' \<and> (\<forall>pid. is_revoked (fst world) pid \<longrightarrow> is_revoked (fst world') pid)"
  using assms(2,3)
proof cases
  case (step_tentative w sn sns p a ps sn' ps')
  then show ?thesis
    using tentative.keeps_good[OF assms(1), of w ps sn p a] tentative.keeps_revoked[of ps _ env w sn p a]
      upsert_from_snapshot_ok assms(3) by (auto simp: world_ok_def)
next
  case (step_refused w sn p a ps e ps' sns)
  then show ?thesis
    using tentative.keeps_good[OF assms(1), of w ps sn p a] tentative.keeps_revoked[of ps _ env w sn p a]
      assms(3) by (auto simp: world_ok_def)
next
  case (step_restore w sn sns ps)
  with assms(3) have "good env ps" "snapshot_ok sn" by (simp_all add: world_ok_def)
  with restore_moves[of ps sn env w] have "moves env w ps (snd (restore env w sn ps))" by blast
  from moves_good[OF this assms(1)] moves_revoked[OF this] \<open>good env ps\<close> step_restore assms(3)
  show ?thesis by (simp add: world_ok_def)
next
  case (step_restart ps ps' sns)
  with assms(3) have "good env ps" by (simp add: world_ok_def)
  from good_reopened[OF this step_restart(3)] have "good env ps'" "is_revoked ps' pid = is_revoked ps pid" for pid
    by (simp_all add: is_revoked_def)
  with step_restart(1,2) show ?thesis by (simp add: world_ok_def)
next
  case (step_snapshot ps sns pid)
  then show ?thesis using take_snapshot_ok good_ok assms(3) by (auto simp: world_ok_def)
next
  case (step_metadata ps sns)
  then show ?thesis using assms(3) by (auto simp: world_ok_def good_def is_revoked_def metadata_psks_sel)
next
  case (step_poison ps sns)
  then show ?thesis using assms(3) by (auto simp: world_ok_def good_def is_revoked_def)
qed (use assms in \<open>auto simp: world_ok_def
    intro: up.keeps_good up.keeps_revoked touched.keeps_good touched.keeps_revoked removed.keeps_good removed.keeps_revoked
      revoked.keeps_good revoked.keeps_revoked revoked_all.keeps_good revoked_all.keeps_revoked
      published.keeps_good published.keeps_revoked merged.keeps_good merged.keeps_revoked
      confirmed.keeps_good confirmed.keeps_revoked flushed.keeps_good flushed.keeps_revoked\<close>)

lemma peer_steps_ok:
  assumes "env_ok env" and "(peer_step env)\<^sup>*\<^sup>* world world'" and "world_ok env world"
  shows "world_ok env world' \<and> (\<forall>pid. is_revoked (fst world) pid \<longrightarrow> is_revoked (fst world') pid)"
  using assms(2)
proof (induction rule: rtranclp_induct)
  case (step y z)
  then show ?case using peer_step_ok[OF assms(1)] by blast
qed (simp add: assms(3))

lemma revoked_upsert_refused:
  "is_revoked ps (p_pairing_id p) \<Longrightarrow> \<exists>e. upsert_locked_certified env w p a ps = (Inl e, ps)"
  by (cases "upsert_checks (ps_state ps) p a")
     (auto simp: upsert_locked_certified_def Let_def is_revoked_def dest: upsert_checks_ok)

lemma revoke_records:
  assumes "fst (revoke env w pid now ps) = Inr found"
  shows "is_revoked (snd (revoke env w pid now ps)) pid"
proof -
  from assms obtain st1 where st1: "validate_pairing_id pid = Inr ()" "\<not> ps_poisoned ps"
    "fm_contains (ss_revoked (ps_state ps)) pid \<or> fm_len (ss_revoked (ps_state ps)) < max_revocations"
    "remove_device pid (ps_state ps) = Inr st1"
    by (auto simp: revoke_def Let_def split: sum.splits if_splits)
  let ?st = "st1\<lparr>ss_peers := fmdrop pid (ss_peers st1), ss_pair_admissions := fmdrop pid (ss_pair_admissions st1),
                 ss_group_admissions := ss_group_admissions st1 |-| {|pid|},
                 ss_revoked := fmupd pid now (ss_revoked st1)\<rparr>"
  show ?thesis
    by (cases rule: persist_cases[of env w ?st ps])
       (use assms st1 in \<open>auto simp: revoke_def Let_def is_revoked_def\<close>)
qed

lemma in_psks:
  assumes "store_ok (ps_state ps)"
  shows "pid \<in> fst ` set (psks ps) \<longleftrightarrow> \<not> ps_poisoned ps \<and>
    (\<exists>p. fmlookup (ss_peers (ps_state ps)) pid = Some p \<and> \<not> outlived (ps_state ps) p)"
proof -
  have "p_pairing_id p = pid" if "fmlookup (ss_peers (ps_state ps)) pid = Some p" for p pid
    using that assms by (simp add: store_ok_defs)
  then show ?thesis by (force simp: psks_def key_candidate_def set_fm_values image_iff)
qed

section \<open>Properties\<close>

text \<open>
  C34: a revoked pairing never comes back. Once \<open>revoke\<close> has returned without an error, after any
  further history of operations, ceremonies, rollbacks, failed writes and restarts the pairing id is
  still revoked, no peer is stored under it, its key is not among those offered to an inbound
  handshake, and every attempt to store it again is refused and changes nothing.
\<close>

theorem revocation_is_permanent:
  assumes "env_ok env" and "nonce_ok w" and "(peer_step env)\<^sup>*\<^sup>* (new_store key, {}) (ps, sns)"
    and "fst (revoke env w pid now ps) = Inr found"
    and "(peer_step env)\<^sup>*\<^sup>* (snd (revoke env w pid now ps), sns) (ps', sns')"
  shows "fm_contains (ss_revoked (ps_state ps')) pid \<and> store_get ps' pid = None
    \<and> pid \<notin> fst ` set (psks ps') \<and> \<not> is_current_credential ps' pid
    \<and> (\<forall>env w p a. p_pairing_id p = pid \<longrightarrow> (\<exists>e. upsert_locked_certified env w p a ps' = (Inl e, ps')))"
proof -
  from peer_steps_ok[OF assms(1,3) world_ok_new] have "world_ok env (ps, sns)" by blast
  with peer_step_ok[OF assms(1) step_revoke[OF assms(2)]]
  have "world_ok env (snd (revoke env w pid now ps), sns)" by blast
  from peer_steps_ok[OF assms(1,5) this] revoke_records[OF assms(4)]
  have good: "good env ps'" and rev: "is_revoked ps' pid" by (simp_all add: world_ok_def)
  note out = good_revoked_out[OF good rev]
  moreover have "\<not> is_current_credential ps' pid"
    using out by (simp add: is_current_credential_def fm_contains_lookup)
  moreover have "\<forall>env w p a. p_pairing_id p = pid \<longrightarrow> (\<exists>e. upsert_locked_certified env w p a ps' = (Inl e, ps'))"
    using revoked_upsert_refused rev by blast
  ultimately show ?thesis using rev in_psks[OF good_ok[OF good]] by (simp add: is_revoked_def store_get_def)
qed

text \<open>A concrete environment: one file has a text, and sealing appends sixteen octets.\<close>

definition demo_store_env :: "store_file \<Rightarrow> store_env" where
  "demo_store_env f = \<lparr>
     se_crypto = demo_crypto,
     se_to_json = (\<lambda>g. if g = f then Some ''{}'' else None),
     se_from_json = (\<lambda>b. if b = ''{}'' then Some f else None),
     se_encrypt = (\<lambda>key nonce ad text. Some (text @ replicate tag_len CHR ''.'')),
     se_decrypt = (\<lambda>key nonce ad ct. Some (take (length ct - tag_len) ct)),
     se_order = fm_values\<rparr>"

definition demo_write :: write_input where
  "demo_write = \<lparr>wi_nonce = replicate 24 CHR ''n'', wi_fault = None\<rparr>"

lemma demo_env_ok: "env_ok (demo_store_env f)"
  by (simp add: env_ok_def demo_store_env_def)

lemma demo_nonce_ok: "nonce_ok demo_write"
  by (simp add: nonce_ok_def demo_write_def nonce_len_def)

lemma demo_persist:
  "persist (demo_store_env (file_of st)) demo_write st ps =
     (Inr (), ps\<lparr>ps_disk := Some (magic @ replicate 24 CHR ''n'' @ ''{}'' @ replicate tag_len CHR ''.''), ps_unflushed := False\<rparr>)"
  by (simp add: persist_def write_now_def seal_def demo_store_env_def demo_write_def)

definition demo_revoked :: store_state where
  "demo_revoked = store_state_default\<lparr>ss_revoked := fmupd ''p'' 5 fmempty\<rparr>"

lemma demo_revoke:
  "fst (revoke (demo_store_env (file_of demo_revoked)) demo_write ''p'' 5 (new_store key)) = Inr False"
proof -
  let ?st = "store_state_default\<lparr>ss_peers := fmdrop ''p'' (ss_peers store_state_default),
      ss_pair_admissions := fmdrop ''p'' (ss_pair_admissions store_state_default),
      ss_group_admissions := ss_group_admissions store_state_default |-| {|''p''|},
      ss_revoked := fmupd ''p'' 5 (ss_revoked store_state_default)\<rparr>"
  have st: "?st = demo_revoked" by (simp add: demo_revoked_def store_state_default_def)
  have "remove_device ''p'' store_state_default = Inr store_state_default"
    by (simp add: remove_device_def store_state_default_def)
  moreover have "validate_pairing_id ''p'' = Inr ()" by (simp add: validate_pairing_id_ok_iff peer_limit_defs)
  moreover have "fm_len (ss_revoked store_state_default) < max_revocations"
    by (simp add: store_state_default_def peer_limit_defs)
  moreover have "fmlookup (ss_peers store_state_default) ''p'' = None" by (simp add: store_state_default_def)
  ultimately show ?thesis
    unfolding revoke_def new_store_def
    by (simp add: Let_def st demo_persist fm_contains_lookup)
qed

theorem revocation_is_permanent_witness:
  "\<exists>env w ps'. (peer_step env)\<^sup>*\<^sup>* (snd (revoke env w ''p'' 5 (new_store [])), {}) (ps', {})
     \<and> fst (revoke env w ''p'' 5 (new_store [])) = Inr False
     \<and> store_get ps' ''p'' = None \<and> fm_contains (ss_revoked (ps_state ps')) ''p''"
proof -
  let ?env = "demo_store_env (file_of demo_revoked)"
  let ?ps = "snd (revoke ?env demo_write ''p'' 5 (new_store []))"
  have steps: "(peer_step ?env)\<^sup>*\<^sup>* (?ps, {}) (snd (remove ?env demo_write ''p'' ?ps), {})"
    by (rule r_into_rtranclp) (rule step_remove[OF demo_nonce_ok])
  from revocation_is_permanent[OF demo_env_ok demo_nonce_ok rtranclp.rtrancl_refl demo_revoke steps] steps demo_revoke
  show ?thesis by blast
qed

text \<open>
  C35: an operation that fails changes nothing, the rollback of a ceremony apart. Whichever of adding,
  touching, removing and revoking a peer, revoking all, the tentative write of a ceremony, publishing,
  merging and confirming in the group, and the flush of an owed write returns an error, for a lock
  that was lost, a check that failed or a file that could not be written, the peers, the group, the
  certificates, the revocations, the revisions and the file are those of before, so that the
  operation can be tried again. A rollback whose write fails has changed memory, and owes the write.
\<close>

theorem failed_operation_changes_nothing:
  "(fst (upsert env w p ps) = Inl e \<longrightarrow> snd (upsert env w p ps) = ps)
   \<and> (fst (touch env w p ps) = Inl e \<longrightarrow> snd (touch env w p ps) = ps)
   \<and> (fst (remove env w pid ps) = Inl e \<longrightarrow> snd (remove env w pid ps) = ps)
   \<and> (fst (revoke env w pid now ps) = Inl e \<longrightarrow> snd (revoke env w pid now ps) = ps)
   \<and> (fst (revoke_all env w now ps) = Inl e \<longrightarrow> snd (revoke_all env w now ps) = ps)
   \<and> (fst (upsert_from_admission env w sn p a ps) = Inl e \<longrightarrow> snd (upsert_from_admission env w sn p a ps) = ps)
   \<and> (fst (publish_group env w fresh dev name profile addr ps) = Inl e \<longrightarrow>
        snd (publish_group env w fresh dev name profile addr ps) = ps)
   \<and> (fst (merge_group env w snapshot pairing_id explicit ps) = Inl e \<longrightarrow>
        snd (merge_group env w snapshot pairing_id explicit ps) = ps)
   \<and> (fst (confirm_group_admission env w pid ps) = Inl e \<longrightarrow> snd (confirm_group_admission env w pid ps) = ps)
   \<and> (fst (store_flush env w ps) = Inl e \<longrightarrow> snd (store_flush env w ps) = ps)"
  using up.all_or_nothing touched.all_or_nothing removed.all_or_nothing revoked.all_or_nothing
    revoked_all.all_or_nothing tentative.all_or_nothing published.all_or_nothing merged.all_or_nothing
    confirmed.all_or_nothing flushed.all_or_nothing
  by (intro conjI impI; assumption?) blast+

definition demo_peer :: peer where
  "demo_peer = \<lparr>p_pairing_id = ''p'', p_device_id = Some ''my.pc'', p_name = ''pc'', p_psk = replicate 32 CHR ''k'',
     p_last_addr = None, p_last_seen_ms = 1, p_profile = None, p_profile_observed_at_ms = 0\<rparr>"

definition demo_paired :: store_state where
  "demo_paired = store_state_default\<lparr>ss_peers := fmupd ''p'' demo_peer fmempty\<rparr>"

lemma demo_peer_ok: "peer_ok demo_peer"
proof -
  have "hd (replicate 32 CHR ''k'') \<noteq> hd zero_key" by (simp add: zero_key_def)
  then have "replicate 32 CHR ''k'' \<noteq> zero_key" by metis
  then show ?thesis by (simp add: peer_ok_def demo_peer_def peer_limit_defs max_id_bytes_def)
qed

lemma demo_upsert_checks: "upsert_checks store_state_default demo_peer None = Inr ()"
proof -
  have "validate_peer demo_peer = Inr ()" by (simp add: validate_peer_ok_iff demo_peer_ok)
  then show ?thesis
    by (simp add: upsert_checks_def check_certified_def store_state_default_def demo_peer_def peer_limit_defs)
qed

theorem failed_operation_changes_nothing_witness:
  "\<exists>env w. upsert env w demo_peer (new_store []) = (Inl (Io ''disk full''), new_store [])"
proof -
  let ?env = "demo_store_env (file_of demo_paired)" and ?w = "demo_write\<lparr>wi_fault := Some ''disk full''\<rparr>"
  have "persist ?env ?w demo_paired ps = (Inl (Io ''disk full''), ps)" for ps
    by (simp add: persist_def write_now_def seal_def demo_store_env_def demo_write_def)
  then have "fst (upsert ?env ?w demo_peer (new_store [])) = Inl (Io ''disk full'')"
    using demo_upsert_checks
    by (simp add: upsert_def upsert_locked_certified_def Let_def new_store_def only_last_seen_moved_def
        store_state_default_def demo_peer_def demo_paired_def fm_put_def)
  moreover from this failed_operation_changes_nothing[of ?env ?w demo_peer "new_store []" "Io ''disk full''"]
  have "snd (upsert ?env ?w demo_peer (new_store [])) = new_store []" by blast
  ultimately show ?thesis by (intro exI) (rule prod_eqI; simp)
qed

lemma restore_sel:
  assumes "\<not> ps_poisoned ps"
  shows "ps_state (snd (restore env w sn ps)) = rolled_back sn (ps_state ps)
    \<and> ps_poisoned (snd (restore env w sn ps)) = False
    \<and> (\<forall>e. fst (restore env w sn ps) = Inl e \<longrightarrow> ps_unflushed (snd (restore env w sn ps)))"
  unfolding restore_is_rolled_back[OF assms]
  by (cases rule: persist_cases[of env w "rolled_back sn (ps_state ps)" "ps\<lparr>ps_state := rolled_back sn (ps_state ps)\<rparr>"])
     (auto simp: persist_unflushed_def assms)

lemma rolled_back_lookup:
  "fmlookup (ss_peers (rolled_back sn st)) k =
     (if k = sn_pairing_id sn then restored_peer sn st else fmlookup (ss_peers st) k)"
  "fmlookup (ss_pair_admissions (rolled_back sn st)) k =
     (if k = sn_pairing_id sn then (if restored_peer sn st \<noteq> None then sn_previous_admission sn else None)
      else fmlookup (ss_pair_admissions st) k)"
  "ss_group (rolled_back sn st) = ss_group st" 
  by (simp_all add: rolled_back_def Let_def)

text \<open>
  C36: a rollback fails closed. Whatever was written to the slot since the snapshot and whether or not
  the file can be written, afterwards the slot of the ceremony is empty or holds the key of before it, it is empty
  when the pairing was revoked meanwhile, no other slot and no group changed, and a write that failed is
  owed. When nothing else wrote the slot since the tentative write, peer and certificate are exactly those of
  before.
\<close>

theorem rollback_fails_closed:
  assumes "\<not> ps_poisoned ps"
  shows "(\<forall>q. store_get (snd (restore env w sn ps)) (sn_pairing_id sn) = Some q \<longrightarrow>
        \<not> is_revoked ps (sn_pairing_id sn)
        \<and> (\<exists>p. sn_previous sn = Some p \<and> p_psk q = p_psk p \<and> (p_device_id p \<noteq> None \<longrightarrow> p_device_id q = p_device_id p)))
    \<and> (\<forall>k. k \<noteq> sn_pairing_id sn \<longrightarrow> store_get (snd (restore env w sn ps)) k = store_get ps k)
    \<and> ss_group (ps_state (snd (restore env w sn ps))) = ss_group (ps_state ps)
    \<and> (\<forall>e. fst (restore env w sn ps) = Inl e \<longrightarrow> ps_unflushed (snd (restore env w sn ps)))"
proof -
  have "\<not> is_revoked ps (sn_pairing_id sn) \<and> (\<exists>p. sn_previous sn = Some p \<and> p_psk q = p_psk p
      \<and> (p_device_id p \<noteq> None \<longrightarrow> p_device_id q = p_device_id p))"
    if "restored_peer sn (ps_state ps) = Some q" for q
    using that by (cases "sn_previous sn"; cases "p_device_id (the (sn_previous sn))")
       (auto simp: restored_peer_def Let_def is_revoked_def split: if_splits)
  then show ?thesis using restore_sel[OF assms, of env w sn] assms
    by (simp add: store_get_def rolled_back_lookup)
qed


theorem rollback_fails_closed_witness:
  "\<exists>env w. store_get (snd (restore env w (take_snapshot ''p'' (new_store []))
       ((new_store [])\<lparr>ps_state := demo_paired\<rparr>))) ''p'' = None"
proof -
  let ?sn = "take_snapshot ''p'' (new_store [])" and ?ps = "(new_store [])\<lparr>ps_state := demo_paired\<rparr>"
  let ?env = "demo_store_env (file_of demo_paired)"
  have sn: "sn_pairing_id ?sn = ''p''" "sn_previous ?sn = None"
    by (simp_all add: take_snapshot_def new_store_def store_state_default_def)
  have "\<not> ps_poisoned ?ps" by (simp add: new_store_def)
  from rollback_fails_closed[OF this, of ?env demo_write ?sn] sn
  show ?thesis by (intro exI[of _ ?env] exI[of _ demo_write]) (metis not_None_eq)
qed

lemma upsert_locked_sel:
  assumes "upsert_locked_certified env w p a ps = (Inr u, ps')"
  shows "ss_peers (ps_state ps') = fmupd (p_pairing_id p) p (ss_peers (ps_state ps))
    \<and> (\<exists>c. ss_pair_admissions (ps_state ps') = fm_put (p_pairing_id p) c (ss_pair_admissions (ps_state ps)))
    \<and> ss_group (ps_state ps') = ss_group (ps_state ps)
    \<and> ss_group_admissions (ps_state ps') = ss_group_admissions (ps_state ps)
    \<and> ss_revoked (ps_state ps') = ss_revoked (ps_state ps) \<and> ps_poisoned ps' = ps_poisoned ps
    \<and> generation (ps_state ps') (p_pairing_id p) = generation (ps_state ps) (p_pairing_id p)
        + (if starts_with (p_pairing_id p) group_pairing_prefix then 0 else 1)"
proof -
  have gen: "generation (bump pid st) pid = generation st pid + (if starts_with pid group_pairing_prefix then 0 else 1)" for pid st
    by (simp add: bump_def generation_def)
  have same: "generation (st\<lparr>ss_pair_admissions := x, ss_peers := y\<rparr>) pid = generation st pid" for st x y pid
    by (simp add: generation_def)
  show ?thesis using assms
    by (auto simp: upsert_locked_certified_def Let_def gen same dest!: persist_Inr_sel
        split: sum.splits if_splits prod.splits)
qed

lemma upsert_locked_checked:
  "upsert_locked_certified env w p a ps = (Inr u, ps') \<Longrightarrow> upsert_checks (ps_state ps) p a = Inr ()"
  by (auto simp: upsert_locked_certified_def Let_def split: sum.splits)

text \<open>
  The two-phase write is undone exactly. A ceremony that saved a pairing from its snapshot and
  rolls back finds the peers, certificates, group and revocations as they were, whether or not
  the file takes the rollback; and a second ceremony that read the same slot is refused as
  contended once the first has written.
\<close>

theorem two_phase_write_is_undone:
  assumes "\<not> ps_poisoned ps" and "store_ok (ps_state ps)" and "\<not> starts_with pid group_pairing_prefix"
    and "p_pairing_id p = pid"
    and "upsert_from_admission env w (take_snapshot pid ps) p a ps = (Inr sn, ps1)"
  shows "fst (restore env w' sn ps1) \<noteq> Inr UndoneOverContention
    \<and> ss_peers (ps_state (snd (restore env w' sn ps1))) = ss_peers (ps_state ps)
    \<and> ss_pair_admissions (ps_state (snd (restore env w' sn ps1))) = ss_pair_admissions (ps_state ps)
    \<and> ss_group (ps_state (snd (restore env w' sn ps1))) = ss_group (ps_state ps)
    \<and> ss_revoked (ps_state (snd (restore env w' sn ps1))) = ss_revoked (ps_state ps)
    \<and> upsert_from_admission env w' (take_snapshot pid ps) q b ps1 = (Inl Contended, ps1)"
proof -
  let ?sn = "take_snapshot pid ps"
  have sn0: "?sn = \<lparr>sn_previous_admission = fmlookup (ss_pair_admissions (ps_state ps)) pid, sn_pairing_id = pid,
            sn_previous = fmlookup (ss_peers (ps_state ps)) pid, sn_generation = generation (ps_state ps) pid\<rparr>"
    using assms(1) by (simp add: take_snapshot_def)
  from assms(1,5) obtain u where up: "upsert_locked_certified env w p a ps = (Inr u, ps1)"
    and sn: "sn = ?sn\<lparr>sn_generation := generation (ps_state ps1) pid\<rparr>"
    by (auto simp: upsert_from_admission_def sn0 split: prod.splits sum.splits if_splits)
  note sel = upsert_locked_sel[OF up, unfolded assms(4)]
  have free: "\<not> fm_contains (ss_revoked (ps_state ps)) pid"
    using upsert_checks_ok[OF upsert_locked_checked[OF up]] assms(4) by simp
  have "restored_peer sn (ps_state ps1) = fmlookup (ss_peers (ps_state ps)) pid"
    using sel free by (simp add: restored_peer_def sn sn0 Let_def split: option.split)
  moreover have "fmlookup (ss_pair_admissions (ps_state ps)) pid = None" if "fmlookup (ss_peers (ps_state ps)) pid = None"
    using that assms(2) by (auto simp: store_ok_defs fm_contains_lookup)
  ultimately have "ss_peers (rolled_back sn (ps_state ps1)) = ss_peers (ps_state ps)"
    "ss_pair_admissions (rolled_back sn (ps_state ps1)) = ss_pair_admissions (ps_state ps)"
    using sel by (auto intro!: fmap_ext simp: rolled_back_lookup sn sn0)
  moreover have alive: "\<not> ps_poisoned ps1" using sel assms(1) by simp
  moreover have "fst (restore env w' sn ps1) \<noteq> Inr UndoneOverContention"
    using alive by (auto simp: restore_is_rolled_back sn sn0 split: prod.split sum.split)
  moreover have "upsert_from_admission env w' ?sn q b ps1 = (Inl Contended, ps1)"
    using alive sel assms(3) by (simp add: upsert_from_admission_def sn0)
  ultimately show ?thesis using restore_sel[OF alive, of env w' sn] sel by (simp add: rolled_back_lookup)
qed

theorem two_phase_write_is_undone_witness:
  "\<exists>env w sn ps1. upsert_from_admission env w (take_snapshot ''p'' (new_store [])) demo_peer None (new_store []) = (Inr sn, ps1)
     \<and> ss_peers (ps_state ps1) \<noteq> fmempty \<and> ss_peers (ps_state (snd (restore env w sn ps1))) = fmempty"
proof -
  let ?env = "demo_store_env (file_of demo_paired)" and ?sn = "take_snapshot ''p'' (new_store [])"
  have "persist ?env demo_write (store_state_default\<lparr>ss_pair_admissions := fmempty, ss_peers := fmupd ''p'' demo_peer fmempty\<rparr>) ps
    = (Inr (), ps\<lparr>ps_disk := Some (magic @ replicate 24 CHR ''n'' @ ''{}'' @ replicate tag_len CHR ''.''), ps_unflushed := False\<rparr>)" for ps
    using demo_persist[of demo_paired ps] by (simp add: demo_paired_def store_state_default_def)
  then obtain ps1 where "upsert_locked_certified ?env demo_write demo_peer None (new_store []) = (Inr (), ps1)"
    using demo_upsert_checks
    by (simp add: upsert_locked_certified_def Let_def new_store_def only_last_seen_moved_def
        store_state_default_def demo_peer_def fm_put_def)
  moreover from upsert_locked_sel[OF this] have "ss_peers (ps_state ps1) \<noteq> fmempty"
    by (auto dest: arg_cong[where f = "\<lambda>m. fmlookup m (p_pairing_id demo_peer)"])
  moreover have "generation (ps_state (new_store [])) ''p'' = sn_generation ?sn" "\<not> ps_poisoned (new_store [])"
     "sn_pairing_id ?sn = ''p''"
    by (simp_all add: take_snapshot_def new_store_def)
  ultimately obtain sn where run: "upsert_from_admission ?env demo_write ?sn demo_peer None (new_store []) = (Inr sn, ps1)"
    by (simp add: upsert_from_admission_def)
  have "store_ok (ps_state (new_store []))" "\<not> starts_with ''p'' group_pairing_prefix" "p_pairing_id demo_peer = ''p''"
    by (simp_all add: new_store_def store_ok_default group_pairing_prefix_def demo_peer_def)
  from two_phase_write_is_undone[OF \<open>\<not> ps_poisoned (new_store [])\<close> this run, of demo_write] run \<open>ss_peers (ps_state ps1) \<noteq> fmempty\<close>
  show ?thesis by (intro exI[of _ ?env] exI[of _ demo_write] exI[of _ sn] exI[of _ ps1])
     (simp add: new_store_def store_state_default_def)
qed


lemma local_admission_active: "group_active g \<Longrightarrow> \<exists>a. local_admission g = Inr a"
  by (auto simp: group_active_def is_active_def roster_active_def local_admission_def desired_admission_def
      Let_def split: option.splits)

text \<open>
  The keys offered to an inbound handshake are the current ones. A pairing id has a key in
  \<open>psks\<close> exactly when \<open>is_current_credential\<close>, which a session asks before it commits, accepts it, and
  the list is in the order of the ids with one key for each.
\<close>

theorem offered_keys_are_current:
  assumes "store_ok (ps_state ps)"
  shows "(pid \<in> fst ` set (psks ps) \<longleftrightarrow> is_current_credential ps pid)
    \<and> sorted (map fst (psks ps)) \<and> distinct (map fst (psks ps))
    \<and> (\<forall>k. (pid, k) \<in> set (psks ps) \<longrightarrow> (\<exists>p. store_get ps pid = Some p \<and> p_psk p = k))"
proof -
  let ?st = "ps_state ps"
  have keyed: "p_pairing_id p = k" if "fmlookup (ss_peers ?st) k = Some p" for p k
    using that assms by (simp add: store_ok_defs)
  have "pid \<in> fst ` set (psks ps) \<longleftrightarrow> is_current_credential ps pid"
    using local_admission_active keyed unfolding in_psks[OF assms] is_current_credential_def outlived_def
    by (fastforce simp: fm_contains_lookup not_less split: option.split sum.split)
  moreover have "distinct (map fst (psks ps))"
  proof -
    have "map p_pairing_id (fm_values (ss_peers ?st)) = fm_keys (ss_peers ?st)"
      unfolding fm_values_def by (rule map_idI[THEN trans[rotated]]) (auto simp: keyed fmlookup_dom_iff intro: keyed)
    then have "distinct (map p_pairing_id (fm_values (ss_peers ?st)))" by simp
    then show ?thesis
      by (auto simp: psks_def key_candidate_def comp_def distinct_map inj_on_def)
  qed
  moreover have "sorted (map fst (psks ps))" by (simp add: psks_def)
  moreover have "\<exists>p. store_get ps pid = Some p \<and> p_psk p = k" if "(pid, k) \<in> set (psks ps)" for k
    using that keyed by (auto simp: psks_def key_candidate_def set_fm_values store_get_def split: if_splits)
  ultimately show ?thesis by blast
qed


theorem offered_keys_are_current_witness:
  "is_current_credential ((new_store [])\<lparr>ps_state := demo_paired\<rparr>) ''p''
   \<and> ''p'' \<in> fst ` set (psks ((new_store [])\<lparr>ps_state := demo_paired\<rparr>))"
proof -
  let ?ps = "(new_store [])\<lparr>ps_state := demo_paired\<rparr>"
  have "store_ok (ps_state ?ps)"
    using demo_peer_ok by (simp add: demo_paired_def store_ok_defs store_state_default_def demo_peer_def)
  from offered_keys_are_current[OF this, of "''p''"] show ?thesis
    by (simp add: is_current_credential_def new_store_def demo_paired_def store_state_default_def)
qed

lemma install_derived_len:
  "install_derived p a st = Inr st' \<Longrightarrow> fm_len (ss_peers st') \<le> max_pairings"
  by (auto simp: install_derived_def fm_len_upd split: if_splits)

lemma refresh_member_len:
  "refresh_member g previous p dev pid st = Inr st' \<Longrightarrow> fm_len (ss_peers st') = fm_len (ss_peers st)"
  by (auto simp: refresh_member_def fm_len_upd fm_contains_lookup split: if_splits option.splits)

lemma project_one_len:
  "project_one env g previous p st = Inr st' \<Longrightarrow> fm_len (ss_peers st') \<le> max max_pairings (fm_len (ss_peers st))"
  by (auto simp: project_one_def res_bind_Inr_iff Let_def le_max_iff_disj
      dest!: install_derived_len refresh_member_len split: option.splits if_splits)

lemma project_each_len:
  "project_each env g previous ps st = Inr st' \<Longrightarrow> fm_len (ss_peers st') \<le> max max_pairings (fm_len (ss_peers st))"
proof (induction ps arbitrary: st)
  case (Cons p ps)
  then obtain st1 where one: "project_one env g previous p st = Inr st1"
    and each: "project_each env g previous ps st1 = Inr st'" by (auto simp: res_bind_Inr_iff)
  from project_one_len[OF one] Cons.IH[OF each] show ?case by linarith
qed simp

lemma project_len:
  "project env previous st = Inr st' \<Longrightarrow> fm_len (ss_peers st') \<le> max max_pairings (fm_len (ss_peers st))"
proof (cases "ss_group st")
  case (Some g)
  assume "project env previous st = Inr st'"
  with Some show ?thesis using fm_len_retain_le[of "\<lambda>_ p. keeps_credential g st p" "ss_peers st"]
    by (auto simp: project_def Let_def res_bind_Inr_iff dest!: project_each_len split: if_splits)
qed (simp add: project_def)

lemma upsert_locked_len:
  "fm_len (ss_peers (ps_state (snd (upsert_locked_certified env w p a ps)))) \<le> max max_pairings (fm_len (ss_peers (ps_state ps)))"
proof (cases "upsert_locked_certified env w p a ps")
  case (Pair r ps')
  show ?thesis
  proof (cases r)
    case (Inl e)
    with Pair have "ps' = ps" using upsert_locked_effect[of env w ps p a] by simp
    with Pair show ?thesis by simp
  next
    case (Inr u)
    with Pair have run: "upsert_locked_certified env w p a ps = (Inr u, ps')" by simp
    have "fm_contains (ss_peers (ps_state ps)) (p_pairing_id p) \<or> fm_len (ss_peers (ps_state ps)) < max_pairings"
      using upsert_locked_checked[OF run]
      by (auto simp: upsert_checks_def res_bind_Inr_iff split: if_splits)
    with upsert_locked_sel[OF run] Pair show ?thesis by (auto simp: fm_len_upd)
  qed
qed

lemma merge_group_len:
  assumes "merge_group env w snapshot pairing_id explicit ps = (r, ps')"
  shows "fm_len (ss_peers (ps_state ps')) \<le> max max_pairings (fm_len (ss_peers (ps_state ps)))"
proof -
  have bound: "bind_identity issuer via st = Inr (st1, b) \<Longrightarrow> fm_len (ss_peers st1) = fm_len (ss_peers st)" for issuer via st st1 b
    by (auto simp: bind_identity_def fm_len_upd fm_contains_lookup split: option.splits if_splits)
  show ?thesis using assms
    by (auto simp: merge_group_def Let_def group_changed_def dest!: project_len bound persist_Inl persist_Inr_sel
        split: if_splits option.splits sum.splits prod.splits)
qed

lemma confirm_len:
  assumes "confirm_group_admission env w pid ps = (r, ps')"
  shows "fm_len (ss_peers (ps_state ps')) \<le> max max_pairings (fm_len (ss_peers (ps_state ps)))"
  using assms
  by (auto simp: confirm_group_admission_def Let_def group_changed_def res_bind_Inr_iff
      dest!: project_len persist_Inl persist_Inr_sel
      split: if_splits option.splits sum.splits prod.splits)

text \<open>
  The pairing list is bounded. No write, tentative write, group merge or confirmation leaves
  more than sixteen peers, unless there were more before, and then not more than those.
\<close>

theorem pairings_are_bounded:
  "fm_len (ss_peers (ps_state (snd (upsert env w p ps)))) \<le> max max_pairings (fm_len (ss_peers (ps_state ps)))
   \<and> fm_len (ss_peers (ps_state (snd (touch env w p ps)))) \<le> max max_pairings (fm_len (ss_peers (ps_state ps)))
   \<and> fm_len (ss_peers (ps_state (snd (upsert_from_admission env w sn p a ps)))) \<le> max max_pairings (fm_len (ss_peers (ps_state ps)))
   \<and> fm_len (ss_peers (ps_state (snd (merge_group env w snapshot pairing_id explicit ps)))) \<le> max max_pairings (fm_len (ss_peers (ps_state ps)))
   \<and> fm_len (ss_peers (ps_state (snd (confirm_group_admission env w pid ps)))) \<le> max max_pairings (fm_len (ss_peers (ps_state ps)))"
proof -
  have "snd (touch env w p ps) = ps \<or> snd (touch env w p ps) = snd (upsert_locked_certified env w p None ps)"
    by (auto simp: touch_def split: prod.split sum.split)
  moreover have "snd (upsert_from_admission env w sn p a ps) = ps
      \<or> snd (upsert_from_admission env w sn p a ps) = snd (upsert_locked_certified env w p a ps)"
    by (auto simp: upsert_from_admission_def split: prod.split sum.split)
  ultimately show ?thesis
    using upsert_locked_len[of env w p None ps] upsert_locked_len[of env w p a ps]
      merge_group_len[OF prod.collapse[symmetric], of env w snapshot pairing_id explicit ps]
      confirm_len[OF prod.collapse[symmetric], of env w pid ps]
    by (auto simp: upsert_def)
qed

lemma reopens:
  assumes "env_ok env" and "nonce_ok w" and "store_ok st" and "within_limits (se_crypto env) st"
    and "persist env w st ps = (Inr (), ps')"
  shows "open_store env None (ps_disk ps') (ps_key ps) =
    Inr \<lparr>ps_state = st\<lparr>ss_generations := fmempty\<rparr>, ps_unflushed = False, ps_changes = 0, ps_cache = None,
         ps_poisoned = False, ps_key = ps_key ps, ps_disk = ps_disk ps'\<rparr>"
proof -
  from persist_Inr[OF assms(5)] obtain e where e: "write_now env w st (ps_key ps) = Inr e"
    "ps' = ps\<lparr>ps_disk := Some e, ps_unflushed := False\<rparr>" by blast
  from write_now_reads_back[OF assms(1,2) e(1)] parse_within_limits[OF assms(3,4)]
  show ?thesis unfolding e(2) by (simp add: open_store_def)
qed

lemma demo_paired_ok: "store_ok demo_paired" "within_limits c demo_paired"
  using demo_peer_ok
  by (simp_all add: demo_paired_def store_ok_defs store_state_default_def demo_peer_def within_limits_def fcard_fempty)

text \<open>
  C37: the file reads back. A state that the store has written, within the limits of the reader,
  opens after a restart to the same peers, certificates, group, admissions and revocations, with
  the write counters at zero.
\<close>

theorem stored_state_reopens:
  assumes "env_ok env" and "nonce_ok w" and "store_ok st" and "within_limits (se_crypto env) st"
    and "persist env w st ps = (Inr (), ps')"
  shows "\<exists>ps2. open_store env None (ps_disk ps') (ps_key ps) = Inr ps2
    \<and> ps_state ps2 = st\<lparr>ss_generations := fmempty\<rparr> \<and> \<not> ps_poisoned ps2 \<and> \<not> ps_unflushed ps2 \<and> ps_disk ps2 = ps_disk ps'"
  using reopens[OF assms] by simp

theorem stored_state_reopens_witness:
  "\<exists>env w ps' ps2. persist env w demo_paired (new_store []) = (Inr (), ps')
     \<and> open_store env None (ps_disk ps') [] = Inr ps2 \<and> ps_state ps2 = demo_paired"
proof -
  let ?env = "demo_store_env (file_of demo_paired)"
  obtain ps' where ps': "persist ?env demo_write demo_paired (new_store []) = (Inr (), ps')"
    using demo_persist by blast
  from stored_state_reopens[OF demo_env_ok demo_nonce_ok demo_paired_ok ps'] obtain ps2 where
    "open_store ?env None (ps_disk ps') [] = Inr ps2" "ps_state ps2 = demo_paired\<lparr>ss_generations := fmempty\<rparr>"
    by (auto simp: new_store_def)
  moreover have "demo_paired\<lparr>ss_generations := fmempty\<rparr> = demo_paired"
    by (simp add: demo_paired_def store_state_default_def)
  ultimately show ?thesis using ps' by metis
qed

text \<open>
  C38: opening fails closed. A file that opens starts with the magic octets, is no shorter than
  header and tag, its text is what the cipher authenticated under the fixed associated data, and
  what is loaded passed the checks of the reader: valid peers under their own ids, certificates only
  for peers, well-formed revoked ids, a valid group, and the lists of group admissions, certificates
  and revocations within their limits. The number of peers, and that none of them is revoked, are not
  among the checks of the reader.
\<close>

theorem open_fails_closed:
  assumes "open_store env unreadable (Some b) key = Inr ps"
  shows "unreadable = None \<and> starts_with b magic \<and> header_len + tag_len \<le> length b
    \<and> se_decrypt env key (take nonce_len (drop (length magic) b)) aad (drop header_len b) \<noteq> None
    \<and> keyed (ss_peers (ps_state ps)) \<and> certs_ok (ps_state ps) \<and> revocations_ok (ps_state ps)
    \<and> within_limits (se_crypto env) (ps_state ps)
    \<and> ps_disk ps = Some b \<and> ss_generations (ps_state ps) = fmempty"
proof -
  from assms obtain plain read where plain: "unreadable = None" "unseal env b key = Inr plain" "ps_disk ps = Some b"
    and parsed: "se_from_json env plain = Some read" "parse_file (se_crypto env) read = Inr (ps_state ps)"
    by (auto simp: open_store_def parse_def res_bind_Inr_iff split: option.splits)
  obtain peers where peers: "insert_peers (sf_peers read) fmempty = Inr peers"
    "ps_state ps = \<lparr>ss_pair_admissions = sf_pair_admissions read, ss_group = sf_group read,
       ss_group_admissions = sf_group_admissions read, ss_peers = peers, ss_revoked = sf_revoked read, ss_generations = fmempty\<rparr>"
    using parsed(2) by (auto simp: parse_file_def res_bind_Inr_iff split: if_splits)
  have "keyed peers" using insert_peers_keyed[OF peers(1)] by (simp add: keyed_def)
  moreover have "certs_ok (ps_state ps) \<and> revocations_ok (ps_state ps) \<and> within_limits (se_crypto env) (ps_state ps)"
    using parsed(2) peers
    by (auto simp: parse_file_def res_bind_Inr_iff certs_ok_def revocations_ok_def within_limits_def list_all_iff
        fm_contains_iff split: if_splits option.splits sum.splits)
  moreover have "starts_with b magic \<and> header_len + tag_len \<le> length b
    \<and> se_decrypt env key (take nonce_len (drop (length magic) b)) aad (drop header_len b) \<noteq> None"
    using plain(2) by (auto simp: unseal_def split: if_splits option.splits)
  ultimately show ?thesis using plain peers(2) by simp
qed


theorem open_fails_closed_witness:
  "\<exists>env b ps. open_store env None (Some b) [] = Inr ps \<and> keyed (ss_peers (ps_state ps)) \<and> starts_with b magic
     \<and> fm_contains (ss_peers (ps_state ps)) ''p''"
proof -
  let ?env = "demo_store_env (file_of demo_paired)"
  obtain ps' where ps': "persist ?env demo_write demo_paired (new_store []) = (Inr (), ps')"
    using demo_persist by blast
  then obtain b where b: "ps_disk ps' = Some b" using persist_Inr by fastforce
  from reopens[OF demo_env_ok demo_nonce_ok demo_paired_ok ps'] b obtain ps2 where
    ps2: "open_store ?env None (Some b) [] = Inr ps2" "ps_state ps2 = demo_paired\<lparr>ss_generations := fmempty\<rparr>"
    by (auto simp: new_store_def)
  from open_fails_closed[OF ps2(1)] ps2 show ?thesis
    by (intro exI[of _ ?env] exI[of _ b] exI[of _ ps2]) (simp add: demo_paired_def)
qed

lemma revoke_each_len:
  "distinct pids \<Longrightarrow> \<forall>pid \<in> set pids. \<not> fm_contains m pid \<Longrightarrow>
     fm_len (revoke_each pids now m) = fm_len m + length pids"
proof (induction pids arbitrary: m)
  case (Cons pid pids)
  then have "\<forall>k \<in> set pids. \<not> fm_contains (fmupd pid now m) k" by auto
  with Cons show ?case by (simp add: fm_len_upd)
qed simp

lemma revoke_all_written:
  assumes "revoke_all env w now ps = (Inr (Suc n), ps')"
  shows "\<exists>st b. write_now env w st (ps_key ps) = Inr b \<and> ps_disk ps' = Some b \<and> ps_key ps' = ps_key ps
    \<and> ss_peers st = fmempty \<and> ss_revoked st = revoke_each (fm_keys (ss_peers (ps_state ps))) now (ss_revoked (ps_state ps))"
proof -
  let ?devs = "List.map_filter p_device_id (se_order env (ss_peers (ps_state ps)))"
  let ?removal = "case ss_group (ps_state ps) of None \<Rightarrow> Inr None
                | Some g \<Rightarrow> res_bind (remove_all ?devs g) (\<lambda>g'. Inr (Some g'))"
  have alive: "\<not> ps_poisoned ps" "ss_peers (ps_state ps) \<noteq> fmempty"
    using assms by (auto simp: revoke_all_def Let_def split: if_splits)
  with assms obtain g where g: "?removal = Inr g"
    by (cases ?removal) (auto simp: revoke_all_def Let_def)
  let ?pids = "fm_keys (ss_peers (ps_state ps))"
  let ?st = "(ps_state ps)\<lparr>ss_group := g, ss_peers := fmempty, ss_group_admissions := {||},
                ss_pair_admissions := fmempty, ss_revoked := revoke_each ?pids now (ss_revoked (ps_state ps))\<rparr>"
  show ?thesis
  proof (cases "write_now env w ?st (ps_key ps)")
    case (Inl e)
    then show ?thesis using assms alive g by (auto simp: revoke_all_def Let_def persist_def)
  next
    case (Inr b)
    then show ?thesis using assms alive g
      by (intro exI[of _ ?st] exI[of _ b]) (auto simp: revoke_all_def Let_def persist_def group_changed_def)
  qed
qed

lemma parse_too_many_revocations:
  assumes "ss_peers st = fmempty" and "max_revocations < fm_len (ss_revoked st)"
  shows "parse_file c (file_of st) = Inl Corrupt"
  using assms
  by (auto simp: parse_file_def file_of_def split: option.split sum.split)

text \<open>
  C39: a defect of \<open>revoke_all\<close>. It does not check the limit of the revocation list that \<open>revoke\<close> checks and
  the file reader enforces. When the list and the pairings together exceed the limit, cutting
  every device off succeeds, and the file it leaves is refused as corrupt at the next start.
\<close>

theorem revoke_all_outgrows_the_file:
  assumes "env_ok env" and "nonce_ok w" and "store_ok (ps_state ps)"
    and "max_revocations < fm_len (ss_revoked (ps_state ps)) + fm_len (ss_peers (ps_state ps))"
    and "revoke_all env w now ps = (Inr (Suc n), ps')"
  shows "open_store env None (ps_disk ps') (ps_key ps') = Inl Corrupt"
proof -
  from revoke_all_written[OF assms(5)] obtain st b where st: "write_now env w st (ps_key ps) = Inr b"
    "ps_disk ps' = Some b" "ps_key ps' = ps_key ps" "ss_peers st = fmempty"
    "ss_revoked st = revoke_each (fm_keys (ss_peers (ps_state ps))) now (ss_revoked (ps_state ps))" by blast
  have "\<forall>pid \<in> set (fm_keys (ss_peers (ps_state ps))). \<not> fm_contains (ss_revoked (ps_state ps)) pid"
    using assms(3) by (auto simp: store_ok_defs fmlookup_dom_iff)
  from revoke_each_len[OF distinct_fm_keys this, of now]
  have "fm_len (ss_revoked st) = fm_len (ss_revoked (ps_state ps)) + fm_len (ss_peers (ps_state ps))"
    using st(5) by simp
  with assms(4) parse_too_many_revocations[OF st(4)] have "parse_file (se_crypto env) (file_of st) = Inl Corrupt" by simp
  with write_now_reads_back[OF assms(1,2) st(1)] st(2,3) show ?thesis by (simp add: open_store_def)
qed

definition demo_full :: store_state where
  "demo_full = demo_paired\<lparr>ss_revoked := fmap_of_list (map (\<lambda>n. (be_bytes 2 n, 0)) [0..<max_revocations])\<rparr>"

lemma demo_full_len: "fm_len (ss_revoked demo_full) = max_revocations"
proof -
  have "inj_on (be_bytes 2) {0..<max_revocations}"
    by (rule inj_on_inverseI[where g = be_val]) (simp add: be_val_be_bytes peer_limit_defs)
  then have "card (be_bytes 2 ` {0..<max_revocations}) = max_revocations" by (simp add: card_image)
  moreover have "fset (fmdom (ss_revoked demo_full)) = be_bytes 2 ` {0..<max_revocations}"
    by (simp add: demo_full_def fset_of_list.rep_eq image_image comp_def)
  ultimately show ?thesis by (simp add: fm_len_def fcard.rep_eq)
qed


lemma demo_full_ok: "store_ok demo_full"
proof -
  have "fm_contains (ss_revoked demo_full) k \<longleftrightarrow> k \<in> be_bytes 2 ` {0..<max_revocations}" for k
    by (simp add: fm_contains_iff demo_full_def fset_of_list.rep_eq image_image comp_def)
  then have "length k = 2" if "fm_contains (ss_revoked demo_full) k" for k using that by auto
  then have "validate_pairing_id k = Inr () \<and> k \<noteq> ''p''" if "fm_contains (ss_revoked demo_full) k" for k
    using that by (force simp: validate_pairing_id_ok_iff peer_limit_defs)
  moreover have "ss_peers demo_full = ss_peers demo_paired" "ss_pair_admissions demo_full = ss_pair_admissions demo_paired"
    by (simp_all add: demo_full_def)
  ultimately show ?thesis using demo_paired_ok(1)
    by (auto simp: store_ok_defs demo_paired_def store_state_default_def split: if_splits)
qed

theorem revoke_all_outgrows_the_file_witness:
  "\<exists>env w ps'. revoke_all env w 9 ((new_store [])\<lparr>ps_state := demo_full\<rparr>) = (Inr 1, ps')
     \<and> open_store env None (ps_disk ps') (ps_key ps') = Inl Corrupt"
proof -
  let ?ps = "(new_store [])\<lparr>ps_state := demo_full\<rparr>"
  let ?st = "demo_full\<lparr>ss_group := None, ss_peers := fmempty, ss_group_admissions := {||},
     ss_pair_admissions := fmempty, ss_revoked := revoke_each (fm_keys (ss_peers demo_full)) 9 (ss_revoked demo_full)\<rparr>"
  let ?env = "demo_store_env (file_of ?st)"
  have peers: "ss_peers demo_full \<noteq> fmempty" "fm_len (ss_peers demo_full) = 1" "ss_group demo_full = None"
    by (auto simp: demo_full_def demo_paired_def store_state_default_def fm_len_upd
        dest: arg_cong[where f = "\<lambda>m. fmlookup m ''p''"])
  obtain ps' where run: "revoke_all ?env demo_write 9 ?ps = (Inr (Suc 0), ps')"
    using peers demo_persist[of ?st ?ps] by (simp add: revoke_all_def Let_def new_store_def)
  have "store_ok (ps_state ?ps)" "max_revocations < fm_len (ss_revoked (ps_state ?ps)) + fm_len (ss_peers (ps_state ?ps))"
    by (simp_all add: demo_full_ok demo_full_len peers)
  from revoke_all_outgrows_the_file[OF demo_env_ok demo_nonce_ok this run] run show ?thesis by auto
qed

lemma group_remove_invalid: "\<not> list_all id_octet dev \<Longrightarrow> group_remove g dev = Inl invalid"
  by (simp add: group_remove_def validate_id_def)

lemma remove_all_invalid:
  "dev \<in> set devs \<Longrightarrow> \<not> list_all id_octet dev \<Longrightarrow> \<exists>e. remove_all devs g = Inl e"
proof (induction devs arbitrary: g)
  case (Cons d devs)
  show ?case
  proof (cases "group_remove g d")
    case (Inr r)
    with Cons show ?thesis using group_remove_invalid by (cases r) auto
  qed simp
qed simp

text \<open>
  C40: a defect of removal. A peer record and a greeting accept any device id of 1 to 128 octets,
  while the group accepts letters, digits, hyphen and underscore only. A device whose id has
  another octet can therefore neither be removed nor revoked once this device has a group, and it
  keeps every other pairing from being revoked together with it.
\<close>

theorem foreign_device_id_cannot_be_removed:
  assumes "\<not> ps_poisoned ps" and "ss_group (ps_state ps) = Some g"
    and "fmlookup (ss_peers (ps_state ps)) pid = Some p" and "p_device_id p = Some dev"
    and "\<not> list_all id_octet dev" and "p \<in> set (se_order env (ss_peers (ps_state ps)))"
  shows "remove env w pid ps = (Inl invalid, ps)
    \<and> (\<exists>e. revoke env w pid now ps = (Inl e, ps)) \<and> (\<exists>e. revoke_all env w now ps = (Inl e, ps))"
proof -
  have dev: "remove_device pid (ps_state ps) = Inl invalid"
    using assms(2-5) by (simp add: remove_device_def group_remove_invalid)
  have "dev \<in> set (List.map_filter p_device_id (se_order env (ss_peers (ps_state ps))))"
    using assms(4,6) by (force simp: List.map_filter_def)
  from remove_all_invalid[OF this assms(5), of g] assms(2)
  have "\<exists>e. revoke_all env w now ps = (Inl e, ps)"
    using assms(1,3) by (auto simp: revoke_all_def Let_def)
  moreover have "\<exists>e. revoke env w pid now ps = (Inl e, ps)"
    using assms(1) dev by (auto simp: revoke_def Let_def split: sum.split)
  ultimately show ?thesis using assms(1) dev by (simp add: remove_def)
qed

theorem foreign_device_id_cannot_be_removed_witness:
  "\<exists>ps env w p. store_get ps ''p'' = Some p \<and> peer_ok p
     \<and> p_device_id p = Some ''my.pc'' \<and> check_id ''device_id'' ''my.pc'' = Inr ()
     \<and> remove env w ''p'' ps = (Inl invalid, ps)"
proof -
  let ?ps = "(new_store [])\<lparr>ps_state := demo_paired\<lparr>ss_group := Some (demo_group ''a'' 0 0)\<rparr>\<rparr>"
  let ?env = "demo_store_env (file_of demo_paired)"
  have "\<not> ps_poisoned ?ps" "ss_group (ps_state ?ps) = Some (demo_group ''a'' 0 0)"
    "fmlookup (ss_peers (ps_state ?ps)) ''p'' = Some demo_peer" "p_device_id demo_peer = Some ''my.pc''"
    by (simp_all add: new_store_def demo_paired_def demo_peer_def)
  moreover have "\<not> list_all id_octet ''my.pc''" by (simp add: id_octet_def is_ascii_alphanumeric_def is_ascii_digit_def in_range_def)
  moreover have "demo_peer \<in> set (se_order ?env (ss_peers (ps_state ?ps)))"
    by (auto simp: demo_store_env_def demo_paired_def set_fm_values intro: exI[of _ "''p''"])
  ultimately have "remove ?env demo_write ''p'' ?ps = (Inl invalid, ?ps)"
    using foreign_device_id_cannot_be_removed[of ?ps "demo_group ''a'' 0 0" "''p''" demo_peer "''my.pc''" ?env demo_write] by blast
  moreover have "store_get ?ps ''p'' = Some demo_peer" by (simp add: store_get_def new_store_def demo_paired_def)
  moreover have "check_id ''device_id'' ''my.pc'' = Inr ()"
    by (simp add: check_id_def check_len_def max_id_bytes_def)
  ultimately show ?thesis using demo_peer_ok \<open>p_device_id demo_peer = Some ''my.pc''\<close> by blast
qed

end
