(* ===== verification/Transport.thy ===== *)
theory Transport
  imports Codec_Props
begin

text \<open>
  The established channel: \<open>crates/copypaste-p2p/src/transport/session.rs\<close> and \<open>transport/error.rs\<close>. The
  Noise state of the library \<open>snow\<close> is a pair of functions, sealing and opening under the counter of
  the direction; the framed socket is the list of what it will yield and the frames written to it,
  each of which may fail. Wiping is not a value and is left out; capacities are kept.
\<close>

section \<open>Constants and errors\<close>

definition noise_tag_len :: nat where "noise_tag_len = 16"
definition max_noise_message :: nat where "max_noise_message = 65535"
definition max_noise_plaintext :: nat where "max_noise_plaintext = max_noise_message - noise_tag_len"
definition record_header_len :: nat where "record_header_len = 1"
definition max_record_payload :: nat where "max_record_payload = max_noise_plaintext - record_header_len"
definition record_more :: byte where "record_more = CHR 0x01"
definition record_final :: byte where "record_final = CHR 0x02"
definition max_session_message_bytes :: nat where "max_session_message_bytes = 32 * 1024 * 1024"

lemmas record_limit_defs = noise_tag_len_def max_noise_message_def max_noise_plaintext_def
  record_header_len_def max_record_payload_def

datatype transport_error = Handshake | TransportIo string | TransportCodec | Malformed | TooLarge | InvalidCode

section \<open>State\<close>

record noise_ops =
  nz_seal :: "nat \<Rightarrow> bytes \<Rightarrow> bytes option"
  nz_open :: "nat \<Rightarrow> bytes \<Rightarrow> bytes option"

record transport =
  ts_membership_only :: bool
  ts_pairing_only :: bool
  ts_poisoned :: bool
  ts_sealed :: nat
  ts_opened :: nat
  ts_in :: "(string + bytes) list"
  ts_out :: "bytes list"
  ts_fault :: "nat \<Rightarrow> string option"
  ts_handshake_hash :: bytes

definition restrict_to_membership :: "transport \<Rightarrow> transport" where
  "restrict_to_membership s = s\<lparr>ts_membership_only := True\<rparr>"

definition restrict_to_pairing :: "transport \<Rightarrow> transport" where
  "restrict_to_pairing s = s\<lparr>ts_pairing_only := True\<rparr>"

definition bind_pairing_sas :: "bytes \<Rightarrow> transport \<Rightarrow> transport" where
  "bind_pairing_sas h s = s\<lparr>ts_handshake_hash := h\<rparr>"

definition message_limit :: "transport \<Rightarrow> nat" where
  "message_limit s =
     (if ts_membership_only s then max_group_bytes + 256
      else if ts_pairing_only s then 8192
      else max_session_message_bytes)"

definition new_transport :: "(string + bytes) list \<Rightarrow> (nat \<Rightarrow> string option) \<Rightarrow> bytes \<Rightarrow> transport" where
  "new_transport input faults h = \<lparr>ts_membership_only = False, ts_pairing_only = False, ts_poisoned = False,
     ts_sealed = 0, ts_opened = 0, ts_in = input, ts_out = [], ts_fault = faults, ts_handshake_hash = h\<rparr>"

section \<open>Sending\<close>

definition seal_record :: "noise_ops \<Rightarrow> bytes \<Rightarrow> transport \<Rightarrow> (transport_error + unit) \<times> transport" where
  "seal_record nz plain s =
     (case nz_seal nz (ts_sealed s) plain of
        None \<Rightarrow> (Inl TooLarge, s\<lparr>ts_poisoned := True\<rparr>)
      | Some cipher \<Rightarrow>
          let s = s\<lparr>ts_sealed := Suc (ts_sealed s)\<rparr> in
          case ts_fault s (length (ts_out s)) of
            Some e \<Rightarrow> (Inl (TransportIo e), s)
          | None \<Rightarrow> (Inr (), s\<lparr>ts_out := ts_out s @ [cipher]\<rparr>))"

text \<open>The inner loop of \<open>write_parts\<close>: one record staged from the parts.\<close>

function stage :: "nat \<Rightarrow> bytes \<Rightarrow> bytes list \<Rightarrow> bytes \<Rightarrow> transport_error + bytes \<times> bytes \<times> bytes list" where
  "stage need pending parts plain =
     (if need = 0 then Inr (plain, pending, parts)
      else case (if pending \<noteq> [] then Some (pending, parts)
                 else case parts of [] \<Rightarrow> None | part # rest \<Rightarrow> Some (part, rest)) of
             None \<Rightarrow> Inl TooLarge
           | Some (pending, parts) \<Rightarrow>
               let now = take (min need (length pending)) pending
               in stage (need - length now) (drop (min need (length pending)) pending) parts (plain @ now))"
  by pat_completeness auto
termination
  by (relation "measure (\<lambda>(need, pending, parts, plain). need + length parts)")
     (auto split: if_splits list.splits)

declare stage.simps [simp del]

function write_loop ::
  "noise_ops \<Rightarrow> nat \<Rightarrow> bytes \<Rightarrow> bytes list \<Rightarrow> transport \<Rightarrow> (transport_error + unit) \<times> transport" where
  "write_loop nz left pending parts s =
     (let take_n = min left max_record_payload; left' = left - take_n in
      case stage take_n pending parts [if left' > 0 then record_more else record_final] of
        Inl e \<Rightarrow> (Inl e, s)
      | Inr (plain, pending, parts) \<Rightarrow>
          (case seal_record nz plain s of
             (Inl e, s) \<Rightarrow> (Inl e, s)
           | (Inr _, s) \<Rightarrow> if left' = 0 then (Inr (), s) else write_loop nz left' pending parts s))"
  by pat_completeness auto
termination
  by (relation "measure (\<lambda>(nz, left, pending, parts, s). left)")
     (auto simp: record_limit_defs)

declare write_loop.simps [simp del]

definition write_parts ::
  "noise_ops \<Rightarrow> bytes list \<Rightarrow> transport \<Rightarrow> (transport_error + unit) \<times> transport" where
  "write_parts nz parts s =
     (let left = sum_list (map length parts) in
      if left > usize_max then (Inl TooLarge, s)
      else if left > message_limit s then (Inl TooLarge, s)
      else write_loop nz left [] parts s)"

definition send_parts :: "noise_ops \<Rightarrow> bytes list \<Rightarrow> transport \<Rightarrow> (transport_error + unit) \<times> transport" where
  "send_parts nz parts s = (if ts_poisoned s then (Inl Malformed, s) else write_parts nz parts s)"

definition send_bytes :: "noise_ops \<Rightarrow> bytes \<Rightarrow> transport \<Rightarrow> (transport_error + unit) \<times> transport" where
  "send_bytes nz octets s = (if ts_poisoned s then (Inl Malformed, s) else write_parts nz [octets] s)"

text \<open>\<open>Session::send\<close>; \<open>json\<close> is what \<open>serde_json::to_vec\<close> answers.\<close>

definition send_json :: "noise_ops \<Rightarrow> bytes option \<Rightarrow> transport \<Rightarrow> (transport_error + unit) \<times> transport" where
  "send_json nz json s =
     (if ts_poisoned s then (Inl Malformed, s)
      else case json of None \<Rightarrow> (Inl TransportCodec, s) | Some octets \<Rightarrow> write_parts nz [octets] s)"

section \<open>Receiving\<close>

record reassembly =
  re_bytes :: bytes
  re_capacity :: nat

definition reassembly_new :: reassembly where
  "reassembly_new = \<lparr>re_bytes = [], re_capacity = max_noise_plaintext\<rparr>"

definition clamp :: "nat \<Rightarrow> nat \<Rightarrow> nat \<Rightarrow> nat" where
  "clamp x low high = (if x < low then low else if x > high then high else x)"

definition grow_to :: "nat \<Rightarrow> reassembly \<Rightarrow> reassembly" where
  "grow_to capacity r = r\<lparr>re_capacity := capacity\<rparr>"

definition push :: "bytes \<Rightarrow> reassembly \<Rightarrow> transport_error + reassembly" where
  "push body r =
     (let wanted = usize_saturating_add (length (re_bytes r)) (length body) in
      if wanted > max_session_message_bytes then Inl TooLarge
      else let r = (if wanted > re_capacity r
                    then grow_to (clamp (min usize_max (re_capacity r * 2)) wanted max_session_message_bytes) r else r)
           in Inr (r\<lparr>re_bytes := re_bytes r @ body\<rparr>))"

definition reserve_total :: "nat \<Rightarrow> reassembly \<Rightarrow> reassembly" where
  "reserve_total total_len r =
     (if total_len > re_capacity r then grow_to (min total_len max_session_message_bytes) r else r)"

definition poison :: "transport \<Rightarrow> transport" where
  "poison s = s\<lparr>ts_poisoned := True\<rparr>"

text \<open>The announcement in the first record of a message of several.\<close>

definition reserve_announced ::
  "(bytes \<Rightarrow> nat option) \<Rightarrow> nat \<Rightarrow> bool \<Rightarrow> byte \<Rightarrow> bytes \<Rightarrow> reassembly \<Rightarrow> reassembly" where
  "reserve_announced announced limit started marker body message =
     (if \<not> started \<and> marker = record_more
      then (case announced body of
              None \<Rightarrow> message | Some total_len \<Rightarrow> reserve_total (min total_len limit) message)
      else message)"

text \<open>The loop of \<open>recv_bytes_sized\<close>, over the frames that the socket will yield.\<close>

fun recv_loop ::
  "noise_ops \<Rightarrow> (bytes \<Rightarrow> nat option) \<Rightarrow> (string + bytes) list \<Rightarrow> bool \<Rightarrow> reassembly \<Rightarrow> transport
   \<Rightarrow> (transport_error + reassembly option) \<times> transport" where
  "recv_loop nz announced [] started message s =
     (if started then (Inl Malformed, poison (s\<lparr>ts_in := []\<rparr>)) else (Inr None, s\<lparr>ts_in := []\<rparr>))"
| "recv_loop nz announced (Inl e # rest) started message s = (Inl (TransportIo e), poison (s\<lparr>ts_in := rest\<rparr>))"
| "recv_loop nz announced (Inr frame # rest) started message s0 =
     (let s = s0\<lparr>ts_in := rest\<rparr> in
      if length frame < record_header_len + noise_tag_len \<or> length frame > max_noise_message
      then (Inl Malformed, poison s)
      else case nz_open nz (ts_opened s) frame of
             None \<Rightarrow> (Inl Malformed, poison s)
           | Some [] \<Rightarrow> (Inl Malformed, poison (s\<lparr>ts_opened := Suc (ts_opened s)\<rparr>))
           | Some (marker # body) \<Rightarrow>
               let s = s\<lparr>ts_opened := Suc (ts_opened s)\<rparr> in
               if usize_saturating_add (length (re_bytes message)) (length body) > message_limit s
               then (Inl TooLarge, poison s)
               else case push body (reserve_announced announced (message_limit s) started marker body message) of
                      Inl e \<Rightarrow> (Inl e, poison s)
                    | Inr message \<Rightarrow>
                        if marker = record_more then recv_loop nz announced rest True message s
                        else if marker = record_final then (Inr (Some message), s)
                        else (Inl Malformed, poison s))"

definition recv_bytes_sized ::
  "noise_ops \<Rightarrow> (bytes \<Rightarrow> nat option) \<Rightarrow> transport \<Rightarrow> (transport_error + reassembly option) \<times> transport" where
  "recv_bytes_sized nz announced s =
     (if ts_poisoned s then (Inl Malformed, s) else recv_loop nz announced (ts_in s) False reassembly_new s)"

definition recv_bytes :: "noise_ops \<Rightarrow> transport \<Rightarrow> (transport_error + reassembly option) \<times> transport" where
  "recv_bytes nz s = recv_bytes_sized nz (\<lambda>_. None) s"

text \<open>\<open>Session::recv\<close>; \<open>from_json\<close> is \<open>serde_json::from_slice\<close>.\<close>

definition recv_json ::
  "noise_ops \<Rightarrow> (bytes \<Rightarrow> 'a option) \<Rightarrow> transport \<Rightarrow> (transport_error + 'a option) \<times> transport" where
  "recv_json nz from_json s =
     (case recv_bytes nz s of
        (Inl e, s) \<Rightarrow> (Inl e, s)
      | (Inr None, s) \<Rightarrow> (Inr None, s)
      | (Inr (Some message), s) \<Rightarrow>
          (case from_json (re_bytes message) of None \<Rightarrow> (Inl TransportCodec, s) | Some v \<Rightarrow> (Inr (Some v), s)))"

text \<open>\<open>pairing_sas\<close>: six decimal digits of the first four octets of the handshake hash.\<close>

fun decimal :: "nat \<Rightarrow> nat \<Rightarrow> string" where
  "decimal 0 n = []"
| "decimal (Suc k) n = decimal k (n div 10) @ [digit n]"

definition pairing_sas :: "transport \<Rightarrow> string" where
  "pairing_sas s = decimal 6 (be_val (take 4 (ts_handshake_hash s)) mod 1000000)"

end
