(* ===== verification/Transport_Props.thy ===== *)
theory Transport_Props
  imports Transport
begin

text \<open>
  What the channel delivers. \<open>records\<close> is the reference cutting of a message into records; sending
  seals exactly those whatever parts the message is given in, and receiving puts them together
  again. Against an attacker who owns the network, what is received is a prefix of what was sent.
\<close>

section \<open>Cutting into records\<close>

function records :: "bytes \<Rightarrow> bytes list" where
  "records m = (if length m \<le> max_record_payload then [record_final # m]
     else (record_more # take max_record_payload m) # records (drop max_record_payload m))"
  by pat_completeness auto
termination
  by (relation "measure length") (auto simp: record_limit_defs)

declare records.simps [simp del]

fun seal_all :: "noise_ops \<Rightarrow> bytes list \<Rightarrow> transport \<Rightarrow> (transport_error + unit) \<times> transport" where
  "seal_all nz [] s = (Inr (), s)"
| "seal_all nz (r # rs) s =
     (case seal_record nz r s of (Inl e, s) \<Rightarrow> (Inl e, s) | (Inr _, s) \<Rightarrow> seal_all nz rs s)"

lemma records_nonempty [simp]: "records m \<noteq> []"
  by (subst records.simps) simp

lemma stage_step:
  "need \<noteq> 0 \<Longrightarrow> pending \<noteq> [] \<Longrightarrow> stage need pending parts plain =
     stage (need - min need (length pending)) (drop need pending) parts (plain @ take need pending)"
  "need \<noteq> 0 \<Longrightarrow> stage need [] (part # rest) plain =
     stage (need - min need (length part)) (drop need part) rest (plain @ take need part)"
  by (subst stage.simps, simp add: Let_def min_def)+

lemma stage_spec:
  assumes "need \<le> length (pending @ concat parts)"
  shows "\<exists>pending' parts'. stage need pending parts plain = Inr (plain @ take need (pending @ concat parts), pending', parts')
    \<and> pending' @ concat parts' = drop need (pending @ concat parts)"
  using assms
proof (induction "need + length parts" arbitrary: need pending parts plain rule: less_induct)
  case less
  consider "need = 0" | "need \<noteq> 0" "pending \<noteq> []" | part rest where "need \<noteq> 0" "pending = []" "parts = part # rest"
    using less.prems by (cases parts; cases "pending = []"; cases "need = 0") auto
  then show ?case
  proof cases
    case 1
    then show ?thesis by (simp add: stage.simps)
  next
    case 2
    let ?need = "need - min need (length pending)"
    have "?need + length parts < need + length parts" "?need \<le> length (drop need pending @ concat parts)"
      using 2 less.prems by (auto simp: min_def)
    from less.hyps[OF this, of "plain @ take need pending"] show ?thesis
      unfolding stage_step(1)[OF 2] by (auto simp: min_def)
  next
    case 3
    let ?need = "need - min need (length part)"
    have "?need + length rest < need + length parts" "?need \<le> length (drop need part @ concat rest)"
      using 3 less.prems by (auto simp: min_def)
    from less.hyps[OF this, of "plain @ take need part"] show ?thesis
      unfolding 3(2,3) stage_step(2)[OF 3(1)] by (auto simp: min_def)
  qed
qed

lemma write_loop_spec:
  "m = pending @ concat parts \<Longrightarrow> write_loop nz (length m) pending parts s = seal_all nz (records m) s"
proof (induction "length m" arbitrary: m pending parts s rule: less_induct)
  case less
  let ?k = "min (length m) max_record_payload"
  let ?left = "length m - ?k"
  let ?mark = "if ?left > 0 then record_more else record_final"
  obtain p' q' where st: "stage ?k pending parts [?mark] = Inr ([?mark] @ take ?k m, p', q')" "p' @ concat q' = drop ?k m"
    using stage_spec[of ?k pending parts "[?mark]"] less.prems by auto
  have loop: "write_loop nz (length m) pending parts s =
      (case seal_record nz (?mark # take ?k m) s of
         (Inl e, s) \<Rightarrow> (Inl e, s)
       | (Inr _, s) \<Rightarrow> if ?left = 0 then (Inr (), s) else write_loop nz ?left p' q' s)"
    by (subst write_loop.simps) (simp only: Let_def st, simp)
  show ?case
  proof (cases "length m \<le> max_record_payload")
    case True
    then have "records m = [record_final # m]" by (simp add: records.simps)
    with True show ?thesis unfolding loop by (simp add: min_def split: sum.split prod.split)
  next
    case False
    define m' where "m' = drop max_record_payload m"
    have left: "?left = length m'" "length m' > 0" "length m' < length m" "?k = max_record_payload"
      using False by (auto simp: m'_def min_def record_limit_defs)
    have rec: "records m = (record_more # take max_record_payload m) # records m'"
      using False unfolding m'_def by (subst records.simps) simp
    have "write_loop nz (length m') p' q' s' = seal_all nz (records m') s'" for s'
    proof (rule less.hyps[OF left(3)])
      show "m' = p' @ concat q'" using st(2) left(4) by (simp add: m'_def)
    qed
    with left show ?thesis unfolding loop rec by (simp split: sum.split prod.split)
  qed
qed

lemma sum_list_concat: "sum_list (map length parts) = length (concat parts)"
  by (induction parts) auto

lemma write_parts_eq:
  "write_parts nz parts s =
     (if length (concat parts) > min usize_max (message_limit s) then (Inl TooLarge, s)
      else seal_all nz (records (concat parts)) s)"
  using write_loop_spec[of "concat parts" "[]" parts nz s] by (auto simp: write_parts_def sum_list_concat Let_def)

section \<open>Putting records together\<close>

definition fits :: "reassembly \<Rightarrow> bool" where
  "fits r \<longleftrightarrow> length (re_bytes r) \<le> re_capacity r \<and> re_capacity r \<le> max_session_message_bytes"

lemma message_limit_le: "message_limit s \<le> max_session_message_bytes" "max_session_message_bytes < usize_max"
  by (auto simp: message_limit_def max_session_message_bytes_def max_group_bytes_def usize_max_def)

lemma message_limit_update [simp]:
  "message_limit (s\<lparr>ts_in := i, ts_opened := n\<rparr>) = message_limit s"
  by (simp add: message_limit_def)

lemma saturating_exceeds:
  "n < usize_max \<Longrightarrow> usize_saturating_add a b > n \<longleftrightarrow> a + b > n"
  by (auto simp: usize_saturating_add_def)

lemma reassembly_new_fits [simp]: "fits reassembly_new" "re_bytes reassembly_new = []"
  by (simp_all add: fits_def reassembly_new_def record_limit_defs max_session_message_bytes_def)

lemma reserve_total_fits: "fits r \<Longrightarrow> fits (reserve_total n r) \<and> re_bytes (reserve_total n r) = re_bytes r"
  by (auto simp: fits_def reserve_total_def grow_to_def)

lemma push_Inr:
  "push body r = Inr r' \<Longrightarrow> fits r \<Longrightarrow> fits r' \<and> re_bytes r' = re_bytes r @ body"
  using message_limit_le(2)
  by (auto simp: push_def fits_def grow_to_def clamp_def Let_def usize_saturating_add_def split: if_splits)

lemma push_ok:
  "length (re_bytes r) + length body \<le> max_session_message_bytes \<Longrightarrow> \<exists>r'. push body r = Inr r'"
  using message_limit_le(2) by (auto simp: push_def Let_def usize_saturating_add_def)

lemma reserve_announced_fits:
  "fits r \<Longrightarrow> fits (reserve_announced ann n started marker body r)
     \<and> re_bytes (reserve_announced ann n started marker body r) = re_bytes r"
  using reserve_total_fits by (simp add: reserve_announced_def split: option.split)

text \<open>What one accepted frame does.\<close>

lemma recv_frame_Some:
  assumes "recv_loop nz ann (Inr frame # rest) started message s = (Inr (Some msg), s')" and "fits message"
  shows "\<exists>marker body message'. nz_open nz (ts_opened s) frame = Some (marker # body)
    \<and> fits message' \<and> re_bytes message' = re_bytes message @ body
    \<and> length (re_bytes message) + length body \<le> message_limit s
    \<and> (if marker = record_more
       then recv_loop nz ann rest True message' (s\<lparr>ts_in := rest, ts_opened := Suc (ts_opened s)\<rparr>) = (Inr (Some msg), s')
       else marker = record_final \<and> msg = message' \<and> s' = s\<lparr>ts_in := rest, ts_opened := Suc (ts_opened s)\<rparr>)"
proof -
  have "message_limit s < usize_max" using message_limit_le(1)[of s] message_limit_le(2) by linarith
  from assms obtain marker body where op: "nz_open nz (ts_opened s) frame = Some (marker # body)"
    "\<not> usize_saturating_add (length (re_bytes message)) (length body) > message_limit s"
    by (auto simp: Let_def split: if_splits option.splits list.splits)
  let ?m1 = "reserve_announced ann (message_limit s) started marker body message"
  have m1: "fits ?m1" "re_bytes ?m1 = re_bytes message"
    using reserve_announced_fits[OF assms(2)] by auto
  from assms(1) op obtain m2 where m2: "push body ?m1 = Inr m2"
    by (auto simp: Let_def split: if_splits sum.splits)
  from push_Inr[OF m2 m1(1)] m1(2) have "fits m2" "re_bytes m2 = re_bytes message @ body" by auto
  moreover have "length (re_bytes message) + length body \<le> message_limit s"
    using op(2) saturating_exceeds[OF \<open>message_limit s < usize_max\<close>] by (simp add: not_less)
  ultimately show ?thesis using assms(1) op m2 by (auto simp: Let_def split: if_splits)
qed

text \<open>A complete record that opens and fits is taken.\<close>

lemma recv_frame_step:
  assumes "nz_open nz (ts_opened s) frame = Some (marker # body)" and "fits message"
    and "record_header_len + noise_tag_len \<le> length frame" and "length frame \<le> max_noise_message"
    and "length (re_bytes message) + length body \<le> message_limit s" and "marker \<in> {record_more, record_final}"
  shows "\<exists>message'. fits message' \<and> re_bytes message' = re_bytes message @ body
    \<and> recv_loop nz ann (Inr frame # rest) started message s =
       (if marker = record_more
        then recv_loop nz ann rest True message' (s\<lparr>ts_in := rest, ts_opened := Suc (ts_opened s)\<rparr>)
        else (Inr (Some message'), s\<lparr>ts_in := rest, ts_opened := Suc (ts_opened s)\<rparr>))"
proof -
  let ?m1 = "reserve_announced ann (message_limit s) started marker body message"
  have m1: "fits ?m1" "re_bytes ?m1 = re_bytes message" using reserve_announced_fits[OF assms(2)] by auto
  obtain m2 where m2: "push body ?m1 = Inr m2"
    using push_ok[of ?m1 body] m1(2) assms(5) message_limit_le(1)[of s] by auto
  have "\<not> usize_saturating_add (length (re_bytes message)) (length body) > message_limit s"
    using assms(5) usize_saturating_add_le[of "length (re_bytes message)" "length body"] by linarith
  with assms m2 push_Inr[OF m2 m1(1)] m1(2) show ?thesis
    by (intro exI[of _ m2]) (auto simp: Let_def)
qed

section \<open>Against the network\<close>

text \<open>
  What \<open>snow\<close> promises of a transport state: a frame that opens under a counter is the one the peer
  sealed under that counter. \<open>R\<close> is the list of what the peer sealed.
\<close>

definition authentic :: "noise_ops \<Rightarrow> bytes list \<Rightarrow> bool" where
  "authentic nz R \<longleftrightarrow> (\<forall>n c p. nz_open nz n c = Some p \<longrightarrow> n < length R \<and> p = R ! n)"

lemma authentic_next:
  assumes "authentic nz R" and "nz_open nz n c = Some p"
  shows "drop n R = p # drop (Suc n) R"
  using assms Cons_nth_drop_Suc[of n R] by (auto simp: authentic_def)

lemma records_cases:
  "records m = (if length m \<le> max_record_payload then [record_final # m]
     else (record_more # take max_record_payload m) # records (drop max_record_payload m))"
  by (subst records.simps) simp

lemma markers_differ [simp]: "record_more \<noteq> record_final" "record_final \<noteq> record_more"
  by (simp_all add: record_more_def record_final_def)

lemma recv_authentic:
  assumes "authentic nz R" and "drop (ts_opened s) R = records m @ tail" and "fits message"
    and "recv_loop nz ann frames started message s = (Inr (Some msg), s')"
  shows "re_bytes msg = re_bytes message @ m \<and> drop (ts_opened s') R = tail \<and> fits msg
    \<and> length (re_bytes msg) \<le> message_limit s \<and> message_limit s' = message_limit s \<and> ts_poisoned s' = ts_poisoned s"
  using assms(2-)
proof (induction frames arbitrary: m started message s)
  case (Cons f frames)
  show ?case
  proof (cases f)
    case (Inr frame)
    let ?s = "s\<lparr>ts_in := frames, ts_opened := Suc (ts_opened s)\<rparr>"
    have same: "message_limit ?s = message_limit s" "ts_poisoned ?s = ts_poisoned s" by simp_all
    from recv_frame_Some[OF Cons.prems(3)[unfolded Inr] Cons.prems(2)] obtain marker body message' where
      op: "nz_open nz (ts_opened s) frame = Some (marker # body)" and fit: "fits message'"
        "re_bytes message' = re_bytes message @ body" "length (re_bytes message) + length body \<le> message_limit s"
      and next_step: "if marker = record_more then recv_loop nz ann frames True message' ?s = (Inr (Some msg), s')
         else marker = record_final \<and> msg = message' \<and> s' = ?s"
      by auto
    from authentic_next[OF assms(1) op] Cons.prems(1)
    have hd: "records m @ tail = (marker # body) # drop (Suc (ts_opened s)) R" by simp
    show ?thesis
    proof (cases "length m \<le> max_record_payload")
      case True
      with hd have "marker = record_final" "body = m" "drop (Suc (ts_opened s)) R = tail"
        by (auto simp: records_cases[of m])
      with next_step fit same show ?thesis by auto
    next
      case False
      with hd have rec: "marker = record_more" "body = take max_record_payload m"
        "drop (Suc (ts_opened s)) R = records (drop max_record_payload m) @ tail"
        by (auto simp: records_cases[of m])
      have "drop (ts_opened ?s) R = records (drop max_record_payload m) @ tail" using rec(3) by simp
      from Cons.IH[OF this fit(1), of True] next_step rec(1,2) fit(2) same show ?thesis by auto
    qed
  qed (use Cons.prems(3) in simp)
qed (simp split: if_splits)

lemma recv_exhausted:
  assumes "authentic nz R" and "drop (ts_opened s) R = []"
  shows "recv_loop nz ann frames False message s \<noteq> (Inr (Some msg), s')"
proof (cases frames)
  case (Cons f fs)
  have "nz_open nz (ts_opened s) c = None" for c
    using assms authentic_next[OF assms(1), of "ts_opened s" c]
    by (cases "nz_open nz (ts_opened s) c") simp_all
  then show ?thesis by (cases f) (auto simp: Cons Let_def)
qed simp

fun receive_all :: "noise_ops \<Rightarrow> (bytes \<Rightarrow> nat option) \<Rightarrow> nat \<Rightarrow> transport \<Rightarrow> bytes list \<times> transport" where
  "receive_all nz ann 0 s = ([], s)"
| "receive_all nz ann (Suc k) s =
     (case recv_bytes_sized nz ann s of
        (Inr (Some msg), s) \<Rightarrow> (case receive_all nz ann k s of (ms, s) \<Rightarrow> (re_bytes msg # ms, s))
      | (_, s) \<Rightarrow> ([], s))"

lemma receive_all_prefix:
  assumes "authentic nz R" and "drop (ts_opened s) R = concat (map records ms)"
  shows "\<exists>rest. ms = fst (receive_all nz ann k s) @ rest
    \<and> (\<forall>m \<in> set (fst (receive_all nz ann k s)). length m \<le> message_limit s)"
  using assms(2)
proof (induction k arbitrary: s ms)
  case (Suc k)
  show ?case
  proof (cases "\<exists>msg s'. recv_bytes_sized nz ann s = (Inr (Some msg), s')")
    case False
    then have "fst (receive_all nz ann (Suc k) s) = []" by (auto split: prod.split sum.split option.split)
    then show ?thesis by simp
  next
    case True
    then obtain msg s' where got: "recv_bytes_sized nz ann s = (Inr (Some msg), s')" by blast
    then have loop: "recv_loop nz ann (ts_in s) False reassembly_new s = (Inr (Some msg), s')"
      by (simp add: recv_bytes_sized_def split: if_splits)
    show ?thesis
    proof (cases ms)
      case Nil
      with Suc.prems recv_exhausted[OF assms(1), of s ann "ts_in s"] loop show ?thesis by simp
    next
      case (Cons m ms')
      with Suc.prems have "drop (ts_opened s) R = records m @ concat (map records ms')" by simp
      from recv_authentic[OF assms(1) this reassembly_new_fits(1) loop]
      have m: "re_bytes msg = m" "drop (ts_opened s') R = concat (map records ms')" "length m \<le> message_limit s"
        "message_limit s' = message_limit s" by auto
      from Suc.IH[OF m(2)] obtain rest where "ms' = fst (receive_all nz ann k s') @ rest"
        "\<forall>m \<in> set (fst (receive_all nz ann k s')). length m \<le> message_limit s'" by blast
      with got m Cons show ?thesis by (auto split: prod.split)
    qed
  qed
qed simp

section \<open>Delivery\<close>

text \<open>
  The other promise of \<open>snow\<close>: while the 64-bit counter has not run out, a record of at most the
  Noise limit seals, is longer by the tag, and opens again under the same counter.
\<close>

definition nonces :: nat where "nonces = 2 ^ 64 - 1"

definition noise_ok :: "noise_ops \<Rightarrow> bool" where
  "noise_ok nz \<longleftrightarrow> (\<forall>n p. n < nonces \<longrightarrow> length p \<le> max_noise_plaintext \<longrightarrow>
     (\<exists>c. nz_seal nz n p = Some c \<and> nz_open nz n c = Some p \<and> length c = length p + noise_tag_len))"

lemma noise_okE:
  assumes "noise_ok nz" and "n < nonces" and "length p \<le> max_noise_plaintext"
  obtains c where "nz_seal nz n p = Some c" "nz_open nz n c = Some p" "length c = length p + noise_tag_len"
  using assms unfolding noise_ok_def by blast

fun seal_list :: "noise_ops \<Rightarrow> nat \<Rightarrow> bytes list \<Rightarrow> bytes list" where
  "seal_list nz n [] = []"
| "seal_list nz n (r # rs) = the (nz_seal nz n r) # seal_list nz (Suc n) rs"

lemma length_seal_list [simp]: "length (seal_list nz n rs) = length rs"
  by (induction rs arbitrary: n) auto

lemma records_length: "r \<in> set (records m) \<Longrightarrow> 1 \<le> length r \<and> length r \<le> max_noise_plaintext"
  by (induction m rule: records.induct, subst (asm) records_cases)
     (auto simp: record_limit_defs split: if_splits)

lemma seal_all_ok:
  assumes "noise_ok nz" and "\<forall>k. ts_fault s k = None" and "\<forall>r \<in> set rs. length r \<le> max_noise_plaintext"
    and "ts_sealed s + length rs \<le> nonces"
  shows "seal_all nz rs s = (Inr (), s\<lparr>ts_sealed := ts_sealed s + length rs,
    ts_out := ts_out s @ seal_list nz (ts_sealed s) rs\<rparr>)"
  using assms(2-)
proof (induction rs arbitrary: s)
  case (Cons r rs)
  from noise_okE[OF assms(1), of "ts_sealed s" r] Cons.prems(2,3)
  obtain c where c: "nz_seal nz (ts_sealed s) r = Some c" by auto
  then have "seal_record nz r s = (Inr (), s\<lparr>ts_sealed := Suc (ts_sealed s), ts_out := ts_out s @ [c]\<rparr>)"
    using Cons.prems(1) by (simp add: seal_record_def Let_def)
  with Cons.IH[of "s\<lparr>ts_sealed := Suc (ts_sealed s), ts_out := ts_out s @ [c]\<rparr>"] Cons.prems c show ?case by simp
qed simp

lemma recv_sealed:
  assumes "noise_ok nz" and "fits message" and "length (re_bytes message) + length m \<le> message_limit s"
    and "ts_opened s + length (records m) \<le> nonces"
  shows "\<exists>msg. fits msg \<and> re_bytes msg = re_bytes message @ m
    \<and> recv_loop nz ann (map Inr (seal_list nz (ts_opened s) (records m)) @ rest) started message s =
       (Inr (Some msg), s\<lparr>ts_in := rest, ts_opened := ts_opened s + length (records m)\<rparr>)"
  using assms(2-)
proof (induction "length m" arbitrary: m message s started rule: less_induct)
  case less
  define r where "r = hd (records m)"
  obtain marker body where r: "r = marker # body" "marker \<in> {record_more, record_final}"
    by (cases "length m \<le> max_record_payload") (auto simp: r_def records_cases[of m])
  have rm: "r \<in> set (records m)" by (simp add: r_def)
  have "ts_opened s < nonces" using less.prems(3) by (cases "records m") auto
  then obtain c where c: "nz_seal nz (ts_opened s) r = Some c"
    "nz_open nz (ts_opened s) c = Some r" "length c = length r + noise_tag_len"
    using noise_okE[OF assms(1), of "ts_opened s" r] records_length[OF rm] by auto
  have len: "record_header_len + noise_tag_len \<le> length c" "length c \<le> max_noise_message"
    using c(3) records_length[OF rm] by (auto simp: record_limit_defs)
  show ?case
  proof (cases "length m \<le> max_record_payload")
    case True
    then have "records m = [record_final # m]" by (simp add: records_cases)
    then have rec: "records m = [r]" "marker = record_final" "body = m" using r by (auto simp: r_def)
    have "seal_list nz (ts_opened s) (records m) = [c]" "length (records m) = 1" using rec(1) c(1) by simp_all
    with recv_frame_step[of nz s c marker body message ann rest started] c(2) r rec(2,3) less.prems len
    show ?thesis by (auto simp del: recv_loop.simps)
  next
    case False
    define m' where "m' = drop max_record_payload m"
    have "records m = (record_more # take max_record_payload m) # records m'"
      using False by (simp add: records_cases[of m] m'_def)
    then have rec: "records m = r # records m'" "marker = record_more" "body = take max_record_payload m"
      using r by (auto simp: r_def)
    let ?rest = "map Inr (seal_list nz (Suc (ts_opened s)) (records m')) @ rest"
    let ?s = "s\<lparr>ts_in := ?rest, ts_opened := Suc (ts_opened s)\<rparr>"
    have bound: "length (re_bytes message) + length body \<le> message_limit s" using less.prems(2) rec(3) by simp
    from recv_frame_step[of nz s c marker body message ann ?rest started] c(2) r rec bound less.prems(1) len
    obtain message' where m1: "fits message'" "re_bytes message' = re_bytes message @ body"
      "recv_loop nz ann (Inr c # ?rest) started message s = recv_loop nz ann ?rest True message' ?s"
      by (auto simp del: recv_loop.simps)
    have "length m' < length m" "length (re_bytes message') + length m' \<le> message_limit ?s"
      "ts_opened ?s + length (records m') \<le> nonces"
      using False less.prems(2,3) m1(2) rec(1,3) by (auto simp: m'_def record_limit_defs)
    moreover have "seal_list nz (ts_opened s) (records m) = c # seal_list nz (Suc (ts_opened s)) (records m')"
      "length (records m) = Suc (length (records m'))" "body @ m' = m" using rec c(1) by (simp_all add: m'_def)
    ultimately show ?thesis using less.hyps[of m' message' ?s True] m1
      by (auto simp del: recv_loop.simps)
  qed
qed

lemma records_payload: "concat (map tl (records m)) = m"
  by (induction m rule: records.induct, subst records_cases) auto

lemma records_length_le: "length (records m) \<le> Suc (length m)"
proof (induction m rule: records.induct)
  case (1 m)
  then show ?case by (subst records_cases) (auto simp: record_limit_defs)
qed

lemma send_bytes_eq:
  "send_bytes nz m s =
     (if ts_poisoned s then (Inl Malformed, s)
      else if length m > message_limit s then (Inl TooLarge, s)
      else seal_all nz (records m) s)"
  using message_limit_le(1)[of s] message_limit_le(2) by (auto simp: send_bytes_def write_parts_eq min_def)

lemma send_parts_eq: "send_parts nz parts s = send_bytes nz (concat parts) s"
  by (simp add: send_parts_def send_bytes_def write_parts_eq)

text \<open>An error of the receiver leaves the channel closed for good, with nothing written.\<close>

lemma recv_loop_error:
  "recv_loop nz ann frames started message s = (Inl e, s') \<Longrightarrow> ts_poisoned s' \<and> ts_out s' = ts_out s"
  by (induction nz ann frames started message s rule: recv_loop.induct)
     (auto simp: Let_def poison_def split: if_splits option.splits list.splits sum.splits)

lemma recv_error:
  "recv_bytes_sized nz ann s = (Inl e, s') \<Longrightarrow> ts_poisoned s' \<and> ts_out s' = ts_out s"
  using recv_loop_error by (auto simp: recv_bytes_sized_def split: if_splits)

lemma delivery:
  assumes "noise_ok nz" and "\<forall>k. ts_fault a k = None" and "\<not> ts_poisoned a" and "\<not> ts_poisoned b"
    and "length m \<le> message_limit a" and "length m \<le> message_limit b" and "ts_opened b = ts_sealed a"
    and "ts_sealed a + length (records m) \<le> nonces"
    and "ts_in b = map Inr (drop (length (ts_out a)) (ts_out (snd (send_bytes nz m a)))) @ rest"
  shows "fst (send_bytes nz m a) = Inr () \<and> (\<exists>msg. re_bytes msg = m \<and> fits msg
    \<and> recv_bytes_sized nz ann b =
       (Inr (Some msg), b\<lparr>ts_in := rest, ts_opened := ts_sealed (snd (send_bytes nz m a))\<rparr>))"
proof -
  have sent: "send_bytes nz m a = (Inr (), a\<lparr>ts_sealed := ts_sealed a + length (records m),
      ts_out := ts_out a @ seal_list nz (ts_sealed a) (records m)\<rparr>)"
    using seal_all_ok[OF assms(1,2) _ assms(8)] records_length assms(3,5) by (simp add: send_bytes_eq)
  with assms(7,9) have "ts_in b = map Inr (seal_list nz (ts_opened b) (records m)) @ rest" by simp
  with recv_sealed[OF assms(1) reassembly_new_fits(1), of m b ann rest False] assms(4,6,7,8) sent
  show ?thesis by (auto simp: recv_bytes_sized_def simp del: recv_loop.simps)
qed

section \<open>A concrete Noise state\<close>

definition demo_noise :: noise_ops where
  "demo_noise = \<lparr>nz_seal = (\<lambda>n p. if length p \<le> max_noise_plaintext then Some (p @ replicate noise_tag_len CHR 0x00) else None),
     nz_open = (\<lambda>n c. if noise_tag_len \<le> length c then Some (take (length c - noise_tag_len) c) else None)\<rparr>"

lemma demo_noise_ok: "noise_ok demo_noise"
  by (simp add: noise_ok_def demo_noise_def)

text \<open>One that has sealed the records of one message and opens nothing else.\<close>

definition demo_peer :: "bytes list \<Rightarrow> noise_ops" where
  "demo_peer R = \<lparr>nz_seal = (\<lambda>n p. Some p),
     nz_open = (\<lambda>n c. if n < length R \<and> c = R ! n @ replicate noise_tag_len CHR 0x00 then Some (R ! n) else None)\<rparr>"

lemma demo_peer_authentic: "authentic (demo_peer R) R"
  by (simp add: authentic_def demo_peer_def)

section \<open>Properties\<close>

text \<open>
  How a message is given does not matter. Sending parts writes the very frames that sending
  their concatenation writes, whatever the cuts, the socket failures and the Noise state; those
  are the records of the reference cutting, which hold the message and each fit one Noise
  message, and a message over the limit of the channel is refused with nothing written.
\<close>

theorem sending_is_by_the_message:
  "send_parts nz parts s = send_bytes nz (concat parts) s
   \<and> send_bytes nz m s =
       (if ts_poisoned s then (Inl Malformed, s)
        else if length m > message_limit s then (Inl TooLarge, s)
        else seal_all nz (records m) s)
   \<and> concat (map tl (records m)) = m
   \<and> list_all (\<lambda>r. 1 \<le> length r \<and> length r \<le> max_noise_plaintext) (records m)"
  using records_length by (simp add: send_parts_eq send_bytes_eq records_payload list_all_iff)

text \<open>
  An attacker who owns the network can only cut the conversation short. Whatever frames
  arrive, in whatever order, the messages received are a prefix of those the peer sent, each
  whole and within the limit; this needs only that a frame opens under a counter to what the peer
  sealed under it.
\<close>

theorem received_is_a_prefix_of_sent:
  assumes "authentic nz (concat (map records ms))" and "ts_opened s = 0"
  shows "\<exists>rest. ms = fst (receive_all nz ann k s) @ rest
    \<and> list_all (\<lambda>m. length m \<le> message_limit s) (fst (receive_all nz ann k s))"
  using receive_all_prefix[OF assms(1), of s ms ann k] assms(2) by (simp add: list_all_iff)

theorem received_is_a_prefix_of_sent_witness:
  "fst (receive_all (demo_peer (concat (map records [''ab'', ''c'']))) (\<lambda>_. None) 3
      (new_transport [Inr (record_final # ''ab'' @ replicate noise_tag_len CHR 0x00), Inr (''junk'' @ replicate noise_tag_len CHR 0x00)] (\<lambda>_. None) []))
     = [''ab'']
   \<and> (\<exists>rest. [''ab'', ''c''] = fst (receive_all (demo_peer (concat (map records [''ab'', ''c'']))) (\<lambda>_. None) 3
      (new_transport [Inr (record_final # ''ab'' @ replicate noise_tag_len CHR 0x00), Inr (''junk'' @ replicate noise_tag_len CHR 0x00)] (\<lambda>_. None) []))
        @ rest)"
proof -
  let ?s = "new_transport [Inr (record_final # ''ab'' @ replicate noise_tag_len CHR 0x00), Inr (''junk'' @ replicate noise_tag_len CHR 0x00)] (\<lambda>_. None) []"
  have recs: "concat (map records [''ab'', ''c'']) = [record_final # ''ab'', record_final # ''c'']"
    by (simp add: records_cases record_limit_defs)
  have "ts_opened ?s = 0" by (simp add: new_transport_def)
  from received_is_a_prefix_of_sent[OF demo_peer_authentic this, of "[''ab'', ''c'']" "\<lambda>_. None" 3]
  have "\<exists>rest. [''ab'', ''c''] = fst (receive_all (demo_peer (concat (map records [''ab'', ''c'']))) (\<lambda>_. None) 3 ?s) @ rest"
    by blast
  moreover have "fst (receive_all (demo_peer (concat (map records [''ab'', ''c'']))) (\<lambda>_. None) 3 ?s) = [''ab'']"
    unfolding recs
    by (simp add: numeral_3_eq_3 recv_bytes_sized_def new_transport_def demo_peer_def Let_def record_limit_defs
        message_limit_def push_def reserve_announced_def reassembly_new_def usize_saturating_add_def
        max_session_message_bytes_def usize_max_def record_final_def record_more_def poison_def)
  ultimately show ?thesis by blast
qed

text \<open>
  A channel that failed to receive stays closed. Once receiving has reported an error,
  whatever it was, every later call, sending included, answers \<open>Malformed\<close> and changes
  nothing, and nothing was written on the way.
\<close>

theorem failed_channel_stays_closed:
  assumes "recv_bytes_sized nz ann s = (Inl e, s')"
  shows "ts_out s' = ts_out s \<and> send_parts nz parts s' = (Inl Malformed, s') \<and> send_bytes nz m s' = (Inl Malformed, s')
    \<and> send_json nz json s' = (Inl Malformed, s') \<and> recv_bytes_sized nz ann' s' = (Inl Malformed, s')"
  using recv_error[OF assms]
  by (simp add: send_parts_def send_bytes_def send_json_def recv_bytes_sized_def)

theorem failed_channel_stays_closed_witness:
  "send_bytes demo_noise ''x''
      (snd (recv_bytes_sized demo_noise (\<lambda>_. None) (new_transport [Inr ''short''] (\<lambda>_. None) [])))
    = (Inl Malformed, snd (recv_bytes_sized demo_noise (\<lambda>_. None) (new_transport [Inr ''short''] (\<lambda>_. None) [])))"
proof -
  let ?s = "new_transport [Inr ''short''] (\<lambda>_. None) []"
  have "recv_bytes_sized demo_noise (\<lambda>_. None) ?s = (Inl Malformed, poison (?s\<lparr>ts_in := []\<rparr>))"
    by (simp add: recv_bytes_sized_def new_transport_def record_limit_defs Let_def)
  from failed_channel_stays_closed[OF this] this show ?thesis by simp
qed

end
