(* ===== verification/Channel.thy ===== *)
theory Channel
  imports Transport_Props
begin

text \<open>
  The channel that a session runs on: \<open>NoiseChannel\<close> of \<open>crates/copypaste-p2p/src/node/channel.rs\<close>,
  the codec on top of the established transport. The callback of \<open>on_transfer\<close> is the count of its
  calls. The read deadline is an input of \<open>channel_recv\<close>: \<open>Some d\<close> when it passes after \<open>d\<close> records of
  an unfinished message, which the session has then read and dropped.
\<close>

section \<open>Operations\<close>

record noise_channel =
  nc_session :: transport
  nc_on_transfer :: bool
  nc_transfers :: nat

definition noise_channel_new :: "transport \<Rightarrow> noise_channel" where
  "noise_channel_new s = \<lparr>nc_session = s, nc_on_transfer = False, nc_transfers = 0\<rparr>"

definition on_transfer :: "noise_channel \<Rightarrow> noise_channel" where
  "on_transfer ch = ch\<lparr>nc_on_transfer := True\<rparr>"

definition observe_transfer :: "sync_message \<Rightarrow> noise_channel \<Rightarrow> noise_channel" where
  "observe_transfer m ch =
     (case m of
        Items items \<Rightarrow>
          if items \<noteq> [] \<and> nc_on_transfer ch then ch\<lparr>nc_transfers := Suc (nc_transfers ch)\<rparr> else ch
      | _ \<Rightarrow> ch)"

fun channel_error :: "transport_error \<Rightarrow> sync_error" where
  "channel_error (TransportIo _) = Diagnostic ConnectionLost"
| "channel_error Handshake = Diagnostic ConnectionLost"
| "channel_error Malformed = Diagnostic SecureChannelInterrupted"
| "channel_error TransportCodec = Diagnostic SecureChannelInterrupted"
| "channel_error InvalidCode = Diagnostic SecureChannelInterrupted"
| "channel_error TooLarge = Diagnostic ProtocolLimit"

definition over_session ::
  "(transport \<Rightarrow> (transport_error + unit) \<times> transport) \<Rightarrow> noise_channel \<Rightarrow> (sync_error + unit) \<times> noise_channel" where
  "over_session f ch =
     (case f (nc_session ch) of
        (Inl e, s) \<Rightarrow> (Inl (channel_error e), ch\<lparr>nc_session := s\<rparr>)
      | (Inr u, s) \<Rightarrow> (Inr u, ch\<lparr>nc_session := s\<rparr>))"

definition channel_send ::
  "wire \<Rightarrow> noise_ops \<Rightarrow> sync_message \<Rightarrow> noise_channel \<Rightarrow> (sync_error + unit) \<times> noise_channel" where
  "channel_send w nz m ch =
     (case items_frame_of w m of
        Some (Inl e) \<Rightarrow> (Inl (Protocol e), ch)
      | Some (Inr frame) \<Rightarrow>
          let ch = observe_transfer m ch in over_session (send_parts nz (frame_parts frame)) ch
      | None \<Rightarrow>
          (case encode w m of
             Inl e \<Rightarrow> (Inl (Protocol e), ch)
           | Inr encoded \<Rightarrow>
               let ch = observe_transfer m ch in over_session (send_bytes nz encoded) ch))"

definition channel_recv ::
  "wire \<Rightarrow> noise_ops \<Rightarrow> nat option \<Rightarrow> noise_channel \<Rightarrow> (sync_error + sync_message) \<times> noise_channel" where
  "channel_recv w nz late ch =
     (let s = nc_session ch in
      case late of
        Some d \<Rightarrow>
          (Inl (Diagnostic TimedOut), ch\<lparr>nc_session := s\<lparr>ts_in := drop d (ts_in s), ts_opened := ts_opened s + d\<rparr>\<rparr>)
      | None \<Rightarrow>
          (case recv_bytes_sized nz announced_len s of
             (Inr None, s) \<Rightarrow> (Inl (Diagnostic ConnectionLost), ch\<lparr>nc_session := s\<rparr>)
           | (Inr (Some raw), s) \<Rightarrow>
               let ch = ch\<lparr>nc_session := s\<rparr> in
               (case decode_owned w (re_capacity raw) (re_bytes raw) of
                  Inl e \<Rightarrow> (Inl (Protocol e), ch)
                | Inr m \<Rightarrow> (Inr m, observe_transfer m ch))
           | (Inl e, s) \<Rightarrow> (Inl (channel_error e), ch\<lparr>nc_session := s\<rparr>)))"

text \<open>What a session sees of the channel: the answers of \<open>recv\<close> up to its first failure.\<close>

fun answers :: "wire \<Rightarrow> noise_ops \<Rightarrow> nat option list \<Rightarrow> noise_channel \<Rightarrow> (sync_error + sync_message) list" where
  "answers w nz [] ch = []"
| "answers w nz (late # lates) ch =
     (case channel_recv w nz late ch of
        (Inl e, ch) \<Rightarrow> [Inl e]
      | (Inr m, ch) \<Rightarrow> Inr m # answers w nz lates ch)"

section \<open>Lemmas\<close>

lemma nc_session_observe [simp]: "nc_session (observe_transfer m ch) = nc_session ch"
  by (simp add: observe_transfer_def split: sync_message.split)

text \<open>
  Whether or not the payloads of a batch go to the wire from where they are, sending a message
  writes exactly its encoding.
\<close>

lemma channel_send_eq:
  "channel_send w nz m ch =
     (case encode w m of
        Inl e \<Rightarrow> (Inl (Protocol e), ch)
      | Inr b \<Rightarrow> over_session (send_bytes nz b) (observe_transfer m ch))"
proof (cases "items_frame_of w m")
  case (Some r)
  then obtain items where m: "m = Items items" by (auto simp: items_frame_of_def split: sync_message.splits)
  then have r: "r = res_bind (validate w m) (\<lambda>_. items_frame_new w items)" using Some by (simp add: items_frame_of_def)
  have enc: "encode w m = res_bind r (\<lambda>f. Inr (frame_to_vec f))"
    unfolding r encode_def by (cases "validate w m") (simp_all add: m del: validate.simps)
  show ?thesis
  proof (cases r)
    case (Inl e)
    then have "encode w m = Inl e" using enc by simp
    then show ?thesis by (simp add: channel_send_def Some Inl)
  next
    case (Inr f)
    then have "encode w m = Inr (frame_to_vec f)" using enc by simp
    moreover have "send_parts nz (frame_parts f) = send_bytes nz (frame_to_vec f)"
      by (rule ext) (simp add: send_parts_eq frame_to_vec_def)
    ultimately show ?thesis by (simp add: channel_send_def Some Inr Let_def)
  qed
qed (simp add: channel_send_def Let_def split: sum.split)

text \<open>A message the codec can carry: it encodes, and the JSON layer reads back what it wrote.\<close>

definition carries :: "wire \<Rightarrow> sync_message \<Rightarrow> bytes \<Rightarrow> bool" where
  "carries w m b \<longleftrightarrow> encode w m = Inr b \<and> json_laws w m \<and> header_laws w m
     \<and> (\<forall>items. m = Items items \<longrightarrow> (\<forall>i \<in> set items. utf8_valid (i_content i)))"

lemma carries_decodes: "carries w m b \<Longrightarrow> decode_owned w capacity b = Inr m \<and> length b \<le> max_message_bytes"
  using encoded_decodes[of w m b capacity] by (auto simp: carries_def)

lemma recv_SomeD:
  assumes "authentic nz R" and "drop (ts_opened s) R = concat (map records bs)"
    and "recv_bytes_sized nz ann s = (Inr (Some raw), s')"
  shows "\<exists>b bs'. bs = b # bs' \<and> re_bytes raw = b \<and> drop (ts_opened s') R = concat (map records bs')"
proof -
  have loop: "recv_loop nz ann (ts_in s) False reassembly_new s = (Inr (Some raw), s')"
    using assms(3) by (simp add: recv_bytes_sized_def split: if_splits)
  show ?thesis
  proof (cases bs)
    case Nil
    with assms(2) recv_exhausted[OF assms(1), of s ann "ts_in s"] loop show ?thesis by simp
  next
    case (Cons b bs')
    with assms(2) have "drop (ts_opened s) R = records b @ concat (map records bs')" by simp
    from recv_authentic[OF assms(1) this reassembly_new_fits(1) loop] Cons show ?thesis by simp
  qed
qed

lemma answers_prefix:
  assumes "authentic nz R" and "drop (ts_opened (nc_session ch)) R = concat (map records bs)"
    and "list_all2 (carries w) ms bs"
  shows "\<exists>got rest fail. ms = got @ rest \<and> answers w nz lates ch = map Inr got @ fail \<and> length fail \<le> 1 \<and> (\<forall>x \<in> set fail. isl x)"
  using assms(2,3)
proof (induction lates arbitrary: ch bs ms)
  case (Cons late lates)
  show ?case
  proof (cases "channel_recv w nz late ch")
    case (Pair r ch')
    show ?thesis
    proof (cases r)
      case (Inl e)
      then show ?thesis by (intro exI[of _ "[]"] exI[of _ ms] exI[of _ "[Inl e]"]) (simp add: Pair)
    next
      case (Inr m)
      with Pair obtain raw s' where got: "recv_bytes_sized nz announced_len (nc_session ch) = (Inr (Some raw), s')"
        "decode_owned w (re_capacity raw) (re_bytes raw) = Inr m" "nc_session ch' = s'"
        by (auto simp: channel_recv_def Let_def split: option.splits prod.splits sum.splits)
      from recv_SomeD[OF assms(1) Cons.prems(1) got(1)] obtain b bs' where
        b: "bs = b # bs'" "re_bytes raw = b" "drop (ts_opened s') R = concat (map records bs')" by blast
      with Cons.prems(2) obtain m0 ms' where ms: "ms = m0 # ms'" "carries w m0 b" "list_all2 (carries w) ms' bs'"
        by (auto simp: list_all2_Cons2)
      with carries_decodes[OF ms(2)] got(2) b(2) have "m0 = m" by simp
      with Cons.IH[of ch' bs' ms'] b(3) got(3) ms obtain got rest fail where
        "ms' = got @ rest" "answers w nz lates ch' = map Inr got @ fail" "length fail \<le> 1" "\<forall>x \<in> set fail. isl x"
        by blast
      then show ?thesis using Pair Inr ms(1) \<open>m0 = m\<close>
        by (intro exI[of _ "m # got"] exI[of _ rest] exI[of _ fail]) simp
    qed
  qed
qed simp

lemma demo_carries: "\<exists>b. carries (demo_wire c) (Items [demo_item]) b"
  using demo_encodes[of c] demo_wire_laws[of c] by (auto simp: carries_def demo_item_def in_range_def)

section \<open>Properties\<close>

text \<open>
  C27: a session only ever sees what its peer said. Against an attacker who owns the network,
  whatever frames arrive and whenever deadlines pass, the answers of the channel up to its first
  failure are the first messages the peer sent, whole, in order and decoded as they were, and
  then at most one failure.
\<close>

theorem session_sees_what_the_peer_sent:
  assumes "authentic nz (concat (map records bs))" and "ts_opened (nc_session ch) = 0"
    and "list_all2 (carries w) ms bs"
  shows "\<exists>got rest fail. ms = got @ rest \<and> answers w nz lates ch = map Inr got @ fail
    \<and> length fail \<le> 1 \<and> list_all isl fail"
  using answers_prefix[OF assms(1) _ assms(3), of ch lates] assms(2) by (simp add: list_all_iff)

text \<open>The peer has sealed one batch; its frame arrives, and then a forged one.\<close>

lemma demo_encoded_short: "encode (demo_wire c) (Items [demo_item]) = Inr b \<Longrightarrow> length b \<le> 100"
proof -
  assume b: "encode (demo_wire c) (Items [demo_item]) = Inr b"
  have "frame_table [demo_item] [] [] 0 = Inr ([(2, False)], [''hi''], 2)"
    by (simp add: payload_def demo_item_def u32_max_def usize_saturating_add_def usize_max_def)
  with b show ?thesis
    by (cases "validate (demo_wire c) (Items [demo_item])")
      (auto simp: encode_def items_frame_new_def json_len_def demo_wire_def Let_def usize_saturating_add_def usize_max_def
        prefix_bytes_def max_message_bytes_def frame_to_vec_def frame_parts_def items_magic_def
        simp del: validate.simps split: if_splits)
qed

definition demo_arrival :: "bytes \<Rightarrow> noise_channel" where
  "demo_arrival b = noise_channel_new
     (new_transport [Inr ((record_final # b) @ replicate noise_tag_len CHR 0x00), Inr (''junk'' @ replicate noise_tag_len CHR 0x00)] (\<lambda>_. None) [])"

lemma demo_first_answer:
  assumes b: "carries w m b" and short: "length b \<le> 100"
  shows "\<exists>ch. channel_recv w (demo_peer (records b)) None (demo_arrival b) = (Inr m, ch)"
proof -
  let ?s = "nc_session (demo_arrival b)" and ?frame = "(record_final # b) @ replicate noise_tag_len CHR 0x00"
  have rec: "records b = [record_final # b]" using short by (simp add: records_cases record_limit_defs)
  have s: "ts_opened ?s = 0" "\<not> ts_poisoned ?s" "message_limit ?s = max_session_message_bytes"
    "ts_in ?s = [Inr ?frame, Inr (''junk'' @ replicate noise_tag_len CHR 0x00)]"
    by (simp_all add: demo_arrival_def noise_channel_new_def new_transport_def message_limit_def)
  have "nz_open (demo_peer (records b)) (ts_opened ?s) ?frame = Some (record_final # b)"
    by (simp add: demo_peer_def rec s(1))
  from recv_frame_step[OF this reassembly_new_fits(1), of announced_len "[Inr (''junk'' @ replicate noise_tag_len CHR 0x00)]" False]
  obtain msg s' where "recv_loop (demo_peer (records b)) announced_len (ts_in ?s) False reassembly_new ?s = (Inr (Some msg), s')" "re_bytes msg = b"
    using short s by (auto simp: record_limit_defs max_session_message_bytes_def)
  then have "recv_bytes_sized (demo_peer (records b)) announced_len ?s = (Inr (Some msg), s')" "re_bytes msg = b"
    using s(2) by (simp_all add: recv_bytes_sized_def)
  with carries_decodes[OF b] show ?thesis by (simp add: channel_recv_def Let_def)
qed

theorem session_sees_what_the_peer_sent_witness:
  "\<exists>w b e. carries w (Items [demo_item]) b \<and> authentic (demo_peer (records b)) (records b)
     \<and> answers w (demo_peer (records b)) [None, None] (demo_arrival b) = [Inr (Items [demo_item]), Inl e]"
proof -
  obtain c :: crypto where "True" by blast
  from demo_carries[of c] obtain b where b: "carries (demo_wire c) (Items [demo_item]) b" by blast
  then have short: "length b \<le> 100" using demo_encoded_short by (auto simp: carries_def)
  let ?all = "answers (demo_wire c) (demo_peer (records b)) [None, None] (demo_arrival b)"
  from demo_first_answer[OF b short] obtain ch where
    first: "channel_recv (demo_wire c) (demo_peer (records b)) None (demo_arrival b) = (Inr (Items [demo_item]), ch)" by blast
  obtain q ch2 where "channel_recv (demo_wire c) (demo_peer (records b)) None ch = (q, ch2)" by fastforce
  then obtain x where all: "?all = [Inr (Items [demo_item]), x]" using first by (cases q) simp_all
  have opened: "ts_opened (nc_session (demo_arrival b)) = 0" by (simp add: demo_arrival_def noise_channel_new_def new_transport_def)
  have authentic: "authentic (demo_peer (records b)) (concat (map records [b]))" using demo_peer_authentic by simp
  have "list_all2 (carries (demo_wire c)) [Items [demo_item]] [b]" using b by simp
  from session_sees_what_the_peer_sent[OF authentic opened this, of "[None, None]"] obtain got rest fail where
    got: "[Items [demo_item]] = got @ rest" "?all = map Inr got @ fail" "list_all isl fail" by blast
  then have "\<exists>e. x = Inl e" using all by (cases got; cases fail) (auto simp: isl_def)
  with all b demo_peer_authentic show ?thesis by blast
qed

text \<open>
  C28: a message that encodes is delivered. On channels that are not restricted no further bound
  is needed: whatever the codec encodes fits the transport, is written, and the other end returns
  the same message.
\<close>

theorem channel_delivers:
  assumes "noise_ok nz" and "\<forall>k. ts_fault (nc_session a) k = None"
    and "\<not> ts_poisoned (nc_session a)" and "\<not> ts_poisoned (nc_session b)"
    and "message_limit (nc_session a) = max_session_message_bytes" and "message_limit (nc_session b) = max_session_message_bytes"
    and "carries w m octets" and "ts_opened (nc_session b) = ts_sealed (nc_session a)"
    and "ts_sealed (nc_session a) + length (records octets) \<le> nonces"
    and "ts_in (nc_session b) =
      map Inr (drop (length (ts_out (nc_session a))) (ts_out (nc_session (snd (channel_send w nz m a))))) @ rest"
  shows "fst (channel_send w nz m a) = Inr () \<and> fst (channel_recv w nz None b) = Inr m"
proof -
  have enc: "encode w m = Inr octets" using assms(7) by (simp add: carries_def)
  have "length octets \<le> max_session_message_bytes"
    using carries_decodes[OF assms(7)] by (simp add: max_message_bytes_def max_session_message_bytes_def)
  note fit = this[folded assms(5)] this[folded assms(6)]
  have snd_eq: "nc_session (snd (channel_send w nz m a)) = snd (send_bytes nz octets (nc_session a))"
    by (simp add: channel_send_eq enc over_session_def split: prod.split sum.split)
  from delivery[OF assms(1-4) fit assms(8,9) assms(10)[unfolded snd_eq], of announced_len]
  obtain msg s' where "fst (send_bytes nz octets (nc_session a)) = Inr ()" "re_bytes msg = octets"
    "recv_bytes_sized nz announced_len (nc_session b) = (Inr (Some msg), s')" by blast
  with carries_decodes[OF assms(7)] show ?thesis
    by (auto simp: channel_send_eq enc over_session_def channel_recv_def Let_def split: prod.split sum.split)
qed

theorem channel_delivers_witness:
  "\<exists>w a. fst (channel_send w demo_noise (Items [demo_item]) a) = Inr ()
     \<and> fst (channel_recv w demo_noise None (noise_channel_new
         (new_transport (map Inr (ts_out (nc_session (snd (channel_send w demo_noise (Items [demo_item]) a))))) (\<lambda>_. None) [])))
       = Inr (Items [demo_item])"
proof -
  obtain c :: crypto where "True" by blast
  from demo_carries[of c] obtain b where b: "carries (demo_wire c) (Items [demo_item]) b" by blast
  let ?a = "noise_channel_new (new_transport [] (\<lambda>_. None) [])"
  let ?b = "noise_channel_new
    (new_transport (map Inr (ts_out (nc_session (snd (channel_send (demo_wire c) demo_noise (Items [demo_item]) ?a))))) (\<lambda>_. None) [])"
  have "length (records b) \<le> Suc (length b)"
    using records_length_le by blast
  then have "length (records b) \<le> nonces"
    using carries_decodes[OF b, of 0] by (simp add: nonces_def max_message_bytes_def)
  then have "fst (channel_send (demo_wire c) demo_noise (Items [demo_item]) ?a) = Inr ()
      \<and> fst (channel_recv (demo_wire c) demo_noise None ?b) = Inr (Items [demo_item])"
    by (intro channel_delivers[OF demo_noise_ok _ _ _ _ _ b, where rest = "[]"])
       (simp_all add: noise_channel_new_def new_transport_def message_limit_def)
  then show ?thesis by blast
qed

end
