(* ===== verification/Discovery_Names.thy ===== *)
theory Discovery_Names
  imports Peers_Base
begin

text \<open>
  Names on the way to and from the local network: \<open>crates/copypaste-p2p/src/discovery/names.rs\<close>,
  over a model of what it uses of \<open>str\<close>. A string is its UTF-8 octets; \<open>chars\<close> splits it into the
  octets of its characters, and \<open>code_point\<close> reads one.
\<close>

section \<open>Characters\<close>

definition is_continuation :: "byte \<Rightarrow> bool" where
  "is_continuation b \<longleftrightarrow> in_range b 128 191"

definition char_len :: "byte \<Rightarrow> nat" where
  "char_len b = (if in_range b 0 193 then 1 else if in_range b 194 223 then 2 else if in_range b 224 239 then 3 else 4)"

function chars :: "string \<Rightarrow> string list" where
  "chars [] = []"
| "chars (b # bs) = (b # take (char_len b - 1) bs) # chars (drop (char_len b - 1) bs)"
  by pat_completeness auto
termination
  by (relation "measure length") auto

fun code_point :: "string \<Rightarrow> nat" where
  "code_point [a] = of_char a"
| "code_point [a, b] = (of_char a - 192) * 64 + (of_char b - 128)"
| "code_point [a, b, c] = (of_char a - 224) * 4096 + (of_char b - 128) * 64 + (of_char c - 128)"
| "code_point [a, b, c, d] =
     (of_char a - 240) * 262144 + (of_char b - 128) * 4096 + (of_char c - 128) * 64 + (of_char d - 128)"
| "code_point _ = 0"

text \<open>\<open>char::is_control\<close> and \<open>char::is_whitespace\<close> (the Unicode property \<open>White_Space\<close>).\<close>

definition is_control :: "string \<Rightarrow> bool" where
  "is_control c \<longleftrightarrow> code_point c \<le> 31 \<or> 127 \<le> code_point c \<and> code_point c \<le> 159"

definition is_whitespace :: "string \<Rightarrow> bool" where
  "is_whitespace c \<longleftrightarrow> (let p = code_point c in
     9 \<le> p \<and> p \<le> 13 \<or> p \<in> {32, 133, 160, 5760, 8232, 8233, 8239, 8287, 12288} \<or> 8192 \<le> p \<and> p \<le> 8202)"

text \<open>\<open>trim\<close> and \<open>trim_matches\<close>: the ends that the predicate accepts are dropped.\<close>

definition trim_list :: "('a \<Rightarrow> bool) \<Rightarrow> 'a list \<Rightarrow> 'a list" where
  "trim_list P xs = rev (dropWhile P (rev (dropWhile P xs)))"

definition trim :: "string \<Rightarrow> string" where
  "trim s = concat (trim_list is_whitespace (chars s))"

text \<open>\<open>str::is_char_boundary\<close>.\<close>

definition is_char_boundary :: "string \<Rightarrow> nat \<Rightarrow> bool" where
  "is_char_boundary s k \<longleftrightarrow> k = 0 \<or> k = length s \<or> k < length s \<and> \<not> is_continuation (s ! k)"

section \<open>Operations\<close>

definition max_name_len :: nat where "max_name_len = 128"
definition max_label_len :: nat where "max_label_len = 63"

fun boundary_before :: "string \<Rightarrow> nat \<Rightarrow> nat" where
  "boundary_before s 0 = 0"
| "boundary_before s (Suc k) = (if \<not> is_char_boundary s (Suc k) then boundary_before s k else Suc k)"

definition truncate_bytes :: "string \<Rightarrow> nat \<Rightarrow> string" where
  "truncate_bytes s mx = (if length s \<le> mx then s else take (boundary_before s mx) s)"

definition strip_controls :: "string \<Rightarrow> string" where
  "strip_controls s = concat (filter (\<lambda>c. \<not> is_control c) (chars s))"

definition non_empty :: "string \<Rightarrow> string option" where
  "non_empty s = (if s \<noteq> [] then Some s else None)"

definition sanitise_display_name :: "string \<Rightarrow> string option" where
  "sanitise_display_name name =
     (let cleaned = strip_controls name;
          cleaned = trim (truncate_bytes (trim cleaned) max_name_len)
      in non_empty cleaned)"

definition instance_char :: "string \<Rightarrow> string" where
  "instance_char c = (if c = ''.'' \<or> c = [CHR 0x5C] then ''-'' else c)"

definition sanitise_instance :: "string \<Rightarrow> string option" where
  "sanitise_instance name =
     (let cleaned = concat (map instance_char (chars (strip_controls name)));
          cleaned = trim (truncate_bytes (trim cleaned) max_label_len)
      in non_empty cleaned)"

definition to_ascii_lowercase :: "byte \<Rightarrow> byte" where
  "to_ascii_lowercase b = (if in_range b 65 90 then char_of (of_char b + 32 :: nat) else b)"

definition host_char :: "string \<Rightarrow> string" where
  "host_char c =
     (case c of
        [b] \<Rightarrow> if is_ascii_alphanumeric b then [to_ascii_lowercase b] else ''-''
      | _ \<Rightarrow> ''-'')"

definition sanitise_host_label :: "string \<Rightarrow> string option" where
  "sanitise_host_label name =
     (let mapped = concat (map host_char (chars name));
          trimmed = trim_list (\<lambda>b. b = CHR ''-'') (truncate_bytes mapped max_label_len)
      in non_empty trimmed)"

definition service_type :: string where "service_type = ''_copypaste._tcp.local.''"

definition strip_suffix :: "string \<Rightarrow> string \<Rightarrow> string option" where
  "strip_suffix s suffix =
     (if length suffix \<le> length s \<and> drop (length s - length suffix) s = suffix
      then Some (take (length s - length suffix) s) else None)"

definition instance_of :: "string \<Rightarrow> string option" where
  "instance_of fullname =
     (case strip_suffix fullname service_type of
        None \<Rightarrow> None
      | Some s \<Rightarrow> (case strip_suffix s ''.'' of None \<Rightarrow> None | Some inst \<Rightarrow> non_empty inst))"

section \<open>Splitting into characters\<close>

definition wf_char :: "string \<Rightarrow> bool" where
  "wf_char c \<longleftrightarrow> c \<noteq> [] \<and> length c = char_len (hd c) \<and> \<not> is_continuation (hd c) \<and> list_all is_continuation (tl c)"

definition wf_string :: "string \<Rightarrow> bool" where
  "wf_string s \<longleftrightarrow> list_all wf_char (chars s)"

lemma concat_chars [simp]: "concat (chars s) = s"
  by (induction s rule: chars.induct) auto

lemma chars_concat [simp]: "list_all wf_char cs \<Longrightarrow> chars (concat cs) = cs"
proof (induction cs)
  case (Cons c cs)
  then obtain b bs where c: "c = b # bs" "length bs = char_len b - 1" by (cases c) (auto simp: wf_char_def)
  with Cons show ?case by simp
qed simp

lemma wf_string_append: "wf_char c \<Longrightarrow> wf_string s \<Longrightarrow> wf_string (c @ s)"
  using chars_concat[of "c # chars s"] by (simp add: wf_string_def)

lemma wf_char_intros:
  "in_range b0 0 127 \<Longrightarrow> wf_char [b0]"
  "in_range b0 194 223 \<Longrightarrow> in_range b1 128 191 \<Longrightarrow> wf_char [b0, b1]"
  "in_range b0 224 239 \<Longrightarrow> in_range b1 128 191 \<Longrightarrow> in_range b2 128 191 \<Longrightarrow> wf_char [b0, b1, b2]"
  "in_range b0 240 244 \<Longrightarrow> in_range b1 128 191 \<Longrightarrow> in_range b2 128 191 \<Longrightarrow> in_range b3 128 191
     \<Longrightarrow> wf_char [b0, b1, b2, b3]"
  by (simp_all add: wf_char_def char_len_def is_continuation_def in_range_def)

lemma in_range_mono: "in_range b lo hi \<Longrightarrow> lo' \<le> lo \<Longrightarrow> hi \<le> hi' \<Longrightarrow> in_range b lo' hi'"
  by (simp add: in_range_def)

lemma utf8_valid_wf: "utf8_valid s \<Longrightarrow> wf_string s"
proof (induction s rule: utf8_valid.induct)
  case (2 b0 r0)
  consider "in_range b0 0 127"
    | b1 r1 where "\<not> in_range b0 0 127" "r0 = b1 # r1" "in_range b0 194 223"
    | b1 b2 r2 where "\<not> in_range b0 0 127" "\<not> in_range b0 194 223" "r0 = b1 # b2 # r2" "in_range b0 224 239"
    | b1 b2 b3 r3 where "\<not> in_range b0 0 127" "\<not> in_range b0 194 223" "\<not> in_range b0 224 239" "r0 = b1 # b2 # b3 # r3"
    using 2(5) by (subst (asm) utf8_valid.simps(2)) (auto simp del: utf8_valid.simps split: if_splits list.splits)
  then show ?case
  proof cases
    case 1
    with "2.prems" "2.IH"(1) wf_string_append[of "[b0]" r0] show ?thesis by (simp add: wf_char_intros)
  next
    case 2: 2
    with "2.prems" "2.IH"(2) wf_string_append[of "[b0, b1]" r1] show ?thesis by (simp add: wf_char_intros)
  next
    case 3
    with "2.prems" have ok: "in_range b1 128 191" "in_range b2 128 191" "utf8_valid r2"
      by (auto elim!: in_range_mono split: if_splits)
    with 3 "2.IH"(3) wf_string_append[of "[b0, b1, b2]" r2] show ?thesis by (simp add: wf_char_intros)
  next
    case 4
    with "2.prems" have ok: "in_range b0 240 244" "in_range b1 128 191" "in_range b2 128 191" "in_range b3 128 191" "utf8_valid r3"
      by (auto elim!: in_range_mono split: if_splits)
    with 4 "2.IH"(4) wf_string_append[of "[b0, b1, b2, b3]" r3] show ?thesis by (simp add: wf_char_intros)
  qed
qed (simp add: wf_string_def)

lemma trim_list_subset: "set (trim_list P xs) \<subseteq> set xs"
  by (auto simp: trim_list_def dest!: set_dropWhileD)

lemma trim_list_idem: "trim_list P (trim_list P xs) = trim_list P xs"
proof -
  define ys where "ys = dropWhile P xs"
  define zs where "zs = rev (dropWhile P (rev ys))"
  have "\<exists>ts. ys = zs @ ts"
    unfolding zs_def by (metis rev_append rev_rev_ident takeWhile_dropWhile_id)
  then obtain ts where ts: "ys = zs @ ts" by blast
  have "dropWhile P zs = zs"
  proof (cases zs)
    case (Cons z zs')
    with ts have "dropWhile P xs = z # zs' @ ts" by (simp add: ys_def)
    then have "\<not> P z" by (simp add: dropWhile_eq_Cons_conv)
    with Cons show ?thesis by simp
  qed simp
  then show ?thesis by (simp add: trim_list_def zs_def ys_def)
qed

section \<open>Cutting and trimming\<close>

lemma boundary_prefix:
  "list_all wf_char cs \<Longrightarrow> is_char_boundary (concat cs) k \<Longrightarrow> \<exists>j. k = length (concat (take j cs))"
proof (induction cs arbitrary: k)
  case (Cons c cs)
  consider "k = 0" | "0 < k" "k < length c" | "length c \<le> k" by linarith
  then show ?case
  proof cases
    case 1
    then show ?thesis by (intro exI[of _ 0]) simp
  next
    case 2
    have "is_continuation ((c @ concat cs) ! k)"
      using Cons.prems(1) 2 by (cases c) (auto simp: wf_char_def nth_append list_all_length nth_Cons')
    with Cons.prems(2) 2 show ?thesis by (auto simp: is_char_boundary_def)
  next
    case 3
    with Cons.prems(2) have "is_char_boundary (concat cs) (k - length c)"
      by (auto simp: is_char_boundary_def nth_append)
    with Cons obtain j where "k - length c = length (concat (take j cs))" by auto
    with 3 show ?thesis by (intro exI[of _ "Suc j"]) simp
  qed
qed (auto simp: is_char_boundary_def)

lemma boundary_before_ok: "boundary_before s k \<le> k \<and> is_char_boundary s (boundary_before s k)"
  by (induction k) (auto simp: is_char_boundary_def)

lemma take_concat_prefix: "take (length (concat (take j cs))) (concat cs) = concat (take j cs)"
  by (metis append_eq_conv_conj append_take_drop_id concat_append)

lemma truncate_prefix:
  assumes "list_all wf_char cs"
  shows "\<exists>j. truncate_bytes (concat cs) mx = concat (take j cs) \<and> length (concat (take j cs)) \<le> mx"
proof (cases "length (concat cs) \<le> mx")
  case True
  then show ?thesis by (intro exI[of _ "length cs"]) (simp add: truncate_bytes_def)
next
  case False
  obtain j where "boundary_before (concat cs) mx = length (concat (take j cs))"
    using boundary_prefix[OF assms] boundary_before_ok by blast
  moreover have "boundary_before (concat cs) mx \<le> mx" using boundary_before_ok by blast
  ultimately show ?thesis using False take_concat_prefix[of j cs]
    by (intro exI[of _ j]) (simp add: truncate_bytes_def)
qed

lemma trim_concat [simp]: "list_all wf_char cs \<Longrightarrow> trim (concat cs) = concat (trim_list is_whitespace cs)"
  by (simp add: trim_def)

lemma list_all_trim [simp]: "list_all P xs \<Longrightarrow> list_all P (trim_list Q xs)"
  using trim_list_subset[of Q xs] by (auto simp: list_all_iff)

lemma list_all_take [simp]: "list_all P xs \<Longrightarrow> list_all P (take j xs)"
  by (auto simp: list_all_iff dest: in_set_takeD)

lemma length_trim_le: "length (concat (trim_list P cs)) \<le> length (concat cs)"
proof -
  have dw: "length (concat (dropWhile P xs)) \<le> length (concat xs)" for xs :: "'a list list"
    by (induction xs) auto
  have rv: "length (concat (rev xs)) = length (concat xs)" for xs :: "'a list list"
    by (induction xs) auto
  show ?thesis
    unfolding trim_list_def using dw[of "rev (dropWhile P cs)"] dw[of cs] by (simp add: rv)
qed

text \<open>What trimming, cutting and trimming again leaves of a list of characters.\<close>

definition clean :: "string list \<Rightarrow> bool" where
  "clean cs \<longleftrightarrow> list_all wf_char cs \<and> trim_list is_whitespace cs = cs"

lemma cleaned:
  assumes "list_all wf_char cs"
  shows "\<exists>ds. trim (truncate_bytes (trim (concat cs)) mx) = concat ds \<and> clean ds
    \<and> set ds \<subseteq> set cs \<and> length (concat ds) \<le> mx"
proof -
  let ?ts = "trim_list is_whitespace cs"
  have wf: "list_all wf_char ?ts" using assms by simp
  then obtain j where j: "truncate_bytes (concat ?ts) mx = concat (take j ?ts)" "length (concat (take j ?ts)) \<le> mx"
    using truncate_prefix by blast
  let ?ds = "trim_list is_whitespace (take j ?ts)"
  have "trim (truncate_bytes (trim (concat cs)) mx) = concat ?ds" using assms wf j(1) by simp
  moreover have "clean ?ds" using wf by (simp add: clean_def trim_list_idem)
  moreover have "set ?ds \<subseteq> set cs"
    using trim_list_subset[of is_whitespace "take j ?ts"] trim_list_subset[of is_whitespace cs] set_take_subset[of j ?ts] by blast
  moreover have "length (concat ?ds) \<le> mx" using j(2) length_trim_le[of is_whitespace "take j ?ts"] by linarith
  ultimately show ?thesis by blast
qed

lemma clean_again: "clean cs \<Longrightarrow> length (concat cs) \<le> mx \<Longrightarrow> trim (truncate_bytes (trim (concat cs)) mx) = concat cs"
  by (simp add: clean_def truncate_bytes_def)

section \<open>Names from outside\<close>

text \<open>What may be shown of a name that came from the network.\<close>

definition shown :: "string \<Rightarrow> bool" where
  "shown s \<longleftrightarrow> s \<noteq> [] \<and> length s \<le> max_name_len \<and> clean (chars s) \<and> list_all (\<lambda>c. \<not> is_control c) (chars s)"

lemma sanitised_shown:
  assumes "wf_string name" and "sanitise_display_name name = Some s"
  shows "shown s"
proof -
  let ?cs = "filter (\<lambda>c. \<not> is_control c) (chars name)"
  have "list_all wf_char ?cs" using assms(1) by (auto simp: wf_string_def list_all_iff)
  from cleaned[OF this, of max_name_len] obtain ds where
    ds: "trim (truncate_bytes (trim (strip_controls name)) max_name_len) = concat ds" "clean ds" "set ds \<subseteq> set ?cs"
      "length (concat ds) \<le> max_name_len" unfolding strip_controls_def by blast
  moreover have "chars (concat ds) = ds" using ds(2) by (simp add: clean_def)
  moreover have "list_all (\<lambda>c. \<not> is_control c) ds" using ds(3) by (auto simp: list_all_iff)
  ultimately show ?thesis
    using assms(2) by (auto simp: sanitise_display_name_def non_empty_def Let_def shown_def split: if_splits)
qed

lemma shown_stays: "shown s \<Longrightarrow> sanitise_display_name s = Some s"
proof -
  assume s: "shown s"
  then have "filter (\<lambda>c. \<not> is_control c) (chars s) = chars s" by (auto simp: shown_def list_all_iff)
  then have "strip_controls s = s" by (simp add: strip_controls_def)
  with s clean_again[of "chars s" max_name_len] show ?thesis
    by (simp add: sanitise_display_name_def Let_def shown_def non_empty_def)
qed

lemma shown_wf: "shown s \<Longrightarrow> wf_string s"
  by (simp add: shown_def clean_def wf_string_def)

end
