(* ===== verification/Discovery_Record.thy ===== *)
theory Discovery_Record
  imports Discovery_Names "HOL-Library.Product_Lexorder"
begin

text \<open>
  What a device says of itself on the local network and what it believes of others:
  \<open>crates/copypaste-p2p/src/discovery/record.rs\<close>, with the names of platforms and classes from
  \<open>copypaste-ipc\<close>. The profile of this device, the digest and its hexadecimal form are arguments.
\<close>

section \<open>Writing a record\<close>

datatype discovery_error = InvalidDeviceName | InvalidPairingId | Mdns string

type_synonym txt_map = "(string, string) fmap"

definition txt_version :: string where "txt_version = ''1''"
definition max_pairing_ids_per_peer :: nat where "max_pairing_ids_per_peer = 16"
definition max_advertised_pairing_ids :: nat where "max_advertised_pairing_ids = 16"

fun platform_name :: "device_platform \<Rightarrow> string" where
  "platform_name Macos = ''macos''"
| "platform_name Windows = ''windows''"
| "platform_name Android = ''android''"
| "platform_name UnknownPlatform = ''unknown''"
| "platform_name Linux = ''linux''"

definition platform_of_name :: "string \<Rightarrow> device_platform" where
  "platform_of_name s =
     (if s = ''macos'' then Macos else if s = ''windows'' then Windows else if s = ''android'' then Android
      else if s = ''linux'' then Linux else UnknownPlatform)"

fun class_name :: "device_class \<Rightarrow> string" where
  "class_name Desktop = ''desktop''"
| "class_name Laptop = ''laptop''"
| "class_name Phone = ''phone''"
| "class_name Tablet = ''tablet''"
| "class_name UnknownClass = ''unknown''"

definition class_of_name :: "string \<Rightarrow> device_class" where
  "class_of_name s =
     (if s = ''desktop'' then Desktop else if s = ''laptop'' then Laptop else if s = ''phone'' then Phone
      else if s = ''tablet'' then Tablet else UnknownClass)"

definition insert_some :: "string \<Rightarrow> string option \<Rightarrow> txt_map \<Rightarrow> txt_map" where
  "insert_some key v t = (case v of None \<Rightarrow> t | Some s \<Rightarrow> fmupd key s t)"

definition add_profile_properties :: "device_profile \<Rightarrow> txt_map \<Rightarrow> txt_map" where
  "add_profile_properties p t =
     (let t = insert_some ''av'' (dp_app_version p) t;
          t = insert_some ''pv'' (map_option show_nat (dp_protocol_version p)) t;
          t = fmupd ''pf'' (platform_name (dp_platform p)) t;
          t = fmupd ''dc'' (class_name (dp_device_class p)) t;
          t = insert_some ''os'' (dp_os_name p) t;
          t = insert_some ''ov'' (dp_os_version p) t
      in insert_some ''m'' (dp_model p) t)"

fun advertised_ids :: "string list \<Rightarrow> string list \<Rightarrow> discovery_error + string list" where
  "advertised_ids [] acc = Inr acc"
| "advertised_ids (i # ids) acc =
     (if \<not> is_valid_pairing_id i then Inl InvalidPairingId
      else advertised_ids ids (if i \<in> set acc then acc else acc @ [i]))"

definition pairing_key :: "nat \<Rightarrow> string" where
  "pairing_key i = CHR ''p'' # show_nat i"

fun insert_ids :: "nat \<Rightarrow> string list \<Rightarrow> txt_map \<Rightarrow> txt_map" where
  "insert_ids k [] t = t"
| "insert_ids k (i # ids) t = insert_ids (Suc k) ids (fmupd (pairing_key k) i t)"

definition is_ascii_hexdigit :: "byte \<Rightarrow> bool" where
  "is_ascii_hexdigit b \<longleftrightarrow> in_range b 48 57 \<or> in_range b 65 70 \<or> in_range b 97 102"

definition identity_tag_ok :: "string \<Rightarrow> bool" where
  "identity_tag_ok tag \<longleftrightarrow> length tag = 64 \<and> list_all is_ascii_hexdigit tag"

definition filter_tag :: "string option \<Rightarrow> string option" where
  "filter_tag tag = (case tag of None \<Rightarrow> None | Some t \<Rightarrow> if identity_tag_ok t then Some t else None)"

definition advertisement_attributes ::
  "device_profile \<Rightarrow> string \<Rightarrow> string list \<Rightarrow> string option \<Rightarrow> discovery_error + txt_map" where
  "advertisement_attributes profile device_name pairing_ids identity_tag =
     res_bind (ok_or InvalidDeviceName (sanitise_display_name device_name)) (\<lambda>display.
     res_bind (advertised_ids pairing_ids []) (\<lambda>advertised.
       let advertised = (if length advertised > max_advertised_pairing_ids
                         then take max_advertised_pairing_ids advertised else advertised);
           t = fmupd ''v'' txt_version fmempty;
           t = fmupd ''n'' display t;
           t = add_profile_properties profile t;
           t = insert_ids 0 advertised t
       in Inr (insert_some ''g'' (filter_tag identity_tag) t)))"

text \<open>
  \<open>build_service_info\<close>: the instance label, the host name, the port and the attributes given to the mDNS
  library.
\<close>

record service_info =
  si_instance :: string
  si_hostname :: string
  si_port :: nat
  si_txt :: txt_map

definition build_service_info ::
  "device_profile \<Rightarrow> string \<Rightarrow> string \<Rightarrow> string list \<Rightarrow> nat \<Rightarrow> string option \<Rightarrow> discovery_error + service_info" where
  "build_service_info profile inst device_name pairing_ids port identity_tag =
     res_bind (ok_or InvalidDeviceName (sanitise_instance inst)) (\<lambda>inst.
       let hostname = (case sanitise_host_label device_name of None \<Rightarrow> ''copypaste'' | Some h \<Rightarrow> h) @ ''.local.''
       in res_bind (advertisement_attributes profile device_name pairing_ids identity_tag) (\<lambda>t.
            Inr \<lparr>si_instance = inst, si_hostname = hostname, si_port = port, si_txt = t\<rparr>))"

section \<open>Reading a record\<close>

record advertisement =
  ad_identity_tag :: "string option"
  ad_name :: string
  ad_pairing_ids :: "string list"
  ad_profile :: "device_profile option"

definition profile_text :: "txt_map \<Rightarrow> string \<Rightarrow> string option" where
  "profile_text t key = Option.bind (fmlookup t key) sanitise_display_name"

definition parse_profile :: "txt_map \<Rightarrow> device_profile option" where
  "parse_profile t =
     (let app_version = profile_text t ''av'';
          protocol_version = Option.bind (fmlookup t ''pv'') (parse_unsigned 4294967295);
          platform = (case fmlookup t ''pf'' of None \<Rightarrow> UnknownPlatform | Some s \<Rightarrow> platform_of_name s);
          device_class = (case fmlookup t ''dc'' of None \<Rightarrow> UnknownClass | Some s \<Rightarrow> class_of_name s);
          os_name = profile_text t ''os'';
          os_version = profile_text t ''ov'';
          model = profile_text t ''m''
      in if app_version \<noteq> None \<or> protocol_version \<noteq> None \<or> platform \<noteq> UnknownPlatform
            \<or> device_class \<noteq> UnknownClass \<or> os_name \<noteq> None \<or> os_version \<noteq> None \<or> model \<noteq> None
         then Some \<lparr>dp_app_version = app_version, dp_protocol_version = protocol_version, dp_platform = platform,
                    dp_device_class = device_class, dp_os_name = os_name, dp_os_version = os_version, dp_model = model\<rparr>
         else None)"

definition indexed_id :: "string \<times> string \<Rightarrow> (nat \<times> string) option" where
  "indexed_id e =
     (case e of (key, v) \<Rightarrow>
        (case key of
           [] \<Rightarrow> None
         | c # index \<Rightarrow>
             if c = CHR ''p''
             then (case parse_unsigned usize_max index of
                     None \<Rightarrow> None | Some i \<Rightarrow> if is_valid_pairing_id v then Some (i, v) else None)
             else None))"

fun collect_ids :: "(nat \<times> string) list \<Rightarrow> string list \<Rightarrow> string list" where
  "collect_ids [] acc = acc"
| "collect_ids ((_, i) # rest) acc =
     (if length acc \<ge> max_pairing_ids_per_peer then acc
      else collect_ids rest (if i \<in> set acc then acc else acc @ [i]))"

definition parse_advertisement :: "txt_map \<Rightarrow> string \<Rightarrow> advertisement option" where
  "parse_advertisement t fallback_name =
     (if fmlookup t ''v'' \<noteq> Some txt_version then None
      else let name = (case Option.bind (fmlookup t ''n'') sanitise_display_name of
                         Some n \<Rightarrow> n
                       | None \<Rightarrow> (case sanitise_display_name fallback_name of Some n \<Rightarrow> n | None \<Rightarrow> ''unknown''));
               indexed = sort (List.map_filter indexed_id (fm_entries t))
           in Some \<lparr>ad_identity_tag = filter_tag (fmlookup t ''g''), ad_name = name,
                    ad_pairing_ids = collect_ids indexed [], ad_profile = parse_profile t\<rparr>)"

record discovered_peer =
  d_group_identity :: "string option"
  d_discovery_id :: string
  d_pairing_ids :: "string list"
  d_name :: string
  d_profile :: "device_profile option"
  d_addr :: socket_addr
  d_last_seen_ms :: int

definition discovery_id :: "(bytes \<Rightarrow> bytes) \<Rightarrow> (bytes \<Rightarrow> string) \<Rightarrow> string \<Rightarrow> string" where
  "discovery_id sha256 hex fullname = hex (take 16 (sha256 fullname))"

text \<open>\<open>did\<close> is the discovery id of a service name.\<close>

definition peer_from_record ::
  "(string \<Rightarrow> string) \<Rightarrow> string \<Rightarrow> ip_addr \<Rightarrow> nat \<Rightarrow> txt_map \<Rightarrow> int \<Rightarrow> discovered_peer option" where
  "peer_from_record did service_name host port attributes last_seen_ms =
     (case parse_advertisement attributes service_name of
        None \<Rightarrow> None
      | Some ad \<Rightarrow>
          if port \<noteq> 0
          then Some \<lparr>d_group_identity = ad_identity_tag ad, d_discovery_id = did service_name,
                     d_pairing_ids = ad_pairing_ids ad, d_name = ad_name ad, d_profile = ad_profile ad,
                     d_addr = \<lparr>sa_ip = host, sa_port = port, sa_scope = 0\<rparr>, d_last_seen_ms = last_seen_ms\<rparr>
          else None)"

record resolved_service =
  rs_fullname :: string
  rs_addresses :: "ip_addr list"
  rs_port :: nat
  rs_txt :: "(string \<times> string) list"

definition attributes_from_txt :: "(string \<times> string) list \<Rightarrow> txt_map" where
  "attributes_from_txt ps = foldl (\<lambda>t (k, v). fmupd k v t) fmempty ps"

text \<open>\<open>IpAddr::to_string\<close>: the first longest run of two or more zero groups is elided.\<close>

fun show_hex :: "nat \<Rightarrow> string" where
  "show_hex n = (if n < 16 then [''0123456789abcdef'' ! n] else show_hex (n div 16) @ [''0123456789abcdef'' ! (n mod 16)])"

declare show_hex.simps [simp del]

definition join :: "string \<Rightarrow> string list \<Rightarrow> string" where
  "join sep ss = (case ss of [] \<Rightarrow> [] | s # rest \<Rightarrow> s @ concat (map (\<lambda>x. sep @ x) rest))"

fun longest_zeros :: "nat list \<Rightarrow> nat \<Rightarrow> nat \<times> nat \<Rightarrow> nat \<times> nat \<Rightarrow> nat \<times> nat" where
  "longest_zeros [] k current longest = longest"
| "longest_zeros (g # gs) k (start, len) longest =
     (if g = 0
      then let current = (if len = 0 then k else start, Suc len)
           in longest_zeros gs (Suc k) current (if Suc len > snd longest then current else longest)
      else longest_zeros gs (Suc k) (0, 0) longest)"

fun show_ip :: "ip_addr \<Rightarrow> string" where
  "show_ip (V4 a b c d) = join ''.'' (map show_nat [a, b, c, d])"
| "show_ip (V6 gs) =
     (case to_canonical (V6 gs) of
        V4 a b c d \<Rightarrow> ''::ffff:'' @ join ''.'' (map show_nat [a, b, c, d])
      | V6 _ \<Rightarrow>
          (case longest_zeros gs 0 (0, 0) (0, 0) of (start, len) \<Rightarrow>
             if len > 1
             then join '':'' (map show_hex (take start gs)) @ ''::'' @ join '':'' (map show_hex (drop (start + len) gs))
             else join '':'' (map show_hex gs)))"

definition rank :: "ip_addr \<Rightarrow> nat" where
  "rank ip =
     (case ip of
        V4 _ _ _ _ \<Rightarrow> if \<not> is_loopback ip \<and> \<not> is_unspecified ip then 0 else 2
      | V6 _ \<Rightarrow> if \<not> is_loopback ip \<and> \<not> is_unspecified ip then 1 else 3)"

text \<open>\<open>min_by_key\<close> keeps the first of the least.\<close>

fun least_by :: "('a \<Rightarrow> 'k :: linorder) \<Rightarrow> 'a list \<Rightarrow> 'a option" where
  "least_by key [] = None"
| "least_by key (x # xs) =
     (case least_by key xs of None \<Rightarrow> Some x | Some y \<Rightarrow> if key x \<le> key y then Some x else Some y)"

definition best_addr :: "ip_addr list \<Rightarrow> ip_addr option" where
  "best_addr addrs = least_by (\<lambda>ip. (rank ip, show_ip ip)) addrs"

definition peer_from_resolved ::
  "(string \<Rightarrow> string) \<Rightarrow> resolved_service \<Rightarrow> int \<Rightarrow> discovered_peer option" where
  "peer_from_resolved did rs now_ms =
     (case best_addr (rs_addresses rs) of
        None \<Rightarrow> None
      | Some ip \<Rightarrow> peer_from_record did (rs_fullname rs) ip (rs_port rs) (attributes_from_txt (rs_txt rs)) now_ms)"

section \<open>What a record can say\<close>

text \<open>Every \<open>String\<close> of Rust is UTF-8; the values of a record that reach the parser are.\<close>

definition wf_txt :: "txt_map \<Rightarrow> bool" where
  "wf_txt t \<longleftrightarrow> fmpred (\<lambda>_ v. wf_string v) t"

definition text_ok :: "string option \<Rightarrow> bool" where
  "text_ok s = (case s of None \<Rightarrow> True | Some v \<Rightarrow> shown v)"

definition profile_ok :: "device_profile option \<Rightarrow> bool" where
  "profile_ok p =
     (case p of
        None \<Rightarrow> True
      | Some p \<Rightarrow> text_ok (dp_app_version p) \<and> text_ok (dp_os_name p) \<and> text_ok (dp_os_version p) \<and> text_ok (dp_model p))"

definition ids_ok :: "string list \<Rightarrow> bool" where
  "ids_ok ids \<longleftrightarrow> length ids \<le> max_pairing_ids_per_peer \<and> distinct ids \<and> list_all is_valid_pairing_id ids"

lemma collect_ids_ok:
  "ids_ok acc \<Longrightarrow> list_all (\<lambda>(_, i). is_valid_pairing_id i) xs \<Longrightarrow> ids_ok (collect_ids xs acc)"
  by (induction xs acc rule: collect_ids.induct) (auto simp: ids_ok_def)

lemma indexed_id_valid: "indexed_id e = Some (k, i) \<Longrightarrow> is_valid_pairing_id i"
  by (auto simp: indexed_id_def split: prod.splits list.splits option.splits if_splits)

lemma indexed_valid: "list_all (\<lambda>(_, i). is_valid_pairing_id i) (sort (List.map_filter indexed_id es))"
  by (auto simp: list_all_iff List.map_filter_def dest: indexed_id_valid)

lemma wf_txt_lookup: "wf_txt t \<Longrightarrow> fmlookup t k = Some v \<Longrightarrow> wf_string v"
  by (auto simp: wf_txt_def dest: fmpredD)

lemma sanitised_lookup: "wf_txt t \<Longrightarrow> Option.bind (fmlookup t k) sanitise_display_name = Some s \<Longrightarrow> shown s"
  using sanitised_shown wf_txt_lookup by (cases "fmlookup t k") fastforce+

lemma profile_text_ok: "wf_txt t \<Longrightarrow> text_ok (profile_text t k)"
  using sanitised_lookup by (auto simp: text_ok_def profile_text_def split: option.split)

lemma parse_profile_ok: "wf_txt t \<Longrightarrow> profile_ok (parse_profile t)"
  by (simp add: parse_profile_def Let_def profile_ok_def profile_text_ok)

lemma unknown_shown: "shown ''unknown''"
  by (simp add: shown_def clean_def wf_char_def char_len_def in_range_def is_continuation_def trim_list_def
      is_whitespace_def is_control_def max_name_len_def)

lemma filter_tag_ok: "filter_tag g = Some tag \<Longrightarrow> identity_tag_ok tag"
  by (auto simp: filter_tag_def split: option.splits if_splits)

definition advertisement_ok :: "advertisement \<Rightarrow> bool" where
  "advertisement_ok ad \<longleftrightarrow> shown (ad_name ad) \<and> ids_ok (ad_pairing_ids ad) \<and> profile_ok (ad_profile ad)
     \<and> (case ad_identity_tag ad of None \<Rightarrow> True | Some tag \<Rightarrow> identity_tag_ok tag)"

lemma parsed_ok:
  assumes "wf_txt t" and "wf_string fallback" and "parse_advertisement t fallback = Some ad"
  shows "advertisement_ok ad"
proof -
  have "shown (ad_name ad)"
    using assms(3) sanitised_lookup[OF assms(1)] sanitised_shown[OF assms(2)] unknown_shown
    by (auto simp: parse_advertisement_def Let_def split: if_splits option.splits)
  moreover have "ids_ok (ad_pairing_ids ad)"
    using assms(3) collect_ids_ok[of "[]", OF _ indexed_valid]
    by (auto simp: parse_advertisement_def Let_def ids_ok_def split: if_splits)
  moreover have "profile_ok (ad_profile ad)" using assms(1,3) parse_profile_ok
    by (auto simp: parse_advertisement_def Let_def split: if_splits)
  moreover have "case ad_identity_tag ad of None \<Rightarrow> True | Some tag \<Rightarrow> identity_tag_ok tag"
    using assms(3) filter_tag_ok
    by (auto simp: parse_advertisement_def Let_def split: if_splits option.split)
  ultimately show ?thesis by (simp add: advertisement_ok_def)
qed

section \<open>Reading what was written\<close>

lemma advertised_ids_spec:
  "distinct acc \<Longrightarrow> advertised_ids ids acc =
     (if list_all is_valid_pairing_id ids then Inr (acc @ rev (remdups (rev (filter (\<lambda>i. i \<notin> set acc) ids))))
      else Inl InvalidPairingId)"
proof (induction ids arbitrary: acc)
  case (Cons i ids)
  show ?case
  proof (cases "i \<in> set acc")
    case True
    then show ?thesis using Cons by simp
  next
    case False
    have "rev (remdups (rev (i # filter (\<lambda>j. j \<notin> set acc) ids)))
        = i # rev (remdups (rev (filter (\<lambda>j. j \<notin> set (acc @ [i])) ids)))"
    proof -
      have *: "rev (remdups (rev (i # xs))) = i # rev (remdups (rev (filter (\<lambda>j. j \<noteq> i) xs)))" for xs :: "string list"
        by (induction xs rule: rev_induct) (auto simp: remdups_append2)
      have "filter (\<lambda>j. j \<noteq> i) (filter (\<lambda>j. j \<notin> set acc) ids) = filter (\<lambda>j. j \<notin> set (acc @ [i])) ids"
        by (auto intro: filter_cong)
      with * show ?thesis by metis
    qed
    with False Cons.IH[of "acc @ [i]"] Cons.prems show ?thesis by simp
  qed
qed simp

lemma fmlookup_insert_some [simp]:
  "fmlookup (insert_some k v t) k' = (if k' = k \<and> v \<noteq> None then v else fmlookup t k')"
  by (auto simp: insert_some_def split: option.split)

text \<open>The keys of a record that are not pairing ids.\<close>

definition plain_keys :: "string list" where
  "plain_keys = [''v'', ''n'', ''av'', ''pv'', ''pf'', ''dc'', ''os'', ''ov'', ''m'', ''g'']"

lemma plain_not_pairing: "k \<in> set plain_keys \<Longrightarrow> pairing_key i \<noteq> k" "k \<in> set plain_keys \<Longrightarrow> indexed_id (k, v) = None"
proof -
  have "list_all is_ascii_digit (show_nat i)" "show_nat i \<noteq> []" using show_nat_spec by auto
  then have "show_nat i \<noteq> ''v''" "show_nat i \<noteq> ''f''" by (auto simp: is_ascii_digit_def in_range_def)
  then show "k \<in> set plain_keys \<Longrightarrow> pairing_key i \<noteq> k" by (auto simp: plain_keys_def pairing_key_def)
  show "k \<in> set plain_keys \<Longrightarrow> indexed_id (k, v) = None"
    by (auto simp: plain_keys_def indexed_id_def parse_unsigned_def is_ascii_digit_def in_range_def)
qed

lemma pairing_key_inj [simp]: "pairing_key i = pairing_key j \<longleftrightarrow> i = j"
  by (auto simp: pairing_key_def dest: show_nat_inj)

lemma insert_ids_lookup:
  "fmlookup (insert_ids k ids t) (pairing_key j) =
     (if k \<le> j \<and> j < k + length ids then Some (ids ! (j - k)) else fmlookup t (pairing_key j))"
  by (induction k ids t rule: insert_ids.induct) (auto simp: nth_Cons' Suc_diff_Suc)

lemma insert_ids_plain: "(\<And>i. key \<noteq> pairing_key i) \<Longrightarrow> fmlookup (insert_ids k ids t) key = fmlookup t key"
  by (induction k ids t rule: insert_ids.induct) auto

definition base_record :: "device_profile \<Rightarrow> string \<Rightarrow> txt_map" where
  "base_record p display = add_profile_properties p (fmupd ''n'' display (fmupd ''v'' txt_version fmempty))"

lemma base_record_keys: "fmlookup (base_record p display) k = Some v \<Longrightarrow> k \<in> set plain_keys"
  by (auto simp: base_record_def add_profile_properties_def Let_def plain_keys_def split: if_splits)

definition written :: "device_profile \<Rightarrow> string \<Rightarrow> string list \<Rightarrow> string option \<Rightarrow> txt_map" where
  "written p display ids tag = insert_some ''g'' tag (insert_ids 0 ids (base_record p display))"

lemma written_plain:
  "k \<in> set plain_keys \<Longrightarrow> fmlookup (written p display ids tag) k = fmlookup (insert_some ''g'' tag (base_record p display)) k"
  using plain_not_pairing(1)[of k] insert_ids_plain[of k 0 ids] by (auto simp: written_def)

lemma written_pairing:
  "fmlookup (written p display ids tag) (pairing_key j) = (if j < length ids then Some (ids ! j) else None)"
proof -
  have "fmlookup (base_record p display) (pairing_key j) = None"
    using base_record_keys plain_not_pairing(1) by (metis not_None_eq)
  moreover have "pairing_key j \<noteq> ''g''" using plain_not_pairing(1) by (auto simp: plain_keys_def)
  ultimately show ?thesis by (simp add: written_def insert_ids_lookup)
qed

lemma written_other:
  assumes "fmlookup (written p display ids tag) k = Some v"
  shows "k \<in> set plain_keys \<or> (\<exists>j < length ids. k = pairing_key j \<and> v = ids ! j)"
proof (cases "\<exists>j. k = pairing_key j")
  case True
  with assms written_pairing[of p display ids tag] show ?thesis by (auto split: if_splits)
next
  case False
  then have "fmlookup (written p display ids tag) k = fmlookup (insert_some ''g'' tag (base_record p display)) k"
    using insert_ids_plain[of k 0 ids "base_record p display"] by (cases tag) (simp_all add: written_def)
  with assms have "k = ''g'' \<or> fmlookup (base_record p display) k = Some v" by (simp split: if_splits)
  then show ?thesis
  proof
    assume "k = ''g''"
    then show ?thesis by (simp add: plain_keys_def)
  next
    assume "fmlookup (base_record p display) k = Some v"
    then show ?thesis using base_record_keys by blast
  qed
qed

lemma indexed_written:
  assumes "length ids \<le> usize_max" and "list_all is_valid_pairing_id ids"
    and "fmlookup (written p display ids tag) k = Some v"
  shows "indexed_id (k, v) = Some (i, w) \<longleftrightarrow> k = pairing_key i \<and> i < length ids \<and> w = v \<and> v = ids ! i"
proof -
  consider "k \<in> set plain_keys" | j where "j < length ids" "k = pairing_key j" "v = ids ! j"
    using written_other[OF assms(3)] by blast
  then show ?thesis
  proof cases
    case 1
    then show ?thesis using plain_not_pairing[of k] by auto
  next
    case 2
    then have "indexed_id (k, v) = Some (j, v)"
      using assms(1,2) by (simp add: indexed_id_def pairing_key_def parse_show_nat list_all_length)
    with 2 show ?thesis by auto
  qed
qed

lemma sorted_enumerate: "sorted (enumerate n (xs :: 'a :: linorder list))"
  by (induction xs arbitrary: n) (auto simp: in_set_enumerate_eq less_eq_prod_def less_prod_def)

lemma indexed_sorted:
  assumes "length ids \<le> usize_max" and "list_all is_valid_pairing_id ids"
  shows "sort (List.map_filter indexed_id (fm_entries (written p display ids tag))) = enumerate 0 ids"
proof -
  let ?t = "written p display ids tag"
  let ?xs = "List.map_filter indexed_id (fm_entries ?t)"
  note iff = indexed_written[OF assms]
  have "set ?xs = set (enumerate 0 ids)"
  proof (rule set_eqI)
    fix x :: "nat \<times> string"
    obtain i w where x: "x = (i, w)" by force
    have "x \<in> set ?xs \<longleftrightarrow> (\<exists>k v. fmlookup ?t k = Some v \<and> indexed_id (k, v) = Some (i, w))"
      by (force simp: x List.map_filter_def set_fm_entries image_iff)
    also have "\<dots> \<longleftrightarrow> i < length ids \<and> w = ids ! i"
    proof
      assume "\<exists>k v. fmlookup ?t k = Some v \<and> indexed_id (k, v) = Some (i, w)"
      then obtain k v where "fmlookup ?t k = Some v" "indexed_id (k, v) = Some (i, w)" by blast
      with iff[OF this(1), of i w] show "i < length ids \<and> w = ids ! i" by simp
    next
      assume i: "i < length ids \<and> w = ids ! i"
      then have look: "fmlookup ?t (pairing_key i) = Some w" using written_pairing[of p display ids tag i] by simp
      then show "\<exists>k v. fmlookup ?t k = Some v \<and> indexed_id (k, v) = Some (i, w)"
        using iff[OF look, of i w] i by (intro exI[of _ "pairing_key i"] exI[of _ w]) simp
    qed
    also have "\<dots> \<longleftrightarrow> x \<in> set (enumerate 0 ids)" by (auto simp: x in_set_enumerate_eq)
    finally show "x \<in> set ?xs \<longleftrightarrow> x \<in> set (enumerate 0 ids)" .
  qed
  moreover have "distinct ?xs"
  proof -
    have "distinct (fm_entries ?t)" by (metis distinct_fm_keys distinct_map map_fst_fm_entries)
    moreover have "e = e'" if "indexed_id e = Some x" "indexed_id e' = Some x" "e \<in> set (fm_entries ?t)" "e' \<in> set (fm_entries ?t)" for e e' x
    proof -
      obtain k v k' v' i w where e: "e = (k, v)" "e' = (k', v')" "x = (i, w)" by (metis surj_pair)
      from that(3,4) have look: "fmlookup ?t k = Some v" "fmlookup ?t k' = Some v'" by (simp_all only: e set_fm_entries)
      have "indexed_id (k, v) = Some (i, w)" "indexed_id (k', v') = Some (i, w)" using that(1,2) unfolding e .
      then have "k = pairing_key i" "k' = pairing_key i" using iff[OF look(1)] iff[OF look(2)] by blast+
      then have "k = k'" by (rule trans[OF _ sym])
      moreover from this look have "v = v'" by simp
      ultimately show ?thesis unfolding e by (rule arg_cong2)
    qed
    then have "inj_on (the \<circ> indexed_id) {e \<in> set (fm_entries ?t). indexed_id e \<noteq> None}"
      by (auto intro!: inj_onI)
    ultimately show ?thesis by (simp add: List.map_filter_def distinct_map)
  qed
  ultimately show ?thesis
    by (intro sorted_distinct_set_unique) (simp_all add: sorted_enumerate)
qed

lemma collect_enumerate:
  "distinct (acc @ ids) \<Longrightarrow> length (acc @ ids) \<le> max_pairing_ids_per_peer \<Longrightarrow> collect_ids (enumerate k ids) acc = acc @ ids"
  by (induction ids arbitrary: k acc) auto

text \<open>What another device hears of a profile.\<close>

definition heard_profile :: "device_profile \<Rightarrow> device_profile option" where
  "heard_profile p =
     (let q = p\<lparr>dp_app_version := Option.bind (dp_app_version p) sanitise_display_name,
                dp_os_name := Option.bind (dp_os_name p) sanitise_display_name,
                dp_os_version := Option.bind (dp_os_version p) sanitise_display_name,
                dp_model := Option.bind (dp_model p) sanitise_display_name\<rparr>
      in if dp_app_version q = None \<and> dp_protocol_version q = None \<and> dp_platform q = UnknownPlatform
            \<and> dp_device_class q = UnknownClass \<and> dp_os_name q = None \<and> dp_os_version q = None \<and> dp_model q = None
         then None else Some q)"

lemma platform_name_roundtrip [simp]: "platform_of_name (platform_name p) = p"
  by (cases p) (simp_all add: platform_of_name_def)

lemma class_name_roundtrip [simp]: "class_of_name (class_name c) = c"
  by (cases c) (simp_all add: class_of_name_def)

lemma written_profile:
  assumes "case dp_protocol_version p of None \<Rightarrow> True | Some v \<Rightarrow> v \<le> 4294967295"
  shows "parse_profile (written p display ids tag) = heard_profile p"
proof -
  have look: "fmlookup (written p display ids tag) ''av'' = dp_app_version p"
    "fmlookup (written p display ids tag) ''pv'' = map_option show_nat (dp_protocol_version p)"
    "fmlookup (written p display ids tag) ''pf'' = Some (platform_name (dp_platform p))"
    "fmlookup (written p display ids tag) ''dc'' = Some (class_name (dp_device_class p))"
    "fmlookup (written p display ids tag) ''os'' = dp_os_name p"
    "fmlookup (written p display ids tag) ''ov'' = dp_os_version p"
    "fmlookup (written p display ids tag) ''m'' = dp_model p"
    using written_plain[of _ p display ids tag]
    by (simp_all add: plain_keys_def base_record_def add_profile_properties_def Let_def)
  have "Option.bind (map_option show_nat (dp_protocol_version p)) (parse_unsigned 4294967295) = dp_protocol_version p"
    using assms by (cases "dp_protocol_version p") (simp_all add: parse_show_nat)
  then show ?thesis
    by (simp add: parse_profile_def heard_profile_def profile_text_def look Let_def)
qed

lemma written_parses:
  assumes "shown display" and "distinct ids" and "length ids \<le> max_pairing_ids_per_peer"
    and "list_all is_valid_pairing_id ids" and "case dp_protocol_version p of None \<Rightarrow> True | Some v \<Rightarrow> v \<le> 4294967295"
  shows "parse_advertisement (written p display ids (filter_tag tag)) fallback =
    Some \<lparr>ad_identity_tag = filter_tag tag, ad_name = display, ad_pairing_ids = ids, ad_profile = heard_profile p\<rparr>"
proof -
  let ?t = "written p display ids (filter_tag tag)"
  have look: "fmlookup ?t ''v'' = Some txt_version" "fmlookup ?t ''n'' = Some display" "fmlookup ?t ''g'' = filter_tag tag"
    using written_plain[of _ p display ids "filter_tag tag"]
    by (auto simp: plain_keys_def base_record_def add_profile_properties_def Let_def)
  have "filter_tag (filter_tag tag) = filter_tag tag" by (auto simp: filter_tag_def split: option.split)
  moreover have "length ids \<le> usize_max" using assms(3) by (simp add: max_pairing_ids_per_peer_def usize_max_def)
  ultimately show ?thesis
    using indexed_sorted[of ids p display "filter_tag tag"] collect_enumerate[of "[]" ids 0] assms written_profile[OF assms(5)]
    by (simp add: parse_advertisement_def look shown_stays Let_def)
qed

text \<open>
  C29: a device is heard as it announced itself. Whatever the order of the attributes, the record
  that this device writes is read as its sanitised name, its first sixteen distinct pairing ids
  in order, its identity tag and its profile with each text sanitised, and the reading does not
  depend on the service name.
\<close>

theorem advertisement_is_heard:
  assumes "advertisement_attributes p device_name ids tag = Inr t" and "wf_string device_name"
    and "case dp_protocol_version p of None \<Rightarrow> True | Some v \<Rightarrow> v \<le> 4294967295"
  shows "parse_advertisement t fallback = Some
    \<lparr>ad_identity_tag = filter_tag tag, ad_name = the (sanitise_display_name device_name),
     ad_pairing_ids = take max_advertised_pairing_ids (rev (remdups (rev ids))), ad_profile = heard_profile p\<rparr>"
proof -
  let ?ids = "take max_advertised_pairing_ids (rev (remdups (rev ids)))"
  obtain display where display: "sanitise_display_name device_name = Some display" and
    valid: "list_all is_valid_pairing_id ids" and t: "t = written p display ?ids (filter_tag tag)"
    using assms(1) advertised_ids_spec[of "[]" ids]
    by (auto simp: advertisement_attributes_def res_bind_Inr_iff Let_def written_def base_record_def split: if_splits)
  have "list_all is_valid_pairing_id ?ids" using valid by (auto simp: list_all_iff dest!: in_set_takeD)
  then show ?thesis
    using written_parses[OF sanitised_shown[OF assms(2) display], of ?ids p tag fallback] assms(3) display
    by (simp add: t max_advertised_pairing_ids_def max_pairing_ids_per_peer_def)
qed

definition demo_profile :: device_profile where
  "demo_profile = \<lparr>dp_app_version = None, dp_protocol_version = Some 9, dp_platform = Linux, dp_device_class = Laptop,
     dp_os_name = None, dp_os_version = None, dp_model = None\<rparr>"

lemma ab_shown: "shown ''ab''"
  by (simp add: shown_def clean_def wf_char_def char_len_def in_range_def is_continuation_def trim_list_def
      is_whitespace_def is_control_def max_name_len_def)

theorem advertisement_is_heard_witness:
  "\<exists>t. advertisement_attributes demo_profile ''ab'' [''x'', ''y'', ''x''] None = Inr t
     \<and> map_option ad_pairing_ids (parse_advertisement t ''other'') = Some [''x'', ''y'']
     \<and> map_option ad_name (parse_advertisement t ''other'') = Some ''ab''
     \<and> map_option ad_profile (parse_advertisement t ''other'') = Some (Some demo_profile)"
proof -
  note ab = shown_stays[OF ab_shown] shown_wf[OF ab_shown]
  have "advertised_ids [''x'', ''y'', ''x''] [] = Inr [''x'', ''y'']"
    by (simp add: is_valid_pairing_id_def id_octet_def is_ascii_alphanumeric_def in_range_def discovery_max_pairing_id_len_def)
  then obtain t where t: "advertisement_attributes demo_profile ''ab'' [''x'', ''y'', ''x''] None = Inr t"
    by (simp add: advertisement_attributes_def ab(1) Let_def)
  have "case dp_protocol_version demo_profile of None \<Rightarrow> True | Some v \<Rightarrow> v \<le> 4294967295" by (simp add: demo_profile_def)
  from advertisement_is_heard[OF t ab(2) this, of "''other''"] t show ?thesis
    by (simp add: ab(1) max_advertised_pairing_ids_def heard_profile_def demo_profile_def)
qed

end
