(* ===== verification/Discovery.thy ===== *)
theory Discovery
  imports Discovery_Record
begin

text \<open>
  What a device believes about the local network: the table of
  \<open>crates/copypaste-p2p/src/discovery/table.rs\<close> and the state and events of \<open>discovery/service.rs\<close>.
  The clock is an argument, the order in which a \<open>HashMap\<close> is walked is a list of its keys, and the
  mDNS library is what it answers and the events it delivers.
\<close>

section \<open>The table\<close>

definition peer_ttl_ms :: int where "peer_ttl_ms = 180000"
definition max_peers :: nat where "max_peers = 256"

record peer_table =
  pt_entries :: "(string, discovered_peer) fmap"
  pt_ttl_ms :: int
  pt_max_peers :: nat

definition peer_table_new :: "int \<Rightarrow> nat \<Rightarrow> peer_table" where
  "peer_table_new ttl_ms mx = \<lparr>pt_entries = fmempty, pt_ttl_ms = ttl_ms, pt_max_peers = max mx 1\<rparr>"

definition peer_table_default :: peer_table where
  "peer_table_default = peer_table_new peer_ttl_ms max_peers"

definition is_peer_fresh_for :: "int \<Rightarrow> int \<Rightarrow> int \<Rightarrow> bool" where
  "is_peer_fresh_for last_seen_ms now_ms ttl_ms \<longleftrightarrow> i64_saturating_add now_ms (- last_seen_ms) < ttl_ms"

definition is_peer_fresh :: "int \<Rightarrow> int \<Rightarrow> bool" where
  "is_peer_fresh last_seen_ms now_ms = is_peer_fresh_for last_seen_ms now_ms peer_ttl_ms"

definition table_prune :: "int \<Rightarrow> peer_table \<Rightarrow> peer_table" where
  "table_prune now_ms t =
     t\<lparr>pt_entries := fm_retain (\<lambda>_ p. is_peer_fresh_for (d_last_seen_ms p) now_ms (pt_ttl_ms t)) (pt_entries t)\<rparr>"

definition victim :: "(string, discovered_peer) fmap \<Rightarrow> string option" where
  "victim m = map_option fst (least_by (\<lambda>(k, p). (d_last_seen_ms p, k)) (fm_entries m))"

lemma least_by_mem: "least_by key xs = Some x \<Longrightarrow> x \<in> set xs"
  by (induction xs arbitrary: x) (auto split: option.splits if_splits)

lemma victim_mem: "victim m = Some k \<Longrightarrow> k |\<in>| fmdom m"
  by (auto simp: victim_def dest!: least_by_mem) (auto simp: set_fm_entries fmlookup_dom_iff)

function enforce_cap :: "peer_table \<Rightarrow> peer_table" where
  "enforce_cap t =
     (if fm_len (pt_entries t) > pt_max_peers t
      then (case victim (pt_entries t) of
              Some key \<Rightarrow> enforce_cap (t\<lparr>pt_entries := fmdrop key (pt_entries t)\<rparr>)
            | None \<Rightarrow> t)
      else t)"
  by pat_completeness auto
termination
proof (relation "measure (\<lambda>t. fm_len (pt_entries t))", simp)
  fix t key
  assume "victim (pt_entries t) = Some key"
  then have "fmdom (fmdrop key (pt_entries t)) |\<subset>| fmdom (pt_entries t)" using victim_mem by fastforce
  then show "(t\<lparr>pt_entries := fmdrop key (pt_entries t)\<rparr>, t) \<in> measure (\<lambda>t. fm_len (pt_entries t))"
    by (simp add: fm_len_def pfsubset_fcard_mono)
qed

declare enforce_cap.simps [simp del]

definition table_observe :: "string \<Rightarrow> discovered_peer \<Rightarrow> int \<Rightarrow> peer_table \<Rightarrow> peer_table" where
  "table_observe fullname p now_ms t =
     (let t = table_prune now_ms t;
          t = t\<lparr>pt_entries := fmupd fullname p (pt_entries t)\<rparr>
      in enforce_cap t)"

definition remove_service :: "string \<Rightarrow> peer_table \<Rightarrow> peer_table" where
  "remove_service fullname t = t\<lparr>pt_entries := fm_retain (\<lambda>service _. service \<noteq> fullname) (pt_entries t)\<rparr>"

definition table_clear :: "peer_table \<Rightarrow> peer_table" where
  "table_clear t = t\<lparr>pt_entries := fmempty\<rparr>"

text \<open>\<open>canonical_endpoint\<close>; and the derived order of \<open>SocketAddr\<close> (flow labels are always zero here).\<close>

definition canonical_endpoint :: "socket_addr \<Rightarrow> socket_addr" where
  "canonical_endpoint a =
     (case sa_ip a of
        V6 gs \<Rightarrow> (case to_canonical (V6 gs) of
                    V4 x y z w \<Rightarrow> \<lparr>sa_ip = V4 x y z w, sa_port = sa_port a, sa_scope = 0\<rparr>
                  | V6 _ \<Rightarrow> a)
      | V4 _ _ _ _ \<Rightarrow> a)"

definition addr_key :: "socket_addr \<Rightarrow> (nat \<times> nat list) \<times> nat \<times> nat" where
  "addr_key a =
     ((case sa_ip a of V4 x y z w \<Rightarrow> (0, [x, y, z, w]) | V6 gs \<Rightarrow> (1, gs)), sa_port a, sa_scope a)"

text \<open>The values of a \<open>HashMap\<close>, walked in the order of the given keys.\<close>

definition values_in :: "'k list \<Rightarrow> ('k, 'v) fmap \<Rightarrow> 'v list" where
  "values_in order m = List.map_filter (fmlookup m) order"

definition replaces :: "discovered_peer \<Rightarrow> discovered_peer \<Rightarrow> bool" where
  "replaces p current \<longleftrightarrow>
     d_last_seen_ms p > d_last_seen_ms current
     \<or> (d_last_seen_ms p = d_last_seen_ms current \<and> d_discovery_id p < d_discovery_id current)"

fun alist_set :: "'k \<Rightarrow> 'v \<Rightarrow> ('k \<times> 'v) list \<Rightarrow> ('k \<times> 'v) list" where
  "alist_set k v [] = [(k, v)]"
| "alist_set k v ((k', v') # xs) = (if k' = k then (k, v) # xs else (k', v') # alist_set k v xs)"

definition merge_endpoint ::
  "(socket_addr \<times> discovered_peer) list \<Rightarrow> discovered_peer \<Rightarrow> (socket_addr \<times> discovered_peer) list" where
  "merge_endpoint endpoints p =
     (let endpoint = canonical_endpoint (d_addr p) in
      case map_of endpoints endpoint of
        None \<Rightarrow> alist_set endpoint (p\<lparr>d_addr := endpoint\<rparr>) endpoints
      | Some current \<Rightarrow>
          let ids = remdups_adj (sort (d_pairing_ids current @ d_pairing_ids p)) in
          if replaces p current
          then alist_set endpoint (p\<lparr>d_addr := endpoint, d_pairing_ids := ids\<rparr>) endpoints
          else alist_set endpoint (current\<lparr>d_pairing_ids := ids\<rparr>) endpoints)"

definition table_snapshot :: "string list \<Rightarrow> int \<Rightarrow> peer_table \<Rightarrow> discovered_peer list \<times> peer_table" where
  "table_snapshot order now_ms t =
     (let t = table_prune now_ms t;
          endpoints = foldl merge_endpoint [] (values_in order (pt_entries t))
      in (sort_key (\<lambda>p. (d_discovery_id p, addr_key (d_addr p))) (map snd endpoints), t))"

text \<open>\<open>max_by\<close> keeps the last of the greatest.\<close>

fun greatest_by :: "('a \<Rightarrow> 'k :: linorder) \<Rightarrow> 'a list \<Rightarrow> 'a option" where
  "greatest_by key [] = None"
| "greatest_by key (x # xs) =
     (case greatest_by key xs of None \<Rightarrow> Some x | Some y \<Rightarrow> if key y < key x then Some x else Some y)"

definition table_find :: "string list \<Rightarrow> string \<Rightarrow> int \<Rightarrow> peer_table \<Rightarrow> discovered_peer option \<times> peer_table" where
  "table_find order pairing_id now_ms t =
     (let t = table_prune now_ms t
      in (greatest_by (\<lambda>p. (d_last_seen_ms p, addr_key (d_addr p)))
            (filter (\<lambda>p. pairing_id \<in> set (d_pairing_ids p)) (values_in order (pt_entries t))), t))"

section \<open>The service\<close>

record discovery =
  dc_group_identity :: "string option"
  dc_running :: bool
  dc_table :: peer_table
  dc_registration :: "(string \<times> string) option"
  dc_shared_port :: nat
  dc_own_addrs :: local_addrs
  dc_device_name :: string
  dc_port :: nat

definition dormant :: "string \<Rightarrow> nat \<Rightarrow> discovery_error + discovery" where
  "dormant device_name port =
     (case sanitise_instance device_name of
        None \<Rightarrow> Inl InvalidDeviceName
      | Some _ \<Rightarrow> Inr \<lparr>dc_group_identity = None, dc_running = False, dc_table = peer_table_default,
                     dc_registration = None, dc_shared_port = port, dc_own_addrs = None,
                     dc_device_name = device_name, dc_port = port\<rparr>)"

text \<open>
  What the mDNS library does: whether its daemon starts, whether it takes a registration, and the
  full name of a service or why it refuses one.
\<close>

record mdns =
  md_starts :: bool
  md_registers :: "string option"
  md_new :: "service_info \<Rightarrow> string + string"

definition service_fullname :: "mdns \<Rightarrow> service_info \<Rightarrow> discovery_error + string" where
  "service_fullname md si = (case md_new md si of Inl e \<Rightarrow> Inl (Mdns e) | Inr n \<Rightarrow> Inr n)"

definition readvertise :: "mdns \<Rightarrow> device_profile \<Rightarrow> string list \<Rightarrow> discovery \<Rightarrow> (discovery_error + unit) \<times> discovery" where
  "readvertise md profile pairing_ids d =
     (let inst = (case dc_registration d of None \<Rightarrow> dc_device_name d | Some (i, _) \<Rightarrow> i) in
      case res_bind (build_service_info profile inst (dc_device_name d) pairing_ids (dc_port d) (dc_group_identity d))
             (service_fullname md) of
        Inl e \<Rightarrow> (Inl e, d)
      | Inr fullname \<Rightarrow>
          (case md_registers md of
             Some e \<Rightarrow> (Inl (Mdns e), d)
           | None \<Rightarrow> (Inr (), d\<lparr>dc_registration := Some (inst, fullname)\<rparr>)))"

definition publish :: "mdns \<Rightarrow> device_profile \<Rightarrow> string list \<Rightarrow> discovery \<Rightarrow> (discovery_error + unit) \<times> discovery" where
  "publish md profile pairing_ids d =
     (if dc_port d = 0 then (Inr (), d)
      else if dc_running d then readvertise md profile pairing_ids d
      else let name = dc_device_name d in
        case res_bind (build_service_info profile name name pairing_ids (dc_port d) (dc_group_identity d))
               (service_fullname md) of
          Inl e \<Rightarrow> (Inl e, d)
        | Inr fullname \<Rightarrow>
            (case sanitise_instance name of
               None \<Rightarrow> (Inl InvalidDeviceName, d)
             | Some inst \<Rightarrow>
                 if \<not> md_starts md then (Inr (), d)
                 else (Inr (), d\<lparr>dc_running := True,
                         dc_registration := (if md_registers md = None then Some (inst, fullname) else dc_registration d)\<rparr>)))"

definition start_discovery ::
  "mdns \<Rightarrow> device_profile \<Rightarrow> string \<Rightarrow> string list \<Rightarrow> nat \<Rightarrow> discovery_error + discovery" where
  "start_discovery md profile device_name pairing_ids port =
     res_bind (dormant device_name port) (\<lambda>d.
       case publish md profile pairing_ids d of (Inl e, _) \<Rightarrow> Inl e | (Inr _, d) \<Rightarrow> Inr d)"

definition stop_discovery :: "discovery \<Rightarrow> discovery" where
  "stop_discovery d =
     (if \<not> dc_running d then d
      else d\<lparr>dc_running := False, dc_registration := None, dc_table := table_clear (dc_table d)\<rparr>)"

definition set_device_name :: "string \<Rightarrow> discovery \<Rightarrow> (discovery_error + unit) \<times> discovery" where
  "set_device_name device_name d =
     (case sanitise_instance device_name of
        None \<Rightarrow> (Inl InvalidDeviceName, d)
      | Some _ \<Rightarrow> (Inr (), (stop_discovery d)\<lparr>dc_device_name := device_name\<rparr>))"

definition set_listener_port :: "nat \<Rightarrow> discovery \<Rightarrow> discovery" where
  "set_listener_port port d = d\<lparr>dc_port := port, dc_shared_port := port\<rparr>"

definition set_group_identity :: "string option \<Rightarrow> discovery \<Rightarrow> discovery" where
  "set_group_identity g d = d\<lparr>dc_group_identity := g\<rparr>"

definition discovery_peers :: "string list \<Rightarrow> int \<Rightarrow> discovery \<Rightarrow> discovered_peer list \<times> discovery" where
  "discovery_peers order now_ms d =
     (case table_snapshot order now_ms (dc_table d) of (ps, t) \<Rightarrow> (ps, d\<lparr>dc_table := t\<rparr>))"

definition discovery_find :: "string list \<Rightarrow> string \<Rightarrow> int \<Rightarrow> discovery \<Rightarrow> discovered_peer option \<times> discovery" where
  "discovery_find order pairing_id now_ms d =
     (case table_find order pairing_id now_ms (dc_table d) of (p, t) \<Rightarrow> (p, d\<lparr>dc_table := t\<rparr>))"

datatype service_event = ServiceResolved resolved_service | ServiceRemoved string | OtherEvent

definition is_self :: "discovery \<Rightarrow> string \<Rightarrow> bool" where
  "is_self d fullname =
     (case dc_registration d of
        None \<Rightarrow> False
      | Some (_, own) \<Rightarrow> map to_ascii_lowercase own = map to_ascii_lowercase fullname)"

text \<open>One turn of \<open>browse_loop\<close>: \<open>now_ips\<close> are the addresses of this device, should they be asked for.\<close>

definition browse_event ::
  "(string \<Rightarrow> string) \<Rightarrow> ip_addr list \<Rightarrow> int \<Rightarrow> service_event \<Rightarrow> discovery \<Rightarrow> discovery" where
  "browse_event did now_ips now e d =
     (case e of
        ServiceResolved rs \<Rightarrow>
          if is_self d (rs_fullname rs) then d
          else (case peer_from_resolved did rs now of
                  None \<Rightarrow> d
                | Some p \<Rightarrow>
                    (case is_own_endpoint now_ips (dc_own_addrs d) (dc_shared_port d) (d_addr p) now of
                       (own, cached) \<Rightarrow>
                         let d = d\<lparr>dc_own_addrs := cached\<rparr> in
                         if own then d else d\<lparr>dc_table := table_observe (rs_fullname rs) p now (dc_table d)\<rparr>))
      | ServiceRemoved fullname \<Rightarrow> d\<lparr>dc_table := remove_service fullname (dc_table d)\<rparr>
      | OtherEvent \<Rightarrow> d)"

text \<open>One turn of \<open>monitor_loop\<close>: the daemon renamed a service.\<close>

definition name_change :: "string \<Rightarrow> string \<Rightarrow> discovery \<Rightarrow> discovery" where
  "name_change original new_name d =
     (case dc_registration d of
        None \<Rightarrow> d
      | Some (inst, fullname) \<Rightarrow>
          if fullname = original
          then (case instance_of new_name of
                  None \<Rightarrow> d | Some inst \<Rightarrow> d\<lparr>dc_registration := Some (inst, new_name)\<rparr>)
          else d)"

end
