(* ===== verification/Discovery_Props.thy ===== *)
theory Discovery_Props
  imports Discovery
begin

text \<open>
  What the table of discovered devices guarantees against anybody on the network: its size and its
  fields are bounded over every history, a listing depends on what was heard and not on the
  order of a hash map, and what the comments promise of floods and of the clock.
\<close>

section \<open>Every history is bounded\<close>

definition discovered_ok :: "discovered_peer \<Rightarrow> bool" where
  "discovered_ok p \<longleftrightarrow> shown (d_name p) \<and> ids_ok (d_pairing_ids p) \<and> profile_ok (d_profile p) \<and> sa_port (d_addr p) \<noteq> 0
     \<and> (case d_group_identity p of None \<Rightarrow> True | Some tag \<Rightarrow> identity_tag_ok tag)"

definition table_ok :: "peer_table \<Rightarrow> bool" where
  "table_ok t \<longleftrightarrow> fm_len (pt_entries t) \<le> pt_max_peers t \<and> pt_max_peers t = max_peers \<and> pt_ttl_ms t = peer_ttl_ms
     \<and> fmpred (\<lambda>_ p. discovered_ok p) (pt_entries t)"

definition discovery_ok :: "discovery \<Rightarrow> bool" where
  "discovery_ok d \<longleftrightarrow> table_ok (dc_table d)"

lemma fmpred_retain: "fmpred P m \<Longrightarrow> fmpred P (fm_retain Q m)"
  by (auto simp: fmpred_iff split: option.splits if_splits)

lemma fm_len_retain: "fm_len m \<le> n \<Longrightarrow> fm_len (fm_retain P m) \<le> n"
  using fm_len_retain_le order_trans by blast

lemma victim_exists: "fm_len m > 0 \<Longrightarrow> \<exists>k. victim m = Some k"
proof -
  assume "fm_len m > 0"
  then have "fm_entries m \<noteq> []" by (metis length_0_conv length_fm_keys less_irrefl map_fst_fm_entries list.map_disc_iff)
  moreover have "xs \<noteq> [] \<Longrightarrow> least_by key xs \<noteq> None" for key :: "string \<times> discovered_peer \<Rightarrow> int \<times> string" and xs
    by (induction xs) (auto split: option.splits)
  ultimately show ?thesis by (auto simp: victim_def)
qed

lemma enforce_cap_ok:
  assumes "fmpred P (pt_entries t)"
  shows "fm_len (pt_entries (enforce_cap t)) \<le> pt_max_peers t \<and> fmpred P (pt_entries (enforce_cap t))
    \<and> pt_max_peers (enforce_cap t) = pt_max_peers t \<and> pt_ttl_ms (enforce_cap t) = pt_ttl_ms t"
  using assms
proof (induction t rule: enforce_cap.induct)
  case (1 t)
  show ?case
  proof (cases "fm_len (pt_entries t) > pt_max_peers t")
    case True
    then obtain k where k: "victim (pt_entries t) = Some k" using victim_exists by fastforce
    have "fmpred P (fmdrop k (pt_entries t))" using 1(2) by (auto simp: fmpred_iff)
    with 1(1)[OF True k] True k show ?thesis by (subst (1 2 3 4) enforce_cap.simps) simp
  next
    case False
    with 1(2) show ?thesis by (simp add: enforce_cap.simps)
  qed
qed

lemma enforce_cap_submap: "fmlookup (pt_entries (enforce_cap t)) k = Some p \<Longrightarrow> fmlookup (pt_entries t) k = Some p"
proof (induction t rule: enforce_cap.induct)
  case (1 t)
  show ?case
  proof (cases "fm_len (pt_entries t) > pt_max_peers t \<and> victim (pt_entries t) \<noteq> None")
    case True
    then obtain v where v: "victim (pt_entries t) = Some v" by auto
    then have "enforce_cap t = enforce_cap (t\<lparr>pt_entries := fmdrop v (pt_entries t)\<rparr>)"
      using True by (subst enforce_cap.simps) simp
    with 1 True v show ?thesis by (auto split: if_splits)
  next
    case False
    then have "enforce_cap t = t" by (subst enforce_cap.simps) (auto split: option.splits)
    with 1(2) show ?thesis by simp
  qed
qed

lemma table_ops_ok:
  assumes "table_ok t"
  shows "table_ok (table_prune now t)" "table_ok (remove_service n t)" "table_ok (table_clear t)"
    "discovered_ok p \<Longrightarrow> table_ok (table_observe n p now t)"
proof -
  note t = assms[unfolded table_ok_def]
  show p: "table_ok (table_prune now t)" "table_ok (remove_service n t)" "table_ok (table_clear t)"
    using t by (auto simp: table_ok_def table_prune_def remove_service_def table_clear_def fmpred_retain fm_len_retain)
  assume ok: "discovered_ok p"
  let ?t = "(table_prune now t)\<lparr>pt_entries := fmupd n p (pt_entries (table_prune now t))\<rparr>"
  have "fmpred (\<lambda>_ p. discovered_ok p) (pt_entries ?t)"
    using p(1) ok by (auto simp: table_ok_def fmpred_iff)
  from enforce_cap_ok[OF this] p(1) show "table_ok (table_observe n p now t)"
    by (simp add: table_ok_def table_observe_def Let_def)
qed

definition wf_resolved :: "resolved_service \<Rightarrow> bool" where
  "wf_resolved rs \<longleftrightarrow> wf_string (rs_fullname rs) \<and> list_all (\<lambda>(_, v). wf_string v) (rs_txt rs)"

lemma wf_attributes: "list_all (\<lambda>(_, v). wf_string v) ps \<Longrightarrow> wf_txt (attributes_from_txt ps)"
proof -
  have "wf_txt t \<Longrightarrow> list_all (\<lambda>(_, v). wf_string v) ps \<Longrightarrow> wf_txt (foldl (\<lambda>t (k, v). fmupd k v t) t ps)" for t
    by (induction ps arbitrary: t) (auto simp: wf_txt_def)
  then show "list_all (\<lambda>(_, v). wf_string v) ps \<Longrightarrow> wf_txt (attributes_from_txt ps)"
    by (simp add: attributes_from_txt_def wf_txt_def)
qed

lemma resolved_ok:
  assumes "wf_resolved rs" and "peer_from_resolved did rs now = Some p"
  shows "discovered_ok p"
proof -
  from assms(2) obtain ip ad where ad: "parse_advertisement (attributes_from_txt (rs_txt rs)) (rs_fullname rs) = Some ad"
    and p: "rs_port rs \<noteq> 0" "p = \<lparr>d_group_identity = ad_identity_tag ad, d_discovery_id = did (rs_fullname rs),
      d_pairing_ids = ad_pairing_ids ad, d_name = ad_name ad, d_profile = ad_profile ad,
      d_addr = \<lparr>sa_ip = ip, sa_port = rs_port rs, sa_scope = 0\<rparr>, d_last_seen_ms = now\<rparr>"
    by (auto simp: peer_from_resolved_def peer_from_record_def split: option.splits if_splits)
  have "advertisement_ok ad"
    using parsed_ok[OF wf_attributes _ ad] assms(1) by (simp add: wf_resolved_def)
  with p show ?thesis by (simp add: discovered_ok_def advertisement_ok_def)
qed

text \<open>Everything that happens to the service: the network's events, and what the node asks of it.\<close>

inductive discovery_step :: "(string \<Rightarrow> string) \<Rightarrow> discovery \<Rightarrow> discovery \<Rightarrow> bool" for did where
  resolved: "wf_resolved rs \<Longrightarrow> discovery_step did d (browse_event did now_ips now (ServiceResolved rs) d)"
| removed: "discovery_step did d (browse_event did now_ips now (ServiceRemoved n) d)"
| renamed: "discovery_step did d (name_change original new_name d)"
| published: "discovery_step did d (snd (publish md profile ids d))"
| stopped: "discovery_step did d (stop_discovery d)"
| named: "discovery_step did d (snd (set_device_name n d))"
| port: "discovery_step did d (set_listener_port port d)"
| identity: "discovery_step did d (set_group_identity g d)"
| listed: "discovery_step did d (snd (discovery_peers order now d))"
| searched: "discovery_step did d (snd (discovery_find order pid now d))"

inductive_cases discovery_stepE: "discovery_step did d d'"

inductive discovery_run :: "(string \<Rightarrow> string) \<Rightarrow> discovery \<Rightarrow> bool" for did where
  dormant_run: "dormant name port = Inr d \<Longrightarrow> discovery_run did d"
| step_run: "discovery_run did d \<Longrightarrow> discovery_step did d d' \<Longrightarrow> discovery_run did d'"

lemma publish_table: "dc_table (snd (publish md profile ids d)) = dc_table d"
  by (simp add: publish_def readvertise_def Let_def split: option.split sum.split prod.split)

lemma step_ok: "discovery_step did d d' \<Longrightarrow> discovery_ok d \<Longrightarrow> discovery_ok d'"
proof (induction rule: discovery_step.induct)
  case (resolved rs d now_ips now)
  then show ?case
    using resolved_ok[OF resolved(1), of did now] table_ops_ok(4)[of "dc_table d"]
    by (simp add: browse_event_def discovery_ok_def Let_def split: option.split prod.split)
qed (auto simp: discovery_ok_def browse_event_def table_ops_ok name_change_def publish_table stop_discovery_def
    set_device_name_def set_listener_port_def set_group_identity_def discovery_peers_def discovery_find_def
    table_snapshot_def table_find_def Let_def split: option.split prod.split)

lemma run_ok: "discovery_run did d \<Longrightarrow> discovery_ok d"
proof (induction rule: discovery_run.induct)
  case (dormant_run name port d)
  then show ?case
    by (auto simp: dormant_def discovery_ok_def table_ok_def peer_table_default_def peer_table_new_def max_peers_def split: option.splits)
qed (rule step_ok)

section \<open>A listing does not depend on the order of the map\<close>

abbreviation endpoint_of :: "discovered_peer \<Rightarrow> socket_addr" where
  "endpoint_of p \<equiv> canonical_endpoint (d_addr p)"

text \<open>
  The reference: of those heard at one endpoint the one that all the others do not replace is
  shown, at the endpoint, with the pairing ids of all of them.
\<close>

definition winner :: "discovered_peer set \<Rightarrow> discovered_peer \<Rightarrow> bool" where
  "winner G w \<longleftrightarrow> w \<in> G \<and> (\<forall>g \<in> G. \<not> replaces g w)"

definition shown_at :: "socket_addr \<Rightarrow> discovered_peer set \<Rightarrow> discovered_peer \<Rightarrow> discovered_peer \<Rightarrow> bool" where
  "shown_at e G w p \<longleftrightarrow> winner G w \<and> p = w\<lparr>d_addr := e,
     d_pairing_ids := (if G = {w} then d_pairing_ids w else sorted_list_of_set (\<Union>g \<in> G. set (d_pairing_ids g)))\<rparr>"

lemma replaces_trans: "replaces a b \<Longrightarrow> replaces b c \<Longrightarrow> replaces a c"
  by (auto simp: replaces_def)

lemma replaces_total: "d_discovery_id a \<noteq> d_discovery_id b \<Longrightarrow> replaces a b \<or> replaces b a"
  by (auto simp: replaces_def)

lemma replaces_asym: "replaces a b \<Longrightarrow> \<not> replaces b a"
  by (auto simp: replaces_def)

lemma replaces_addr [simp]:
  "replaces p (w\<lparr>d_addr := e, d_pairing_ids := ids\<rparr>) = replaces p w"
  by (simp add: replaces_def)

lemma winner_unique:
  assumes "winner G w" and "winner G w'" and "inj_on d_discovery_id G"
  shows "w = w'"
proof (rule ccontr)
  assume "w \<noteq> w'"
  with assms have "d_discovery_id w \<noteq> d_discovery_id w'" by (auto simp: winner_def inj_on_def)
  with assms(1,2) replaces_total show False by (auto simp: winner_def)
qed

lemma shown_at_unique: "shown_at e G w p \<Longrightarrow> shown_at e G w' p' \<Longrightarrow> inj_on d_discovery_id G \<Longrightarrow> p = p'"
  using winner_unique by (auto simp: shown_at_def)

lemma map_of_alist_set [simp]: "map_of (alist_set k v xs) = (map_of xs)(k \<mapsto> v)"
  by (induction k v xs rule: alist_set.induct) (auto simp: fun_eq_iff)

lemma keys_alist_set: "set (map fst (alist_set k v xs)) = insert k (set (map fst xs))"
  by (induction k v xs rule: alist_set.induct) auto

lemma distinct_alist_set: "distinct (map fst xs) \<Longrightarrow> distinct (map fst (alist_set k v xs))"
proof (induction k v xs rule: alist_set.induct)
  case (2 k v k' v' xs)
  then show ?case using keys_alist_set[of k v xs] by auto
qed simp

lemma distinct_remdups_adj: "sorted xs \<Longrightarrow> distinct (remdups_adj xs)"
  by (induction xs rule: remdups_adj.induct) auto

lemma sorted_union: "remdups_adj (sort (xs @ ys)) = sorted_list_of_set (set xs \<union> set ys)"
  by (rule sorted_distinct_set_unique) (auto simp: distinct_remdups_adj)

text \<open>One more peer at an endpoint that is already listed.\<close>

lemma merge_shown:
  assumes "shown_at e G w c" and "finite G" and "q \<notin> G" and "inj_on d_discovery_id (insert q G)" and "endpoint_of q = e"
  shows "\<exists>w'. shown_at e (insert q G) w' (if replaces q c
      then q\<lparr>d_addr := e, d_pairing_ids := remdups_adj (sort (d_pairing_ids c @ d_pairing_ids q))\<rparr>
      else c\<lparr>d_pairing_ids := remdups_adj (sort (d_pairing_ids c @ d_pairing_ids q))\<rparr>)"
proof -
  have w: "w \<in> G" "\<forall>g \<in> G. \<not> replaces g w" using assms(1) by (auto simp: shown_at_def winner_def)
  have c: "replaces q c = replaces q w" using assms(1) by (auto simp: shown_at_def)
  have ids: "set (d_pairing_ids c) = (\<Union>g \<in> G. set (d_pairing_ids g))"
    using assms(1,2) by (auto simp: shown_at_def split: if_splits)
  have "remdups_adj (sort (d_pairing_ids c @ d_pairing_ids q)) = sorted_list_of_set (\<Union>g \<in> insert q G. set (d_pairing_ids g))"
    unfolding sorted_union ids by (simp add: Un_commute)
  moreover have "insert q G \<noteq> {q}" "insert q G \<noteq> {w}" using assms(3) w(1) by auto
  moreover have "winner (insert q G) (if replaces q w then q else w)"
  proof (cases "replaces q w")
    case True
    have "\<not> replaces g q" if "g \<in> G" for g using that True w(2) replaces_trans by blast
    moreover have "\<not> replaces q q" by (simp add: replaces_def)
    ultimately show ?thesis using True by (simp add: winner_def)
  next
    case False
    then show ?thesis using w by (simp add: winner_def)
  qed
  ultimately show ?thesis
    using assms(1) c by (intro exI[of _ "if replaces q w then q else w"]) (auto simp: shown_at_def)
qed

lemma addr_key_inj: "addr_key a = addr_key b \<Longrightarrow> a = b"
  by (cases a; cases b; cases "sa_ip a"; cases "sa_ip b") (auto simp: addr_key_def)

lemma merge_endpoint_keys: "distinct (map fst eps) \<Longrightarrow> distinct (map fst (merge_endpoint eps p))"
  by (simp add: merge_endpoint_def Let_def distinct_alist_set split: option.split)

lemma merge_endpoint_other:
  "e \<noteq> endpoint_of p \<Longrightarrow> map_of (merge_endpoint eps p) e = map_of eps e"
  by (simp add: merge_endpoint_def Let_def split: option.split)

definition at_endpoint :: "socket_addr \<Rightarrow> discovered_peer list \<Rightarrow> discovered_peer set" where
  "at_endpoint e ps = {p \<in> set ps. endpoint_of p = e}"

lemma at_endpoint_snoc:
  "at_endpoint e (ps @ [q]) = (if endpoint_of q = e then insert q (at_endpoint e ps) else at_endpoint e ps)"
  by (auto simp: at_endpoint_def)

lemma at_endpoint_simps [simp]: "at_endpoint e [] = {}" "finite (at_endpoint e ps)"
  by (simp_all add: at_endpoint_def)

lemma merged:
  assumes "distinct (map d_discovery_id ps)"
  shows "distinct (map fst (foldl merge_endpoint [] ps))
    \<and> (case map_of (foldl merge_endpoint [] ps) e of
         None \<Rightarrow> at_endpoint e ps = {}
       | Some p \<Rightarrow> \<exists>w. shown_at e (at_endpoint e ps) w p)"
  using assms
proof (induction ps rule: rev_induct)
  case (snoc q ps)
  let ?eps = "foldl merge_endpoint [] ps"
  have fold: "foldl merge_endpoint [] (ps @ [q]) = merge_endpoint ?eps q" by simp
  have IH: "distinct (map fst ?eps)" "case map_of ?eps e of None \<Rightarrow> at_endpoint e ps = {}
      | Some p \<Rightarrow> \<exists>w. shown_at e (at_endpoint e ps) w p" using snoc by auto
  show ?case
  proof (cases "endpoint_of q = e")
    case False
    with IH show ?thesis unfolding fold at_endpoint_snoc by (simp add: merge_endpoint_keys merge_endpoint_other)
  next
    case True
    then have G: "at_endpoint e (ps @ [q]) = insert q (at_endpoint e ps)" by (simp add: at_endpoint_snoc)
    have inj: "inj_on d_discovery_id (insert q (at_endpoint e ps))" "q \<notin> at_endpoint e ps"
    proof -
      have "inj_on d_discovery_id (set (ps @ [q]))" "q \<notin> set ps" using snoc.prems by (auto simp: distinct_map)
      then show "inj_on d_discovery_id (insert q (at_endpoint e ps))" "q \<notin> at_endpoint e ps"
        unfolding at_endpoint_def by (auto elim: inj_on_subset)
    qed
    have "case map_of (merge_endpoint ?eps q) e of None \<Rightarrow> False | Some p \<Rightarrow> \<exists>w. shown_at e (insert q (at_endpoint e ps)) w p"
    proof (cases "map_of ?eps e")
      case None
      with IH(2) have "at_endpoint e ps = {}" by simp
      moreover have "shown_at e {q} q (q\<lparr>d_addr := e\<rparr>)" by (auto simp: shown_at_def winner_def replaces_def)
      ultimately show ?thesis using None True by (auto simp: merge_endpoint_def Let_def)
    next
      case (Some c)
      with IH(2) obtain w where "shown_at e (at_endpoint e ps) w c" by auto
      from merge_shown[OF this at_endpoint_simps(2) inj(2,1) True] Some True show ?thesis
        by (auto simp: merge_endpoint_def Let_def split: if_splits)
    qed
    moreover have "distinct (map fst (merge_endpoint ?eps q))" using IH(1) by (rule merge_endpoint_keys)
    ultimately show ?thesis unfolding fold G by (cases "map_of (merge_endpoint ?eps q) e") simp_all
  qed
qed simp

lemma merged_mem:
  assumes "distinct (map d_discovery_id ps)"
  shows "(e, p) \<in> set (foldl merge_endpoint [] ps) \<longleftrightarrow> (\<exists>w. shown_at e (at_endpoint e ps) w p)"
proof -
  note m = merged[OF assms, of e]
  have "(e, p) \<in> set (foldl merge_endpoint [] ps) \<longleftrightarrow> map_of (foldl merge_endpoint [] ps) e = Some p"
    using m map_of_eq_Some_iff[of "foldl merge_endpoint [] ps" e p] by simp
  moreover have "map_of (foldl merge_endpoint [] ps) e = Some p \<longleftrightarrow> (\<exists>w. shown_at e (at_endpoint e ps) w p)"
  proof (cases "map_of (foldl merge_endpoint [] ps) e")
    case None
    with m have "at_endpoint e ps = {}" by simp
    then have "\<not> shown_at e (at_endpoint e ps) w p" for w by (simp add: shown_at_def winner_def)
    with None show ?thesis by simp
  next
    case (Some p0)
    with m obtain w0 where w0: "shown_at e (at_endpoint e ps) w0 p0" by auto
    have "inj_on d_discovery_id (at_endpoint e ps)"
      using assms unfolding at_endpoint_def by (auto simp: distinct_map elim: inj_on_subset)
    then have "p0 = p" if "shown_at e (at_endpoint e ps) w p" for w using shown_at_unique[OF w0 that] by blast
    with w0 Some show ?thesis by auto
  qed
  ultimately show ?thesis by simp
qed

lemma shown_at_addr: "shown_at e G w p \<Longrightarrow> d_addr p = e"
  by (simp add: shown_at_def)

text \<open>Two lists of the same peers merge to the same endpoints.\<close>

lemma merged_perm:
  assumes "distinct (map d_discovery_id ps)" and "mset qs = mset ps"
  shows "mset (map snd (foldl merge_endpoint [] qs)) = mset (map snd (foldl merge_endpoint [] ps))"
proof -
  have d: "distinct (map d_discovery_id qs)" using assms by (metis mset_eq_imp_distinct_iff mset_map)
  have "at_endpoint e qs = at_endpoint e ps" for e using mset_eq_setD[OF assms(2)] by (simp add: at_endpoint_def)
  then have "set (foldl merge_endpoint [] qs) = set (foldl merge_endpoint [] ps)"
    using merged_mem[OF assms(1)] merged_mem[OF d] by auto
  moreover have "distinct (foldl merge_endpoint [] xs)" if "distinct (map d_discovery_id xs)" for xs
    using merged[OF that] by (simp add: distinct_map)
  ultimately have "mset (foldl merge_endpoint [] qs) = mset (foldl merge_endpoint [] ps)"
    using assms(1) d by (simp add: set_eq_iff_mset_eq_distinct[symmetric])
  then show ?thesis by simp
qed

lemma merged_addr_inj:
  assumes "distinct (map d_discovery_id ps)"
  shows "inj_on d_addr (set (map snd (foldl merge_endpoint [] ps)))"
proof (rule inj_onI)
  fix p q
  assume "p \<in> set (map snd (foldl merge_endpoint [] ps))" "q \<in> set (map snd (foldl merge_endpoint [] ps))" "d_addr p = d_addr q"
  then obtain e f where ef: "(e, p) \<in> set (foldl merge_endpoint [] ps)" "(f, q) \<in> set (foldl merge_endpoint [] ps)" by auto
  then have "d_addr p = e" "d_addr q = f" using merged_mem[OF assms] shown_at_addr by blast+
  with ef \<open>d_addr p = d_addr q\<close> show "p = q"
    using merged[OF assms] by (metis eq_key_imp_eq_value)
qed

lemma values_in_fmap:
  assumes "distinct order" and "set order = fset (fmdom m)"
  shows "mset (values_in order m) = mset (fm_values m)"
proof -
  have "values_in order m = map (\<lambda>k. the (fmlookup m k)) (filter (\<lambda>k. fmlookup m k \<noteq> None) order)"
    by (simp add: values_in_def List.map_filter_def comp_def)
  also have "filter (\<lambda>k. fmlookup m k \<noteq> None) order = order"
    using assms(2) by (auto simp: filter_id_conv fmlookup_dom_iff)
  also have "mset (map (\<lambda>k. the (fmlookup m k)) order) = image_mset (\<lambda>k. the (fmlookup m k)) (mset (fm_keys m))"
    using assms set_eq_iff_mset_eq_distinct[OF assms(1) distinct_fm_keys[of m]] by simp
  finally show ?thesis by (simp add: fm_values_def)
qed

text \<open>What one listing shows.\<close>

lemma snapshot_mem:
  assumes "distinct order" and "set order = fset (fmdom m)" and "distinct (map d_discovery_id (fm_values m))"
  shows "distinct (map d_discovery_id (values_in order m))" and "set (values_in order m) = set (fm_values m)"
  using values_in_fmap[OF assms(1,2)] assms(3) mset_eq_setD
  by (metis mset_eq_imp_distinct_iff mset_map, metis)

lemma listed_once:
  assumes "distinct (map d_discovery_id ps)"
  shows "distinct (map d_addr (sort_key f (map snd (foldl merge_endpoint [] ps))))"
proof -
  let ?eps = "foldl merge_endpoint [] ps"
  have "d_addr p = e" if "(e, p) \<in> set ?eps" for e p using that merged_mem[OF assms] shown_at_addr by blast
  then have "map d_addr (map snd ?eps) = map fst ?eps" by auto
  then have "distinct (map d_addr (map snd ?eps))" using merged[OF assms] by metis
  moreover have "mset (map d_addr (sort_key f (map snd ?eps))) = mset (map d_addr (map snd ?eps))"
    by (simp only: mset_map mset_sort)
  ultimately show ?thesis by (metis mset_eq_imp_distinct_iff)
qed

lemma listed_complete:
  assumes "distinct (map d_discovery_id ps)" and "p \<in> set ps"
  shows "\<exists>q \<in> set (map snd (foldl merge_endpoint [] ps)). d_addr q = endpoint_of p
    \<and> set (d_pairing_ids p) \<subseteq> set (d_pairing_ids q) \<and> d_last_seen_ms p \<le> d_last_seen_ms q"
proof -
  let ?e = "endpoint_of p" and ?eps = "foldl merge_endpoint [] ps"
  have p: "p \<in> at_endpoint ?e ps" using assms(2) by (simp add: at_endpoint_def)
  then obtain q w where q: "map_of ?eps ?e = Some q" "shown_at ?e (at_endpoint ?e ps) w q"
    using merged[OF assms(1), of ?e] by (cases "map_of ?eps ?e") auto
  have "\<not> replaces p w" using q(2) p by (auto simp: shown_at_def winner_def)
  then have "d_last_seen_ms p \<le> d_last_seen_ms q" using q(2) by (auto simp: shown_at_def replaces_def)
  moreover have "set (d_pairing_ids p) \<subseteq> set (d_pairing_ids q)"
    using q(2) p by (auto simp: shown_at_def)
  ultimately show ?thesis using map_of_SomeD[OF q(1)] shown_at_addr[OF q(2)] by (force simp: image_iff)
qed

section \<open>Floods\<close>

lemma least_by_le: "least_by key xs = Some x \<Longrightarrow> y \<in> set xs \<Longrightarrow> key x \<le> key y"
proof (induction xs arbitrary: x)
  case (Cons a xs)
  show ?case
  proof (cases "least_by key xs")
    case None
    then have "xs = []" by (cases xs) (auto split: option.splits if_splits)
    with Cons.prems show ?thesis by simp
  next
    case (Some z)
    from Cons.IH[OF this] Cons.prems Some show ?thesis by (auto split: if_splits intro: order_trans)
  qed
qed simp

lemma victim_least:
  assumes "victim m = Some v" and "fmlookup m k = Some p" and "fmlookup m n = Some q" and "d_last_seen_ms p < d_last_seen_ms q"
  shows "v \<noteq> n"
proof
  assume "v = n"
  with assms(1) obtain q' where l: "least_by (\<lambda>(k, p). (d_last_seen_ms p, k)) (fm_entries m) = Some (n, q')"
    by (auto simp: victim_def)
  then have "fmlookup m n = Some q'" using least_by_mem by (fastforce simp: set_fm_entries)
  moreover have "(d_last_seen_ms q', n) \<le> (d_last_seen_ms p, k)"
    using least_by_le[OF l, of "(k, p)"] assms(2) by (simp add: set_fm_entries)
  ultimately show False using assms(3,4) by simp
qed

lemma enforce_cap_order:
  assumes "fmlookup (pt_entries (enforce_cap t)) k = Some p" and "fmlookup (pt_entries t) n = Some q"
    and "d_last_seen_ms p < d_last_seen_ms q"
  shows "fmlookup (pt_entries t) k = Some p \<and> fmlookup (pt_entries (enforce_cap t)) n = Some q"
  using assms
proof (induction t rule: enforce_cap.induct)
  case (1 t)
  show ?case
  proof (cases "fm_len (pt_entries t) > pt_max_peers t \<and> victim (pt_entries t) \<noteq> None")
    case True
    then obtain v where v: "victim (pt_entries t) = Some v" by auto
    let ?t = "t\<lparr>pt_entries := fmdrop v (pt_entries t)\<rparr>"
    have ec: "enforce_cap t = enforce_cap ?t" using True v by (subst enforce_cap.simps) simp
    show ?thesis
    proof (cases "v = n")
      case False
      with 1(1)[of v] True v 1(2-) ec show ?thesis by (auto split: if_splits)
    next
      case True
      have "fmlookup (pt_entries ?t) k = Some p" using 1(2) ec enforce_cap_submap by metis
      then have "fmlookup (pt_entries t) k = Some p" by (auto split: if_splits)
      from victim_least[OF v this 1(3,4)] True show ?thesis by simp
    qed
  next
    case False
    then have "enforce_cap t = t" by (subst enforce_cap.simps) (auto split: option.splits)
    with 1(2,3) show ?thesis by simp
  qed
qed

definition flood :: "(string \<Rightarrow> discovered_peer) \<Rightarrow> int \<Rightarrow> string list \<Rightarrow> peer_table \<Rightarrow> peer_table" where
  "flood f now ns t = foldl (\<lambda>t n. table_observe n (f n) now t) t ns"

lemma prune_keeps:
  "fmlookup (pt_entries (table_prune now t)) k = Some p \<longleftrightarrow>
     fmlookup (pt_entries t) k = Some p \<and> is_peer_fresh_for (d_last_seen_ms p) now (pt_ttl_ms t)"
  by (auto simp: table_prune_def split: option.splits)

lemma fresh_now: "0 < ttl \<Longrightarrow> is_peer_fresh_for now now ttl"
  by (simp add: is_peer_fresh_for_def i64_saturating_add_def i64_min_def i64_max_def)

lemma observe_frame:
  "pt_ttl_ms (table_observe n q now t) = pt_ttl_ms t \<and> pt_max_peers (table_observe n q now t) = pt_max_peers t
   \<and> fm_len (pt_entries (table_observe n q now t)) \<le> pt_max_peers t"
  using enforce_cap_ok[of "\<lambda>_ _. True" "(table_prune now t)\<lparr>pt_entries := fmupd n q (pt_entries (table_prune now t))\<rparr>"]
  by (simp add: table_observe_def Let_def table_prune_def fmpred_iff)

text \<open>While a peer that was seen earlier is still there, nothing seen now has been evicted.\<close>

lemma observe_order:
  assumes "fmlookup (pt_entries (table_observe n q now t)) k = Some p" and "k \<noteq> n" and "0 < pt_ttl_ms t"
    and "d_last_seen_ms p < now" and "d_last_seen_ms q = now"
  shows "fmlookup (pt_entries t) k = Some p \<and> fmlookup (pt_entries (table_observe n q now t)) n = Some q
    \<and> (\<forall>m r. fmlookup (pt_entries t) m = Some r \<and> d_last_seen_ms r = now \<and> m \<noteq> n \<longrightarrow>
         fmlookup (pt_entries (table_observe n q now t)) m = Some r)"
proof -
  let ?t = "(table_prune now t)\<lparr>pt_entries := fmupd n q (pt_entries (table_prune now t))\<rparr>"
  have o: "table_observe n q now t = enforce_cap ?t" by (simp add: table_observe_def Let_def)
  note cap = enforce_cap_order[OF assms(1)[unfolded o]]
  have "fmlookup (pt_entries ?t) n = Some q" by simp
  from cap[OF this] assms(2,4,5) have "fmlookup (pt_entries t) k = Some p" "fmlookup (pt_entries (table_observe n q now t)) n = Some q"
    by (auto simp: o prune_keeps)
  moreover have "fmlookup (pt_entries (table_observe n q now t)) m = Some r"
    if "fmlookup (pt_entries t) m = Some r" "d_last_seen_ms r = now" "m \<noteq> n" for m r
  proof -
    have "fmlookup (pt_entries ?t) m = Some r" using that fresh_now[OF assms(3)] by (simp add: prune_keeps)
    from cap[OF this] that assms(4) show ?thesis by (simp add: o)
  qed
  ultimately show ?thesis by blast
qed

lemma flood_order:
  assumes "fmlookup (pt_entries (flood f now ns t)) k = Some p" and "k \<notin> set ns" and "0 < pt_ttl_ms t"
    and "d_last_seen_ms p < now" and "\<And>n. d_last_seen_ms (f n) = now" and "distinct ns"
  shows "fmlookup (pt_entries t) k = Some p \<and> (\<forall>n \<in> set ns. fmlookup (pt_entries (flood f now ns t)) n = Some (f n))
    \<and> pt_ttl_ms (flood f now ns t) = pt_ttl_ms t"
  using assms(1,2,6)
proof (induction ns rule: rev_induct)
  case (snoc n ns)
  let ?t = "flood f now ns t"
  have step: "flood f now (ns @ [n]) t = table_observe n (f n) now ?t" by (simp add: flood_def)
  have ttl: "pt_ttl_ms (flood f now ms t) = pt_ttl_ms t" for ms
    by (induction ms rule: rev_induct) (auto simp: flood_def observe_frame)
  have "k \<noteq> n" "0 < pt_ttl_ms ?t" using snoc.prems(2) assms(3) ttl by auto
  from observe_order[OF snoc.prems(1)[unfolded step] this assms(4,5)]
  have now: "fmlookup (pt_entries ?t) k = Some p" "fmlookup (pt_entries (table_observe n (f n) now ?t)) n = Some (f n)"
    "\<And>m r. fmlookup (pt_entries ?t) m = Some r \<Longrightarrow> d_last_seen_ms r = now \<Longrightarrow> m \<noteq> n \<Longrightarrow>
       fmlookup (pt_entries (table_observe n (f n) now ?t)) m = Some r"
    by blast+
  from snoc.IH[OF now(1)] snoc.prems have "fmlookup (pt_entries t) k = Some p" "\<forall>m \<in> set ns. fmlookup (pt_entries ?t) m = Some (f m)"
    by auto
  moreover have "fmlookup (pt_entries (table_observe n (f n) now ?t)) m = Some (f m)" if "m \<in> set (ns @ [n])" for m
    using that now(2) now(3)[of m "f m"] calculation(2) assms(5) by (cases "m = n") simp_all
  moreover have "pt_ttl_ms (table_observe n (f n) now ?t) = pt_ttl_ms t" using ttl observe_frame by simp
  ultimately show ?case unfolding step by blast
qed (simp add: flood_def)

lemma flood_evicts:
  assumes "0 < pt_ttl_ms t" and "length ns = pt_max_peers t" and "distinct ns" and "ns \<noteq> []" and "k \<notin> set ns"
    and "fmlookup (pt_entries t) k = Some p" and "d_last_seen_ms p < now" and "\<And>n. d_last_seen_ms (f n) = now"
  shows "fmlookup (pt_entries (flood f now ns t)) k = None"
proof (rule ccontr)
  assume "fmlookup (pt_entries (flood f now ns t)) k \<noteq> None"
  then obtain p' where p': "fmlookup (pt_entries (flood f now ns t)) k = Some p'" by blast
  have sub: "fmlookup (pt_entries (flood f now ms t)) k = Some r \<Longrightarrow> k \<notin> set ms \<Longrightarrow> fmlookup (pt_entries t) k = Some r" for ms r
  proof (induction ms rule: rev_induct)
    case (snoc n ms)
    then have "fmlookup (pt_entries (flood f now ms t)) k = Some r"
      by (auto simp: flood_def table_observe_def Let_def dest!: enforce_cap_submap split: if_splits) (auto simp: prune_keeps)
    with snoc show ?case by simp
  qed (simp add: flood_def)
  then have "p' = p" using p' assms(5,6) by auto
  with flood_order[OF p' assms(5,1) _ assms(8,3)] assms(7)
  have "insert k (set ns) \<subseteq> fset (fmdom (pt_entries (flood f now ns t)))" using p' by (auto simp: fmlookup_dom_iff)
  then have "card (insert k (set ns)) \<le> fm_len (pt_entries (flood f now ns t))"
    unfolding fm_len_def fcard.rep_eq by (rule card_mono[rotated]) simp
  moreover have "card (insert k (set ns)) = Suc (pt_max_peers t)" using assms(2,3,5) by (simp add: distinct_card)
  moreover have "pt_max_peers (flood f now ms t) = pt_max_peers t" for ms
    by (induction ms rule: rev_induct) (auto simp: flood_def observe_frame)
  moreover obtain ms n where "ns = ms @ [n]" using assms(4) by (metis rev_exhaust)
  ultimately show False using observe_frame[of n "f n" now "flood f now ms t"] by (simp add: flood_def)
qed

section \<open>Properties\<close>

text \<open>
  C30: nobody on the network can make the service hold more than it should. Over every history of
  announcements, withdrawals, renames and requests, the table has at most 256 entries, and each
  has a name to show of at most 128 octets without control characters, at most sixteen distinct
  valid pairing ids, profile texts and an identity tag of the right form, and a port.
\<close>

theorem discovery_is_bounded:
  assumes "discovery_run did d"
  shows "fm_len (pt_entries (dc_table d)) \<le> max_peers \<and> fmpred (\<lambda>_ p. discovered_ok p) (pt_entries (dc_table d))"
  using run_ok[OF assms] by (simp add: discovery_ok_def table_ok_def)

theorem discovery_is_bounded_witness:
  "\<exists>d. dormant ''ab'' 7 = Inr d \<and> fm_len (pt_entries (dc_table (browse_event (\<lambda>n. n) [] 5 (ServiceRemoved ''x'') d))) \<le> max_peers"
proof -
  have "sanitise_instance ''ab'' = Some ''ab''"
    by (simp add: sanitise_instance_def strip_controls_def instance_char_def trim_def trim_list_def truncate_bytes_def non_empty_def
        char_len_def in_range_def is_control_def is_whitespace_def max_label_len_def Let_def)
  then obtain d where d: "dormant ''ab'' 7 = Inr d" by (simp add: dormant_def)
  then have "discovery_run (\<lambda>n. n) (browse_event (\<lambda>n. n) [] 5 (ServiceRemoved ''x'') d)"
    by (blast intro: discovery_run.intros discovery_step.intros)
  from discovery_is_bounded[OF this] d show ?thesis by blast
qed

text \<open>
  The listing is a function of what was heard. In whatever order the hash map is walked, the
  listing is the same; it has each endpoint once, and every entry that is still fresh is in it at its
  endpoint, with its pairing ids and seen no later than what is shown.
\<close>

theorem listing_ignores_map_order:
  assumes "m = pt_entries (table_prune now t)" and "distinct order" and "set order = fset (fmdom m)"
    and "distinct order'" and "set order' = fset (fmdom m)" and "distinct (map d_discovery_id (fm_values m))"
  shows "fst (table_snapshot order now t) = fst (table_snapshot order' now t)
    \<and> distinct (map d_addr (fst (table_snapshot order now t)))
    \<and> list_all (\<lambda>p. list_ex (\<lambda>q. d_addr q = canonical_endpoint (d_addr p) \<and> set (d_pairing_ids p) \<subseteq> set (d_pairing_ids q)
         \<and> d_last_seen_ms p \<le> d_last_seen_ms q) (fst (table_snapshot order now t))) (fm_values m)"
proof -
  let ?f = "\<lambda>p. (d_discovery_id p, addr_key (d_addr p))"
  let ?ps = "values_in order m" and ?qs = "values_in order' m"
  note ps = snapshot_mem[OF assms(2,3,6)]
  have snap: "fst (table_snapshot order now t) = sort_key ?f (map snd (foldl merge_endpoint [] ?ps))"
    "fst (table_snapshot order' now t) = sort_key ?f (map snd (foldl merge_endpoint [] ?qs))"
    by (simp_all add: table_snapshot_def Let_def assms(1))
  have "mset ?qs = mset ?ps" using values_in_fmap[OF assms(2,3)] values_in_fmap[OF assms(4,5)] by simp
  from merged_perm[OF ps(1) this]
  have "mset (map snd (foldl merge_endpoint [] ?ps)) = mset (sort_key ?f (map snd (foldl merge_endpoint [] ?qs)))" by simp
  moreover have "inj_on ?f (set (map snd (foldl merge_endpoint [] ?ps)))"
    using merged_addr_inj[OF ps(1)] addr_key_inj by (fastforce simp: inj_on_def)
  moreover have "sorted (map ?f (sort_key ?f (map snd (foldl merge_endpoint [] ?qs))))" by simp
  ultimately have "fst (table_snapshot order now t) = fst (table_snapshot order' now t)"
    unfolding snap by (rule sort_key_inj_key_eq)
  moreover have "distinct (map d_addr (fst (table_snapshot order now t)))" unfolding snap by (rule listed_once[OF ps(1)])
  moreover have "list_ex (\<lambda>q. d_addr q = endpoint_of p \<and> set (d_pairing_ids p) \<subseteq> set (d_pairing_ids q)
      \<and> d_last_seen_ms p \<le> d_last_seen_ms q) (fst (table_snapshot order now t))" if "p \<in> set (fm_values m)" for p
    using listed_complete[OF ps(1), of p] that ps(2) unfolding snap list_ex_iff set_sort by blast
  ultimately show ?thesis by (simp add: list_all_iff)
qed

definition demo_peer_at :: "string \<Rightarrow> string list \<Rightarrow> int \<Rightarrow> discovered_peer" where
  "demo_peer_at name ids seen = \<lparr>d_group_identity = None, d_discovery_id = name, d_pairing_ids = ids, d_name = name,
     d_profile = None, d_addr = \<lparr>sa_ip = V4 10 0 0 1, sa_port = 7, sa_scope = 0\<rparr>, d_last_seen_ms = seen\<rparr>"

definition demo_table :: peer_table where
  "demo_table = peer_table_default\<lparr>pt_entries := fmupd ''a'' (demo_peer_at ''a'' [''x''] 5) (fmupd ''b'' (demo_peer_at ''b'' [''y''] 6) fmempty)\<rparr>"

lemma demo_fresh: "is_peer_fresh_for (d_last_seen_ms (demo_peer_at n ids s)) 7 peer_ttl_ms \<longleftrightarrow> 7 - s < 180000" if "0 \<le> s" "s < 100"
  using that by (auto simp: is_peer_fresh_for_def demo_peer_at_def i64_saturating_add_def i64_min_def i64_max_def peer_ttl_ms_def)

theorem listing_ignores_map_order_witness:
  "fst (table_snapshot [''a'', ''b''] 7 demo_table) = fst (table_snapshot [''b'', ''a''] 7 demo_table)
   \<and> fst (table_snapshot [''a'', ''b''] 7 demo_table) = [demo_peer_at ''b'' [''x'', ''y''] 6]"
proof -
  have e: "pt_entries (table_prune 7 demo_table) = pt_entries demo_table"
    by (rule fmap_ext) (simp add: table_prune_def demo_table_def peer_table_default_def peer_table_new_def demo_fresh split: option.split)
  have dom: "fset (fmdom (pt_entries (table_prune 7 demo_table))) = {''a'', ''b''}" unfolding e by (auto simp: demo_table_def)
  have "mset (fm_values (pt_entries (table_prune 7 demo_table))) = mset (values_in [''a'', ''b''] (pt_entries demo_table))"
    using values_in_fmap[of "[''a'', ''b'']" "pt_entries (table_prune 7 demo_table)"] dom by (simp add: e)
  then have "mset (map d_discovery_id (fm_values (pt_entries (table_prune 7 demo_table)))) = {#''a'', ''b''#}"
    by (simp add: values_in_def List.map_filter_def demo_table_def demo_peer_at_def)
  then have ids: "distinct (map d_discovery_id (fm_values (pt_entries (table_prune 7 demo_table))))"
    by (simp add: mset_eq_imp_distinct_iff[of _ "[''a'', ''b'']"])
  have "fst (table_snapshot [''a'', ''b''] 7 demo_table) = [demo_peer_at ''b'' [''x'', ''y''] 6]"
    by (simp add: table_snapshot_def Let_def e) (simp add: values_in_def List.map_filter_def demo_table_def merge_endpoint_def
        replaces_def canonical_endpoint_def demo_peer_at_def Let_def)
  with listing_ignores_map_order[OF refl _ _ _ _ ids, of "[''a'', ''b'']" "[''b'', ''a'']"] dom show ?thesis by auto
qed

text \<open>
  A flood does push out a device that is still talking. Whatever device is in the table, however
  recently it was seen, 256 announcements of other services within one later millisecond evict it.
\<close>

theorem flood_evicts_live_peer:
  assumes "pt_ttl_ms t = peer_ttl_ms" and "pt_max_peers t = max_peers" and "length ns = max_peers" and "distinct ns" and "k \<notin> set ns"
    and "fmlookup (pt_entries t) k = Some p" and "d_last_seen_ms p < now" and "\<And>n. d_last_seen_ms (f n) = now"
  shows "fmlookup (pt_entries (foldl (\<lambda>t n. table_observe n (f n) now t) t ns)) k = None"
proof -
  have "ns \<noteq> []" "0 < pt_ttl_ms t" using assms(1,3) by (auto simp: peer_ttl_ms_def max_peers_def)
  with flood_evicts[of t ns k p now f] assms(2-) show ?thesis by (simp add: flood_def)
qed

theorem flood_evicts_live_peer_witness:
  "is_peer_fresh (d_last_seen_ms (demo_peer_at ''b'' [''y''] 6)) 7
   \<and> fmlookup (pt_entries demo_table) ''b'' = Some (demo_peer_at ''b'' [''y''] 6)
   \<and> fmlookup (pt_entries (foldl (\<lambda>t n. table_observe n (demo_peer_at n [] 7) 7 t) demo_table (map show_nat [0..<256]))) ''b'' = None"
proof -
  have b: "fmlookup (pt_entries demo_table) ''b'' = Some (demo_peer_at ''b'' [''y''] 6)" by (simp add: demo_table_def)
  have "show_nat n \<noteq> ''b''" for n
    using show_nat_spec[of n] by (auto simp: is_ascii_digit_def in_range_def)
  then have "''b'' \<notin> set (map show_nat [0..<256])" by (metis imageE list.set_map)
  then have "fmlookup (pt_entries (foldl (\<lambda>t n. table_observe n (demo_peer_at n [] 7) 7 t) demo_table (map show_nat [0..<256]))) ''b'' = None"
    using flood_evicts_live_peer[OF _ _ _ _ _ b, of "map show_nat [0..<256]" 7 "\<lambda>n. demo_peer_at n [] 7"]
    by (auto simp: demo_table_def peer_table_default_def peer_table_new_def max_peers_def demo_peer_at_def distinct_map inj_on_def dest: show_nat_inj)
  with b show ?thesis by (simp add: is_peer_fresh_def demo_fresh)
qed

text \<open>
  Setting the clock back never expires a device. An entry that is fresh at some time is fresh at
  every earlier time on the clock, so a backwards step keeps every entry for that much longer.
\<close>

theorem clock_step_strands_entries:
  assumes "now' \<le> now" and "fmlookup (pt_entries (table_prune now t)) k = Some p"
  shows "fmlookup (pt_entries (table_prune now' t)) k = Some p"
proof -
  have "i64_saturating_add now' (- s) \<le> i64_saturating_add now (- s)" for s
    using assms(1) by (simp add: i64_saturating_add_def)
  with assms(2) show ?thesis by (auto simp: prune_keeps is_peer_fresh_for_def intro: order_le_less_trans)
qed

theorem clock_step_strands_entries_witness:
  "fmlookup (pt_entries (table_prune (-1000000) demo_table)) ''b'' = Some (demo_peer_at ''b'' [''y''] 6)"
  by (rule clock_step_strands_entries[of _ 7])
     (simp_all add: prune_keeps demo_table_def peer_table_default_def peer_table_new_def demo_fresh)

end
