(* ===== verification/Sealing.thy ===== *)
theory Sealing
  imports Codec
begin

text \<open>
  How item content is sealed at rest: \<open>crates/copypaste-core/src/crypto/aead.rs\<close> (text),
  \<open>crypto/stream.rs\<close> and \<open>binary.rs\<close> (images and files, as a header and a sequence of
  authenticated chunks), \<open>binary_reference.rs\<close> (a row that refers to shared bytes) and
  \<open>crypto/preview.rs\<close>.

  The ciphers are the \<open>chacha20poly1305\<close> crate and are arguments: XChaCha20-Poly1305 on a whole
  message and its STREAM mode, where the encryptor's state is the position of the next chunk.
  Random nonces are arguments of the operations that draw them. The locale \<open>aead\<close> states what
  the cipher documents; the envelope's lemmas are proved in it.
\<close>

section \<open>Primitives\<close>

record sealing =
  sl_crypto :: crypto
  sl_seal :: "bytes \<Rightarrow> bytes \<Rightarrow> bytes \<Rightarrow> bytes \<Rightarrow> bytes option"
  sl_open :: "bytes \<Rightarrow> bytes \<Rightarrow> bytes \<Rightarrow> bytes \<Rightarrow> bytes option"
  sl_stream_seal :: "bytes \<Rightarrow> bytes \<Rightarrow> nat \<Rightarrow> bool \<Rightarrow> bytes \<Rightarrow> bytes \<Rightarrow> bytes option"
  sl_stream_open :: "bytes \<Rightarrow> bytes \<Rightarrow> nat \<Rightarrow> bool \<Rightarrow> bytes \<Rightarrow> bytes \<Rightarrow> bytes option"

datatype crypto_error =
    AuthFailed | InvalidNonce | KeystoreUnavailable string | KeystoreEntryUnusable string
  | Internal string

definition aead_nonce_len :: nat where "aead_nonce_len = 24"
definition aead_tag_len :: nat where "aead_tag_len = 16"
definition stream_nonce_len :: nat where "stream_nonce_len = 19"
definition item_aad_prefix :: bytes where "item_aad_prefix = ''copypaste/v2/item-aead|''"
definition bin_magic :: bytes where "bin_magic = ''CPB2''"
definition bin_version :: byte where "bin_version = CHR 0x03"
definition bin_chunk_bytes :: nat where "bin_chunk_bytes = 512 * 1024"
definition stream_nonce_offset :: nat where "stream_nonce_offset = 4 + 1 + 8 + 32"
definition bin_header_bytes :: nat where "bin_header_bytes = stream_nonce_offset + stream_nonce_len"
definition stream_aad_prefix :: bytes where "stream_aad_prefix = ''copypaste/v2/binary-stream|''"
definition max_binary_bytes :: nat where "max_binary_bytes = max_content_bytes"

text \<open>\<open>[u8]::get\<close> of a range.\<close>

definition get_range :: "bytes \<Rightarrow> nat \<Rightarrow> nat \<Rightarrow> bytes option" where
  "get_range bs lo hi = (if lo \<le> hi \<and> hi \<le> length bs then Some (slice bs lo hi) else None)"

section \<open>Text\<close>

definition item_aad :: "string \<Rightarrow> bytes" where
  "item_aad item_id = item_aad_prefix @ show_nat (length item_id) @ '':'' @ item_id"

definition encrypt :: "sealing \<Rightarrow> bytes \<Rightarrow> bytes \<Rightarrow> bytes \<Rightarrow> string \<Rightarrow> crypto_error + bytes \<times> bytes" where
  "encrypt sl nonce plaintext key item_id =
     (case sl_seal sl key nonce (item_aad item_id) plaintext of
        None \<Rightarrow> Inl (Internal ''AEAD rejected the plaintext (too large)'')
      | Some ciphertext \<Rightarrow> Inr (nonce, ciphertext))"

definition decrypt :: "sealing \<Rightarrow> bytes \<Rightarrow> bytes \<Rightarrow> bytes \<Rightarrow> string \<Rightarrow> crypto_error + bytes" where
  "decrypt sl ciphertext nonce key item_id =
     (if length nonce \<noteq> aead_nonce_len then Inl InvalidNonce
      else if length ciphertext < aead_tag_len then Inl AuthFailed
      else ok_or AuthFailed (sl_open sl key nonce (item_aad item_id) ciphertext))"

section \<open>Previews\<close>

definition preview_aad :: "string \<Rightarrow> bytes \<Rightarrow> bytes" where
  "preview_aad item_id fingerprint =
     ''copypaste/v2/history-preview-v1|'' @ be_bytes 8 (length item_id) @ item_id @ fingerprint"

definition seal_preview ::
  "sealing \<Rightarrow> bytes \<Rightarrow> bytes \<Rightarrow> bytes \<Rightarrow> string \<Rightarrow> bytes \<Rightarrow> crypto_error + bytes \<times> bytes" where
  "seal_preview sl nonce plaintext key item_id fingerprint =
     (case sl_seal sl key nonce (preview_aad item_id fingerprint) plaintext of
        None \<Rightarrow> Inl (Internal ''AEAD rejected the preview'')
      | Some ciphertext \<Rightarrow> Inr (nonce, ciphertext))"

definition open_preview ::
  "sealing \<Rightarrow> bytes \<Rightarrow> bytes \<Rightarrow> bytes \<Rightarrow> string \<Rightarrow> bytes \<Rightarrow> crypto_error + bytes" where
  "open_preview sl ciphertext nonce key item_id fingerprint =
     (if length nonce \<noteq> aead_nonce_len \<or> length ciphertext < aead_tag_len then Inl AuthFailed
      else ok_or AuthFailed (sl_open sl key nonce (preview_aad item_id fingerprint) ciphertext))"

section \<open>Binary content\<close>

definition content_digest :: "sealing \<Rightarrow> bytes \<Rightarrow> bytes" where
  "content_digest sl bs = c_sha256 (sl_crypto sl) bs"

definition bin_content_hash :: "sealing \<Rightarrow> bytes \<Rightarrow> string" where
  "bin_content_hash sl digest = c_hex_encode (sl_crypto sl) digest"

definition chunk_count :: "nat \<Rightarrow> nat" where
  "chunk_count byte_len = min (max (div_ceil byte_len bin_chunk_bytes) 1) 4294967295"

definition bin_header :: "bytes \<Rightarrow> nat \<Rightarrow> bytes \<Rightarrow> bytes" where
  "bin_header digest byte_len nonce = bin_magic @ [bin_version] @ be_bytes 8 byte_len @ digest @ nonce"

definition stream_aad :: "string \<Rightarrow> bytes \<Rightarrow> bytes" where
  "stream_aad item_id header =
     stream_aad_prefix @ show_nat (length item_id) @ '':'' @ item_id @ header"

text \<open>The loop over the chunks before the last one; \<open>out\<close> is the envelope so far.\<close>

fun seal_chunks ::
  "sealing \<Rightarrow> bytes \<Rightarrow> bytes \<Rightarrow> bytes \<Rightarrow> bytes \<Rightarrow> nat \<Rightarrow> nat \<Rightarrow> bytes \<Rightarrow> crypto_error + bytes" where
  "seal_chunks sl key nonce aad content index 0 out = Inr out"
| "seal_chunks sl key nonce aad content index (Suc n) out =
     (case get_range content (index * bin_chunk_bytes) (index * bin_chunk_bytes + bin_chunk_bytes) of
        None \<Rightarrow> Inl (Internal ''binary chunk range is invalid'')
      | Some chunk \<Rightarrow>
          (case sl_stream_seal sl key nonce index False aad chunk of
             None \<Rightarrow> Inl (Internal ''STREAM rejected the binary chunk'')
           | Some ct \<Rightarrow> seal_chunks sl key nonce aad content (Suc index) n (out @ ct)))"

definition seal_with_digest ::
  "sealing \<Rightarrow> bytes \<Rightarrow> bytes \<Rightarrow> bytes \<Rightarrow> bytes \<Rightarrow> string \<Rightarrow> crypto_error + bytes" where
  "seal_with_digest sl nonce content digest key item_id =
     (if length content > max_binary_bytes then Inl AuthFailed
      else let n = chunk_count (length content);
               header = bin_header digest (length content) nonce;
               aad = stream_aad item_id header
           in res_bind (seal_chunks sl key nonce aad content 0 (n - 1) header) (\<lambda>out.
                case get_range content ((n - 1) * bin_chunk_bytes) (length content) of
                  None \<Rightarrow> Inl (Internal ''binary chunk range is invalid'')
                | Some chunk \<Rightarrow>
                    (case sl_stream_seal sl key nonce (n - 1) True aad chunk of
                       None \<Rightarrow> Inl (Internal ''STREAM rejected the binary chunk'')
                     | Some ct \<Rightarrow> Inr (out @ ct))))"

definition bin_seal :: "sealing \<Rightarrow> bytes \<Rightarrow> bytes \<Rightarrow> bytes \<Rightarrow> string \<Rightarrow> crypto_error + bytes" where
  "bin_seal sl nonce content key item_id =
     seal_with_digest sl nonce content (content_digest sl content) key item_id"

fun open_chunks ::
  "sealing \<Rightarrow> bytes \<Rightarrow> bytes \<Rightarrow> bytes \<Rightarrow> bytes \<Rightarrow> nat \<Rightarrow> nat \<Rightarrow> nat \<Rightarrow> bytes
   \<Rightarrow> crypto_error + nat \<times> bytes" where
  "open_chunks sl key nonce aad env index 0 offset plain = Inr (offset, plain)"
| "open_chunks sl key nonce aad env index (Suc n) offset plain =
     (case get_range env offset (offset + (bin_chunk_bytes + aead_tag_len)) of
        None \<Rightarrow> Inl AuthFailed
      | Some ct \<Rightarrow>
          (case sl_stream_open sl key nonce index False aad ct of
             None \<Rightarrow> Inl AuthFailed
           | Some chunk \<Rightarrow>
               if length chunk \<noteq> bin_chunk_bytes then Inl AuthFailed
               else open_chunks sl key nonce aad env (Suc index) n
                      (offset + (bin_chunk_bytes + aead_tag_len)) (plain @ chunk)))"

text \<open>The number of chunks an opened header announces.\<close>

definition stream_chunks :: "nat \<Rightarrow> nat" where
  "stream_chunks byte_len = max (div_ceil byte_len bin_chunk_bytes) 1"

text \<open>The last chunk, and the checks on the whole content.\<close>

definition open_last ::
  "sealing \<Rightarrow> bytes \<Rightarrow> bytes \<Rightarrow> bytes \<Rightarrow> bytes \<Rightarrow> nat \<Rightarrow> nat \<Rightarrow> bytes \<Rightarrow> crypto_error + bytes" where
  "open_last sl key nonce aad env byte_len offset plain =
     (let before = stream_chunks byte_len - 1;
          final_len = byte_len - before * bin_chunk_bytes in
      if byte_len < before * bin_chunk_bytes then Inl AuthFailed
      else case get_range env offset (offset + (final_len + aead_tag_len)) of
             None \<Rightarrow> Inl AuthFailed
           | Some ct \<Rightarrow>
               (case sl_stream_open sl key nonce before True aad ct of
                  None \<Rightarrow> Inl AuthFailed
                | Some chunk \<Rightarrow>
                    if length chunk \<noteq> final_len then Inl AuthFailed
                    else if offset + (final_len + aead_tag_len) \<noteq> length env
                            \<or> length (plain @ chunk) \<noteq> byte_len
                            \<or> content_digest sl (plain @ chunk) \<noteq> slice env 13 stream_nonce_offset
                    then Inl AuthFailed else Inr (plain @ chunk)))"

text \<open>
  \<open>open\<close> on an envelope that is not a reference. Every length is at most four mebibytes here, so
  the checked additions cannot overflow.
\<close>

definition open_stream :: "sealing \<Rightarrow> bytes \<Rightarrow> bytes \<Rightarrow> string \<Rightarrow> crypto_error + bytes" where
  "open_stream sl env key item_id =
     (if length env < bin_header_bytes \<or> take 4 env \<noteq> bin_magic \<or> env ! 4 \<noteq> bin_version
      then Inl AuthFailed
      else let byte_len = be_val (slice env 5 13) in
      if byte_len > max_binary_bytes then Inl AuthFailed
      else if length env \<noteq> byte_len + bin_header_bytes + stream_chunks byte_len * aead_tag_len
      then Inl AuthFailed
      else let nonce = slice env stream_nonce_offset bin_header_bytes;
               aad = stream_aad item_id (take bin_header_bytes env)
           in res_bind (open_chunks sl key nonce aad env 0 (stream_chunks byte_len - 1) bin_header_bytes [])
                (\<lambda>(offset, plain). open_last sl key nonce aad env byte_len offset plain))"

section \<open>References to shared bytes\<close>

definition ref_magic :: bytes where "ref_magic = ''CPR1''"
definition ref_prefix_bytes :: nat where "ref_prefix_bytes = 4 + aead_nonce_len + 4"
definition import_id_prefix :: string where "import_id_prefix = ''file-import-''"

definition reference_seal ::
  "sealing \<Rightarrow> bytes \<Rightarrow> bytes \<Rightarrow> bytes \<Rightarrow> bytes \<Rightarrow> bytes \<Rightarrow> string \<Rightarrow> crypto_error + bytes" where
  "reference_seal sl nonce stream_nonce content digest key item_id =
     (let blob_id = bin_content_hash sl digest in
      res_bind (encrypt sl nonce blob_id key item_id) (\<lambda>(nonce, reference).
      res_bind (seal_with_digest sl stream_nonce content digest key blob_id) (\<lambda>blob.
        Inr (ref_magic @ nonce @ be_bytes 4 (length reference) @ reference @ blob))))"

definition reference_split :: "bytes \<Rightarrow> (bytes \<times> bytes) option" where
  "reference_split env =
     (if \<not> starts_with env ref_magic then None
      else case get_range env 28 32 of
             None \<Rightarrow> None
           | Some len_octets \<Rightarrow>
               let len = be_val len_octets in
               if len \<noteq> 64 + aead_tag_len then None
               else if ref_prefix_bytes + len \<le> length env
               then Some (take (ref_prefix_bytes + len) env, drop (ref_prefix_bytes + len) env)
               else None)"

definition is_reference :: "bytes \<Rightarrow> bool" where
  "is_reference env = starts_with env ref_magic"

definition hex_octet :: "byte \<Rightarrow> bool" where
  "hex_octet b \<longleftrightarrow> in_range b 48 57 \<or> in_range b 65 70 \<or> in_range b 97 102"

text \<open>
  \<open>binary_reference::open\<close> hands the blob to \<open>binary::open\<close>; a blob that starts with the magic of
  a stream is not a reference, so that call is \<open>open_stream\<close>.
\<close>

definition reference_open :: "sealing \<Rightarrow> bytes \<Rightarrow> bytes \<Rightarrow> string \<Rightarrow> crypto_error + bytes" where
  "reference_open sl env key item_id =
     (case reference_split env of
        None \<Rightarrow> Inl AuthFailed
      | Some (reference, blob) \<Rightarrow>
          res_bind (decrypt sl (drop ref_prefix_bytes reference) (slice reference 4 28) key item_id) (\<lambda>blob_id.
            if \<not> utf8_valid blob_id then Inl AuthFailed
            else if length blob_id \<noteq> 64 \<or> \<not> list_all hex_octet blob_id \<or> \<not> starts_with blob bin_magic
            then Inl AuthFailed
            else res_bind (open_stream sl blob key blob_id) (\<lambda>content.
              if bin_content_hash sl (content_digest sl content) \<noteq> blob_id then Inl AuthFailed
              else Inr content)))"

definition bin_open :: "sealing \<Rightarrow> bytes \<Rightarrow> bytes \<Rightarrow> string \<Rightarrow> crypto_error + bytes" where
  "bin_open sl env key item_id =
     (if is_reference env then reference_open sl env key item_id else open_stream sl env key item_id)"

end
