(* ===== verification/Sealing_Props.thy ===== *)
theory Sealing_Props
  imports Sealing Group_Props
begin

text \<open>
  What the sealed forms guarantee. The locale \<open>aead\<close> is the contract of the cipher; in it the
  binary envelope is shown canonical: an envelope opens to a content exactly when sealing that
  content under the envelope's own nonce writes that envelope. So opening inverts sealing, no two
  envelopes with one nonce carry one content, and a header, a length or a chunk that was not
  written by \<open>seal\<close> is refused.
\<close>

section \<open>Lengths and ranges\<close>

lemmas sealing_lengths = aead_nonce_len_def aead_tag_len_def stream_nonce_len_def stream_nonce_offset_def
  bin_header_bytes_def ref_prefix_bytes_def

lemma chunk_pos [simp]: "0 < bin_chunk_bytes" "bin_chunk_bytes \<noteq> 0"
  by (simp_all add: bin_chunk_bytes_def)

lemma get_range_Some: "get_range bs lo hi = Some xs \<longleftrightarrow> lo \<le> hi \<and> hi \<le> length bs \<and> xs = slice bs lo hi"
  by (auto simp: get_range_def)

lemma length_slice: "hi \<le> length bs \<Longrightarrow> length (slice bs lo hi) = hi - lo"
  by (simp add: slice_def)

lemma slice_append_left: "hi \<le> length xs \<Longrightarrow> slice (xs @ ys) lo hi = slice xs lo hi"
  by (simp add: slice_def)

lemma slice_middle: "length xs = lo \<Longrightarrow> length ys = n \<Longrightarrow> slice (xs @ ys @ zs) lo (lo + n) = ys"
  by (simp add: slice_def)

lemma take_slice: "lo \<le> hi \<Longrightarrow> take lo bs @ slice bs lo hi = take hi bs"
  by (metis le_add_diff_inverse slice_def take_add)

lemma slice_append: "lo \<le> mid \<Longrightarrow> mid \<le> hi \<Longrightarrow> slice bs lo mid @ slice bs mid hi = slice bs lo hi"
proof -
  assume a: "lo \<le> mid" "mid \<le> hi"
  have "drop mid bs = drop (mid - lo) (drop lo bs)" using a by simp
  moreover have "hi - lo = (mid - lo) + (hi - mid)" using a by simp
  ultimately show ?thesis by (simp only: slice_def take_add)
qed

lemma chunk_bounds:
  fixes b :: nat
  assumes "n = stream_chunks b"
  shows "(n - 1) * bin_chunk_bytes \<le> b" "b \<le> n * bin_chunk_bytes" "0 < n"
proof -
  let ?c = bin_chunk_bytes
  have "(n - 1) * ?c \<le> b \<and> b \<le> n * ?c"
  proof (cases "b = 0")
    case True
    then show ?thesis using assms by (simp add: stream_chunks_def div_ceil_def)
  next
    case False
    then have "b + ?c - 1 = (b - 1) + ?c" by simp
    then have "div_ceil b ?c = Suc ((b - 1) div ?c)" by (simp only: div_ceil_def div_add_self2 chunk_pos) simp
    then have n: "n = Suc ((b - 1) div ?c)" using assms by (simp add: stream_chunks_def)
    define q where "q = (b - 1) div ?c"
    have "q * ?c \<le> b - 1" unfolding q_def by (rule div_times_less_eq_dividend)
    moreover have "b - 1 < ?c + q * ?c" unfolding q_def by (rule dividend_less_div_times) simp
    moreover have "n = Suc q" using n q_def by simp
    ultimately have "(n - 1) * ?c \<le> b - 1" "b - 1 < n * ?c" by simp_all
    then show ?thesis using False by linarith
  qed
  then show "(n - 1) * ?c \<le> b" "b \<le> n * ?c" by simp_all
  show "0 < n" using assms by (simp add: stream_chunks_def)
qed

lemma chunk_count_eq: "b \<le> max_binary_bytes \<Longrightarrow> chunk_count b = stream_chunks b"
proof -
  assume "b \<le> max_binary_bytes"
  then have "div_ceil b bin_chunk_bytes \<le> div_ceil max_binary_bytes bin_chunk_bytes"
    by (simp add: div_ceil_def div_le_mono)
  also have "\<dots> \<le> 4294967295"
    by (simp add: div_ceil_def max_binary_bytes_def max_content_bytes_def bin_chunk_bytes_def)
  finally show ?thesis by (simp add: chunk_count_def stream_chunks_def)
qed

lemma seal_chunks_prefix:
  "seal_chunks sl key nonce aad content index n out = Inr out' \<Longrightarrow> \<exists>zs. out' = out @ zs"
proof (induction n arbitrary: index out)
  case 0
  then show ?case by simp
next
  case (Suc n)
  then obtain ct where "seal_chunks sl key nonce aad content (Suc index) n (out @ ct) = Inr out'"
    by (auto split: option.splits)
  from Suc.IH[OF this] show ?case by auto
qed

section \<open>The cipher's contract\<close>

text \<open>
  What the cipher documents: opening is the inverse of sealing, on whole messages and on chunks; a
  sealed message is sixteen octets longer; and messages of the sizes used here are accepted. The
  digest has 32 octets and its text form 64 hexadecimal digits.
\<close>

definition aead_ok :: "sealing \<Rightarrow> bool" where
  "aead_ok sl \<longleftrightarrow>
     (\<forall>k n a c m. sl_open sl k n a c = Some m \<longleftrightarrow> sl_seal sl k n a m = Some c)
     \<and> (\<forall>k n a c m. sl_seal sl k n a m = Some c \<longrightarrow> length c = length m + aead_tag_len)
     \<and> (\<forall>k n a m. length m \<le> max_content_bytes \<longrightarrow> sl_seal sl k n a m \<noteq> None)
     \<and> (\<forall>k n i l a c m. sl_stream_open sl k n i l a c = Some m \<longleftrightarrow> sl_stream_seal sl k n i l a m = Some c)
     \<and> (\<forall>k n i l a c m. sl_stream_seal sl k n i l a m = Some c \<longrightarrow> length c = length m + aead_tag_len)
     \<and> (\<forall>k n i l a m. length m \<le> max_content_bytes \<longrightarrow> i < 4294967295 \<longrightarrow> sl_stream_seal sl k n i l a m \<noteq> None)
     \<and> (\<forall>m. length (c_sha256 (sl_crypto sl) m) = 32)
     \<and> (\<forall>d. length (c_hex_encode (sl_crypto sl) d) = 2 * length d
             \<and> list_all hex_octet (c_hex_encode (sl_crypto sl) d))"

lemma aead_okD:
  assumes "aead_ok sl"
  shows whole: "sl_open sl k n a c = Some m \<longleftrightarrow> sl_seal sl k n a m = Some c"
    and whole_length: "sl_seal sl k n a m = Some c \<Longrightarrow> length c = length m + aead_tag_len"
    and whole_seals: "length m \<le> max_content_bytes \<Longrightarrow> sl_seal sl k n a m \<noteq> None"
    and stream: "sl_stream_open sl k n i l a c = Some m \<longleftrightarrow> sl_stream_seal sl k n i l a m = Some c"
    and stream_length: "sl_stream_seal sl k n i l a m = Some c \<Longrightarrow> length c = length m + aead_tag_len"
    and stream_seals:
      "length m \<le> max_content_bytes \<Longrightarrow> i < 4294967295 \<Longrightarrow> sl_stream_seal sl k n i l a m \<noteq> None"
    and digest_length: "length (c_sha256 (sl_crypto sl) m) = 32"
    and hex_length: "length (c_hex_encode (sl_crypto sl) d) = 2 * length d"
    and hex_digits: "list_all hex_octet (c_hex_encode (sl_crypto sl) d)"
  using assms by (simp_all add: aead_ok_def)

lemma encrypt_decrypt:
  assumes ok: "aead_ok sl"
    and "encrypt sl nonce m key i = Inr (n, c)" "length nonce = aead_nonce_len"
  shows "decrypt sl c n key i = Inr m"
proof -
  from assms(2) have s: "sl_seal sl key nonce (item_aad i) m = Some c" and n: "n = nonce"
    by (auto simp: encrypt_def split: option.splits)
  from s have "length c = length m + aead_tag_len" "sl_open sl key nonce (item_aad i) c = Some m"
    using whole_length[OF ok] whole[OF ok] by blast+
  with n assms(3) show ?thesis by (simp add: decrypt_def)
qed

lemma seal_then_open_chunks:
  assumes ok: "aead_ok sl"
    and "seal_chunks sl key nonce aad content index n out = Inr out'"
    and "starts_with env out'"
  shows "open_chunks sl key nonce aad env index n (length out) (take (index * bin_chunk_bytes) content)
         = Inr (length out', take ((index + n) * bin_chunk_bytes) content)"
  using assms(2)
proof (induction n arbitrary: index out)
  case 0
  then show ?case by simp
next
  case (Suc n)
  let ?lo = "index * bin_chunk_bytes" and ?hi = "index * bin_chunk_bytes + bin_chunk_bytes"
  from Suc.prems obtain ct where hi: "?hi \<le> length content"
    and ct: "sl_stream_seal sl key nonce index False aad (slice content ?lo ?hi) = Some ct"
    and rest: "seal_chunks sl key nonce aad content (Suc index) n (out @ ct) = Inr out'"
    by (auto simp: get_range_Some split: option.splits)
  have len: "length (slice content ?lo ?hi) = bin_chunk_bytes" using hi by (simp add: length_slice)
  then have lct: "length ct = bin_chunk_bytes + aead_tag_len" using stream_length[OF ok ct] by simp
  have prefix: "\<exists>zs. env = out @ ct @ zs"
  proof -
    from seal_chunks_prefix[OF rest] obtain us where "out' = (out @ ct) @ us" ..
    moreover have "take (length out') env = out'" using assms(3) by (simp add: starts_with_iff)
    then have "env = out' @ drop (length out') env" by (metis append_take_drop_id)
    ultimately show ?thesis by (metis append.assoc)
  qed
  then obtain zs where env: "env = out @ ct @ zs" ..
  have get: "get_range env (length out) (length out + (bin_chunk_bytes + aead_tag_len)) = Some ct"
    using lct by (auto simp: get_range_Some env slice_def)
  have tk: "take ?lo content @ slice content ?lo ?hi = take (Suc index * bin_chunk_bytes) content"
    using take_slice[of ?lo ?hi content] by (simp add: add.commute)
  have "sl_stream_open sl key nonce index False aad ct = Some (slice content ?lo ?hi)"
    using stream[OF ok] ct by blast
  then show ?case
    using Suc.IH[OF rest] lct by (simp add: get len tk)
qed

lemma open_then_seal_chunks:
  assumes ok: "aead_ok sl"
    and "open_chunks sl key nonce aad env index n offset plain = Inr (offset', plain')"
    and "length plain = index * bin_chunk_bytes"
  shows "offset' = offset + n * (bin_chunk_bytes + aead_tag_len)
    \<and> length plain' = (index + n) * bin_chunk_bytes
    \<and> seal_chunks sl key nonce aad (plain' @ rest) index n (take offset env) = Inr (take offset' env)
    \<and> take (length plain) plain' = plain"
  using assms(2,3)
proof (induction n arbitrary: index offset plain)
  case 0
  then show ?case by simp
next
  case (Suc n)
  let ?hi = "offset + (bin_chunk_bytes + aead_tag_len)"
  let ?ct = "slice env offset ?hi"
  from Suc.prems(1) obtain chunk where hi: "?hi \<le> length env"
    and op: "sl_stream_open sl key nonce index False aad ?ct = Some chunk"
    and len: "length chunk = bin_chunk_bytes"
    and more: "open_chunks sl key nonce aad env (Suc index) n ?hi (plain @ chunk) = Inr (offset', plain')"
    by (auto simp: get_range_Some split: option.splits if_splits)
  have "length (plain @ chunk) = Suc index * bin_chunk_bytes" using Suc.prems(2) len by simp
  note IH = Suc.IH[OF more this]
  then have tk: "take (length plain + length chunk) plain' = plain @ chunk" by simp
  then have "take (length plain) plain' = plain"
    by (metis append_eq_conv_conj le_add1 min.absorb1 take_take)
  moreover have "slice (plain' @ rest) (index * bin_chunk_bytes) (index * bin_chunk_bytes + bin_chunk_bytes) = chunk"
  proof -
    have "plain' = (plain @ chunk) @ drop (length plain + length chunk) plain'"
      using tk by (metis append_take_drop_id)
    then have "plain' @ rest = plain @ chunk @ (drop (length plain + length chunk) plain' @ rest)" by simp
    then show ?thesis by (metis Suc.prems(2) len slice_middle)
  qed
  moreover have "take offset env @ ?ct = take ?hi env" by (rule take_slice) simp
  moreover have "sl_stream_seal sl key nonce index False aad chunk = Some ?ct" using op stream[OF ok] by blast
  ultimately show ?case using IH
    by (simp add: get_range_def algebra_simps)
qed

lemma header_fields:
  assumes "length nonce = stream_nonce_len" "length digest = 32" "b < 256 ^ 8"
  shows "length (bin_header digest b nonce) = bin_header_bytes"
    "take 4 (bin_header digest b nonce @ body) = bin_magic"
    "(bin_header digest b nonce @ body) ! 4 = bin_version"
    "be_val (slice (bin_header digest b nonce @ body) 5 13) = b"
    "slice (bin_header digest b nonce @ body) 13 stream_nonce_offset = digest"
    "take bin_header_bytes (bin_header digest b nonce @ body) = bin_header digest b nonce"
    "slice (bin_header digest b nonce @ body) stream_nonce_offset bin_header_bytes = nonce"
proof -
  let ?h = "bin_header digest b nonce"
  show len: "length ?h = bin_header_bytes"
    using assms by (simp add: bin_header_def bin_magic_def sealing_lengths)
  then show "take bin_header_bytes (?h @ body) = ?h" by simp
  show "take 4 (?h @ body) = bin_magic" "(?h @ body) ! 4 = bin_version"
    by (simp_all add: bin_header_def bin_magic_def)
  have "slice (?h @ body) 5 (5 + 8) = be_bytes 8 b"
    using slice_middle[of "bin_magic @ [bin_version]" 5 "be_bytes 8 b" 8 "digest @ nonce @ body"]
    by (simp add: bin_header_def bin_magic_def)
  then show "be_val (slice (?h @ body) 5 13) = b" using assms(3) by (simp add: be_val_be_bytes)
  have "slice (?h @ body) 13 (13 + 32) = digest"
    using slice_middle[of "bin_magic @ [bin_version] @ be_bytes 8 b" 13 digest 32 "nonce @ body"] assms
    by (simp add: bin_header_def bin_magic_def)
  then show "slice (?h @ body) 13 stream_nonce_offset = digest" by (simp add: stream_nonce_offset_def)
  have "slice (?h @ body) 45 (45 + 19) = nonce"
    using slice_middle[of "bin_magic @ [bin_version] @ be_bytes 8 b @ digest" 45 nonce 19 body] assms
    by (simp add: bin_header_def bin_magic_def stream_nonce_len_def)
  then show "slice (?h @ body) stream_nonce_offset bin_header_bytes = nonce"
    by (simp add: bin_header_bytes_def stream_nonce_offset_def stream_nonce_len_def)
qed

lemma header_rebuilt:
  assumes "bin_header_bytes \<le> length env" "take 4 env = bin_magic" "env ! 4 = bin_version"
    "b = be_val (slice env 5 13)"
  shows "bin_header (slice env 13 stream_nonce_offset) b (slice env stream_nonce_offset bin_header_bytes)
         = take bin_header_bytes env"
proof -
  have l: "64 \<le> length env" using assms(1) by (simp add: sealing_lengths)
  have "length (slice env 5 13) = 8" using l by (simp add: length_slice)
  then have n8: "be_bytes 8 b = slice env 5 13" using be_bytes_be_val[of "slice env 5 13"] assms(4) by simp
  have "bin_magic @ [bin_version] = take 5 env"
    using l assms(2,3) take_Suc_conv_app_nth[of 4 env] by simp
  then have "(bin_magic @ [bin_version]) @ slice env 5 64 = take 64 env"
    using take_slice[of 5 64 env] by simp
  then have "bin_magic @ bin_version # slice env 5 64 = take 64 env" by (simp only: append_Cons append_assoc append_Nil)
  then show ?thesis
    using l by (simp add: bin_header_def n8 sealing_lengths slice_append flip: append_assoc)
qed

lemma open_stream_Inr:
  assumes "open_stream sl env key i = Inr content" "b = be_val (slice env 5 13)"
    and "nonce = slice env stream_nonce_offset bin_header_bytes"
    and "aad = stream_aad i (take bin_header_bytes env)"
  obtains offset plain where
    "bin_header_bytes \<le> length env" "take 4 env = bin_magic" "env ! 4 = bin_version" "b \<le> max_binary_bytes"
    "open_chunks sl key nonce aad env 0 (stream_chunks b - 1) bin_header_bytes [] = Inr (offset, plain)"
    "open_last sl key nonce aad env b offset plain = Inr content"
  using assms
  by (auto simp: open_stream_def Let_def res_bind_Inr_iff split: if_splits)

lemma open_last_Inr:
  assumes "open_last sl key nonce aad env b offset plain = Inr content" "before = stream_chunks b - 1"
  obtains final where
    "sl_stream_open sl key nonce before True aad (slice env offset (length env)) = Some final"
    "offset \<le> length env" "content = plain @ final" "length content = b"
    "content_digest sl content = slice env 13 stream_nonce_offset"
  using assms
  by (auto simp: open_last_def Let_def get_range_Some split: if_splits option.splits)

lemma open_stream_is_sealed:
  assumes ok: "aead_ok sl"
    and "open_stream sl env key i = Inr content"
  shows "\<exists>nonce. length nonce = stream_nonce_len \<and> bin_seal sl nonce content key i = Inr env"
proof -
  define b n nonce where "b = be_val (slice env 5 13)" and "n = stream_chunks b"
    and "nonce = slice env stream_nonce_offset bin_header_bytes"
  define header where "header = take bin_header_bytes env"
  define aad where "aad = stream_aad i header"
  obtain offset plain where head: "bin_header_bytes \<le> length env" "take 4 env = bin_magic" "env ! 4 = bin_version"
    and small: "b \<le> max_binary_bytes"
    and chunks: "open_chunks sl key nonce aad env 0 (n - 1) bin_header_bytes [] = Inr (offset, plain)"
    and last: "open_last sl key nonce aad env b offset plain = Inr content"
    using open_stream_Inr[OF assms(2) b_def nonce_def aad_def[unfolded header_def]] unfolding n_def by blast
  obtain final where final: "sl_stream_open sl key nonce (n - 1) True aad (slice env offset (length env)) = Some final"
    and ends: "offset \<le> length env" and content: "content = plain @ final" and len: "length content = b"
    and dig: "content_digest sl content = slice env 13 stream_nonce_offset"
    using open_last_Inr[OF last] unfolding n_def by blast
  have header: "bin_header (content_digest sl content) b nonce = header"
    unfolding dig nonce_def header_def by (rule header_rebuilt[OF head b_def])
  have plain: "length plain = (n - 1) * bin_chunk_bytes"
    and sealed: "seal_chunks sl key nonce aad content 0 (n - 1) header = Inr (take offset env)"
    using open_then_seal_chunks[OF ok chunks, of final] content by (simp_all add: header_def)
  have "slice content ((n - 1) * bin_chunk_bytes) (length content) = final"
    using plain by (simp add: content slice_def)
  then have "get_range content ((n - 1) * bin_chunk_bytes) (length content) = Some final"
    using plain by (simp add: get_range_def content)
  moreover have "sl_stream_seal sl key nonce (n - 1) True aad final = Some (slice env offset (length env))"
    using final stream[OF ok] by blast
  moreover have "take offset env @ slice env offset (length env) = env"
    using take_slice[OF ends, of env] by simp
  moreover have "chunk_count b = n" using small by (simp add: chunk_count_eq n_def)
  ultimately have "bin_seal sl nonce content key i = Inr env"
    using small len header sealed by (simp add: bin_seal_def seal_with_digest_def Let_def flip: aad_def)
  moreover have "length nonce = stream_nonce_len"
    using head(1) by (simp add: nonce_def length_slice bin_header_bytes_def)
  ultimately show ?thesis by blast
qed

lemma seal_Inr:
  assumes "bin_seal sl nonce content key i = Inr env" "b = length content" "n = stream_chunks b"
    and "header = bin_header (content_digest sl content) b nonce" "aad = stream_aad i header"
  obtains out ct where "b \<le> max_binary_bytes" "seal_chunks sl key nonce aad content 0 (n - 1) header = Inr out"
    "sl_stream_seal sl key nonce (n - 1) True aad (slice content ((n - 1) * bin_chunk_bytes) b) = Some ct"
    "env = out @ ct"
proof -
  from assms(1,2) have small: "b \<le> max_binary_bytes"
    by (simp add: bin_seal_def seal_with_digest_def split: if_splits)
  then have "chunk_count b = n" by (simp add: chunk_count_eq assms(3))
  with assms small that show ?thesis
    by (auto simp: bin_seal_def seal_with_digest_def Let_def res_bind_Inr_iff get_range_Some
        split: option.splits if_splits)
qed

lemma sealed_opens:
  assumes ok: "aead_ok sl"
    and "bin_seal sl nonce content key i = Inr env" "length nonce = stream_nonce_len"
  shows "open_stream sl env key i = Inr content"
proof -
  define b n header where "b = length content" and "n = stream_chunks b"
    and "header = bin_header (content_digest sl content) b nonce"
  define aad where "aad = stream_aad i header"
  let ?final = "slice content ((n - 1) * bin_chunk_bytes) b"
  obtain out ct where small: "b \<le> max_binary_bytes"
    and chunks: "seal_chunks sl key nonce aad content 0 (n - 1) header = Inr out"
    and ct: "sl_stream_seal sl key nonce (n - 1) True aad ?final = Some ct" and env: "env = out @ ct"
    using seal_Inr[OF assms(2) b_def n_def header_def aad_def] by blast
  note bounds = chunk_bounds[OF n_def]
  obtain body where out: "out = header @ body" using seal_chunks_prefix[OF chunks] by blast
  have b8: "b < 256 ^ 8" using small by (simp add: max_binary_bytes_def max_content_bytes_def)
  have dl: "length (content_digest sl content) = 32" by (simp add: content_digest_def digest_length[OF ok])
  note fields = header_fields(2-7)[OF assms(3) dl b8, of "body @ ct", folded header_def]
  have env': "env = header @ body @ ct" by (simp add: env out)
  have hl: "length header = bin_header_bytes" using header_fields(1)[OF assms(3) dl b8] by (simp add: header_def)
  have opened: "open_chunks sl key nonce aad env 0 (n - 1) bin_header_bytes []
      = Inr (length out, take ((n - 1) * bin_chunk_bytes) content)"
    using seal_then_open_chunks[OF ok chunks, of env] env hl by simp
  have outl: "length out = bin_header_bytes + (n - 1) * (bin_chunk_bytes + aead_tag_len)"
    using open_then_seal_chunks[OF ok opened, of "[]"] by simp
  have fl: "length ?final = b - (n - 1) * bin_chunk_bytes" by (simp add: length_slice b_def)
  have ctl: "length ct = b - (n - 1) * bin_chunk_bytes + aead_tag_len" using stream_length[OF ok ct] fl by simp
  have whole: "take ((n - 1) * bin_chunk_bytes) content @ ?final = content"
    using take_slice[OF bounds(1), of content] by (simp add: b_def)
  have el: "length env = b + bin_header_bytes + n * aead_tag_len"
    using outl ctl bounds env by (cases n) (simp_all add: algebra_simps)
  have "open_last sl key nonce aad env b (length out) (take ((n - 1) * bin_chunk_bytes) content) = Inr content"
  proof -
    have "get_range env (length out) (length out + (b - (n - 1) * bin_chunk_bytes + aead_tag_len)) = Some ct"
      using ctl by (simp add: get_range_def env slice_def)
    moreover have "sl_stream_open sl key nonce (n - 1) True aad ct = Some ?final" using stream[OF ok] ct by blast
    moreover have "length out + (b - (n - 1) * bin_chunk_bytes + aead_tag_len) = length env" using ctl by (simp add: env)
    moreover have "slice env 13 stream_nonce_offset = content_digest sl content" using fields(4) by (simp add: env')
    ultimately show ?thesis
      unfolding open_last_def Let_def n_def[symmetric]
      using bounds(1) fl whole by (simp flip: b_def)
  qed
  moreover have "be_val (slice env 5 13) = b" "take 4 env = bin_magic" "env ! 4 = bin_version"
    "slice env stream_nonce_offset bin_header_bytes = nonce" "take bin_header_bytes env = header"
    using fields by (simp_all add: env')
  moreover have "bin_header_bytes \<le> length env" using el by simp
  ultimately show ?thesis
    using small el opened by (simp add: open_stream_def Let_def flip: n_def aad_def)
qed

lemma seal_chunks_total:
  assumes ok: "aead_ok sl" and "(index + n) * bin_chunk_bytes \<le> length content" "index + n \<le> 4294967295"
  shows "\<exists>out'. seal_chunks sl key nonce aad content index n out = Inr out'"
  using assms(2,3)
proof (induction n arbitrary: index out)
  case 0
  then show ?case by simp
next
  case (Suc n)
  let ?lo = "index * bin_chunk_bytes" and ?hi = "index * bin_chunk_bytes + bin_chunk_bytes"
  have hi: "?hi \<le> length content" using Suc.prems(1) by (simp add: algebra_simps)
  then have "length (slice content ?lo ?hi) = bin_chunk_bytes" by (simp add: length_slice)
  then have "length (slice content ?lo ?hi) \<le> max_content_bytes"
    by (simp add: bin_chunk_bytes_def max_content_bytes_def)
  then obtain ct where ct: "sl_stream_seal sl key nonce index False aad (slice content ?lo ?hi) = Some ct"
    using stream_seals[OF ok, of "slice content ?lo ?hi" index key nonce False aad] Suc.prems(2) by auto
  have "(Suc index + n) * bin_chunk_bytes \<le> length content" "Suc index + n \<le> 4294967295"
    using Suc.prems by simp_all
  from Suc.IH[OF this, of "out @ ct"] show ?case using hi ct by (simp add: get_range_def)
qed

lemma seal_total:
  assumes ok: "aead_ok sl" and "length content \<le> max_binary_bytes"
  shows "\<exists>env. bin_seal sl nonce content key i = Inr env"
proof -
  define n where "n = stream_chunks (length content)"
  define header where "header = bin_header (content_digest sl content) (length content) nonce"
  define aad where "aad = stream_aad i header"
  have n: "chunk_count (length content) = n" using assms(2) by (simp add: chunk_count_eq n_def)
  note bounds = chunk_bounds[OF n_def]
  have small: "n - 1 < 4294967295"
  proof -
    have "n - 1 \<le> (n - 1) * bin_chunk_bytes" by (simp add: bin_chunk_bytes_def)
    also have "\<dots> \<le> max_binary_bytes" using bounds(1) assms(2) by simp
    finally show ?thesis by (simp add: max_binary_bytes_def max_content_bytes_def)
  qed
  then obtain out where out: "seal_chunks sl key nonce aad content 0 (n - 1) header = Inr out"
    using seal_chunks_total[OF ok, of 0 "n - 1" content key nonce aad header] bounds(1) by auto
  let ?final = "slice content ((n - 1) * bin_chunk_bytes) (length content)"
  have "length ?final \<le> max_content_bytes"
    using assms(2) by (simp add: length_slice max_binary_bytes_def)
  then obtain ct where "sl_stream_seal sl key nonce (n - 1) True aad ?final = Some ct"
    using stream_seals[OF ok, of ?final "n - 1" key nonce True aad] small by auto
  then show ?thesis
    using assms(2) bounds(1) out
    by (simp add: bin_seal_def seal_with_digest_def Let_def n get_range_def flip: header_def aad_def)
qed

section \<open>Associated data\<close>

lemma length_prefix_inj:
  "show_nat m @ CHR '':'' # xs = show_nat n @ CHR '':'' # ys \<Longrightarrow> m = n \<and> xs = ys"
proof -
  assume eq: "show_nat m @ CHR '':'' # xs = show_nat n @ CHR '':'' # ys"
  have split: "takeWhile is_ascii_digit (show_nat k @ CHR '':'' # zs) = show_nat k
      \<and> dropWhile is_ascii_digit (show_nat k @ CHR '':'' # zs) = CHR '':'' # zs" for k zs
    using show_nat_spec[of k] by (simp add: list_all_iff is_ascii_digit_def in_range_def)
  from eq have "show_nat m = show_nat n" "CHR '':'' # xs = CHR '':'' # ys"
    by (metis split)+
  then show ?thesis using show_nat_inj by simp
qed

lemma item_aad_inj:
  assumes "item_aad i = item_aad j"
  shows "i = j"
  using length_prefix_inj[of "length i" i "length j" j] assms by (simp add: item_aad_def)

lemma stream_aad_inj:
  assumes "stream_aad i h = stream_aad j g"
  shows "i = j \<and> h = g"
proof -
  from assms have "length i = length j \<and> i @ h = j @ g"
    using length_prefix_inj[of "length i" "i @ h" "length j" "j @ g"] by (simp add: stream_aad_def)
  then show ?thesis using append_eq_append_conv by blast
qed

section \<open>References\<close>

lemma hexdigit_utf8: "list_all hex_octet s \<Longrightarrow> utf8_valid s"
  by (induction s) (auto simp: hex_octet_def in_range_def)

lemma reference_split_join: "reference_split env = Some (r, b) \<Longrightarrow> r @ b = env"
  by (auto simp: reference_split_def Let_def split: if_splits option.splits)

lemma reference_split_sealed:
  assumes "length nonce = aead_nonce_len" "length reference = 64 + aead_tag_len"
  shows "reference_split (ref_magic @ nonce @ be_bytes 4 (length reference) @ reference @ blob)
         = Some (ref_magic @ nonce @ be_bytes 4 (length reference) @ reference, blob)"
proof -
  let ?env = "ref_magic @ nonce @ be_bytes 4 (length reference) @ reference @ blob"
  have "slice ?env 28 (28 + 4) = be_bytes 4 (length reference)"
    using slice_middle[of "ref_magic @ nonce" 28 "be_bytes 4 (length reference)" 4 "reference @ blob"] assms(1)
    by (simp add: ref_magic_def aead_nonce_len_def)
  then have "get_range ?env 28 32 = Some (be_bytes 4 (length reference))"
    using assms by (simp add: get_range_def ref_magic_def aead_nonce_len_def)
  then show ?thesis
    using assms by (simp add: reference_split_def be_val_be_bytes ref_prefix_bytes_def ref_magic_def
        aead_nonce_len_def aead_tag_len_def starts_with_iff)
qed

lemma reference_opens:
  assumes ok: "aead_ok sl" and "length nonce = aead_nonce_len" "length snonce = stream_nonce_len"
    and "reference_seal sl nonce snonce content (content_digest sl content) key i = Inr env"
  shows "bin_open sl env key i = Inr content"
    and "\<exists>blob. reference_split env = Some (take (ref_prefix_bytes + (64 + aead_tag_len)) env, blob)
         \<and> bin_seal sl snonce content key (bin_content_hash sl (content_digest sl content)) = Inr blob"
proof -
  define blob_id where "blob_id = bin_content_hash sl (content_digest sl content)"
  obtain reference blob where enc: "encrypt sl nonce blob_id key i = Inr (nonce, reference)"
    and blob: "bin_seal sl snonce content key blob_id = Inr blob"
    and env: "env = ref_magic @ nonce @ be_bytes 4 (length reference) @ reference @ blob"
    using assms(4) by (auto simp: reference_seal_def res_bind_Inr_iff Let_def bin_seal_def blob_id_def
        encrypt_def split: option.splits)
  have id: "length blob_id = 64" "list_all hex_octet blob_id"
    by (simp_all add: blob_id_def bin_content_hash_def hex_length[OF ok] hex_digits[OF ok] content_digest_def
        digest_length[OF ok])
  have rl: "length reference = 64 + aead_tag_len"
    using enc whole_length[OF ok] id(1) by (auto simp: encrypt_def split: option.splits)
  let ?r = "ref_magic @ nonce @ be_bytes 4 (length reference) @ reference"
  have split: "reference_split env = Some (?r, blob)"
    unfolding env by (rule reference_split_sealed[OF assms(2) rl])
  have r: "drop ref_prefix_bytes ?r = reference" "slice ?r 4 28 = nonce" "take (ref_prefix_bytes + (64 + aead_tag_len)) env = ?r"
    using assms(2) rl by (simp_all add: env ref_prefix_bytes_def ref_magic_def aead_nonce_len_def aead_tag_len_def slice_def)
  have magic: "starts_with blob bin_magic"
  proof -
    obtain out ct where "seal_chunks sl key snonce (stream_aad blob_id (bin_header (content_digest sl content)
        (length content) snonce)) content 0 (stream_chunks (length content) - 1)
        (bin_header (content_digest sl content) (length content) snonce) = Inr out" "blob = out @ ct"
      using seal_Inr[OF blob refl refl refl refl] by blast
    then show ?thesis using seal_chunks_prefix by (fastforce simp: bin_header_def starts_with_iff)
  qed
  have "reference_open sl env key i = Inr content"
    using encrypt_decrypt[OF ok enc assms(2)] sealed_opens[OF ok blob assms(3)] id magic hexdigit_utf8[OF id(2)]
    by (simp add: reference_open_def split r del: drop_append) (simp add: blob_id_def)
  moreover have "is_reference env" by (simp add: is_reference_def env starts_with_iff)
  ultimately show "bin_open sl env key i = Inr content" by (simp add: bin_open_def)
  show "\<exists>blob. reference_split env = Some (take (ref_prefix_bytes + (64 + aead_tag_len)) env, blob)
         \<and> bin_seal sl snonce content key (bin_content_hash sl (content_digest sl content)) = Inr blob"
    using split blob r(3) by (auto simp: blob_id_def)
qed

lemma stream_not_reference: "open_stream sl env key i = Inr content \<Longrightarrow> bin_open sl env key i = Inr content"
proof -
  assume o: "open_stream sl env key i = Inr content"
  then have "take 4 env = bin_magic" by (simp add: open_stream_def split: if_splits)
  then have "\<not> is_reference env"
    by (simp add: is_reference_def starts_with_iff ref_magic_def bin_magic_def numeral_eq_Suc)
  with o show ?thesis by (simp add: bin_open_def)
qed

section \<open>The envelope\<close>

text \<open>A cipher that appends sixteen octets, for concrete runs.\<close>

definition demo_tag :: bytes where "demo_tag = ''0123456789abcdef''"

definition demo_untag :: "bytes \<Rightarrow> bytes option" where
  "demo_untag c = (if aead_tag_len \<le> length c \<and> drop (length c - aead_tag_len) c = demo_tag
                   then Some (take (length c - aead_tag_len) c) else None)"

definition demo_sealing :: sealing where
  "demo_sealing =
     \<lparr>sl_crypto = demo_crypto\<lparr>c_sha256 := \<lambda>_. replicate 32 CHR ''d'', c_hex_encode := \<lambda>d. replicate (2 * length d) CHR ''e''\<rparr>,
      sl_seal = \<lambda>_ _ _ m. Some (m @ demo_tag), sl_open = \<lambda>_ _ _ c. demo_untag c,
      sl_stream_seal = \<lambda>_ _ _ _ _ m. Some (m @ demo_tag), sl_stream_open = \<lambda>_ _ _ _ _ c. demo_untag c\<rparr>"

lemma demo_untag_iff: "demo_untag c = Some m \<longleftrightarrow> c = m @ demo_tag"
proof
  assume "demo_untag c = Some m"
  then show "c = m @ demo_tag"
    by (auto simp: demo_untag_def split: if_splits) (metis append_take_drop_id)
qed (simp add: demo_untag_def demo_tag_def aead_tag_len_def)

lemma demo_sealing_ok: "aead_ok demo_sealing"
  by (auto simp: aead_ok_def demo_sealing_def demo_untag_iff demo_tag_def aead_tag_len_def list_all_iff
      hex_octet_def in_range_def)

text \<open>
  C24: a binary envelope opens to a content exactly when sealing that content, for the same item
  and key and under the envelope's nonce, writes that envelope. Opening therefore inverts sealing,
  and an envelope whose header, length, order of chunks, last chunk or digest is not the one
  \<open>seal\<close> writes is refused, as is one longer than the product limit.
\<close>

theorem binary_envelope_is_canonical:
  assumes "aead_ok sl"
  shows "open_stream sl env key i = Inr content \<longleftrightarrow>
     (\<exists>nonce. length nonce = stream_nonce_len \<and> bin_seal sl nonce content key i = Inr env)"
  using open_stream_is_sealed[OF assms] sealed_opens[OF assms] by blast

theorem binary_envelope_is_canonical_witness:
  "open_stream demo_sealing
     (bin_header (replicate 32 CHR ''d'') 2 (replicate 19 CHR ''n'') @ ''hi'' @ demo_tag) ''k'' ''item'' = Inr ''hi''"
proof -
  have "bin_seal demo_sealing (replicate 19 CHR ''n'') ''hi'' ''k'' ''item''
      = Inr (bin_header (replicate 32 CHR ''d'') 2 (replicate 19 CHR ''n'') @ ''hi'' @ demo_tag)"
    by (simp add: bin_seal_def seal_with_digest_def max_binary_bytes_def max_content_bytes_def chunk_count_def
        div_ceil_def bin_chunk_bytes_def content_digest_def demo_sealing_def get_range_def slice_def Let_def
        numeral_2_eq_2)
  then show ?thesis
    unfolding binary_envelope_is_canonical[OF demo_sealing_ok]
    by (intro exI[of _ "replicate 19 CHR ''n''"]) (simp add: stream_nonce_len_def)
qed

text \<open>
  What is sealed reads back. Content within the product limit is always sealed and opens to
  itself, as a stream and, for an imported file, as a reference followed by the shared bytes;
  larger content is refused; and the associated data that binds a sealed form to its item differs
  between any two items.
\<close>

theorem sealed_content_reads_back:
  assumes ok: "aead_ok sl" and "length nonce = aead_nonce_len" "length snonce = stream_nonce_len"
  shows "(if length content \<le> max_binary_bytes
          then \<exists>env. bin_seal sl snonce content key i = Inr env \<and> bin_open sl env key i = Inr content
          else bin_seal sl snonce content key i = Inl AuthFailed)
    \<and> (case reference_seal sl nonce snonce content (content_digest sl content) key i of
         Inl e \<Rightarrow> max_binary_bytes < length content
       | Inr env \<Rightarrow> bin_open sl env key i = Inr content)
    \<and> (i \<noteq> j \<longrightarrow> item_aad i \<noteq> item_aad j \<and> stream_aad i h \<noteq> stream_aad j g)"
proof (intro conjI)
  show "if length content \<le> max_binary_bytes
          then \<exists>env. bin_seal sl snonce content key i = Inr env \<and> bin_open sl env key i = Inr content
          else bin_seal sl snonce content key i = Inl AuthFailed"
  proof (cases "length content \<le> max_binary_bytes")
    case True
    then show ?thesis
      using seal_total[OF ok True, of snonce key i] sealed_opens[OF ok _ assms(3)] stream_not_reference by auto
  next
    case False
    then show ?thesis by (simp add: bin_seal_def seal_with_digest_def)
  qed
  show "case reference_seal sl nonce snonce content (content_digest sl content) key i of
         Inl e \<Rightarrow> max_binary_bytes < length content
       | Inr env \<Rightarrow> bin_open sl env key i = Inr content"
  proof (cases "reference_seal sl nonce snonce content (content_digest sl content) key i")
    case (Inr env)
    then show ?thesis using reference_opens(1)[OF ok assms(2,3)] by simp
  next
    case (Inl e)
    define blob_id where "blob_id = bin_content_hash sl (content_digest sl content)"
    have "length blob_id \<le> max_content_bytes"
      by (simp add: blob_id_def bin_content_hash_def hex_length[OF ok] content_digest_def
          digest_length[OF ok] max_content_bytes_def)
    then obtain c where c: "encrypt sl nonce blob_id key i = Inr (nonce, c)"
      using whole_seals[OF ok, of blob_id key nonce "item_aad i"] by (auto simp: encrypt_def)
    have "max_binary_bytes < length content"
    proof (rule ccontr)
      assume "\<not> ?thesis"
      then obtain blob where "seal_with_digest sl snonce content (content_digest sl content) key blob_id = Inr blob"
        using seal_total[OF ok, of content snonce key blob_id] by (auto simp: bin_seal_def not_less)
      with c Inl show False by (simp add: reference_seal_def blob_id_def)
    qed
    with Inl show ?thesis by simp
  qed
  show "i \<noteq> j \<longrightarrow> item_aad i \<noteq> item_aad j \<and> stream_aad i h \<noteq> stream_aad j g"
    using item_aad_inj stream_aad_inj by blast
qed

theorem sealed_content_reads_back_witness:
  "\<exists>env. bin_seal demo_sealing (replicate 19 CHR ''n'') ''hi'' ''k'' ''item'' = Inr env
     \<and> bin_open demo_sealing env ''k'' ''item'' = Inr ''hi''"
  using sealed_content_reads_back[OF demo_sealing_ok, of "replicate 24 CHR ''m''" "replicate 19 CHR ''n''"
      "''hi''" "''k''" "''item''" "''item''" "[]" "[]"]
  by (simp add: aead_nonce_len_def stream_nonce_len_def max_binary_bytes_def max_content_bytes_def)

end
