(* ===== verification/Payload.thy ===== *)
theory Payload
  imports Wire_Base
begin

text \<open>
  Payload metadata: \<open>crates/copypaste-payload/src/lib.rs\<close> and the privacy flags of
  \<open>crates/copypaste-ipc/src/clipboard_privacy.rs\<close>. Metadata travels as JSON beside an item's
  content: the attributes of a file, the icon of the source application, and how confidential
  the clip is.

  The JSON reader and writer (\<open>serde_json\<close> with the derived implementations), the base64 coder
  and the PNG decoder are third-party code and are arguments, collected in \<open>payload_env\<close>.
\<close>

section \<open>Data\<close>

record clipboard_privacy =
  cp_secret :: bool
  cp_transient :: bool

record file_transfer =
  ft_size_bytes :: nat
  ft_sha256 :: string
  ft_source_version :: "string option"

record file_metadata =
  fd_filename :: string
  fd_mime_type :: string
  fd_source_reference :: "string option"
  fd_transfer :: "file_transfer option"

record icon_metadata =
  ic_png_base64 :: string
  ic_width :: nat
  ic_height :: nat

record secret_override =
  sc_updated_at :: int
  sc_secret :: bool

record payload_metadata =
  pm_credentials :: bool
  pm_privacy :: clipboard_privacy
  pm_secret_override :: "secret_override option"
  pm_file :: "file_metadata option"
  pm_source_app_icon :: "icon_metadata option"

text \<open>
  \<open>pe_privacy_flags\<close> reads \<open>value["privacy"]["secret"].as_bool()\<close> and the same for \<open>transient\<close>
  out of any JSON text, and is \<open>None\<close> twice for a text that is not JSON.
\<close>

record payload_env =
  pe_base64 :: "bytes \<Rightarrow> string"
  pe_unbase64 :: "string \<Rightarrow> bytes option"
  pe_png_dimensions :: "bytes \<Rightarrow> (nat \<times> nat) option"
  pe_file_of_json :: "string \<Rightarrow> file_metadata option"
  pe_transfer_of_json :: "bytes \<Rightarrow> file_transfer option"
  pe_of_json :: "string \<Rightarrow> payload_metadata option"
  pe_to_json :: "payload_metadata \<Rightarrow> string option"
  pe_privacy_flags :: "string \<Rightarrow> bool option \<times> bool option"

definition privacy_none :: clipboard_privacy where
  "privacy_none = \<lparr>cp_secret = False, cp_transient = False\<rparr>"

definition metadata_default :: payload_metadata where
  "metadata_default = \<lparr>pm_credentials = False, pm_privacy = privacy_none, pm_secret_override = None,
     pm_file = None, pm_source_app_icon = None\<rparr>"

section \<open>Privacy\<close>

definition privacy_is_empty :: "clipboard_privacy \<Rightarrow> bool" where
  "privacy_is_empty p \<longleftrightarrow> \<not> cp_secret p \<and> \<not> cp_transient p"

text \<open>\<open>ClipboardPrivacy::allows\<close>, with the two settings it reads.\<close>

definition privacy_allows :: "clipboard_privacy \<Rightarrow> bool \<Rightarrow> bool \<Rightarrow> bool" where
  "privacy_allows p skip_secret skip_transient \<longleftrightarrow>
     \<not> (cp_secret p \<and> skip_secret \<or> cp_transient p \<and> skip_transient)"

definition privacy_union :: "clipboard_privacy \<Rightarrow> clipboard_privacy \<Rightarrow> clipboard_privacy" where
  "privacy_union p q = \<lparr>cp_secret = cp_secret p \<or> cp_secret q, cp_transient = cp_transient p \<or> cp_transient q\<rparr>"

text \<open>The derived order on \<open>SecretOverride\<close> and \<open>Option::max\<close>.\<close>

definition choice_le :: "secret_override option \<Rightarrow> secret_override option \<Rightarrow> bool" where
  "choice_le a b =
     (case (a, b) of
        (None, _) \<Rightarrow> True
      | (Some _, None) \<Rightarrow> False
      | (Some x, Some y) \<Rightarrow>
          sc_updated_at x < sc_updated_at y
          \<or> sc_updated_at x = sc_updated_at y \<and> (sc_secret x \<longrightarrow> sc_secret y))"

definition choice_max :: "secret_override option \<Rightarrow> secret_override option \<Rightarrow> secret_override option" where
  "choice_max a b = (if choice_le a b then b else a)"

definition set_secret :: "bool \<Rightarrow> int \<Rightarrow> payload_metadata \<Rightarrow> payload_metadata" where
  "set_secret secret updated_at m =
     m\<lparr>pm_secret_override := Some \<lparr>sc_updated_at = updated_at, sc_secret = secret\<rparr>,
       pm_privacy := (pm_privacy m)\<lparr>cp_secret := secret\<rparr>\<rparr>"

definition merge_privacy :: "payload_metadata \<Rightarrow> payload_metadata \<Rightarrow> payload_metadata" where
  "merge_privacy m previous =
     (let credentials = pm_credentials m \<or> pm_credentials previous;
          privacy = privacy_union (pm_privacy m) (pm_privacy previous);
          choice = choice_max (pm_secret_override m) (pm_secret_override previous)
      in m\<lparr>pm_credentials := credentials,
           pm_privacy := (case choice of None \<Rightarrow> privacy | Some c \<Rightarrow> privacy\<lparr>cp_secret := sc_secret c\<rparr>),
           pm_secret_override := choice\<rparr>)"

definition privacy_from_json :: "payload_env \<Rightarrow> string \<Rightarrow> clipboard_privacy" where
  "privacy_from_json pe value =
     (if length value > max_sync_metadata_bytes then privacy_none
      else \<lparr>cp_secret = fst (pe_privacy_flags pe value) = Some True,
            cp_transient = snd (pe_privacy_flags pe value) = Some True\<rparr>)"

text \<open>\<open>as_deref().map(privacy_from_json).unwrap_or_default()\<close>.\<close>

definition privacy_of :: "payload_env \<Rightarrow> string option \<Rightarrow> clipboard_privacy" where
  "privacy_of pe json = (case json of None \<Rightarrow> privacy_none | Some j \<Rightarrow> privacy_from_json pe j)"

section \<open>Files\<close>

definition lower_hex :: "byte \<Rightarrow> bool" where
  "lower_hex b \<longleftrightarrow> is_ascii_digit b \<or> in_range b 97 102"

definition transfer_is_valid :: "file_transfer \<Rightarrow> bool" where
  "transfer_is_valid t \<longleftrightarrow>
     int (ft_size_bytes t) \<le> i64_max
     \<and> ((length (ft_sha256 t) = 64 \<and> ft_source_version t = None)
        \<or> (ft_sha256 t = []
           \<and> (case ft_source_version t of None \<Rightarrow> False
              | Some version \<Rightarrow> length version = 32 \<and> list_all lower_hex version)))
     \<and> list_all lower_hex (ft_sha256 t)"

text \<open>
  \<open>Path::new(s).file_name() == Some(s)\<close> on the platforms whose separator is a slash: the name is
  one component and neither of the two relative ones.
\<close>

definition is_file_name :: "string \<Rightarrow> bool" where
  "is_file_name s \<longleftrightarrow> s \<noteq> [] \<and> CHR ''/'' \<notin> set s \<and> s \<noteq> ''.'' \<and> s \<noteq> ''..''"

definition file_build :: "string \<Rightarrow> string \<Rightarrow> string option \<Rightarrow> file_metadata option" where
  "file_build filename mime_type source_reference =
     (if length filename \<le> 255 \<and> filename \<noteq> [] \<and> is_file_name filename
         \<and> length mime_type \<le> 255 \<and> CHR ''/'' \<in> set mime_type
         \<and> (case source_reference of None \<Rightarrow> True
            | Some r \<Rightarrow> r \<noteq> [] \<and> length r \<le> 4096 \<and> CHR 0x00 \<notin> set r)
      then Some \<lparr>fd_filename = filename, fd_mime_type = mime_type, fd_source_reference = source_reference,
                 fd_transfer = None\<rparr>
      else None)"

definition file_is_valid :: "file_metadata \<Rightarrow> bool" where
  "file_is_valid f \<longleftrightarrow>
     file_build (fd_filename f) (fd_mime_type f) (fd_source_reference f) \<noteq> None
     \<and> (case fd_transfer f of None \<Rightarrow> True | Some t \<Rightarrow> transfer_is_valid t)"

definition file_from_json :: "payload_env \<Rightarrow> string \<Rightarrow> file_metadata option" where
  "file_from_json pe value =
     (case pe_file_of_json pe value of
        None \<Rightarrow> None
      | Some f \<Rightarrow> if file_is_valid f then Some f else None)"

section \<open>Icons\<close>

definition max_source_app_icon_bytes :: nat where "max_source_app_icon_bytes = 32768"
definition source_app_icon_edge :: nat where "source_app_icon_edge = 128"
definition max_icon_base64_bytes :: nat where
  "max_icon_base64_bytes = div_ceil max_source_app_icon_bytes 3 * 4"

text \<open>\<open>pe_png_dimensions\<close> is the decoder under the limits the code sets: \<open>None\<close> for what it refuses.\<close>

definition valid_icon_dimensions :: "payload_env \<Rightarrow> bytes \<Rightarrow> nat \<Rightarrow> nat \<Rightarrow> bool" where
  "valid_icon_dimensions pe png width height \<longleftrightarrow>
     png \<noteq> [] \<and> length png \<le> max_source_app_icon_bytes
     \<and> 1 \<le> width \<and> width \<le> source_app_icon_edge \<and> 1 \<le> height \<and> height \<le> source_app_icon_edge
     \<and> pe_png_dimensions pe png = Some (width, height)"

definition icon_new :: "payload_env \<Rightarrow> bytes \<Rightarrow> nat \<Rightarrow> nat \<Rightarrow> icon_metadata option" where
  "icon_new pe png width height =
     (if valid_icon_dimensions pe png width height
      then Some \<lparr>ic_png_base64 = pe_base64 pe png, ic_width = width, ic_height = height\<rparr> else None)"

definition icon_png :: "payload_env \<Rightarrow> icon_metadata \<Rightarrow> bytes option" where
  "icon_png pe i =
     (if length (ic_png_base64 i) > max_icon_base64_bytes then None
      else case pe_unbase64 pe (ic_png_base64 i) of
             None \<Rightarrow> None
           | Some png \<Rightarrow> if valid_icon_dimensions pe png (ic_width i) (ic_height i) then Some png else None)"

section \<open>Metadata\<close>

definition has_valid_components :: "payload_env \<Rightarrow> payload_metadata \<Rightarrow> bool" where
  "has_valid_components pe m \<longleftrightarrow>
     (case pm_file m of None \<Rightarrow> True | Some f \<Rightarrow> file_is_valid f)
     \<and> (case pm_source_app_icon m of None \<Rightarrow> True | Some i \<Rightarrow> icon_png pe i \<noteq> None)
     \<and> (case pm_secret_override m of None \<Rightarrow> True
        | Some c \<Rightarrow> sc_updated_at c > 0 \<and> sc_secret c = cp_secret (pm_privacy m))
     \<and> (pm_file m \<noteq> None \<or> pm_credentials m \<or> pm_source_app_icon m \<noteq> None
        \<or> \<not> privacy_is_empty (pm_privacy m) \<or> pm_secret_override m \<noteq> None)"

definition metadata_new ::
  "payload_env \<Rightarrow> file_metadata option \<Rightarrow> icon_metadata option \<Rightarrow> payload_metadata option" where
  "metadata_new pe f icon =
     (let m = metadata_default\<lparr>pm_file := f, pm_source_app_icon := icon\<rparr>
      in if has_valid_components pe m then Some m else None)"

definition is_valid_for :: "payload_env \<Rightarrow> payload_metadata \<Rightarrow> string \<Rightarrow> bool" where
  "is_valid_for pe m content_type \<longleftrightarrow>
     has_valid_components pe m
     \<and> (\<not> pm_credentials m \<or> is_text content_type)
     \<and> (if content_type = content_type_file then pm_file m \<noteq> None
        else (classify content_type = ImageClass \<and> pm_file m \<noteq> None)
             \<or> (pm_file m = None
                \<and> (pm_source_app_icon m \<noteq> None \<or> pm_credentials m
                   \<or> \<not> privacy_is_empty (pm_privacy m) \<or> pm_secret_override m \<noteq> None)))"

definition metadata_to_json :: "payload_env \<Rightarrow> payload_metadata \<Rightarrow> string \<Rightarrow> string option" where
  "metadata_to_json pe m content_type =
     (if is_valid_for pe m content_type
      then case pe_to_json pe m of
             None \<Rightarrow> None
           | Some json \<Rightarrow> if length json \<le> max_sync_metadata_bytes then Some json else None
      else None)"

definition metadata_from_json :: "payload_env \<Rightarrow> string \<Rightarrow> string \<Rightarrow> payload_metadata option" where
  "metadata_from_json pe value content_type =
     (if length value > max_sync_metadata_bytes then None
      else case file_from_json pe value of
             Some f \<Rightarrow>
               if content_type = content_type_file then Some (metadata_default\<lparr>pm_file := Some f\<rparr>) else None
           | None \<Rightarrow>
               (case pe_of_json pe value of
                  None \<Rightarrow> None
                | Some m \<Rightarrow> if is_valid_for pe m content_type then Some m else None))"

section \<open>Laws\<close>

text \<open>
  What the JSON crates document: what was written reads back; the text of a metadata record is
  not that of a bare file record, whose fields it does not have; the flags read out of a text
  that is a metadata record are those of the record; and a bare file record, which may have no
  other field, has none.
\<close>

definition json_ok :: "payload_env \<Rightarrow> bool" where
  "json_ok pe \<longleftrightarrow>
     (\<forall>m j. pe_to_json pe m = Some j \<longrightarrow>
        pe_of_json pe j = Some m \<and> pe_file_of_json pe j = None)
     \<and> (\<forall>m j. pe_of_json pe j = Some m \<longrightarrow>
        (fst (pe_privacy_flags pe j) = Some True \<longleftrightarrow> cp_secret (pm_privacy m))
        \<and> (snd (pe_privacy_flags pe j) = Some True \<longleftrightarrow> cp_transient (pm_privacy m)))
     \<and> (\<forall>f j. pe_file_of_json pe j = Some f \<longrightarrow>
        fst (pe_privacy_flags pe j) \<noteq> Some True \<and> snd (pe_privacy_flags pe j) \<noteq> Some True)"

lemma json_okD:
  assumes "json_ok pe" "pe_to_json pe m = Some j"
  shows "pe_of_json pe j = Some m" "pe_file_of_json pe j = None"
    "fst (pe_privacy_flags pe j) = Some True \<longleftrightarrow> cp_secret (pm_privacy m)"
    "snd (pe_privacy_flags pe j) = Some True \<longleftrightarrow> cp_transient (pm_privacy m)"
  using assms unfolding json_ok_def by blast+

lemma parsed_privacy:
  assumes "json_ok pe" "metadata_from_json pe j ct = Some m"
  shows "privacy_from_json pe j = pm_privacy m"
proof -
  from assms(2) have l: "length j \<le> max_sync_metadata_bytes" by (simp add: metadata_from_json_def split: if_splits)
  show ?thesis
  proof (cases "file_from_json pe j")
    case None
    with assms(2) have "pe_of_json pe j = Some m"
      by (auto simp: metadata_from_json_def split: if_splits option.splits)
    with assms(1) have "fst (pe_privacy_flags pe j) = Some True \<longleftrightarrow> cp_secret (pm_privacy m)"
      "snd (pe_privacy_flags pe j) = Some True \<longleftrightarrow> cp_transient (pm_privacy m)"
      unfolding json_ok_def by blast+
    with l show ?thesis by (cases "pm_privacy m") (simp add: privacy_from_json_def)
  next
    case (Some f)
    then have "pe_file_of_json pe j = Some f" by (auto simp: file_from_json_def split: option.splits if_splits)
    with assms(1) have "fst (pe_privacy_flags pe j) \<noteq> Some True" "snd (pe_privacy_flags pe j) \<noteq> Some True"
      unfolding json_ok_def by blast+
    moreover have "pm_privacy m = privacy_none"
      using assms(2) Some by (auto simp: metadata_from_json_def metadata_default_def split: if_splits)
    ultimately show ?thesis using l by (simp add: privacy_from_json_def privacy_none_def)
  qed
qed

lemma to_json_reads_back:
  assumes "json_ok pe" "metadata_to_json pe m ct = Some j"
  shows "metadata_from_json pe j ct = Some m" "privacy_from_json pe j = pm_privacy m"
    "length j \<le> max_sync_metadata_bytes"
proof -
  from assms(2) have v: "is_valid_for pe m ct" and j: "pe_to_json pe m = Some j"
    and l: "length j \<le> max_sync_metadata_bytes"
    by (auto simp: metadata_to_json_def split: if_splits option.splits)
  note laws = json_okD[OF assms(1) j]
  show "metadata_from_json pe j ct = Some m"
    using v l laws(1,2) by (simp add: metadata_from_json_def file_from_json_def)
  show "privacy_from_json pe j = pm_privacy m"
    using l laws(3,4) by (cases "pm_privacy m") (simp add: privacy_from_json_def)
  show "length j \<le> max_sync_metadata_bytes" by (rule l)
qed

lemma from_json_valid:
  assumes "metadata_from_json pe j ct = Some m"
  shows "is_valid_for pe m ct"
proof (cases "file_from_json pe j")
  case None
  with assms show ?thesis by (auto simp: metadata_from_json_def split: if_splits option.splits)
next
  case (Some f)
  then have "file_is_valid f" by (auto simp: file_from_json_def split: option.splits if_splits)
  with Some assms show ?thesis
    by (auto simp: metadata_from_json_def is_valid_for_def has_valid_components_def metadata_default_def
        split: if_splits)
qed

section \<open>Merging privacy\<close>

lemma choice_le_refl [simp]: "choice_le a a"
  by (auto simp: choice_le_def split: option.splits)

lemma choice_le_total: "choice_le a b \<or> choice_le b a"
  by (auto simp: choice_le_def split: option.splits)

lemma choice_le_trans: "choice_le a b \<Longrightarrow> choice_le b c \<Longrightarrow> choice_le a c"
  by (auto simp: choice_le_def split: option.splits)

lemma choice_le_antisym: "choice_le a b \<Longrightarrow> choice_le b a \<Longrightarrow> a = b"
  by (auto simp: choice_le_def split: option.splits)

lemma choice_max_left_commute: "choice_max (choice_max a b) c = choice_max (choice_max a c) b"
  by (smt (verit, best) choice_le_antisym choice_le_total choice_le_trans choice_max_def)

lemma choice_max_idem [simp]: "choice_max (choice_max a b) b = choice_max a b" "choice_max a a = a"
  by (auto simp: choice_max_def)

lemma choice_max_ge: "choice_le a (choice_max a b)" "choice_le b (choice_max a b)"
  using choice_le_total by (auto simp: choice_max_def)

lemma choice_max_None [simp]: "choice_max a b = None \<longleftrightarrow> a = None \<and> b = None"
  by (auto simp: choice_max_def choice_le_def split: option.splits)

lemmas privacy_defs = merge_privacy_def privacy_union_def Let_def

lemma merge_privacy_sel [simp]:
  "pm_credentials (merge_privacy m p) \<longleftrightarrow> pm_credentials m \<or> pm_credentials p"
  "pm_secret_override (merge_privacy m p) = choice_max (pm_secret_override m) (pm_secret_override p)"
  "cp_transient (pm_privacy (merge_privacy m p)) \<longleftrightarrow> cp_transient (pm_privacy m) \<or> cp_transient (pm_privacy p)"
  "cp_secret (pm_privacy (merge_privacy m p)) =
     (case choice_max (pm_secret_override m) (pm_secret_override p) of
        None \<Rightarrow> cp_secret (pm_privacy m) \<or> cp_secret (pm_privacy p) | Some c \<Rightarrow> sc_secret c)"
  "pm_file (merge_privacy m p) = pm_file m" "pm_source_app_icon (merge_privacy m p) = pm_source_app_icon m"
  by (auto simp: privacy_defs split: option.splits)

lemma metadata_eqI:
  assumes "pm_credentials m = pm_credentials n" "cp_secret (pm_privacy m) = cp_secret (pm_privacy n)"
    "cp_transient (pm_privacy m) = cp_transient (pm_privacy n)"
    "pm_secret_override m = pm_secret_override n" "pm_file m = pm_file n"
    "pm_source_app_icon m = pm_source_app_icon n"
  shows "(m :: payload_metadata) = n"
  using assms by (intro payload_metadata.equality clipboard_privacy.equality) simp_all

lemma merge_privacy_commute: "merge_privacy (merge_privacy m a) b = merge_privacy (merge_privacy m b) a"
  by (rule metadata_eqI) (auto simp: choice_max_left_commute[of _ "pm_secret_override a"] split: option.splits)

lemma merge_privacy_absorb: "merge_privacy (merge_privacy m a) a = merge_privacy m a"
  by (rule metadata_eqI) (auto split: option.splits)

lemma merge_privacy_valid:
  assumes "is_valid_for pe m ct" "is_valid_for pe p ct"
  shows "is_valid_for pe (merge_privacy m p) ct"
proof -
  let ?c = "choice_max (pm_secret_override m) (pm_secret_override p)"
  have choice: "case ?c of None \<Rightarrow> True
      | Some c \<Rightarrow> sc_updated_at c > 0 \<and> sc_secret c = cp_secret (pm_privacy (merge_privacy m p))"
  proof (cases ?c)
    case (Some c)
    then have "pm_secret_override m = Some c \<or> pm_secret_override p = Some c"
      by (auto simp: choice_max_def split: if_splits)
    with assms Some show ?thesis by (auto simp: is_valid_for_def has_valid_components_def)
  qed simp
  have grows: "pm_credentials m \<Longrightarrow> pm_credentials (merge_privacy m p)"
    "pm_secret_override m \<noteq> None \<Longrightarrow> pm_secret_override (merge_privacy m p) \<noteq> None"
    "\<not> privacy_is_empty (pm_privacy m) \<Longrightarrow>
       \<not> privacy_is_empty (pm_privacy (merge_privacy m p)) \<or> pm_secret_override (merge_privacy m p) \<noteq> None"
    by (simp, simp, cases ?c, auto simp: privacy_is_empty_def simp del: choice_max_None)
  have "has_valid_components pe (merge_privacy m p)"
    using assms(1) choice grows by (simp add: is_valid_for_def has_valid_components_def del: choice_max_None) blast
  moreover have "\<not> pm_credentials (merge_privacy m p) \<or> is_text ct"
    using assms by (auto simp: is_valid_for_def)
  moreover have "if ct = content_type_file then pm_file (merge_privacy m p) \<noteq> None
        else (classify ct = ImageClass \<and> pm_file (merge_privacy m p) \<noteq> None)
             \<or> (pm_file (merge_privacy m p) = None
                \<and> (pm_source_app_icon (merge_privacy m p) \<noteq> None \<or> pm_credentials (merge_privacy m p)
                   \<or> \<not> privacy_is_empty (pm_privacy (merge_privacy m p)) \<or> pm_secret_override (merge_privacy m p) \<noteq> None))"
    using assms(1) grows
    by (simp only: is_valid_for_def merge_privacy_sel(5,6) split: if_splits) blast+
  ultimately show ?thesis unfolding is_valid_for_def by blast
qed

text \<open>Merging a list of metadata records, one after the other.\<close>

definition merge_all :: "payload_metadata \<Rightarrow> payload_metadata list \<Rightarrow> payload_metadata" where
  "merge_all m ps = fold (\<lambda>p m. merge_privacy m p) ps m"

lemma merge_all_simps [simp]:
  "merge_all m [] = m" "merge_all m (p # ps) = merge_all (merge_privacy m p) ps"
  by (simp_all add: merge_all_def)

lemma merge_all_set: "set ps = set qs \<Longrightarrow> merge_all m ps = merge_all m qs"
proof -
  assume "set ps = set qs"
  moreover have "comp_fun_idem_on UNIV (\<lambda>p m. merge_privacy m p)"
    by standard (auto simp: fun_eq_iff merge_privacy_commute merge_privacy_absorb)
  from comp_fun_idem_on.fold_set_fold[OF this] have "merge_all m rs = Finite_Set.fold (\<lambda>p m. merge_privacy m p) m (set rs)" for rs
    by (simp add: merge_all_def)
  ultimately show ?thesis by simp
qed

lemma merge_all_choice:
  "choice_le (pm_secret_override m) (pm_secret_override (merge_all m ps))"
  "p \<in> set ps \<Longrightarrow> choice_le (pm_secret_override p) (pm_secret_override (merge_all m ps))"
proof (induction ps arbitrary: m)
  case (Cons q ps)
  { case 1 show ?case using choice_le_trans[OF choice_max_ge(1)] Cons.IH(1)[of "merge_privacy m q"] by simp }
  { case 2 then show ?case
      using choice_le_trans[OF choice_max_ge(2)] Cons.IH(1)[of "merge_privacy m q"] Cons.IH(2) by auto }
qed simp_all

lemma merge_all_flags:
  "pm_credentials (merge_all m ps) \<longleftrightarrow> (\<exists>p \<in> insert m (set ps). pm_credentials p)"
  "cp_transient (pm_privacy (merge_all m ps)) \<longleftrightarrow> (\<exists>p \<in> insert m (set ps). cp_transient (pm_privacy p))"
  by (induction ps arbitrary: m) auto

lemma merge_all_snoc [simp]: "merge_all m (ps @ [p]) = merge_privacy (merge_all m ps) p"
  by (simp add: merge_all_def)

lemma merge_all_chosen: "pm_secret_override (merge_all m ps) \<in> pm_secret_override ` insert m (set ps)"
  by (induction ps rule: rev_induct) (auto simp: choice_max_def)

lemma merge_all_hint:
  "pm_secret_override (merge_all m ps) = None \<Longrightarrow>
   cp_secret (pm_privacy (merge_all m ps)) \<longleftrightarrow> (\<exists>p \<in> insert m (set ps). cp_secret (pm_privacy p))"
proof (induction ps rule: rev_induct)
  case (snoc p ps)
  then have "pm_secret_override (merge_all m ps) = None"
    "choice_max (pm_secret_override (merge_all m ps)) (pm_secret_override p) = None" by simp_all
  with snoc.IH show ?case by (auto simp del: choice_max_None)
qed simp

lemma merge_all_decided:
  "ps \<noteq> [] \<Longrightarrow> pm_secret_override (merge_all m ps) = Some c \<Longrightarrow> cp_secret (pm_privacy (merge_all m ps)) = sc_secret c"
  by (cases ps rule: rev_cases) auto

section \<open>Privacy converges\<close>

text \<open>
  C25: devices that merge the same set of metadata records into an item end with the same
  privacy, whatever the order and the number of times each record arrives. The item is transient,
  or holds credentials, when any of the records says so. The explicit choice that holds is one of those that were made, the
  newest, and between two with one stamp the concealing one; once anything was merged, the item is
  secret exactly as that choice says, and where nobody has chosen, when any record says so.
\<close>

theorem privacy_converges:
  assumes "set ps = set qs"
  shows "merge_all m ps = merge_all m qs
    \<and> (cp_transient (pm_privacy (merge_all m ps)) \<longleftrightarrow> (\<exists>p \<in> insert m (set ps). cp_transient (pm_privacy p)))
    \<and> (pm_credentials (merge_all m ps) \<longleftrightarrow> (\<exists>p \<in> insert m (set ps). pm_credentials p))
    \<and> pm_secret_override (merge_all m ps) \<in> pm_secret_override ` insert m (set ps)
    \<and> (\<forall>p \<in> insert m (set ps). choice_le (pm_secret_override p) (pm_secret_override (merge_all m ps)))
    \<and> (ps \<noteq> [] \<longrightarrow> cp_secret (pm_privacy (merge_all m ps)) =
         (case pm_secret_override (merge_all m ps) of
            None \<Rightarrow> \<exists>p \<in> insert m (set ps). cp_secret (pm_privacy p)
          | Some c \<Rightarrow> sc_secret c))"
proof (intro conjI impI)
  show "\<forall>p \<in> insert m (set ps). choice_le (pm_secret_override p) (pm_secret_override (merge_all m ps))"
    using merge_all_choice by blast
  show "cp_secret (pm_privacy (merge_all m ps)) =
         (case pm_secret_override (merge_all m ps) of
            None \<Rightarrow> \<exists>p \<in> insert m (set ps). cp_secret (pm_privacy p)
          | Some c \<Rightarrow> sc_secret c)" if "ps \<noteq> []"
    using merge_all_hint[of m ps] merge_all_decided[OF that, of m] by (auto split: option.split)
qed (rule merge_all_set[OF assms] merge_all_flags merge_all_chosen)+

definition demo_hint :: payload_metadata where
  "demo_hint = metadata_default\<lparr>pm_privacy := \<lparr>cp_secret = True, cp_transient = False\<rparr>\<rparr>"

definition demo_reveal :: payload_metadata where
  "demo_reveal = set_secret False 7 metadata_default"

theorem privacy_converges_witness:
  "merge_all metadata_default [demo_hint, demo_reveal, demo_hint] = merge_all metadata_default [demo_reveal, demo_hint]
   \<and> pm_secret_override (merge_all metadata_default [demo_hint, demo_reveal, demo_hint]) = Some \<lparr>sc_updated_at = 7, sc_secret = False\<rparr>
   \<and> \<not> cp_secret (pm_privacy (merge_all metadata_default [demo_hint, demo_reveal, demo_hint]))"
proof -
  have choices: "pm_secret_override demo_hint = None" "pm_secret_override metadata_default = None"
    "pm_secret_override demo_reveal = Some \<lparr>sc_updated_at = 7, sc_secret = False\<rparr>"
    by (simp_all add: demo_hint_def demo_reveal_def set_secret_def metadata_default_def)
  have "set [demo_hint, demo_reveal, demo_hint] = set [demo_reveal, demo_hint]" by auto
  note all = privacy_converges[OF this, of metadata_default]
  define R where "R = merge_all metadata_default [demo_hint, demo_reveal, demo_hint]"
  have "pm_secret_override R \<in> {None, Some \<lparr>sc_updated_at = 7, sc_secret = False\<rparr>}" "choice_le (pm_secret_override demo_reveal) (pm_secret_override R)"
    using all unfolding R_def[symmetric] by (auto simp: choices)
  then have choice: "pm_secret_override R = Some \<lparr>sc_updated_at = 7, sc_secret = False\<rparr>"
    by (auto simp: choices choice_le_def)
  then show ?thesis using all unfolding R_def[symmetric] by simp
qed

end
