(* ===== verification/History_Db.thy ===== *)
theory History_Db
  imports Merge Sealing Credentials
begin

text \<open>
  The history database and what a sync session does to it:
  \<open>crates/copypaste-core/src/storage/versions.rs\<close>, \<open>merge_page.rs\<close>, \<open>organization.rs\<close>,
  \<open>source_icons.rs\<close>, \<open>file_payloads.rs\<close>, the row types of \<open>model.rs\<close>, the index helpers of
  \<open>search.rs\<close>, and the tables, the unique index and the triggers of \<open>storage/migrations/\<close> that
  those statements touch.

  A table is a finite map from its primary key to a row, and a statement is a function on the
  database. An operation runs in one transaction: it returns its answer and the database it would
  commit, and \<open>transact\<close> commits it, or keeps the database when the operation or any statement of
  it fails. Between two transactions of one caller other connections write; what they do is part
  of the script of the run, so a theorem for every script is a theorem for every interleaving.
\<close>

section \<open>Tables\<close>

text \<open>\<open>clipboard_items\<close>; the key is \<open>id\<close>.\<close>

record item_row =
  r_rowid :: nat
  r_ciphertext :: "bytes option"
  r_nonce :: "bytes option"
  r_content_type :: string
  r_content_hash :: string
  r_pinned :: bool
  r_pin_order :: "f64 option"
  r_pin_updated_at :: int
  r_created_at :: int
  r_deleted :: bool
  r_origin :: string
  r_app_bundle_id :: "string option"
  r_app_name :: "string option"
  r_metadata :: "string option"
  r_fts_rowid :: "nat option"
  r_icon_id :: "string option"
  r_content_bytes :: nat

text \<open>\<open>organization_records\<close>, \<open>history_pin_state\<close> and \<open>source_app_icons\<close>.\<close>

record org_row =
  o_ciphertext :: bytes
  o_nonce :: bytes
  o_content_hash :: string
  o_created_at :: int
  o_origin :: string

record pin_row =
  p_pinned :: bool
  p_order :: "f64 option"
  p_updated_at :: int

record icon_row =
  ir_png_base64 :: string
  ir_width :: nat
  ir_height :: nat
  ir_updated_at :: int

record db =
  db_items :: "(string, item_row) fmap"
  db_orgs :: "(string, org_row) fmap"
  db_tags :: "(string, string \<times> bool) fmap"
  db_clip_tags :: "(string \<times> string, bool) fmap"
  db_pins :: "(string, pin_row) fmap"
  db_icons :: "(string, icon_row) fmap"
  db_fts :: "(nat, string \<times> string) fmap"
  db_documents :: "(string \<times> string) fset"
  db_vectors :: "(string \<times> string \<times> nat) fset"
  db_blobs :: "(string, bytes) fmap"
  db_links :: "(string, string) fmap"

datatype sqlite_code =
    DiskFull | OutOfMemory | PermissionDenied | ReadOnly | AuthorizationDenied | DatabaseBusy
  | DatabaseLocked | DatabaseCorrupt | NotADatabase | ConstraintViolation | OtherSqlite

datatype io_kind =
    IoStorageFull | IoOutOfMemory | IoPermissionDenied | IoWouldBlock | IoInterrupted | IoOther

datatype store_error =
    FileError io_kind | SqliteError sqlite_code | PoolError | InvalidKey | IntegrityCheckFailed
  | InvalidSchema | InvalidPayload | NotFound | InvalidCursor | InvalidHistoryQuery | InvalidDeviceName

section \<open>Versions\<close>

record version =
  v_id :: string
  v_created_at :: int
  v_content_hash :: string
  v_deleted :: bool
  v_pinned :: bool
  v_pin_order :: "f64 option"
  v_pin_updated_at :: int
  v_origin_device_id :: string

record incoming_item =
  in_id :: string
  in_ciphertext :: "bytes option"
  in_nonce :: "bytes option"
  in_content_type :: string
  in_content_hash :: string
  in_created_at :: int
  in_deleted :: bool
  in_origin :: string
  in_app_bundle_id :: "string option"
  in_app_name :: "string option"
  in_pinned :: bool
  in_pin_order :: "f64 option"
  in_pin_updated_at :: int
  in_search_text :: "string option"
  in_metadata :: "string option"

record stored_item =
  si_icon_id :: "string option"
  si_id :: string
  si_ciphertext :: bytes
  si_nonce :: bytes
  si_content_type :: string
  si_content_hash :: string
  si_created_at :: int
  si_pinned :: bool
  si_pin_order :: "f64 option"
  si_pin_updated_at :: int
  si_deleted :: bool
  si_origin :: string
  si_app_bundle_id :: "string option"
  si_app_name :: "string option"
  si_metadata :: "string option"

definition origin_or :: "string \<Rightarrow> string \<Rightarrow> string" where
  "origin_or recorded here = (if recorded = [] then here else recorded)"

definition item_version :: "string \<Rightarrow> item_row \<Rightarrow> version" where
  "item_version k r =
     \<lparr>v_id = k, v_created_at = r_created_at r, v_content_hash = r_content_hash r, v_deleted = r_deleted r,
      v_pinned = r_pinned r, v_pin_order = r_pin_order r, v_pin_updated_at = r_pin_updated_at r,
      v_origin_device_id = r_origin r\<rparr>"

definition org_version :: "string \<Rightarrow> org_row \<Rightarrow> version" where
  "org_version k r =
     \<lparr>v_id = k, v_created_at = o_created_at r, v_content_hash = o_content_hash r, v_deleted = False,
      v_pinned = False, v_pin_order = None, v_pin_updated_at = 0, v_origin_device_id = o_origin r\<rparr>"

text \<open>
  \<open>version_summary\<close> takes the first row of the union, \<open>version_summaries_on\<close> a map in which the
  second table's rows come last.
\<close>

definition version_summary :: "db \<Rightarrow> string \<Rightarrow> version option" where
  "version_summary d k =
     (case fmlookup (db_items d) k of
        Some r \<Rightarrow> Some (item_version k r)
      | None \<Rightarrow> map_option (org_version k) (fmlookup (db_orgs d) k))"

definition summary_for :: "db \<Rightarrow> string \<Rightarrow> version option" where
  "summary_for d k =
     (case fmlookup (db_orgs d) k of
        Some r \<Rightarrow> Some (org_version k r)
      | None \<Rightarrow> map_option (item_version k) (fmlookup (db_items d) k))"

fun version_summaries_on :: "db \<Rightarrow> string list \<Rightarrow> (string, version) fmap" where
  "version_summaries_on d [] = fmempty"
| "version_summaries_on d (k # ks) =
     (case summary_for d k of
        None \<Rightarrow> version_summaries_on d ks
      | Some v \<Rightarrow> fmupd k v (version_summaries_on d ks))"

section \<open>Statements and triggers\<close>

text \<open>\<open>LIKE\<close> is case-insensitive on ASCII letters.\<close>

definition ascii_lower :: "byte \<Rightarrow> byte" where
  "ascii_lower b = (if in_range b 65 90 then char_of (of_char b + 32 :: nat) else b)"

definition like_prefix :: "string \<Rightarrow> string \<Rightarrow> bool" where
  "like_prefix p s = starts_with (map ascii_lower s) (map ascii_lower p)"

text \<open>The unique index \<open>idx_items_dedup\<close>. SQL division rounds towards zero.\<close>

definition dedup_bucket :: "int \<Rightarrow> int" where
  "dedup_bucket t = (if t < 0 then - ((- t) div 60000) else t div 60000)"

definition dedup_key :: "item_row \<Rightarrow> string \<times> string \<times> int \<times> string" where
  "dedup_key r = (r_content_hash r, r_content_type r, dedup_bucket (r_created_at r), r_origin r)"

definition in_dedup_index :: "string \<Rightarrow> item_row \<Rightarrow> bool" where
  "in_dedup_index k r \<longleftrightarrow> \<not> r_deleted r \<and> r_content_hash r \<noteq> [] \<and> \<not> like_prefix ''file-import-'' k"

definition dedup_conflict :: "string \<Rightarrow> item_row \<Rightarrow> db \<Rightarrow> bool" where
  "dedup_conflict k r d \<longleftrightarrow>
     in_dedup_index k r
     \<and> list_ex (\<lambda>(k', r'). k' \<noteq> k \<and> in_dedup_index k' r' \<and> dedup_key r' = dedup_key r) (fm_entries (db_items d))"

text \<open>
  The triggers \<open>history_file_release_update\<close> with \<open>history_file_blob_release\<close>, and
  \<open>source_icon_release_update\<close>.
\<close>

definition release_link :: "string \<Rightarrow> db \<Rightarrow> db" where
  "release_link k d =
     (case fmlookup (db_links d) k of
        None \<Rightarrow> d
      | Some blob \<Rightarrow>
          let d = d\<lparr>db_links := fmdrop k (db_links d)\<rparr> in
          if blob \<in> set (fm_values (db_links d)) then d
          else d\<lparr>db_blobs := fmdrop blob (db_blobs d)\<rparr>)"

definition icon_in_use :: "string \<Rightarrow> db \<Rightarrow> bool" where
  "icon_in_use i d \<longleftrightarrow> list_ex (\<lambda>r. r_icon_id r = Some i) (fm_values (db_items d))"

definition release_unused :: "string option \<Rightarrow> db \<Rightarrow> db" where
  "release_unused i d =
     (case i of
        None \<Rightarrow> d
      | Some i \<Rightarrow> if icon_in_use i d then d else d\<lparr>db_icons := fmdrop i (db_icons d)\<rparr>)"

text \<open>Writing a row: the statement and the triggers it fires.\<close>

definition put_item :: "string \<Rightarrow> item_row \<Rightarrow> db \<Rightarrow> db" where
  "put_item k r d =
     (let old = fmlookup (db_items d) k;
          d = d\<lparr>db_items := fmupd k r (db_items d)\<rparr>
      in case old of
           None \<Rightarrow> d
         | Some o' \<Rightarrow>
             let d = (if r_ciphertext o' = r_ciphertext r then d else release_link k d)
             in if r_icon_id o' = r_icon_id r then d else release_unused (r_icon_id o') d)"

definition next_key :: "(nat, 'a) fmap \<Rightarrow> nat" where
  "next_key m = foldr max (fm_keys m) 0 + 1"

definition next_rowid :: "db \<Rightarrow> nat" where
  "next_rowid d = foldr max (map r_rowid (fm_values (db_items d))) 0 + 1"

definition delete_fts_row :: "string \<Rightarrow> db \<Rightarrow> db" where
  "delete_fts_row k d =
     (case fmlookup (db_items d) k of
        None \<Rightarrow> d
      | Some r \<Rightarrow>
          (case r_fts_rowid r of None \<Rightarrow> d | Some n \<Rightarrow> d\<lparr>db_fts := fmdrop n (db_fts d)\<rparr>))"

definition insert_fts :: "string \<Rightarrow> string \<Rightarrow> string \<Rightarrow> db \<Rightarrow> nat option \<times> db" where
  "insert_fts k body content_type d =
     (if \<not> is_text content_type then (None, d)
      else let n = next_key (db_fts d) in (Some n, d\<lparr>db_fts := fmupd n (k, body) (db_fts d)\<rparr>))"

definition drop_module_index :: "string \<Rightarrow> db \<Rightarrow> db" where
  "drop_module_index k d =
     d\<lparr>db_documents := ffilter (\<lambda>(scope, i). i \<noteq> k) (db_documents d),
       db_vectors := ffilter (\<lambda>(scope, i, chunk). i \<noteq> k) (db_vectors d)\<rparr>"

section \<open>Organization records\<close>

datatype org_record =
    OrgTag (tag_id: string) (tag_name: string) (tag_deleted: bool)
  | OrgMembership (member_clip: string) (member_tag: string) (member_assigned: bool)
  | OrgPin (pin_clip: string) (pin_pinned: bool) (pin_place: "f64 option")

record history_env =
  he_payload :: payload_env
  he_credentials :: credential_env
  he_sealing :: sealing
  he_record_of_json :: "string \<Rightarrow> org_record option"
  he_record_to_json :: "org_record \<Rightarrow> string option"

definition org_content_type :: string where
  "org_content_type = ''application/vnd.copypaste.organization+json''"
definition org_prefix :: string where "org_prefix = ''org:v1:''"
definition max_record_bytes :: nat where "max_record_bytes = 2048"
definition max_tag_name_chars :: nat where "max_tag_name_chars = 64"

definition is_record_id :: "string \<Rightarrow> bool" where
  "is_record_id k = starts_with k org_prefix"

definition record_key :: "org_record \<Rightarrow> string" where
  "record_key r =
     (case r of
        OrgTag k _ _ \<Rightarrow> ''tag:'' @ k
      | OrgMembership clip tag _ \<Rightarrow> ''membership:'' @ show_nat (length clip) @ '':'' @ clip @ '':'' @ tag
      | OrgPin clip _ _ \<Rightarrow> ''pin:'' @ clip)"

definition record_id :: "history_env \<Rightarrow> org_record \<Rightarrow> string" where
  "record_id he r =
     org_prefix @ c_hex_encode (sl_crypto (he_sealing he)) (c_sha256 (sl_crypto (he_sealing he)) (record_key r))"

definition is_identifier :: "string \<Rightarrow> bool" where
  "is_identifier k \<longleftrightarrow> k \<noteq> [] \<and> length k \<le> 128 \<and> \<not> is_record_id k"

definition record_valid :: "org_record \<Rightarrow> bool" where
  "record_valid r =
     (case r of
        OrgTag k name _ \<Rightarrow>
          is_identifier k \<and> trim name \<noteq> [] \<and> name = trim name
          \<and> length (chars name) \<le> max_tag_name_chars \<and> \<not> has_control name
      | OrgMembership clip tag _ \<Rightarrow> is_identifier clip \<and> is_identifier tag
      | OrgPin clip pinned order \<Rightarrow>
          is_identifier clip
          \<and> (if pinned then (case order of None \<Rightarrow> False | Some v \<Rightarrow> f64_is_finite v) else order = None))"

definition apply_pin_projection :: "string \<Rightarrow> db \<Rightarrow> db" where
  "apply_pin_projection k d =
     (case (fmlookup (db_items d) k, fmlookup (db_pins d) k) of
        (Some r, Some p) \<Rightarrow>
          if \<not> r_deleted r \<and> p_updated_at p \<ge> r_pin_updated_at r
          then d\<lparr>db_items := fmupd k
                 (r\<lparr>r_pinned := p_pinned p, r_pin_order := p_order p, r_pin_updated_at := p_updated_at p\<rparr>)
                 (db_items d)\<rparr>
          else d
      | _ \<Rightarrow> d)"

definition project_record :: "org_record \<Rightarrow> int \<Rightarrow> db \<Rightarrow> db" where
  "project_record r stamp d =
     (case r of
        OrgTag k name deleted \<Rightarrow> d\<lparr>db_tags := fmupd k (name, deleted) (db_tags d)\<rparr>
      | OrgMembership clip tag assigned \<Rightarrow> d\<lparr>db_clip_tags := fmupd (clip, tag) assigned (db_clip_tags d)\<rparr>
      | OrgPin clip pinned order \<Rightarrow>
          apply_pin_projection clip
            (d\<lparr>db_pins := fmupd clip \<lparr>p_pinned = pinned, p_order = order, p_updated_at = stamp\<rparr> (db_pins d)\<rparr>))"

definition valid_wire :: "history_env \<Rightarrow> string \<Rightarrow> string \<Rightarrow> string \<Rightarrow> bool \<Rightarrow> bool" where
  "valid_wire he k content_type content deleted =
     (if content_type \<noteq> org_content_type then \<not> is_record_id k
      else \<not> deleted \<and> length content \<le> max_record_bytes
           \<and> (case he_record_of_json he content of None \<Rightarrow> False
              | Some r \<Rightarrow> record_valid r \<and> record_id he r = k))"

text \<open>The two payload columns of \<open>organization_records\<close> are \<open>NOT NULL\<close>.\<close>

definition org_upsert_in_tx :: "history_env \<Rightarrow> incoming_item \<Rightarrow> db \<Rightarrow> (store_error + bool) \<times> db" where
  "org_upsert_in_tx he inc d =
     (case in_search_text inc of
        None \<Rightarrow> (Inr False, d)
      | Some body \<Rightarrow>
          if \<not> valid_wire he (in_id inc) (in_content_type inc) body (in_deleted inc) then (Inr False, d)
          else (case he_record_of_json he body of
             None \<Rightarrow> (Inl InvalidHistoryQuery, d)
           | Some r \<Rightarrow>
               (case (in_ciphertext inc, in_nonce inc) of
                  (Some c, Some n) \<Rightarrow>
                    (Inr True,
                     project_record r (in_created_at inc)
                       (d\<lparr>db_orgs := fmupd (in_id inc)
                          \<lparr>o_ciphertext = c, o_nonce = n, o_content_hash = in_content_hash inc,
                           o_created_at = in_created_at inc, o_origin = in_origin inc\<rparr> (db_orgs d)\<rparr>))
                | _ \<Rightarrow> (Inl (SqliteError ConstraintViolation), d))))"

section \<open>Icons and shared bytes\<close>

definition non_empty_id :: "string option \<Rightarrow> string option" where
  "non_empty_id k = (case k of None \<Rightarrow> None | Some k \<Rightarrow> if k = [] then None else Some k)"

definition known_asset :: "string option \<Rightarrow> db \<Rightarrow> string option" where
  "known_asset app_id d =
     (case non_empty_id app_id of
        None \<Rightarrow> None
      | Some a \<Rightarrow> if fm_contains (db_icons d) (''app:'' @ a) then Some (''app:'' @ a) else None)"

text \<open>The insertion of an icon with the trigger \<open>source_icon_link_insert\<close>.\<close>

definition link_icon :: "string \<Rightarrow> db \<Rightarrow> db" where
  "link_icon i d =
     (if \<not> like_prefix ''app:'' i then d
      else d\<lparr>db_items := fmmap
             (\<lambda>r. if r_icon_id r = None \<and> r_app_bundle_id r = Some (drop 4 i) \<and> \<not> r_deleted r
                  then r\<lparr>r_icon_id := Some i\<rparr> else r) (db_items d)\<rparr>)"

definition put_icon :: "string \<Rightarrow> icon_row \<Rightarrow> db \<Rightarrow> db" where
  "put_icon i row d =
     (case fmlookup (db_icons d) i of
        None \<Rightarrow> link_icon i (d\<lparr>db_icons := fmupd i row (db_icons d)\<rparr>)
      | Some old \<Rightarrow>
          if ir_updated_at row > ir_updated_at old
             \<or> ir_updated_at row = ir_updated_at old \<and> ir_png_base64 row > ir_png_base64 old
          then d\<lparr>db_icons := fmupd i row (db_icons d)\<rparr> else d)"

definition normalise ::
  "history_env \<Rightarrow> string option \<Rightarrow> string \<Rightarrow> int \<Rightarrow> string option \<Rightarrow> db
   \<Rightarrow> (store_error + string option \<times> string option) \<times> db" where
  "normalise he app_id content_type captured_at metadata d =
     (let pe = he_payload he;
          parsed = (case metadata of None \<Rightarrow> None | Some j \<Rightarrow> metadata_from_json pe j content_type)
      in case parsed of
           None \<Rightarrow> (Inr (metadata, known_asset app_id d), d)
         | Some m \<Rightarrow>
             (case pm_source_app_icon m of
                None \<Rightarrow> (Inr (metadata, known_asset app_id d), d)
              | Some icon \<Rightarrow>
                  let m = m\<lparr>pm_source_app_icon := None\<rparr>;
                      i = (case non_empty_id app_id of
                             Some a \<Rightarrow> Inr (''app:'' @ a)
                           | None \<Rightarrow>
                               (case icon_png pe icon of
                                  None \<Rightarrow> Inl InvalidSchema
                                | Some png \<Rightarrow> Inr (''png:'' @ c_hex_encode (sl_crypto (he_sealing he))
                                                       (c_sha256 (sl_crypto (he_sealing he)) png))))
                  in case i of
                       Inl e \<Rightarrow> (Inl e, d)
                     | Inr i \<Rightarrow>
                         (Inr (if pm_file m \<noteq> None \<or> pm_credentials m \<or> \<not> privacy_is_empty (pm_privacy m)
                                  \<or> pm_secret_override m \<noteq> None
                               then metadata_to_json pe m content_type else None, Some i),
                          put_icon i \<lparr>ir_png_base64 = ic_png_base64 icon, ir_width = ic_width icon,
                            ir_height = ic_height icon, ir_updated_at = captured_at\<rparr> d)))"

definition row_ciphertext :: "bytes \<Rightarrow> bytes" where
  "row_ciphertext bs = (case reference_split bs of None \<Rightarrow> bs | Some (reference, _) \<Rightarrow> reference)"

definition link_payload :: "string \<Rightarrow> string \<Rightarrow> bytes \<Rightarrow> db \<Rightarrow> (store_error + unit) \<times> db" where
  "link_payload k hash bs d =
     (case reference_split bs of
        None \<Rightarrow> (Inr (), d)
      | Some (_, blob) \<Rightarrow>
          if blob = [] then (Inl InvalidSchema, d)
          else (Inr (),
            d\<lparr>db_blobs := (if fm_contains (db_blobs d) hash then db_blobs d else fmupd hash blob (db_blobs d)),
              db_links := fmupd k hash (db_links d)\<rparr>))"

section \<open>Storing one version\<close>

text \<open>
  The privacy part of \<open>upsert_in_tx\<close>: what is known of the same content is merged in, and a
  choice that changed is published under the next stamp.
\<close>

definition parsed_metadata :: "payload_env \<Rightarrow> string \<Rightarrow> string option \<Rightarrow> payload_metadata" where
  "parsed_metadata pe content_type json =
     (let m = (case json of None \<Rightarrow> None | Some j \<Rightarrow> metadata_from_json pe j content_type)
      in (case m of None \<Rightarrow> metadata_default | Some m \<Rightarrow> m)\<lparr>pm_privacy := privacy_of pe json\<rparr>)"

definition merged_metadata ::
  "payload_env \<Rightarrow> string \<Rightarrow> int \<Rightarrow> string option \<Rightarrow> string option \<Rightarrow> string option \<times> int" where
  "merged_metadata pe content_type created_at metadata existing =
     (let previous = parsed_metadata pe content_type existing;
          original = parsed_metadata pe content_type metadata;
          value = merge_privacy original previous
      in (if value \<noteq> original then metadata_to_json pe value content_type else metadata,
          if pm_secret_override value \<noteq> pm_secret_override original
          then i64_saturating_add created_at 1 else created_at))"

definition existing_metadata :: "string \<Rightarrow> string \<Rightarrow> db \<Rightarrow> string option" where
  "existing_metadata k hash d =
     (case fmlookup (db_items d) k of
        None \<Rightarrow> None
      | Some r \<Rightarrow> if r_content_hash r = hash then r_metadata r else None)"

text \<open>\<open>LENGTH\<close> of a text counts its characters.\<close>

definition sql_length :: "string option \<Rightarrow> nat" where
  "sql_length s = (case s of None \<Rightarrow> 0 | Some s \<Rightarrow> length (chars s))"

definition upsert_row ::
  "incoming_item \<Rightarrow> string option \<Rightarrow> int \<Rightarrow> string option \<Rightarrow> nat option \<Rightarrow> db \<Rightarrow> item_row" where
  "upsert_row inc metadata created_at icon_id fts_rowid d =
     (let (pinned, pin_order, pin_updated_at) =
            (if in_deleted inc then (False, None, 0)
             else (in_pinned inc, in_pin_order inc, in_pin_updated_at inc))
      in \<lparr>r_rowid = (case fmlookup (db_items d) (in_id inc) of Some r \<Rightarrow> r_rowid r | None \<Rightarrow> next_rowid d),
          r_ciphertext = map_option row_ciphertext (in_ciphertext inc), r_nonce = in_nonce inc,
          r_content_type = in_content_type inc, r_content_hash = in_content_hash inc,
          r_pinned = pinned, r_pin_order = pin_order, r_pin_updated_at = pin_updated_at,
          r_created_at = created_at, r_deleted = in_deleted inc, r_origin = in_origin inc,
          r_app_bundle_id = in_app_bundle_id inc, r_app_name = in_app_name inc,
          r_metadata = metadata, r_fts_rowid = fts_rowid, r_icon_id = icon_id,
          r_content_bytes = (case in_ciphertext inc of None \<Rightarrow> 0 | Some c \<Rightarrow> length c) + sql_length metadata\<rparr>)"

definition index_incoming :: "incoming_item \<Rightarrow> bool \<Rightarrow> db \<Rightarrow> nat option \<times> db" where
  "index_incoming inc secret d =
     (case in_search_text inc of
        None \<Rightarrow> (None, d)
      | Some body \<Rightarrow>
          if secret \<or> in_deleted inc \<or> trim body = [] then (None, d)
          else insert_fts (in_id inc) body (in_content_type inc) d)"

definition write_incoming :: "incoming_item \<Rightarrow> item_row \<Rightarrow> db \<Rightarrow> (store_error + bool) \<times> db" where
  "write_incoming inc row d =
     (if dedup_conflict (in_id inc) row d then (Inr False, d)
      else let d = apply_pin_projection (in_id inc) (put_item (in_id inc) row d) in
           case in_ciphertext inc of
             None \<Rightarrow> (Inr True, d)
           | Some bs \<Rightarrow>
               (case link_payload (in_id inc) (in_content_hash inc) bs d of
                  (Inl e, d) \<Rightarrow> (Inl e, d)
                | (Inr u, d) \<Rightarrow> (Inr True, d)))"

definition item_upsert_in_tx :: "history_env \<Rightarrow> incoming_item \<Rightarrow> db \<Rightarrow> (store_error + bool) \<times> db" where
  "item_upsert_in_tx he inc d =
     (let k = in_id inc; pe = he_payload he;
          d = delete_fts_row k d;
          (normal, d) = (if in_deleted inc then (Inr (None, None), d)
                         else normalise he (in_app_bundle_id inc) (in_content_type inc) (in_created_at inc)
                                (in_metadata inc) d)
      in case normal of
           Inl e \<Rightarrow> (Inl e, d)
         | Inr (metadata, icon_id) \<Rightarrow>
             let (metadata, created_at) =
                   (if in_deleted inc then (metadata, in_created_at inc)
                    else merged_metadata pe (in_content_type inc) (in_created_at inc) metadata
                           (existing_metadata k (in_content_hash inc) d));
                 secret = (case metadata of None \<Rightarrow> False | Some j \<Rightarrow> cp_secret (privacy_from_json pe j));
                 d = (if secret then drop_module_index k d else d);
                 (fts_rowid, d) = index_incoming inc secret d
             in write_incoming inc (upsert_row inc metadata created_at icon_id fts_rowid d) d)"

definition upsert_in_tx :: "history_env \<Rightarrow> incoming_item \<Rightarrow> db \<Rightarrow> (store_error + bool) \<times> db" where
  "upsert_in_tx he inc d =
     (if in_content_type inc = org_content_type then org_upsert_in_tx he inc d
      else if is_record_id (in_id inc) then (Inr False, d)
      else item_upsert_in_tx he inc d)"

section \<open>Transactions\<close>

record tx_event =
  te_others :: "db \<Rightarrow> db"
  te_fault :: "store_error option"

record store =
  st_db :: db
  st_script :: "tx_event list"

definition quiet :: tx_event where
  "quiet = \<lparr>te_others = (\<lambda>d. d), te_fault = None\<rparr>"

definition transact :: "(db \<Rightarrow> ('e + 'a) \<times> db) \<Rightarrow> (store_error \<Rightarrow> 'e) \<Rightarrow> store \<Rightarrow> ('e + 'a) \<times> store" where
  "transact f wrap s =
     (let (ev, rest) = (case st_script s of [] \<Rightarrow> (quiet, []) | ev # rest \<Rightarrow> (ev, rest));
          d = te_others ev (st_db s)
      in case te_fault ev of
           Some e \<Rightarrow> (Inl (wrap e), \<lparr>st_db = d, st_script = rest\<rparr>)
         | None \<Rightarrow>
             (case f d of
                (Inl e, _) \<Rightarrow> (Inl e, \<lparr>st_db = d, st_script = rest\<rparr>)
              | (Inr a, d') \<Rightarrow> (Inr a, \<lparr>st_db = d', st_script = rest\<rparr>)))"

text \<open>\<open>Store::upsert\<close>: a refusal drops the transaction.\<close>

definition upsert_tx :: "history_env \<Rightarrow> incoming_item \<Rightarrow> db \<Rightarrow> (store_error + bool) \<times> db" where
  "upsert_tx he inc d =
     (case upsert_in_tx he inc d of
        (Inl e, _) \<Rightarrow> (Inl e, d)
      | (Inr False, _) \<Rightarrow> (Inr False, d)
      | (Inr True, d') \<Rightarrow> (Inr True, d'))"

definition store_upsert :: "history_env \<Rightarrow> incoming_item \<Rightarrow> store \<Rightarrow> (store_error + bool) \<times> store" where
  "store_upsert he inc = transact (upsert_tx he inc) (\<lambda>e. e)"

text \<open>The loop of \<open>upsert_all\<close> and \<open>merge_page\<close>: each row has its own savepoint.\<close>

fun upsert_rows :: "history_env \<Rightarrow> incoming_item list \<Rightarrow> db \<Rightarrow> (store_error + bool list) \<times> db" where
  "upsert_rows he [] d = (Inr [], d)"
| "upsert_rows he (inc # rest) d =
     (case upsert_tx he inc d of
        (Inl e, d) \<Rightarrow> (Inl e, d)
      | (Inr b, d) \<Rightarrow>
          (case upsert_rows he rest d of
             (Inl e, d) \<Rightarrow> (Inl e, d)
           | (Inr bs, d) \<Rightarrow> (Inr (b # bs), d)))"

definition upsert_all :: "history_env \<Rightarrow> incoming_item list \<Rightarrow> store \<Rightarrow> (store_error + bool list) \<times> store" where
  "upsert_all he items s = (if items = [] then (Inr [], s) else transact (upsert_rows he items) (\<lambda>e. e) s)"

datatype merge_page_error = PageStore store_error | SnapshotChanged "(string, version) fmap"

text \<open>
  The derived \<open>PartialEq\<close> of \<open>Version\<close> and of the map compares \<open>pin_order\<close> as a float.
\<close>

definition version_eq :: "version \<Rightarrow> version \<Rightarrow> bool" where
  "version_eq a b \<longleftrightarrow>
     v_id a = v_id b \<and> v_created_at a = v_created_at b \<and> v_content_hash a = v_content_hash b
     \<and> v_deleted a = v_deleted b \<and> v_pinned a = v_pinned b \<and> pin_order_eq (v_pin_order a) (v_pin_order b)
     \<and> v_pin_updated_at a = v_pin_updated_at b \<and> v_origin_device_id a = v_origin_device_id b"

definition snapshot_eq :: "(string, version) fmap \<Rightarrow> (string, version) fmap \<Rightarrow> bool" where
  "snapshot_eq a b \<longleftrightarrow>
     fm_keys a = fm_keys b
     \<and> list_all (\<lambda>k. case (fmlookup a k, fmlookup b k) of (Some x, Some y) \<Rightarrow> version_eq x y | _ \<Rightarrow> False) (fm_keys a)"

definition merge_page_tx ::
  "history_env \<Rightarrow> string list \<Rightarrow> (string, version) fmap \<Rightarrow> incoming_item list \<Rightarrow> db
   \<Rightarrow> (merge_page_error + bool list) \<times> db" where
  "merge_page_tx he ids expected writes d =
     (let current = version_summaries_on d ids in
      if \<not> snapshot_eq current expected then (Inl (SnapshotChanged current), d)
      else case upsert_rows he writes d of
             (Inl e, _) \<Rightarrow> (Inl (PageStore e), d)
           | (Inr bs, d') \<Rightarrow> (Inr bs, d'))"

definition merge_page ::
  "history_env \<Rightarrow> string list \<Rightarrow> (string, version) fmap \<Rightarrow> incoming_item list \<Rightarrow> store
   \<Rightarrow> (merge_page_error + bool list) \<times> store" where
  "merge_page he ids expected writes = transact (merge_page_tx he ids expected writes) PageStore"

definition apply_pin_state_tx ::
  "string \<Rightarrow> bool \<Rightarrow> f64 option \<Rightarrow> int \<Rightarrow> db \<Rightarrow> (store_error + bool) \<times> db" where
  "apply_pin_state_tx k pinned pin_order pin_updated_at d =
     (if (case fmlookup (db_pins d) k of None \<Rightarrow> False | Some p \<Rightarrow> p_updated_at p \<ge> pin_updated_at)
      then (Inr False, d)
      else case fmlookup (db_items d) k of
             None \<Rightarrow> (Inr False, d)
           | Some r \<Rightarrow>
               if r_deleted r then (Inr False, d)
               else (Inr True, d\<lparr>db_items := fmupd k
                      (r\<lparr>r_pinned := pinned, r_pin_order := pin_order, r_pin_updated_at := pin_updated_at\<rparr>)
                      (db_items d)\<rparr>))"

definition apply_pin_state ::
  "string \<Rightarrow> bool \<Rightarrow> f64 option \<Rightarrow> int \<Rightarrow> store \<Rightarrow> (store_error + bool) \<times> store" where
  "apply_pin_state k pinned pin_order pin_updated_at =
     transact (apply_pin_state_tx k pinned pin_order pin_updated_at) (\<lambda>e. e)"

section \<open>Reading\<close>

definition read :: "(db \<Rightarrow> 'a) \<Rightarrow> store \<Rightarrow> (store_error + 'a) \<times> store" where
  "read f = transact (\<lambda>d. (Inr (f d), d)) (\<lambda>e. e)"

definition version_summaries :: "string list \<Rightarrow> store \<Rightarrow> (store_error + (string, version) fmap) \<times> store" where
  "version_summaries ids s = (if ids = [] then (Inr fmempty, s) else read (\<lambda>d. version_summaries_on d ids) s)"

text \<open>The row order of \<open>version_ctes\<close>: the change stamp, then the id.\<close>

definition change_stamp :: "version \<Rightarrow> int" where
  "change_stamp v = max (v_created_at v) (v_pin_updated_at v)"

definition after_keyset :: "int \<Rightarrow> string option \<Rightarrow> int \<Rightarrow> string \<Rightarrow> bool" where
  "after_keyset since after stamp k \<longleftrightarrow>
     stamp > since \<or> stamp = since \<and> (case after of None \<Rightarrow> True | Some a \<Rightarrow> k > a)"

definition by_stamp :: "(version \<Rightarrow> int) \<Rightarrow> version list \<Rightarrow> version list" where
  "by_stamp f vs = sort_key (\<lambda>v. (f v, v_id v)) vs"

definition summaries_since :: "int \<Rightarrow> string option \<Rightarrow> nat \<Rightarrow> db \<Rightarrow> version list" where
  "summaries_since since after limit d =
     (let keep = filter (\<lambda>v. after_keyset since after (change_stamp v) (v_id v));
          locals = take limit (by_stamp change_stamp (keep (map (\<lambda>(k, r). item_version k r) (fm_entries (db_items d)))));
          orgs = take limit (by_stamp change_stamp (keep (map (\<lambda>(k, r). org_version k r) (fm_entries (db_orgs d)))))
      in take limit (by_stamp change_stamp (locals @ orgs)))"

definition joined_ciphertext :: "string \<Rightarrow> item_row \<Rightarrow> db \<Rightarrow> bytes" where
  "joined_ciphertext k r d =
     (case r_ciphertext r of
        None \<Rightarrow> []
      | Some own \<Rightarrow>
          own @ (case fmlookup (db_links d) k of
                   None \<Rightarrow> []
                 | Some b \<Rightarrow> (case fmlookup (db_blobs d) b of None \<Rightarrow> [] | Some bs \<Rightarrow> bs)))"

definition row_to_item :: "string \<Rightarrow> item_row \<Rightarrow> db \<Rightarrow> stored_item" where
  "row_to_item k r d =
     \<lparr>si_icon_id = r_icon_id r, si_id = k, si_ciphertext = joined_ciphertext k r d,
      si_nonce = (case r_nonce r of None \<Rightarrow> [] | Some n \<Rightarrow> n), si_content_type = r_content_type r,
      si_content_hash = r_content_hash r, si_created_at = r_created_at r, si_pinned = r_pinned r,
      si_pin_order = r_pin_order r, si_pin_updated_at = r_pin_updated_at r, si_deleted = r_deleted r,
      si_origin = r_origin r, si_app_bundle_id = r_app_bundle_id r, si_app_name = r_app_name r,
      si_metadata = r_metadata r\<rparr>"

definition org_to_item :: "string \<Rightarrow> org_row \<Rightarrow> stored_item" where
  "org_to_item k r =
     \<lparr>si_icon_id = None, si_id = k, si_ciphertext = o_ciphertext r, si_nonce = o_nonce r,
      si_content_type = org_content_type, si_content_hash = o_content_hash r, si_created_at = o_created_at r,
      si_pinned = False, si_pin_order = None, si_pin_updated_at = 0, si_deleted = False,
      si_origin = o_origin r, si_app_bundle_id = None, si_app_name = None, si_metadata = None\<rparr>"

text \<open>
  The rows of the view \<open>sync_records\<close> with one of the ids; SQL leaves their order open, the model
  lists each table in the order of the ids.
\<close>

definition versions :: "string list \<Rightarrow> db \<Rightarrow> stored_item list" where
  "versions ids d =
     map (\<lambda>(k, r). row_to_item k r d) (filter (\<lambda>(k, r). k \<in> set ids) (fm_entries (db_items d)))
     @ map (\<lambda>(k, r). org_to_item k r) (filter (\<lambda>(k, r). k \<in> set ids) (fm_entries (db_orgs d)))"

definition source_app_icon_by_id :: "string \<Rightarrow> db \<Rightarrow> icon_metadata option" where
  "source_app_icon_by_id i d =
     map_option (\<lambda>r. \<lparr>ic_png_base64 = ir_png_base64 r, ic_width = ir_width r, ic_height = ir_height r\<rparr>)
       (fmlookup (db_icons d) i)"

definition payload_metadata_for_sync :: "history_env \<Rightarrow> stored_item \<Rightarrow> db \<Rightarrow> string option" where
  "payload_metadata_for_sync he item d =
     (if si_deleted item then None
      else let pe = he_payload he; ct = si_content_type item;
               base = (case si_metadata item of
                   None \<Rightarrow> Inr metadata_default
                 | Some j \<Rightarrow>
                     (case metadata_from_json pe j ct of
                        Some m \<Rightarrow> Inr m
                      | None \<Rightarrow>
                          if is_text ct then Inr (metadata_default\<lparr>pm_privacy := privacy_from_json pe j\<rparr>)
                          else Inl (Some j)))
           in case base of
                Inl j \<Rightarrow> j
              | Inr m \<Rightarrow>
                  let m = (case si_icon_id item of
                        None \<Rightarrow> m
                      | Some i \<Rightarrow>
                          (case source_app_icon_by_id i d of
                             None \<Rightarrow> m
                           | Some icon \<Rightarrow> if icon_png pe icon \<noteq> None then m\<lparr>pm_source_app_icon := Some icon\<rparr> else m));
                      m = m\<lparr>pm_file := map_option (\<lambda>f. f\<lparr>fd_source_reference := None\<rparr>) (pm_file m)\<rparr>
                  in metadata_to_json pe m ct)"

end
