(* ===== verification/History_Merge.thy ===== *)
theory History_Merge
  imports History_Db
begin

text \<open>
  Merging versions from another device into the history: \<open>crates/copypaste-core/src/sync/merge.rs\<close>,
  \<open>prepare.rs\<close>, \<open>batch.rs\<close> and \<open>diagnostics.rs\<close>. \<open>Prepared\<close> has the fields of \<open>IncomingItem\<close> and
  \<open>as_incoming\<close> copies them, so a prepared version is an \<open>incoming_item\<close> here. The random nonces
  are arguments: \<open>rnd attempt index\<close> is the pair drawn for one item of one attempt.
\<close>

section \<open>Diagnostics\<close>

definition diagnose_io :: "io_kind \<Rightarrow> sync_issue_code" where
  "diagnose_io e =
     (case e of
        IoStorageFull \<Rightarrow> StorageFull
      | IoOutOfMemory \<Rightarrow> ResourcesUnavailable
      | IoPermissionDenied \<Rightarrow> StoragePermissionDenied
      | IoWouldBlock \<Rightarrow> HistoryBusy
      | IoInterrupted \<Rightarrow> HistoryBusy
      | IoOther \<Rightarrow> HistoryUnavailable)"

definition diagnose_sqlite :: "sqlite_code \<Rightarrow> sync_issue_code" where
  "diagnose_sqlite e =
     (case e of
        DiskFull \<Rightarrow> StorageFull
      | OutOfMemory \<Rightarrow> ResourcesUnavailable
      | PermissionDenied \<Rightarrow> StoragePermissionDenied
      | ReadOnly \<Rightarrow> StoragePermissionDenied
      | AuthorizationDenied \<Rightarrow> StoragePermissionDenied
      | DatabaseBusy \<Rightarrow> HistoryBusy
      | DatabaseLocked \<Rightarrow> HistoryBusy
      | DatabaseCorrupt \<Rightarrow> HistoryCorrupt
      | NotADatabase \<Rightarrow> HistoryCorrupt
      | _ \<Rightarrow> HistoryUnavailable)"

definition diagnose :: "store_error \<Rightarrow> sync_issue_code" where
  "diagnose e =
     (case e of
        FileError e \<Rightarrow> diagnose_io e
      | SqliteError e \<Rightarrow> diagnose_sqlite e
      | PoolError \<Rightarrow> HistoryUnavailable
      | InvalidKey \<Rightarrow> HistoryLocked
      | IntegrityCheckFailed \<Rightarrow> HistoryCorrupt
      | InvalidSchema \<Rightarrow> HistoryIncompatible
      | InvalidPayload \<Rightarrow> LocalPayloadInvalid
      | _ \<Rightarrow> HistoryUnavailable)"

section \<open>Opening what is stored\<close>

datatype open_version_error = MissingPayload | AuthenticationFailed | InvalidOpened

definition open_error :: "crypto_error \<Rightarrow> open_version_error" where
  "open_error e = (if e = AuthFailed then AuthenticationFailed else InvalidOpened)"

definition map_err :: "('e \<Rightarrow> 'f) \<Rightarrow> 'e + 'a \<Rightarrow> 'f + 'a" where
  "map_err f r = (case r of Inl e \<Rightarrow> Inl (f e) | Inr a \<Rightarrow> Inr a)"

definition open_version_bytes :: "history_env \<Rightarrow> bytes \<Rightarrow> stored_item \<Rightarrow> open_version_error + bytes" where
  "open_version_bytes he key row =
     (if si_ciphertext row = [] then Inl MissingPayload
      else if is_binary (si_content_type row)
      then map_err open_error (bin_open (he_sealing he) (si_ciphertext row) key (si_id row))
      else if si_nonce row = [] then Inl MissingPayload
      else map_err open_error (decrypt (he_sealing he) (si_ciphertext row) (si_nonce row) key (si_id row)))"

definition open_version :: "history_env \<Rightarrow> bytes \<Rightarrow> stored_item \<Rightarrow> open_version_error + string" where
  "open_version he key row =
     (if \<not> is_text (si_content_type row) then Inl MissingPayload
      else res_bind (open_version_bytes he key row) (\<lambda>bs.
        if utf8_valid bs then Inr bs else Inl InvalidOpened))"

section \<open>Versions that arrive\<close>

record remote_version =
  ro_item_id :: string
  ro_content :: string
  ro_binary_content :: "bytes option"
  ro_metadata :: "string option"
  ro_content_type :: string
  ro_created_at :: int
  ro_deleted :: bool
  ro_content_hash :: "string option"
  ro_origin_device_id :: string
  ro_app_bundle_id :: "string option"
  ro_app_name :: "string option"

datatype merge_error = MergeStore | StoreCause sync_issue_code | MergeEncrypt | MergeTooLarge

record p2p_apply =
  ap_content :: bool
  ap_pin :: bool

definition apply_any :: "p2p_apply \<Rightarrow> bool" where
  "apply_any a \<longleftrightarrow> ap_content a \<or> ap_pin a"

type_synonym pin_state = "bool \<times> f64 option \<times> int"

definition stored_summary :: "version \<Rightarrow> string \<Rightarrow> item_summary" where
  "stored_summary v here =
     \<lparr>s_item_id = v_id v, s_created_at = v_created_at v, s_deleted = v_deleted v,
      s_content_hash = v_content_hash v, s_origin_device_id = origin_or (v_origin_device_id v) here,
      s_pinned = v_pinned v, s_pin_order = v_pin_order v, s_pin_updated_at = v_pin_updated_at v\<rparr>"

definition remote_summary :: "remote_version \<Rightarrow> string \<Rightarrow> pin_state option \<Rightarrow> item_summary" where
  "remote_summary inc content_hash pin =
     \<lparr>s_item_id = ro_item_id inc, s_created_at = ro_created_at inc, s_deleted = ro_deleted inc,
      s_content_hash = content_hash, s_origin_device_id = ro_origin_device_id inc,
      s_pinned = (case pin of None \<Rightarrow> False | Some (p, _, _) \<Rightarrow> p),
      s_pin_order = (case pin of None \<Rightarrow> None | Some (_, po, _) \<Rightarrow> po),
      s_pin_updated_at = (case pin of None \<Rightarrow> 0 | Some (_, _, t) \<Rightarrow> t)\<rparr>"

definition compute_content_hash :: "history_env \<Rightarrow> bytes \<Rightarrow> string" where
  "compute_content_hash he content =
     c_hex_encode (sl_crypto (he_sealing he)) (c_sha256 (sl_crypto (he_sealing he)) content)"

definition remote_payload :: "remote_version \<Rightarrow> bytes" where
  "remote_payload inc = (case ro_binary_content inc of None \<Rightarrow> ro_content inc | Some bs \<Rightarrow> bs)"

definition live_content_hash :: "history_env \<Rightarrow> remote_version \<Rightarrow> string" where
  "live_content_hash he inc =
     (if is_binary (ro_content_type inc)
      then bin_content_hash (he_sealing he) (content_digest (he_sealing he) (remote_payload inc))
      else compute_content_hash he (remote_payload inc))"

definition remote_content_hash :: "history_env \<Rightarrow> remote_version \<Rightarrow> version option \<Rightarrow> string" where
  "remote_content_hash he inc local =
     (if ro_deleted inc
      then (case ro_content_hash inc of
              Some h \<Rightarrow> h
            | None \<Rightarrow> (case local of None \<Rightarrow> [] | Some v \<Rightarrow> v_content_hash v))
      else live_content_hash he inc)"

definition payload_is_refused :: "history_env \<Rightarrow> remote_version \<Rightarrow> bool" where
  "payload_is_refused he inc =
     (if ro_deleted inc then ro_metadata inc \<noteq> None
      else if is_binary (ro_content_type inc) \<and> ro_binary_content inc = None then True
      else case ro_metadata inc of
             None \<Rightarrow> ro_content_type inc = content_type_file
           | Some j \<Rightarrow>
               (case metadata_from_json (he_payload he) j (ro_content_type inc) of
                  None \<Rightarrow> True
                | Some m \<Rightarrow>
                    (case (case pm_file m of None \<Rightarrow> None | Some f \<Rightarrow> fd_transfer f) of
                       None \<Rightarrow> False
                     | Some offer \<Rightarrow>
                         ro_content_type inc \<noteq> content_type_file
                         \<or> (case ro_binary_content inc of None \<Rightarrow> None
                            | Some bs \<Rightarrow> pe_transfer_of_json (he_payload he) bs) \<noteq> Some offer)))"

section \<open>Deciding and sealing\<close>

definition organization_text :: "remote_version \<Rightarrow> string option" where
  "organization_text inc =
     (if ro_content_type inc = org_content_type
      then (case ro_binary_content inc of None \<Rightarrow> None | Some bs \<Rightarrow> if utf8_valid bs then Some bs else None)
      else Some (ro_content inc))"

definition decided_hash :: "history_env \<Rightarrow> remote_version \<Rightarrow> version option \<Rightarrow> string" where
  "decided_hash he inc local =
     (case ro_content_hash inc of
        Some h \<Rightarrow> if ro_deleted inc then h else live_content_hash he inc
      | None \<Rightarrow>
          if ro_deleted inc then (case local of None \<Rightarrow> [] | Some l \<Rightarrow> v_content_hash l)
          else live_content_hash he inc)"

definition seal_incoming ::
  "history_env \<Rightarrow> bytes \<Rightarrow> bytes \<times> bytes \<Rightarrow> remote_version \<Rightarrow> merge_error + (bytes \<times> bytes) option" where
  "seal_incoming he key rnd inc =
     (let sl = he_sealing he; content = remote_payload inc; digest = content_digest sl content in
      if ro_deleted inc then Inr None
      else if is_binary (ro_content_type inc)
      then map_err (\<lambda>_. MergeEncrypt)
             (res_bind
               (if starts_with (ro_item_id inc) import_id_prefix
                then reference_seal sl (fst rnd) (snd rnd) content digest key (ro_item_id inc)
                else seal_with_digest sl (snd rnd) content digest key (ro_item_id inc))
               (\<lambda>c. Inr (Some ([], c))))
      else map_err (\<lambda>_. MergeEncrypt)
             (res_bind (encrypt sl (fst rnd) content key (ro_item_id inc)) (\<lambda>(n, c). Inr (Some (n, c)))))"

definition incoming_metadata :: "history_env \<Rightarrow> remote_version \<Rightarrow> string option" where
  "incoming_metadata he inc =
     (let pe = he_payload he; ct = ro_content_type inc in
      if ro_deleted inc then None
      else case classify_credentials (he_credentials he) ct (ro_content inc) of
             None \<Rightarrow> ro_metadata inc
           | Some privacy \<Rightarrow>
               let supplied =
                 (case (case ro_metadata inc of None \<Rightarrow> None | Some j \<Rightarrow> metadata_from_json pe j ct) of
                    Some m \<Rightarrow> m
                  | None \<Rightarrow> metadata_default\<lparr>pm_privacy := privacy_of pe (ro_metadata inc)\<rparr>)
               in metadata_to_json pe (credential_metadata privacy (Some supplied)) ct)"

definition prepare_remote_version ::
  "history_env \<Rightarrow> bytes \<Rightarrow> string \<Rightarrow> bytes \<times> bytes \<Rightarrow> remote_version \<Rightarrow> (pin_state \<times> bool) option
   \<Rightarrow> version option \<Rightarrow> merge_error + incoming_item option" where
  "prepare_remote_version he key here rnd inc pin local =
     (if (case organization_text inc of None \<Rightarrow> True
          | Some body \<Rightarrow> \<not> valid_wire he (ro_item_id inc) (ro_content_type inc) body (ro_deleted inc))
      then Inr None
      else if \<not> ro_deleted inc \<and> length (remote_payload inc) > max_content_bytes then Inl MergeTooLarge
      else
        let hash = decided_hash he inc local;
            remote = remote_summary inc hash (map_option fst pin) in
        if (case local of None \<Rightarrow> False
            | Some l \<Rightarrow> merge_decision (stored_summary l here) (origin_or (v_origin_device_id l) here)
                          remote (ro_origin_device_id inc) = KeepLocal)
        then Inr None
        else res_bind (seal_incoming he key rnd inc) (\<lambda>sealed.
          let (pinned, pin_order, pin_updated_at) =
                (if ro_deleted inc then (False, None, 0)
                 else case pin of
                        Some (state, True) \<Rightarrow> state
                      | _ \<Rightarrow> (case local of None \<Rightarrow> (False, None, 0)
                              | Some l \<Rightarrow> (v_pinned l, v_pin_order l, v_pin_updated_at l)))
          in Inr (Some
            \<lparr>in_id = ro_item_id inc, in_ciphertext = map_option snd sealed, in_nonce = map_option fst sealed,
             in_content_type = ro_content_type inc, in_content_hash = hash, in_created_at = ro_created_at inc,
             in_deleted = ro_deleted inc, in_origin = ro_origin_device_id inc,
             in_app_bundle_id = ro_app_bundle_id inc, in_app_name = ro_app_name inc,
             in_pinned = pinned, in_pin_order = pin_order, in_pin_updated_at = pin_updated_at,
             in_search_text =
               (if ro_content_type inc = org_content_type then organization_text inc
                else if ro_deleted inc \<or> is_binary (ro_content_type inc) then None
                else Some (ro_content inc)),
             in_metadata = incoming_metadata he inc\<rparr>)))"

text \<open>\<open>Prepared::as_version\<close>.\<close>

definition as_version :: "incoming_item \<Rightarrow> string \<Rightarrow> version" where
  "as_version inc here =
     \<lparr>v_id = in_id inc, v_created_at = in_created_at inc, v_content_hash = in_content_hash inc,
      v_deleted = in_deleted inc, v_pinned = in_pinned inc, v_pin_order = in_pin_order inc,
      v_pin_updated_at = in_pin_updated_at inc, v_origin_device_id = origin_or (in_origin inc) here\<rparr>"

section \<open>One version at a time\<close>

definition local_version :: "string \<Rightarrow> store \<Rightarrow> (merge_error + version option) \<times> store" where
  "local_version k s =
     (case read (\<lambda>d. version_summary d k) s of
        (Inl e, s) \<Rightarrow> (Inl (StoreCause (diagnose e)), s)
      | (Inr v, s) \<Rightarrow> (Inr v, s))"

definition apply_with_pin_state ::
  "history_env \<Rightarrow> bytes \<Rightarrow> string \<Rightarrow> bytes \<times> bytes \<Rightarrow> remote_version \<Rightarrow> (pin_state \<times> bool) option
   \<Rightarrow> version option \<Rightarrow> store \<Rightarrow> (merge_error + bool) \<times> store" where
  "apply_with_pin_state he key here rnd inc pin local s =
     (case prepare_remote_version he key here rnd inc pin local of
        Inl e \<Rightarrow> (Inl e, s)
      | Inr None \<Rightarrow> (Inr False, s)
      | Inr (Some ready) \<Rightarrow>
          (case store_upsert he ready s of
             (Inl e, s) \<Rightarrow> (Inl (StoreCause (diagnose e)), s)
           | (Inr b, s) \<Rightarrow> (Inr b, s)))"

definition apply_remote_version ::
  "history_env \<Rightarrow> bytes \<Rightarrow> string \<Rightarrow> bytes \<times> bytes \<Rightarrow> remote_version \<Rightarrow> store \<Rightarrow> (merge_error + bool) \<times> store" where
  "apply_remote_version he key here rnd inc s =
     (if payload_is_refused he inc then (Inr False, s)
      else case local_version (ro_item_id inc) s of
             (Inl e, s) \<Rightarrow> (Inl e, s)
           | (Inr local, s) \<Rightarrow> apply_with_pin_state he key here rnd inc None local s)"

definition remote_pin_wins :: "string \<Rightarrow> remote_version \<Rightarrow> pin_state \<Rightarrow> version option \<Rightarrow> bool" where
  "remote_pin_wins here inc pin local \<longleftrightarrow>
     \<not> ro_deleted inc
     \<and> (case local of None \<Rightarrow> True
        | Some l \<Rightarrow> pin_state_wins (stored_summary l here) (remote_summary inc [] (Some pin)))"

definition apply_remote_p2p_version ::
  "history_env \<Rightarrow> bytes \<Rightarrow> string \<Rightarrow> bytes \<times> bytes \<Rightarrow> remote_version \<Rightarrow> pin_state \<Rightarrow> store
   \<Rightarrow> (merge_error + p2p_apply) \<times> store" where
  "apply_remote_p2p_version he key here rnd inc pin s =
     (case local_version (ro_item_id inc) s of
        (Inl e, s) \<Rightarrow> (Inl e, s)
      | (Inr local, s) \<Rightarrow>
          let wins = remote_pin_wins here inc pin local in
          (case (if payload_is_refused he inc then (Inr False, s)
                 else apply_with_pin_state he key here rnd inc (Some (pin, wins)) local s) of
             (Inl e, s) \<Rightarrow> (Inl e, s)
           | (Inr content, s) \<Rightarrow>
               if \<not> content \<and> wins
               then (case pin of (pinned, pin_order, pin_updated_at) \<Rightarrow>
                      (case apply_pin_state (ro_item_id inc) pinned pin_order pin_updated_at s of
                         (Inl e, s) \<Rightarrow> (Inl (StoreCause (diagnose e)), s)
                       | (Inr b, s) \<Rightarrow> (Inr \<lparr>ap_content = content, ap_pin = b\<rparr>, s)))
               else (Inr \<lparr>ap_content = content, ap_pin = False\<rparr>, s)))"

definition local_winner_stamp ::
  "history_env \<Rightarrow> string \<Rightarrow> remote_version \<Rightarrow> store \<Rightarrow> (merge_error + int option) \<times> store" where
  "local_winner_stamp he here inc s =
     (case local_version (ro_item_id inc) s of
        (Inl e, s) \<Rightarrow> (Inl e, s)
      | (Inr None, s) \<Rightarrow> (Inr None, s)
      | (Inr (Some local), s) \<Rightarrow>
          let mine = stored_summary local here;
              remote = remote_summary inc (remote_content_hash he inc (Some local)) None;
              same = s_created_at mine = s_created_at remote \<and> s_content_hash mine = s_content_hash remote
                     \<and> s_deleted mine = s_deleted remote \<and> s_origin_device_id mine = s_origin_device_id remote
          in (Inr (if \<not> same \<and> merge_decision_by_summary mine remote = KeepLocal
                   then Some (v_created_at local) else None), s))"

section \<open>A whole page\<close>

definition snapshot_attempts :: nat where "snapshot_attempts = 2"

fun prepare_loop ::
  "history_env \<Rightarrow> bytes \<Rightarrow> string \<Rightarrow> (nat \<Rightarrow> bytes \<times> bytes) \<Rightarrow> pin_state list option \<Rightarrow> nat \<Rightarrow> remote_version list
   \<Rightarrow> (string, version) fmap \<Rightarrow> incoming_item list \<Rightarrow> nat option list \<Rightarrow> nat list
   \<Rightarrow> merge_error + incoming_item list \<times> nat option list \<times> nat list" where
  "prepare_loop he key here rnd pins index [] local prepared slots pin_only = Inr (prepared, slots, pin_only)"
| "prepare_loop he key here rnd pins index (inc # rest) local prepared slots pin_only =
     (if payload_is_refused he inc
      then prepare_loop he key here rnd pins (Suc index) rest local prepared (slots @ [None]) pin_only
      else
        let mine = fmlookup local (ro_item_id inc);
            pin = map_option (\<lambda>pins. (pins ! index, remote_pin_wins here inc (pins ! index) mine)) pins
        in case prepare_remote_version he key here (rnd index) inc pin mine of
             Inl e \<Rightarrow> Inl e
           | Inr (Some ready) \<Rightarrow>
               prepare_loop he key here rnd pins (Suc index) rest
                 (fmupd (ro_item_id inc) (as_version ready here) local)
                 (prepared @ [ready]) (slots @ [Some (length prepared)]) pin_only
           | Inr None \<Rightarrow>
               prepare_loop he key here rnd pins (Suc index) rest local prepared (slots @ [None])
                 (if (case pin of None \<Rightarrow> False | Some (_, wins) \<Rightarrow> wins) then pin_only @ [index] else pin_only))"

definition prepare_page ::
  "history_env \<Rightarrow> bytes \<Rightarrow> string \<Rightarrow> (nat \<Rightarrow> bytes \<times> bytes) \<Rightarrow> remote_version list \<Rightarrow> pin_state list option
   \<Rightarrow> (string, version) fmap \<Rightarrow> merge_error + incoming_item list \<times> nat option list \<times> nat list" where
  "prepare_page he key here rnd incoming pins local = prepare_loop he key here rnd pins 0 incoming local [] [] []"

fun apply_pin_only ::
  "remote_version list \<Rightarrow> pin_state list option \<Rightarrow> nat list \<Rightarrow> p2p_apply list \<Rightarrow> store
   \<Rightarrow> (merge_error + p2p_apply list) \<times> store" where
  "apply_pin_only incoming pins [] applied s = (Inr applied, s)"
| "apply_pin_only incoming pins (index # rest) applied s =
     (if apply_any (applied ! index) then apply_pin_only incoming pins rest applied s
      else case the pins ! index of (pinned, pin_order, pin_updated_at) \<Rightarrow>
        (case apply_pin_state (ro_item_id (incoming ! index)) pinned pin_order pin_updated_at s of
           (Inl e, s) \<Rightarrow> (Inl (StoreCause (diagnose e)), s)
         | (Inr b, s) \<Rightarrow>
             apply_pin_only incoming pins rest (applied[index := (applied ! index)\<lparr>ap_pin := b\<rparr>]) s))"

text \<open>\<open>refused_at\<close>: the first index at which the store refused a version of an id.\<close>

fun refused_at :: "nat \<Rightarrow> remote_version list \<Rightarrow> nat option list \<Rightarrow> bool list \<Rightarrow> (string, nat) fmap \<Rightarrow> (string, nat) fmap" where
  "refused_at index (inc # rest) (slot # slots) written acc =
     refused_at (Suc index) rest slots written
       (case slot of
          Some i \<Rightarrow> if \<not> written ! i \<and> \<not> fm_contains acc (ro_item_id inc)
                    then fmupd (ro_item_id inc) index acc else acc
        | None \<Rightarrow> acc)"
| "refused_at index _ _ written acc = acc"

fun redo_loop ::
  "history_env \<Rightarrow> bytes \<Rightarrow> string \<Rightarrow> (nat \<Rightarrow> bytes \<times> bytes) \<Rightarrow> pin_state list option \<Rightarrow> (string, nat) fmap \<Rightarrow> nat
   \<Rightarrow> remote_version list \<Rightarrow> p2p_apply list \<Rightarrow> store \<Rightarrow> (merge_error + p2p_apply list) \<times> store" where
  "redo_loop he key here rnd pins refused index [] applied s = (Inr applied, s)"
| "redo_loop he key here rnd pins refused index (inc # rest) applied s =
     (if apply_any (applied ! index)
         \<or> (case fmlookup refused (ro_item_id inc) of None \<Rightarrow> True | Some first \<Rightarrow> index \<le> first)
      then redo_loop he key here rnd pins refused (Suc index) rest applied s
      else
        case (case pins of
                Some pins \<Rightarrow> apply_remote_p2p_version he key here (rnd index) inc (pins ! index) s
              | None \<Rightarrow>
                  (case apply_remote_version he key here (rnd index) inc s of
                     (Inl e, s) \<Rightarrow> (Inl e, s)
                   | (Inr b, s) \<Rightarrow> (Inr \<lparr>ap_content = b, ap_pin = False\<rparr>, s))) of
          (Inl e, s) \<Rightarrow> (Inl e, s)
        | (Inr flags, s) \<Rightarrow> redo_loop he key here rnd pins refused (Suc index) rest (applied[index := flags]) s)"

definition redo_after_refusals ::
  "history_env \<Rightarrow> bytes \<Rightarrow> string \<Rightarrow> (nat \<Rightarrow> bytes \<times> bytes) \<Rightarrow> remote_version list \<Rightarrow> pin_state list option
   \<Rightarrow> nat option list \<Rightarrow> bool list \<Rightarrow> p2p_apply list \<Rightarrow> store \<Rightarrow> (merge_error + p2p_apply list) \<times> store" where
  "redo_after_refusals he key here rnd incoming pins slots written applied s =
     (let refused = refused_at 0 incoming slots written fmempty in
      if refused = fmempty then (Inr applied, s)
      else redo_loop he key here rnd pins refused 0 incoming applied s)"

definition slot_flags :: "bool \<Rightarrow> bool list \<Rightarrow> nat option \<Rightarrow> p2p_apply" where
  "slot_flags p2p written slot =
     (let content = (case slot of None \<Rightarrow> False | Some i \<Rightarrow> written ! i)
      in \<lparr>ap_content = content, ap_pin = content \<and> p2p\<rparr>)"

definition after_page ::
  "history_env \<Rightarrow> bytes \<Rightarrow> string \<Rightarrow> (nat \<Rightarrow> nat \<Rightarrow> bytes \<times> bytes) \<Rightarrow> remote_version list \<Rightarrow> pin_state list option
   \<Rightarrow> nat option list \<Rightarrow> nat list \<Rightarrow> bool list \<Rightarrow> store \<Rightarrow> (merge_error + p2p_apply list) \<times> store" where
  "after_page he key here rnd incoming pins slots pin_only written s =
     (case apply_pin_only incoming pins pin_only (map (slot_flags (pins \<noteq> None) written) slots) s of
        (Inl e, s) \<Rightarrow> (Inl e, s)
      | (Inr applied, s) \<Rightarrow>
          redo_after_refusals he key here (rnd snapshot_attempts) incoming pins slots written applied s)"

fun page_attempts ::
  "nat \<Rightarrow> history_env \<Rightarrow> bytes \<Rightarrow> string \<Rightarrow> (nat \<Rightarrow> nat \<Rightarrow> bytes \<times> bytes) \<Rightarrow> remote_version list \<Rightarrow> pin_state list option
   \<Rightarrow> (string, version) fmap \<Rightarrow> store \<Rightarrow> (merge_error + p2p_apply list) \<times> store" where
  "page_attempts 0 he key here rnd incoming pins snapshot s = (Inl (StoreCause HistoryBusy), s)"
| "page_attempts (Suc n) he key here rnd incoming pins snapshot s =
     (case prepare_page he key here (rnd n) incoming pins snapshot of
        Inl e \<Rightarrow> (Inl e, s)
      | Inr (prepared, slots, pin_only) \<Rightarrow>
          (case merge_page he (map ro_item_id incoming) snapshot prepared s of
             (Inr written, s) \<Rightarrow>
               if length written \<noteq> length prepared then (Inl MergeStore, s)
               else after_page he key here rnd incoming pins slots pin_only written s
           | (Inl (SnapshotChanged current), s) \<Rightarrow>
               page_attempts n he key here rnd incoming pins current s
           | (Inl (PageStore e), s) \<Rightarrow> (Inl (StoreCause (diagnose e)), s)))"

definition apply_page ::
  "history_env \<Rightarrow> bytes \<Rightarrow> string \<Rightarrow> (nat \<Rightarrow> nat \<Rightarrow> bytes \<times> bytes) \<Rightarrow> remote_version list \<Rightarrow> pin_state list option
   \<Rightarrow> store \<Rightarrow> (merge_error + p2p_apply list) \<times> store" where
  "apply_page he key here rnd incoming pins s =
     (if incoming = [] then (Inr [], s)
      else case version_summaries (map ro_item_id incoming) s of
             (Inl e, s) \<Rightarrow> (Inl (StoreCause (diagnose e)), s)
           | (Inr snapshot, s) \<Rightarrow> page_attempts snapshot_attempts he key here rnd incoming pins snapshot s)"

definition apply_remote_versions ::
  "history_env \<Rightarrow> bytes \<Rightarrow> string \<Rightarrow> (nat \<Rightarrow> nat \<Rightarrow> bytes \<times> bytes) \<Rightarrow> remote_version list \<Rightarrow> store
   \<Rightarrow> (merge_error + bool list) \<times> store" where
  "apply_remote_versions he key here rnd incoming s =
     (case apply_page he key here rnd incoming None s of
        (Inl e, s) \<Rightarrow> (Inl e, s)
      | (Inr applied, s) \<Rightarrow> (Inr (map apply_any applied), s))"

definition apply_remote_p2p_versions ::
  "history_env \<Rightarrow> bytes \<Rightarrow> string \<Rightarrow> (nat \<Rightarrow> nat \<Rightarrow> bytes \<times> bytes) \<Rightarrow> remote_version list \<Rightarrow> pin_state list \<Rightarrow> store
   \<Rightarrow> (merge_error + p2p_apply list) \<times> store" where
  "apply_remote_p2p_versions he key here rnd incoming pins s = apply_page he key here rnd incoming (Some pins) s"

end
