(* ===== verification/History_Local.thy ===== *)
theory History_Local
  imports History_Merge
begin

text \<open>
  What this device does to its own history: captures and deletions
  (\<open>crates/copypaste-core/src/storage/items.rs\<close>), deduplication and the retention sweeps
  (\<open>storage/retention.rs\<close>), pinning (\<open>pinning.rs\<close>), confidentiality (\<open>privacy.rs\<close>) and the records
  this device writes about tags and pins (\<open>organization.rs\<close>). Each is a function on the database
  run by \<open>transact\<close>; the wall clock and the random nonces are arguments. The tables of partial file
  transfers are not modelled, so \<open>content_bytes\<close> counts the row's own and its shared bytes.
\<close>

section \<open>Rows\<close>

text \<open>An \<open>UPDATE\<close> that may hit the unique index.\<close>

definition update_item :: "string \<Rightarrow> item_row \<Rightarrow> db \<Rightarrow> store_error + db" where
  "update_item k r d = (if dedup_conflict k r d then Inl (SqliteError ConstraintViolation) else Inr (put_item k r d))"

definition live_item :: "string \<Rightarrow> db \<Rightarrow> item_row option" where
  "live_item k d =
     (case fmlookup (db_items d) k of None \<Rightarrow> None | Some r \<Rightarrow> if r_deleted r then None else Some r)"

definition get_item :: "string \<Rightarrow> db \<Rightarrow> stored_item option" where
  "get_item k d = map_option (\<lambda>r. row_to_item k r d) (live_item k d)"

definition live_rows :: "db \<Rightarrow> (string \<times> item_row) list" where
  "live_rows d = filter (\<lambda>(k, r). \<not> r_deleted r) (fm_entries (db_items d))"

definition unpinned_rows :: "db \<Rightarrow> (string \<times> item_row) list" where
  "unpinned_rows d = filter (\<lambda>(k, r). \<not> r_pinned r) (live_rows d)"

text \<open>\<open>ORDER BY created_at, id\<close>.\<close>

definition by_age :: "(string \<times> item_row) list \<Rightarrow> (string \<times> item_row) list" where
  "by_age rs = sort_key (\<lambda>(k, r). (r_created_at r, k)) rs"

definition newest :: "(string \<times> item_row) list \<Rightarrow> (string \<times> item_row) option" where
  "newest rs = (if rs = [] then None else Some (last (by_age rs)))"

definition newest_live_key :: "db \<Rightarrow> (string \<times> int) option" where
  "newest_live_key d = map_option (\<lambda>(k, r). (k, r_created_at r)) (newest (live_rows d))"

text \<open>
  \<open>content_bytes_sql!\<close>: the row's ciphertext, the octets of the metadata, the shared payload. The
  sum over \<open>file_transfer_chunks\<close> is left out with that table: no operation here writes it.
\<close>

definition content_bytes_of :: "string \<Rightarrow> item_row \<Rightarrow> string option \<Rightarrow> db \<Rightarrow> nat" where
  "content_bytes_of k r metadata d =
     (case r_ciphertext r of None \<Rightarrow> 0 | Some c \<Rightarrow> length c)
     + (case metadata of None \<Rightarrow> 0 | Some m \<Rightarrow> length m)
     + (case fmlookup (db_links d) k of
          None \<Rightarrow> 0
        | Some b \<Rightarrow> (case fmlookup (db_blobs d) b of None \<Rightarrow> 0 | Some bs \<Rightarrow> length bs))"

definition forward_stamp :: "int \<Rightarrow> int \<Rightarrow> int" where
  "forward_stamp created_at now = (if created_at = i64_max then created_at else max (created_at + 1) now)"

section \<open>Deleting\<close>

definition tombstone :: "int \<Rightarrow> item_row \<Rightarrow> item_row" where
  "tombstone now r =
     r\<lparr>r_deleted := True, r_ciphertext := None, r_content_bytes := 0, r_nonce := None,
       r_created_at := forward_stamp (r_created_at r) now, r_pin_order := None, r_app_bundle_id := None,
       r_app_name := None, r_metadata := None, r_icon_id := None, r_fts_rowid := None\<rparr>"

definition delete_tx :: "int \<Rightarrow> string \<Rightarrow> db \<Rightarrow> (store_error + bool) \<times> db" where
  "delete_tx now k d =
     (let d = delete_fts_row k d in
      case live_item k d of
        None \<Rightarrow> (Inr False, d)
      | Some r \<Rightarrow> (Inr True, put_item k ((tombstone now r)\<lparr>r_pinned := False\<rparr>) d))"

definition max_rowid :: "db \<Rightarrow> nat" where
  "max_rowid d = foldr max (map r_rowid (fm_values (db_items d))) 0"

text \<open>Index entries of rows that are no longer live are dropped as well.\<close>

definition delete_all_through_tx :: "int \<Rightarrow> nat \<Rightarrow> db \<Rightarrow> (store_error + nat) \<times> db" where
  "delete_all_through_tx now through d =
     (let doomed = filter (\<lambda>(k, r). r_rowid r \<le> through) (unpinned_rows d);
          d = fold (\<lambda>(k, r). put_item k (tombstone now r)) doomed d;
          d = d\<lparr>db_fts := fm_retain (\<lambda>n (k, body). live_item k d \<noteq> None) (db_fts d)\<rparr>
      in (Inr (length doomed), d))"

section \<open>Capturing\<close>

record new_item =
  ni_id :: string
  ni_content_type :: string
  ni_content_hash :: string
  ni_created_at :: int
  ni_app_bundle_id :: "string option"
  ni_app_name :: "string option"
  ni_metadata :: "string option"

datatype ingest = Inserted stored_item | Bumped stored_item

definition newest_with_representation :: "string \<Rightarrow> string \<Rightarrow> db \<Rightarrow> (string \<times> item_row) option" where
  "newest_with_representation hash content_type d =
     (if hash = [] then None
      else newest (filter (\<lambda>(k, r). r_content_hash r = hash \<and> r_content_type r = content_type) (live_rows d)))"

definition find_in_bucket :: "string \<Rightarrow> string \<Rightarrow> int \<Rightarrow> db \<Rightarrow> (string \<times> item_row) option" where
  "find_in_bucket hash content_type created_at d =
     (if hash = [] then None
      else newest (filter (\<lambda>(k, r). r_content_hash r = hash \<and> r_content_type r = content_type
                             \<and> dedup_bucket (r_created_at r) = dedup_bucket created_at) (live_rows d)))"

text \<open>\<open>bump_in_tx\<close>: a stamp that lands in an occupied bucket leaves the row where it is.\<close>

definition bump_in_tx ::
  "string \<Rightarrow> item_row \<Rightarrow> int \<Rightarrow> string option \<Rightarrow> string option \<Rightarrow> string option \<Rightarrow> db \<Rightarrow> item_row \<times> db" where
  "bump_in_tx k r created_at app_bundle_id app_name icon_id d =
     (if created_at \<le> r_created_at r then (r, d)
      else let r' = r\<lparr>r_created_at := created_at, r_app_bundle_id := app_bundle_id, r_app_name := app_name,
                      r_icon_id := icon_id\<rparr>
           in case update_item k r' d of Inl e \<Rightarrow> (r, d) | Inr d \<Rightarrow> (r', d))"

definition row_metadata :: "payload_env \<Rightarrow> item_row \<Rightarrow> payload_metadata option" where
  "row_metadata pe r =
     (case r_metadata r of None \<Rightarrow> None | Some j \<Rightarrow> metadata_from_json pe j (r_content_type r))"

definition combined_privacy :: "payload_env \<Rightarrow> item_row \<Rightarrow> clipboard_privacy \<Rightarrow> clipboard_privacy" where
  "combined_privacy pe r privacy =
     (let combined = privacy_union (privacy_of pe (r_metadata r)) privacy
      in case (case row_metadata pe r of None \<Rightarrow> None | Some m \<Rightarrow> pm_secret_override m) of
           None \<Rightarrow> combined
         | Some c \<Rightarrow> combined\<lparr>cp_secret := sc_secret c\<rparr>)"

definition repairs_text :: "payload_env \<Rightarrow> item_row \<Rightarrow> string option \<Rightarrow> bool" where
  "repairs_text pe r search_text \<longleftrightarrow> r_metadata r \<noteq> None \<and> row_metadata pe r = None \<and> search_text \<noteq> None"

definition refreshed_row :: "payload_env \<Rightarrow> item_row \<Rightarrow> clipboard_privacy \<Rightarrow> bool \<Rightarrow> bool \<Rightarrow> item_row" where
  "refreshed_row pe r combined credentials repair =
     (let m = (case row_metadata pe r of None \<Rightarrow> metadata_default | Some m \<Rightarrow> m);
          m' = m\<lparr>pm_credentials := pm_credentials m \<or> credentials, pm_privacy := combined\<rparr>
      in r\<lparr>r_metadata := metadata_to_json pe m' (r_content_type r),
           r_created_at :=
             (if combined \<noteq> privacy_of pe (r_metadata r) \<or> repair \<or> pm_credentials m' \<noteq> pm_credentials m
              then i64_saturating_add (r_created_at r) 1 else r_created_at r)\<rparr>)"

definition refresh_privacy ::
  "history_env \<Rightarrow> string \<Rightarrow> item_row \<Rightarrow> clipboard_privacy \<Rightarrow> bool \<Rightarrow> string option \<Rightarrow> db \<Rightarrow> (store_error + item_row) \<times> db" where
  "refresh_privacy he k r privacy credentials search_text d =
     (let pe = he_payload he;
          combined = combined_privacy pe r privacy;
          repair = repairs_text pe r search_text
      in if privacy_is_empty combined \<and> \<not> repair \<and> \<not> credentials then (Inr r, d)
         else
           let r' = refreshed_row pe r combined credentials repair;
               stored = r'\<lparr>r_content_bytes := content_bytes_of k r (r_metadata r') d\<rparr>
           in case update_item k stored d of
                Inl e \<Rightarrow> (Inl e, d)
              | Inr d \<Rightarrow>
                  if cp_secret combined
                  then (Inr r', drop_module_index k (put_item k (stored\<lparr>r_fts_rowid := None\<rparr>) (delete_fts_row k d)))
                  else if repair
                  then let (n, d) = insert_fts k (the search_text) (r_content_type r) (delete_fts_row k d)
                       in (Inr r', put_item k (stored\<lparr>r_fts_rowid := n\<rparr>) d)
                  else (Inr r', d))"

text \<open>The two branches of a capture that finds its content in the history.\<close>

definition bump_existing ::
  "history_env \<Rightarrow> new_item \<Rightarrow> string \<Rightarrow> item_row \<Rightarrow> string option \<Rightarrow> clipboard_privacy \<Rightarrow> bool \<Rightarrow> string option \<Rightarrow> bool \<Rightarrow> db
   \<Rightarrow> (store_error + ingest \<times> bool) \<times> db" where
  "bump_existing he item k r icon_id privacy credentials search_text release_first d =
     (let (r', d) = bump_in_tx k r (ni_created_at item) (ni_app_bundle_id item) (ni_app_name item) icon_id d;
          d = (if release_first then release_unused icon_id d else d)
      in case refresh_privacy he k r' privacy credentials search_text d of
           (Inl e, d) \<Rightarrow> (Inl e, d)
         | (Inr r'', d) \<Rightarrow>
             let d = (if release_first then d else release_unused icon_id d)
             in (Inr (Bumped (row_to_item k r'' d),
                      r_created_at r'' \<noteq> r_created_at r \<or> r_metadata r'' \<noteq> r_metadata r), d))"

text \<open>\<open>insert_or_bump_late_sealed\<close>; \<open>sealed\<close> is what the closure that seals the content returns.\<close>

definition capture_text :: "payload_env \<Rightarrow> new_item \<Rightarrow> string option \<Rightarrow> string option" where
  "capture_text pe item search_text =
     (case search_text of
        None \<Rightarrow> None
      | Some body \<Rightarrow>
          if is_text (ni_content_type item) \<and> \<not> cp_secret (privacy_of pe (ni_metadata item)) \<and> trim body \<noteq> []
          then Some body else None)"

definition capture_credentials :: "payload_env \<Rightarrow> new_item \<Rightarrow> bool" where
  "capture_credentials pe item =
     (case (case ni_metadata item of None \<Rightarrow> None | Some j \<Rightarrow> metadata_from_json pe j (ni_content_type item)) of
        None \<Rightarrow> False
      | Some m \<Rightarrow> pm_credentials m)"

definition new_row ::
  "new_item \<Rightarrow> bytes \<times> bytes \<Rightarrow> string option \<Rightarrow> string option \<Rightarrow> nat option \<Rightarrow> db \<Rightarrow> item_row" where
  "new_row item sealed metadata icon_id fts_rowid d =
     \<lparr>r_rowid = next_rowid d, r_ciphertext = Some (snd sealed), r_nonce = Some (fst sealed),
      r_content_type = ni_content_type item, r_content_hash = ni_content_hash item, r_pinned = False,
      r_pin_order = None, r_pin_updated_at = 0, r_created_at = ni_created_at item,
      r_deleted = False, r_origin = [], r_app_bundle_id = ni_app_bundle_id item,
      r_app_name = ni_app_name item, r_metadata = metadata, r_fts_rowid = fts_rowid,
      r_icon_id = icon_id, r_content_bytes = length (snd sealed) + sql_length metadata\<rparr>"

definition insert_capture ::
  "history_env \<Rightarrow> new_item \<Rightarrow> bytes \<times> bytes \<Rightarrow> string option \<Rightarrow> string option \<Rightarrow> string option \<Rightarrow> db
   \<Rightarrow> (store_error + ingest \<times> bool) \<times> db" where
  "insert_capture he item sealed metadata icon_id search_text d =
     (let pe = he_payload he; k = ni_id item; ct = ni_content_type item;
          (fts_rowid, d') = (case search_text of None \<Rightarrow> (None, d) | Some body \<Rightarrow> insert_fts k body ct d);
          row = new_row item sealed metadata icon_id fts_rowid d'
      in if fm_contains (db_items d') k \<or> dedup_conflict k row d'
         then (case find_in_bucket (ni_content_hash item) ct (ni_created_at item) d of
                 None \<Rightarrow> (Inl (SqliteError ConstraintViolation), d)
               | Some (k', r) \<Rightarrow>
                   bump_existing he item k' r icon_id (privacy_of pe (ni_metadata item))
                     (capture_credentials pe item) search_text True d)
         else let d = put_item k row d' in (Inr (Inserted (row_to_item k row d), True), d))"

definition insert_or_bump_tx ::
  "history_env \<Rightarrow> new_item \<Rightarrow> string option \<Rightarrow> store_error + bytes \<times> bytes \<Rightarrow> db
   \<Rightarrow> (store_error + ingest \<times> bool) \<times> db" where
  "insert_or_bump_tx he item search_text sealed d =
     (let pe = he_payload he; ct = ni_content_type item; search_text = capture_text pe item search_text
      in case normalise he (ni_app_bundle_id item) ct (ni_created_at item) (ni_metadata item) d of
           (Inl e, d) \<Rightarrow> (Inl e, d)
         | (Inr (metadata, icon_id), d) \<Rightarrow>
             (case newest_with_representation (ni_content_hash item) ct d of
                Some (k', r) \<Rightarrow>
                  bump_existing he item k' r icon_id (privacy_of pe (ni_metadata item))
                    (capture_credentials pe item) search_text False d
              | None \<Rightarrow>
                  (case sealed of
                     Inl e \<Rightarrow> (Inl e, d)
                   | Inr sealed \<Rightarrow> insert_capture he item sealed metadata icon_id search_text d)))"

definition promote_copied_tx :: "string \<Rightarrow> int \<Rightarrow> db \<Rightarrow> (store_error + int option) \<times> db" where
  "promote_copied_tx k copied_at d =
     (let next = (\<lambda>t. if t = i64_max then t else t + 1) in
      case live_item k d of
        None \<Rightarrow> (Inr None, d)
      | Some r \<Rightarrow>
          let stamp = max copied_at (max (next (r_created_at r))
                (case newest (unpinned_rows d) of None \<Rightarrow> copied_at | Some (_, n) \<Rightarrow> next (r_created_at n)))
          in (case update_item k (r\<lparr>r_created_at := stamp\<rparr>) d of
                Inl e \<Rightarrow> (Inl e, d)
              | Inr d \<Rightarrow> (Inr (Some stamp), d)))"

section \<open>Confidentiality\<close>

definition set_secret_tx :: "history_env \<Rightarrow> bytes \<Rightarrow> int \<Rightarrow> string \<Rightarrow> bool \<Rightarrow> db \<Rightarrow> (store_error + bool) \<times> db" where
  "set_secret_tx he key now k secret d =
     (let pe = he_payload he in
      case live_item k d of
        None \<Rightarrow> (Inr False, d)
      | Some r \<Rightarrow>
          let ct = r_content_type r;
              m = parsed_metadata pe ct (r_metadata r);
              stamp = max (max now (i64_saturating_add (r_created_at r) 1))
                (case pm_secret_override m of None \<Rightarrow> 0 | Some c \<Rightarrow> i64_saturating_add (sc_updated_at c) 1);
              m = set_secret secret stamp m
          in case metadata_to_json pe m ct of
               None \<Rightarrow> (Inl InvalidPayload, d)
             | Some json \<Rightarrow>
                 let plaintext =
                   (if \<not> secret \<and> is_text ct
                    then (case decrypt (he_sealing he) (joined_ciphertext k r d)
                                 (case r_nonce r of None \<Rightarrow> [] | Some n \<Rightarrow> n) key k of
                            Inl _ \<Rightarrow> Inl InvalidPayload
                          | Inr body \<Rightarrow> if utf8_valid body then Inr (Some body) else Inl InvalidPayload)
                    else Inr None)
                 in case plaintext of
                      Inl e \<Rightarrow> (Inl e, d)
                    | Inr plaintext \<Rightarrow>
                        let d = drop_module_index k (delete_fts_row k d);
                            (n, d) = (case plaintext of None \<Rightarrow> (None, d) | Some body \<Rightarrow> insert_fts k body ct d);
                            r' = r\<lparr>r_metadata := Some json, r_created_at := stamp, r_fts_rowid := n,
                                  r_content_bytes := content_bytes_of k r (Some json) d\<rparr>
                        in (case update_item k r' d of
                              Inl e \<Rightarrow> (Inl e, d)
                            | Inr d \<Rightarrow> (Inr True, d)))"

section \<open>Records this device writes\<close>

definition org_write :: "history_env \<Rightarrow> bytes \<Rightarrow> bytes \<Rightarrow> int \<Rightarrow> org_record \<Rightarrow> db \<Rightarrow> (store_error + unit) \<times> db" where
  "org_write he key nonce now r d =
     (if \<not> record_valid r then (Inl InvalidHistoryQuery, d)
      else case he_record_to_json he r of
        None \<Rightarrow> (Inl InvalidHistoryQuery, d)
      | Some body \<Rightarrow>
          let k = record_id he r;
              hash = compute_content_hash he body;
              previous = fmlookup (db_orgs d) k
          in if (case previous of None \<Rightarrow> False | Some o' \<Rightarrow> o_content_hash o' = hash) then (Inr (), d)
             else
               let pin_stamp = (case r of
                     OrgPin clip _ _ \<Rightarrow> (case fmlookup (db_items d) clip of None \<Rightarrow> 0 | Some row \<Rightarrow> r_pin_updated_at row)
                   | _ \<Rightarrow> 0);
                   stamp = max (case previous of None \<Rightarrow> now
                                | Some o' \<Rightarrow> max (i64_saturating_add (o_created_at o') 1) now) pin_stamp
               in case bin_seal (he_sealing he) nonce body key k of
                    Inl _ \<Rightarrow> (Inl InvalidHistoryQuery, d)
                  | Inr c \<Rightarrow>
                      (case org_upsert_in_tx he
                         \<lparr>in_id = k, in_ciphertext = Some c, in_nonce = Some [], in_content_type = org_content_type,
                          in_content_hash = hash, in_created_at = stamp, in_deleted = False, in_origin = [],
                          in_app_bundle_id = None, in_app_name = None, in_pinned = False, in_pin_order = None,
                          in_pin_updated_at = 0, in_search_text = Some body, in_metadata = None\<rparr> d of
                         (Inl e, d) \<Rightarrow> (Inl e, d)
                       | (Inr _, d) \<Rightarrow> (Inr (), d)))"

definition write_pin :: "history_env \<Rightarrow> bytes \<Rightarrow> bytes \<Rightarrow> int \<Rightarrow> string \<Rightarrow> db \<Rightarrow> (store_error + unit) \<times> db" where
  "write_pin he key nonce now k d =
     (case live_item k d of
        None \<Rightarrow> (Inr (), d)
      | Some r \<Rightarrow> org_write he key nonce now (OrgPin k (r_pinned r) (r_pin_order r)) d)"

section \<open>Pinning\<close>

text \<open>\<open>(index + 1) as f64\<close>: exact below \<open>2 ^ 53\<close>.\<close>

fun log2 :: "nat \<Rightarrow> nat" where
  "log2 n = (if n < 2 then 0 else Suc (log2 (n div 2)))"

declare log2.simps [simp del]

definition f64_of_nat :: "nat \<Rightarrow> f64" where
  "f64_of_nat n =
     (if n = 0 then 0
      else let e = log2 n in word_of_nat ((1023 + e) * 2 ^ 52 + (n - 2 ^ e) * 2 ^ (52 - e)))"

text \<open>
  The order of the pinned section; a missing place sorts first and the two zeros are one place.
\<close>

definition place_key :: "f64 option \<Rightarrow> int option" where
  "place_key p = map_option (\<lambda>x. if x AND 0x7FFFFFFFFFFFFFFF = 0 then 0 else f64_total_key x) p"

definition pinned_rows :: "db \<Rightarrow> (string \<times> item_row) list" where
  "pinned_rows d =
     (let rs = rev (by_age (filter (\<lambda>(k, r). r_pinned r) (live_rows d)))
      in sort_key (\<lambda>(k, r). place_key (r_pin_order r)) rs)"

text \<open>
  \<open>order_after\<close> is SQL's \<open>COALESCE(MAX(pin_order), 0) + 1\<close> over the places in use, an argument
  as the arithmetic is the database's. \<open>key\<close> is present when the change is also to be
  published as a record.
\<close>

definition set_pinned_tx ::
  "history_env \<Rightarrow> (f64 option list \<Rightarrow> f64) \<Rightarrow> (bytes \<times> bytes) option \<Rightarrow> int \<Rightarrow> string \<Rightarrow> bool \<Rightarrow> db
   \<Rightarrow> (store_error + bool) \<times> db" where
  "set_pinned_tx he order_after key now k pinned d =
     (case live_item k d of
        None \<Rightarrow> (Inr False, d)
      | Some r \<Rightarrow>
          let stamp = max (i64_saturating_add (r_pin_updated_at r) 1) now;
              d = (if pinned
                   then (if r_pinned r then d
                         else d\<lparr>db_items := fmupd k
                                (r\<lparr>r_pinned := True,
                                   r_pin_order := Some (order_after (map (\<lambda>(k, r). r_pin_order r)
                                      (filter (\<lambda>(k, r). r_pinned r) (live_rows d)))),
                                   r_pin_updated_at := stamp\<rparr>) (db_items d)\<rparr>)
                   else d\<lparr>db_items := fmupd k
                          (r\<lparr>r_pinned := False, r_pin_order := None, r_pin_updated_at := stamp\<rparr>) (db_items d)\<rparr>)
          in case key of
               None \<Rightarrow> (Inr True, d)
             | Some (key, nonce) \<Rightarrow>
                 (case write_pin he key nonce now k d of
                    (Inl e, d) \<Rightarrow> (Inl e, d)
                  | (Inr _, d) \<Rightarrow> (Inr True, d)))"

text \<open>The order of \<open>reorder_pinned\<close>: the named pins first, then the others as they were.\<close>

fun place_ids :: "string list \<Rightarrow> string list \<Rightarrow> string list \<Rightarrow> string list" where
  "place_ids current placed [] = placed"
| "place_ids current placed (k # ks) =
     place_ids current (if k \<in> set current \<and> k \<notin> set placed then placed @ [k] else placed) ks"

definition pinned_order :: "string list \<Rightarrow> db \<Rightarrow> string list" where
  "pinned_order ids d = (let current = map fst (pinned_rows d) in place_ids current [] (ids @ current))"

fun renumber :: "int \<Rightarrow> nat \<Rightarrow> string list \<Rightarrow> db \<Rightarrow> nat \<times> db" where
  "renumber now index [] d = (0, d)"
| "renumber now index (k # ks) d =
     (case fmlookup (db_items d) k of
        Some r \<Rightarrow>
          if r_pinned r \<and> \<not> r_deleted r
          then let (n, d') = renumber now (Suc index) ks
                 (d\<lparr>db_items := fmupd k
                    (r\<lparr>r_pin_order := Some (f64_of_nat (Suc index)),
                       r_pin_updated_at := max (i64_saturating_add (r_pin_updated_at r) 1) now\<rparr>) (db_items d)\<rparr>)
               in (Suc n, d')
          else renumber now (Suc index) ks d
      | None \<Rightarrow> renumber now (Suc index) ks d)"

fun write_pins :: "history_env \<Rightarrow> bytes \<Rightarrow> (string \<Rightarrow> bytes) \<Rightarrow> int \<Rightarrow> string list \<Rightarrow> db \<Rightarrow> (store_error + unit) \<times> db" where
  "write_pins he key nonce now [] d = (Inr (), d)"
| "write_pins he key nonce now (k # ks) d =
     (case write_pin he key (nonce k) now k d of
        (Inl e, d) \<Rightarrow> (Inl e, d)
      | (Inr _, d) \<Rightarrow> write_pins he key nonce now ks d)"

definition reorder_pinned_tx ::
  "history_env \<Rightarrow> (bytes \<times> (string \<Rightarrow> bytes)) option \<Rightarrow> int \<Rightarrow> string list \<Rightarrow> db \<Rightarrow> (store_error + nat) \<times> db" where
  "reorder_pinned_tx he key now ids d =
     (let ordered = pinned_order ids d; (n, d) = renumber now 0 ordered d in
      case key of
        None \<Rightarrow> (Inr n, d)
      | Some (key, nonce) \<Rightarrow>
          (case write_pins he key nonce now ordered d of
             (Inl e, d) \<Rightarrow> (Inl e, d)
           | (Inr _, d) \<Rightarrow> (Inr n, d)))"

section \<open>Retention\<close>

text \<open>A row removal with its triggers and cascades.\<close>

definition delete_row :: "string \<Rightarrow> db \<Rightarrow> db" where
  "delete_row k d =
     (case fmlookup (db_items d) k of
        None \<Rightarrow> d
      | Some r \<Rightarrow>
          let d = delete_fts_row k d;
              d = d\<lparr>db_items := fmdrop k (db_items d)\<rparr>
          in release_unused (r_icon_id r) (release_link k (drop_module_index k d)))"

definition hard_delete :: "string list \<Rightarrow> db \<Rightarrow> nat \<times> db" where
  "hard_delete ids d = (length (filter (fm_contains (db_items d)) (remdups ids)), fold delete_row ids d)"

definition keep_newest :: "db \<Rightarrow> string" where
  "keep_newest d = (case newest (unpinned_rows d) of None \<Rightarrow> [] | Some (k, _) \<Rightarrow> k)"

definition evict_over_cap_tx :: "nat \<Rightarrow> db \<Rightarrow> (store_error + nat) \<times> db" where
  "evict_over_cap_tx max_items d =
     (let live = length (live_rows d) in
      if live \<le> max_items then (Inr 0, d)
      else let victims = take (live - max_items) (filter (\<lambda>k. k \<noteq> keep_newest d) (map fst (by_age (unpinned_rows d))));
               (n, d) = hard_delete victims d
           in (Inr n, d))"

definition unpinned_bytes :: "db \<Rightarrow> nat" where
  "unpinned_bytes d = sum_list (map (\<lambda>(k, r). r_content_bytes r) (unpinned_rows d))"

text \<open>The window sum of \<open>BYTE_VICTIMS_SQL\<close>: a row goes while what goes before it is below the excess.\<close>

fun byte_victims :: "nat \<Rightarrow> nat \<Rightarrow> (string \<times> item_row) list \<Rightarrow> string list" where
  "byte_victims excess before [] = []"
| "byte_victims excess before ((k, r) # rest) =
     (if before < excess then k # byte_victims excess (before + r_content_bytes r) rest
      else byte_victims excess (before + r_content_bytes r) rest)"

definition evict_over_byte_cap_tx :: "nat \<Rightarrow> db \<Rightarrow> (store_error + nat) \<times> db" where
  "evict_over_byte_cap_tx max_bytes d =
     (if length (unpinned_rows d) < 2 \<or> unpinned_bytes d \<le> max_bytes then (Inr 0, d)
      else let victims = byte_victims (unpinned_bytes d - max_bytes) 0
                 (filter (\<lambda>(k, r). k \<noteq> keep_newest d) (by_age (unpinned_rows d)));
               (n, d) = hard_delete victims d
           in (Inr n, d))"

definition eviction_batch :: nat where "eviction_batch = 500"

definition expired :: "int \<Rightarrow> db \<Rightarrow> string list" where
  "expired cutoff d = map fst (filter (\<lambda>(k, r). r_created_at r < cutoff) (by_age (unpinned_rows d)))"

text \<open>One transaction of \<open>evict_older_than\<close>: the number of victims and what was removed.\<close>

definition evict_batch_tx :: "int \<Rightarrow> db \<Rightarrow> (store_error + nat \<times> nat) \<times> db" where
  "evict_batch_tx cutoff d =
     (let victims = take eviction_batch (expired cutoff d); (n, d) = hard_delete victims d
      in (Inr (length victims, n), d))"

end
