(* ===== verification/History_Invariant.thy ===== *)
theory History_Invariant
  imports History_Local
begin

text \<open>
  The invariant of the history database and that every transaction keeps it. A tombstone carries
  no content and no place among the pins; the plaintext index has an entry exactly for the rows
  that name it, and those are live text clips that are not secret; no two rows collide in the
  deduplication index; items and organization records have disjoint ids. The contract of a
  transaction is the locale \<open>sound_transaction\<close>, interpreted for each of them.
\<close>

section \<open>The invariant\<close>

definition searchable :: "history_env \<Rightarrow> item_row \<Rightarrow> bool" where
  "searchable he r \<longleftrightarrow>
     \<not> r_deleted r \<and> is_text (r_content_type r) \<and> \<not> cp_secret (privacy_of (he_payload he) (r_metadata r))"

definition row_ok :: "history_env \<Rightarrow> string \<Rightarrow> item_row \<Rightarrow> bool" where
  "row_ok he k r \<longleftrightarrow>
     \<not> is_record_id k
     \<and> (r_deleted r \<longrightarrow> r_ciphertext r = None \<and> r_nonce r = None \<and> r_metadata r = None
          \<and> \<not> r_pinned r \<and> r_pin_order r = None)
     \<and> (r_fts_rowid r \<noteq> None \<longrightarrow> searchable he r)"

text \<open>The item an index entry is for, and the entry an item names.\<close>

definition owner :: "db \<Rightarrow> nat \<Rightarrow> string option" where
  "owner d n = map_option fst (fmlookup (db_fts d) n)"

definition indexed_at :: "db \<Rightarrow> string \<Rightarrow> nat option" where
  "indexed_at d k = (case fmlookup (db_items d) k of None \<Rightarrow> None | Some r \<Rightarrow> r_fts_rowid r)"

definition unique_ok :: "db \<Rightarrow> bool" where
  "unique_ok d \<longleftrightarrow>
     (\<forall>k r k' r'. fmlookup (db_items d) k = Some r \<longrightarrow> fmlookup (db_items d) k' = Some r' \<longrightarrow> k \<noteq> k'
        \<longrightarrow> in_dedup_index k r \<longrightarrow> in_dedup_index k' r' \<longrightarrow> dedup_key r \<noteq> dedup_key r')"

definition orgs_ok :: "db \<Rightarrow> bool" where
  "orgs_ok d \<longleftrightarrow> (\<forall>k r. fmlookup (db_orgs d) k = Some r \<longrightarrow> is_record_id k)"

text \<open>
  While rows are rewritten their index entries are gone and their columns still name them:
  \<open>ok_but X\<close> is the invariant of the rows outside \<open>X\<close>.
\<close>

definition ok_but :: "string set \<Rightarrow> history_env \<Rightarrow> db \<Rightarrow> bool" where
  "ok_but X he d \<longleftrightarrow>
     (\<forall>k r. fmlookup (db_items d) k = Some r \<longrightarrow> k \<notin> X \<longrightarrow> row_ok he k r)
     \<and> (\<forall>n k. owner d n = Some k \<longleftrightarrow> k \<notin> X \<and> indexed_at d k = Some n)
     \<and> unique_ok d \<and> orgs_ok d"

abbreviation db_ok :: "history_env \<Rightarrow> db \<Rightarrow> bool" where
  "db_ok \<equiv> ok_but {}"

lemma ok_butI:
  assumes "\<And>k r. fmlookup (db_items d) k = Some r \<Longrightarrow> k \<notin> X \<Longrightarrow> row_ok he k r"
    and "\<And>n k. owner d n = Some k \<longleftrightarrow> k \<notin> X \<and> indexed_at d k = Some n"
    and "unique_ok d" "orgs_ok d"
  shows "ok_but X he d"
  using assms unfolding ok_but_def by blast

lemma ok_butD:
  assumes "ok_but X he d"
  shows "fmlookup (db_items d) k = Some r \<Longrightarrow> k \<notin> X \<Longrightarrow> row_ok he k r"
    and "owner d n = Some k \<longleftrightarrow> k \<notin> X \<and> indexed_at d k = Some n"
    and "unique_ok d" "orgs_ok d"
  using assms unfolding ok_but_def by blast+

section \<open>Statements\<close>

lemma release_link_sel [simp]:
  "db_items (release_link k d) = db_items d" "db_orgs (release_link k d) = db_orgs d"
  "db_fts (release_link k d) = db_fts d" "db_pins (release_link k d) = db_pins d"
  by (simp_all add: release_link_def Let_def split: option.split)

lemma release_unused_sel [simp]:
  "db_items (release_unused i d) = db_items d" "db_orgs (release_unused i d) = db_orgs d"
  "db_fts (release_unused i d) = db_fts d" "db_pins (release_unused i d) = db_pins d"
  by (simp_all add: release_unused_def split: option.split)

lemma put_item_sel [simp]:
  "db_items (put_item k r d) = fmupd k r (db_items d)" "db_orgs (put_item k r d) = db_orgs d"
  "db_fts (put_item k r d) = db_fts d" "db_pins (put_item k r d) = db_pins d"
  by (simp_all add: put_item_def Let_def split: option.split)

lemma drop_module_index_sel [simp]:
  "db_items (drop_module_index k d) = db_items d" "db_orgs (drop_module_index k d) = db_orgs d"
  "db_fts (drop_module_index k d) = db_fts d" "db_pins (drop_module_index k d) = db_pins d"
  by (simp_all add: drop_module_index_def)

lemma delete_fts_row_sel [simp]:
  "db_items (delete_fts_row k d) = db_items d" "db_orgs (delete_fts_row k d) = db_orgs d"
  "db_pins (delete_fts_row k d) = db_pins d"
  by (simp_all add: delete_fts_row_def split: option.split)

lemma link_payload_sel:
  assumes "link_payload k h bs d = (r, d')"
  shows "db_items d' = db_items d" "db_orgs d' = db_orgs d" "db_fts d' = db_fts d" "db_pins d' = db_pins d"
  using assms by (auto simp: link_payload_def split: option.splits if_splits)

lemma index_sel [simp]:
  "owner (put_item k r d) = owner d" "owner (drop_module_index k d) = owner d"
  "owner (release_link k d) = owner d" "owner (release_unused i d) = owner d"
  "indexed_at (put_item k r d) = (indexed_at d)(k := r_fts_rowid r)"
  "indexed_at (drop_module_index k d) = indexed_at d" "indexed_at (release_link k d) = indexed_at d"
  "indexed_at (release_unused i d) = indexed_at d" "indexed_at (delete_fts_row k d) = indexed_at d"
  by (auto simp: owner_def indexed_at_def fun_eq_iff)

text \<open>A step that keeps the rows up to fields the invariant does not read.\<close>

definition row_kept :: "string \<Rightarrow> item_row \<Rightarrow> item_row \<Rightarrow> bool" where
  "row_kept k r r' \<longleftrightarrow>
     (\<forall>he. row_ok he k r \<longrightarrow> row_ok he k r') \<and> r_fts_rowid r' = r_fts_rowid r
     \<and> in_dedup_index k r' = in_dedup_index k r \<and> dedup_key r' = dedup_key r
     \<and> r_created_at r' = r_created_at r \<and> r_deleted r' = r_deleted r"

definition rows_kept :: "db \<Rightarrow> db \<Rightarrow> bool" where
  "rows_kept d d' \<longleftrightarrow>
     db_fts d' = db_fts d \<and> orgs_ok d' = orgs_ok d
     \<and> (\<forall>k. rel_option (row_kept k) (fmlookup (db_items d) k) (fmlookup (db_items d') k))"

lemma row_kept_refl [simp]: "row_kept k r r"
  by (simp add: row_kept_def)

lemma row_kept_icon [simp]: "row_kept k r (r\<lparr>r_icon_id := i\<rparr>)"
  by (simp add: row_kept_def row_ok_def searchable_def in_dedup_index_def dedup_key_def)

lemma row_kept_pin:
  "\<not> r_deleted r \<Longrightarrow> row_kept k r (r\<lparr>r_pinned := p, r_pin_order := q, r_pin_updated_at := t\<rparr>)"
  by (simp add: row_kept_def row_ok_def searchable_def in_dedup_index_def dedup_key_def)

lemma rows_kept_refl [simp]: "rows_kept d d"
  by (simp add: rows_kept_def option.rel_refl)

lemma rows_keptI:
  assumes "db_items d' = fmupd k r' (db_items d)" "fmlookup (db_items d) k = Some r" "row_kept k r r'"
    "db_fts d' = db_fts d" "db_orgs d' = db_orgs d"
  shows "rows_kept d d'"
  using assms by (simp add: rows_kept_def orgs_ok_def option.rel_refl)

lemma rows_kept_lookup:
  assumes "rows_kept d d'" "fmlookup (db_items d') k = Some r'"
  obtains r where "fmlookup (db_items d) k = Some r" "row_kept k r r'"
  using assms unfolding rows_kept_def by (metis option.rel_cases option.distinct(1) option.inject)

lemma rows_kept_indexed:
  assumes "rows_kept d d'"
  shows "indexed_at d' = indexed_at d" "owner d' = owner d"
proof -
  have "rel_option (row_kept k) (fmlookup (db_items d) k) (fmlookup (db_items d') k)" for k
    using assms by (simp add: rows_kept_def)
  then have "indexed_at d' k = indexed_at d k" for k
    unfolding indexed_at_def by (rule option.rel_cases[of "row_kept k"]) (simp_all add: row_kept_def)
  then show "indexed_at d' = indexed_at d" by blast
  show "owner d' = owner d" using assms by (simp add: owner_def fun_eq_iff rows_kept_def)
qed

lemma unique_ok_less:
  assumes "unique_ok d"
    and "\<And>k r'. fmlookup (db_items d') k = Some r' \<Longrightarrow> in_dedup_index k r' \<Longrightarrow>
      \<exists>r. fmlookup (db_items d) k = Some r \<and> in_dedup_index k r \<and> dedup_key r' = dedup_key r"
  shows "unique_ok d'"
  unfolding unique_ok_def
proof (intro allI impI)
  fix a ra b rb
  assume l: "fmlookup (db_items d') a = Some ra" "fmlookup (db_items d') b = Some rb" "a \<noteq> b"
    "in_dedup_index a ra" "in_dedup_index b rb"
  from assms(2)[OF l(1,4)] assms(2)[OF l(2,5)] assms(1) l(3) show "dedup_key ra \<noteq> dedup_key rb"
    unfolding unique_ok_def by metis
qed

lemma ok_but_kept:
  assumes "rows_kept d d'" "ok_but X he d"
  shows "ok_but X he d'"
proof (rule ok_butI)
  show "row_ok he k r'" if "fmlookup (db_items d') k = Some r'" "k \<notin> X" for k r'
    using rows_kept_lookup[OF assms(1) that(1)] that(2) ok_butD(1)[OF assms(2)] by (metis row_kept_def)
  show "owner d' n = Some k \<longleftrightarrow> k \<notin> X \<and> indexed_at d' k = Some n" for n k
    using rows_kept_indexed[OF assms(1)] ok_butD(2)[OF assms(2)] by simp
  show "unique_ok d'"
    by (rule unique_ok_less[OF ok_butD(3)[OF assms(2)]]) (metis rows_kept_lookup[OF assms(1)] row_kept_def)
  show "orgs_ok d'" using assms by (simp add: rows_kept_def ok_but_def)
qed

section \<open>Writing one row\<close>

lemma ok_but_delete_fts:
  assumes "db_ok he d"
  shows "ok_but {k} he (delete_fts_row k d)"
proof (rule ok_butI)
  show "row_ok he j r" if "fmlookup (db_items (delete_fts_row k d)) j = Some r" "j \<notin> {k}" for j r
    using that ok_butD(1)[OF assms] by simp
  show "unique_ok (delete_fts_row k d)" "orgs_ok (delete_fts_row k d)"
    using ok_butD(3,4)[OF assms] by (simp_all add: unique_ok_def orgs_ok_def)
  have o: "owner (delete_fts_row k d) n = (if indexed_at d k = Some n then None else owner d n)" for n
    by (simp add: owner_def delete_fts_row_def indexed_at_def split: option.split)
  show "owner (delete_fts_row k d) n = Some j \<longleftrightarrow> j \<notin> {k} \<and> indexed_at (delete_fts_row k d) j = Some n" for n j
    using ok_butD(2)[OF assms, of n j] ok_butD(2)[OF assms, of n k] by (auto simp: o)
qed

lemma dedup_conflict_iff:
  "dedup_conflict k r d \<longleftrightarrow> in_dedup_index k r \<and>
     (\<exists>k' r'. fmlookup (db_items d) k' = Some r' \<and> k' \<noteq> k \<and> in_dedup_index k' r' \<and> dedup_key r' = dedup_key r)"
  unfolding dedup_conflict_def list_ex_iff Bex_def by (auto simp: set_fm_entries)

lemma unique_ok_put:
  assumes "unique_ok d" "\<not> dedup_conflict k r d" "db_items d' = fmupd k r (db_items d)"
  shows "unique_ok d'"
proof -
  have free: "dedup_key r' \<noteq> dedup_key r"
    if "fmlookup (db_items d) j = Some r'" "j \<noteq> k" "in_dedup_index k r" "in_dedup_index j r'" for j r'
    using assms(2) that unfolding dedup_conflict_iff by blast
  have other: "dedup_key r' \<noteq> dedup_key r''"
    if "fmlookup (db_items d) i = Some r'" "fmlookup (db_items d) j = Some r''" "i \<noteq> j" "in_dedup_index i r'"
      "in_dedup_index j r''" for i j r' r''
    using assms(1) that unfolding unique_ok_def by blast
  have "dedup_key ra \<noteq> dedup_key rb"
    if l: "fmlookup (db_items d') a = Some ra" "fmlookup (db_items d') b = Some rb" "a \<noteq> b"
      and i: "in_dedup_index a ra" "in_dedup_index b rb" for a ra b rb
  proof (cases "a = k")
    case True
    with l have "ra = r" "fmlookup (db_items d) b = Some rb" by (simp_all add: assms(3))
    with free[of b rb] True l(3) i show ?thesis by metis
  next
    case a: False
    with l have la: "fmlookup (db_items d) a = Some ra" by (simp add: assms(3))
    show ?thesis
    proof (cases "b = k")
      case True
      with l have "rb = r" by (simp add: assms(3))
      with free[OF la a] True i show ?thesis by metis
    next
      case False
      with l have "fmlookup (db_items d) b = Some rb" by (simp add: assms(3))
      with other[OF la _ l(3) i] show ?thesis by blast
    qed
  qed
  then show ?thesis unfolding unique_ok_def by blast
qed

text \<open>Writing a row gives back the invariant for it, whether the index has its entry or not.\<close>

lemma ok_but_put:
  assumes "ok_but X he d" "row_ok he k r" "\<not> dedup_conflict k r d"
    and "k \<in> X \<and> r_fts_rowid r = None \<or> indexed_at d k = r_fts_rowid r"
    and "k \<notin> X \<or> r_fts_rowid r = None"
  shows "ok_but (X - {k}) he (put_item k r d)"
proof (rule ok_butI)
  show "row_ok he j r'" if "fmlookup (db_items (put_item k r d)) j = Some r'" "j \<notin> X - {k}" for j r'
    using that assms(2) ok_butD(1)[OF assms(1)] by (auto split: if_splits)
  show "unique_ok (put_item k r d)" using unique_ok_put[OF ok_butD(3)[OF assms(1)] assms(3)] by simp
  show "orgs_ok (put_item k r d)" using ok_butD(4)[OF assms(1)] by (simp add: orgs_ok_def)
  show "owner (put_item k r d) n = Some j \<longleftrightarrow> j \<notin> X - {k} \<and> indexed_at (put_item k r d) j = Some n" for n j
    using ok_butD(2)[OF assms(1), of n j] assms(4,5) by auto
qed

lemma next_key_fresh: "fmlookup m (next_key m) = None"
proof (rule ccontr)
  assume "\<not> ?thesis"
  then have "next_key m \<in> set (fm_keys m)" by (auto simp: set_fm_keys fmlookup_dom_iff)
  moreover have "n \<in> set ns \<Longrightarrow> n \<le> foldr max ns 0" for n and ns :: "nat list"
    by (induction ns) auto
  ultimately show False by (fastforce simp: next_key_def)
qed

text \<open>An index entry that is added and the row that names it.\<close>

lemma ok_but_put_indexed:
  assumes "ok_but {k} he d" "row_ok he k r" "insert_fts k body ct d = (n, d')" "r_fts_rowid r = n"
    "\<not> dedup_conflict k r d"
  shows "db_ok he (put_item k r d')"
proof (cases "is_text ct")
  case False
  then have "n = None" "d' = d" using assms(3) by (simp_all add: insert_fts_def)
  then show ?thesis using ok_but_put[OF assms(1,2,5)] assms(4) by simp
next
  case True
  define m where "m = next_key (db_fts d)"
  from True assms(3) have d': "d' = d\<lparr>db_fts := fmupd m (k, body) (db_fts d)\<rparr>" and n: "n = Some m"
    by (auto simp: insert_fts_def Let_def m_def)
  have fresh: "owner d m = None" by (simp add: owner_def m_def next_key_fresh)
  have o: "owner d' i = (if i = m then Some k else owner d i)" "indexed_at d' = indexed_at d" for i
    by (simp_all add: owner_def indexed_at_def d' fun_eq_iff)
  show ?thesis
  proof (rule ok_butI)
    show "row_ok he j r'" if "fmlookup (db_items (put_item k r d')) j = Some r'" for j r'
      using that assms(2) ok_butD(1)[OF assms(1)] by (auto simp: d' split: if_splits)
    show "unique_ok (put_item k r d')" using unique_ok_put[OF ok_butD(3)[OF assms(1)] assms(5)] by (simp add: d')
    show "orgs_ok (put_item k r d')" using ok_butD(4)[OF assms(1)] by (simp add: orgs_ok_def d')
    show "owner (put_item k r d') i = Some j \<longleftrightarrow> j \<notin> {} \<and> indexed_at (put_item k r d') j = Some i" for i j
      using ok_butD(2)[OF assms(1), of i j] ok_butD(2)[OF assms(1), of m j] fresh assms(4) by (auto simp: o n)
  qed
qed

section \<open>The contract of a transaction\<close>

text \<open>The database a transaction starts from, and the one it leaves.\<close>

lemma transact_db:
  fixes op wrap s
  defines "s' \<equiv> snd (transact op wrap s)"
  shows "\<exists>d. (d = st_db s \<or> (\<exists>ev \<in> set (st_script s). d = te_others ev (st_db s)))
    \<and> (st_db s' = d \<or> (\<exists>a. op d = (Inr a, st_db s')))"
proof (cases "st_script s")
  case Nil
  then show ?thesis
    by (auto simp: s'_def transact_def quiet_def Let_def split: prod.split sum.split)
next
  case (Cons ev rest)
  then have "st_db s' = te_others ev (st_db s) \<or> (\<exists>a. op (te_others ev (st_db s)) = (Inr a, st_db s'))"
    by (auto simp: s'_def transact_def Let_def split: option.split prod.split sum.split)
  with Cons show ?thesis by auto
qed

locale sound_transaction =
  fixes he :: history_env and pre :: bool and op :: "db \<Rightarrow> ('e + 'a) \<times> db"
  assumes keeps: "pre \<Longrightarrow> db_ok he d \<Longrightarrow> op d = (Inr a, d') \<Longrightarrow> db_ok he d'"
begin

text \<open>Run on the store, it keeps the invariant if the other connections do.\<close>

lemma transact_keeps:
  assumes "pre" "db_ok he (st_db s)" "\<And>ev d. ev \<in> set (st_script s) \<Longrightarrow> db_ok he d \<Longrightarrow> db_ok he (te_others ev d)"
  shows "db_ok he (st_db (snd (transact op wrap s)))"
  using transact_db[of s op wrap] assms(2,3) keeps[OF assms(1)] by metis

end

section \<open>Organization records and pins\<close>

lemma ok_but_cong:
  "db_items d' = db_items d \<Longrightarrow> db_fts d' = db_fts d \<Longrightarrow> db_orgs d' = db_orgs d \<Longrightarrow> ok_but X he d' = ok_but X he d"
  by (simp add: ok_but_def owner_def indexed_at_def unique_ok_def orgs_ok_def)

lemma pin_projection_kept: "rows_kept d (apply_pin_projection k d)"
proof (cases "fmlookup (db_items d) k")
  case (Some r)
  show ?thesis
    unfolding apply_pin_projection_def Some
    by (auto split: option.split intro!: rows_keptI[OF _ Some row_kept_pin])
qed (simp add: apply_pin_projection_def)

lemma orgs_ok_put:
  "ok_but X he d \<Longrightarrow> is_record_id k \<Longrightarrow> ok_but X he (d\<lparr>db_orgs := fmupd k r (db_orgs d)\<rparr>)"
  unfolding ok_but_def owner_def indexed_at_def unique_ok_def orgs_ok_def by simp

lemma project_record_ok:
  assumes "ok_but X he d"
  shows "ok_but X he (project_record r stamp d)"
proof (cases r)
  case (OrgPin clip pinned order)
  let ?d = "d\<lparr>db_pins := fmupd clip \<lparr>p_pinned = pinned, p_order = order, p_updated_at = stamp\<rparr> (db_pins d)\<rparr>"
  have "ok_but X he ?d" using assms ok_but_cong[of ?d d X he] by simp
  from ok_but_kept[OF pin_projection_kept this] OrgPin show ?thesis by (simp add: project_record_def)
next
  case (OrgTag k name deleted)
  with assms ok_but_cong[of "project_record r stamp d" d X he] show ?thesis by (simp add: project_record_def)
next
  case (OrgMembership clip tag assigned)
  with assms ok_but_cong[of "project_record r stamp d" d X he] show ?thesis by (simp add: project_record_def)
qed

lemma record_id_prefixed: "is_record_id (record_id he r)"
  by (simp add: is_record_id_def record_id_def)

lemma org_upsert_ok:
  assumes "db_ok he d" "in_content_type inc = org_content_type" "org_upsert_in_tx he inc d = (Inr b, d')"
  shows "db_ok he d'"
proof (cases "d' = d")
  case False
  with assms(3) obtain r q where d': "d' = project_record r (in_created_at inc) (d\<lparr>db_orgs := fmupd (in_id inc) q (db_orgs d)\<rparr>)"
    and "valid_wire he (in_id inc) (in_content_type inc) (the (in_search_text inc)) (in_deleted inc)"
    by (auto simp: org_upsert_in_tx_def split: option.splits if_splits)
  then obtain q where "record_id he q = in_id inc"
    using assms(2) by (auto simp: valid_wire_def split: option.splits)
  then have "is_record_id (in_id inc)" using record_id_prefixed[of he q] by simp
  from project_record_ok[OF orgs_ok_put[OF assms(1) this]] d' show ?thesis by simp
qed (use assms in simp)

section \<open>Storing a version\<close>

lemma put_icon_kept: "rows_kept d (put_icon i row d)"
  by (auto simp: put_icon_def link_icon_def rows_kept_def orgs_ok_def option.rel_map option.rel_refl_strong
      split: option.split)

lemma normalise_kept:
  assumes "normalise he app ct t m d = (res, d')"
  shows "rows_kept d d'"
proof (cases "case m of None \<Rightarrow> None | Some j \<Rightarrow> metadata_from_json (he_payload he) j ct")
  case None
  with assms show ?thesis by (simp add: normalise_def Let_def)
next
  case (Some p)
  show ?thesis
  proof (cases "pm_source_app_icon p")
    case None
    with assms Some show ?thesis by (simp add: normalise_def Let_def)
  next
    case (Some icon)
    with assms \<open>_ = Some p\<close> have "d' = d \<or> (\<exists>i row. d' = put_icon i row d)"
      by (auto simp: normalise_def Let_def split: option.splits)
    then show ?thesis using put_icon_kept by auto
  qed
qed

lemma normalise_orgs:
  assumes "normalise he app ct t m d = (res, d')"
  shows "db_orgs d' = db_orgs d"
proof -
  have "db_orgs (put_icon i row d) = db_orgs d" for i row
    by (simp add: put_icon_def link_icon_def split: option.split)
  with assms show ?thesis by (auto simp: normalise_def Let_def split: option.splits sum.splits)
qed

text \<open>What the merge hands to the store: a tombstone has no payload.\<close>

definition incoming_ok :: "incoming_item \<Rightarrow> bool" where
  "incoming_ok inc \<longleftrightarrow> (in_deleted inc \<longrightarrow> in_ciphertext inc = None \<and> in_nonce inc = None)"

lemma pin_projection_sel [simp]:
  "db_fts (apply_pin_projection k d) = db_fts d" "db_orgs (apply_pin_projection k d) = db_orgs d"
  by (auto simp: apply_pin_projection_def split: option.split)

lemma ok_but_drop_modules [simp]: "ok_but X he (drop_module_index k d) = ok_but X he d"
  by (rule ok_but_cong) simp_all

lemma ok_but_link:
  assumes "link_payload k h bs d = (res, d')"
  shows "ok_but X he d' = ok_but X he d"
  by (rule ok_but_cong) (simp_all add: link_payload_sel[OF assms])

text \<open>The row and its index entry, written together.\<close>

lemma ok_but_entry:
  assumes "ok_but {k} he d" "row_ok he k r" "\<not> dedup_conflict k r d"
    and "n = None \<and> d' = d \<or> insert_fts k body ct d = (n, d')" and "r_fts_rowid r = n"
  shows "db_ok he (put_item k r d')"
  using assms(4)
proof
  assume "n = None \<and> d' = d"
  then show ?thesis using ok_but_put[OF assms(1-3)] assms(5) by simp
next
  assume "insert_fts k body ct d = (n, d')"
  from ok_but_put_indexed[OF assms(1,2) this assms(5,3)] show ?thesis .
qed

lemma insert_fts_sel:
  assumes "insert_fts k body ct d = (n, d')"
  shows "db_items d' = db_items d" "db_orgs d' = db_orgs d" "n \<noteq> None \<longrightarrow> is_text ct"
  using assms by (auto simp: insert_fts_def Let_def split: if_splits)

lemma dedup_conflict_cong: "db_items d' = db_items d \<Longrightarrow> dedup_conflict k r d' = dedup_conflict k r d"
  by (simp add: dedup_conflict_def)

lemma index_incoming_cases:
  assumes "index_incoming inc secret d = (n, d')"
  obtains "n = None" "d' = d"
  | body where "insert_fts (in_id inc) body (in_content_type inc) d = (n, d')" "\<not> secret" "\<not> in_deleted inc"
  using assms unfolding index_incoming_def
  by (cases "in_search_text inc"; cases "secret \<or> in_deleted inc \<or> trim (the (in_search_text inc)) = []") auto

lemma upsert_row_sel [simp]:
  "r_deleted (upsert_row inc m t i n d) = in_deleted inc" "r_metadata (upsert_row inc m t i n d) = m"
  "r_fts_rowid (upsert_row inc m t i n d) = n" "r_created_at (upsert_row inc m t i n d) = t"
  "r_content_type (upsert_row inc m t i n d) = in_content_type inc" "r_origin (upsert_row inc m t i n d) = in_origin inc"
  "r_content_hash (upsert_row inc m t i n d) = in_content_hash inc"
  by (simp_all add: upsert_row_def)

lemma upsert_row_ok:
  assumes "incoming_ok inc" "\<not> is_record_id (in_id inc)" "in_deleted inc \<Longrightarrow> m = None"
    and "n \<noteq> None \<Longrightarrow> \<not> in_deleted inc \<and> is_text (in_content_type inc) \<and> \<not> cp_secret (privacy_of (he_payload he) m)"
  shows "row_ok he (in_id inc) (upsert_row inc m t i n d)"
proof (cases n)
  case None
  with assms(1-3) show ?thesis by (simp add: row_ok_def incoming_ok_def upsert_row_def)
next
  case (Some x)
  with assms(2,4) show ?thesis by (simp add: row_ok_def searchable_def upsert_row_def)
qed

lemma write_incoming_True:
  assumes "write_incoming inc r d = (Inr True, d')"
  shows "\<not> dedup_conflict (in_id inc) r d" "ok_but X he d' = ok_but X he (apply_pin_projection (in_id inc) (put_item (in_id inc) r d))"
    "db_items d' = db_items (apply_pin_projection (in_id inc) (put_item (in_id inc) r d))" "db_orgs d' = db_orgs d"
  using assms
  by (auto simp: write_incoming_def Let_def ok_but_link dest: link_payload_sel
      split: if_splits option.splits prod.splits sum.splits)

lemma item_upsert_True:
  assumes "item_upsert_in_tx he inc d = (Inr True, d')"
  obtains m t i d1 d2 d3 n secret where
    "rows_kept (delete_fts_row (in_id inc) d) d1" "db_orgs d1 = db_orgs d" "in_deleted inc \<Longrightarrow> m = None"
    "t = in_created_at inc \<or> t = i64_saturating_add (in_created_at inc) 1" "secret = cp_secret (privacy_of (he_payload he) m)"
    "d2 = (if secret then drop_module_index (in_id inc) d1 else d1)"
    "index_incoming inc secret d2 = (n, d3)" "write_incoming inc (upsert_row inc m t i n d3) d3 = (Inr True, d')"
proof -
  let ?k = "in_id inc" and ?pe = "he_payload he"
  let ?normal = "if in_deleted inc then (Inr (None, None), delete_fts_row ?k d)
    else normalise he (in_app_bundle_id inc) (in_content_type inc) (in_created_at inc) (in_metadata inc) (delete_fts_row ?k d)"
  obtain normal d1 where nd: "?normal = (normal, d1)" by fastforce
  obtain m0 i where normal: "normal = Inr (m0, i)"
    using assms nd by (cases normal) (auto simp: item_upsert_in_tx_def Let_def)
  obtain m t where mt: "(if in_deleted inc then (m0, in_created_at inc) else merged_metadata ?pe (in_content_type inc)
      (in_created_at inc) m0 (existing_metadata ?k (in_content_hash inc) d1)) = (m, t)" by fastforce
  define secret where "secret = cp_secret (privacy_of ?pe m)"
  have secret: "(case m of None \<Rightarrow> False | Some j \<Rightarrow> cp_secret (privacy_from_json ?pe j)) = secret"
    by (simp add: secret_def privacy_of_def privacy_none_def split: option.split)
  obtain n d3 where ix: "index_incoming inc secret (if secret then drop_module_index ?k d1 else d1) = (n, d3)" by fastforce
  have kept: "rows_kept (delete_fts_row ?k d) d1"
    using nd normalise_kept by (auto split: if_splits)
  have orgs: "db_orgs d1 = db_orgs d" using nd normalise_orgs by (auto split: if_splits)
  have t: "t = in_created_at inc \<or> t = i64_saturating_add (in_created_at inc) 1"
    using mt by (auto simp: merged_metadata_def Let_def split: if_splits)
  moreover have "in_deleted inc \<Longrightarrow> m = None" using mt nd normal by auto
  moreover have "write_incoming inc (upsert_row inc m t i n d3) d3 = (Inr True, d')"
    using assms unfolding item_upsert_in_tx_def Let_def nd normal by (simp add: mt secret ix)
  ultimately show thesis using that[OF kept orgs _ t secret_def refl ix] by blast
qed

lemma item_upsert_ok:
  assumes "db_ok he d" "incoming_ok inc" "\<not> is_record_id (in_id inc)" "item_upsert_in_tx he inc d = (Inr True, d')"
  shows "db_ok he d'"
proof -
  let ?k = "in_id inc"
  from assms(4) obtain m t i d1 d2 d3 n secret where *:
    "rows_kept (delete_fts_row ?k d) d1" "in_deleted inc \<Longrightarrow> m = None"
    "secret = cp_secret (privacy_of (he_payload he) m)" "d2 = (if secret then drop_module_index ?k d1 else d1)"
    "index_incoming inc secret d2 = (n, d3)" "write_incoming inc (upsert_row inc m t i n d3) d3 = (Inr True, d')"
    by (rule item_upsert_True) blast
  let ?r = "upsert_row inc m t i n d3"
  have d2: "ok_but {?k} he d2" using ok_but_kept[OF *(1) ok_but_delete_fts[OF assms(1)]] *(4) by simp
  have entry: "n = None \<and> d3 = d2 \<or> (\<exists>body. insert_fts ?k body (in_content_type inc) d2 = (n, d3) \<and> \<not> secret \<and> \<not> in_deleted inc)"
    by (rule index_incoming_cases[OF *(5)]) blast+
  have items: "db_items d3 = db_items d2" and n: "n \<noteq> None \<Longrightarrow> \<not> in_deleted inc \<and> is_text (in_content_type inc) \<and> \<not> secret"
    using entry insert_fts_sel by blast+
  have row: "row_ok he ?k ?r" by (rule upsert_row_ok[OF assms(2,3) *(2)]) (use n *(3) in auto)
  have "\<not> dedup_conflict ?k ?r d2" using write_incoming_True(1)[OF *(6)] dedup_conflict_cong[OF items] by simp
  then have "db_ok he (put_item ?k ?r d3)" using ok_but_entry[OF d2 row] entry by (metis upsert_row_sel(3))
  from ok_but_kept[OF pin_projection_kept this] show ?thesis by (simp add: write_incoming_True(2)[OF *(6)])
qed

lemma upsert_in_tx_ok:
  assumes "db_ok he d" "incoming_ok inc" "upsert_in_tx he inc d = (Inr True, d')"
  shows "db_ok he d'"
proof (cases "in_content_type inc = org_content_type")
  case True
  with assms(3) have "org_upsert_in_tx he inc d = (Inr True, d')" by (simp add: upsert_in_tx_def)
  from org_upsert_ok[OF assms(1) True this] show ?thesis .
next
  case False
  with assms(3) have "\<not> is_record_id (in_id inc)" "item_upsert_in_tx he inc d = (Inr True, d')"
    by (auto simp: upsert_in_tx_def split: if_splits)
  from item_upsert_ok[OF assms(1,2) this] show ?thesis .
qed

lemma upsert_tx_ok:
  assumes "db_ok he d" "incoming_ok inc" "upsert_tx he inc d = (Inr b, d')"
  shows "db_ok he d'"
  using assms upsert_in_tx_ok[OF assms(1,2)]
  by (auto simp: upsert_tx_def split: prod.splits sum.splits bool.splits)

lemma upsert_rows_ok:
  assumes "db_ok he d" "list_all incoming_ok incs" "upsert_rows he incs d = (Inr bs, d')"
  shows "db_ok he d'"
  using assms
proof (induction incs arbitrary: d bs)
  case (Cons inc incs)
  obtain b d1 where u: "upsert_tx he inc d = (Inr b, d1)"
    using Cons.prems(3) by (auto split: prod.splits sum.splits)
  obtain cs where r: "upsert_rows he incs d1 = (Inr cs, d')"
    using Cons.prems(3) by (auto simp: u split: prod.splits sum.splits)
  show ?case
    by (rule Cons.IH[OF _ _ r]) (use Cons.prems upsert_tx_ok[OF _ _ u] in auto)
qed simp

end
