(* ===== verification/History_Steps.thy ===== *)
theory History_Steps
  imports History_Invariant
begin

text \<open>
  Every transaction by which this device changes its own history keeps the invariant of
  \<open>History_Invariant\<close>.
\<close>

section \<open>Deleting\<close>

lemma live_item_Some: "live_item k d = Some r \<longleftrightarrow> fmlookup (db_items d) k = Some r \<and> \<not> r_deleted r"
  by (auto simp: live_item_def split: option.splits)

lemma live_item_cong: "db_items d' = db_items d \<Longrightarrow> live_item k d' = live_item k d"
  by (simp add: live_item_def)

lemma delete_fts_dead:
  assumes "db_ok he d" "live_item k d = None"
  shows "delete_fts_row k d = d"
proof (cases "fmlookup (db_items d) k")
  case (Some r)
  with assms(2) have "r_deleted r" by (simp add: live_item_def split: if_splits)
  moreover have "row_ok he k r" using ok_butD(1)[OF assms(1) Some] by simp
  ultimately have "r_fts_rowid r = None" by (auto simp: row_ok_def searchable_def)
  with Some show ?thesis by (simp add: delete_fts_row_def)
qed (simp add: delete_fts_row_def)

lemma tombstone_ok: "\<not> is_record_id k \<Longrightarrow> row_ok he k ((tombstone now r)\<lparr>r_pinned := False\<rparr>)"
  by (simp add: row_ok_def tombstone_def)

lemma dead_no_conflict: "r_deleted r \<Longrightarrow> \<not> dedup_conflict k r d"
  by (simp add: dedup_conflict_def in_dedup_index_def)

lemma delete_tx_ok:
  assumes "db_ok he d" "delete_tx now k d = (Inr b, d')"
  shows "db_ok he d'"
proof (cases "live_item k d")
  case None
  then have "d' = delete_fts_row k d" using assms(2) by (simp add: delete_tx_def live_item_cong[of "delete_fts_row k d" d] Let_def)
  with assms(1) delete_fts_dead[OF assms(1) None] show ?thesis by simp
next
  case (Some r)
  then have "\<not> is_record_id k" using ok_butD(1)[OF assms(1)] by (auto simp: live_item_Some row_ok_def)
  then have "ok_but ({k} - {k}) he (put_item k ((tombstone now r)\<lparr>r_pinned := False\<rparr>) (delete_fts_row k d))"
    by (intro ok_but_put ok_but_delete_fts assms(1) tombstone_ok dead_no_conflict) (simp_all add: tombstone_def)
  with Some assms(2) show ?thesis by (auto simp: delete_tx_def live_item_cong[of "delete_fts_row k d" d] Let_def)
qed

lemma ok_but_drop:
  assumes "ok_but {k} he d"
  shows "db_ok he (d\<lparr>db_items := fmdrop k (db_items d)\<rparr>)"
proof -
  let ?d = "d\<lparr>db_items := fmdrop k (db_items d)\<rparr>"
  have l: "fmlookup (db_items ?d) j = (if j = k then None else fmlookup (db_items d) j)" for j by simp
  have i: "indexed_at ?d j = (if j = k then None else indexed_at d j)" "owner ?d = owner d" for j
    by (simp_all add: indexed_at_def owner_def fun_eq_iff)
  show ?thesis
  proof (rule ok_butI)
    show "row_ok he j r" if "fmlookup (db_items ?d) j = Some r" for j r
      using that ok_butD(1)[OF assms] unfolding l by (auto split: if_splits)
    show "owner ?d n = Some j \<longleftrightarrow> j \<notin> {} \<and> indexed_at ?d j = Some n" for n j
      using ok_butD(2)[OF assms, of n j] by (auto simp: i)
    show "unique_ok ?d"
      by (rule unique_ok_less[OF ok_butD(3)[OF assms]]) (auto split: if_splits)
    show "orgs_ok ?d" using ok_butD(4)[OF assms] by (simp add: orgs_ok_def)
  qed
qed

lemma delete_row_ok:
  assumes "db_ok he d"
  shows "db_ok he (delete_row k d)"
proof (cases "fmlookup (db_items d) k")
  case (Some r)
  let ?d = "delete_fts_row k d"
  have "db_ok he (?d\<lparr>db_items := fmdrop k (db_items ?d)\<rparr>)" by (rule ok_but_drop[OF ok_but_delete_fts[OF assms]])
  moreover have "ok_but {} he (delete_row k d) = ok_but {} he (?d\<lparr>db_items := fmdrop k (db_items ?d)\<rparr>)"
    by (rule ok_but_cong) (simp_all add: delete_row_def Some Let_def)
  ultimately show ?thesis by simp
qed (use assms in \<open>simp add: delete_row_def\<close>)

lemma hard_delete_ok: "db_ok he d \<Longrightarrow> hard_delete ks d = (n, d') \<Longrightarrow> db_ok he d'"
proof (induction ks arbitrary: d n d')
  case (Cons k ks)
  then show ?case using delete_row_ok by (force simp: hard_delete_def)
qed (simp add: hard_delete_def)

lemma evict_ok:
  assumes "db_ok he d"
  shows "evict_over_cap_tx c d = (Inr a, d') \<Longrightarrow> db_ok he d'"
    and "evict_over_byte_cap_tx b d = (Inr a, d') \<Longrightarrow> db_ok he d'"
    and "evict_batch_tx t d = (Inr p, d') \<Longrightarrow> db_ok he d'"
  using assms hard_delete_ok
  by (fastforce simp: evict_over_cap_tx_def evict_over_byte_cap_tx_def evict_batch_tx_def Let_def
      split: if_splits prod.splits)+

section \<open>Clearing the history\<close>

lemma put_rows:
  assumes "distinct (map fst rs)" and "d' = fold (\<lambda>(k, r). put_item k (f r)) rs d"
  shows "(\<forall>j. fmlookup (db_items d') j = (case map_of rs j of Some r \<Rightarrow> Some (f r) | None \<Rightarrow> fmlookup (db_items d) j))
    \<and> db_fts d' = db_fts d \<and> db_orgs d' = db_orgs d"
  using assms
proof (induction rs arbitrary: d)
  case (Cons kr rs)
  obtain k r where kr: "kr = (k, r)" by fastforce
  moreover have "map_of rs k = None" using Cons.prems(1) kr by (simp add: map_of_eq_None_iff)
  ultimately show ?case using Cons.IH[of "put_item k (f r) d"] Cons.prems by (auto split: option.split)
qed simp

lemma indexed_live:
  assumes "db_ok he d" "indexed_at d k = Some n"
  shows "live_item k d \<noteq> None"
proof -
  from assms(2) obtain r where r: "fmlookup (db_items d) k = Some r" "r_fts_rowid r = Some n"
    by (auto simp: indexed_at_def split: option.splits)
  then have "searchable he r" using ok_butD(1)[OF assms(1) r(1)] by (simp add: row_ok_def)
  then show ?thesis using r(1) by (simp add: live_item_def searchable_def)
qed

lemma delete_all_through_ok:
  assumes "db_ok he d" "delete_all_through_tx now through d = (Inr c, d')"
  shows "db_ok he d'"
proof -
  define rs where "rs = filter (\<lambda>(k, r). r_rowid r \<le> through) (unpinned_rows d)"
  define d1 where "d1 = fold (\<lambda>(k, r). put_item k (tombstone now r)) rs d"
  have d': "d' = d1\<lparr>db_fts := fm_retain (\<lambda>n (k, body). live_item k d1 \<noteq> None) (db_fts d1)\<rparr>"
    using assms(2) by (auto simp: delete_all_through_tx_def rs_def d1_def Let_def)
  have "distinct (map fst rs)"
    by (auto simp: rs_def unpinned_rows_def live_rows_def intro!: distinct_map_filter)
  note put = put_rows[OF this d1_def]
  have doomed: "fmlookup (db_items d) k = Some r" "\<not> r_deleted r" "\<not> r_pinned r" if "map_of rs k = Some r" for k r
    using map_of_SomeD[OF that] by (auto simp: rs_def unpinned_rows_def live_rows_def set_fm_entries)
  have row: "(map_of rs k = None \<and> fmlookup (db_items d) k = Some q)
      \<or> (\<exists>r. map_of rs k = Some r \<and> q = tombstone now r)" if "fmlookup (db_items d1) k = Some q" for k q
    using that put by (auto split: option.splits)
  have live: "live_item k d1 = (if map_of rs k = None then live_item k d else None)" for k
    using put by (auto simp: live_item_def tombstone_def split: option.splits)
  have fts: "owner d' n = (case owner d n of Some k \<Rightarrow> if live_item k d1 = None then None else Some k | None \<Rightarrow> None)" for n
    using put by (auto simp: d' owner_def split: option.splits prod.splits)
  have ix: "indexed_at d' k = (if map_of rs k = None then indexed_at d k else None)" for k
    using put by (auto simp: d' indexed_at_def tombstone_def split: option.splits)
  show ?thesis
  proof (rule ok_butI)
    show "row_ok he k q" if "fmlookup (db_items d') k = Some q" for k q
    proof -
      from that have "fmlookup (db_items d1) k = Some q" by (simp add: d')
      from row[OF this] show ?thesis
      proof
        assume "\<exists>r. map_of rs k = Some r \<and> q = tombstone now r"
        then obtain r where r: "map_of rs k = Some r" "q = tombstone now r" by blast
        then have "row_ok he k r" using doomed(1) ok_butD(1)[OF assms(1)] by blast
        then show ?thesis using doomed(3)[OF r(1)] by (simp add: r(2) row_ok_def tombstone_def)
      qed (use ok_butD(1)[OF assms(1)] in blast)
    qed
    show "owner d' n = Some k \<longleftrightarrow> k \<notin> {} \<and> indexed_at d' k = Some n" for n k
      using ok_butD(2)[OF assms(1), of n k] indexed_live[OF assms(1), of k n] by (auto simp: fts ix live split: option.splits)
    show "unique_ok d'"
    proof (rule unique_ok_less[OF ok_butD(3)[OF assms(1)]])
      fix k q assume "fmlookup (db_items d') k = Some q" "in_dedup_index k q"
      then have "fmlookup (db_items d1) k = Some q" "\<not> r_deleted q" by (simp_all add: d' in_dedup_index_def)
      with row[OF this(1)] have "fmlookup (db_items d) k = Some q" by (auto simp: tombstone_def)
      with \<open>in_dedup_index k q\<close> show "\<exists>r. fmlookup (db_items d) k = Some r \<and> in_dedup_index k r \<and> dedup_key q = dedup_key r"
        by blast
    qed
    show "orgs_ok d'" using put ok_butD(4)[OF assms(1)] by (simp add: d' orgs_ok_def)
  qed
qed

section \<open>Changing a row\<close>

lemma update_item_Inr:
  "update_item k r d = Inr d' \<longleftrightarrow> \<not> dedup_conflict k r d \<and> d' = put_item k r d"
  by (auto simp: update_item_def)

lemma update_item_ok:
  assumes "db_ok he d" "fmlookup (db_items d) k = Some r" "update_item k r' d = Inr d'"
    "row_ok he k r \<Longrightarrow> row_ok he k r'" "r_fts_rowid r' = r_fts_rowid r"
  shows "db_ok he d'"
proof -
  have "row_ok he k r'" using ok_butD(1)[OF assms(1,2)] assms(4) by simp
  then have "ok_but ({} - {k}) he (put_item k r' d)"
    using assms by (intro ok_but_put) (simp_all add: update_item_Inr indexed_at_def)
  then show ?thesis using assms(3) by (simp add: update_item_Inr)
qed

lemma dedup_conflict_other:
  assumes "\<And>j. j \<noteq> k \<Longrightarrow> fmlookup (db_items d') j = fmlookup (db_items d) j"
  shows "dedup_conflict k r d' = dedup_conflict k r d"
  unfolding dedup_conflict_iff using assms by metis

lemma dedup_conflict_fts: "dedup_conflict k (r\<lparr>r_fts_rowid := n\<rparr>) d = dedup_conflict k r d"
  by (simp add: dedup_conflict_def in_dedup_index_def dedup_key_def)

lemma newest_Some: "newest rs = Some x \<Longrightarrow> x \<in> set rs"
proof -
  assume n: "newest rs = Some x"
  then have "by_age rs \<noteq> []" using length_sort[of "\<lambda>(k, r). (r_created_at r, k)" rs]
    by (auto simp: newest_def by_age_def simp del: length_sort split: if_splits)
  from last_in_set[OF this] n show "x \<in> set rs" by (simp add: newest_def by_age_def split: if_splits)
qed

lemma promote_ok:
  assumes "db_ok he d" "promote_copied_tx k t d = (Inr a, d')"
  shows "db_ok he d'"
proof (cases "live_item k d")
  case (Some r)
  then have r: "fmlookup (db_items d) k = Some r" by (simp add: live_item_Some)
  show ?thesis
  proof (cases "a")
    case None
    with Some assms show ?thesis by (auto simp: promote_copied_tx_def Let_def split: sum.splits)
  next
    case (Some t')
    then obtain u where "update_item k (r\<lparr>r_created_at := u\<rparr>) d = Inr d'"
      using \<open>live_item k d = _\<close> assms(2) by (auto simp: promote_copied_tx_def Let_def split: sum.splits)
    from update_item_ok[OF assms(1) r this] show ?thesis by (simp add: row_ok_def searchable_def)
  qed
qed (use assms in \<open>auto simp: promote_copied_tx_def Let_def\<close>)

lemma bump_ok:
  assumes "db_ok he d" "fmlookup (db_items d) k = Some r" "bump_in_tx k r t a b i d = (r', d')"
  shows "db_ok he d' \<and> fmlookup (db_items d') k = Some r' \<and> r_content_type r' = r_content_type r
    \<and> r_metadata r' = r_metadata r"
proof (cases "r' = r \<and> d' = d")
  case False
  define q where "q = r\<lparr>r_created_at := t, r_app_bundle_id := a, r_app_name := b, r_icon_id := i\<rparr>"
  from False assms(3) have u: "update_item k q d = Inr d'" "r' = q"
    by (auto simp: bump_in_tx_def q_def Let_def split: if_splits sum.splits)
  have "db_ok he d'"
    by (rule update_item_ok[OF assms(1,2) u(1)]) (simp_all add: q_def row_ok_def searchable_def)
  with u show ?thesis by (simp add: update_item_Inr q_def)
qed (use assms in simp)

text \<open>A row rewritten after its index entry was taken out, with or without a new one.\<close>

lemma rewritten_ok:
  assumes "db_ok he d" "fmlookup (db_items d) k = Some r" "r_fts_rowid q = r_fts_rowid r"
    and "n = None \<and> d2 = delete_fts_row k (put_item k q d)
      \<or> insert_fts k body ct (delete_fts_row k (put_item k q d)) = (n, d2)"
    and "row_ok he k (q\<lparr>r_fts_rowid := n\<rparr>)" "\<not> dedup_conflict k q d"
  shows "db_ok he (put_item k (q\<lparr>r_fts_rowid := n\<rparr>) d2)"
proof -
  let ?q = "q\<lparr>r_fts_rowid := n\<rparr>" and ?d = "delete_fts_row k d" and ?e = "delete_fts_row k (put_item k q d)"
  have e: "ok_but {k} he ?d" by (rule ok_but_delete_fts[OF assms(1)])
  have fts: "db_fts ?e = db_fts ?d" using assms(2,3) by (simp add: delete_fts_row_def split: option.split)
  have "ok_but {k} he ?e"
  proof (rule ok_butI)
    show "row_ok he j r'" if "fmlookup (db_items ?e) j = Some r'" "j \<notin> {k}" for j r'
      using that ok_butD(1)[OF e] by simp
    show "owner ?e i = Some j \<longleftrightarrow> j \<notin> {k} \<and> indexed_at ?e j = Some i" for i j
      using ok_butD(2)[OF e, of i j] fts by (simp add: owner_def)
    show "unique_ok ?e" by (rule unique_ok_put[OF ok_butD(3)[OF assms(1)] assms(6)]) simp
    show "orgs_ok ?e" using ok_butD(4)[OF assms(1)] by (simp add: orgs_ok_def)
  qed
  moreover have "\<not> dedup_conflict k ?q ?e"
    using assms(6) dedup_conflict_other[of k ?e d q] by (simp add: dedup_conflict_fts)
  ultimately show ?thesis using ok_but_entry[OF _ assms(5) _ assms(4)] by simp
qed

section \<open>Capturing and concealing\<close>

lemma refreshed_row_sel [simp]:
  "r_fts_rowid (refreshed_row pe r c b x) = r_fts_rowid r" "r_deleted (refreshed_row pe r c b x) = r_deleted r"
  "r_content_type (refreshed_row pe r c b x) = r_content_type r"
  by (simp_all add: refreshed_row_def Let_def)

lemma refreshed_row_ok:
  assumes "json_ok (he_payload he)" "row_ok he k r" "\<not> r_deleted r"
    "n \<noteq> None \<Longrightarrow> is_text (r_content_type r) \<and> \<not> cp_secret combined"
  shows "row_ok he k ((refreshed_row (he_payload he) r combined b x)\<lparr>r_content_bytes := z, r_fts_rowid := n\<rparr>)"
proof -
  let ?r = "refreshed_row (he_payload he) r combined b x"
  have "\<not> cp_secret (privacy_of (he_payload he) (r_metadata ?r))" if "\<not> cp_secret combined"
  proof (cases "r_metadata ?r")
    case (Some j)
    let ?m = "case row_metadata (he_payload he) r of None \<Rightarrow> metadata_default | Some m \<Rightarrow> m"
    have m: "metadata_to_json (he_payload he) (?m\<lparr>pm_credentials := pm_credentials ?m \<or> b, pm_privacy := combined\<rparr>)
        (r_content_type r) = Some j"
      using Some by (simp add: refreshed_row_def Let_def)
    show ?thesis using to_json_reads_back(2)[OF assms(1) m] that Some by (simp add: privacy_of_def)
  qed (simp add: privacy_of_def privacy_none_def)
  with assms show ?thesis by (auto simp: row_ok_def searchable_def)
qed

lemma refresh_privacy_ok:
  assumes js: "json_ok (he_payload he)" and d: "db_ok he d" and r: "fmlookup (db_items d) k = Some r" "\<not> r_deleted r"
    and run: "refresh_privacy he k r privacy credentials text d = (Inr r', d')"
    and t: "text \<noteq> None \<Longrightarrow> is_text (r_content_type r)"
  shows "db_ok he d'"
proof -
  define c where "c = combined_privacy (he_payload he) r privacy"
  define x where "x = repairs_text (he_payload he) r text"
  define s where "s = (refreshed_row (he_payload he) r c credentials x)
    \<lparr>r_content_bytes := content_bytes_of k r (r_metadata (refreshed_row (he_payload he) r c credentials x)) d\<rparr>"
  have row: "row_ok he k r" using ok_butD(1)[OF d r(1)] by simp
  have s_ok: "row_ok he k (s\<lparr>r_fts_rowid := n\<rparr>)" if "n \<noteq> None \<Longrightarrow> is_text (r_content_type r) \<and> \<not> cp_secret c" for n
    unfolding s_def by (rule refreshed_row_ok[OF js row r(2) that])
  have fts: "r_fts_rowid s = r_fts_rowid r" by (simp add: s_def)
  note code = run[unfolded refresh_privacy_def Let_def, folded c_def x_def, folded s_def]
  show ?thesis
  proof (cases "privacy_is_empty c \<and> \<not> x \<and> \<not> credentials")
    case True
    with code d show ?thesis by (simp only: if_True prod.inject) simp
  next
    case False
    then have upd: "update_item k s d = Inr (put_item k s d)" "\<not> dedup_conflict k s d"
      using code by (cases "dedup_conflict k s d"; simp add: update_item_def)+
    note code = code[unfolded upd(1), simplified sum.case if_not_P[OF False]]
    consider "cp_secret c" | "\<not> cp_secret c" "x" | "\<not> cp_secret c" "\<not> x" by blast
    then show ?thesis
    proof cases
      case 1
      with code rewritten_ok[OF d r(1) fts _ s_ok upd(2), of None] show ?thesis by auto
    next
      case 2
      obtain n d2 where i: "insert_fts k (the text) (r_content_type r) (delete_fts_row k (put_item k s d)) = (n, d2)"
        by fastforce
      have "n \<noteq> None \<Longrightarrow> is_text (r_content_type r) \<and> \<not> cp_secret c" using 2(1) insert_fts_sel(3)[OF i] by blast
      from rewritten_ok[OF d r(1) fts disjI2[OF i] s_ok[OF this] upd(2)] code 2 i show ?thesis by auto
    next
      case 3
      have "row_ok he k (s\<lparr>r_fts_rowid := r_fts_rowid r\<rparr>)"
        by (rule s_ok) (use row 3(1) in \<open>auto simp: row_ok_def searchable_def\<close>)
      then have "row_ok he k s" by (simp add: fts[symmetric])
      moreover have "d' = put_item k s d" using code 3 by simp
      ultimately show ?thesis using update_item_ok[OF d r(1) upd(1) _ fts] by simp
    qed
  qed
qed

lemma normalise_privacy:
  assumes "json_ok (he_payload he)" "normalise he app ct t m d = (Inr (m', i), d')"
    "\<not> cp_secret (privacy_of (he_payload he) m)"
  shows "\<not> cp_secret (privacy_of (he_payload he) m')"
proof (cases "case m of None \<Rightarrow> None | Some j \<Rightarrow> metadata_from_json (he_payload he) j ct")
  case None
  with assms show ?thesis by (simp add: normalise_def Let_def)
next
  case (Some p)
  then obtain j where j: "m = Some j" "metadata_from_json (he_payload he) j ct = Some p" by (auto split: option.splits)
  show ?thesis
  proof (cases "m' = m \<or> m' = None")
    case False
    then obtain y where "m' = Some y" "metadata_to_json (he_payload he) (p\<lparr>pm_source_app_icon := None\<rparr>) ct = Some y"
      using assms(2) Some by (auto simp: normalise_def Let_def split: option.splits if_splits)
    then show ?thesis
      using to_json_reads_back(2)[OF assms(1)] parsed_privacy[OF assms(1) j(2)] assms(3) j(1)
      by (simp add: privacy_of_def)
  qed (use assms(3) in \<open>auto simp: privacy_of_def privacy_none_def\<close>)
qed

lemma ok_but_absent: "db_ok he d \<Longrightarrow> fmlookup (db_items d) k = None \<Longrightarrow> ok_but {k} he d"
  unfolding ok_but_def indexed_at_def by auto

lemma bump_existing_ok:
  assumes "json_ok (he_payload he)" "db_ok he d" "fmlookup (db_items d) k = Some r" "\<not> r_deleted r"
    "text \<noteq> None \<Longrightarrow> is_text (r_content_type r)"
    "bump_existing he item k r icon privacy credentials text first d = (Inr a, d')"
  shows "db_ok he d'"
proof -
  obtain r1 d1 where b: "bump_in_tx k r (ni_created_at item) (ni_app_bundle_id item) (ni_app_name item) icon d = (r1, d1)"
    by fastforce
  define d2 where "d2 = (if first then release_unused icon d1 else d1)"
  obtain r2 d3 where c: "refresh_privacy he k r1 privacy credentials text d2 = (Inr r2, d3)"
    using assms(6) unfolding bump_existing_def b Let_def prod.case d2_def[symmetric]
    by (cases "refresh_privacy he k r1 privacy credentials text d2"; cases "fst (refresh_privacy he k r1 privacy credentials text d2)") auto
  have d': "d' = (if first then d3 else release_unused icon d3)"
    using assms(6) unfolding bump_existing_def b Let_def prod.case d2_def[symmetric] c by simp
  have b1: "db_ok he d1" "fmlookup (db_items d1) k = Some r1" "r_content_type r1 = r_content_type r"
    using bump_ok[OF assms(2,3) b] by blast+
  have live: "\<not> r_deleted r1" using b assms(4) by (auto simp: bump_in_tx_def Let_def split: if_splits sum.splits)
  have "db_ok he d2" using ok_but_cong[of d2 d1 "{}" he] b1(1) by (simp add: d2_def)
  moreover have "fmlookup (db_items d2) k = Some r1" using b1(2) by (simp add: d2_def)
  ultimately have "db_ok he d3" by (rule refresh_privacy_ok[OF assms(1) _ _ live c]) (use assms(5) b1(3) in simp)
  then show ?thesis using ok_but_cong[of d' d3 "{}" he] by (simp add: d')
qed

lemma newest_rep:
  assumes "newest_with_representation h ct d = Some (k, r) \<or> find_in_bucket h ct t d = Some (k, r)"
  shows "fmlookup (db_items d) k = Some r" "\<not> r_deleted r" "r_content_type r = ct"
proof -
  have "(k, r) \<in> set (live_rows d)" "r_content_type r = ct"
    using assms newest_Some by (fastforce simp: newest_with_representation_def find_in_bucket_def split: if_splits)+
  then show "fmlookup (db_items d) k = Some r" "\<not> r_deleted r" "r_content_type r = ct"
    by (auto simp: live_rows_def set_fm_entries)
qed

text \<open>The branch of a capture that stores a new row.\<close>

lemma inserted_ok:
  assumes "db_ok he d" "\<not> fm_contains (db_items d) k" "n = None \<and> d' = d \<or> insert_fts k body ct d = (n, d')"
    "row_ok he k row" "r_fts_rowid row = n" "\<not> dedup_conflict k row d'"
  shows "db_ok he (put_item k row d')"
proof -
  have "fmlookup (db_items d) k = None" using assms(2) by (simp add: fm_contains_iff fmdom_notD)
  then have "ok_but {k} he d" by (rule ok_but_absent[OF assms(1)])
  moreover have "db_items d' = db_items d" using assms(3) insert_fts_sel(1) by blast
  ultimately show ?thesis using ok_but_entry[OF _ assms(4) _ assms(3,5)] assms(6) dedup_conflict_cong by metis
qed

lemma insert_capture_ok:
  assumes "json_ok (he_payload he)" "db_ok he d" "\<not> is_record_id (ni_id item)"
    "text \<noteq> None \<Longrightarrow> is_text (ni_content_type item) \<and> \<not> cp_secret (privacy_of (he_payload he) m)"
    "insert_capture he item sealed m i text d = (Inr a, d')"
  shows "db_ok he d'"
proof -
  let ?k = "ni_id item" and ?ct = "ni_content_type item"
  obtain n d1 where ix: "(case text of None \<Rightarrow> (None, d) | Some body \<Rightarrow> insert_fts ?k body ?ct d) = (n, d1)" by fastforce
  then have entry: "n = None \<and> d1 = d \<or> insert_fts ?k (the text) ?ct d = (n, d1)" by (auto split: option.splits)
  have "n \<noteq> None \<Longrightarrow> text \<noteq> None" using ix by (auto split: option.splits)
  with assms(3,4) have row: "row_ok he ?k (new_row item sealed m i n d1)"
    by (cases n) (auto simp: row_ok_def searchable_def new_row_def)
  have items: "db_items d1 = db_items d" using entry insert_fts_sel(1) by blast
  note code = assms(5)[unfolded insert_capture_def Let_def ix prod.case]
  show ?thesis
  proof (cases "fm_contains (db_items d1) ?k \<or> dedup_conflict ?k (new_row item sealed m i n d1) d1")
    case True
    then obtain k r where f: "find_in_bucket (ni_content_hash item) ?ct (ni_created_at item) d = Some (k, r)"
      using code by (cases "find_in_bucket (ni_content_hash item) ?ct (ni_created_at item) d") auto
    show ?thesis
      by (rule bump_existing_ok[OF assms(1,2) newest_rep(1,2)[OF disjI2[OF f]]])
         (use code True f assms(4) newest_rep(3)[OF disjI2[OF f]] in auto)
  next
    case False
    then have "d' = put_item ?k (new_row item sealed m i n d1) d1" using code by simp
    moreover have "db_ok he (put_item ?k (new_row item sealed m i n d1) d1)"
      by (rule inserted_ok[OF assms(2) _ entry row]) (use False items in \<open>simp_all add: new_row_def\<close>)
    ultimately show ?thesis by simp
  qed
qed

lemma insert_or_bump_ok:
  assumes "json_ok (he_payload he)" "db_ok he d" "\<not> is_record_id (ni_id item)"
    "insert_or_bump_tx he item text sealed d = (Inr a, d')"
  shows "db_ok he d'"
proof -
  let ?ct = "ni_content_type item" and ?pe = "he_payload he"
  define t where "t = capture_text ?pe item text"
  have t: "is_text ?ct \<and> \<not> cp_secret (privacy_of ?pe (ni_metadata item))" if "t \<noteq> None"
    using that by (auto simp: t_def capture_text_def split: option.splits if_splits)
  note code = assms(4)[unfolded insert_or_bump_tx_def Let_def, folded t_def]
  obtain res d1 where norm: "normalise he (ni_app_bundle_id item) ?ct (ni_created_at item) (ni_metadata item) d = (res, d1)"
    by fastforce
  have d1: "db_ok he d1" by (rule ok_but_kept[OF normalise_kept[OF norm] assms(2)])
  obtain m i where res: "res = Inr (m, i)" using code norm by (cases res) auto
  note code = code[unfolded norm res prod.case sum.case]
  show ?thesis
  proof (cases "newest_with_representation (ni_content_hash item) ?ct d1")
    case None
    then obtain sl where sl: "insert_capture he item sl m i t d1 = (Inr a, d')" using code by (cases sealed) auto
    show ?thesis
      by (rule insert_capture_ok[OF assms(1) d1 assms(3) _ sl])
         (use t normalise_privacy[OF assms(1) norm[unfolded res]] in blast)
  next
    case (Some kr)
    then obtain k r where f: "newest_with_representation (ni_content_hash item) ?ct d1 = Some (k, r)" by (cases kr) auto
    show ?thesis
      by (rule bump_existing_ok[OF assms(1) d1 newest_rep(1,2)[OF disjI1[OF f]]])
         (use code f t newest_rep(3)[OF disjI1[OF f]] in auto)
  qed
qed

lemma set_secret_tx_ok:
  assumes "json_ok (he_payload he)" "db_ok he d" "set_secret_tx he key now k secret d = (Inr b, d')"
  shows "db_ok he d'"
proof (cases "live_item k d")
  case None
  with assms show ?thesis by (simp add: set_secret_tx_def Let_def)
next
  case (Some r)
  let ?pe = "he_payload he" and ?ct = "r_content_type r"
  define stamp where "stamp = max (max now (i64_saturating_add (r_created_at r) 1))
    (case pm_secret_override (parsed_metadata ?pe ?ct (r_metadata r)) of None \<Rightarrow> 0 | Some c \<Rightarrow> i64_saturating_add (sc_updated_at c) 1)"
  define m where "m = set_secret secret stamp (parsed_metadata ?pe ?ct (r_metadata r))"
  define plain where "plain = (if \<not> secret \<and> is_text ?ct
    then (case decrypt (he_sealing he) (joined_ciphertext k r d) (case r_nonce r of None \<Rightarrow> [] | Some n \<Rightarrow> n) key k of
       Inl _ \<Rightarrow> Inl InvalidPayload | Inr body \<Rightarrow> if utf8_valid body then Inr (Some body) else Inl InvalidPayload)
    else Inr None)"
  note code = assms(3)[unfolded set_secret_tx_def Let_def Some option.case, folded stamp_def, folded m_def, folded plain_def]
  obtain j where j: "metadata_to_json ?pe m ?ct = Some j" using code by (cases "metadata_to_json ?pe m ?ct") auto
  obtain shown_text where shown_text: "plain = Inr shown_text" using code j by (cases plain) auto
  define e where "e = drop_module_index k (delete_fts_row k d)"
  obtain n d1 where ix: "(case shown_text of None \<Rightarrow> (None, e) | Some body \<Rightarrow> insert_fts k body ?ct e) = (n, d1)" by fastforce
  define q where "q = r\<lparr>r_metadata := Some j, r_created_at := stamp, r_fts_rowid := n,
    r_content_bytes := content_bytes_of k r (Some j) d1\<rparr>"
  have upd: "\<not> dedup_conflict k q d1" "d' = put_item k q d1"
    using code[unfolded j shown_text option.case sum.case, folded e_def, unfolded ix prod.case, folded q_def]
    by (cases "dedup_conflict k q d1"; simp add: update_item_def)+
  have entry: "n = None \<and> d1 = e \<or> insert_fts k (the shown_text) ?ct e = (n, d1)" using ix by (auto split: option.splits)
  have "secret = cp_secret (privacy_of ?pe (Some j))"
    using to_json_reads_back(2)[OF assms(1) j] by (simp add: privacy_of_def m_def set_secret_def)
  moreover have "n \<noteq> None \<Longrightarrow> shown_text \<noteq> None" using ix by (auto split: option.splits)
  moreover have "shown_text \<noteq> None \<Longrightarrow> \<not> secret \<and> is_text ?ct" using shown_text by (auto simp: plain_def split: if_splits)
  moreover have "row_ok he k r" "\<not> r_deleted r" using ok_butD(1)[OF assms(2)] Some by (auto simp: live_item_Some)
  ultimately have "row_ok he k q" by (auto simp: q_def row_ok_def searchable_def)
  moreover have "ok_but {k} he e" using ok_but_delete_fts[OF assms(2)] by (simp add: e_def)
  moreover have "db_items d1 = db_items e" using entry insert_fts_sel(1) by blast
  ultimately show ?thesis
    using ok_but_entry[of k he e q, OF _ _ _ entry] upd dedup_conflict_cong[of d1 e k q] by (simp add: q_def)
qed

section \<open>Records and pins\<close>

lemma org_write_ok:
  assumes "db_ok he d" "org_write he key nonce now r d = (Inr u, d')"
  shows "db_ok he d'"
proof (cases "d' = d")
  case False
  with assms(2) obtain inc b where "org_upsert_in_tx he inc d = (Inr b, d')" "in_content_type inc = org_content_type"
    by (auto simp: org_write_def Let_def split: if_splits option.splits sum.splits prod.splits)
  from org_upsert_ok[OF assms(1) this(2,1)] show ?thesis .
qed (use assms in simp)

lemma write_pin_ok: "db_ok he d \<Longrightarrow> write_pin he key nonce now k d = (Inr u, d') \<Longrightarrow> db_ok he d'"
  using org_write_ok by (auto simp: write_pin_def split: option.splits)

lemma write_pins_ok: "db_ok he d \<Longrightarrow> write_pins he key nonce now ks d = (Inr u, d') \<Longrightarrow> db_ok he d'"
proof (induction ks arbitrary: d)
  case (Cons k ks)
  obtain u d1 where w: "write_pin he key (nonce k) now k d = (Inr u, d1)"
    using Cons.prems(2) by (auto split: prod.splits sum.splits)
  then show ?case using Cons.IH[of d1] Cons.prems write_pin_ok[OF Cons.prems(1) w] by simp
qed simp

lemma put_pin_ok:
  assumes "db_ok he d" "fmlookup (db_items d) k = Some r" "\<not> r_deleted r"
    "r' = r\<lparr>r_pinned := p, r_pin_order := o', r_pin_updated_at := t\<rparr>"
  shows "db_ok he (d\<lparr>db_items := fmupd k r' (db_items d)\<rparr>)"
  by (rule ok_but_kept[OF rows_keptI[OF _ assms(2)] assms(1)]) (use assms(3,4) row_kept_pin in auto)

lemma set_pinned_tx_ok:
  assumes "db_ok he d" "set_pinned_tx he order_after key now k pinned d = (Inr b, d')"
  shows "db_ok he d'"
proof (cases "live_item k d")
  case (Some r)
  define d1 where "d1 = (let stamp = max (i64_saturating_add (r_pin_updated_at r) 1) now in
     if pinned
     then (if r_pinned r then d
           else d\<lparr>db_items := fmupd k (r\<lparr>r_pinned := True,
               r_pin_order := Some (order_after (map (\<lambda>(k, r). r_pin_order r) (filter (\<lambda>(k, r). r_pinned r) (live_rows d)))),
               r_pin_updated_at := stamp\<rparr>) (db_items d)\<rparr>)
     else d\<lparr>db_items := fmupd k (r\<lparr>r_pinned := False, r_pin_order := None, r_pin_updated_at := stamp\<rparr>) (db_items d)\<rparr>)"
  have live: "fmlookup (db_items d) k = Some r" "\<not> r_deleted r" using Some by (simp_all add: live_item_Some)
  have d1: "db_ok he d1"
    unfolding d1_def Let_def using assms(1)
    by (cases "pinned \<and> r_pinned r") (auto intro!: put_pin_ok[OF assms(1) live])
  from assms(2) have "d' = d1 \<or> (\<exists>key nonce u. write_pin he key nonce now k d1 = (Inr u, d'))"
    unfolding set_pinned_tx_def Let_def Some option.case d1_def[unfolded Let_def, symmetric]
    by (auto split: option.splits prod.splits sum.splits)
  then show ?thesis using d1 write_pin_ok by blast
qed (use assms in \<open>simp add: set_pinned_tx_def\<close>)

lemma renumber_ok: "db_ok he d \<Longrightarrow> renumber now i ks d = (n, d') \<Longrightarrow> db_ok he d'"
proof (induction ks arbitrary: i d n)
  case (Cons k ks)
  show ?case
  proof (cases "\<exists>r. fmlookup (db_items d) k = Some r \<and> r_pinned r \<and> \<not> r_deleted r")
    case True
    then obtain r where r: "fmlookup (db_items d) k = Some r" "r_pinned r" "\<not> r_deleted r" by blast
    define d1 where "d1 = d\<lparr>db_items := fmupd k (r\<lparr>r_pin_order := Some (f64_of_nat (Suc i)),
      r_pin_updated_at := max (i64_saturating_add (r_pin_updated_at r) 1) now\<rparr>) (db_items d)\<rparr>"
    have "db_ok he d1"
      unfolding d1_def by (rule put_pin_ok[OF Cons.prems(1) r(1,3), where p = "r_pinned r"]) simp
    moreover obtain n' where "renumber now (Suc i) ks d1 = (n', d')"
      using Cons.prems(2) r by (auto simp: d1_def split: prod.splits)
    ultimately show ?thesis using Cons.IH by blast
  next
    case False
    then have "renumber now i (k # ks) d = renumber now (Suc i) ks d" by (auto split: option.splits)
    with Cons show ?thesis by metis
  qed
qed simp

lemma reorder_ok:
  assumes "db_ok he d" "reorder_pinned_tx he key now ids d = (Inr n, d')"
  shows "db_ok he d'"
proof -
  obtain n1 d1 where r: "renumber now 0 (pinned_order ids d) d = (n1, d1)" by fastforce
  from renumber_ok[OF assms(1) r] assms(2) write_pins_ok[of he d1] show ?thesis
    unfolding reorder_pinned_tx_def Let_def r prod.case
    by (auto split: option.splits prod.splits sum.splits)
qed

lemma pin_state_ok:
  assumes "db_ok he d" "apply_pin_state_tx k p o' t d = (Inr b, d')"
  shows "db_ok he d'"
  using assms put_pin_ok[OF assms(1)] by (auto simp: apply_pin_state_tx_def split: option.splits if_splits)

end
