(* ===== verification/History_Runs.thy ===== *)
theory History_Runs
  imports History_Steps
begin

text \<open>
  The contract of each transaction, discharged; the step relation \<open>history_step\<close> over all of them;
  that a run of the merge, with other connections writing between its transactions, moves the
  database only by such steps; and what storing a version does to the merge keys.
\<close>

section \<open>The transactions meet their contract\<close>

lemma prepared:
  assumes "prepare_remote_version he key here rnd inc pin mine = Inr (Some ready)"
  shows "in_id ready = ro_item_id inc" "in_created_at ready = ro_created_at inc" "in_deleted ready = ro_deleted inc"
    "in_origin ready = ro_origin_device_id inc" "in_content_hash ready = decided_hash he inc mine"
    "\<exists>sealed. seal_incoming he key rnd inc = Inr sealed \<and> in_ciphertext ready = map_option snd sealed
       \<and> in_nonce ready = map_option fst sealed"
    "\<And>l. mine = Some l \<Longrightarrow> merge_decision (stored_summary l here) (origin_or (v_origin_device_id l) here)
         (remote_summary inc (decided_hash he inc mine) (map_option fst pin)) (ro_origin_device_id inc) = TakeRemote"
proof -
  note code = assms[unfolded prepare_remote_version_def Let_def]
  define keep where "keep \<longleftrightarrow> (case mine of None \<Rightarrow> False
    | Some l \<Rightarrow> merge_decision (stored_summary l here) (origin_or (v_origin_device_id l) here)
        (remote_summary inc (decided_hash he inc mine) (map_option fst pin)) (ro_origin_device_id inc) = KeepLocal)"
  have branch: "\<not> keep" and sealed: "\<exists>sealed. seal_incoming he key rnd inc = Inr sealed"
    using code unfolding keep_def[symmetric] by (cases "seal_incoming he key rnd inc"; simp split: if_splits)+
  from branch show "\<And>l. mine = Some l \<Longrightarrow> merge_decision (stored_summary l here) (origin_or (v_origin_device_id l) here)
         (remote_summary inc (decided_hash he inc mine) (map_option fst pin)) (ro_origin_device_id inc) = TakeRemote"
    unfolding keep_def by (auto intro: ccontr)
  from sealed obtain sl where sl: "seal_incoming he key rnd inc = Inr sl" by blast
  show "in_id ready = ro_item_id inc" "in_created_at ready = ro_created_at inc" "in_deleted ready = ro_deleted inc"
    "in_origin ready = ro_origin_device_id inc" "in_content_hash ready = decided_hash he inc mine"
    "\<exists>sealed. seal_incoming he key rnd inc = Inr sealed \<and> in_ciphertext ready = map_option snd sealed
       \<and> in_nonce ready = map_option fst sealed"
    using code unfolding keep_def[symmetric] sl by (simp split: if_splits prod.splits; auto)+
qed

lemma prepared_type:
  assumes "prepare_remote_version he key here rnd inc pin mine = Inr (Some ready)"
  shows "in_content_type ready = ro_content_type inc"
proof -
  from prepared(6)[OF assms] obtain sl where sl: "seal_incoming he key rnd inc = Inr sl" by blast
  show ?thesis using assms unfolding prepare_remote_version_def Let_def sl by (simp split: if_splits prod.splits; auto)
qed

lemma prepared_ok:
  assumes "prepare_remote_version he key here rnd inc pin mine = Inr (Some ready)"
  shows "incoming_ok ready"
  using prepared(3,6)[OF assms] by (cases "ro_deleted inc") (auto simp: incoming_ok_def seal_incoming_def Let_def)

text \<open>What the loop over a page keeps of the versions decided so far and the writes collected.\<close>

lemma prepare_loop_keeps:
  assumes "prepare_loop he key here rnd pins index incs local done slots pin_only = Inr (writes, slots', pin_only')"
    and "I local done"
    and "\<And>inc rnd pin ready local done. inc \<in> set incs \<Longrightarrow> I local done \<Longrightarrow>
      prepare_remote_version he key here rnd inc pin (fmlookup local (ro_item_id inc)) = Inr (Some ready) \<Longrightarrow>
      I (fmupd (ro_item_id inc) (as_version ready here) local) (done @ [ready])"
  shows "\<exists>local'. I local' writes"
  using assms
proof (induction incs arbitrary: index local "done" slots pin_only)
  case Nil
  then show ?case by auto
next
  case (Cons inc incs)
  show ?case
  proof (cases "payload_is_refused he inc")
    case True
    with Cons.prems Cons.IH show ?thesis by simp
  next
    case False
    define mine where "mine = fmlookup local (ro_item_id inc)"
    define pin where "pin = map_option (\<lambda>pins. (pins ! index, remote_pin_wins here inc (pins ! index) mine)) pins"
    note step = Cons.prems(1)[simplified prepare_loop.simps Let_def if_not_P[OF False], folded mine_def, folded pin_def]
    show ?thesis
    proof (cases "prepare_remote_version he key here (rnd index) inc pin mine")
      case (Inr r)
      show ?thesis
      proof (cases r)
        case None
        then show ?thesis using step Inr Cons.IH Cons.prems(2,3) by simp
      next
        case (Some ready)
        have "I (fmupd (ro_item_id inc) (as_version ready here) local) (done @ [ready])"
          by (rule Cons.prems(3)[OF _ Cons.prems(2) Inr[unfolded Some mine_def]]) simp
        then show ?thesis using step Inr Some Cons.IH Cons.prems(3) by simp
      qed
    qed (use step in simp)
  qed
qed

lemma prepare_page_ok:
  assumes "prepare_page he key here rnd incoming pins snapshot = Inr (writes, slots, pin_only)"
  shows "list_all incoming_ok writes"
  using prepare_loop_keeps[OF assms[unfolded prepare_page_def], where I = "\<lambda>_. list_all incoming_ok"] prepared_ok by auto

lemma page_ok:
  assumes "prepare_page he key here rnd incoming pins snapshot = Inr (writes, slots, pin_only)"
    "db_ok he d" "merge_page_tx he ids snapshot writes d = (Inr bs, d')"
  shows "db_ok he d'"
proof -
  have "list_all incoming_ok writes" by (rule prepare_page_ok[OF assms(1)])
  moreover have "upsert_rows he writes d = (Inr bs, d')"
    using assms(3) by (auto simp: merge_page_tx_def Let_def split: if_splits prod.splits sum.splits)
  ultimately show ?thesis by (rule upsert_rows_ok[OF assms(2)])
qed

interpretation merged_page: sound_transaction he
  "prepare_page he key here rnd incoming pins snapshot = Inr (writes, slots, pin_only)"
  "merge_page_tx he ids snapshot writes" for he key here rnd incoming pins snapshot writes slots pin_only ids
  by unfold_locales (rule page_ok)

interpretation merged_one: sound_transaction he "incoming_ok inc" "upsert_tx he inc" for he inc
  by unfold_locales (rule upsert_tx_ok)

interpretation pin_state: sound_transaction he True "apply_pin_state_tx k p q t" for he k p q t
  by unfold_locales (rule pin_state_ok)

interpretation captured: sound_transaction he "json_ok (he_payload he) \<and> \<not> is_record_id (ni_id item)"
  "insert_or_bump_tx he item body sealed" for he item body sealed
  by unfold_locales (blast intro: insert_or_bump_ok)

interpretation promoted: sound_transaction he True "promote_copied_tx k t" for he k t
  by unfold_locales (rule promote_ok)

interpretation deleted: sound_transaction he True "delete_tx now k" for he now k
  by unfold_locales (rule delete_tx_ok)

interpretation cleared: sound_transaction he True "delete_all_through_tx now through" for he now through
  by unfold_locales (rule delete_all_through_ok)

interpretation concealed: sound_transaction he "json_ok (he_payload he)" "set_secret_tx he key now k secret"
  for he key now k secret
  by unfold_locales (rule set_secret_tx_ok)

interpretation placed: sound_transaction he True "set_pinned_tx he order_after key now k on" for he order_after key now k on
  by unfold_locales (rule set_pinned_tx_ok)

interpretation reordered: sound_transaction he True "reorder_pinned_tx he key now ids" for he key now ids
  by unfold_locales (rule reorder_ok)

interpretation recorded: sound_transaction he True "org_write he key nonce now r" for he key nonce now r
  by unfold_locales (rule org_write_ok)

interpretation capped: sound_transaction he True "evict_over_cap_tx cap" for he cap
  by unfold_locales (rule evict_ok(1))

interpretation shrunk: sound_transaction he True "evict_over_byte_cap_tx cap" for he cap
  by unfold_locales (rule evict_ok(2))

interpretation aged: sound_transaction he True "evict_batch_tx cutoff" for he cutoff
  by unfold_locales (rule evict_ok(3))

section \<open>Histories\<close>

definition empty_db :: db where
  "empty_db = \<lparr>db_items = fmempty, db_orgs = fmempty, db_tags = fmempty, db_clip_tags = fmempty, db_pins = fmempty,
     db_icons = fmempty, db_fts = fmempty, db_documents = {||}, db_vectors = {||}, db_blobs = fmempty, db_links = fmempty\<rparr>"

inductive history_step :: "history_env \<Rightarrow> db \<Rightarrow> db \<Rightarrow> bool" for he where
  step_page: "prepare_page he key here rnd incoming pins snapshot = Inr (writes, slots, pin_only) \<Longrightarrow>
    merge_page_tx he (map ro_item_id incoming) snapshot writes d = (Inr bs, d') \<Longrightarrow> history_step he d d'"
| step_one: "prepare_remote_version he key here rnd' inc pin mine = Inr (Some ready) \<Longrightarrow>
    upsert_tx he ready d = (Inr b, d') \<Longrightarrow> history_step he d d'"
| step_pin_state: "apply_pin_state_tx k p q t d = (Inr b, d') \<Longrightarrow> history_step he d d'"
| step_capture: "\<not> is_record_id (ni_id item) \<Longrightarrow> insert_or_bump_tx he item body sealed d = (Inr a, d') \<Longrightarrow> history_step he d d'"
| step_promote: "promote_copied_tx k t d = (Inr u, d') \<Longrightarrow> history_step he d d'"
| step_delete: "delete_tx now k d = (Inr b, d') \<Longrightarrow> history_step he d d'"
| step_clear: "delete_all_through_tx now through d = (Inr n, d') \<Longrightarrow> history_step he d d'"
| step_conceal: "set_secret_tx he key now k secret d = (Inr b, d') \<Longrightarrow> history_step he d d'"
| step_pin: "set_pinned_tx he order_after sync now k on d = (Inr b, d') \<Longrightarrow> history_step he d d'"
| step_reorder: "reorder_pinned_tx he syncs now ids d = (Inr n, d') \<Longrightarrow> history_step he d d'"
| step_record: "org_write he key nonce now r d = (Inr x, d') \<Longrightarrow> history_step he d d'"
| step_cap: "evict_over_cap_tx cap d = (Inr n, d') \<Longrightarrow> history_step he d d'"
| step_shrink: "evict_over_byte_cap_tx cap d = (Inr n, d') \<Longrightarrow> history_step he d d'"
| step_age: "evict_batch_tx cutoff d = (Inr m, d') \<Longrightarrow> history_step he d d'"

lemma history_step_ok:
  assumes "history_step he d d'" "json_ok (he_payload he)" "db_ok he d"
  shows "db_ok he d'"
  using assms
proof (cases rule: history_step.cases)
  case step_page
  then show ?thesis using merged_page.keeps[OF _ assms(3)] by blast
next
  case step_one
  then show ?thesis using merged_one.keeps[OF prepared_ok assms(3)] by blast
next
  case step_pin_state
  then show ?thesis using pin_state.keeps[OF TrueI assms(3)] by blast
next
  case step_capture
  then show ?thesis using captured.keeps[OF _ assms(3)] assms(2) by blast
next
  case step_promote
  then show ?thesis using promoted.keeps[OF TrueI assms(3)] by blast
next
  case step_delete
  then show ?thesis using deleted.keeps[OF TrueI assms(3)] by blast
next
  case step_clear
  then show ?thesis using cleared.keeps[OF TrueI assms(3)] by blast
next
  case step_conceal
  then show ?thesis using concealed.keeps[OF assms(2,3)] by blast
next
  case step_pin
  then show ?thesis using placed.keeps[OF TrueI assms(3)] by blast
next
  case step_reorder
  then show ?thesis using reordered.keeps[OF TrueI assms(3)] by blast
next
  case step_record
  then show ?thesis using recorded.keeps[OF TrueI assms(3)] by blast
next
  case step_cap
  then show ?thesis using capped.keeps[OF TrueI assms(3)] by blast
next
  case step_shrink
  then show ?thesis using shrunk.keeps[OF TrueI assms(3)] by blast
next
  case step_age
  then show ?thesis using aged.keeps[OF TrueI assms(3)] by blast
qed

lemma empty_db_ok: "db_ok he empty_db"
  by (simp add: ok_but_def owner_def indexed_at_def unique_ok_def orgs_ok_def empty_db_def)

lemma history_ok:
  assumes "(history_step he)\<^sup>*\<^sup>* empty_db d" "json_ok (he_payload he)"
  shows "db_ok he d"
  using assms(1) by induction (use empty_db_ok history_step_ok assms(2) in blast)+

section \<open>Runs of the merge\<close>

definition others_step :: "history_env \<Rightarrow> store \<Rightarrow> bool" where
  "others_step he s \<longleftrightarrow> (\<forall>ev \<in> set (st_script s). \<forall>d. (history_step he)\<^sup>*\<^sup>* d (te_others ev d))"

definition db_moves :: "history_env \<Rightarrow> store \<Rightarrow> store \<Rightarrow> bool" where
  "db_moves he s s' \<longleftrightarrow> (history_step he)\<^sup>*\<^sup>* (st_db s) (st_db s') \<and> set (st_script s') \<subseteq> set (st_script s)"

lemma db_moves_refl [simp]: "db_moves he s s"
  by (simp add: db_moves_def)

lemma db_moves_trans: "db_moves he a b \<Longrightarrow> db_moves he b c \<Longrightarrow> db_moves he a c"
  unfolding db_moves_def by (meson rtranclp_trans subset_trans)

lemma db_moves_others: "db_moves he s s' \<Longrightarrow> others_step he s \<Longrightarrow> others_step he s'"
  unfolding db_moves_def others_step_def by blast

lemma transact_moves:
  assumes "others_step he s" "\<And>d a d'. op d = (Inr a, d') \<Longrightarrow> (history_step he)\<^sup>*\<^sup>* d d'"
    "transact op wrap s = (res, s')"
  shows "db_moves he s s'"
proof -
  have "set (st_script s') \<subseteq> set (st_script s)"
    using assms(3) by (auto simp: transact_def Let_def split: list.splits option.splits prod.splits sum.splits)
  moreover obtain d where "(history_step he)\<^sup>*\<^sup>* (st_db s) d" "st_db s' = d \<or> (\<exists>a. op d = (Inr a, st_db s'))"
    using transact_db[of s op wrap] assms(1,3) by (auto simp: others_step_def)
  ultimately show ?thesis using assms(2) unfolding db_moves_def by (meson rtranclp_trans)
qed

lemma read_moves: "others_step he s \<Longrightarrow> read f s = (res, s') \<Longrightarrow> db_moves he s s'"
  unfolding read_def by (rule transact_moves) auto

lemma summaries_moves: "others_step he s \<Longrightarrow> version_summaries ids s = (res, s') \<Longrightarrow> db_moves he s s'"
  by (auto simp: version_summaries_def dest: read_moves split: if_splits)

lemma local_version_moves: "others_step he s \<Longrightarrow> local_version k s = (res, s') \<Longrightarrow> db_moves he s s'"
  by (cases "read (\<lambda>d. version_summary d k) s")
     (auto simp: local_version_def dest: read_moves split: sum.splits)

lemma pin_moves: "others_step he s \<Longrightarrow> apply_pin_state k p q t s = (res, s') \<Longrightarrow> db_moves he s s'"
  unfolding apply_pin_state_def by (rule transact_moves) (auto intro: step_pin_state)

lemma with_pin_state_moves:
  assumes "others_step he s" "apply_with_pin_state he key here rnd inc pin mine s = (res, s')"
  shows "db_moves he s s'"
proof (cases "prepare_remote_version he key here rnd inc pin mine")
  case (Inr r)
  show ?thesis
  proof (cases r)
    case (Some ready)
    obtain x s1 where u: "store_upsert he ready s = (x, s1)" by fastforce
    have "db_moves he s s1"
      by (rule transact_moves[OF assms(1) _ u[unfolded store_upsert_def]]) (auto intro: step_one[OF Inr[unfolded Some]])
    then show ?thesis using assms(2) Inr Some u by (auto simp: apply_with_pin_state_def split: sum.splits)
  qed (use assms(2) Inr in \<open>simp add: apply_with_pin_state_def\<close>)
qed (use assms(2) in \<open>simp add: apply_with_pin_state_def\<close>)

lemma apply_one_moves:
  assumes "others_step he s" "apply_remote_version he key here rnd inc s = (res, s')"
  shows "db_moves he s s'"
proof -
  obtain x s1 where l: "local_version (ro_item_id inc) s = (x, s1)" by fastforce
  note m = local_version_moves[OF assms(1) l]
  from m with_pin_state_moves[OF db_moves_others[OF m assms(1)]] db_moves_trans[OF m] assms(2) l show ?thesis
    by (cases x) (auto simp: apply_remote_version_def split: if_splits)
qed

lemma apply_p2p_moves:
  assumes "others_step he s" "apply_remote_p2p_version he key here rnd inc pin s = (res, s')"
  shows "db_moves he s s'"
proof -
  obtain x s1 where l: "local_version (ro_item_id inc) s = (x, s1)" by fastforce
  note m1 = local_version_moves[OF assms(1) l] and o1 = db_moves_others[OF local_version_moves[OF assms(1) l] assms(1)]
  show ?thesis
  proof (cases x)
    case (Inr mine)
    define wins where "wins = remote_pin_wins here inc pin mine"
    obtain y s2 where w: "(if payload_is_refused he inc then (Inr False, s1)
        else apply_with_pin_state he key here rnd inc (Some (pin, wins)) mine s1) = (y, s2)" by fastforce
    have m2: "db_moves he s1 s2" using w with_pin_state_moves[OF o1] by (auto split: if_splits)
    note code = assms(2)[unfolded apply_remote_p2p_version_def l prod.case Inr sum.case Let_def, folded wins_def, unfolded w prod.case]
    obtain p q t where pin: "pin = (p, q, t)" by (cases pin) auto
    obtain z s3 where a: "apply_pin_state (ro_item_id inc) p q t s2 = (z, s3)" by fastforce
    have m3: "db_moves he s2 s3" by (rule pin_moves[OF db_moves_others[OF m2 o1] a])
    have "s' = s2 \<or> s' = s3"
      using code by (cases y; cases z) (auto simp: pin a split: if_splits)
    then show ?thesis using m1 m2 m3 db_moves_trans by blast
  qed (use assms(2) l m1 in \<open>simp add: apply_remote_p2p_version_def\<close>)
qed

lemma pin_only_moves:
  "others_step he s \<Longrightarrow> apply_pin_only incoming pins ixs applied s = (res, s') \<Longrightarrow> db_moves he s s'"
proof (induction ixs arbitrary: applied s)
  case (Cons i ixs)
  obtain p q t where pin: "the pins ! i = (p, q, t)" by (cases "the pins ! i") auto
  obtain z s1 where a: "apply_pin_state (ro_item_id (incoming ! i)) p q t s = (z, s1)" by fastforce
  note m = pin_moves[OF Cons.prems(1) a]
  show ?case
    using Cons.prems Cons.IH[OF db_moves_others[OF m Cons.prems(1)]] Cons.IH[OF Cons.prems(1)] db_moves_trans[OF m] m a pin
    by (cases z) (auto split: if_splits)
qed simp

lemma redo_moves:
  "others_step he s \<Longrightarrow> redo_loop he key here rnd pins refused index incs applied s = (res, s') \<Longrightarrow> db_moves he s s'"
proof (induction incs arbitrary: index applied s)
  case (Cons inc incs)
  define again where "again = (case pins of
      Some pins \<Rightarrow> apply_remote_p2p_version he key here (rnd index) inc (pins ! index) s
    | None \<Rightarrow> (case apply_remote_version he key here (rnd index) inc s of
         (Inl e, s) \<Rightarrow> (Inl e, s) | (Inr b, s) \<Rightarrow> (Inr \<lparr>ap_content = b, ap_pin = False\<rparr>, s)))"
  obtain z s1 where a: "again = (z, s1)" by fastforce
  have m: "db_moves he s s1"
    using a apply_p2p_moves[OF Cons.prems(1)] apply_one_moves[OF Cons.prems(1)]
    by (auto simp: again_def split: option.splits prod.splits sum.splits)
  note code = Cons.prems(2)[unfolded redo_loop.simps, folded again_def, unfolded a prod.case]
  show ?case
  proof (cases "apply_any (applied ! index)
      \<or> (case fmlookup refused (ro_item_id inc) of None \<Rightarrow> True | Some first \<Rightarrow> index \<le> first)")
    case True
    then show ?thesis using Cons.IH[OF Cons.prems(1)] code by simp
  next
    case False
    then show ?thesis
      using code m Cons.IH[OF db_moves_others[OF m Cons.prems(1)]] db_moves_trans[OF m] by (cases z) auto
  qed
qed simp

lemma after_page_moves:
  assumes "others_step he s" "after_page he key here rnd incoming pins slots pin_only written s = (res, s')"
  shows "db_moves he s s'"
proof -
  obtain x s1 where a: "apply_pin_only incoming pins pin_only (map (slot_flags (pins \<noteq> None) written) slots) s = (x, s1)"
    by fastforce
  note m = pin_only_moves[OF assms(1) a]
  show ?thesis
  proof (cases x)
    case (Inr applied)
    have "db_moves he s1 s'"
      using assms(2)[unfolded after_page_def a prod.case Inr sum.case redo_after_refusals_def Let_def]
        redo_moves[OF db_moves_others[OF m assms(1)]]
      by (auto split: if_splits)
    then show ?thesis by (rule db_moves_trans[OF m])
  qed (use assms(2)[unfolded after_page_def a] m in simp)
qed

lemma attempts_moves:
  "others_step he s \<Longrightarrow> page_attempts n he key here rnd incoming pins snapshot s = (res, s') \<Longrightarrow> db_moves he s s'"
proof (induction n arbitrary: snapshot s)
  case (Suc n)
  show ?case
  proof (cases "prepare_page he key here (rnd n) incoming pins snapshot")
    case (Inr p)
    obtain writes slots pin_only where p: "p = (writes, slots, pin_only)" by (cases p) auto
    obtain x s1 where g: "merge_page he (map ro_item_id incoming) snapshot writes s = (x, s1)" by fastforce
    have m: "db_moves he s s1"
      by (rule transact_moves[OF Suc.prems(1) _ g[unfolded merge_page_def]]) (auto intro: step_page[OF Inr[unfolded p]])
    note o1 = db_moves_others[OF m Suc.prems(1)]
    note code = Suc.prems(2)[unfolded page_attempts.simps Inr sum.case p prod.case g]
    show ?thesis
    proof (cases x)
      case (Inl e)
      then show ?thesis using code m Suc.IH[OF o1] db_moves_trans[OF m] by (cases e) auto
    next
      case (Inr written)
      then show ?thesis using code m after_page_moves[OF o1] db_moves_trans[OF m] by (auto split: if_splits)
    qed
  qed (use Suc.prems in simp)
qed simp

lemma page_moves:
  assumes "others_step he s" "apply_page he key here rnd incoming pins s = (res, s')"
  shows "db_moves he s s'"
proof -
  obtain x s1 where v: "version_summaries (map ro_item_id incoming) s = (x, s1)" by fastforce
  note m = summaries_moves[OF assms(1) v]
  show ?thesis
    using assms(2) v m attempts_moves[OF db_moves_others[OF m assms(1)]] db_moves_trans[OF m]
    by (cases x) (auto simp: apply_page_def split: if_splits)
qed

section \<open>Merge keys\<close>

definition version_key :: "string \<Rightarrow> version \<Rightarrow> int \<times> string \<times> bool \<times> string" where
  "version_key here v = content_key (stored_summary v here)"

lemma version_key_eq:
  "version_key here v = (v_created_at v, v_content_hash v, v_deleted v, origin_or (v_origin_device_id v) here)"
  by (simp add: version_key_def content_key_def stored_summary_def)

lemma key_mono: "a \<le> b \<Longrightarrow> (a, x) \<le> (b, x)" "x \<le> y \<Longrightarrow> (a, x) \<le> (a, y)" for a b :: "'a :: linorder" and x y :: "'b :: linorder"
  by (auto simp: less_eq_prod_def)

lemma prepared_wins:
  assumes "prepare_remote_version he key here rnd inc pin (Some l) = Inr (Some ready)"
  shows "version_key here l < version_key here (as_version ready here)"
proof -
  note p = prepared[OF assms]
  have "version_key here l < (ro_created_at inc, decided_hash he inc (Some l), ro_deleted inc, ro_origin_device_id inc)"
    using p(7)[OF refl] by (simp add: merge_decision_iff version_key_eq stored_summary_def remote_summary_def)
  also have "\<dots> \<le> version_key here (as_version ready here)"
    by (auto simp: version_key_eq as_version_def p origin_or_def intro!: key_mono(2))
  finally show ?thesis .
qed

text \<open>Every write of a page beats the version of its id in the snapshot.\<close>

definition beats :: "string \<Rightarrow> (string, version) fmap \<Rightarrow> incoming_item \<Rightarrow> bool" where
  "beats here snapshot w \<longleftrightarrow>
     (case fmlookup snapshot (in_id w) of None \<Rightarrow> True | Some v \<Rightarrow> version_key here v < version_key here (as_version w here))"

definition ahead :: "string \<Rightarrow> (string, version) fmap \<Rightarrow> (string, version) fmap \<Rightarrow> bool" where
  "ahead here snapshot local \<longleftrightarrow>
     (\<forall>k v. fmlookup snapshot k = Some v \<longrightarrow> (\<exists>v'. fmlookup local k = Some v' \<and> version_key here v \<le> version_key here v'))"

lemma prepared_ahead:
  assumes "ahead here snapshot local"
    and "prepare_remote_version he key here rnd inc pin (fmlookup local (ro_item_id inc)) = Inr (Some ready)"
  shows "ahead here snapshot (fmupd (ro_item_id inc) (as_version ready here) local)" "beats here snapshot ready"
proof -
  have below: "version_key here v < version_key here (as_version ready here)"
    if "fmlookup snapshot (ro_item_id inc) = Some v" for v
  proof -
    from assms(1) that obtain l where l: "fmlookup local (ro_item_id inc) = Some l" "version_key here v \<le> version_key here l"
      unfolding ahead_def by blast
    from le_less_trans[OF l(2) prepared_wins[OF assms(2)[unfolded l(1)]]] show ?thesis .
  qed
  then show "ahead here snapshot (fmupd (ro_item_id inc) (as_version ready here) local)"
    using assms(1) unfolding ahead_def by (auto intro: less_imp_le)
  show "beats here snapshot ready"
    using below unfolding beats_def prepared(1)[OF assms(2)] by (auto split: option.split)
qed

lemma prepare_page_beats:
  assumes "prepare_page he key here rnd incoming pins snapshot = Inr (writes, slots, pin_only)"
    "list_all (\<lambda>inc. ro_created_at inc \<le> i64_max) incoming" "w \<in> set writes"
  shows "beats here snapshot w" "in_created_at w \<le> i64_max" "in_id w \<in> set (map ro_item_id incoming)"
proof -
  define I where "I local ws \<longleftrightarrow> ahead here snapshot local
    \<and> (\<forall>w \<in> set ws. beats here snapshot w \<and> in_created_at w \<le> i64_max \<and> in_id w \<in> set (map ro_item_id incoming))" for local ws
  have "\<exists>local'. I local' writes"
  proof (rule prepare_loop_keeps[OF assms(1)[unfolded prepare_page_def]])
    show "I snapshot []" by (auto simp: I_def ahead_def)
    show "I (fmupd (ro_item_id inc) (as_version ready here) local) (done @ [ready])"
      if "inc \<in> set incoming" "I local done"
        "prepare_remote_version he key here rnd inc pin (fmlookup local (ro_item_id inc)) = Inr (Some ready)"
      for inc rnd pin ready local "done"
      using that(1,2) prepared_ahead[OF _ that(3)] prepared(1,2)[OF that(3)] assms(2)
      by (auto simp: I_def list_all_iff)
  qed
  then show "beats here snapshot w" "in_created_at w \<le> i64_max" "in_id w \<in> set (map ro_item_id incoming)"
    using assms(3) by (auto simp: I_def)
qed

text \<open>Storing a version changes no key but that of its id, and that one to at least its own.\<close>

definition key_at :: "string \<Rightarrow> db \<Rightarrow> string \<Rightarrow> (int \<times> string \<times> bool \<times> string) option" where
  "key_at here d k = map_option (version_key here) (summary_for d k)"

lemma key_at_item:
  "key_at here d k =
     (case fmlookup (db_orgs d) k of
        Some o' \<Rightarrow> Some (o_created_at o', o_content_hash o', False, origin_or (o_origin o') here)
      | None \<Rightarrow> map_option (\<lambda>r. (r_created_at r, r_content_hash r, r_deleted r, origin_or (r_origin r) here))
                  (fmlookup (db_items d) k))"
  by (auto simp: key_at_def summary_for_def version_key_eq item_version_def org_version_def option.map_comp comp_def
      split: option.split)

lemma kept_row_key:
  assumes "rows_kept d d'"
  shows "map_option (\<lambda>r. (r_created_at r, r_content_hash r, r_deleted r, origin_or (r_origin r) here)) (fmlookup (db_items d') k)
    = map_option (\<lambda>r. (r_created_at r, r_content_hash r, r_deleted r, origin_or (r_origin r) here)) (fmlookup (db_items d) k)"
proof -
  have "rel_option (row_kept k) (fmlookup (db_items d) k) (fmlookup (db_items d') k)"
    using assms by (simp add: rows_kept_def)
  then show ?thesis by (rule option.rel_cases) (simp_all add: row_kept_def dedup_key_def)
qed

lemma key_at_kept:
  assumes "rows_kept d d'" "db_orgs d' = db_orgs d"
  shows "key_at here d' k = key_at here d k"
  unfolding key_at_item assms(2) kept_row_key[OF assms(1)] by (rule refl)

lemma key_at_cong: "db_items d' = db_items d \<Longrightarrow> db_orgs d' = db_orgs d \<Longrightarrow> key_at here d' k = key_at here d k"
  by (simp add: key_at_item split: option.split)

lemma key_at_put:
  assumes "orgs_ok d" "\<not> is_record_id k"
  shows "key_at here (put_item k r d) j =
    (if j = k then Some (r_created_at r, r_content_hash r, r_deleted r, origin_or (r_origin r) here) else key_at here d j)"
proof -
  have "fmlookup (db_orgs d) k = None" using assms by (auto simp: orgs_ok_def)
  then show ?thesis by (simp add: key_at_item split: option.split)
qed

lemma item_upsert_key:
  assumes "item_upsert_in_tx he inc d = (Inr True, d')" "orgs_ok d" "\<not> is_record_id (in_id inc)" "in_created_at inc \<le> i64_max"
  shows "j \<noteq> in_id inc \<Longrightarrow> key_at here d' j = key_at here d j"
    and "\<exists>q. key_at here d' (in_id inc) = Some q \<and> version_key here (as_version inc here) \<le> q"
proof -
  let ?k = "in_id inc"
  from assms(1) obtain m t i d1 d2 d3 n secret where *:
    "rows_kept (delete_fts_row ?k d) d1" "db_orgs d1 = db_orgs d"
    "t = in_created_at inc \<or> t = i64_saturating_add (in_created_at inc) 1"
    "d2 = (if secret then drop_module_index ?k d1 else d1)"
    "index_incoming inc secret d2 = (n, d3)" "write_incoming inc (upsert_row inc m t i n d3) d3 = (Inr True, d')"
    by (rule item_upsert_True) blast
  have sel: "db_items d3 = db_items d1" "db_orgs d3 = db_orgs d"
    by (rule index_incoming_cases[OF *(5)]; use *(2,4) insert_fts_sel(1,2) in fastforce)+
  let ?p = "put_item ?k (upsert_row inc m t i n d3) d3"
  have "key_at here d' j = key_at here (apply_pin_projection ?k ?p) j" for j
    by (rule key_at_cong) (simp_all add: write_incoming_True(3,4)[OF *(6)])
  also have "\<dots> j = key_at here ?p j" for j by (rule key_at_kept[OF pin_projection_kept]) simp
  finally have d': "key_at here d' j = key_at here ?p j" for j .
  have orgs: "orgs_ok d3" using assms(2) by (simp add: orgs_ok_def sel)
  have "key_at here d3 j = key_at here d1 j" for j by (rule key_at_cong) (simp_all add: sel *(2))
  also have "\<dots> j = key_at here (delete_fts_row ?k d) j" for j by (rule key_at_kept[OF *(1)]) (simp add: *(2))
  also have "\<dots> j = key_at here d j" for j by (rule key_at_cong) simp_all
  finally have d3: "key_at here d3 j = key_at here d j" for j .
  show "j \<noteq> ?k \<Longrightarrow> key_at here d' j = key_at here d j"
    by (simp add: d' key_at_put[OF orgs assms(3)] d3)
  have "in_created_at inc \<le> t" using *(3) assms(4) by (auto simp: i64_saturating_add_def)
  then show "\<exists>q. key_at here d' ?k = Some q \<and> version_key here (as_version inc here) \<le> q"
    by (auto simp: d' key_at_put[OF orgs assms(3)] version_key_eq as_version_def origin_or_def intro!: key_mono(1))
qed

lemma project_record_sel [simp]: "db_orgs (project_record r t d) = db_orgs d"
  by (cases r) (simp_all add: project_record_def)

lemma project_record_kept: "rows_kept d (project_record r t d)"
proof (cases r)
  case (OrgPin clip p q)
  let ?d = "d\<lparr>db_pins := fmupd clip \<lparr>p_pinned = p, p_order = q, p_updated_at = t\<rparr> (db_pins d)\<rparr>"
  have "rows_kept ?d (apply_pin_projection clip ?d)" by (rule pin_projection_kept)
  then show ?thesis unfolding OrgPin by (simp add: project_record_def rows_kept_def orgs_ok_def)
qed (simp_all add: project_record_def rows_kept_def orgs_ok_def option.rel_refl)

lemma org_upsert_key:
  assumes "org_upsert_in_tx he inc d = (Inr True, d')" "in_content_type inc = org_content_type"
  shows "j \<noteq> in_id inc \<Longrightarrow> key_at here d' j = key_at here d j"
    and "\<exists>q. key_at here d' (in_id inc) = Some q \<and> version_key here (as_version inc here) \<le> q"
proof -
  let ?k = "in_id inc"
  from assms(1) obtain r c n body where
    d': "d' = project_record r (in_created_at inc) (d\<lparr>db_orgs := fmupd ?k
       \<lparr>o_ciphertext = c, o_nonce = n, o_content_hash = in_content_hash inc, o_created_at = in_created_at inc,
        o_origin = in_origin inc\<rparr> (db_orgs d)\<rparr>)"
    and body: "valid_wire he ?k (in_content_type inc) body (in_deleted inc)"
    by (auto simp: org_upsert_in_tx_def split: option.splits if_splits)
  have k: "key_at here d' j = key_at here (d\<lparr>db_orgs := fmupd ?k
       \<lparr>o_ciphertext = c, o_nonce = n, o_content_hash = in_content_hash inc, o_created_at = in_created_at inc,
        o_origin = in_origin inc\<rparr> (db_orgs d)\<rparr>) j" for j
    unfolding d' by (rule key_at_kept[OF project_record_kept]) simp
  show "j \<noteq> ?k \<Longrightarrow> key_at here d' j = key_at here d j" unfolding k by (simp add: key_at_item split: option.split)
  have "\<not> in_deleted inc" using body assms(2) by (simp add: valid_wire_def)
  then show "\<exists>q. key_at here d' ?k = Some q \<and> version_key here (as_version inc here) \<le> q"
    unfolding k by (simp add: key_at_item version_key_eq as_version_def origin_or_def)
qed

lemma upsert_tx_key:
  assumes "upsert_tx he w d = (Inr b, d')" "orgs_ok d" "in_created_at w \<le> i64_max" "key_at here d k = Some q"
  shows "\<exists>q'. key_at here d' k = Some q' \<and> (q' = q \<or> k = in_id w \<and> version_key here (as_version w here) \<le> q')"
proof (cases "d' = d")
  case False
  with assms(1) have u: "upsert_in_tx he w d = (Inr True, d')"
    by (auto simp: upsert_tx_def split: prod.splits sum.splits bool.splits)
  have "(k \<noteq> in_id w \<longrightarrow> key_at here d' k = key_at here d k)
      \<and> (\<exists>q. key_at here d' (in_id w) = Some q \<and> version_key here (as_version w here) \<le> q)"
  proof (cases "in_content_type w = org_content_type")
    case True
    with u have "org_upsert_in_tx he w d = (Inr True, d')" by (simp add: upsert_in_tx_def)
    from org_upsert_key[OF this True] show ?thesis by blast
  next
    case False
    with u have "item_upsert_in_tx he w d = (Inr True, d')" "\<not> is_record_id (in_id w)"
      by (auto simp: upsert_in_tx_def split: if_splits)
    from item_upsert_key[OF this(1) assms(2) this(2) assms(3)] show ?thesis by blast
  qed
  then show ?thesis using assms(4) by (cases "k = in_id w") auto
qed (use assms in simp)

lemma upsert_rows_key:
  assumes "upsert_rows he ws d = (Inr bs, d')" "db_ok he d" "list_all incoming_ok ws"
    "list_all (\<lambda>w. in_created_at w \<le> i64_max) ws" "key_at here d k = Some q"
  shows "\<exists>q'. key_at here d' k = Some q' \<and> (q' = q \<or> (\<exists>w \<in> set ws. k = in_id w \<and> version_key here (as_version w here) \<le> q'))"
  using assms
proof (induction ws arbitrary: d bs q)
  case (Cons w ws)
  obtain b d1 where u: "upsert_tx he w d = (Inr b, d1)"
    using Cons.prems(1) by (auto split: prod.splits sum.splits)
  obtain cs where r: "upsert_rows he ws d1 = (Inr cs, d')"
    using Cons.prems(1) by (auto simp: u split: prod.splits sum.splits)
  have "in_created_at w \<le> i64_max" using Cons.prems(4) by simp
  from upsert_tx_key[OF u ok_butD(4)[OF Cons.prems(2)] this Cons.prems(5)] obtain q1 where
    q1: "key_at here d1 k = Some q1" "q1 = q \<or> k = in_id w \<and> version_key here (as_version w here) \<le> q1" by blast
  have "db_ok he d1" using upsert_tx_ok[OF Cons.prems(2) _ u] Cons.prems(3) by simp
  from Cons.IH[OF r this _ _ q1(1)] Cons.prems(3,4) q1(2) show ?case by auto
qed simp

lemma summaries_on_lookup: "fmlookup (version_summaries_on d ids) k = (if k \<in> set ids then summary_for d k else None)"
  by (induction ids) (auto split: option.split)

lemma snapshot_eq_key:
  assumes "snapshot_eq (version_summaries_on d ids) snapshot" "k \<in> set ids"
  shows "map_option (version_key here) (fmlookup snapshot k) = key_at here d k"
proof -
  have on: "fmlookup (version_summaries_on d ids) k = summary_for d k"
    using assms(2) summaries_on_lookup by simp
  have keys: "fset (fmdom (version_summaries_on d ids)) = fset (fmdom snapshot)"
    using assms(1) by (metis set_fm_keys snapshot_eq_def)
  show ?thesis
  proof (cases "summary_for d k")
    case None
    then have "fmlookup snapshot k = None" using on keys by (metis fmdom_notD fmdom_notI)
    with None show ?thesis by (simp add: key_at_def)
  next
    case (Some v)
    then have "k \<in> set (fm_keys (version_summaries_on d ids))" using on by (simp add: fmdomI)
    then obtain v' where "fmlookup snapshot k = Some v'" "version_eq v v'"
      using assms(1) on Some by (auto simp: snapshot_eq_def list_all_iff split: option.splits)
    with Some show ?thesis by (simp add: key_at_def version_key_eq version_eq_def)
  qed
qed

end
