(* ===== verification/History_Props.thy ===== *)
theory History_Props
  imports History_Runs Sealing_Props
begin

text \<open>
  What holds of the history: its invariant over every interleaving, that the merge moves it only by
  transactions that keep it, that a page merged from a snapshot never puts an older version in the
  place of a newer one, and that the merge of a single version may.
\<close>

section \<open>A concrete history\<close>

definition demo_pe :: payload_env where
  "demo_pe = \<lparr>pe_base64 = \<lambda>_. [], pe_unbase64 = \<lambda>_. None, pe_png_dimensions = \<lambda>_. None, pe_file_of_json = \<lambda>_. None,
     pe_transfer_of_json = \<lambda>_. None, pe_of_json = \<lambda>_. None, pe_to_json = \<lambda>_. None, pe_privacy_flags = \<lambda>_. (None, None)\<rparr>"

definition demo_he :: history_env where
  "demo_he = \<lparr>he_payload = demo_pe, he_credentials = demo_ce, he_sealing = demo_sealing,
     he_record_of_json = \<lambda>_. None, he_record_to_json = \<lambda>_. None\<rparr>"

definition demo_clip :: new_item where
  "demo_clip = \<lparr>ni_id = ''a'', ni_content_type = ''text'', ni_content_hash = ''h'', ni_created_at = 5,
     ni_app_bundle_id = None, ni_app_name = None, ni_metadata = None\<rparr>"

definition demo_row :: item_row where
  "demo_row = new_row demo_clip (''n'', ''c'') None None (Some 1) empty_db"

definition demo_db :: db where
  "demo_db = empty_db\<lparr>db_items := fmupd ''a'' demo_row fmempty, db_fts := fmupd 1 (''a'', ''hi'') fmempty\<rparr>"

lemma demo_trim: "trim ''hi'' = ''hi''"
  by (simp add: trim_def char_len_def in_range_def trim_list_def is_whitespace_def)

lemma demo_json_ok: "json_ok demo_pe"
  by (simp add: json_ok_def demo_pe_def)

lemma demo_captured:
  "insert_or_bump_tx demo_he demo_clip (Some ''hi'') (Inr (''n'', ''c'')) empty_db
   = (Inr (Inserted (row_to_item ''a'' demo_row demo_db), True), demo_db)"
proof -
  have body: "capture_text demo_pe demo_clip (Some ''hi'') = Some ''hi''"
    by (simp add: capture_text_def demo_clip_def is_text_def content_type_text_def privacy_of_def privacy_none_def demo_trim)
  have norm: "normalise demo_he None ''text'' 5 None empty_db = (Inr (None, None), empty_db)"
    by (simp add: normalise_def known_asset_def non_empty_id_def)
  have row: "new_row demo_clip (''n'', ''c'') None None (Some 1) (empty_db\<lparr>db_fts := fmupd 1 (''a'', ''hi'') fmempty\<rparr>) = demo_row"
    by (simp add: demo_row_def new_row_def next_rowid_def empty_db_def)
  have ix: "insert_fts ''a'' ''hi'' ''text'' empty_db = (Some 1, empty_db\<lparr>db_fts := fmupd 1 (''a'', ''hi'') fmempty\<rparr>)"
    by (simp add: insert_fts_def is_text_def content_type_text_def next_key_def empty_db_def)
  have sel: "ni_app_bundle_id demo_clip = None" "ni_content_type demo_clip = ''text''" "ni_created_at demo_clip = 5"
    "ni_metadata demo_clip = None" "ni_id demo_clip = ''a''" "he_payload demo_he = demo_pe"
    by (simp_all add: demo_clip_def demo_he_def)
  let ?e = "empty_db\<lparr>db_fts := fmupd 1 (''a'', ''hi'') fmempty\<rparr>"
  have e: "\<not> fm_contains (db_items ?e) ''a''" "\<not> dedup_conflict ''a'' demo_row ?e" "put_item ''a'' demo_row ?e = demo_db"
    by (simp_all add: fm_contains_def dedup_conflict_def put_item_def demo_db_def empty_db_def)
  have ins: "insert_capture demo_he demo_clip (''n'', ''c'') None None (Some ''hi'') empty_db
      = (Inr (Inserted (row_to_item ''a'' demo_row demo_db), True), demo_db)"
    unfolding insert_capture_def Let_def option.case sel ix prod.case row e(3) using e(1,2) by (simp only: if_False simp_thms)
  have none: "newest_with_representation h ct empty_db = None" for h ct
    by (simp add: newest_with_representation_def live_rows_def newest_def empty_db_def)
  show ?thesis
    unfolding insert_or_bump_tx_def Let_def sel body norm prod.case sum.case none option.case by (rule ins)
qed

definition demo_deletes :: store where
  "demo_deletes = \<lparr>st_db = demo_db, st_script = [quiet, \<lparr>te_others = \<lambda>d. snd (delete_tx 9 ''a'' d), te_fault = None\<rparr>]\<rparr>"

definition demo_remote :: remote_version where
  "demo_remote = \<lparr>ro_item_id = ''a'', ro_content = ''hi'', ro_binary_content = None, ro_metadata = None,
     ro_content_type = ''text'', ro_created_at = 7, ro_deleted = False, ro_content_hash = None,
     ro_origin_device_id = ''far'', ro_app_bundle_id = None, ro_app_name = None\<rparr>"

lemma demo_history: "(history_step demo_he)\<^sup>*\<^sup>* empty_db demo_db"
proof -
  have "\<not> is_record_id (ni_id demo_clip)" by (simp add: is_record_id_def org_prefix_def demo_clip_def)
  from step_capture[OF this demo_captured] show ?thesis by blast
qed

lemma demo_others: "others_step he demo_deletes"
proof -
  have "history_step he d (snd (delete_tx 9 ''a'' d))" for d
    by (rule step_delete[of 9 "''a''" d "fst (projr (fst (delete_tx 9 ''a'' d)), ())"])
       (auto simp: delete_tx_def Let_def split: option.split)
  then show ?thesis by (auto simp: others_step_def demo_deletes_def quiet_def)
qed

section \<open>Properties\<close>

text \<open>
  C4: over every history of merges, captures, deletions, pins, privacy changes, record writes and
  evictions, in any interleaving of their transactions: the plaintext index has an entry exactly
  for the rows that name it, and each such row is live text that is not secret; a deleted item has
  no content, no metadata and no place among the pins; no two live rows share content, type, minute
  and origin unless they are imported files; and no id is both an item and an organization record.
\<close>

theorem history_stays_sound:
  assumes "(history_step he)\<^sup>*\<^sup>* empty_db d" and "json_ok (he_payload he)"
  shows "(\<forall>n k. (\<exists>body. fmlookup (db_fts d) n = Some (k, body)) \<longleftrightarrow>
            (\<exists>r. fmlookup (db_items d) k = Some r \<and> r_fts_rowid r = Some n))
    \<and> (\<forall>k r. fmlookup (db_items d) k = Some r \<longrightarrow>
         (r_fts_rowid r \<noteq> None \<longrightarrow> \<not> r_deleted r \<and> is_text (r_content_type r)
            \<and> \<not> cp_secret (privacy_of (he_payload he) (r_metadata r)))
         \<and> (r_deleted r \<longrightarrow> r_ciphertext r = None \<and> r_nonce r = None \<and> r_metadata r = None
              \<and> \<not> r_pinned r \<and> r_pin_order r = None)
         \<and> fmlookup (db_orgs d) k = None)
    \<and> (\<forall>k r k' r'. fmlookup (db_items d) k = Some r \<longrightarrow> fmlookup (db_items d) k' = Some r' \<longrightarrow> k \<noteq> k' \<longrightarrow>
         in_dedup_index k r \<longrightarrow> in_dedup_index k' r' \<longrightarrow> dedup_key r \<noteq> dedup_key r')"
proof -
  have ok: "db_ok he d" by (rule history_ok[OF assms])
  have "(\<exists>body. fmlookup (db_fts d) n = Some (k, body)) \<longleftrightarrow> owner d n = Some k" for n k
    by (cases "fmlookup (db_fts d) n") (auto simp: owner_def)
  moreover have "(\<exists>r. fmlookup (db_items d) k = Some r \<and> r_fts_rowid r = Some n) \<longleftrightarrow> indexed_at d k = Some n" for n k
    by (auto simp: indexed_at_def split: option.splits)
  moreover have "fmlookup (db_orgs d) k = None" if "fmlookup (db_items d) k = Some r" for k r
    using ok_butD(1)[OF ok that] ok_butD(4)[OF ok] by (auto simp: row_ok_def orgs_ok_def)
  ultimately show ?thesis
    using ok_butD(1)[OF ok] ok_butD(2)[OF ok] ok_butD(3)[OF ok] unfolding unique_ok_def row_ok_def searchable_def
    by blast
qed

theorem history_stays_sound_witness:
  "\<exists>r. fmlookup (db_items demo_db) ''a'' = Some r \<and> r_fts_rowid r = Some 1"
proof -
  have "json_ok (he_payload demo_he)" using demo_json_ok by (simp add: demo_he_def)
  moreover have "fmlookup (db_fts demo_db) 1 = Some (''a'', ''hi'')" by (simp add: demo_db_def)
  ultimately show ?thesis using history_stays_sound[OF demo_history] by blast
qed

text \<open>
  The merge is made of transactions. A run that merges remote versions, one at a time or by the
  page, with or without pin states, and whatever the other connections do between its
  transactions, takes the database from where it was only by the steps of histories; a failure of
  any statement leaves it at a state that such steps reach as well.
\<close>

theorem merge_runs_are_steps:
  assumes "others_step he s"
  shows "(history_step he)\<^sup>*\<^sup>* (st_db s) (st_db (snd (apply_remote_p2p_versions he key here rnd incoming pins s)))
    \<and> (history_step he)\<^sup>*\<^sup>* (st_db s) (st_db (snd (apply_remote_versions he key here rnd incoming s)))
    \<and> (history_step he)\<^sup>*\<^sup>* (st_db s) (st_db (snd (apply_remote_p2p_version he key here rnd1 inc pin s)))
    \<and> (history_step he)\<^sup>*\<^sup>* (st_db s) (st_db (snd (apply_remote_version he key here rnd1 inc s)))"
proof -
  have "snd (apply_remote_versions he key here rnd incoming s) = snd (apply_page he key here rnd incoming None s)"
    by (simp add: apply_remote_versions_def split: prod.split sum.split)
  then show ?thesis
    using page_moves[OF assms] apply_p2p_moves[OF assms] apply_one_moves[OF assms]
    unfolding db_moves_def apply_remote_p2p_versions_def by (metis prod.collapse)
qed

theorem merge_runs_are_steps_witness:
  "(history_step demo_he)\<^sup>*\<^sup>* demo_db (st_db (snd (apply_remote_version demo_he ''k'' ''here'' (''n'', []) demo_remote demo_deletes)))"
  using merge_runs_are_steps[OF demo_others, of demo_he "''k''" "''here''" "\<lambda>_ _. (''n'', [])" "[]" "[]" "(''n'', [])" demo_remote "(False, None, 0)"]
  by (simp add: demo_deletes_def)

text \<open>
  C5: a page never overwrites a winner. Whatever other connections wrote between the read from
  which a page was decided and the transaction that stores it, no item and no organization record
  holds an older version afterwards than before: the merge key of each id stays or rises, also when
  the page has several versions of one id and when the store refuses some of them.
\<close>

theorem page_never_overwrites_a_winner:
  assumes "prepare_page he key here rnd incoming pins snapshot = Inr (writes, slots, pin_only)"
    and "merge_page_tx he (map ro_item_id incoming) snapshot writes d = (Inr written, d')"
    and "db_ok he d" and "list_all (\<lambda>inc. ro_created_at inc \<le> i64_max) incoming"
    and "summary_for d k = Some v"
  shows "\<exists>v'. summary_for d' k = Some v' \<and> version_key here v \<le> version_key here v'"
proof -
  have page: "upsert_rows he writes d = (Inr written, d')"
    and same: "snapshot_eq (version_summaries_on d (map ro_item_id incoming)) snapshot"
    using assms(2) by (auto simp: merge_page_tx_def Let_def split: if_splits prod.splits sum.splits)
  note ws = prepare_page_beats[OF assms(1,4)]
  have q: "key_at here d k = Some (version_key here v)" using assms(5) by (simp add: key_at_def)
  have "list_all (\<lambda>w. in_created_at w \<le> i64_max) writes" using ws(2) by (simp add: list_all_iff)
  from upsert_rows_key[OF page assms(3) prepare_page_ok[OF assms(1)] this q] obtain q' where q': "key_at here d' k = Some q'"
    "q' = version_key here v \<or> (\<exists>w \<in> set writes. k = in_id w \<and> version_key here (as_version w here) \<le> q')" by blast
  have "version_key here v \<le> version_key here (as_version w here)" if "w \<in> set writes" "k = in_id w" for w
  proof -
    have "map_option (version_key here) (fmlookup snapshot k) = Some (version_key here v)"
      using snapshot_eq_key[OF same] ws(3)[OF that(1)] that(2) q by metis
    then show ?thesis using ws(1)[OF that(1)] that(2) by (auto simp: beats_def)
  qed
  with q' have "version_key here v \<le> q'" by (metis order.refl order.trans)
  with q'(1) show ?thesis by (auto simp: key_at_def)
qed


definition demo_tomb :: remote_version where
  "demo_tomb = demo_remote\<lparr>ro_deleted := True, ro_created_at := 9, ro_content_hash := Some ''h''\<rparr>"

definition demo_stored_tomb :: incoming_item where
  "demo_stored_tomb = \<lparr>in_id = ''a'', in_ciphertext = None, in_nonce = None, in_content_type = ''text'', in_content_hash = ''h'',
     in_created_at = 9, in_deleted = True, in_origin = ''far'', in_app_bundle_id = None, in_app_name = None, in_pinned = False,
     in_pin_order = None, in_pin_updated_at = 0, in_search_text = None, in_metadata = None\<rparr>"

lemma demo_summary: "summary_for demo_db ''a'' = Some (item_version ''a'' demo_row)"
  by (simp add: summary_for_def demo_db_def empty_db_def)

lemma demo_version: "item_version ''a'' demo_row =
  \<lparr>v_id = ''a'', v_created_at = 5, v_content_hash = ''h'', v_deleted = False, v_pinned = False, v_pin_order = None,
   v_pin_updated_at = 0, v_origin_device_id = []\<rparr>"
  by (simp add: item_version_def demo_row_def new_row_def demo_clip_def)

lemma demo_not_org: "''text'' \<noteq> org_content_type" "\<not> is_record_id ''a''"
  by (simp_all add: org_content_type_def is_record_id_def org_prefix_def)

lemma demo_prepared:
  "prepare_page demo_he ''k'' ''here'' (\<lambda>_. (''n'', [])) [demo_tomb] None (version_summaries_on demo_db [''a''])
   = Inr ([demo_stored_tomb], [Some 0], [])"
proof -
  have "prepare_remote_version demo_he ''k'' ''here'' (''n'', []) demo_tomb None (Some (item_version ''a'' demo_row)) = Inr (Some demo_stored_tomb)"
    by (simp add: prepare_remote_version_def demo_tomb_def demo_remote_def organization_text_def demo_not_org valid_wire_def
        decided_hash_def demo_version merge_decision_def decide_def cmp_def stored_summary_def remote_summary_def
        seal_incoming_def incoming_metadata_def demo_stored_tomb_def)
  then show ?thesis
    by (simp add: prepare_page_def demo_summary payload_is_refused_def demo_tomb_def demo_remote_def)
qed

text \<open>A tombstone is never refused.\<close>

lemma tombstone_stored:
  assumes "in_deleted inc" "in_ciphertext inc = None" "in_content_type inc \<noteq> org_content_type" "\<not> is_record_id (in_id inc)"
  shows "\<exists>d'. upsert_tx he inc d = (Inr True, d')"
proof -
  have "\<exists>d'. write_incoming inc (upsert_row inc m t i n e) e = (Inr True, d')" for m t i n e
    using assms(1,2) dead_no_conflict[of "upsert_row inc m t i n e"] by (simp add: write_incoming_def)
  moreover have "index_incoming inc False e = (None, e)" for e
    using assms(1) by (simp add: index_incoming_def split: option.split)
  ultimately obtain d' where "item_upsert_in_tx he inc d = (Inr True, d')"
    using assms(1) by (fastforce simp: item_upsert_in_tx_def Let_def)
  then show ?thesis using assms(3,4) by (simp add: upsert_tx_def upsert_in_tx_def)
qed

theorem page_never_overwrites_a_winner_witness:
  "\<exists>written d' v'. merge_page_tx demo_he [''a''] (version_summaries_on demo_db [''a'']) [demo_stored_tomb] demo_db = (Inr written, d')
     \<and> summary_for d' ''a'' = Some v' \<and> version_key ''here'' (item_version ''a'' demo_row) \<le> version_key ''here'' v'"
proof -
  have same: "snapshot_eq (version_summaries_on demo_db [''a'']) (version_summaries_on demo_db [''a''])"
    by (simp add: demo_summary demo_version snapshot_eq_def version_eq_def pin_order_eq_def list_all_iff)
  have w: "in_deleted demo_stored_tomb" "in_ciphertext demo_stored_tomb = None" "in_content_type demo_stored_tomb = ''text''" "in_id demo_stored_tomb = ''a''"
    by (simp_all add: demo_stored_tomb_def)
  obtain d' where u: "upsert_tx demo_he demo_stored_tomb demo_db = (Inr True, d')"
    using tombstone_stored[OF w(1,2)] w(3,4) demo_not_org by metis
  then have m: "merge_page_tx demo_he [''a''] (version_summaries_on demo_db [''a'']) [demo_stored_tomb] demo_db = (Inr [True], d')"
    using same by (simp add: merge_page_tx_def Let_def)
  have ok: "db_ok demo_he demo_db" using history_ok[OF demo_history] demo_json_ok by (simp add: demo_he_def)
  have id: "map ro_item_id [demo_tomb] = [''a'']" by (simp add: demo_tomb_def demo_remote_def)
  show ?thesis
    using page_never_overwrites_a_winner[OF demo_prepared _ ok _ demo_summary, unfolded id, OF m] m
    by (auto simp: demo_tomb_def demo_remote_def i64_max_def)
qed

lemma item_stored:
  assumes "upsert_tx he inc d = (Inr True, d')" "in_content_type inc \<noteq> org_content_type" "i64_min \<le> in_created_at inc" "in_created_at inc < i64_max"
  obtains r where "fmlookup (db_items d') (in_id inc) = Some r" "r_deleted r = in_deleted inc" "r_created_at r \<le> in_created_at inc + 1"
proof -
  let ?k = "in_id inc"
  from assms(1,2) have "item_upsert_in_tx he inc d = (Inr True, d')"
    by (auto simp: upsert_tx_def upsert_in_tx_def split: prod.splits sum.splits bool.splits if_splits)
  then obtain m t i d3 n where t: "t = in_created_at inc \<or> t = i64_saturating_add (in_created_at inc) 1"
    and w: "write_incoming inc (upsert_row inc m t i n d3) d3 = (Inr True, d')"
    by (rule item_upsert_True) blast
  let ?p = "put_item ?k (upsert_row inc m t i n d3) d3"
  have "rel_option (row_kept ?k) (fmlookup (db_items ?p) ?k) (fmlookup (db_items (apply_pin_projection ?k ?p)) ?k)"
    using pin_projection_kept[of ?p ?k] unfolding rows_kept_def by blast
  then have "rel_option (row_kept ?k) (Some (upsert_row inc m t i n d3)) (fmlookup (db_items d') ?k)"
    by (simp add: write_incoming_True(3)[OF w])
  then obtain r where "fmlookup (db_items d') ?k = Some r" "r_deleted r = in_deleted inc" "r_created_at r = t"
    by (auto simp: row_kept_def elim: option.rel_cases)
  moreover have "t \<le> in_created_at inc + 1" using t assms(3,4) by (auto simp: i64_saturating_add_def i64_min_def i64_max_def)
  ultimately show thesis using that by simp
qed

text \<open>
  C11: merging a single version can undo a deletion. The version is decided from one read and stored
  by a later transaction that looks at nothing: when another connection deletes the item in between,
  at a stamp later than the version's, a merge that reports success leaves the item live again and
  older than the tombstone it replaced. Pages are safe from this, and single versions are not,
  although the comment on pages says that these have the guarantee for free.
\<close>

theorem single_version_undoes_a_delete:
  assumes "apply_remote_version he key here rnd inc s = (Inr True, s')"
    and "st_script s = [quiet, \<lparr>te_others = \<lambda>d. snd (delete_tx now (ro_item_id inc) d), te_fault = None\<rparr>]"
    and "live_item (ro_item_id inc) (st_db s) \<noteq> None" and "\<not> ro_deleted inc"
    and "ro_content_type inc \<noteq> org_content_type" and "i64_min \<le> ro_created_at inc"
    and "ro_created_at inc + 1 < now" and "now \<le> i64_max"
  shows "\<exists>dead r. fmlookup (db_items (snd (delete_tx now (ro_item_id inc) (st_db s)))) (ro_item_id inc) = Some dead
    \<and> r_deleted dead \<and> fmlookup (db_items (st_db s')) (ro_item_id inc) = Some r \<and> \<not> r_deleted r
    \<and> r_created_at r < r_created_at dead"
proof -
  let ?k = "ro_item_id inc" and ?d = "snd (delete_tx now (ro_item_id inc) (st_db s))"
  from assms(3) obtain q where q: "live_item ?k (st_db s) = Some q" by blast
  define dead where "dead = (tombstone now q)\<lparr>r_pinned := False\<rparr>"
  have dead: "fmlookup (db_items ?d) ?k = Some dead" "r_deleted dead" "now \<le> r_created_at dead"
    using q assms(8) by (auto simp: delete_tx_def live_item_cong[of "delete_fts_row ?k (st_db s)"] Let_def dead_def tombstone_def forward_stamp_def)
  define s1 where "s1 = s\<lparr>st_script := tl (st_script s)\<rparr>"
  have read: "local_version ?k s = (Inr (version_summary (st_db s) ?k), s1)"
    using assms(2) by (cases s) (simp add: local_version_def read_def transact_def quiet_def s1_def Let_def)
  obtain ready where ready: "prepare_remote_version he key here rnd inc None (version_summary (st_db s) ?k) = Inr (Some ready)"
    and up: "store_upsert he ready s1 = (Inr True, s')"
    using assms(1) read
    by (auto simp: apply_remote_version_def apply_with_pin_state_def split: if_splits sum.splits option.splits prod.splits)
  have st: "upsert_tx he ready ?d = (Inr True, st_db s')"
    using up assms(2) by (auto simp: store_upsert_def transact_def s1_def Let_def split: prod.splits sum.splits)
  have ct: "in_content_type ready \<noteq> org_content_type" using prepared_type[OF ready] assms(5) by simp
  obtain r where "fmlookup (db_items (st_db s')) ?k = Some r" "\<not> r_deleted r" "r_created_at r \<le> ro_created_at inc + 1"
    by (rule item_stored[OF st ct]) (use assms(4,6-8) prepared(1-3)[OF ready] in auto)
  with dead assms(7) show ?thesis by (intro exI[of _ dead] exI[of _ r]) auto
qed

lemma demo_normalise: "normalise demo_he app ct t m d = (Inr (m, known_asset app d), d)"
  by (simp add: normalise_def demo_he_def demo_pe_def metadata_from_json_def file_from_json_def Let_def split: option.split)

lemma demo_upsert_accepts:
  assumes "fmdom (db_items d) |\<subseteq>| {|in_id inc|}" "in_content_type inc \<noteq> org_content_type" "\<not> is_record_id (in_id inc)"
    "\<not> in_deleted inc" "in_ciphertext inc = Some c" "reference_split c = None"
  shows "\<exists>d'. upsert_tx demo_he inc d = (Inr True, d')"
proof -
  have free: "\<not> dedup_conflict (in_id inc) r e" if "db_items e = db_items d" for r e
    using assms(1) fmdomI unfolding dedup_conflict_iff that by fastforce
  obtain m t where mt: "merged_metadata (he_payload demo_he) (in_content_type inc) (in_created_at inc) (in_metadata inc)
      (existing_metadata (in_id inc) (in_content_hash inc) (delete_fts_row (in_id inc) d)) = (m, t)" by fastforce
  define secret where "secret = (case m of None \<Rightarrow> False | Some j \<Rightarrow> cp_secret (privacy_from_json (he_payload demo_he) j))"
  define e where "e = (if secret then drop_module_index (in_id inc) (delete_fts_row (in_id inc) d) else delete_fts_row (in_id inc) d)"
  obtain n e' where ix: "index_incoming inc secret e = (n, e')" by fastforce
  have "db_items e' = db_items d"
    by (rule index_incoming_cases[OF ix]) (use insert_fts_sel(1) in \<open>fastforce simp: e_def\<close>)+
  then have "\<exists>d'. write_incoming inc (upsert_row inc m t i n e') e' = (Inr True, d')" for i
    using free assms(5,6) by (simp add: write_incoming_def link_payload_def)
  then have "\<exists>d'. item_upsert_in_tx demo_he inc d = (Inr True, d')"
    using assms(4) by (simp add: item_upsert_in_tx_def Let_def demo_normalise mt secret_def[symmetric] e_def[symmetric] ix)
  then show ?thesis using assms(2,3) by (auto simp: upsert_tx_def upsert_in_tx_def)
qed

theorem single_version_undoes_a_delete_witness:
  "\<exists>s' dead r. apply_remote_version demo_he ''k'' ''here'' (''n'', []) demo_remote demo_deletes = (Inr True, s')
     \<and> fmlookup (db_items (snd (delete_tx 9 ''a'' demo_db))) ''a'' = Some dead \<and> r_deleted dead
     \<and> fmlookup (db_items (st_db s')) ''a'' = Some r \<and> \<not> r_deleted r \<and> r_created_at r < r_created_at dead"
proof -
  define l where "l = item_version ''a'' demo_row"
  have sel: "ro_item_id demo_remote = ''a''" "ro_content_type demo_remote = ''text''" "ro_deleted demo_remote = False"
    "ro_created_at demo_remote = 7" "ro_metadata demo_remote = None" "ro_origin_device_id demo_remote = ''far''"
    "ro_content demo_remote = ''hi''" "remote_payload demo_remote = ''hi''"
    by (simp_all add: demo_remote_def remote_payload_def)
  have plain: "is_text ''text''" "\<not> is_binary ''text''" by (simp_all add: is_text_def is_binary_def content_type_text_def)
  have "sl_seal demo_sealing k n a m = Some (m @ demo_tag)" for k n a m by (simp add: demo_sealing_def)
  then have sealed: "seal_incoming demo_he ''k'' (''n'', []) demo_remote = Inr (Some (''n'', ''hi'' @ demo_tag))"
    by (simp add: seal_incoming_def Let_def sel plain encrypt_def map_err_def demo_he_def)
  have "version_summary demo_db ''a'' = Some l" by (simp add: version_summary_def demo_db_def l_def)
  have wins: "merge_decision (stored_summary l here) lo (remote_summary demo_remote h p) ro = TakeRemote" for here lo h p ro
    by (simp add: merge_decision_def decide_def cmp_def stored_summary_def remote_summary_def sel l_def demo_version)
  obtain ready where ready: "prepare_remote_version demo_he ''k'' ''here'' (''n'', []) demo_remote None (Some l) = Inr (Some ready)"
    and c: "in_ciphertext ready = Some (''hi'' @ demo_tag)"
    by (simp add: prepare_remote_version_def organization_text_def sel demo_not_org valid_wire_def wins sealed max_content_bytes_def Let_def)
  let ?d = "snd (delete_tx 9 ''a'' demo_db)"
  have items: "db_items demo_db = fmupd ''a'' demo_row fmempty" "\<not> r_deleted demo_row"
    by (simp_all add: demo_db_def demo_row_def new_row_def)
  then have live: "live_item ''a'' demo_db = Some demo_row" by (simp add: live_item_def)
  have "fmdom (db_items ?d) |\<subseteq>| {|''a''|}"
    using live items by (simp add: delete_tx_def Let_def live_item_cong[of "delete_fts_row ''a'' demo_db" demo_db])
  moreover have "reference_split (''hi'' @ demo_tag) = None" by (simp add: reference_split_def ref_magic_def)
  ultimately obtain d' where up: "upsert_tx demo_he ready ?d = (Inr True, d')"
    using demo_upsert_accepts[of ?d ready] prepared(1,3)[OF ready] prepared_type[OF ready] c demo_not_org sel by auto
  have "\<not> payload_is_refused demo_he demo_remote" by (simp add: payload_is_refused_def sel plain content_type_file_def)
  then have run: "apply_remote_version demo_he ''k'' ''here'' (''n'', []) demo_remote demo_deletes = (Inr True, \<lparr>st_db = d', st_script = []\<rparr>)"
    using \<open>version_summary demo_db ''a'' = Some l\<close> ready up
    by (simp add: apply_remote_version_def local_version_def read_def transact_def demo_deletes_def quiet_def sel
        apply_with_pin_state_def store_upsert_def Let_def)
  have "\<exists>dead r. fmlookup (db_items ?d) ''a'' = Some dead \<and> r_deleted dead \<and> fmlookup (db_items d') ''a'' = Some r
     \<and> \<not> r_deleted r \<and> r_created_at r < r_created_at dead"
    using single_version_undoes_a_delete[OF run, of 9] live
    by (simp add: demo_deletes_def sel demo_not_org i64_max_def i64_min_def)
  with run show ?thesis by (metis store.select_convs(1))
qed

end
