(* ===== verification/Cloud_Row.thy ===== *)
theory Cloud_Row
  imports Sealing_Props Credentials
begin

text \<open>
  One row of the account table, as it is sealed, signed and checked:
  \<open>crates/copypaste-cloud/src/crypto/key.rs\<close>, \<open>crypto/row.rs\<close>, \<open>crypto/sign.rs\<close> and \<open>rest/item.rs\<close>.
  The cipher, HMAC-SHA256, HKDF, Argon2id and base64 are arguments; \<open>base64_ok\<close> is what the codec
  documents. The random nonce of a sealed row is an argument of the operation that draws it.
\<close>

section \<open>Primitives\<close>

record cloud_env =
  ce_sealing :: sealing
  ce_payload :: payload_env
  ce_hmac :: "bytes \<Rightarrow> bytes \<Rightarrow> bytes"
  ce_hkdf_extract :: "bytes \<Rightarrow> bytes \<Rightarrow> bytes"
  ce_hkdf_expand :: "bytes \<Rightarrow> bytes \<Rightarrow> nat \<Rightarrow> bytes"
  ce_argon2id :: "nat \<times> nat \<times> nat \<times> nat \<Rightarrow> bytes \<Rightarrow> bytes \<Rightarrow> bytes option"

definition base64_ok :: "cloud_env \<Rightarrow> bool" where
  "base64_ok ce \<longleftrightarrow>
     (\<forall>bs. pe_unbase64 (ce_payload ce) (pe_base64 (ce_payload ce) bs) = Some bs
          \<and> length (pe_base64 (ce_payload ce) bs) = 4 * div_ceil (length bs) 3)"

datatype cloud_crypto_error =
    RowAuthFailed | PassphraseTooShort | EmptyAccountId | RowMalformed | SignatureInvalid
  | RowInternal string

section \<open>The sync key\<close>

definition cloud_key_len :: nat where "cloud_key_len = 32"
definition argon2_m_cost_kib :: nat where "argon2_m_cost_kib = 19456"
definition argon2_t_cost :: nat where "argon2_t_cost = 2"
definition argon2_p_cost :: nat where "argon2_p_cost = 1"
definition min_passphrase_chars :: nat where "min_passphrase_chars = 12"
definition argon2_salt_len :: nat where "argon2_salt_len = 16"
definition salt_hkdf_salt :: bytes where "salt_hkdf_salt = ''copypaste/v2/cloud-sync-key/salt-hkdf''"
definition info_per_account_salt :: bytes where
  "info_per_account_salt = ''copypaste/v2/cloud-sync-key/per-account-argon2id-salt''"
definition info_row_signature :: bytes where
  "info_row_signature = ''copypaste/v2/cloud-row-signature/hmac-sha256''"

record sync_key =
  sk_material :: bytes
  sk_row_signing :: bytes

definition derive_row_signing_key :: "cloud_env \<Rightarrow> bytes \<Rightarrow> bytes" where
  "derive_row_signing_key ce material = ce_hkdf_expand ce material info_row_signature cloud_key_len"

definition sync_key_new :: "cloud_env \<Rightarrow> bytes \<Rightarrow> sync_key" where
  "sync_key_new ce material =
     \<lparr>sk_material = material, sk_row_signing = derive_row_signing_key ce material\<rparr>"

definition per_account_salt :: "cloud_env \<Rightarrow> string \<Rightarrow> bytes" where
  "per_account_salt ce account_id =
     ce_hkdf_expand ce (ce_hkdf_extract ce salt_hkdf_salt account_id) info_per_account_salt argon2_salt_len"

definition derive_sync_key :: "cloud_env \<Rightarrow> string \<Rightarrow> string \<Rightarrow> cloud_crypto_error + sync_key" where
  "derive_sync_key ce passphrase account_id =
     (if length (chars passphrase) < min_passphrase_chars then Inl PassphraseTooShort
      else if account_id = [] then Inl EmptyAccountId
      else case ce_argon2id ce (argon2_m_cost_kib, argon2_t_cost, argon2_p_cost, cloud_key_len)
                  passphrase (per_account_salt ce account_id) of
             None \<Rightarrow> Inl (RowInternal ''Argon2 derivation failed'')
           | Some okm \<Rightarrow> Inr (sync_key_new ce okm))"

section \<open>Sealing a row\<close>

definition cloud_aad_prefix :: bytes where "cloud_aad_prefix = ''copypaste/v2/cloud-row-aead|''"
definition cloud_aad_schema_version :: nat where "cloud_aad_schema_version = 1"

definition cloud_aad :: "string \<Rightarrow> bytes" where
  "cloud_aad item_id =
     cloud_aad_prefix @ show_nat cloud_aad_schema_version @ ''|'' @ show_nat (length item_id) @ '':'' @ item_id"

text \<open>The pair is the nonce, then the ciphertext.\<close>

definition encrypt_row ::
  "cloud_env \<Rightarrow> bytes \<Rightarrow> bytes \<Rightarrow> sync_key \<Rightarrow> string \<Rightarrow> cloud_crypto_error + string \<times> string" where
  "encrypt_row ce nonce plaintext key item_id =
     (case sl_seal (ce_sealing ce) (sk_material key) nonce (cloud_aad item_id) plaintext of
        None \<Rightarrow> Inl (RowInternal ''AEAD rejected the plaintext (too large)'')
      | Some ciphertext \<Rightarrow>
          Inr (pe_base64 (ce_payload ce) nonce, pe_base64 (ce_payload ce) ciphertext))"

definition decrypt_row ::
  "cloud_env \<Rightarrow> string \<Rightarrow> string \<Rightarrow> sync_key \<Rightarrow> string \<Rightarrow> cloud_crypto_error + bytes" where
  "decrypt_row ce ciphertext_b64 nonce_b64 key item_id =
     (case pe_unbase64 (ce_payload ce) nonce_b64 of
        None \<Rightarrow> Inl RowMalformed
      | Some nonce \<Rightarrow>
          if length nonce \<noteq> aead_nonce_len then Inl RowMalformed
          else case pe_unbase64 (ce_payload ce) ciphertext_b64 of
                 None \<Rightarrow> Inl RowMalformed
               | Some ciphertext \<Rightarrow>
                   if length ciphertext < aead_tag_len then Inl RowAuthFailed
                   else ok_or RowAuthFailed
                          (sl_open (ce_sealing ce) (sk_material key) nonce (cloud_aad item_id) ciphertext))"

section \<open>The row\<close>

record cloud_item =
  ci_item_id :: string
  ci_ciphertext :: string
  ci_nonce :: string
  ci_content_type :: string
  ci_payload_metadata :: "string option"
  ci_source_app_bundle_id :: "string option"
  ci_source_app_name :: "string option"
  ci_created_at :: int
  ci_deleted :: bool
  ci_origin_device_id :: string
  ci_signature :: string

definition cloud_tombstone :: "string \<Rightarrow> string \<Rightarrow> int \<Rightarrow> string \<Rightarrow> cloud_item" where
  "cloud_tombstone item_id content_type created_at origin_device_id =
     \<lparr>ci_item_id = item_id, ci_ciphertext = [], ci_nonce = [], ci_content_type = content_type,
      ci_payload_metadata = None, ci_source_app_bundle_id = None, ci_source_app_name = None,
      ci_created_at = created_at, ci_deleted = True, ci_origin_device_id = origin_device_id,
      ci_signature = []\<rparr>"

section \<open>Signing a row\<close>

text \<open>\<open>Display\<close> of a signed integer.\<close>

definition show_int :: "int \<Rightarrow> string" where
  "show_int i = (if i < 0 then CHR ''-'' # show_nat (nat (- i)) else show_nat (nat i))"

text \<open>\<open>RowMetadata\<close> borrows the columns of the row, so the model signs the row itself.\<close>

definition signature_prefix :: bytes where "signature_prefix = ''copypaste/v2/cloud-row-sig|''"
definition signature_schema_version :: nat where "signature_schema_version = 2"

definition option_marker :: "string option \<Rightarrow> string" where
  "option_marker v = (case v of None \<Rightarrow> ''0'' | Some _ \<Rightarrow> ''1'')"

definition option_value :: "string option \<Rightarrow> string" where
  "option_value v = (case v of None \<Rightarrow> [] | Some s \<Rightarrow> s)"

definition signing_fields :: "cloud_item \<Rightarrow> bytes list" where
  "signing_fields m =
     [ci_item_id m, ci_content_type m,
      option_marker (ci_payload_metadata m), option_value (ci_payload_metadata m),
      option_marker (ci_source_app_bundle_id m), option_value (ci_source_app_bundle_id m),
      option_marker (ci_source_app_name m), option_value (ci_source_app_name m),
      ci_origin_device_id m, show_int (ci_created_at m), if ci_deleted m then ''1'' else ''0'',
      ci_nonce m, ci_ciphertext m]"

definition signing_field :: "bytes \<Rightarrow> bytes" where
  "signing_field f = ''|'' @ show_nat (length f) @ '':'' @ f"

definition signing_input :: "cloud_item \<Rightarrow> bytes" where
  "signing_input m =
     signature_prefix @ show_nat signature_schema_version @ concat (map signing_field (signing_fields m))"

definition row_mac :: "cloud_env \<Rightarrow> sync_key \<Rightarrow> cloud_item \<Rightarrow> bytes" where
  "row_mac ce key m = ce_hmac ce (sk_row_signing key) (signing_input m)"

definition sign_metadata :: "cloud_env \<Rightarrow> sync_key \<Rightarrow> cloud_item \<Rightarrow> string" where
  "sign_metadata ce key m = pe_base64 (ce_payload ce) (row_mac ce key m)"

definition verify_metadata :: "cloud_env \<Rightarrow> sync_key \<Rightarrow> cloud_item \<Rightarrow> string \<Rightarrow> cloud_crypto_error + unit" where
  "verify_metadata ce key m signature =
     (case pe_unbase64 (ce_payload ce) signature of
        None \<Rightarrow> Inl SignatureInvalid
      | Some offered \<Rightarrow> if offered = row_mac ce key m then Inr () else Inl SignatureInvalid)"

definition row_sign :: "cloud_env \<Rightarrow> sync_key \<Rightarrow> cloud_item \<Rightarrow> cloud_item" where
  "row_sign ce key row = row\<lparr>ci_signature := sign_metadata ce key row\<rparr>"

definition row_verify :: "cloud_env \<Rightarrow> sync_key \<Rightarrow> cloud_item \<Rightarrow> cloud_crypto_error + unit" where
  "row_verify ce key row = verify_metadata ce key row (ci_signature row)"

section \<open>What may be sent\<close>

datatype rest_error =
    RestUnauthorized | RestForbidden | RestRateLimited "nat option" | RestNetwork | RestServer nat
  | RestRejected nat | RestMalformed | RestInvalidItem string

definition validate_item_id :: "string \<Rightarrow> rest_error + unit" where
  "validate_item_id item_id =
     (if item_id = [] then Inl (RestInvalidItem ''item_id must not be empty'')
      else if list_all (\<lambda>c. is_ascii_alphanumeric c \<or> c = CHR ''-'' \<or> c = CHR ''_'') item_id then Inr ()
      else Inl (RestInvalidItem ''item_id must be [A-Za-z0-9_-]''))"

definition row_validate :: "cloud_env \<Rightarrow> cloud_item \<Rightarrow> rest_error + unit" where
  "row_validate ce row =
     first_err
       [validate_item_id (ci_item_id row),
        if ci_signature row = [] then Inl (RestInvalidItem ''the row's metadata was never signed'') else Inr (),
        if ci_deleted row \<and> ci_ciphertext row \<noteq> []
        then Inl (RestInvalidItem ''a tombstone must not carry ciphertext'') else Inr (),
        if ci_deleted row \<and> ci_payload_metadata row \<noteq> None
        then Inl (RestInvalidItem ''a tombstone must not carry payload metadata'') else Inr (),
        if ci_deleted row \<and> (ci_source_app_bundle_id row \<noteq> None \<or> ci_source_app_name row \<noteq> None)
        then Inl (RestInvalidItem ''a tombstone must not carry source app metadata'') else Inr (),
        if ci_content_type row = ''file'' \<and> \<not> ci_deleted row \<and> ci_payload_metadata row = None
        then Inl (RestInvalidItem ''a file item must carry payload metadata'') else Inr (),
        (case ci_payload_metadata row of
           None \<Rightarrow> Inr ()
         | Some m \<Rightarrow>
             if length m > max_sync_metadata_bytes
                \<or> metadata_from_json (ce_payload ce) m (ci_content_type row) = None
             then Inl (RestInvalidItem ''payload metadata must be a bounded valid envelope'') else Inr ()),
        if \<not> ci_deleted row \<and> ci_ciphertext row = []
        then Inl (RestInvalidItem ''a live item must carry ciphertext'') else Inr (),
        if ci_content_type row = [] \<or> ci_origin_device_id row = []
        then Inl (RestInvalidItem ''content_type and origin_device_id are required'') else Inr ()]"

section \<open>What a signature and a seal bind\<close>

lemma signing_fields_inj:
  "concat (map signing_field xs) = concat (map signing_field ys) \<Longrightarrow> xs = ys"
proof (induction xs arbitrary: ys)
  case Nil
  then show ?case by (cases ys) (simp_all add: signing_field_def)
next
  case (Cons x xs)
  then obtain y zs where ys: "ys = y # zs" by (cases ys) (auto simp: signing_field_def)
  let ?cx = "concat (map signing_field xs)" let ?cz = "concat (map signing_field zs)"
  from Cons.prems ys have "length x = length y \<and> x @ ?cx = y @ ?cz"
    using length_prefix_inj[of "length x" "x @ ?cx" "length y" "y @ ?cz"]
    by (simp add: signing_field_def[of x] signing_field_def[of y])
  with Cons.IH[of zs] ys show ?case by (metis append_eq_append_conv)
qed

lemma show_int_inj: "show_int i = show_int j \<Longrightarrow> i = j"
proof -
  assume eq: "show_int i = show_int j"
  have digits: "show_nat n \<noteq> CHR ''-'' # s" for n s
    using show_nat_spec[of n] by (auto simp: is_ascii_digit_def in_range_def)
  from eq show ?thesis
    using digits digits[symmetric] by (auto simp: show_int_def split: if_splits dest!: show_nat_inj)
qed

lemma option_fields_inj: "option_marker u = option_marker v \<Longrightarrow> option_value u = option_value v \<Longrightarrow> u = v"
  by (auto simp: option_marker_def option_value_def split: option.splits)

lemma signing_input_inj:
  assumes "signing_input a = signing_input b" and "ci_signature a = ci_signature b"
  shows "a = b"
proof -
  from assms(1) have "signing_fields a = signing_fields b"
    by (intro signing_fields_inj) (simp add: signing_input_def)
  then show ?thesis
    using assms(2) option_fields_inj show_int_inj
    by (auto simp: signing_fields_def split: if_splits intro!: cloud_item.equality)
qed

lemma sign_verifies: "base64_ok ce \<Longrightarrow> row_verify ce key (row_sign ce key row) = Inr ()"
  by (simp add: row_verify_def verify_metadata_def row_sign_def sign_metadata_def base64_ok_def row_mac_def
      signing_input_def signing_fields_def)

lemma cloud_aad_inj: "cloud_aad i = cloud_aad j \<longleftrightarrow> i = j"
  using length_prefix_inj[of "length i" i "length j" j] by (auto simp: cloud_aad_def)

lemma cloud_aad_apart: "cloud_aad i \<noteq> item_aad j"
  by (simp add: cloud_aad_def item_aad_def cloud_aad_prefix_def item_aad_prefix_def)

lemma encrypt_row_opens:
  assumes "aead_ok (ce_sealing ce)" and "base64_ok ce" and "length nonce = aead_nonce_len"
    and "encrypt_row ce nonce plaintext key i = Inr (n, c)"
  shows "decrypt_row ce c n key i = Inr plaintext"
proof -
  from assms(4) obtain ct where s: "sl_seal (ce_sealing ce) (sk_material key) nonce (cloud_aad i) plaintext = Some ct"
    and nc: "n = pe_base64 (ce_payload ce) nonce" "c = pe_base64 (ce_payload ce) ct"
    by (auto simp: encrypt_row_def split: option.splits)
  have "length ct = length plaintext + aead_tag_len"
    "sl_open (ce_sealing ce) (sk_material key) nonce (cloud_aad i) ct = Some plaintext"
    using s whole_length[OF assms(1)] whole[OF assms(1)] by blast+
  with nc assms(2,3) show ?thesis by (simp add: decrypt_row_def base64_ok_def)
qed

end
