(* ===== verification/Cloud_Session.thy ===== *)
theory Cloud_Session
  imports Cloud_Row
begin

text \<open>
  The account session and the recovery of one request: \<open>crates/copypaste-cloud/src/sync/retry.rs\<close>,
  the session half of \<open>sync/driver.rs\<close>, the faults of \<open>sync/transport.rs\<close>, their sources in
  \<open>sync/adapters.rs\<close>, the errors of \<open>copypaste-sync/src/outcome.rs\<close>, and the poll interval of
  \<open>copypaste-sync/src/cadence.rs\<close> and \<open>sync/cadence.rs\<close>.

  Everything outside this object, the backend and the host that persists sessions, is one state
  of an arbitrary type on which the requests act. At every point where the code awaits, other
  tasks that share the session may run: what they do to it is the next entry of \<open>cw_others\<close>. A
  duration is a natural number of nanoseconds; the waits of a request are kept in \<open>cw_waits\<close>.
\<close>

section \<open>Durations and the poll interval\<close>

definition from_secs :: "nat \<Rightarrow> nat" where "from_secs s = s * 1000000000"

definition duration_max :: nat where "duration_max = (2 ^ 64 - 1) * 1000000000 + 999999999"

definition duration_saturating_mul :: "nat \<Rightarrow> nat \<Rightarrow> nat" where
  "duration_saturating_mul d k = min (d * k) duration_max"

definition min_poll_interval :: nat where "min_poll_interval = from_secs 5"
definition max_poll_interval :: nat where "max_poll_interval = from_secs 300"
definition max_poll_interval_without_push :: nat where "max_poll_interval_without_push = from_secs 10"

record cadence =
  ad_floor :: nat
  ad_ceiling :: nat
  ad_current :: nat

text \<open>The constructor and the idle step assert that the floor is not above the ceiling; a panic is \<open>None\<close>.\<close>

definition cadence_new :: "nat \<Rightarrow> nat \<Rightarrow> cadence option" where
  "cadence_new fl ceil =
     (if fl \<le> ceil then Some \<lparr>ad_floor = fl, ad_ceiling = ceil, ad_current = fl\<rparr> else None)"

definition interval_with_ceiling :: "nat \<Rightarrow> cadence \<Rightarrow> nat" where
  "interval_with_ceiling ceil c = min (ad_current c) ceil"

definition note_activity_with_ceiling :: "bool \<Rightarrow> nat \<Rightarrow> cadence \<Rightarrow> cadence option" where
  "note_activity_with_ceiling changed ceil c =
     (if ad_floor c \<le> ceil
      then Some (c\<lparr>ad_current := if changed then ad_floor c
                   else min (min (duration_saturating_mul (ad_current c) 2) (ad_ceiling c)) ceil\<rparr>)
      else None)"

definition note_activity :: "bool \<Rightarrow> cadence \<Rightarrow> cadence option" where
  "note_activity changed c = note_activity_with_ceiling changed (ad_ceiling c) c"

definition cadence_reset :: "cadence \<Rightarrow> cadence" where
  "cadence_reset c = c\<lparr>ad_current := ad_floor c\<rparr>"

definition idle_ceiling :: "bool \<Rightarrow> nat" where
  "idle_ceiling push_channel_live =
     (if push_channel_live then max_poll_interval else max_poll_interval_without_push)"

definition poll_interval :: "bool \<Rightarrow> cadence \<Rightarrow> nat" where
  "poll_interval push_channel_live c = interval_with_ceiling (idle_ceiling push_channel_live) c"

section \<open>Faults\<close>

datatype transport_fault =
    FaultUnauthorized | FaultRateLimited "nat option" | FaultTransient string | FaultPermanent string

datatype auth_fault =
    AuthInvalidCredentials | AuthSessionExpired | AuthRateLimited "nat option" | AuthUnavailable string

datatype auth_error =
    AuthErrInvalidCredentials | AuthErrSessionExpired | AuthErrRateLimited "nat option" | AuthErrNetwork
  | AuthErrServer nat | AuthErrRejected nat | AuthErrEmailConfirmationRequired | AuthErrMalformed

datatype cloud_error =
    CloudSourceError string | CloudEncrypt | CloudUnauthorized | CloudInvalidCredentials
  | CloudSessionExpired | CloudRateLimited | CloudTransport string

definition classify_rest :: "rest_error \<Rightarrow> transport_fault" where
  "classify_rest e =
     (case e of
        RestUnauthorized \<Rightarrow> FaultUnauthorized
      | RestRateLimited secs \<Rightarrow> FaultRateLimited (map_option from_secs secs)
      | RestNetwork \<Rightarrow> FaultTransient ''could not reach the sync backend''
      | RestServer _ \<Rightarrow> FaultTransient ''the sync backend faulted''
      | RestForbidden \<Rightarrow> FaultPermanent ''the account may not touch these rows''
      | RestRejected _ \<Rightarrow> FaultPermanent ''the sync backend rejected the request''
      | RestMalformed \<Rightarrow> FaultPermanent ''the sync backend returned an unexpected response''
      | RestInvalidItem reason \<Rightarrow> FaultPermanent reason)"

definition classify_auth :: "auth_error \<Rightarrow> auth_fault" where
  "classify_auth e =
     (case e of
        AuthErrInvalidCredentials \<Rightarrow> AuthInvalidCredentials
      | AuthErrSessionExpired \<Rightarrow> AuthSessionExpired
      | AuthErrEmailConfirmationRequired \<Rightarrow> AuthSessionExpired
      | AuthErrRejected _ \<Rightarrow> AuthSessionExpired
      | AuthErrMalformed \<Rightarrow> AuthSessionExpired
      | AuthErrRateLimited secs \<Rightarrow> AuthRateLimited (map_option from_secs secs)
      | AuthErrNetwork \<Rightarrow> AuthUnavailable ''could not reach the account service''
      | AuthErrServer _ \<Rightarrow> AuthUnavailable ''the account service faulted'')"

section \<open>The session\<close>

record auth_session =
  se_access_token :: string
  se_refresh_token :: string
  se_user_id :: string
  se_expires_at_ms :: int

text \<open>\<open>au_events\<close> is the value of the watch channel.\<close>

record session_state =
  au_session :: auth_session
  au_revision :: "64 word"
  au_fenced :: bool
  au_events :: "64 word"

datatype session_revision = RevCurrent | RevSuperseded | RevFenced

definition refresh_snapshot :: "session_state \<Rightarrow> (64 word \<times> string) option" where
  "refresh_snapshot st =
     (if au_fenced st then None else Some (au_revision st, se_refresh_token (au_session st)))"

definition fence_session :: "64 word option \<Rightarrow> session_state \<Rightarrow> bool \<times> session_state" where
  "fence_session expected st =
     (if (case expected of None \<Rightarrow> False | Some r \<Rightarrow> au_revision st \<noteq> r) then (False, st)
      else (True, st\<lparr>au_fenced := True, au_events := if au_fenced st then au_events st else au_events st + 1\<rparr>))"

definition revision_state :: "64 word \<Rightarrow> session_state \<Rightarrow> session_revision" where
  "revision_state expected st =
     (if au_fenced st then RevFenced else if au_revision st = expected then RevCurrent else RevSuperseded)"

definition install_refreshed_session ::
  "64 word \<Rightarrow> auth_session \<Rightarrow> session_state \<Rightarrow> session_revision \<times> session_state" where
  "install_refreshed_session expected session st =
     (if au_fenced st then (RevFenced, st)
      else if au_revision st \<noteq> expected then (RevSuperseded, st)
      else (RevCurrent, st\<lparr>au_session := session, au_revision := au_revision st + 1, au_events := au_events st + 1\<rparr>))"

section \<open>One request\<close>

record 'o cloud_world =
  cw_auth :: session_state
  cw_others :: "(session_state \<Rightarrow> session_state) list"
  cw_waits :: "nat list"
  cw_clock :: "int list"
  cw_cadence :: cadence
  cw_push_channel :: bool
  cw_group_downloaded :: "(string, string) fmap"
  cw_group_uploaded :: "(bytes \<times> string) option"
  cw_out :: 'o

record 'o account_io =
  io_refresh :: "string \<Rightarrow> 'o \<Rightarrow> (auth_fault + auth_session) \<times> 'o"
  io_persist :: "auth_session \<Rightarrow> 'o \<Rightarrow> (cloud_error + unit) \<times> 'o"

definition await :: "'o cloud_world \<Rightarrow> 'o cloud_world" where
  "await w =
     (case cw_others w of
        [] \<Rightarrow> w
      | f # rest \<Rightarrow> w\<lparr>cw_auth := f (cw_auth w), cw_others := rest\<rparr>)"

text \<open>A call on the outside, during which others may run.\<close>

definition call :: "('o \<Rightarrow> 'r \<times> 'o) \<Rightarrow> 'o cloud_world \<Rightarrow> 'r \<times> 'o cloud_world" where
  "call f w = (let (r, out) = f (cw_out w) in (r, await (w\<lparr>cw_out := out\<rparr>)))"

definition refresh_error :: "auth_fault \<Rightarrow> cloud_error" where
  "refresh_error e =
     (case e of
        AuthInvalidCredentials \<Rightarrow> CloudInvalidCredentials
      | AuthSessionExpired \<Rightarrow> CloudSessionExpired
      | AuthRateLimited _ \<Rightarrow> CloudRateLimited
      | AuthUnavailable reason \<Rightarrow> CloudTransport reason)"

text \<open>What \<open>refresh_session\<close> does with the answer of the account service.\<close>

definition refresh_answered ::
  "'o account_io \<Rightarrow> 64 word \<Rightarrow> auth_fault + auth_session \<Rightarrow> 'o cloud_world
   \<Rightarrow> (cloud_error + unit) \<times> 'o cloud_world" where
  "refresh_answered io revision answer w =
     (case answer of
        Inr session \<Rightarrow>
          (case install_refreshed_session revision session (cw_auth w) of
             (RevCurrent, st) \<Rightarrow>
               (let w = await (w\<lparr>cw_auth := st\<rparr>);
                    (r, out) = io_persist io (au_session (cw_auth w)) (cw_out w)
                in (r, w\<lparr>cw_out := out\<rparr>))
           | (RevSuperseded, _) \<Rightarrow> (Inr (), w)
           | (RevFenced, _) \<Rightarrow> (Inl CloudSessionExpired, w))
      | Inl e \<Rightarrow>
          (case revision_state revision (cw_auth w) of
             RevSuperseded \<Rightarrow> (Inr (), w)
           | RevFenced \<Rightarrow> (Inl CloudSessionExpired, w)
           | RevCurrent \<Rightarrow>
               let error = refresh_error e
               in (Inl error,
                   if error = CloudInvalidCredentials \<or> error = CloudSessionExpired
                   then w\<lparr>cw_auth := snd (fence_session (Some revision) (cw_auth w))\<rparr> else w)))"

definition refresh_session :: "'o account_io \<Rightarrow> 'o cloud_world \<Rightarrow> (cloud_error + unit) \<times> 'o cloud_world" where
  "refresh_session io w =
     (case refresh_snapshot (cw_auth w) of
        None \<Rightarrow> (Inl CloudSessionExpired, w)
      | Some (revision, refresh_token) \<Rightarrow>
          let w = await w in
          (case revision_state revision (cw_auth w) of
             RevSuperseded \<Rightarrow> (Inr (), w)
           | RevFenced \<Rightarrow> (Inl CloudSessionExpired, w)
           | RevCurrent \<Rightarrow>
               (let (answer, w) = call (io_refresh io refresh_token) w
                in refresh_answered io revision answer w)))"

definition retry_after_fallback :: nat where "retry_after_fallback = from_secs 1"
definition max_retry_after :: nat where "max_retry_after = from_secs 30"

definition rate_limit_delay :: "nat option \<Rightarrow> nat" where
  "rate_limit_delay retry_after =
     min (case retry_after of None \<Rightarrow> retry_after_fallback | Some d \<Rightarrow> d) max_retry_after"

definition wait_for :: "nat \<Rightarrow> 'o cloud_world \<Rightarrow> 'o cloud_world" where
  "wait_for d w = await (w\<lparr>cw_waits := cw_waits w @ [d]\<rparr>)"

type_synonym ('o, 'a) rest_request = "string \<Rightarrow> 'o \<Rightarrow> (transport_fault + 'a) \<times> 'o"

function execute_loop ::
  "'o account_io \<Rightarrow> ('o, 'a) rest_request \<Rightarrow> bool \<Rightarrow> bool \<Rightarrow> 'o cloud_world
   \<Rightarrow> (cloud_error + 'a) \<times> 'o cloud_world" where
  "execute_loop io op refreshed waited_on_429 w =
     (let token = se_access_token (au_session (cw_auth w));
          (answer, w) = call (op token) w
      in case answer of
           Inr v \<Rightarrow> (Inr v, w)
         | Inl FaultUnauthorized \<Rightarrow>
             if refreshed then (Inl CloudUnauthorized, w)
             else (case refresh_session io w of
                     (Inl e, w) \<Rightarrow> (Inl e, w)
                   | (Inr _, w) \<Rightarrow> execute_loop io op True waited_on_429 w)
         | Inl (FaultRateLimited retry_after) \<Rightarrow>
             if waited_on_429 then (Inl CloudRateLimited, w)
             else execute_loop io op refreshed True (wait_for (rate_limit_delay retry_after) w)
         | Inl (FaultTransient reason) \<Rightarrow> (Inl (CloudTransport reason), w)
         | Inl (FaultPermanent reason) \<Rightarrow> (Inl (CloudTransport reason), w))"
  by pat_completeness auto

termination
  by (relation "measure (\<lambda>(io, op, refreshed, waited, w). (if refreshed then 0 else 1) + (if waited then 0 else 1))")
    auto

declare execute_loop.simps [simp del]

definition execute ::
  "'o account_io \<Rightarrow> ('o, 'a) rest_request \<Rightarrow> 'o cloud_world \<Rightarrow> (cloud_error + 'a) \<times> 'o cloud_world" where
  "execute io op w = execute_loop io op False False w"

section \<open>What the session can do\<close>

inductive session_step :: "session_state \<Rightarrow> session_state \<Rightarrow> bool" where
  installs: "\<not> au_fenced st \<Longrightarrow>
    session_step st (st\<lparr>au_session := s, au_revision := au_revision st + 1, au_events := au_events st + 1\<rparr>)"
| fences: "session_step st (st\<lparr>au_fenced := True, au_events := e\<rparr>)"

inductive_cases session_stepE: "session_step st st'"

definition others_behave :: "'o cloud_world \<Rightarrow> bool" where
  "others_behave w \<longleftrightarrow> (\<forall>f \<in> set (cw_others w). \<forall>st. session_step\<^sup>*\<^sup>* st (f st))"

definition session_moves :: "'o cloud_world \<Rightarrow> 'o cloud_world \<Rightarrow> bool" where
  "session_moves w w' \<longleftrightarrow> session_step\<^sup>*\<^sup>* (cw_auth w) (cw_auth w') \<and> set (cw_others w') \<subseteq> set (cw_others w)"

lemma session_moves_refl [simp]: "session_moves w w"
  by (simp add: session_moves_def)

lemma session_moves_trans: "session_moves a b \<Longrightarrow> session_moves b c \<Longrightarrow> session_moves a c"
  by (auto simp: session_moves_def)

lemma session_moves_others: "session_moves w w' \<Longrightarrow> others_behave w \<Longrightarrow> others_behave w'"
  by (auto simp: session_moves_def others_behave_def)

lemma session_moves_out [simp]:
  "session_moves w (w'\<lparr>cw_out := out\<rparr>) = session_moves w w'" "session_moves w (w'\<lparr>cw_waits := ds\<rparr>) = session_moves w w'"
  "session_moves (w\<lparr>cw_out := out\<rparr>) w' = session_moves w w'" "session_moves (w\<lparr>cw_waits := ds\<rparr>) w' = session_moves w w'"
  by (simp_all add: session_moves_def)

lemma others_behave_out [simp]:
  "others_behave (w\<lparr>cw_out := out\<rparr>) = others_behave w" "others_behave (w\<lparr>cw_waits := ds\<rparr>) = others_behave w"
  "others_behave (w\<lparr>cw_auth := st\<rparr>) = others_behave w"
  by (simp_all add: others_behave_def)

lemma await_moves: "others_behave w \<Longrightarrow> session_moves w (await w)"
  by (auto simp: await_def others_behave_def session_moves_def split: list.splits)

lemma call_moves:
  assumes "others_behave w" and "call f w = (r, w')"
  shows "session_moves w w'"
  using await_moves[of "w\<lparr>cw_out := snd (f (cw_out w))\<rparr>"] assms by (auto simp: call_def split: prod.splits)

lemma fence_steps: "session_step\<^sup>*\<^sup>* st (snd (fence_session expected st))"
proof -
  define st' where "st' = st\<lparr>au_fenced := True, au_events := if au_fenced st then au_events st else au_events st + 1\<rparr>"
  have "session_step st st'" unfolding st'_def by (rule fences)
  moreover have "snd (fence_session expected st) \<in> {st, st'}"
    unfolding fence_session_def st'_def by (simp only: insert_iff split: if_split) simp
  ultimately show ?thesis by auto
qed

lemma install_steps: "session_step\<^sup>*\<^sup>* st (snd (install_refreshed_session expected s st))"
  by (auto simp: install_refreshed_session_def intro: r_into_rtranclp installs)

lemma set_auth_moves: "session_step\<^sup>*\<^sup>* (cw_auth w) st \<Longrightarrow> session_moves w (w\<lparr>cw_auth := st\<rparr>)"
  by (simp add: session_moves_def)

lemma answered_moves:
  assumes "others_behave w" and "refresh_answered io revision answer w = (r, w')"
  shows "session_moves w w'"
proof (cases answer)
  case (Inl e)
  with assms(2) set_auth_moves[OF fence_steps] show ?thesis
    by (auto simp: refresh_answered_def Let_def split: session_revision.splits if_splits)
next
  case (Inr s)
  obtain v st where i: "install_refreshed_session revision s (cw_auth w) = (v, st)" by fastforce
  with install_steps[of "cw_auth w" revision s] have m: "session_moves w (w\<lparr>cw_auth := st\<rparr>)"
    by (simp add: set_auth_moves)
  then have "session_moves w (await (w\<lparr>cw_auth := st\<rparr>))"
    using await_moves[of "w\<lparr>cw_auth := st\<rparr>"] assms(1) session_moves_trans by (simp, blast)
  with assms(2) i show ?thesis
    by (auto simp: refresh_answered_def Inr Let_def split: session_revision.splits prod.splits)
qed

lemma refresh_moves:
  assumes "others_behave w" and "refresh_session io w = (r, w')"
  shows "session_moves w w'"
proof -
  have a: "session_moves w (await w)" by (rule await_moves[OF assms(1)])
  have "session_moves w v" if "call f (await w) = (x, u)" "refresh_answered io rev x u = (y, v)" for f x u y v rev
  proof -
    have "session_moves (await w) u" using call_moves[OF _ that(1)] session_moves_others[OF a assms(1)] by blast
    with a have m: "session_moves w u" by (rule session_moves_trans)
    from answered_moves[OF session_moves_others[OF m assms(1)] that(2)] m show ?thesis
      using session_moves_trans by blast
  qed
  then show ?thesis
    using assms(2) a
    by (auto simp: refresh_session_def Let_def split: option.splits prod.splits session_revision.splits)
qed

lemma wait_moves: "others_behave w \<Longrightarrow> session_moves w (wait_for d w)"
  using await_moves[of "w\<lparr>cw_waits := cw_waits w @ [d]\<rparr>"] by (simp add: wait_for_def)

text \<open>
  The rule for a request: \<open>I\<close> holds before each attempt and \<open>Q\<close> after it, for the flags as they are
  then; each flag is raised once.
\<close>

lemma execute_loop_rule:
  assumes "execute_loop io op refreshed waited w = (r, w')" and "I refreshed waited w"
    and request: "\<And>f g w t a w1. I f g w \<Longrightarrow> call (op t) w = (a, w1) \<Longrightarrow> Q f g w1"
    and refresh: "\<And>g w x w1. Q False g w \<Longrightarrow> refresh_session io w = (x, w1) \<Longrightarrow> I True g w1"
    and waits: "\<And>f w d. Q f False w \<Longrightarrow> I f True (wait_for (rate_limit_delay d) w)"
    and stop: "\<And>f g w. Q f g w \<Longrightarrow> P w" "\<And>g w. I True g w \<Longrightarrow> P w"
  shows "P w'"
  using assms(1,2)
proof (induction "(if refreshed then 0 else 1) + (if waited then 0 else 1 :: nat)" arbitrary: refreshed waited w
    rule: less_induct)
  case less
  obtain a w1 where c: "call (op (se_access_token (au_session (cw_auth w)))) w = (a, w1)" by fastforce
  note run = less.prems(1)[unfolded execute_loop.simps[of io op refreshed waited w] Let_def c, simplified]
  have q: "Q refreshed waited w1" using less.prems(2) c by (rule request)
  consider (refreshes) "a = Inl FaultUnauthorized" "\<not> refreshed" | (delays) d where "a = Inl (FaultRateLimited d)" "\<not> waited"
    | (ends) "w' = w1"
    using run by (auto split: sum.splits transport_fault.splits if_splits)
  then show ?case
  proof cases
    case ends
    with stop(1)[OF q] show ?thesis by simp
  next
    case refreshes
    obtain x w2 where r: "refresh_session io w1 = (x, w2)" by fastforce
    have i: "I True waited w2" using q refreshes(2) r refresh by simp
    show ?thesis
    proof (cases x)
      case Inl
      with run refreshes r stop(2)[OF i] show ?thesis by simp
    next
      case Inr
      with run refreshes r have "execute_loop io op True waited w2 = (r, w')" by simp
      then show ?thesis by (rule less.hyps[rotated]) (use i refreshes in simp_all)
    qed
  next
    case (delays d)
    with run have "execute_loop io op refreshed True (wait_for (rate_limit_delay d) w1) = (r, w')" by simp
    then show ?thesis by (rule less.hyps[rotated]) (use q waits delays in simp_all)
  qed
qed

lemma execute_moves:
  assumes ok: "others_behave w" and "execute io op w = (r, w')"
  shows "session_moves w w'"
proof (rule execute_loop_rule[OF assms(2)[unfolded execute_def], where I = "\<lambda>_ _. session_moves w" and Q = "\<lambda>_ _. session_moves w"])
  fix v t a w1 assume v: "session_moves w v" and c: "call (op t) v = (a, w1)"
  show "session_moves w w1" by (rule session_moves_trans[OF v call_moves[OF session_moves_others[OF v ok] c]])
next
  fix v x w1 assume v: "session_moves w v" and c: "refresh_session io v = (x, w1)"
  show "session_moves w w1" by (rule session_moves_trans[OF v refresh_moves[OF session_moves_others[OF v ok] c]])
next
  fix v d assume v: "session_moves w v"
  show "session_moves w (wait_for (rate_limit_delay d) v)"
    by (rule session_moves_trans[OF v wait_moves[OF session_moves_others[OF v ok]]])
qed simp_all

lemma fenced_step: "session_step st st' \<Longrightarrow> au_fenced st \<Longrightarrow> au_fenced st' \<and> au_session st' = au_session st"
  by (erule session_stepE) simp_all

lemma fenced_forever:
  "session_step\<^sup>*\<^sup>* st st' \<Longrightarrow> au_fenced st \<Longrightarrow> au_fenced st' \<and> au_session st' = au_session st"
  by (induction rule: rtranclp_induct) (use fenced_step in \<open>auto\<close>)

section \<open>What a request costs\<close>

lemma await_keeps [simp]:
  "cw_out (await w) = cw_out w" "cw_waits (await w) = cw_waits w" "cw_clock (await w) = cw_clock w"
  by (simp_all add: await_def split: list.split)

lemma call_keeps:
  "call f w = (r, w') \<Longrightarrow> f (cw_out w) = (r, cw_out w') \<and> cw_waits w' = cw_waits w \<and> cw_clock w' = cw_clock w"
  by (auto simp: call_def split: prod.splits)

lemma wait_keeps [simp]:
  "cw_out (wait_for d w) = cw_out w" "cw_waits (wait_for d w) = cw_waits w @ [d]" "cw_clock (wait_for d w) = cw_clock w"
  by (simp_all add: wait_for_def)

lemma answered_keeps:
  assumes "refresh_answered io revision answer w = (r, w')"
  shows "(cw_out w' = cw_out w \<or> (\<exists>s. cw_out w' = snd (io_persist io s (cw_out w)))) \<and> cw_waits w' = cw_waits w
    \<and> cw_clock w' = cw_clock w"
proof (cases answer)
  case (Inl e)
  with assms show ?thesis by (auto simp: refresh_answered_def Let_def split: session_revision.splits if_splits)
next
  case (Inr s)
  with assms show ?thesis
    by (auto simp: refresh_answered_def Let_def split: session_revision.splits prod.splits) (metis snd_conv)
qed

lemma refresh_keeps:
  assumes "refresh_session io w = (r, w')"
  shows "cw_waits w' = cw_waits w \<and> cw_clock w' = cw_clock w
    \<and> (cw_out w' = cw_out w
       \<or> (\<exists>t out. out = snd (io_refresh io t (cw_out w)) \<and> (cw_out w' = out \<or> (\<exists>s. cw_out w' = snd (io_persist io s out)))))"
proof -
  have "cw_waits v = cw_waits w \<and> cw_clock v = cw_clock w
      \<and> (\<exists>t out. out = snd (io_refresh io t (cw_out w)) \<and> (cw_out v = out \<or> (\<exists>s. cw_out v = snd (io_persist io s out))))"
    if "call (io_refresh io t) (await w) = (x, u)" "refresh_answered io rev x u = (y, v)" for t x u y v rev
    using call_keeps[OF that(1)] answered_keeps[OF that(2)] by (metis await_keeps snd_conv)
  then show ?thesis
    using assms
    by (fastforce simp: refresh_session_def Let_def split: option.splits prod.splits session_revision.splits)
qed

text \<open>Any measure of what a request does to the outside, with a bound for each kind of call.\<close>

lemma execute_cost:
  assumes run: "execute io op w = (r, w')"
    and op: "\<And>t out. cost (snd (op t out)) \<le> cost out + (a::nat)"
    and io: "\<And>t out. cost (snd (io_refresh io t out)) \<le> cost out + b" "\<And>s out. cost (snd (io_persist io s out)) \<le> cost out + c"
  shows "cost (cw_out w') \<le> cost (cw_out w) + 3 * a + b + c"
proof (rule execute_loop_rule[OF run[unfolded execute_def], where
      I = "\<lambda>f g v. cost (cw_out v) \<le> cost (cw_out w) + (if f then a + b + c else 0) + (if g then a else 0)" and
      Q = "\<lambda>f g v. cost (cw_out v) \<le> cost (cw_out w) + (if f then a + b + c else 0) + (if g then a else 0) + a"])
  fix f g v t x w1
  assume "cost (cw_out v) \<le> cost (cw_out w) + (if f then a + b + c else 0) + (if g then a else 0)" "call (op t) v = (x, w1)"
  then show "cost (cw_out w1) \<le> cost (cw_out w) + (if f then a + b + c else 0) + (if g then a else 0) + a"
    using call_keeps[of "op t" v x w1] op[of t "cw_out v"] by simp
next
  fix g v x w1
  assume q: "cost (cw_out v) \<le> cost (cw_out w) + (if False then a + b + c else 0) + (if g then a else 0) + a"
    and r: "refresh_session io v = (x, w1)"
  have "cost (cw_out w1) \<le> cost (cw_out v) + b + c"
  proof -
    from refresh_keeps[OF r] consider "cw_out w1 = cw_out v" | t where "cw_out w1 = snd (io_refresh io t (cw_out v))"
      | t s where "cw_out w1 = snd (io_persist io s (snd (io_refresh io t (cw_out v))))" by blast
    then show ?thesis
    proof cases
      case (2 t)
      with io(1)[of t "cw_out v"] show ?thesis by simp
    next
      case (3 t s)
      with io(1)[of t "cw_out v"] io(2)[of s "snd (io_refresh io t (cw_out v))"] show ?thesis by simp
    qed simp
  qed
  with q show "cost (cw_out w1) \<le> cost (cw_out w) + (if True then a + b + c else 0) + (if g then a else 0)" by simp
qed (auto split: if_splits)

text \<open>What every call keeps of the outside, the request keeps; and what it returns, one call answered.\<close>

lemma execute_out:
  assumes run: "execute io op w = (r, w')"
    and R: "\<And>x. R x x" "\<And>x y z. R x y \<Longrightarrow> R y z \<Longrightarrow> R x z"
    and op: "\<And>t out. R out (snd (op t out))"
    and io: "\<And>t out. R out (snd (io_refresh io t out))" "\<And>s out. R out (snd (io_persist io s out))"
  shows "R (cw_out w) (cw_out w')"
proof (rule execute_loop_rule[OF run[unfolded execute_def], where I = "\<lambda>_ _ v. R (cw_out w) (cw_out v)" and
      Q = "\<lambda>_ _ v. R (cw_out w) (cw_out v)"])
  fix v t a w1 assume "R (cw_out w) (cw_out v)" "call (op t) v = (a, w1)"
  then show "R (cw_out w) (cw_out w1)" using call_keeps op R(2) by (metis snd_conv)
next
  fix v x w1 assume v: "R (cw_out w) (cw_out v)" and r: "refresh_session io v = (x, w1)"
  have "R (cw_out v) (cw_out w1)" using refresh_keeps[OF r] io R by metis
  with v show "R (cw_out w) (cw_out w1)" by (rule R(2))
qed (use R in simp_all)

lemma execute_loop_result:
  "execute_loop io op refreshed waited w = (Inr v, w') \<Longrightarrow> \<exists>t out. op t out = (Inr v, cw_out w')"
proof (induction "(if refreshed then 0 else 1) + (if waited then 0 else 1 :: nat)" arbitrary: refreshed waited w
    rule: less_induct)
  case less
  let ?t = "se_access_token (au_session (cw_auth w))"
  obtain a w1 where c: "call (op ?t) w = (a, w1)" by fastforce
  note run = less.prems[unfolded execute_loop.simps[of io op refreshed waited w] Let_def c, simplified]
  consider (answered) "a = Inr v" "w1 = w'" | (refreshes) w2 where "\<not> refreshed" "execute_loop io op True waited w2 = (Inr v, w')"
    | (delays) w2 where "\<not> waited" "execute_loop io op refreshed True w2 = (Inr v, w')"
    using run by (auto split: sum.splits transport_fault.splits if_splits prod.splits)
  then show ?case
  proof cases
    case answered
    with call_keeps[OF c] show ?thesis by metis
  next
    case refreshes
    then show ?thesis by (intro less.hyps[OF _ refreshes(2)]) simp
  next
    case delays
    then show ?thesis by (intro less.hyps[OF _ delays(2)]) simp
  qed
qed

lemma execute_waits:
  assumes run: "execute io op w = (r, w')"
  shows "cw_clock w' = cw_clock w
    \<and> (cw_waits w' = cw_waits w \<or> (\<exists>d. cw_waits w' = cw_waits w @ [d] \<and> d \<le> max_retry_after))"
proof (rule execute_loop_rule[OF run[unfolded execute_def], where
      I = "\<lambda>f g v. cw_clock v = cw_clock w \<and> (cw_waits v = cw_waits w
            \<or> g \<and> (\<exists>d. cw_waits v = cw_waits w @ [d] \<and> d \<le> max_retry_after))" and
      Q = "\<lambda>f g v. cw_clock v = cw_clock w \<and> (cw_waits v = cw_waits w
            \<or> g \<and> (\<exists>d. cw_waits v = cw_waits w @ [d] \<and> d \<le> max_retry_after))"])
qed (auto dest: call_keeps refresh_keeps simp: rate_limit_delay_def)

lemma fenced_ignores_account:
  assumes "others_behave w" and "au_fenced (cw_auth w)"
  shows "refresh_session io w = (Inl CloudSessionExpired, w)"
  using assms by (simp add: refresh_session_def refresh_snapshot_def)

lemma fenced_execute:
  assumes "others_behave w" and "au_fenced (cw_auth w)"
  shows "execute_loop io op refreshed waited w = execute_loop io' op refreshed waited w"
  using assms
proof (induction "(if refreshed then 0 else 1) + (if waited then 0 else 1 :: nat)" arbitrary: refreshed waited w
    rule: less_induct)
  case less
  obtain a w1 where c: "call (op (se_access_token (au_session (cw_auth w)))) w = (a, w1)" by fastforce
  note m = call_moves[OF less.prems(1) c]
  have w1: "others_behave w1" "au_fenced (cw_auth w1)"
    using session_moves_others[OF m less.prems(1)] m fenced_forever less.prems(2) by (auto simp: session_moves_def)
  have w2: "others_behave (wait_for d w1)" "au_fenced (cw_auth (wait_for d w1))" for d
    using session_moves_others[OF wait_moves[OF w1(1)] w1(1)] wait_moves[OF w1(1), of d] fenced_forever w1(2)
    unfolding session_moves_def by blast+
  have "execute_loop io op refreshed True (wait_for d w1) = execute_loop io' op refreshed True (wait_for d w1)"
    if "\<not> waited" for d
    by (rule less.hyps) (use that w2 in simp_all)
  then show ?case
    by (auto simp: execute_loop.simps[of _ op refreshed waited w] c fenced_ignores_account[OF w1]
        split: sum.split transport_fault.split)
qed

section \<open>The poll interval stays in its bounds\<close>

definition cadence_ok :: "cadence \<Rightarrow> bool" where
  "cadence_ok c \<longleftrightarrow> ad_floor c \<le> ad_current c \<and> ad_current c \<le> ad_ceiling c \<and> ad_ceiling c \<le> duration_max"

lemma cadence_steps_ok:
  "cadence_new fl ceil = Some c \<Longrightarrow> ceil \<le> duration_max \<Longrightarrow> cadence_ok c"
  "cadence_ok c \<Longrightarrow> note_activity_with_ceiling changed ceil c = Some c' \<Longrightarrow> cadence_ok c'"
  "cadence_ok c \<Longrightarrow> cadence_ok (cadence_reset c)"
  by (auto simp: cadence_new_def cadence_ok_def note_activity_with_ceiling_def duration_saturating_mul_def
      cadence_reset_def split: if_splits)

end
