(* ===== verification/Cloud_Sync.thy ===== *)
theory Cloud_Sync
  imports Cloud_Session History_Db
begin

text \<open>
  The cloud transport of a device: \<open>crates/copypaste-cloud/src/sync/push.rs\<close>, \<open>pull.rs\<close>,
  \<open>group.rs\<close> and \<open>sync\<close> of \<open>driver.rs\<close>, the two traits they talk through (\<open>transport.rs\<close> and
  \<open>copypaste-sync/src/source.rs\<close>), and the row and group requests of \<open>rest/client.rs\<close> and
  \<open>rest/group.rs\<close> over an HTTP layer that is an argument. A source acts on the same outside state
  as the requests.
\<close>

section \<open>The local side\<close>

record local_item =
  li_item_id :: string
  li_content :: bytes
  li_content_type :: string
  li_payload_metadata :: "string option"
  li_created_at :: int
  li_deleted :: bool
  li_origin_device_id :: string
  li_source_app_bundle_id :: "string option"
  li_source_app_name :: "string option"

datatype cloud_applied = Merged | Declined local_item

record 'o cloud_source =
  sc_group_snapshot :: "'o \<Rightarrow> (cloud_error + string option) \<times> 'o"
  sc_apply_group :: "string \<Rightarrow> string \<Rightarrow> 'o \<Rightarrow> (cloud_error + unit) \<times> 'o"
  sc_group_sync_allowed :: "'o \<Rightarrow> bool"
  sc_device_id :: string
  sc_local_changes_after :: "int \<Rightarrow> string option \<Rightarrow> 'o \<Rightarrow> (cloud_error + local_item list) \<times> 'o"
  sc_apply_remote_batch :: "local_item list \<Rightarrow> 'o \<Rightarrow> (cloud_error + cloud_applied list) \<times> 'o"
  sc_watermark :: "'o \<Rightarrow> (cloud_error + int) \<times> 'o"
  sc_watermark_item_id :: "'o \<Rightarrow> (cloud_error + string option) \<times> 'o"
  sc_upload_floor :: "'o \<Rightarrow> (cloud_error + int) \<times> 'o"
  sc_upload_floor_item_id :: "'o \<Rightarrow> (cloud_error + string option) \<times> 'o"
  sc_requeue_local_winner :: "local_item \<Rightarrow> 'o \<Rightarrow> (cloud_error + bool) \<times> 'o"
  sc_set_watermark_keyset :: "int \<Rightarrow> string \<Rightarrow> 'o \<Rightarrow> (cloud_error + unit) \<times> 'o"

text \<open>The provided method for a source that only knows a millisecond.\<close>

definition default_local_changes_after ::
  "(int \<Rightarrow> 'o \<Rightarrow> (cloud_error + local_item list) \<times> 'o) \<Rightarrow> int \<Rightarrow> string option \<Rightarrow> 'o
   \<Rightarrow> (cloud_error + local_item list) \<times> 'o" where
  "default_local_changes_after local_changes_since since_ms after_item_id out =
     (case local_changes_since since_ms out of
        (Inl e, out) \<Rightarrow> (Inl e, out)
      | (Inr items, out) \<Rightarrow>
          (Inr (case after_item_id of
                  None \<Rightarrow> items
                | Some k \<Rightarrow> filter (\<lambda>i. after_keyset since_ms (Some k) (li_created_at i) (li_item_id i)) items), out))"

definition too_large_to_sync :: "string \<Rightarrow> nat \<Rightarrow> bool" where
  "too_large_to_sync content_type byte_len \<longleftrightarrow> byte_len > max_content_bytes"

section \<open>The remote side\<close>

record group_row =
  gr_device_id :: string
  gr_ciphertext :: string
  gr_nonce :: string

record group_version =
  gv_device_id :: string
  gv_ciphertext_digest :: string

record 'o rest_api =
  ra_fetch_group_catalog :: "string \<Rightarrow> string option \<Rightarrow> 'o \<Rightarrow> (transport_fault + group_version list) \<times> 'o"
  ra_fetch_groups :: "string \<Rightarrow> string list \<Rightarrow> 'o \<Rightarrow> (transport_fault + group_row list) \<times> 'o"
  ra_upsert_group :: "string \<Rightarrow> group_row \<Rightarrow> 'o \<Rightarrow> (transport_fault + unit) \<times> 'o"
  ra_fetch_since :: "string \<Rightarrow> int \<Rightarrow> string option \<Rightarrow> nat \<Rightarrow> 'o \<Rightarrow> (transport_fault + cloud_item list) \<times> 'o"
  ra_upsert :: "string \<Rightarrow> cloud_item list \<Rightarrow> 'o \<Rightarrow> (transport_fault + unit) \<times> 'o"

record 'o cloud_sync =
  cy_rest :: "'o rest_api"
  cy_account :: "'o account_io"
  cy_key :: sync_key
  cy_env :: cloud_env

record cloud_stats =
  ct_uploaded :: nat
  ct_tombstoned :: nat
  ct_downloaded :: nat
  ct_applied :: nat
  ct_skipped_undecryptable :: nat
  ct_skipped_forged :: nat
  ct_skipped_future :: nat
  ct_skipped_too_large :: nat

definition cloud_stats_default :: cloud_stats where
  "cloud_stats_default =
     \<lparr>ct_uploaded = 0, ct_tombstoned = 0, ct_downloaded = 0, ct_applied = 0, ct_skipped_undecryptable = 0,
      ct_skipped_forged = 0, ct_skipped_future = 0, ct_skipped_too_large = 0\<rparr>"

definition stats_changed :: "cloud_stats \<Rightarrow> bool" where
  "stats_changed s \<longleftrightarrow> ct_uploaded s > 0 \<or> ct_tombstoned s > 0 \<or> ct_applied s > 0"

definition stats_merge :: "cloud_stats \<Rightarrow> cloud_stats \<Rightarrow> cloud_stats" where
  "stats_merge a b =
     \<lparr>ct_uploaded = ct_uploaded a + ct_uploaded b, ct_tombstoned = ct_tombstoned a + ct_tombstoned b,
      ct_downloaded = ct_downloaded a + ct_downloaded b, ct_applied = ct_applied a + ct_applied b,
      ct_skipped_undecryptable = ct_skipped_undecryptable a + ct_skipped_undecryptable b,
      ct_skipped_forged = ct_skipped_forged a + ct_skipped_forged b,
      ct_skipped_future = ct_skipped_future a + ct_skipped_future b,
      ct_skipped_too_large = ct_skipped_too_large a + ct_skipped_too_large b\<rparr>"

text \<open>An action of the driver: it fails with an error or returns, in the world after it.\<close>

type_synonym ('o, 'a) action = "'o cloud_world \<Rightarrow> (cloud_error + 'a) \<times> 'o cloud_world"

definition act_return :: "'a \<Rightarrow> ('o, 'a) action" where
  "act_return a w = (Inr a, w)"

definition act_bind :: "('o, 'a) action \<Rightarrow> ('a \<Rightarrow> ('o, 'b) action) \<Rightarrow> ('o, 'b) action" where
  "act_bind m f w = (case m w of (Inl e, w) \<Rightarrow> (Inl e, w) | (Inr a, w) \<Rightarrow> f a w)"

definition on_source :: "('o \<Rightarrow> (cloud_error + 'a) \<times> 'o) \<Rightarrow> ('o, 'a) action" where
  "on_source f w = (let (r, out) = f (cw_out w) in (r, w\<lparr>cw_out := out\<rparr>))"

definition request :: "'o cloud_sync \<Rightarrow> ('o, 'a) rest_request \<Rightarrow> ('o, 'a) action" where
  "request cy op w = execute (cy_account cy) op w"

definition read_clock :: "('o, int) action" where
  "read_clock w = (case cw_clock w of [] \<Rightarrow> (Inr 0, w) | t # ts \<Rightarrow> (Inr t, w\<lparr>cw_clock := ts\<rparr>))"

section \<open>Uploading\<close>

definition upload_batch :: nat where "upload_batch = 50"

fun chunks_of :: "nat \<Rightarrow> 'a list \<Rightarrow> 'a list list" where
  "chunks_of n xs = (if xs = [] \<or> n = 0 then [] else take n xs # chunks_of n (drop n xs))"

declare chunks_of.simps [simp del]

lemma concat_chunks_of: "0 < n \<Longrightarrow> concat (chunks_of n xs) = xs"
  by (induction n xs rule: chunks_of.induct) (simp add: chunks_of.simps[of n xs for n xs])

text \<open>
  One item of \<open>cloud_push\<close>: the row it becomes, if any, and the count. \<open>nonce\<close> is the one \<open>encrypt_row\<close> draws.
\<close>

definition push_item ::
  "'o cloud_sync \<Rightarrow> string \<Rightarrow> bytes \<Rightarrow> local_item \<Rightarrow> cloud_stats \<Rightarrow> cloud_error + cloud_item option \<times> cloud_stats" where
  "push_item cy device_id nonce item stats =
     (let origin = (if li_origin_device_id item = [] then device_id else li_origin_device_id item);
          signed = row_sign (cy_env cy) (cy_key cy)
      in if li_deleted item
         then Inr (Some (signed (cloud_tombstone (li_item_id item) (li_content_type item) (li_created_at item) origin)),
                   stats\<lparr>ct_tombstoned := ct_tombstoned stats + 1\<rparr>)
         else if too_large_to_sync (li_content_type item) (length (li_content item))
         then Inr (None, stats\<lparr>ct_skipped_too_large := ct_skipped_too_large stats + 1\<rparr>)
         else case encrypt_row (cy_env cy) nonce (li_content item) (cy_key cy) (li_item_id item) of
                Inl _ \<Rightarrow> Inl CloudEncrypt
              | Inr (nonce, ciphertext) \<Rightarrow>
                  Inr (Some (signed
                    \<lparr>ci_item_id = li_item_id item, ci_ciphertext = ciphertext, ci_nonce = nonce,
                     ci_content_type = li_content_type item, ci_payload_metadata = li_payload_metadata item,
                     ci_source_app_bundle_id = li_source_app_bundle_id item,
                     ci_source_app_name = li_source_app_name item, ci_created_at = li_created_at item,
                     ci_deleted = False, ci_origin_device_id = origin, ci_signature = []\<rparr>),
                    stats\<lparr>ct_uploaded := ct_uploaded stats + 1\<rparr>))"

fun push_items ::
  "'o cloud_sync \<Rightarrow> string \<Rightarrow> (nat \<Rightarrow> bytes) \<Rightarrow> local_item list \<Rightarrow> cloud_item list \<Rightarrow> cloud_stats
   \<Rightarrow> cloud_error + cloud_item list \<times> cloud_stats" where
  "push_items cy device_id rnd [] rows stats = Inr (rows, stats)"
| "push_items cy device_id rnd (item # items) rows stats =
     (case push_item cy device_id (rnd 0) item stats of
        Inl e \<Rightarrow> Inl e
      | Inr (row, stats) \<Rightarrow>
          push_items cy device_id (\<lambda>i. rnd (Suc i)) items (rows @ (case row of None \<Rightarrow> [] | Some r \<Rightarrow> [r])) stats)"

fun upsert_batches :: "'o cloud_sync \<Rightarrow> cloud_item list list \<Rightarrow> ('o, unit) action" where
  "upsert_batches cy [] = act_return ()"
| "upsert_batches cy (batch # batches) =
     act_bind (request cy (\<lambda>token. ra_upsert (cy_rest cy) token batch)) (\<lambda>_. upsert_batches cy batches)"

definition cloud_push :: "'o cloud_sync \<Rightarrow> 'o cloud_source \<Rightarrow> (nat \<Rightarrow> bytes) \<Rightarrow> ('o, cloud_stats) action" where
  "cloud_push cy src rnd =
     act_bind (on_source (sc_upload_floor src)) (\<lambda>since.
     act_bind (on_source (sc_upload_floor_item_id src)) (\<lambda>after_item_id.
     act_bind (on_source (sc_local_changes_after src since after_item_id)) (\<lambda>items.
       case push_items cy (sc_device_id src) rnd items [] cloud_stats_default of
         Inl e \<Rightarrow> (\<lambda>w. (Inl e, w))
       | Inr (rows, stats) \<Rightarrow>
           act_bind (upsert_batches cy (chunks_of upload_batch rows)) (\<lambda>_. act_return stats))))"

section \<open>Downloading\<close>

definition pull_page_limit :: nat where "pull_page_limit = 100"
definition max_pages_per_pull :: nat where "max_pages_per_pull = 50"
definition cloud_future_skew_ms :: int where "cloud_future_skew_ms = 24 * 60 * 60 * 1000"

record pull_cursor =
  pc_created_at :: int
  pc_item_id :: "string option"

definition advance_past :: "int \<Rightarrow> string \<Rightarrow> pull_cursor \<Rightarrow> pull_cursor" where
  "advance_past created_at item_id c =
     (if after_keyset (pc_created_at c) (pc_item_id c) created_at item_id
      then \<lparr>pc_created_at = created_at, pc_item_id = Some item_id\<rparr> else c)"

definition advance_after_refusal :: "int \<Rightarrow> string \<Rightarrow> int \<Rightarrow> pull_cursor \<Rightarrow> pull_cursor" where
  "advance_after_refusal created_at item_id now c =
     (if created_at \<le> now then advance_past created_at item_id c else c)"

definition sort_page :: "cloud_item list \<Rightarrow> cloud_item list" where
  "sort_page rows = sort_key (\<lambda>r. (ci_created_at r, ci_item_id r)) rows"

definition clamp_stamp :: "int \<Rightarrow> int" where
  "clamp_stamp raw = max raw 0"

text \<open>\<open>base64::encoded_len\<close> with padding, of the largest content and its tag.\<close>

definition ciphertext_exceeds_content_limit :: "string \<Rightarrow> bool" where
  "ciphertext_exceeds_content_limit ciphertext \<longleftrightarrow>
     length ciphertext > div_ceil (usize_saturating_add max_content_bytes aead_tag_len) 3 * 4"

text \<open>What one row of a page is, in the order in which the loop decides it.\<close>

datatype verdict = TooFuture | Forged | TooLarge | Undecryptable | Genuine local_item

definition judge :: "'o cloud_sync \<Rightarrow> int \<Rightarrow> cloud_item \<Rightarrow> verdict" where
  "judge cy now row =
     (if ci_created_at row > i64_saturating_add now cloud_future_skew_ms then TooFuture
      else case row_verify (cy_env cy) (cy_key cy) row of
        Inl _ \<Rightarrow> Forged
      | Inr _ \<Rightarrow>
          if \<not> ci_deleted row \<and> ciphertext_exceeds_content_limit (ci_ciphertext row) then TooLarge
          else case (if ci_deleted row then Inr []
                     else decrypt_row (cy_env cy) (ci_ciphertext row) (ci_nonce row) (cy_key cy) (ci_item_id row)) of
                 Inl _ \<Rightarrow> Undecryptable
               | Inr content \<Rightarrow>
                   if \<not> ci_deleted row \<and> too_large_to_sync (ci_content_type row) (length content) then TooLarge
                   else Genuine
                     \<lparr>li_item_id = ci_item_id row, li_content = content, li_content_type = ci_content_type row,
                      li_payload_metadata = ci_payload_metadata row, li_created_at = ci_created_at row,
                      li_deleted = ci_deleted row, li_origin_device_id = ci_origin_device_id row,
                      li_source_app_bundle_id = ci_source_app_bundle_id row,
                      li_source_app_name = ci_source_app_name row\<rparr>)"

fun pull_rows ::
  "'o cloud_sync \<Rightarrow> int \<Rightarrow> cloud_item list \<Rightarrow> cloud_stats \<times> pull_cursor \<times> local_item list
   \<Rightarrow> cloud_stats \<times> pull_cursor \<times> local_item list" where
  "pull_rows cy now [] acc = acc"
| "pull_rows cy now (row # rows) (stats, advanced, batch) =
     (let refused = advance_after_refusal (ci_created_at row) (ci_item_id row) now advanced
      in pull_rows cy now rows
        (case judge cy now row of
           TooFuture \<Rightarrow> (stats\<lparr>ct_skipped_future := ct_skipped_future stats + 1\<rparr>, advanced, batch)
         | Forged \<Rightarrow> (stats\<lparr>ct_skipped_forged := ct_skipped_forged stats + 1\<rparr>, refused, batch)
         | TooLarge \<Rightarrow> (stats\<lparr>ct_skipped_too_large := ct_skipped_too_large stats + 1\<rparr>, refused, batch)
         | Undecryptable \<Rightarrow> (stats\<lparr>ct_skipped_undecryptable := ct_skipped_undecryptable stats + 1\<rparr>, refused, batch)
         | Genuine item \<Rightarrow> (stats, advanced, batch @ [item])))"

fun note_outcomes ::
  "'o cloud_source \<Rightarrow> cloud_applied list \<Rightarrow> cloud_stats \<Rightarrow> bool \<Rightarrow> ('o, cloud_stats \<times> bool) action" where
  "note_outcomes src [] stats republish = act_return (stats, republish)"
| "note_outcomes src (Merged # outcomes) stats republish =
     note_outcomes src outcomes (stats\<lparr>ct_applied := ct_applied stats + 1\<rparr>) republish"
| "note_outcomes src (Declined item # outcomes) stats republish =
     act_bind (on_source (sc_requeue_local_winner src item)) (\<lambda>queued.
       note_outcomes src outcomes stats (republish \<or> queued))"

text \<open>The block under \<open>offered > 0\<close>; the cursor follows the last row that was handed over.\<close>

definition hand_over ::
  "'o cloud_source \<Rightarrow> local_item list \<Rightarrow> cloud_stats \<Rightarrow> bool \<Rightarrow> pull_cursor
   \<Rightarrow> ('o, cloud_stats \<times> bool \<times> pull_cursor) action" where
  "hand_over src batch stats republish advanced =
     (if batch = [] then act_return (stats, republish, advanced)
      else act_bind (on_source (sc_apply_remote_batch src batch)) (\<lambda>outcomes.
        if length outcomes \<noteq> length batch
        then (\<lambda>w. (Inl (CloudSourceError ''the history database did not answer for every row of a page''), w))
        else act_bind (note_outcomes src outcomes stats republish) (\<lambda>(stats, republish).
          act_return (stats, republish,
            advance_past (li_created_at (last batch)) (li_item_id (last batch)) advanced))))"

definition keep_cursor :: "'o cloud_source \<Rightarrow> pull_cursor \<Rightarrow> pull_cursor \<Rightarrow> ('o, unit) action" where
  "keep_cursor src cursor advanced =
     (if advanced \<noteq> cursor
      then (case pc_item_id advanced of
              None \<Rightarrow> act_return ()
            | Some item_id \<Rightarrow> on_source (sc_set_watermark_keyset src (pc_created_at advanced) item_id))
      else act_return ())"

text \<open>The loop over pages; the argument counts the pages that may still be drained.\<close>

fun pull_pages ::
  "'o cloud_sync \<Rightarrow> 'o cloud_source \<Rightarrow> nat \<Rightarrow> pull_cursor \<Rightarrow> cloud_stats \<Rightarrow> bool \<Rightarrow> ('o, cloud_stats \<times> bool) action" where
  "pull_pages cy src 0 cursor stats republish = act_return (stats, republish)"
| "pull_pages cy src (Suc n) cursor stats republish =
     act_bind (request cy (\<lambda>token. ra_fetch_since (cy_rest cy) token (pc_created_at cursor) (pc_item_id cursor) pull_page_limit))
       (\<lambda>rows.
     let page_len = length rows;
         stats = stats\<lparr>ct_downloaded := ct_downloaded stats + page_len\<rparr>;
         rows = sort_page (map (\<lambda>r. r\<lparr>ci_created_at := clamp_stamp (ci_created_at r)\<rparr>) rows)
     in act_bind read_clock (\<lambda>now.
        let (stats, advanced, batch) = pull_rows cy now rows (stats, cursor, [])
        in act_bind (hand_over src batch stats republish advanced) (\<lambda>(stats, republish, advanced).
           act_bind (keep_cursor src cursor advanced) (\<lambda>_.
             if page_len < pull_page_limit \<or> advanced = cursor then act_return (stats, republish)
             else pull_pages cy src n advanced stats republish))))"

definition pull_with_republish :: "'o cloud_sync \<Rightarrow> 'o cloud_source \<Rightarrow> ('o, cloud_stats \<times> bool) action" where
  "pull_with_republish cy src =
     act_bind (on_source (sc_watermark src)) (\<lambda>created_at.
     act_bind (on_source (sc_watermark_item_id src)) (\<lambda>item_id.
       pull_pages cy src max_pages_per_pull \<lparr>pc_created_at = created_at, pc_item_id = item_id\<rparr>
         cloud_stats_default False))"

definition pull :: "'o cloud_sync \<Rightarrow> 'o cloud_source \<Rightarrow> ('o, cloud_stats) action" where
  "pull cy src = act_bind (pull_with_republish cy src) (\<lambda>(stats, _). act_return stats)"

end
