(* ===== verification/Cloud_Driver.thy ===== *)
theory Cloud_Driver
  imports Cloud_Sync Discovery_Record
begin

text \<open>
  The rest of the cloud transport: the PostgREST requests (\<open>crates/copypaste-cloud/src/rest/client.rs\<close>,
  \<open>rest/group.rs\<close>), the exchange of the device group (\<open>sync/group.rs\<close>) and one whole round (\<open>sync\<close> of
  \<open>sync/driver.rs\<close>). HTTP with its transient retries and the JSON layer are the record \<open>http\<close>.
\<close>

section \<open>Requests\<close>

record 'o http =
  ht_get :: "string \<Rightarrow> string \<Rightarrow> (string \<times> string) list \<Rightarrow> 'o \<Rightarrow> (rest_error + string) \<times> 'o"
  ht_post :: "string \<Rightarrow> string \<Rightarrow> (string \<times> string) list \<Rightarrow> string \<Rightarrow> 'o \<Rightarrow> (rest_error + string) \<times> 'o"
  ht_items_of_json :: "string \<Rightarrow> cloud_item list option"
  ht_items_to_json :: "cloud_item list \<Rightarrow> string option"
  ht_versions_of_json :: "string \<Rightarrow> group_version list option"
  ht_groups_of_json :: "string \<Rightarrow> group_row list option"
  ht_group_to_json :: "group_row \<Rightarrow> string"

definition cloud_table :: string where "cloud_table = ''clipboard_items''"
definition select_columns :: string where
  "select_columns = ''item_id,ciphertext,nonce,content_type,payload_metadata,source_app_bundle_id,source_app_name,created_at,deleted,origin_device_id,signature''"
definition max_page_limit :: nat where "max_page_limit = 200"
definition upsert_chunk :: nat where "upsert_chunk = 100"
definition conflict_target :: string where "conflict_target = ''user_id,item_id''"

definition table_url :: string where "table_url = ''/rest/v1/'' @ cloud_table"

definition keyset_after :: "int \<Rightarrow> string \<Rightarrow> string" where
  "keyset_after created_at item_id =
     ''(created_at.gt.'' @ show_int created_at @ '',and(created_at.eq.'' @ show_int created_at
     @ '',item_id.gt.'' @ item_id @ ''))''"

definition fetch_query :: "int \<Rightarrow> string option \<Rightarrow> nat \<Rightarrow> rest_error + (string \<times> string) list" where
  "fetch_query since_ms after_item_id limit =
     (let limit = min (max limit 1) max_page_limit;
          since_ms = max since_ms 0;
          query = [(''select'', select_columns), (''order'', ''created_at.asc,item_id.asc''),
                   (''limit'', show_nat limit)]
      in case after_item_id of
           Some item_id \<Rightarrow>
             res_bind (validate_item_id item_id) (\<lambda>_. Inr (query @ [(''or'', keyset_after since_ms item_id)]))
         | None \<Rightarrow> Inr (query @ [(''created_at'', ''gte.'' @ show_int since_ms)]))"

definition rest_fetch_since ::
  "'o http \<Rightarrow> string \<Rightarrow> int \<Rightarrow> string option \<Rightarrow> nat \<Rightarrow> 'o \<Rightarrow> (rest_error + cloud_item list) \<times> 'o" where
  "rest_fetch_since h token since_ms after_item_id limit out =
     (case fetch_query since_ms after_item_id limit of
        Inl e \<Rightarrow> (Inl e, out)
      | Inr query \<Rightarrow>
          (case ht_get h token table_url query out of
             (Inl e, out) \<Rightarrow> (Inl e, out)
           | (Inr body, out) \<Rightarrow> (ok_or RestMalformed (ht_items_of_json h body), out)))"

fun send_chunks ::
  "'o http \<Rightarrow> string \<Rightarrow> cloud_item list list \<Rightarrow> nat \<Rightarrow> 'o \<Rightarrow> (rest_error + nat) \<times> 'o" where
  "send_chunks h token [] sent out = (Inr sent, out)"
| "send_chunks h token (chunk # chunks) sent out =
     (case ht_items_to_json h chunk of
        None \<Rightarrow> (Inl RestMalformed, out)
      | Some body \<Rightarrow>
          (case ht_post h token table_url [(''on_conflict'', conflict_target)] body out of
             (Inl e, out) \<Rightarrow> (Inl e, out)
           | (Inr _, out) \<Rightarrow> send_chunks h token chunks (sent + length chunk) out))"

definition rest_upsert ::
  "'o http \<Rightarrow> cloud_env \<Rightarrow> string \<Rightarrow> cloud_item list \<Rightarrow> 'o \<Rightarrow> (rest_error + nat) \<times> 'o" where
  "rest_upsert h ce token items out =
     (case first_err (map (row_validate ce) items) of
        Inl e \<Rightarrow> (Inl e, out)
      | Inr _ \<Rightarrow> if items = [] then (Inr 0, out) else send_chunks h token (chunks_of upsert_chunk items) 0 out)"

section \<open>Group rows\<close>

definition group_page_size :: nat where "group_page_size = 8"
definition group_catalog_page_size :: nat where "group_catalog_page_size = 64"
definition cloud_group_bytes :: nat where "cloud_group_bytes = 768 * 1024"
definition max_group_rows :: nat where "max_group_rows = 4096"
definition group_table_url :: string where "group_table_url = ''/rest/v1/device_group_states''"

definition validate_device :: "string \<Rightarrow> rest_error + unit" where
  "validate_device k =
     (if k = [] \<or> length k > 128
         \<or> \<not> list_all (\<lambda>c. is_ascii_alphanumeric c \<or> c = CHR ''-'' \<or> c = CHR ''_'') k
      then Inl RestMalformed else Inr ())"

definition version_validate :: "group_version \<Rightarrow> rest_error + unit" where
  "version_validate v =
     first_err
       [validate_device (gv_device_id v),
        if length (gv_ciphertext_digest v) \<noteq> 64 \<or> \<not> list_all (\<lambda>b. is_ascii_hexdigit b \<and> \<not> in_range b 65 90) (gv_ciphertext_digest v)
        then Inl RestMalformed else Inr ()]"

definition group_row_validate :: "group_row \<Rightarrow> rest_error + unit" where
  "group_row_validate r =
     first_err
       [validate_device (gr_device_id r),
        if gr_ciphertext r = [] \<or> length (gr_ciphertext r) > div_ceil (cloud_group_bytes + 16) 3 * 4
           \<or> length (gr_nonce r) \<noteq> 32
        then Inl RestMalformed else Inr ()]"

definition row_ciphertext_digest :: "cloud_env \<Rightarrow> group_row \<Rightarrow> string" where
  "row_ciphertext_digest ce r =
     c_hex_encode (sl_crypto (ce_sealing ce)) (c_sha256 (sl_crypto (ce_sealing ce)) (gr_nonce r @ gr_ciphertext r))"

definition aad_id :: "string \<Rightarrow> string" where
  "aad_id device_id = ''copypaste-group-'' @ device_id"

definition rest_fetch_group_catalog ::
  "'o http \<Rightarrow> string \<Rightarrow> string option \<Rightarrow> 'o \<Rightarrow> (rest_error + group_version list) \<times> 'o" where
  "rest_fetch_group_catalog h token after_device out =
     (let query = [(''select'', ''device_id,ciphertext_digest''), (''order'', ''device_id.asc''),
                   (''limit'', show_nat group_catalog_page_size)]
      in case (case after_device of
                 None \<Rightarrow> Inr query
               | Some k \<Rightarrow> res_bind (validate_device k) (\<lambda>_. Inr (query @ [(''device_id'', ''gt.'' @ k)]))) of
           Inl e \<Rightarrow> (Inl e, out)
         | Inr query \<Rightarrow>
             (case ht_get h token group_table_url query out of
                (Inl e, out) \<Rightarrow> (Inl e, out)
              | (Inr body, out) \<Rightarrow>
                  (if length body > group_catalog_page_size * 512 then Inl RestMalformed
                   else res_bind (ok_or RestMalformed (ht_versions_of_json h body)) (\<lambda>rows.
                     if length rows > group_catalog_page_size then Inl RestMalformed else Inr rows), out)))"

definition rest_fetch_groups ::
  "'o http \<Rightarrow> string \<Rightarrow> string list \<Rightarrow> 'o \<Rightarrow> (rest_error + group_row list) \<times> 'o" where
  "rest_fetch_groups h token device_ids out =
     (if device_ids = [] \<or> length device_ids > group_page_size then (Inl RestMalformed, out)
      else case first_err (map validate_device device_ids) of
             Inl e \<Rightarrow> (Inl e, out)
           | Inr _ \<Rightarrow>
               (case ht_get h token group_table_url
                       [(''select'', ''device_id,ciphertext,nonce''),
                        (''device_id'', ''in.('' @ join '','' device_ids @ '')''),
                        (''limit'', show_nat group_page_size)] out of
                  (Inl e, out) \<Rightarrow> (Inl e, out)
                | (Inr body, out) \<Rightarrow>
                    (if length body > group_page_size * (cloud_group_bytes * 2 + 512) then Inl RestMalformed
                     else res_bind (ok_or RestMalformed (ht_groups_of_json h body)) (\<lambda>rows.
                       if length rows > group_page_size \<or> list_ex (\<lambda>r. gr_device_id r \<notin> set device_ids) rows
                       then Inl RestMalformed else Inr rows), out)))"

definition rest_upsert_group :: "'o http \<Rightarrow> string \<Rightarrow> group_row \<Rightarrow> 'o \<Rightarrow> (rest_error + unit) \<times> 'o" where
  "rest_upsert_group h token row out =
     (case group_row_validate row of
        Inl e \<Rightarrow> (Inl e, out)
      | Inr _ \<Rightarrow>
          (case ht_post h token group_table_url [(''on_conflict'', ''user_id,device_id'')] (ht_group_to_json h row) out of
             (Inl e, out) \<Rightarrow> (Inl e, out)
           | (Inr _, out) \<Rightarrow> (Inr (), out)))"

text \<open>\<open>impl RestApi for SupabaseRest\<close>.\<close>

definition classified :: "(rest_error + 'a) \<times> 'o \<Rightarrow> (transport_fault + 'a) \<times> 'o" where
  "classified r = (case r of (Inl e, out) \<Rightarrow> (Inl (classify_rest e), out) | (Inr a, out) \<Rightarrow> (Inr a, out))"

definition supabase :: "'o http \<Rightarrow> cloud_env \<Rightarrow> 'o rest_api" where
  "supabase h ce =
     \<lparr>ra_fetch_group_catalog = (\<lambda>token after out. classified (rest_fetch_group_catalog h token after out)),
      ra_fetch_groups = (\<lambda>token device_ids out. classified (rest_fetch_groups h token device_ids out)),
      ra_upsert_group = (\<lambda>token row out. classified (rest_upsert_group h token row out)),
      ra_fetch_since = (\<lambda>token since after limit out. classified (rest_fetch_since h token since after limit out)),
      ra_upsert = (\<lambda>token items out.
        classified (case rest_upsert h ce token items out of (Inl e, out) \<Rightarrow> (Inl e, out) | (Inr _, out) \<Rightarrow> (Inr (), out)))\<rparr>"

section \<open>The device group\<close>

definition removed_from_group :: cloud_error where
  "removed_from_group = CloudSourceError ''this device was removed from the group''"

definition require_allowed :: "'o cloud_source \<Rightarrow> ('o, unit) action" where
  "require_allowed src w =
     (if sc_group_sync_allowed src (cw_out w) then (Inr (), w) else (Inl removed_from_group, w))"

definition remember_download :: "string \<Rightarrow> string \<Rightarrow> (string, string) fmap \<Rightarrow> (string, string) fmap" where
  "remember_download device_id digest m =
     fmupd device_id digest
       (if fm_len m \<ge> max_group_rows \<and> \<not> fm_contains m device_id
        then (case fm_keys m of [] \<Rightarrow> m | k # _ \<Rightarrow> fmdrop k m) else m)"

text \<open>The plaintext of a row, when it opens, is of a possible size and is text.\<close>

definition open_group_row :: "'o cloud_sync \<Rightarrow> group_row \<Rightarrow> string option" where
  "open_group_row cy row =
     (case decrypt_row (cy_env cy) (gr_ciphertext row) (gr_nonce row) (cy_key cy) (aad_id (gr_device_id row)) of
        Inl _ \<Rightarrow> None
      | Inr plaintext \<Rightarrow>
          if length plaintext \<le> cloud_group_bytes \<and> utf8_valid plaintext then Some plaintext else None)"

fun apply_group_rows :: "'o cloud_sync \<Rightarrow> 'o cloud_source \<Rightarrow> group_row list \<Rightarrow> ('o, unit) action" where
  "apply_group_rows cy src [] = act_return ()"
| "apply_group_rows cy src (row # rows) =
     (if group_row_validate row \<noteq> Inr () then apply_group_rows cy src rows
      else act_bind
        (case open_group_row cy row of
           None \<Rightarrow> act_return ()
         | Some json \<Rightarrow>
             act_bind (on_source (sc_apply_group src (gr_device_id row) json)) (\<lambda>_. require_allowed src))
        (\<lambda>_. act_bind
          (\<lambda>w. (Inr (), w\<lparr>cw_group_downloaded :=
             remember_download (gr_device_id row) (row_ciphertext_digest (cy_env cy) row) (cw_group_downloaded w)\<rparr>))
          (\<lambda>_. apply_group_rows cy src rows)))"

fun download_groups :: "'o cloud_sync \<Rightarrow> 'o cloud_source \<Rightarrow> string list list \<Rightarrow> ('o, unit) action" where
  "download_groups cy src [] = act_return ()"
| "download_groups cy src (device_ids # rest) =
     act_bind (request cy (\<lambda>token. ra_fetch_groups (cy_rest cy) token device_ids)) (\<lambda>rows.
       if length rows > group_page_size \<or> list_ex (\<lambda>r. gr_device_id r \<notin> set device_ids) rows
       then (\<lambda>w. (Inl (CloudSourceError ''invalid device group page''), w))
       else act_bind (apply_group_rows cy src rows) (\<lambda>_. download_groups cy src rest))"

record catalog =
  ca_after :: "string option"
  ca_count :: nat
  ca_local_hash :: "string option"
  ca_changed :: "string list"

text \<open>The rows of one page of the catalog.\<close>

fun catalog_rows ::
  "string \<Rightarrow> (string, string) fmap \<Rightarrow> group_version list \<Rightarrow> catalog \<Rightarrow> cloud_error + catalog" where
  "catalog_rows local_id downloaded [] c = Inr c"
| "catalog_rows local_id downloaded (v # page) c =
     (let c = c\<lparr>ca_count := ca_count c + 1\<rparr> in
      if ca_count c > max_group_rows
         \<or> (case ca_after c of None \<Rightarrow> False | Some k \<Rightarrow> gv_device_id v \<le> k)
         \<or> version_validate v \<noteq> Inr ()
      then Inl (CloudSourceError ''device group page did not advance'')
      else let c = c\<lparr>ca_after := Some (gv_device_id v)\<rparr> in
        catalog_rows local_id downloaded page
          (if gv_device_id v = local_id then c\<lparr>ca_local_hash := Some (gv_ciphertext_digest v)\<rparr>
           else if fmlookup downloaded (gv_device_id v) = Some (gv_ciphertext_digest v) then c
           else c\<lparr>ca_changed := ca_changed c @ [gv_device_id v]\<rparr>))"

lemma catalog_rows_count:
  "catalog_rows local_id downloaded page c = Inr c' \<Longrightarrow>
   ca_count c' = ca_count c + length page \<and> (page \<noteq> [] \<longrightarrow> ca_count c' \<le> max_group_rows)"
proof (induction local_id downloaded page c rule: catalog_rows.induct)
  case (2 local_id downloaded v page c)
  then show ?case
    by (cases page) (force simp: Let_def split: if_splits)+
qed simp

text \<open>
  The loop over the catalog. A page that is not full ends it; the row count bounds it: a full page
  adds its rows to the count, and more rows than a group may have are an error.
\<close>

function catalog_loop :: "'o cloud_sync \<Rightarrow> 'o cloud_source \<Rightarrow> catalog \<Rightarrow> ('o, catalog) action" where
  "catalog_loop cy src c w =
     (case request cy (\<lambda>token. ra_fetch_group_catalog (cy_rest cy) token (ca_after c)) w of
        (Inl e, w) \<Rightarrow> (Inl e, w)
      | (Inr page, w) \<Rightarrow>
          if length page > group_catalog_page_size
          then (Inl (CloudSourceError ''invalid device group page''), w)
          else (case catalog_rows (sc_device_id src) (cw_group_downloaded w) page (c\<lparr>ca_changed := []\<rparr>) of
                  Inl e \<Rightarrow> (Inl e, w)
                | Inr c \<Rightarrow>
                    (case download_groups cy src (chunks_of group_page_size (ca_changed c)) w of
                       (Inl e, w) \<Rightarrow> (Inl e, w)
                     | (Inr _, w) \<Rightarrow>
                         if length page = group_catalog_page_size then catalog_loop cy src c w else (Inr c, w))))"
  by pat_completeness auto

termination
  by (relation "measure (\<lambda>(cy, src, c, w). max_group_rows - ca_count c)")
    (auto dest!: catalog_rows_count simp: group_catalog_page_size_def max_group_rows_def)

declare catalog_loop.simps [simp del]

definition cloud_publish_group :: "'o cloud_sync \<Rightarrow> string \<Rightarrow> bytes \<Rightarrow> string \<Rightarrow> string option \<Rightarrow> ('o, unit) action" where
  "cloud_publish_group cy local_id nonce snapshot local_hash w =
     (let digest = c_sha256 (sl_crypto (ce_sealing (cy_env cy))) snapshot in
      if (case cw_group_uploaded w of
            None \<Rightarrow> False
          | Some (uploaded, ciphertext_digest) \<Rightarrow> uploaded = digest \<and> local_hash = Some ciphertext_digest)
      then (Inr (), w)
      else case encrypt_row (cy_env cy) nonce snapshot (cy_key cy) (aad_id local_id) of
             Inl _ \<Rightarrow> (Inl (CloudSourceError ''device group could not be encrypted''), w)
           | Inr (nonce, ciphertext) \<Rightarrow>
               (let row = \<lparr>gr_device_id = local_id, gr_ciphertext = ciphertext, gr_nonce = nonce\<rparr>
                in case request cy (\<lambda>token. ra_upsert_group (cy_rest cy) token row) w of
                     (Inl e, w) \<Rightarrow> (Inl e, w)
                   | (Inr _, w) \<Rightarrow>
                       (Inr (), w\<lparr>cw_group_uploaded := Some (digest, row_ciphertext_digest (cy_env cy) row)\<rparr>)))"

definition catalog_start :: catalog where
  "catalog_start = \<lparr>ca_after = None, ca_count = 0, ca_local_hash = None, ca_changed = []\<rparr>"

definition sync_group :: "'o cloud_sync \<Rightarrow> 'o cloud_source \<Rightarrow> bytes \<Rightarrow> ('o, unit) action" where
  "sync_group cy src nonce =
     act_bind (on_source (sc_group_snapshot src)) (\<lambda>present.
       if present = None then act_return ()
       else act_bind (catalog_loop cy src catalog_start) (\<lambda>c.
            act_bind (require_allowed src) (\<lambda>_.
            act_bind (on_source (sc_group_snapshot src)) (\<lambda>snapshot.
              case snapshot of
                None \<Rightarrow> act_return ()
              | Some snapshot \<Rightarrow>
                  if length snapshot > cloud_group_bytes
                  then (\<lambda>w. (Inl (CloudSourceError ''device group is too large''), w))
                  else cloud_publish_group cy (sc_device_id src) nonce snapshot (ca_local_hash c)))))"

section \<open>A round\<close>

text \<open>
  The floor of the driver's cadence is below both ceilings, so the assertion of the idle step
  never fires.
\<close>

definition note_round :: "bool \<Rightarrow> 'o cloud_world \<Rightarrow> 'o cloud_world" where
  "note_round changed w =
     w\<lparr>cw_cadence := (case note_activity_with_ceiling changed (idle_ceiling (cw_push_channel w)) (cw_cadence w) of
        None \<Rightarrow> cw_cadence w | Some c \<Rightarrow> c)\<rparr>"

definition sync ::
  "'o cloud_sync \<Rightarrow> 'o cloud_source \<Rightarrow> bytes \<Rightarrow> (nat \<Rightarrow> bytes) \<Rightarrow> (nat \<Rightarrow> bytes) \<Rightarrow> ('o, cloud_stats) action" where
  "sync cy src nonce rnd rnd' =
     act_bind (sync_group cy src nonce) (\<lambda>_.
     act_bind (require_allowed src) (\<lambda>_.
     act_bind (cloud_push cy src rnd) (\<lambda>pushed.
     act_bind (pull_with_republish cy src) (\<lambda>(pulled, republish).
     act_bind (if republish
               then act_bind (cloud_push cy src rnd') (\<lambda>again. act_return (stats_merge (stats_merge pushed pulled) again))
               else act_return (stats_merge pushed pulled)) (\<lambda>stats.
       (\<lambda>w. (Inr stats, note_round (stats_changed stats) w)))))))"

end
