(* ===== verification/Cloud_Pull.thy ===== *)
theory Cloud_Pull
  imports Cloud_Sync
begin

text \<open>
  What a pull reaches. The backend is assumed to page as \<open>RestApi::fetch_since\<close> documents
  (\<open>pages_in_order\<close>), and \<open>pull_host\<close> states what the requests and the source leave alone: \<open>mark\<close>
  reads the persisted watermark and \<open>seen\<close> the versions the source was ever handed. Both hold for
  any rows that other devices write meanwhile.
\<close>

section \<open>Positions\<close>

abbreviation passed :: "pull_cursor \<Rightarrow> cloud_item \<Rightarrow> bool" where
  "passed c r \<equiv> \<not> after_keyset (pc_created_at c) (pc_item_id c) (ci_created_at r) (ci_item_id r)"

abbreviation row_pos :: "cloud_item \<Rightarrow> int \<times> string" where
  "row_pos r \<equiv> (ci_created_at r, ci_item_id r)"

lemma passed_advance:
  "passed (advance_past t k c) r \<longleftrightarrow> passed c r \<or> row_pos r \<le> (t, k)"
  by (cases "pc_item_id c") (auto simp: advance_past_def after_keyset_def)

lemma advance_cases: "advance_past t k c = c \<or> advance_past t k c = \<lparr>pc_created_at = t, pc_item_id = Some k\<rparr>"
  by (simp add: advance_past_def)

lemma advance_nonneg: "0 \<le> pc_created_at c \<Longrightarrow> 0 \<le> t \<Longrightarrow> 0 \<le> pc_created_at (advance_past t k c)"
  by (simp add: advance_past_def)

section \<open>One page\<close>

definition taken :: "'o cloud_sync \<Rightarrow> int \<Rightarrow> cloud_item list \<Rightarrow> local_item list" where
  "taken cy now rows = concat (map (\<lambda>r. case judge cy now r of Genuine item \<Rightarrow> [item] | _ \<Rightarrow> []) rows)"

definition refused :: "'o cloud_sync \<Rightarrow> int \<Rightarrow> cloud_item \<Rightarrow> bool" where
  "refused cy now r \<longleftrightarrow> judge cy now r \<in> {Forged, TooLarge, Undecryptable}"

lemma judge_position:
  "judge cy now r = Genuine item \<Longrightarrow> li_created_at item = ci_created_at r \<and> li_item_id item = ci_item_id r"
  by (auto simp: judge_def split: if_splits sum.splits)

lemma judge_future:
  "judge cy now r = TooFuture \<longleftrightarrow> ci_created_at r > i64_saturating_add now cloud_future_skew_ms"
  by (auto simp: judge_def split: if_splits sum.splits)

lemma set_taken: "item \<in> set (taken cy now rows) \<longleftrightarrow> (\<exists>r \<in> set rows. judge cy now r = Genuine item)"
  by (force simp: taken_def split: verdict.splits)

lemma pull_rows_spec:
  assumes "pull_rows cy now rows (stats, adv0, batch0) = (stats', adv, batch)"
  shows "batch = batch0 @ taken cy now rows
    \<and> (passed adv r \<longleftrightarrow> passed adv0 r \<or> (\<exists>x \<in> set rows. refused cy now x \<and> ci_created_at x \<le> now \<and> row_pos r \<le> row_pos x))
    \<and> (adv = adv0 \<or> (\<exists>x \<in> set rows. refused cy now x \<and> ci_created_at x \<le> now \<and> adv = \<lparr>pc_created_at = ci_created_at x, pc_item_id = Some (ci_item_id x)\<rparr>))"
  using assms
proof (induction rows arbitrary: stats adv0 batch0)
  case Nil
  then show ?case by (simp add: taken_def)
next
  case (Cons x rows)
  define st where "st = (case judge cy now x of
           TooFuture \<Rightarrow> stats\<lparr>ct_skipped_future := ct_skipped_future stats + 1\<rparr>
         | Forged \<Rightarrow> stats\<lparr>ct_skipped_forged := ct_skipped_forged stats + 1\<rparr>
         | TooLarge \<Rightarrow> stats\<lparr>ct_skipped_too_large := ct_skipped_too_large stats + 1\<rparr>
         | Undecryptable \<Rightarrow> stats\<lparr>ct_skipped_undecryptable := ct_skipped_undecryptable stats + 1\<rparr>
         | Genuine item \<Rightarrow> stats)"
  define a where "a = (if refused cy now x then advance_after_refusal (ci_created_at x) (ci_item_id x) now adv0 else adv0)"
  define b where "b = (case judge cy now x of Genuine item \<Rightarrow> batch0 @ [item] | _ \<Rightarrow> batch0)"
  have step: "pull_rows cy now (x # rows) (stats, adv0, batch0) = pull_rows cy now rows (st, a, b)"
    by (simp add: st_def a_def b_def refused_def Let_def split: verdict.split)
  have a: "passed a r \<longleftrightarrow> passed adv0 r \<or> refused cy now x \<and> ci_created_at x \<le> now \<and> row_pos r \<le> row_pos x"
    by (simp add: a_def advance_after_refusal_def passed_advance)
  have a': "a = adv0 \<or> refused cy now x \<and> ci_created_at x \<le> now \<and> a = \<lparr>pc_created_at = ci_created_at x, pc_item_id = Some (ci_item_id x)\<rparr>"
    using advance_cases[of "ci_created_at x" "ci_item_id x" adv0] by (auto simp: a_def advance_after_refusal_def)
  have b: "b @ taken cy now rows = batch0 @ taken cy now (x # rows)"
    by (simp add: b_def taken_def split: verdict.split)
  from Cons.IH[OF trans[OF step[symmetric] Cons.prems]] a a' b show ?case by auto
qed

lemma pull_rows_some:
  assumes "pull_rows cy now rows (stats, adv0, batch0) = (stats', adv, batch)"
  shows "adv = adv0 \<or> pc_item_id adv \<noteq> None"
proof -
  have "adv = adv0 \<or> (\<exists>x :: cloud_item. adv = \<lparr>pc_created_at = ci_created_at x, pc_item_id = Some (ci_item_id x)\<rparr>)"
    using pull_rows_spec[OF assms] by blast
  then show ?thesis by auto
qed

definition page_holds :: "cloud_item set \<Rightarrow> pull_cursor \<Rightarrow> cloud_item list \<Rightarrow> bool" where
  "page_holds T c rows \<longleftrightarrow>
     (\<forall>x \<in> set rows. \<not> passed c x)
     \<and> (\<forall>r \<in> T. \<not> passed c r \<longrightarrow> r \<in> set rows \<or> (\<forall>x \<in> set rows. row_pos x < row_pos r))"

definition cursor_at :: "local_item \<Rightarrow> pull_cursor" where
  "cursor_at item = \<lparr>pc_created_at = li_created_at item, pc_item_id = Some (li_item_id item)\<rparr>"

definition page_cursor :: "local_item list \<Rightarrow> pull_cursor \<Rightarrow> pull_cursor" where
  "page_cursor batch adv =
     (if batch = [] then adv else advance_past (li_created_at (last batch)) (li_item_id (last batch)) adv)"

text \<open>Where a cursor may go: to a row behind the clock, or to one of the given rows that a holder of the key signed.\<close>

definition follows :: "'o cloud_sync \<Rightarrow> cloud_item set \<Rightarrow> int \<Rightarrow> pull_cursor \<Rightarrow> bool" where
  "follows cy R now c \<longleftrightarrow>
     pc_created_at c \<le> now \<or> (\<exists>row \<in> R. \<exists>item. judge cy now row = Genuine item \<and> c = cursor_at item)"

lemma follows_mono: "follows cy R now c \<Longrightarrow> R \<subseteq> R' \<Longrightarrow> follows cy R' now c"
  by (auto simp: follows_def)

definition judged :: "'o cloud_sync \<Rightarrow> local_item set \<Rightarrow> cloud_item \<Rightarrow> bool" where
  "judged cy S r \<longleftrightarrow> (\<exists>now. judge cy now r \<noteq> TooFuture \<and> (\<forall>item. judge cy now r = Genuine item \<longrightarrow> item \<in> S))"

lemma page_clamped:
  assumes "page_holds T c rows" and "0 \<le> pc_created_at c"
  shows "map (\<lambda>r. r\<lparr>ci_created_at := clamp_stamp (ci_created_at r)\<rparr>) rows = rows"
proof (rule map_idI)
  fix x assume "x \<in> set rows"
  with assms have "0 \<le> ci_created_at x" by (auto simp: page_holds_def after_keyset_def)
  then show "x\<lparr>ci_created_at := clamp_stamp (ci_created_at x)\<rparr> = x" by (simp add: clamp_stamp_def)
qed

lemma page_reach:
  assumes holds: "page_holds T c rows" and pos: "0 \<le> pc_created_at c"
    and run: "pull_rows cy now (sort_page rows) (stats, c, []) = (stats', adv, batch)"
  shows "0 \<le> pc_created_at (page_cursor batch adv)"
    and "passed c r \<Longrightarrow> passed (page_cursor batch adv) r"
    and "r \<in> T \<Longrightarrow> passed (page_cursor batch adv) r \<Longrightarrow> \<not> passed c r \<Longrightarrow>
      judge cy now r \<noteq> TooFuture \<and> (\<forall>item. judge cy now r = Genuine item \<longrightarrow> item \<in> set batch)"
    and "page_cursor batch adv = c \<or> follows cy (set rows) now (page_cursor batch adv)"
proof -
  have set: "set (sort_page rows) = set rows" by (simp add: sort_page_def)
  note spec = pull_rows_spec[OF run, unfolded set]
  have batch: "batch = taken cy now (sort_page rows)" using spec by simp
  have moved: "adv = c \<or> (\<exists>x \<in> set rows. ci_created_at x \<le> now
      \<and> adv = \<lparr>pc_created_at = ci_created_at x, pc_item_id = Some (ci_item_id x)\<rparr>)" using spec by blast
  have nonneg: "0 \<le> ci_created_at x" if "x \<in> set rows" for x
    using that holds pos by (auto simp: page_holds_def after_keyset_def)
  have lastrow: "\<exists>x \<in> set rows. judge cy now x = Genuine (last batch)" if "batch \<noteq> []"
    using that last_in_set[OF that] unfolding batch set_taken set by blast
  have reach: "passed (page_cursor batch adv) r \<longleftrightarrow>
      passed c r \<or> (\<exists>x \<in> set rows. refused cy now x \<and> ci_created_at x \<le> now \<and> row_pos r \<le> row_pos x)
      \<or> batch \<noteq> [] \<and> row_pos r \<le> (li_created_at (last batch), li_item_id (last batch))" for r
    using pull_rows_spec[OF run, unfolded set, of r] by (simp add: page_cursor_def passed_advance)
  have adv: "0 \<le> pc_created_at adv" using moved pos nonneg by auto
  show "0 \<le> pc_created_at (page_cursor batch adv)"
  proof (cases "batch = []")
    case False
    from lastrow[OF this] nonneg have "0 \<le> li_created_at (last batch)" using judge_position by metis
    with adv show ?thesis by (simp add: page_cursor_def advance_nonneg)
  qed (simp add: page_cursor_def adv)
  show "passed (page_cursor batch adv) r" if "passed c r" using that reach by blast
  show "judge cy now r \<noteq> TooFuture \<and> (\<forall>item. judge cy now r = Genuine item \<longrightarrow> item \<in> set batch)"
    if r: "r \<in> T" "passed (page_cursor batch adv) r" "\<not> passed c r"
  proof -
    from r(2,3) reach obtain x where x: "x \<in> set rows" "judge cy now x \<noteq> TooFuture" "row_pos r \<le> row_pos x"
      using lastrow judge_position by (fastforce simp: refused_def)
    then have "r \<in> set rows" using holds r(1,3) by (fastforce simp: page_holds_def)
    moreover from x(3) have "ci_created_at r \<le> ci_created_at x" by auto
    ultimately show ?thesis
      using x(2) by (auto simp: judge_future batch set_taken set)
  qed
  have refusal: "adv = c \<or> follows cy (set rows) now adv" using moved by (auto simp: follows_def)
  show "page_cursor batch adv = c \<or> follows cy (set rows) now (page_cursor batch adv)"
  proof (cases "batch = []")
    case False
    with lastrow have "follows cy (set rows) now (cursor_at (last batch))" by (auto simp: follows_def)
    with refusal advance_cases[of "li_created_at (last batch)" "li_item_id (last batch)" adv] False show ?thesis
      by (auto simp: page_cursor_def cursor_at_def)
  qed (use refusal in \<open>simp add: page_cursor_def\<close>)
qed

text \<open>When the last row of a page is refused behind the clock, the cursor ends at it.\<close>

lemma page_ends_refused:
  assumes run: "pull_rows cy now (sort_page rows) (stats, c, []) = (stats', adv, batch)"
    and row: "row \<in> set rows" "refused cy now row" "ci_created_at row \<le> now" "\<not> passed c row"
    and last: "\<And>x. x \<in> set rows \<Longrightarrow> row_pos x \<le> row_pos row"
  shows "page_cursor batch adv = \<lparr>pc_created_at = ci_created_at row, pc_item_id = Some (ci_item_id row)\<rparr>"
proof -
  have set: "set (sort_page rows) = set rows" by (simp add: sort_page_def)
  have batch: "batch = taken cy now (sort_page rows)" using pull_rows_spec[OF run] by simp
  have "passed adv row" using pull_rows_spec[OF run, unfolded set, of row] row by blast
  then obtain x where x: "x \<in> set rows" "adv = \<lparr>pc_created_at = ci_created_at x, pc_item_id = Some (ci_item_id x)\<rparr>"
    using pull_rows_spec[OF run, unfolded set, of row] row(4) by blast
  with \<open>passed adv row\<close> have "row_pos row \<le> row_pos x" by (auto simp: after_keyset_def)
  with last[OF x(1)] have "row_pos x = row_pos row" by (rule antisym)
  with x(2) have adv: "adv = \<lparr>pc_created_at = ci_created_at row, pc_item_id = Some (ci_item_id row)\<rparr>" by simp
  show ?thesis
  proof (cases "batch = []")
    case False
    then obtain y where "y \<in> set rows" "judge cy now y = Genuine (List.last batch)"
      using last_in_set[OF False] unfolding batch set_taken set by blast
    with last judge_position have "(li_created_at (List.last batch), li_item_id (List.last batch)) \<le> row_pos row" by metis
    then have "\<not> after_keyset (ci_created_at row) (Some (ci_item_id row)) (li_created_at (List.last batch)) (li_item_id (List.last batch))"
      by (auto simp: after_keyset_def)
    with False show ?thesis by (simp add: page_cursor_def advance_past_def adv)
  qed (simp add: page_cursor_def adv)
qed

section \<open>The host\<close>

definition pages_in_order :: "'o rest_api \<Rightarrow> cloud_item set \<Rightarrow> bool" where
  "pages_in_order rest T \<longleftrightarrow>
     (\<forall>token since after limit out rows out'.
        ra_fetch_since rest token since after limit out = (Inr rows, out') \<longrightarrow>
        page_holds T \<lparr>pc_created_at = since, pc_item_id = after\<rparr> rows)"

definition leaves :: "('o \<Rightarrow> pull_cursor) \<Rightarrow> ('o \<Rightarrow> local_item set) \<Rightarrow> ('o \<Rightarrow> 'r \<times> 'o) \<Rightarrow> bool" where
  "leaves mark seen f \<longleftrightarrow>
     (\<forall>out r out'. f out = (r, out') \<longrightarrow> mark out' = mark out \<and> seen out \<subseteq> seen out')"

definition pull_host ::
  "'o cloud_sync \<Rightarrow> 'o cloud_source \<Rightarrow> ('o \<Rightarrow> pull_cursor) \<Rightarrow> ('o \<Rightarrow> local_item set) \<Rightarrow> bool" where
  "pull_host cy src mark seen \<longleftrightarrow>
     (\<forall>token since after limit. leaves mark seen (ra_fetch_since (cy_rest cy) token since after limit))
     \<and> (\<forall>token. leaves mark seen (io_refresh (cy_account cy) token))
     \<and> (\<forall>session. leaves mark seen (io_persist (cy_account cy) session))
     \<and> (\<forall>item. leaves mark seen (sc_requeue_local_winner src item))
     \<and> leaves mark seen (sc_watermark src) \<and> leaves mark seen (sc_watermark_item_id src)
     \<and> (\<forall>out t out'. sc_watermark src out = (Inr t, out') \<longrightarrow> t = pc_created_at (mark out))
     \<and> (\<forall>out k out'. sc_watermark_item_id src out = (Inr k, out') \<longrightarrow> k = pc_item_id (mark out))
     \<and> (\<forall>batch. leaves mark seen (sc_apply_remote_batch src batch))
     \<and> (\<forall>batch out r out'. sc_apply_remote_batch src batch out = (Inr r, out') \<longrightarrow> set batch \<subseteq> seen out')
     \<and> (\<forall>t k out r out'. sc_set_watermark_keyset src t k out = (r, out') \<longrightarrow>
          seen out \<subseteq> seen out' \<and> (mark out' = \<lparr>pc_created_at = t, pc_item_id = Some k\<rparr> \<or> mark out' = mark out \<and> r \<noteq> Inr ()))"

text \<open>
  A log of the rows the backend answered with: every page it answers is in it, and nothing takes a
  row out again. The set of all rows is such a log, and the smallest one holds what was fetched.
\<close>

definition log_grows :: "('o \<Rightarrow> cloud_item set) \<Rightarrow> ('o \<Rightarrow> 'r \<times> 'o) \<Rightarrow> bool" where
  "log_grows log f \<longleftrightarrow> (\<forall>out. log out \<subseteq> log (snd (f out)))"

definition pull_log :: "'o cloud_sync \<Rightarrow> 'o cloud_source \<Rightarrow> ('o \<Rightarrow> cloud_item set) \<Rightarrow> bool" where
  "pull_log cy src log \<longleftrightarrow>
     (\<forall>token since after limit. log_grows log (ra_fetch_since (cy_rest cy) token since after limit))
     \<and> (\<forall>token since after limit out rows out'.
          ra_fetch_since (cy_rest cy) token since after limit out = (Inr rows, out') \<longrightarrow> set rows \<subseteq> log out')
     \<and> (\<forall>token. log_grows log (io_refresh (cy_account cy) token))
     \<and> (\<forall>session. log_grows log (io_persist (cy_account cy) session))
     \<and> (\<forall>item. log_grows log (sc_requeue_local_winner src item))
     \<and> log_grows log (sc_watermark src) \<and> log_grows log (sc_watermark_item_id src)
     \<and> (\<forall>batch. log_grows log (sc_apply_remote_batch src batch))
     \<and> (\<forall>t k. log_grows log (sc_set_watermark_keyset src t k))"

lemma every_row_is_a_log: "pull_log cy src (\<lambda>_. UNIV)"
  by (simp add: pull_log_def log_grows_def)

section \<open>A whole pull\<close>

definition keeps_host ::
  "('o \<Rightarrow> pull_cursor) \<Rightarrow> ('o \<Rightarrow> local_item set) \<Rightarrow> ('o \<Rightarrow> cloud_item set) \<Rightarrow> 'o \<Rightarrow> 'o \<Rightarrow> bool" where
  "keeps_host mark seen log out out' \<longleftrightarrow> mark out' = mark out \<and> seen out \<subseteq> seen out' \<and> log out \<subseteq> log out'"

lemma keeps_host_trans: "keeps_host mark seen log a b \<Longrightarrow> keeps_host mark seen log b c \<Longrightarrow> keeps_host mark seen log a c"
  by (auto simp: keeps_host_def)

lemma leavesD: "leaves mark seen f \<Longrightarrow> log_grows log f \<Longrightarrow> keeps_host mark seen log out (snd (f out))"
  by (auto simp: leaves_def log_grows_def keeps_host_def prod_eq_iff)

lemma source_leaves:
  "leaves mark seen f \<Longrightarrow> log_grows log f \<Longrightarrow> on_source f w = (r, w') \<Longrightarrow>
   keeps_host mark seen log (cw_out w) (cw_out w') \<and> cw_clock w' = cw_clock w"
  using leavesD[of mark seen f log "cw_out w"] by (auto simp: on_source_def split: prod.splits)

lemma fetch_answer:
  assumes "pull_host cy src mark seen" and "pull_log cy src log"
    and "request cy (\<lambda>token. ra_fetch_since (cy_rest cy) token (pc_created_at c) (pc_item_id c) n) w = (r, w')"
  shows "keeps_host mark seen log (cw_out w) (cw_out w') \<and> cw_clock w' = cw_clock w
    \<and> (\<forall>rows. r = Inr rows \<longrightarrow>
         (\<exists>t out. ra_fetch_since (cy_rest cy) t (pc_created_at c) (pc_item_id c) n out = (Inr rows, cw_out w')))"
proof -
  note run = assms(3)[unfolded request_def]
  have "keeps_host mark seen log (cw_out w) (cw_out w')"
    by (rule execute_out[OF run])
      (use assms(1,2) in \<open>auto simp: pull_host_def pull_log_def leavesD intro: keeps_host_trans simp: keeps_host_def[of _ _ _ x x for x]\<close>)
  moreover have "\<exists>t out. ra_fetch_since (cy_rest cy) t (pc_created_at c) (pc_item_id c) n out = (Inr rows, cw_out w')"
    if "r = Inr rows" for rows
    using execute_loop_result[OF run[unfolded that execute_def]] .
  ultimately show ?thesis using execute_waits[OF run] by simp
qed

lemma fetch_page:
  assumes "pull_host cy src mark seen" and "pull_log cy src log" and "pages_in_order (cy_rest cy) T"
    and "request cy (\<lambda>token. ra_fetch_since (cy_rest cy) token (pc_created_at c) (pc_item_id c) n) w = (r, w')"
  shows "keeps_host mark seen log (cw_out w) (cw_out w') \<and> cw_clock w' = cw_clock w
    \<and> (\<forall>rows. r = Inr rows \<longrightarrow> page_holds T c rows \<and> set rows \<subseteq> log (cw_out w'))"
proof -
  note answer = fetch_answer[OF assms(1,2,4)]
  have "page_holds T c rows \<and> set rows \<subseteq> log (cw_out w')" if "r = Inr rows" for rows
  proof -
    from answer that obtain t out where
      fetch: "ra_fetch_since (cy_rest cy) t (pc_created_at c) (pc_item_id c) n out = (Inr rows, cw_out w')" by blast
    with assms(3) have "page_holds T \<lparr>pc_created_at = pc_created_at c, pc_item_id = pc_item_id c\<rparr> rows"
      unfolding pages_in_order_def by blast
    moreover have "set rows \<subseteq> log (cw_out w')" using fetch assms(2) unfolding pull_log_def by blast
    ultimately show ?thesis by (simp add: page_holds_def)
  qed
  with answer show ?thesis by blast
qed

lemma outcomes_leave:
  assumes "pull_host cy src mark seen" and "pull_log cy src log" and "note_outcomes src outcomes stats republish w = (r, w')"
  shows "keeps_host mark seen log (cw_out w) (cw_out w') \<and> cw_clock w' = cw_clock w"
  using assms
proof (induction src outcomes stats republish arbitrary: w rule: note_outcomes.induct)
  case (3 src item outcomes stats republish)
  obtain q w1 where s: "on_source (sc_requeue_local_winner src item) w = (q, w1)" by fastforce
  have "leaves mark seen (sc_requeue_local_winner src item)" "log_grows log (sc_requeue_local_winner src item)"
    using "3.prems"(1,2) by (simp_all add: pull_host_def pull_log_def)
  from source_leaves[OF this s] have one: "keeps_host mark seen log (cw_out w) (cw_out w1)" "cw_clock w1 = cw_clock w" by auto
  show ?case
  proof (cases q)
    case Inl
    with "3.prems"(3) s one show ?thesis by (auto simp: act_bind_def)
  next
    case (Inr b)
    with "3.prems"(3) s have "note_outcomes src outcomes stats (republish \<or> b) w1 = (r, w')" by (simp add: act_bind_def)
    from "3.IH"[OF "3.prems"(1,2) this] one show ?thesis by (auto intro: keeps_host_trans)
  qed
qed (auto simp: act_return_def keeps_host_def)

lemma hand_over_reach:
  assumes host: "pull_host cy src mark seen" and log: "pull_log cy src log" and run: "hand_over src batch stats republish adv w = (r, w')"
  shows "keeps_host mark seen log (cw_out w) (cw_out w') \<and> cw_clock w' = cw_clock w
    \<and> (\<forall>st rep adv'. r = Inr (st, rep, adv') \<longrightarrow> set batch \<subseteq> seen (cw_out w') \<and> adv' = page_cursor batch adv)"
proof (cases "batch = []")
  case True
  with run show ?thesis by (auto simp: hand_over_def act_return_def keeps_host_def page_cursor_def)
next
  case False
  obtain q w1 where s: "on_source (sc_apply_remote_batch src batch) w = (q, w1)" by fastforce
  have "leaves mark seen (sc_apply_remote_batch src batch)" "log_grows log (sc_apply_remote_batch src batch)"
    using host log by (simp_all add: pull_host_def pull_log_def)
  from source_leaves[OF this s] have one: "keeps_host mark seen log (cw_out w) (cw_out w1)" "cw_clock w1 = cw_clock w" by auto
  have given: "set batch \<subseteq> seen (cw_out w1)" if "q = Inr outcomes" for outcomes
    using s that host by (auto simp: on_source_def pull_host_def split: prod.splits) blast
  show ?thesis
  proof (cases q)
    case Inl
    with run s one False show ?thesis by (auto simp: hand_over_def act_bind_def)
  next
    case (Inr outcomes)
    obtain n w2 where t: "note_outcomes src outcomes stats republish w1 = (n, w2)" by fastforce
    note two = outcomes_leave[OF host log t]
    have "keeps_host mark seen log (cw_out w) (cw_out w2)" by (rule keeps_host_trans[OF one(1) conjunct1[OF two]])
    moreover have "set batch \<subseteq> seen (cw_out w2)" using given[OF Inr] two by (auto simp: keeps_host_def)
    ultimately show ?thesis
      using run s one Inr False t two
      by (auto simp: hand_over_def act_bind_def act_return_def page_cursor_def split: if_splits sum.splits)
  qed
qed

definition reached ::
  "'o cloud_sync \<Rightarrow> ('o \<Rightarrow> pull_cursor) \<Rightarrow> ('o \<Rightarrow> local_item set) \<Rightarrow> ('o \<Rightarrow> cloud_item set) \<Rightarrow> cloud_item set \<Rightarrow> int set \<Rightarrow> pull_cursor \<Rightarrow> 'o \<Rightarrow> bool" where
  "reached cy mark seen log T clock c out \<longleftrightarrow>
     0 \<le> pc_created_at (mark out)
     \<and> (\<forall>r. passed c r \<longrightarrow> passed (mark out) r)
     \<and> (\<forall>r \<in> T. passed (mark out) r \<longrightarrow> passed c r \<or> judged cy (seen out) r)
     \<and> (mark out = c \<or> (\<exists>now \<in> clock. follows cy (log out) now (mark out)))"

lemma judged_mono: "judged cy S r \<Longrightarrow> S \<subseteq> S' \<Longrightarrow> judged cy S' r"
  by (force simp: judged_def)

lemma reached_refl: "0 \<le> pc_created_at c \<Longrightarrow> mark out = c \<Longrightarrow> reached cy mark seen log T clock c out"
  by (simp add: reached_def)

lemma reached_keeps:
  "reached cy mark seen log T clock c out \<Longrightarrow> keeps_host mark seen log out out' \<Longrightarrow> reached cy mark seen log T clock c out'"
  by (auto simp: reached_def keeps_host_def intro: judged_mono follows_mono)

lemma reached_trans:
  assumes "reached cy mark seen log T clock c out" and "reached cy mark seen log T clock' (mark out) out'"
    and "seen out \<subseteq> seen out'" and "log out \<subseteq> log out'" and "clock' \<subseteq> clock"
  shows "reached cy mark seen log T clock c out'"
  using assms judged_mono[OF _ assms(3)] follows_mono[OF _ assms(4)] unfolding reached_def by (metis subsetD)

lemma keep_cursor_reach:
  assumes host: "pull_host cy src mark seen" and log: "pull_log cy src log"
    and "mark (cw_out w) = c" and "0 \<le> pc_created_at c"
    and adv: "adv = c \<or> pc_item_id adv \<noteq> None" and "reached cy (\<lambda>_. adv) seen log T clock c (cw_out w)"
    and run: "keep_cursor src c adv w = (r, w')"
  shows "reached cy mark seen log T clock c (cw_out w') \<and> seen (cw_out w) \<subseteq> seen (cw_out w')
    \<and> log (cw_out w) \<subseteq> log (cw_out w') \<and> cw_clock w' = cw_clock w \<and> (r = Inr () \<longrightarrow> mark (cw_out w') = adv)"
proof (cases "adv = c")
  case True
  with run assms(3,4) show ?thesis by (auto simp: keep_cursor_def act_return_def reached_refl)
next
  case False
  with adv obtain k where k: "pc_item_id adv = Some k" by auto
  obtain q out where set: "sc_set_watermark_keyset src (pc_created_at adv) k (cw_out w) = (q, out)" by fastforce
  from run False k set have w': "r = q" "w' = w\<lparr>cw_out := out\<rparr>" by (simp_all add: keep_cursor_def on_source_def)
  have new: "\<lparr>pc_created_at = pc_created_at adv, pc_item_id = Some k\<rparr> = adv" using k by (cases adv) simp
  from host set have s: "seen (cw_out w) \<subseteq> seen out" "mark out = adv \<or> mark out = mark (cw_out w) \<and> q \<noteq> Inr ()"
    unfolding pull_host_def using new by metis+
  have "log_grows log (sc_set_watermark_keyset src (pc_created_at adv) k)" using log by (simp add: pull_log_def)
  then have "log (cw_out w) \<subseteq> log (snd (sc_set_watermark_keyset src (pc_created_at adv) k (cw_out w)))"
    unfolding log_grows_def by blast
  then have l: "log (cw_out w) \<subseteq> log out" by (simp add: set)
  have "reached cy mark seen log T clock c out" if "mark out = adv"
    using assms(6) that judged_mono[OF _ s(1)] follows_mono[OF _ l] unfolding reached_def by metis
  with s(2) assms(3,4) have "reached cy mark seen log T clock c out" using reached_refl by metis
  with s l w' show ?thesis by auto
qed

lemma page_cursor_some: "page_cursor batch adv = adv \<or> pc_item_id (page_cursor batch adv) \<noteq> None"
  by (simp add: page_cursor_def advance_past_def)

lemma pull_pages_reach:
  assumes host: "pull_host cy src mark seen" and log: "pull_log cy src log" and order: "pages_in_order (cy_rest cy) T"
    and "mark (cw_out w) = c" and "0 \<le> pc_created_at c"
    and "pull_pages cy src n c stats republish w = (r, w')"
  shows "reached cy mark seen log T (insert 0 (set (cw_clock w))) c (cw_out w')
    \<and> seen (cw_out w) \<subseteq> seen (cw_out w') \<and> log (cw_out w) \<subseteq> log (cw_out w')"
  using assms(4-6)
proof (induction n arbitrary: c stats republish w)
  case 0
  then show ?case by (auto simp: act_return_def reached_refl)
next
  case (Suc n)
  let ?fetch = "request cy (\<lambda>token. ra_fetch_since (cy_rest cy) token (pc_created_at c) (pc_item_id c) pull_page_limit)"
  obtain q1 w1 where f: "?fetch w = (q1, w1)" by fastforce
  note f' = fetch_page[OF host log order f]
  let ?clock = "insert 0 (set (cw_clock w))"
  have start: "reached cy mark seen log T ?clock c (cw_out w)" using Suc.prems by (simp add: reached_refl)
  show ?case
  proof (cases q1)
    case (Inl e)
    with Suc.prems(3) f have "w' = w1" by (simp add: act_bind_def)
    with f' start show ?thesis by (auto simp: keeps_host_def intro: reached_keeps[unfolded keeps_host_def])
  next
    case (Inr rows)
    with f' have page: "page_holds T c rows" and logged: "set rows \<subseteq> log (cw_out w1)" by blast+
    define now where "now = fst (case cw_clock w1 of [] \<Rightarrow> (0, []) | t # ts \<Rightarrow> (t, ts))"
    define w2 where "w2 = snd (read_clock w1)"
    have clock: "read_clock w1 = (Inr now, w2)" "now \<in> ?clock" "set (cw_clock w2) \<subseteq> set (cw_clock w)" "cw_out w2 = cw_out w1"
      using f' by (auto simp: read_clock_def now_def w2_def split: list.split)
    obtain st adv batch where rows: "pull_rows cy now (sort_page rows)
        (stats\<lparr>ct_downloaded := ct_downloaded stats + length rows\<rparr>, c, []) = (st, adv, batch)" by (metis prod_cases3)
    note reach = page_reach[OF page Suc.prems(2) rows]
    obtain q3 w3 where h: "hand_over src batch st republish adv w2 = (q3, w3)" by fastforce
    note h' = hand_over_reach[OF host log h]
    have kept: "keeps_host mark seen log (cw_out w) (cw_out w3)"
      using f' h' clock(4) keeps_host_trans by metis
    note run = Suc.prems(3)[unfolded pull_pages.simps act_bind_def[of ?fetch] f, simplified Inr, simplified,
        unfolded page_clamped[OF page Suc.prems(2)] Let_def act_bind_def[of read_clock] clock(1), simplified, unfolded rows prod.case]
    show ?thesis
    proof (cases q3)
      case (Inl e)
      with run h have "w' = w3" by (simp add: act_bind_def)
      with kept start show ?thesis by (auto simp: keeps_host_def intro: reached_keeps[unfolded keeps_host_def])
    next
      case (Inr v)
      obtain st' rep' where v: "v = (st', rep', page_cursor batch adv)" using h' Inr by (metis prod_cases3)
      let ?adv = "page_cursor batch adv"
      have given: "set batch \<subseteq> seen (cw_out w3)" using h' Inr v by blast
      have logged3: "set rows \<subseteq> log (cw_out w3)" using logged h' clock(4) by (auto simp: keeps_host_def)
      have "reached cy (\<lambda>_. ?adv) seen log T ?clock c (cw_out w3)"
        unfolding reached_def judged_def using reach given clock(2) follows_mono[OF _ logged3] by blast
      moreover have "?adv = c \<or> pc_item_id ?adv \<noteq> None"
        using page_cursor_some[of batch adv] pull_rows_some[OF rows] by auto
      moreover obtain q4 w4 where k: "keep_cursor src c ?adv w3 = (q4, w4)" by fastforce
      moreover have "mark (cw_out w3) = c" using kept Suc.prems(1) by (simp add: keeps_host_def)
      ultimately have k': "reached cy mark seen log T ?clock c (cw_out w4)" "seen (cw_out w3) \<subseteq> seen (cw_out w4)"
        "log (cw_out w3) \<subseteq> log (cw_out w4)" "cw_clock w4 = cw_clock w3" "q4 = Inr () \<Longrightarrow> mark (cw_out w4) = ?adv"
        using keep_cursor_reach[OF host log _ Suc.prems(2)] by blast+
      have seen4: "seen (cw_out w) \<subseteq> seen (cw_out w4)" "log (cw_out w) \<subseteq> log (cw_out w4)"
        using kept k'(2,3) by (auto simp: keeps_host_def)
      consider "w' = w4" | "q4 = Inr ()" "pull_pages cy src n ?adv st' rep' w4 = (r, w')"
        using run h Inr v k by (auto simp: act_bind_def act_return_def split: sum.splits if_splits)
      then show ?thesis
      proof cases
        case 1
        with k'(1) seen4 show ?thesis by simp
      next
        case 2
        have "0 \<le> pc_created_at ?adv" by (rule reach(1))
        from Suc.IH[OF k'(5)[OF 2(1)] this 2(2)] have rest:
          "reached cy mark seen log T (insert 0 (set (cw_clock w4))) ?adv (cw_out w')" "seen (cw_out w4) \<subseteq> seen (cw_out w')"
          "log (cw_out w4) \<subseteq> log (cw_out w')" by auto
        have "insert 0 (set (cw_clock w4)) \<subseteq> ?clock" using k'(4) h' clock(3) by auto
        from reached_trans[OF k'(1) rest(1)[folded k'(5)[OF 2(1)]] rest(2,3) this] rest(2,3) seen4 show ?thesis by blast
      qed
    qed
  qed
qed

end
