(* ===== verification/Cloud_Props.thy ===== *)
theory Cloud_Props
  imports Cloud_Driver Cloud_Pull
begin

text \<open>
  What holds of the cloud rounds: what one device uploads another accepts unchanged, the signature
  fixes every column, a pull passes nothing it has not judged and follows only the clock or the key,
  a request is bounded and a fenced session stays fenced; and two ways in which one item id stops
  the rounds.
\<close>

section \<open>Settings for the witnesses\<close>

definition demo_base64 :: "bytes \<Rightarrow> string" where
  "demo_base64 bs =
     (let k = div_ceil (length bs) 3 in
      if bs = [] then [] else bs @ replicate (4 * k - length bs - 1) CHR ''x'' @ [char_of (3 * k - length bs)])"

definition demo_unbase64 :: "string \<Rightarrow> bytes option" where
  "demo_unbase64 s = (if s = [] then Some [] else Some (take (3 * (length s div 4) - of_char (last s)) s))"

definition demo_cloud_env :: cloud_env where
  "demo_cloud_env =
     \<lparr>ce_sealing = demo_sealing,
      ce_payload = \<lparr>pe_base64 = demo_base64, pe_unbase64 = demo_unbase64, pe_png_dimensions = \<lambda>_. None,
        pe_file_of_json = \<lambda>_. None, pe_transfer_of_json = \<lambda>_. None, pe_of_json = \<lambda>_. None, pe_to_json = \<lambda>_. None,
        pe_privacy_flags = \<lambda>_. (None, None)\<rparr>,
      ce_hmac = \<lambda>k m. k @ m, ce_hkdf_extract = \<lambda>s i. s @ i, ce_hkdf_expand = \<lambda>k i n. take n (k @ i),
      ce_argon2id = \<lambda>_ p s. Some (p @ s)\<rparr>"

lemma demo_base64_length: "length (demo_base64 bs) = 4 * div_ceil (length bs) 3"
proof (cases bs)
  case (Cons b cs)
  then have "length bs < 4 * div_ceil (length bs) 3" by (simp add: div_ceil_def)
  with Cons show ?thesis by (simp add: demo_base64_def Let_def)
qed (simp add: demo_base64_def div_ceil_def)

lemma demo_base64_decodes: "demo_unbase64 (demo_base64 bs) = Some bs"
proof (cases bs)
  case (Cons b cs)
  define k where "k = div_ceil (length bs) 3"
  have k: "length bs \<le> 3 * k" "3 * k - length bs < 3" using Cons by (simp_all add: k_def div_ceil_def)
  have "of_char (last (demo_base64 bs)) = 3 * k - length bs"
    using Cons k by (simp add: demo_base64_def k_def Let_def take_bit_eq_mod)
  moreover have "length (demo_base64 bs) div 4 = k" by (simp add: demo_base64_length k_def)
  moreover have "take (length bs) (demo_base64 bs) = bs" using Cons by (simp add: demo_base64_def Let_def)
  moreover have "demo_base64 bs \<noteq> []" using Cons by (simp add: demo_base64_def Let_def)
  ultimately show ?thesis using k by (simp add: demo_unbase64_def)
qed (simp add: demo_base64_def demo_unbase64_def)

lemma demo_base64_ok: "base64_ok demo_cloud_env"
  by (simp add: base64_ok_def demo_cloud_env_def demo_base64_decodes demo_base64_length)

lemma demo_cloud_sealing: "aead_ok (ce_sealing demo_cloud_env)"
  by (simp add: demo_cloud_env_def demo_sealing_ok)

text \<open>An account table that other devices have filled, and a source that only keeps what it is given.\<close>

record demo_account =
  da_mark :: pull_cursor
  da_seen :: "local_item list"

definition table_rest :: "cloud_item list \<Rightarrow> demo_account rest_api" where
  "table_rest rows =
     \<lparr>ra_fetch_group_catalog = \<lambda>_ _ out. (Inr [], out), ra_fetch_groups = \<lambda>_ _ out. (Inr [], out),
      ra_upsert_group = \<lambda>_ _ out. (Inr (), out),
      ra_fetch_since = \<lambda>_ since after limit out.
        (Inr (take limit (filter (\<lambda>r. after_keyset since after (ci_created_at r) (ci_item_id r)) (sort_page rows))), out),
      ra_upsert = \<lambda>_ _ out. (Inr (), out)\<rparr>"

definition demo_account_io :: "demo_account account_io" where
  "demo_account_io = \<lparr>io_refresh = \<lambda>_ out. (Inl AuthSessionExpired, out), io_persist = \<lambda>_ out. (Inr (), out)\<rparr>"

definition demo_sink :: "demo_account cloud_source" where
  "demo_sink =
     \<lparr>sc_group_snapshot = \<lambda>out. (Inr None, out), sc_apply_group = \<lambda>_ _ out. (Inr (), out),
      sc_group_sync_allowed = \<lambda>_. True, sc_device_id = ''here'', sc_local_changes_after = \<lambda>_ _ out. (Inr [], out),
      sc_apply_remote_batch = \<lambda>batch out. (Inr (map (\<lambda>_. Merged) batch), out\<lparr>da_seen := da_seen out @ batch\<rparr>),
      sc_watermark = \<lambda>out. (Inr (pc_created_at (da_mark out)), out),
      sc_watermark_item_id = \<lambda>out. (Inr (pc_item_id (da_mark out)), out),
      sc_upload_floor = \<lambda>out. (Inr 0, out), sc_upload_floor_item_id = \<lambda>out. (Inr None, out),
      sc_requeue_local_winner = \<lambda>_ out. (Inr False, out),
      sc_set_watermark_keyset = \<lambda>t k out. (Inr (), out\<lparr>da_mark := \<lparr>pc_created_at = t, pc_item_id = Some k\<rparr>\<rparr>)\<rparr>"

definition demo_cloud :: "cloud_item list \<Rightarrow> demo_account cloud_sync" where
  "demo_cloud rows = \<lparr>cy_rest = table_rest rows, cy_account = demo_account_io, cy_key = sync_key_new demo_cloud_env ''k'', cy_env = demo_cloud_env\<rparr>"

definition demo_round :: "int list \<Rightarrow> demo_account cloud_world" where
  "demo_round clock =
     \<lparr>cw_auth = \<lparr>au_session = \<lparr>se_access_token = ''t'', se_refresh_token = ''r'', se_user_id = ''u'', se_expires_at_ms = 9\<rparr>,
                 au_revision = 0, au_fenced = False, au_events = 0\<rparr>,
      cw_others = [], cw_waits = [], cw_clock = clock,
      cw_cadence = \<lparr>ad_floor = min_poll_interval, ad_ceiling = max_poll_interval, ad_current = min_poll_interval\<rparr>,
      cw_push_channel = False, cw_group_downloaded = fmempty, cw_group_uploaded = None,
      cw_out = \<lparr>da_mark = \<lparr>pc_created_at = 0, pc_item_id = None\<rparr>, da_seen = []\<rparr>\<rparr>"

text \<open>A page of a table holds what the keyset asks for, as long as no two rows share a position.\<close>

lemma table_pages:
  assumes "distinct (map row_pos rows)"
  shows "pages_in_order (table_rest rows) (set rows)"
proof -
  let ?page = "\<lambda>since after. filter (\<lambda>r. after_keyset since after (ci_created_at r) (ci_item_id r)) (sort_page rows)"
  have ord: "sorted (map row_pos (?page since after))" "distinct (map row_pos (?page since after))" for since after
    using assms by (simp_all add: sort_page_def sorted_filter distinct_map_filter distinct_map inj_on_def)
  have "page_holds (set rows) \<lparr>pc_created_at = since, pc_item_id = after\<rparr> (take limit (?page since after))" for since after limit
    unfolding page_holds_def
  proof (intro conjI ballI impI)
    fix x assume "x \<in> set (take limit (?page since after))"
    then show "\<not> passed \<lparr>pc_created_at = since, pc_item_id = after\<rparr> x" by (auto dest: in_set_takeD)
  next
    fix r assume r: "r \<in> set rows" "\<not> passed \<lparr>pc_created_at = since, pc_item_id = after\<rparr> r"
    have "row_pos x < row_pos r" if "x \<in> set (take limit (?page since after))" "r \<notin> set (take limit (?page since after))" for x
      by (rule sorted_take_before[OF ord that(1) _ that(2)]) (use r in \<open>simp add: sort_page_def\<close>)
    then show "r \<in> set (take limit (?page since after)) \<or> (\<forall>x \<in> set (take limit (?page since after)). row_pos x < row_pos r)"
      by blast
  qed
  then show ?thesis by (auto simp: pages_in_order_def table_rest_def)
qed

lemma demo_pull_host: "pull_host (demo_cloud rows) demo_sink da_mark (\<lambda>out. set (da_seen out))"
  by (simp add: pull_host_def demo_cloud_def table_rest_def demo_account_io_def demo_sink_def leaves_def)

definition demo_note :: local_item where
  "demo_note = \<lparr>li_item_id = ''a'', li_content = ''hi'', li_content_type = ''text'', li_payload_metadata = None, li_created_at = 7,
     li_deleted = False, li_origin_device_id = [], li_source_app_bundle_id = None, li_source_app_name = Some ''x''\<rparr>"

lemma demo_cloud_simps:
  "cy_env (demo_cloud rows) = demo_cloud_env" "cy_key (demo_cloud rows) = sync_key_new demo_cloud_env ''k''"
  "cy_rest (demo_cloud rows) = table_rest rows" "cy_account (demo_cloud rows) = demo_account_io"
  by (simp_all add: demo_cloud_def)

section \<open>A row from one device to another\<close>

text \<open>What the receiver reads of an uploaded item: a tombstone carries no content, metadata or source.\<close>

definition received :: "string \<Rightarrow> local_item \<Rightarrow> local_item" where
  "received device_id item =
     (let item = item\<lparr>li_origin_device_id := if li_origin_device_id item = [] then device_id else li_origin_device_id item\<rparr>
      in if li_deleted item
         then item\<lparr>li_content := [], li_payload_metadata := None, li_source_app_bundle_id := None, li_source_app_name := None\<rparr>
         else item)"

lemma sealed_length_ok:
  assumes "aead_ok (ce_sealing ce)" and "base64_ok ce" and "encrypt_row ce nonce content key i = Inr (n, c)"
    and "length content \<le> max_content_bytes"
  shows "\<not> ciphertext_exceeds_content_limit c"
proof -
  from assms(3) obtain ct where "sl_seal (ce_sealing ce) (sk_material key) nonce (cloud_aad i) content = Some ct"
    and c: "c = pe_base64 (ce_payload ce) ct" by (auto simp: encrypt_row_def split: option.splits)
  with whole_length[OF assms(1)] have "length ct = length content + aead_tag_len" by blast
  then have "length ct \<le> max_content_bytes + aead_tag_len" using assms(4) by simp
  then have "div_ceil (length ct) 3 \<le> div_ceil (max_content_bytes + aead_tag_len) 3"
    by (simp add: div_ceil_def div_le_mono)
  moreover have "usize_saturating_add max_content_bytes aead_tag_len = max_content_bytes + aead_tag_len"
    by (simp add: usize_saturating_add_def usize_max_def max_content_bytes_def aead_tag_len_def)
  ultimately show ?thesis
    using assms(2) by (simp add: ciphertext_exceeds_content_limit_def c base64_ok_def)
qed

text \<open>
  C9: What one device uploads, every device that holds the same key accepts, whatever its clock
  within the tolerated skew, and reads back as the same version: same id, content, type, metadata,
  stamp and source, the origin filled in. The row is judged as the pull judges it, with its stamp
  clamped first; the stamps a device gives its items are not negative, and a negative one is the
  exception, since the clamp then changes a signed column. Nothing is refused as forged, as too
  large or as undecryptable; the only items withheld are those above the content cap.
\<close>

theorem pushed_row_is_genuine_everywhere:
  assumes "aead_ok (ce_sealing (cy_env a))" and "base64_ok (cy_env a)" and "length nonce = aead_nonce_len"
    and "cy_env b = cy_env a" and "cy_key b = cy_key a"
    and "0 \<le> li_created_at item" and "li_created_at item \<le> i64_saturating_add now cloud_future_skew_ms"
  shows "(\<exists>row stats'. push_item a device_id nonce item stats = Inr (Some row, stats')
        \<and> judge b now (row\<lparr>ci_created_at := clamp_stamp (ci_created_at row)\<rparr>) = Genuine (received device_id item))
    \<or> \<not> li_deleted item \<and> length (li_content item) > max_content_bytes
       \<and> push_item a device_id nonce item stats = Inr (None, stats\<lparr>ct_skipped_too_large := ct_skipped_too_large stats + 1\<rparr>)"
proof -
  have clamped: "row\<lparr>ci_created_at := clamp_stamp (ci_created_at row)\<rparr> = row" if "ci_created_at row = li_created_at item"
    for row :: cloud_item using assms(6) that by (simp add: clamp_stamp_def)
  consider (tombstone) "li_deleted item" | (large) "\<not> li_deleted item" "length (li_content item) > max_content_bytes"
    | (live) "\<not> li_deleted item" "length (li_content item) \<le> max_content_bytes" by linarith
  then show ?thesis
  proof cases
    case tombstone
    define row where "row = row_sign (cy_env a) (cy_key a) (cloud_tombstone (li_item_id item) (li_content_type item) (li_created_at item)
      (if li_origin_device_id item = [] then device_id else li_origin_device_id item))"
    have v: "row_verify (cy_env b) (cy_key b) row = Inr ()" unfolding row_def using assms(2,4,5) by (simp add: sign_verifies)
    have "judge b now row = Genuine (received device_id item)"
      unfolding judge_def v using tombstone assms(7)
      by (simp add: row_def row_sign_def cloud_tombstone_def received_def)
    moreover have "push_item a device_id nonce item stats = Inr (Some row, stats\<lparr>ct_tombstoned := ct_tombstoned stats + 1\<rparr>)"
      using tombstone by (simp add: push_item_def row_def Let_def)
    moreover have "ci_created_at row = li_created_at item" by (simp add: row_def row_sign_def cloud_tombstone_def)
    ultimately show ?thesis using clamped[of row] by auto
  next
    case large
    then show ?thesis by (simp add: push_item_def too_large_to_sync_def)
  next
    case live
    have "sl_seal (ce_sealing (cy_env a)) (sk_material (cy_key a)) nonce (cloud_aad (li_item_id item)) (li_content item) \<noteq> None"
      by (rule whole_seals[OF assms(1) live(2)])
    then obtain n c where e: "encrypt_row (cy_env a) nonce (li_content item) (cy_key a) (li_item_id item) = Inr (n, c)"
      by (auto simp: encrypt_row_def)
    note opens = encrypt_row_opens[OF assms(1-3) e]
    obtain row stats' where p: "push_item a device_id nonce item stats = Inr (Some (row_sign (cy_env a) (cy_key a) row), stats')"
      and row: "row = \<lparr>ci_item_id = li_item_id item, ci_ciphertext = c, ci_nonce = n,
                     ci_content_type = li_content_type item, ci_payload_metadata = li_payload_metadata item,
                     ci_source_app_bundle_id = li_source_app_bundle_id item,
                     ci_source_app_name = li_source_app_name item, ci_created_at = li_created_at item,
                     ci_deleted = False,
                     ci_origin_device_id = if li_origin_device_id item = [] then device_id else li_origin_device_id item, ci_signature = []\<rparr>"
      using live e by (simp add: push_item_def too_large_to_sync_def Let_def)
    have v: "row_verify (cy_env b) (cy_key b) (row_sign (cy_env a) (cy_key a) row) = Inr ()"
      using assms(2,4,5) by (simp add: sign_verifies)
    have "judge b now (row_sign (cy_env a) (cy_key a) row) = Genuine (received device_id item)"
      unfolding judge_def v using live assms(4,5,7) opens sealed_length_ok[OF assms(1,2) e live(2)]
      by (simp add: row row_sign_def received_def too_large_to_sync_def)
    moreover have "ci_created_at (row_sign (cy_env a) (cy_key a) row) = li_created_at item" by (simp add: row row_sign_def)
    ultimately show ?thesis using p clamped[of "row_sign (cy_env a) (cy_key a) row"] by auto
  qed
qed

theorem pushed_row_is_genuine_everywhere_witness:
  "\<exists>row stats'. push_item (demo_cloud []) ''here'' (replicate 24 CHR ''n'') demo_note cloud_stats_default = Inr (Some row, stats')
     \<and> judge (demo_cloud []) 5 (row\<lparr>ci_created_at := clamp_stamp (ci_created_at row)\<rparr>) = Genuine (demo_note\<lparr>li_origin_device_id := ''here''\<rparr>)"
proof -
  have "received ''here'' demo_note = demo_note\<lparr>li_origin_device_id := ''here''\<rparr>" by (simp add: received_def demo_note_def)
  moreover have "\<not> length (li_content demo_note) > max_content_bytes" by (simp add: demo_note_def max_content_bytes_def)
  moreover have "0 \<le> li_created_at demo_note" "li_created_at demo_note \<le> i64_saturating_add 5 cloud_future_skew_ms"
    by (simp_all add: i64_saturating_add_def i64_max_def i64_min_def cloud_future_skew_ms_def demo_note_def)
  ultimately show ?thesis
    using pushed_row_is_genuine_everywhere[of "demo_cloud []" "replicate 24 CHR ''n''" "demo_cloud []" demo_note 5 "''here''"
        cloud_stats_default]
    by (simp add: demo_cloud_simps demo_base64_ok demo_cloud_sealing aead_nonce_len_def)
qed

text \<open>
  C10: The signature of a row fixes every one of its columns: two rows have the same signed octets
  only if they agree in everything but the signature itself. The fields are prefixed with their
  lengths, an absent option is told from an empty one, and the stamp is written in full, so no
  column can be moved into another.
\<close>

theorem signature_covers_every_column:
  "signing_input a = signing_input b \<longleftrightarrow> a\<lparr>ci_signature := []\<rparr> = b\<lparr>ci_signature := []\<rparr>"
proof
  have same: "signing_input (r\<lparr>ci_signature := s\<rparr>) = signing_input r" for r :: cloud_item and s
    by (simp add: signing_input_def signing_fields_def)
  show "a\<lparr>ci_signature := []\<rparr> = b\<lparr>ci_signature := []\<rparr>" if "signing_input a = signing_input b"
    by (rule signing_input_inj) (simp_all add: same that)
  show "signing_input a = signing_input b" if "a\<lparr>ci_signature := []\<rparr> = b\<lparr>ci_signature := []\<rparr>"
    using that same[of "[]" a] same[of "[]" b] by simp
qed

section \<open>What a pull passes\<close>

lemma watermark_read:
  assumes "pull_host cy src mark seen"
  shows "on_source (sc_watermark src) w = (Inr t, w1) \<Longrightarrow> t = pc_created_at (mark (cw_out w))"
    and "on_source (sc_watermark_item_id src) w = (Inr k, w1) \<Longrightarrow> k = pc_item_id (mark (cw_out w))"
proof -
  from assms have t: "\<forall>out t out'. sc_watermark src out = (Inr t, out') \<longrightarrow> t = pc_created_at (mark out)"
    and k: "\<forall>out k out'. sc_watermark_item_id src out = (Inr k, out') \<longrightarrow> k = pc_item_id (mark out)"
    by (simp_all add: pull_host_def)
  show "on_source (sc_watermark src) w = (Inr t, w1) \<Longrightarrow> t = pc_created_at (mark (cw_out w))"
    using t by (cases "sc_watermark src (cw_out w)") (simp add: on_source_def)
  show "on_source (sc_watermark_item_id src) w = (Inr k, w1) \<Longrightarrow> k = pc_item_id (mark (cw_out w))"
    using k by (cases "sc_watermark_item_id src (cw_out w)") (simp add: on_source_def)
qed

text \<open>A pull reads the watermark, and drains pages from there.\<close>

lemma pull_starts:
  assumes host: "pull_host cy src mark seen" and log: "pull_log cy src log" and run: "pull_with_republish cy src w = (r, w')"
  shows "(\<exists>e. r = Inl e) \<and> keeps_host mark seen log (cw_out w) (cw_out w')
    \<or> (\<exists>w2. keeps_host mark seen log (cw_out w) (cw_out w2) \<and> cw_clock w2 = cw_clock w
         \<and> pull_pages cy src max_pages_per_pull (mark (cw_out w)) cloud_stats_default False w2 = (r, w'))"
proof -
  obtain q1 w1 where a: "on_source (sc_watermark src) w = (q1, w1)" by fastforce
  have l: "leaves mark seen (sc_watermark src)" "leaves mark seen (sc_watermark_item_id src)"
    using host by (simp_all add: pull_host_def)
  have g: "log_grows log (sc_watermark src)" "log_grows log (sc_watermark_item_id src)" using log by (simp_all add: pull_log_def)
  note a' = source_leaves[OF l(1) g(1) a]
  show ?thesis
  proof (cases q1)
    case (Inl e)
    with run a a' show ?thesis by (auto simp: pull_with_republish_def act_bind_def)
  next
    case (Inr t)
    obtain q2 w2 where b: "on_source (sc_watermark_item_id src) w1 = (q2, w2)" by fastforce
    note b' = source_leaves[OF l(2) g(2) b]
    have kept: "keeps_host mark seen log (cw_out w) (cw_out w2)" by (rule keeps_host_trans[OF conjunct1[OF a'] conjunct1[OF b']])
    show ?thesis
    proof (cases q2)
      case (Inl e)
      with run a b Inr kept show ?thesis by (auto simp: pull_with_republish_def act_bind_def)
    next
      case (Inr k)
      have "mark (cw_out w1) = mark (cw_out w)" using a' by (simp add: keeps_host_def)
      with watermark_read(1)[OF host a[unfolded \<open>q1 = Inr t\<close>]] watermark_read(2)[OF host b[unfolded Inr]]
      have "\<lparr>pc_created_at = t, pc_item_id = k\<rparr> = mark (cw_out w)" by simp
      with run a b Inr \<open>q1 = Inr t\<close> have
        "pull_pages cy src max_pages_per_pull (mark (cw_out w)) cloud_stats_default False w2 = (r, w')"
        by (simp add: pull_with_republish_def act_bind_def)
      with kept a' b' show ?thesis by auto
    qed
  qed
qed

lemma pull_reach:
  assumes host: "pull_host cy src mark seen" and log: "pull_log cy src log" and order: "pages_in_order (cy_rest cy) T"
    and pos: "0 \<le> pc_created_at (mark (cw_out w))" and run: "pull_with_republish cy src w = (r, w')"
  shows "reached cy mark seen log T (insert 0 (set (cw_clock w))) (mark (cw_out w)) (cw_out w')"
  using pull_starts[OF host log run]
proof (elim disjE exE conjE)
  assume "keeps_host mark seen log (cw_out w) (cw_out w')"
  with reached_refl[of "mark (cw_out w)" mark "cw_out w", OF pos refl] show ?thesis by (rule reached_keeps)
next
  fix w2 assume w2: "keeps_host mark seen log (cw_out w) (cw_out w2)" "cw_clock w2 = cw_clock w"
    "pull_pages cy src max_pages_per_pull (mark (cw_out w)) cloud_stats_default False w2 = (r, w')"
  then have "mark (cw_out w2) = mark (cw_out w)" by (simp add: keeps_host_def)
  from pull_pages_reach[OF host log order this pos w2(3)] show ?thesis by (simp add: w2(2))
qed

text \<open>
  C6: A pull skips nothing. Whatever fails and wherever the pull stops, the persisted watermark
  never moves back, and each row of the table that it has moved past was judged: it was refused as
  forged, oversized or undecryptable, or its version was handed to the history. A row that was
  refused for its stamp alone is never passed.
\<close>

theorem pull_skips_nothing:
  assumes "pull_host cy src mark seen" and "pages_in_order (cy_rest cy) T"
    and "0 \<le> pc_created_at (mark (cw_out w))" and "pull_with_republish cy src w = (r, w')"
  shows "(\<forall>row. passed (mark (cw_out w)) row \<longrightarrow> passed (mark (cw_out w')) row)
    \<and> (\<forall>row \<in> T. passed (mark (cw_out w')) row \<and> \<not> passed (mark (cw_out w)) row \<longrightarrow>
         (\<exists>now. judge cy now row \<noteq> TooFuture \<and> (\<forall>item. judge cy now row = Genuine item \<longrightarrow> item \<in> seen (cw_out w'))))"
  using pull_reach[OF assms(1) every_row_is_a_log assms(2-4)] unfolding reached_def judged_def by blast

text \<open>
  C8: A row that this device refuses cannot drag the watermark ahead of the clock. After a pull the
  watermark is where it was, or at a stamp some reading of the clock had reached, or at a row that
  the backend answered with, that a holder of the key signed and that lies within the tolerated
  skew; a stamp invented by the backend cannot hide the rows behind it. \<open>log\<close> is any record of the
  rows that were answered, so with the smallest one the row is one that was fetched.
\<close>

theorem watermark_follows_the_clock_or_the_key:
  assumes "pull_host cy src mark seen" and "pull_log cy src log" and "pages_in_order (cy_rest cy) T"
    and "0 \<le> pc_created_at (mark (cw_out w))" and "pull_with_republish cy src w = (r, w')"
  shows "mark (cw_out w') = mark (cw_out w)
    \<or> (\<exists>now \<in> insert 0 (set (cw_clock w)). pc_created_at (mark (cw_out w')) \<le> now
         \<or> (\<exists>row \<in> log (cw_out w'). row_verify (cy_env cy) (cy_key cy) row = Inr ()
              \<and> ci_created_at row \<le> i64_saturating_add now cloud_future_skew_ms
              \<and> mark (cw_out w') = \<lparr>pc_created_at = ci_created_at row, pc_item_id = Some (ci_item_id row)\<rparr>))"
proof -
  have signed: "row_verify (cy_env cy) (cy_key cy) row = Inr () \<and> ci_created_at row \<le> i64_saturating_add now cloud_future_skew_ms
      \<and> cursor_at item = \<lparr>pc_created_at = ci_created_at row, pc_item_id = Some (ci_item_id row)\<rparr>"
    if "judge cy now row = Genuine item" for now row item
    using that judge_position[OF that] by (auto simp: judge_def cursor_at_def split: if_splits sum.splits)
  show ?thesis
    using pull_reach[OF assms] signed unfolding reached_def follows_def by metis
qed

text \<open>A table with one row that nobody signed, pulled at time ten.\<close>

definition demo_forged :: cloud_item where
  "demo_forged = cloud_tombstone ''a'' ''text'' 5 ''o''"

lemma demo_judge: "judge (demo_cloud rows) 10 demo_forged = Forged"
proof -
  have "row_verify demo_cloud_env key demo_forged = Inl SignatureInvalid" for key
    by (simp add: row_verify_def verify_metadata_def demo_forged_def cloud_tombstone_def demo_cloud_env_def demo_unbase64_def
        row_mac_def signing_input_def signature_prefix_def)
  then show ?thesis
    by (simp add: judge_def demo_cloud_simps)
       (simp add: demo_forged_def cloud_tombstone_def i64_saturating_add_def i64_max_def i64_min_def cloud_future_skew_ms_def)
qed

lemma demo_fetch:
  "request (demo_cloud [demo_forged]) (\<lambda>token. ra_fetch_since (cy_rest (demo_cloud [demo_forged])) token 0 None pull_page_limit) (demo_round clock)
   = (Inr [demo_forged], demo_round clock)"
  by (simp add: request_def execute_def execute_loop.simps call_def await_def demo_cloud_def table_rest_def sort_page_def
      demo_round_def pull_page_limit_def demo_forged_def cloud_tombstone_def after_keyset_def)

lemma demo_pull:
  "da_mark (cw_out (snd (pull_with_republish (demo_cloud [demo_forged]) demo_sink (demo_round [10]))))
   = \<lparr>pc_created_at = 5, pc_item_id = Some ''a''\<rparr>"
proof -
  have limit: "Suc 0 < pull_page_limit" by (simp add: pull_page_limit_def)
  have pages: "max_pages_per_pull = Suc 49" by (simp add: max_pages_per_pull_def)
  have start: "on_source (sc_watermark demo_sink) (demo_round [10]) = (Inr 0, demo_round [10])"
    "on_source (sc_watermark_item_id demo_sink) (demo_round [10]) = (Inr None, demo_round [10])"
    by (simp_all add: on_source_def demo_sink_def demo_round_def)
  have clock: "read_clock (demo_round [10]) = (Inr 10, demo_round [])" by (simp add: read_clock_def demo_round_def)
  have forged: "demo_forged\<lparr>ci_created_at := clamp_stamp 5\<rparr> = demo_forged"
    "ci_created_at demo_forged = 5" "ci_item_id demo_forged = ''a''" "sort_page [demo_forged] = [demo_forged]"
    by (simp_all add: demo_forged_def cloud_tombstone_def clamp_stamp_def sort_page_def)
  have keep: "on_source (sc_set_watermark_keyset demo_sink t k) w
      = (Inr (), w\<lparr>cw_out := (cw_out w)\<lparr>da_mark := \<lparr>pc_created_at = t, pc_item_id = Some k\<rparr>\<rparr>\<rparr>)" for t k w
    by (simp add: on_source_def demo_sink_def)
  show ?thesis
    unfolding pull_with_republish_def pages pull_pages.simps
    by (simp add: act_bind_def start demo_fetch clock forged demo_judge hand_over_def act_return_def
        keep_cursor_def advance_after_refusal_def advance_past_def after_keyset_def keep Let_def limit)
qed

theorem pull_skips_nothing_witness:
  "\<exists>w'. w' = snd (pull_with_republish (demo_cloud [demo_forged]) demo_sink (demo_round [10]))
     \<and> passed (da_mark (cw_out w')) demo_forged
     \<and> (\<exists>now. judge (demo_cloud [demo_forged]) now demo_forged \<noteq> TooFuture
          \<and> {item. judge (demo_cloud [demo_forged]) now demo_forged = Genuine item} \<subseteq> set (da_seen (cw_out w')))"
proof -
  have start: "0 \<le> pc_created_at (da_mark (cw_out (demo_round [10])))" "\<not> passed (da_mark (cw_out (demo_round [10]))) demo_forged"
    by (simp_all add: demo_round_def demo_forged_def cloud_tombstone_def after_keyset_def)
  have "passed (da_mark (cw_out (snd (pull_with_republish (demo_cloud [demo_forged]) demo_sink (demo_round [10]))))) demo_forged"
    unfolding demo_pull by (simp add: demo_forged_def cloud_tombstone_def after_keyset_def)
  moreover have "pages_in_order (cy_rest (demo_cloud [demo_forged])) {demo_forged}"
    using table_pages[of "[demo_forged]"] by (simp add: demo_cloud_simps)
  ultimately show ?thesis
    using pull_skips_nothing[OF demo_pull_host _ start(1) prod.collapse[symmetric], of "[demo_forged]" "{demo_forged}"] start(2)
    by (simp add: subset_iff)
qed

lemma demo_pull_log: "pull_log (demo_cloud rows) demo_sink (\<lambda>_. set rows)"
  by (auto simp: pull_log_def log_grows_def demo_cloud_simps table_rest_def sort_page_def dest: in_set_takeD)

theorem watermark_follows_the_clock_or_the_key_witness:
  "da_mark (cw_out (snd (pull_with_republish (demo_cloud [demo_forged]) demo_sink (demo_round [10])))) = \<lparr>pc_created_at = 5, pc_item_id = Some ''a''\<rparr>
     \<and> row_verify demo_cloud_env (sync_key_new demo_cloud_env ''k'') demo_forged \<noteq> Inr ()
     \<and> (\<exists>now \<in> {0, 10 :: int}. 5 \<le> now)"
proof -
  have start: "0 \<le> pc_created_at (da_mark (cw_out (demo_round [10])))" "set (cw_clock (demo_round [10])) = {10}"
    "\<lparr>pc_created_at = 5, pc_item_id = Some ''a''\<rparr> \<noteq> da_mark (cw_out (demo_round [10]))"
    by (simp_all add: demo_round_def)
  have order: "pages_in_order (cy_rest (demo_cloud [demo_forged])) {demo_forged}"
    using table_pages[of "[demo_forged]"] by (simp add: demo_cloud_simps)
  have unsigned: "row_verify demo_cloud_env (sync_key_new demo_cloud_env ''k'') demo_forged \<noteq> Inr ()"
    using demo_judge[of "[]"] by (auto simp: judge_def demo_cloud_simps split: if_splits sum.splits)
  show ?thesis
    using watermark_follows_the_clock_or_the_key[OF demo_pull_host demo_pull_log order start(1) prod.collapse[symmetric]] start(2,3) unsigned
    by (auto simp: demo_pull demo_cloud_simps)
qed

section \<open>The session and its requests\<close>

text \<open>A backend that refuses every bearer and counts: one for an attempt, ten for a refresh, a hundred for a write.\<close>

definition counting_io :: "nat account_io" where
  "counting_io = \<lparr>io_refresh = \<lambda>_ n. (Inr \<lparr>se_access_token = ''new'', se_refresh_token = ''r2'', se_user_id = ''u'', se_expires_at_ms = 9\<rparr>, n + 10),
     io_persist = \<lambda>_ n. (Inr (), n + 100)\<rparr>"

definition refusing :: "(nat, unit) rest_request" where
  "refusing token n = (Inl FaultUnauthorized, n + 1)"

definition counting_world :: "bool \<Rightarrow> nat cloud_world" where
  "counting_world fenced =
     \<lparr>cw_auth = \<lparr>au_session = \<lparr>se_access_token = ''t'', se_refresh_token = ''r'', se_user_id = ''u'', se_expires_at_ms = 9\<rparr>,
                 au_revision = 0, au_fenced = fenced, au_events = 0\<rparr>,
      cw_others = [], cw_waits = [], cw_clock = [], cw_cadence = \<lparr>ad_floor = 0, ad_ceiling = 0, ad_current = 0\<rparr>,
      cw_push_channel = False, cw_group_downloaded = fmempty, cw_group_uploaded = None, cw_out = 0\<rparr>"

text \<open>
  C12: A session that was signed out is never revived. Once it is fenced, no request changes the
  tokens or lifts the fence, whatever the other tasks that share it do meanwhile, and the account
  service is not asked at all: the outcome is the same whatever it would have answered.
\<close>

theorem signed_out_session_is_never_revived:
  assumes "others_behave w" and "au_fenced (cw_auth w)" and "execute io op w = (r, w')"
  shows "au_fenced (cw_auth w') \<and> au_session (cw_auth w') = au_session (cw_auth w) \<and> execute io' op w = (r, w')"
proof -
  have "session_step\<^sup>*\<^sup>* (cw_auth w) (cw_auth w')" using execute_moves[OF assms(1,3)] by (simp add: session_moves_def)
  from fenced_forever[OF this assms(2)] have "au_fenced (cw_auth w')" "au_session (cw_auth w') = au_session (cw_auth w)" by simp_all
  moreover have "execute io' op w = execute io op w" unfolding execute_def by (rule fenced_execute[OF assms(1,2)])
  ultimately show ?thesis by (simp only: assms(3) simp_thms)
qed

theorem signed_out_session_is_never_revived_witness:
  "\<exists>r w'. execute counting_io refusing (counting_world True) = (r, w')
     \<and> au_fenced (cw_auth w') \<and> se_access_token (au_session (cw_auth w')) = ''t''"
proof -
  have w: "others_behave (counting_world True)" "au_fenced (cw_auth (counting_world True))"
    "se_access_token (au_session (cw_auth (counting_world True))) = ''t''"
    by (simp_all add: others_behave_def counting_world_def)
  obtain r w' where run: "execute counting_io refusing (counting_world True) = (r, w')" by fastforce
  from signed_out_session_is_never_revived[OF w(1,2) run, of undefined] run w(3) show ?thesis by simp
qed

text \<open>
  C13: A request to the backend is bounded, whatever the backend answers: at most three attempts, one
  refresh of the session and one write of it, and at most one wait, of no more than thirty seconds.
  The cost of each kind of call is any measure of the outside.
\<close>

theorem request_is_bounded:
  fixes cost :: "'o \<Rightarrow> nat"
  assumes "execute io op w = (r, w')" and "\<And>t out. cost (snd (op t out)) \<le> cost out + a"
    and "\<And>t out. cost (snd (io_refresh io t out)) \<le> cost out + b" and "\<And>s out. cost (snd (io_persist io s out)) \<le> cost out + c"
  shows "cost (cw_out w') \<le> cost (cw_out w) + 3 * a + b + c
    \<and> (cw_waits w' = cw_waits w \<or> (\<exists>d \<le> from_secs 30. cw_waits w' = cw_waits w @ [d]))"
proof -
  have "\<exists>d \<le> from_secs 30. cw_waits w' = cw_waits w @ [d]" if "cw_waits w' \<noteq> cw_waits w"
    using execute_waits[OF assms(1)] that unfolding max_retry_after_def by blast
  with execute_cost[OF assms] show ?thesis by blast
qed

theorem request_is_bounded_witness:
  "cw_out (snd (execute counting_io refusing (counting_world False))) \<le> 113"
  using request_is_bounded[OF prod.collapse[symmetric], where io = counting_io and op = refusing and w = "counting_world False"
      and cost = "\<lambda>n. n" and a = 1 and b = 10 and c = 100]
  by (simp add: counting_io_def refusing_def counting_world_def)

section \<open>Item ids that stop a round\<close>

lemma validate_item_id_reason: "validate_item_id k = Inr () \<or> (\<exists>reason. validate_item_id k = Inl (RestInvalidItem reason))"
  by (simp add: validate_item_id_def)

lemma row_validate_reason:
  assumes "row_validate ce row = Inl e"
  shows "\<exists>reason. e = RestInvalidItem reason"
  using first_err_Inl[OF assms[unfolded row_validate_def]] validate_item_id_reason[of "ci_item_id row"]
  unfolding list.set insert_iff empty_iff
  by (elim disjE exE) (simp_all split: if_splits option.splits)

lemma row_validate_id: "validate_item_id (ci_item_id row) \<noteq> Inr () \<Longrightarrow> row_validate ce row \<noteq> Inr ()"
  by (auto simp: row_validate_def first_err_ok_iff)

text \<open>A request that its own checks refuse fails at once and touches nothing.\<close>

lemma execute_permanent:
  assumes "\<And>t out. op t out = (Inl (FaultPermanent reason), out)"
  shows "execute io op w = (Inl (CloudTransport reason), await w)"
  by (simp add: execute_def execute_loop.simps[of io op False False w] call_def assms)

lemma upsert_refused:
  assumes "row \<in> set batch" and "row_validate ce row \<noteq> Inr ()"
  shows "\<exists>reason. \<forall>t out. ra_upsert (supabase h ce) t batch out = (Inl (FaultPermanent reason), out)"
proof -
  have "first_err (map (row_validate ce) batch) \<noteq> Inr ()" using assms by (auto simp: first_err_ok_iff)
  then obtain e where e: "first_err (map (row_validate ce) batch) = Inl e" by (cases "first_err (map (row_validate ce) batch)") auto
  then obtain reason where "e = RestInvalidItem reason" using first_err_Inl[OF e] row_validate_reason by (metis imageE list.set_map)
  with e show ?thesis by (simp add: supabase_def rest_upsert_def classified_def classify_rest_def)
qed

lemma upsert_batches_refused:
  assumes rest: "cy_rest cy = supabase h ce" and "row \<in> set (concat batches)" and bad: "row_validate ce row \<noteq> Inr ()"
  shows "\<exists>e w'. upsert_batches cy batches w = (Inl e, w')"
  using assms(2)
proof (induction batches arbitrary: w)
  case (Cons batch batches)
  show ?case
  proof (cases "row \<in> set batch")
    case True
    from upsert_refused[OF True bad, of h] obtain reason where
      "\<And>t out. ra_upsert (supabase h ce) t batch out = (Inl (FaultPermanent reason), out)" by blast
    then show ?thesis by (simp add: act_bind_def request_def rest execute_permanent)
  next
    case False
    with Cons.prems have "row \<in> set (concat batches)" by simp
    from Cons.IH[OF this] show ?thesis by (simp add: act_bind_def split: prod.split sum.split)
  qed
qed simp

lemma push_item_id:
  "push_item cy dev nonce item stats = Inr (Some row, stats') \<Longrightarrow> ci_item_id row = li_item_id item"
  by (auto simp: push_item_def Let_def row_sign_def cloud_tombstone_def split: if_splits sum.splits)

lemma push_items_rows:
  assumes "push_items cy dev rnd items rows stats = Inr (rows', stats')"
  shows "set rows \<subseteq> set rows'
    \<and> (\<forall>item \<in> set items. li_deleted item \<or> length (li_content item) \<le> max_content_bytes \<longrightarrow>
         (\<exists>row \<in> set rows'. ci_item_id row = li_item_id item))"
  using assms
proof (induction cy dev rnd items rows stats rule: push_items.induct)
  case (2 cy dev rnd item items rows stats)
  from "2.prems" obtain row st where p: "push_item cy dev (rnd 0) item stats = Inr (row, st)"
    and rest: "push_items cy dev (\<lambda>i. rnd (Suc i)) items (rows @ (case row of None \<Rightarrow> [] | Some r \<Rightarrow> [r])) st = Inr (rows', stats')"
    by (auto split: sum.splits)
  have "\<exists>r \<in> set rows'. ci_item_id r = li_item_id item" if "li_deleted item \<or> length (li_content item) \<le> max_content_bytes"
  proof -
    from p that obtain r where "row = Some r"
      by (auto simp: push_item_def Let_def too_large_to_sync_def split: if_splits sum.splits)
    with "2.IH"[OF p refl rest] p push_item_id show ?thesis by fastforce
  qed
  with "2.IH"[OF p refl rest] show ?case by auto
qed simp

text \<open>
  The download half of a round replaced by anything else: what the backend answers to a fetch, and
  what the source does when it is asked for its watermark, handed a page or told to keep a position.
\<close>

definition other_fetch ::
  "(string \<Rightarrow> int \<Rightarrow> string option \<Rightarrow> nat \<Rightarrow> 'o \<Rightarrow> (transport_fault + cloud_item list) \<times> 'o) \<Rightarrow> 'o cloud_sync \<Rightarrow> 'o cloud_sync" where
  "other_fetch fetch cy = cy\<lparr>cy_rest := (cy_rest cy)\<lparr>ra_fetch_since := fetch\<rparr>\<rparr>"

definition other_sink :: "'o cloud_source \<Rightarrow> 'o cloud_source \<Rightarrow> 'o cloud_source" where
  "other_sink sink src =
     src\<lparr>sc_watermark := sc_watermark sink, sc_watermark_item_id := sc_watermark_item_id sink,
         sc_apply_remote_batch := sc_apply_remote_batch sink, sc_requeue_local_winner := sc_requeue_local_winner sink,
         sc_set_watermark_keyset := sc_set_watermark_keyset sink\<rparr>"

lemma other_half_simps [simp]:
  "cy_env (other_fetch fetch cy) = cy_env cy" "cy_key (other_fetch fetch cy) = cy_key cy"
  "cy_account (other_fetch fetch cy) = cy_account cy"
  "ra_fetch_group_catalog (cy_rest (other_fetch fetch cy)) = ra_fetch_group_catalog (cy_rest cy)"
  "ra_fetch_groups (cy_rest (other_fetch fetch cy)) = ra_fetch_groups (cy_rest cy)"
  "ra_upsert_group (cy_rest (other_fetch fetch cy)) = ra_upsert_group (cy_rest cy)"
  "ra_upsert (cy_rest (other_fetch fetch cy)) = ra_upsert (cy_rest cy)"
  "sc_group_snapshot (other_sink sink src) = sc_group_snapshot src" "sc_apply_group (other_sink sink src) = sc_apply_group src"
  "sc_group_sync_allowed (other_sink sink src) = sc_group_sync_allowed src" "sc_device_id (other_sink sink src) = sc_device_id src"
  "sc_local_changes_after (other_sink sink src) = sc_local_changes_after src"
  "sc_upload_floor (other_sink sink src) = sc_upload_floor src"
  "sc_upload_floor_item_id (other_sink sink src) = sc_upload_floor_item_id src"
  by (simp_all add: other_fetch_def other_sink_def)

lemma request_other [simp]: "request (other_fetch fetch cy) op = request cy op"
  by (simp add: fun_eq_iff request_def)

lemma require_other [simp]: "require_allowed (other_sink sink src) = require_allowed src"
  by (simp add: fun_eq_iff require_allowed_def)

lemma push_items_other [simp]: "push_items (other_fetch fetch cy) dev rnd items rows stats = push_items cy dev rnd items rows stats"
proof (induction cy dev rnd items rows stats rule: push_items.induct)
  case (2 cy dev rnd item items rows stats)
  have "push_item (other_fetch fetch cy) dev nonce item stats = push_item cy dev nonce item stats" for nonce
    unfolding push_item_def other_half_simps ..
  with "2.IH" show ?case by (auto split: sum.split)
qed simp

lemma upsert_batches_other [simp]: "upsert_batches (other_fetch fetch cy) batches = upsert_batches cy batches"
  by (induction batches) simp_all

lemma apply_group_rows_other [simp]:
  "apply_group_rows (other_fetch fetch cy) (other_sink sink src) rows = apply_group_rows cy src rows"
  by (induction rows) (simp_all only: apply_group_rows.simps open_group_row_def other_half_simps require_other)

lemma download_groups_other [simp]:
  "download_groups (other_fetch fetch cy) (other_sink sink src) ids = download_groups cy src ids"
  by (induction ids) (simp_all cong: if_cong)

lemma catalog_loop_other [simp]:
  "catalog_loop (other_fetch fetch cy) (other_sink sink src) c w = catalog_loop cy src c w"
proof (induction cy src c w rule: catalog_loop.induct)
  case (1 cy src c w)
  then show ?case
    by (simp add: catalog_loop.simps[of cy src c w] catalog_loop.simps[of "other_fetch fetch cy" "other_sink sink src" c w]
        split: prod.split sum.split)
qed

lemma sync_group_other [simp]: "sync_group (other_fetch fetch cy) (other_sink sink src) nonce = sync_group cy src nonce"
proof -
  have "catalog_loop (other_fetch fetch cy) (other_sink sink src) c = catalog_loop cy src c" for c by (simp add: fun_eq_iff)
  moreover have "cloud_publish_group (other_fetch fetch cy) dev nonce s h = cloud_publish_group cy dev nonce s h" for dev s h
    unfolding fun_eq_iff cloud_publish_group_def other_half_simps request_other by simp
  ultimately show ?thesis by (simp add: sync_group_def cong: if_cong option.case_cong)
qed

lemma cloud_push_other [simp]: "cloud_push (other_fetch fetch cy) (other_sink sink src) rnd = cloud_push cy src rnd"
  unfolding cloud_push_def other_half_simps push_items_other upsert_batches_other ..

lemma push_refused:
  assumes "cy_rest cy = supabase h ce"
    and "\<forall>since after out items out'. sc_local_changes_after src since after out = (Inr items, out') \<longrightarrow>
      (\<exists>item \<in> set items. validate_item_id (li_item_id item) \<noteq> Inr () \<and> (li_deleted item \<or> length (li_content item) \<le> max_content_bytes))"
  shows "\<exists>e w'. cloud_push cy src rnd w = (Inl e, w')"
proof -
  have "\<exists>e w'. act_bind (upsert_batches cy (chunks_of upload_batch rows)) (\<lambda>_. act_return stats) v = (Inl e, w')"
    if "on_source (sc_local_changes_after src since after) u = (Inr items, v)"
      "push_items cy (sc_device_id src) rnd items [] cloud_stats_default = Inr (rows, stats)" for since after u items v rows stats
  proof -
    from that(1) have "sc_local_changes_after src since after (cw_out u) = (Inr items, cw_out v)"
      by (auto simp: on_source_def split: prod.splits)
    from assms(2)[rule_format, OF this] push_items_rows[OF that(2)] obtain row where "row \<in> set rows" "validate_item_id (ci_item_id row) \<noteq> Inr ()"
      by metis
    then have "row \<in> set (concat (chunks_of upload_batch rows))" "row_validate ce row \<noteq> Inr ()"
      by (simp_all add: concat_chunks_of upload_batch_def row_validate_id)
    from upsert_batches_refused[OF assms(1) this, of v] show ?thesis by (auto simp: act_bind_def)
  qed
  then show ?thesis
    by (simp add: cloud_push_def act_bind_def[of "on_source f" for f] split: prod.split sum.split)
qed

text \<open>
  C16: One item whose id is not made of letters, digits, hyphens and underscores fails every round of
  this device, its uploads and its downloads alike: the batch that holds its row is refused before
  it is sent, and the round ends there, before the pull, as long as the source offers the item. The
  round fails in the same way and in the same state whatever the backend would answer to a fetch
  and whatever the source would do with a page, so nothing is downloaded, handed over or kept.
  Nothing else in the system asks this of an id: the peers accept any id of up to 128 octets.
\<close>

theorem one_bad_id_fails_every_round:
  assumes "cy_rest cy = supabase h ce"
    and "\<And>since after out items out'. sc_local_changes_after src since after out = (Inr items, out') \<Longrightarrow>
      \<exists>item \<in> set items. validate_item_id (li_item_id item) \<noteq> Inr () \<and> (li_deleted item \<or> length (li_content item) \<le> max_content_bytes)"
  shows "\<exists>e w'. sync cy src nonce rnd rnd' w = (Inl e, w')
    \<and> (\<forall>fetch sink. sync (other_fetch fetch cy) (other_sink sink src) nonce rnd rnd' w = (Inl e, w'))"
proof -
  let ?upload = "act_bind (sync_group cy src nonce) (\<lambda>_. act_bind (require_allowed src) (\<lambda>_. cloud_push cy src rnd))"
  have bad: "\<forall>since after out items out'. sc_local_changes_after src since after out = (Inr items, out') \<longrightarrow>
      (\<exists>item \<in> set items. validate_item_id (li_item_id item) \<noteq> Inr () \<and> (li_deleted item \<or> length (li_content item) \<le> max_content_bytes))"
    using assms(2) by blast
  note push = push_refused[OF assms(1) bad]
  have fails: "cloud_push cy src rnd v \<noteq> (Inr x, v')" for v x v' using push[of rnd v] by auto
  have upload: "\<exists>e w'. ?upload w = (Inl e, w')"
    using push by (simp add: act_bind_def[of "sync_group cy src nonce"] act_bind_def[of "require_allowed src"]
        split: prod.split sum.split)
  have "sync (other_fetch fetch cy) (other_sink sink src) nonce rnd rnd' w = (Inl e, w')"
    "sync cy src nonce rnd rnd' w = (Inl e, w')" if "?upload w = (Inl e, w')" for fetch sink e w'
    using that fails
    by (auto simp: sync_def act_bind_def[of "sync_group cy src nonce"] act_bind_def[of "require_allowed src"]
        act_bind_def[of "cloud_push cy src rnd"] split: prod.splits sum.splits)
  with upload show ?thesis by metis
qed

text \<open>A backend behind the real client, and a source that offers one tombstone.\<close>

definition demo_http :: "demo_account http" where
  "demo_http = \<lparr>ht_get = \<lambda>_ _ _ out. (Inr ''[]'', out), ht_post = \<lambda>_ _ _ _ out. (Inr [], out), ht_items_of_json = \<lambda>_. Some [],
     ht_items_to_json = \<lambda>_. Some ''[]'', ht_versions_of_json = \<lambda>_. Some [], ht_groups_of_json = \<lambda>_. Some [], ht_group_to_json = \<lambda>_. ''{}''\<rparr>"

definition demo_supabase :: "demo_account cloud_sync" where
  "demo_supabase = (demo_cloud [])\<lparr>cy_rest := supabase demo_http demo_cloud_env\<rparr>"

definition demo_offer :: "demo_account cloud_source" where
  "demo_offer = demo_sink\<lparr>sc_local_changes_after := \<lambda>_ _ out. (Inr [demo_note\<lparr>li_item_id := ''a b'', li_deleted := True\<rparr>], out)\<rparr>"

theorem one_bad_id_fails_every_round_witness:
  "\<exists>e w'. sync demo_supabase demo_offer [] (\<lambda>_. []) (\<lambda>_. []) (demo_round []) = (Inl e, w')
     \<and> (\<forall>fetch sink. sync (other_fetch fetch demo_supabase) (other_sink sink demo_offer) [] (\<lambda>_. []) (\<lambda>_. []) (demo_round []) = (Inl e, w'))"
  by (rule one_bad_id_fails_every_round[where h = demo_http and ce = demo_cloud_env])
     (auto simp: demo_supabase_def demo_offer_def validate_item_id_def is_ascii_alphanumeric_def in_range_def)













end
