(* ===== verification/Upload_Scan.thy ===== *)
theory Upload_Scan
  imports Cloud_Sync History_Merge
begin

text \<open>
  Which local versions a cloud round is shown, and what it leaves for later:
  \<open>crates/copypaste-sync/src/unreadable.rs\<close>, \<open>scan.rs\<close> and \<open>store.rs\<close>, \<open>Store::versions_after\<close> of
  \<open>copypaste-core\<close>, and the host's bookkeeping of the upload floor in
  \<open>crates/copypaste-modules/src/sync.rs\<close>.

  A scan asks the history several times and other connections may write in between, so what it
  was answered is the record \<open>scan_reads\<close>; \<open>store_reads\<close> are the answers of one database.
\<close>

section \<open>Positions\<close>

record upload_floor =
  uf_created_at :: int
  uf_item_id :: "string option"

definition upload_floor_default :: upload_floor where
  "upload_floor_default = \<lparr>uf_created_at = 0, uf_item_id = None\<rparr>"

text \<open>The derived order compares the stamp, then the id, where no id comes first.\<close>

definition floor_key :: "upload_floor \<Rightarrow> int \<times> string option" where
  "floor_key f = (uf_created_at f, uf_item_id f)"

definition keyset_of :: "stored_item \<Rightarrow> upload_floor" where
  "keyset_of row = \<lparr>uf_created_at = si_created_at row, uf_item_id = Some (si_id row)\<rparr>"

abbreviation row_key :: "stored_item \<Rightarrow> int \<times> string option" where
  "row_key row \<equiv> floor_key (keyset_of row)"

section \<open>Rows that would not open\<close>

definition max_unreadable_tracked :: nat where "max_unreadable_tracked = 256"

definition u32_saturating_add :: "nat \<Rightarrow> nat \<Rightarrow> nat" where
  "u32_saturating_add a b = min (a + b) 4294967295"

record sweep =
  sw_from :: upload_floor
  sw_next :: upload_floor
  sw_seen :: nat
  sw_settled :: nat

definition sweep_proven :: "sweep \<Rightarrow> nat" where
  "sweep_proven s = (if sw_next s = sw_from s then sw_settled s else sw_seen s)"

record unreadable_uploads =
  un_ids :: "string fset"
  un_total :: nat
  un_sweep :: "sweep option"
  un_reset_floor :: bool

definition unreadable_default :: unreadable_uploads where
  "unreadable_default = \<lparr>un_ids = {||}, un_total = 0, un_sweep = None, un_reset_floor = False\<rparr>"

text \<open>\<open>Persisted\<close> and its JSON form.\<close>

record upload_json =
  uj_of_str :: "string \<Rightarrow> (string list \<times> nat \<times> sweep option) option"
  uj_to_string :: "string list \<times> nat \<times> sweep option \<Rightarrow> string option"

definition unreadable_decode :: "upload_json \<Rightarrow> string option \<Rightarrow> unreadable_uploads" where
  "unreadable_decode j raw =
     (case raw of
        None \<Rightarrow> unreadable_default
      | Some s \<Rightarrow>
          if s = [] then unreadable_default
          else case uj_of_str j s of
                 None \<Rightarrow> unreadable_default\<lparr>un_reset_floor := True\<rparr>
               | Some (ids, tot, sweep) \<Rightarrow>
                   \<lparr>un_ids = fset_of_list ids, un_total = tot, un_sweep = sweep, un_reset_floor = False\<rparr>)"

definition unreadable_encode :: "upload_json \<Rightarrow> unreadable_uploads \<Rightarrow> string" where
  "unreadable_encode j u =
     (case uj_to_string j (sorted_list_of_fset (un_ids u), un_total u, un_sweep u) of None \<Rightarrow> [] | Some s \<Rightarrow> s)"

definition track :: "string \<Rightarrow> unreadable_uploads \<Rightarrow> bool \<times> unreadable_uploads" where
  "track k u =
     (if fcard (un_ids u) \<ge> max_unreadable_tracked then (False, u)
      else (True, u\<lparr>un_ids := finsert k (un_ids u)\<rparr>))"

definition sweep_from :: "upload_floor \<Rightarrow> unreadable_uploads \<Rightarrow> unreadable_uploads" where
  "sweep_from behind u =
     u\<lparr>un_sweep := Some (case un_sweep u of
        Some s \<Rightarrow> if floor_key (sw_from s) \<le> floor_key behind then s else s\<lparr>sw_next := behind, sw_from := behind\<rparr>
      | None \<Rightarrow> \<lparr>sw_from = behind, sw_next = behind, sw_seen = 0, sw_settled = 0\<rparr>)\<rparr>"

definition record_walked :: "string \<Rightarrow> sweep \<Rightarrow> unreadable_uploads \<Rightarrow> sweep \<times> unreadable_uploads" where
  "record_walked k sweep u =
     (case track k u of
        (True, u) \<Rightarrow> (sweep, u)
      | (False, u) \<Rightarrow> (sweep\<lparr>sw_seen := u32_saturating_add (sw_seen sweep) 1\<rparr>, u))"

definition settle_total :: "unreadable_uploads \<Rightarrow> unreadable_uploads" where
  "settle_total u =
     u\<lparr>un_total := u32_saturating_add (min (fcard (un_ids u)) 4294967295)
        (case un_sweep u of None \<Rightarrow> 0 | Some s \<Rightarrow> sweep_proven s)\<rparr>"

section \<open>The scan\<close>

definition upload_scan_limit :: nat where "upload_scan_limit = 500"

record offer =
  of_truncated :: bool
  of_last :: upload_floor
  of_started :: upload_floor
  of_started_epoch :: "64 word"

record scan =
  sn_items :: "local_item list"
  sn_offer :: offer
  sn_unreadable :: unreadable_uploads

record scan_reads =
  rd_versions :: "string list \<Rightarrow> store_error + stored_item list"
  rd_walk :: "int \<Rightarrow> string option \<Rightarrow> nat \<Rightarrow> store_error + stored_item list"
  rd_after :: "int \<Rightarrow> string option \<Rightarrow> nat \<Rightarrow> store_error + stored_item list"
  rd_local :: "stored_item \<Rightarrow> local_item option"

definition content_sum :: "local_item list \<Rightarrow> nat" where
  "content_sum items = (\<Sum>i\<leftarrow>items. length (li_content i))"

fun retry_rows ::
  "(stored_item \<Rightarrow> local_item option) \<Rightarrow> nat \<Rightarrow> stored_item list \<Rightarrow> unreadable_uploads \<times> local_item list
   \<Rightarrow> unreadable_uploads \<times> local_item list" where
  "retry_rows to_local max_bytes [] acc = acc"
| "retry_rows to_local max_bytes (row # rows) (u, items) =
     retry_rows to_local max_bytes rows
       (case to_local row of
          Some item \<Rightarrow>
            if content_sum items + length (li_content item) \<le> max_bytes then (u, items @ [item])
            else (snd (track (si_id row) u), items)
        | None \<Rightarrow> (snd (track (si_id row) u), items))"

fun retry_chunks ::
  "scan_reads \<Rightarrow> nat \<Rightarrow> string list list \<Rightarrow> unreadable_uploads \<times> local_item list
   \<Rightarrow> store_error + unreadable_uploads \<times> local_item list" where
  "retry_chunks rd max_bytes [] acc = Inr acc"
| "retry_chunks rd max_bytes (chunk # chunks) acc =
     res_bind (rd_versions rd chunk) (\<lambda>rows.
       retry_chunks rd max_bytes chunks (retry_rows (rd_local rd) max_bytes rows acc))"

text \<open>The loop of \<open>walk_left_behind\<close>: it fills the byte bound, or ends with its \<open>cycled\<close> flag.\<close>

datatype walk =
    WalkFull sweep unreadable_uploads "local_item list"
  | WalkEnd bool sweep unreadable_uploads "local_item list"

fun walk_rows ::
  "(stored_item \<Rightarrow> local_item option) \<Rightarrow> nat \<Rightarrow> upload_floor \<Rightarrow> string fset \<Rightarrow> bool \<Rightarrow> stored_item list
   \<Rightarrow> sweep \<Rightarrow> unreadable_uploads \<Rightarrow> local_item list \<Rightarrow> walk" where
  "walk_rows to_local max_bytes fl prev cycled [] sweep found items = WalkEnd cycled sweep found items"
| "walk_rows to_local max_bytes fl prev cycled (row # rows) sweep found items =
     (let at = keyset_of row in
      if floor_key fl < floor_key at then WalkEnd True sweep found items
      else if si_id row |\<in>| prev
      then walk_rows to_local max_bytes fl prev cycled rows (sweep\<lparr>sw_next := at\<rparr>) found items
      else case to_local row of
             Some item \<Rightarrow>
               if content_sum items + length (li_content item) > max_bytes then WalkFull sweep found items
               else walk_rows to_local max_bytes fl prev cycled rows (sweep\<lparr>sw_next := at\<rparr>) found (items @ [item])
           | None \<Rightarrow>
               (let (sweep, found) = record_walked (si_id row) sweep found
                in walk_rows to_local max_bytes fl prev cycled rows (sweep\<lparr>sw_next := at\<rparr>) found items))"

definition walk_left_behind ::
  "scan_reads \<Rightarrow> nat \<Rightarrow> upload_floor \<Rightarrow> string fset \<Rightarrow> sweep \<Rightarrow> unreadable_uploads \<Rightarrow> local_item list
   \<Rightarrow> store_error + sweep option \<times> unreadable_uploads \<times> local_item list" where
  "walk_left_behind rd max_bytes fl prev sweep found items =
     res_bind (rd_walk rd (uf_created_at (sw_next sweep)) (uf_item_id (sw_next sweep)) upload_scan_limit) (\<lambda>page.
       Inr (case walk_rows (rd_local rd) max_bytes fl prev (length page < upload_scan_limit) page sweep found items of
              WalkFull sweep found items \<Rightarrow> (Some sweep, found, items)
            | WalkEnd cycled sweep found items \<Rightarrow>
                if \<not> cycled then (Some sweep, found, items)
                else let sweep = sweep\<lparr>sw_settled := sw_seen sweep, sw_seen := 0, sw_next := sw_from sweep\<rparr>
                     in (if sw_settled sweep > 0 then Some sweep else None, found, items)))"

text \<open>The loop over the page of the main scan; \<open>behind\<close> is the position before the row.\<close>

fun main_rows ::
  "(stored_item \<Rightarrow> local_item option) \<Rightarrow> nat \<Rightarrow> string fset \<Rightarrow> stored_item list
   \<Rightarrow> upload_floor \<Rightarrow> nat \<Rightarrow> offer \<Rightarrow> unreadable_uploads \<Rightarrow> local_item list
   \<Rightarrow> offer \<times> unreadable_uploads \<times> local_item list" where
  "main_rows to_local max_bytes prev [] behind used offer u items = (offer, u, items)"
| "main_rows to_local max_bytes prev (row # rows) behind used offer u items =
     (if si_id row |\<in>| prev then main_rows to_local max_bytes prev rows (keyset_of row) used offer u items
      else case to_local row of
             Some item \<Rightarrow>
               if usize_saturating_add used (length (li_content item)) > max_bytes
               then (offer\<lparr>of_last := behind, of_truncated := True\<rparr>, u, items)
               else main_rows to_local max_bytes prev rows (keyset_of row) (used + length (li_content item)) offer u
                      (items @ [item])
           | None \<Rightarrow>
               (case track (si_id row) u of
                  (True, u) \<Rightarrow> main_rows to_local max_bytes prev rows (keyset_of row) used offer u items
                | (False, u) \<Rightarrow>
                    main_rows to_local max_bytes prev rows (keyset_of row) used offer (sweep_from behind u) items))"

definition scan_bounded ::
  "scan_reads \<Rightarrow> upload_floor \<Rightarrow> 64 word \<Rightarrow> unreadable_uploads \<Rightarrow> nat \<Rightarrow> store_error + scan" where
  "scan_bounded rd since started_epoch prev max_bytes =
     (let restart = un_reset_floor prev;
          fl = (if restart then \<lparr>uf_created_at = 0, uf_item_id = None\<rparr> else since)
      in res_bind (retry_chunks rd max_bytes (chunks_of upload_scan_limit (sorted_list_of_fset (un_ids prev)))
                     (unreadable_default, [])) (\<lambda>(u, items).
         res_bind (case (if restart then None else un_sweep prev) of
                     None \<Rightarrow> Inr (u, items)
                   | Some sweep \<Rightarrow>
                       res_bind (walk_left_behind rd max_bytes fl (un_ids prev) sweep u items) (\<lambda>(walked, u, items).
                         Inr (u\<lparr>un_sweep := walked\<rparr>, items))) (\<lambda>(u, items).
         res_bind (rd_after rd (uf_created_at fl) (uf_item_id fl) upload_scan_limit) (\<lambda>rows.
           let offer = \<lparr>of_truncated = length rows \<ge> upload_scan_limit,
                        of_last = (if rows = [] then fl else keyset_of (last rows)),
                        of_started = fl, of_started_epoch = started_epoch\<rparr>;
               (offer, u, items) = main_rows (rd_local rd) max_bytes (un_ids prev) rows fl (content_sum items) offer u items
           in Inr \<lparr>sn_items = items, sn_offer = offer, sn_unreadable = settle_total u\<rparr>))))"

definition floor_after_round :: "offer \<Rightarrow> int \<Rightarrow> upload_floor" where
  "floor_after_round offer round_started_ms =
     (if of_truncated offer \<and> uf_created_at (of_last offer) \<le> round_started_ms then of_last offer
      else \<lparr>uf_created_at = round_started_ms, uf_item_id = None\<rparr>)"

section \<open>The answers of a database\<close>

definition versions_after :: "int \<Rightarrow> string option \<Rightarrow> nat \<Rightarrow> db \<Rightarrow> stored_item list" where
  "versions_after since after limit d =
     (let keep = filter (\<lambda>v. after_keyset since after (v_created_at v) (v_id v));
          locals = take limit (by_stamp v_created_at (keep (map (\<lambda>(k, r). item_version k r) (fm_entries (db_items d)))));
          orgs = take limit (by_stamp v_created_at (keep (map (\<lambda>(k, r). org_version k r) (fm_entries (db_orgs d)))));
          bounded = take limit (by_stamp v_created_at (locals @ orgs))
      in sort_key (\<lambda>row. (si_created_at row, si_id row)) (versions (map v_id bounded) d))"

text \<open>The query for the icon, the only step of \<open>payload_metadata_for_sync\<close> that can fail, is taken to succeed.\<close>

definition to_local :: "history_env \<Rightarrow> bytes \<Rightarrow> string \<Rightarrow> db \<Rightarrow> stored_item \<Rightarrow> local_item option" where
  "to_local he key device_id d row =
     (case (if si_deleted row then Inr [] else open_version_bytes he key row) of
        Inl _ \<Rightarrow> None
      | Inr content \<Rightarrow>
          Some \<lparr>li_item_id = si_id row, li_content = content, li_content_type = si_content_type row,
                li_payload_metadata = payload_metadata_for_sync he row d, li_created_at = si_created_at row,
                li_deleted = si_deleted row, li_origin_device_id = origin_or (si_origin row) device_id,
                li_source_app_bundle_id = si_app_bundle_id row, li_source_app_name = si_app_name row\<rparr>)"

definition store_reads :: "history_env \<Rightarrow> bytes \<Rightarrow> string \<Rightarrow> db \<Rightarrow> scan_reads" where
  "store_reads he key device_id d =
     \<lparr>rd_versions = (\<lambda>ids. Inr (versions ids d)),
      rd_walk = (\<lambda>since after limit. Inr (versions_after since after limit d)),
      rd_after = (\<lambda>since after limit. Inr (versions_after since after limit d)),
      rd_local = to_local he key device_id d\<rparr>"

section \<open>The host\<close>

datatype module_error = ModuleState | ModuleDisabled

text \<open>
  What the host keeps for one provider: the floor and the record of unreadable rows in the
  device's state table, the epoch and the last offer in memory. Each access to the table may
  fail: \<open>ho_faults\<close> says which ones do.
\<close>

record upload_host =
  ho_floor :: upload_floor
  ho_record :: "string option"
  ho_epoch :: "64 word"
  ho_offer :: "offer option"
  ho_faults :: "bool list"

definition table_access :: "upload_host \<Rightarrow> bool \<times> upload_host" where
  "table_access h = (case ho_faults h of [] \<Rightarrow> (True, h) | b # bs \<Rightarrow> (\<not> b, h\<lparr>ho_faults := bs\<rparr>))"

text \<open>The stamp is read back through \<open>state_ms\<close>, an empty id as no id.\<close>

definition set_floor :: "upload_floor \<Rightarrow> upload_host \<Rightarrow> (module_error + unit) \<times> upload_host" where
  "set_floor f h =
     (case table_access h of
        (False, h) \<Rightarrow> (Inl ModuleState, h)
      | (True, h) \<Rightarrow>
          (Inr (), h\<lparr>ho_floor := \<lparr>uf_created_at = max (uf_created_at f) 0,
                      uf_item_id = (case uf_item_id f of None \<Rightarrow> None | Some k \<Rightarrow> if k = [] then None else Some k)\<rparr>\<rparr>))"

definition note_version :: "int \<Rightarrow> upload_host \<Rightarrow> (module_error + unit) \<times> upload_host" where
  "note_version stamp h =
     (case table_access (h\<lparr>ho_epoch := ho_epoch h + 1\<rparr>) of
        (False, h) \<Rightarrow> (Inl ModuleState, h)
      | (True, h) \<Rightarrow>
          if max stamp 0 \<le> uf_created_at (ho_floor h)
          then set_floor \<lparr>uf_created_at = max stamp 0, uf_item_id = None\<rparr> h
          else (Inr (), h))"

definition scan_max_bytes :: nat where "scan_max_bytes = 8 * 1024 * 1024"

text \<open>The answer is the scan itself; \<open>serde_json::to_value\<close> of it does not fail.\<close>

definition scan_request ::
  "upload_json \<Rightarrow> scan_reads \<Rightarrow> bool \<Rightarrow> upload_floor \<Rightarrow> upload_host \<Rightarrow> (module_error + scan) \<times> upload_host" where
  "scan_request j rd enabled since h =
     (if \<not> enabled then (Inl ModuleDisabled, h)
      else case table_access h of
        (False, h) \<Rightarrow> (Inl ModuleState, h)
      | (True, h) \<Rightarrow>
          (let unreadable = unreadable_decode j (ho_record h) in
           case (if un_reset_floor unreadable
                 then (case set_floor upload_floor_default h of
                         (Inl e, h) \<Rightarrow> (Inl e, h)
                       | (Inr _, h) \<Rightarrow> (Inr (), h\<lparr>ho_epoch := ho_epoch h + 1\<rparr>))
                 else (Inr (), h)) of
             (Inl e, h) \<Rightarrow> (Inl e, h)
           | (Inr _, h) \<Rightarrow>
               (case scan_bounded rd since (ho_epoch h) unreadable scan_max_bytes of
                  Inl _ \<Rightarrow> (Inl ModuleState, h)
                | Inr scan \<Rightarrow>
                    (case table_access h of
                       (False, h) \<Rightarrow> (Inl ModuleState, h)
                     | (True, h) \<Rightarrow>
                         (Inr scan, h\<lparr>ho_record := Some (unreadable_encode j (sn_unreadable scan)),
                                      ho_offer := Some (sn_offer scan)\<rparr>)))))"

definition commit_upload :: "bool \<Rightarrow> int \<Rightarrow> upload_host \<Rightarrow> (module_error + unit) \<times> upload_host" where
  "commit_upload enabled started_ms h =
     (if \<not> enabled then (Inl ModuleDisabled, h)
      else case ho_offer h of
        None \<Rightarrow> (Inl ModuleState, h)
      | Some offer \<Rightarrow>
          (case table_access h of
             (False, h) \<Rightarrow> (Inl ModuleState, h)
           | (True, h) \<Rightarrow>
               if of_started_epoch offer = ho_epoch h \<and> floor_key (of_started offer) \<le> floor_key (ho_floor h)
               then set_floor
                      (let after = floor_after_round offer started_ms in
                       if floor_key (ho_floor h) \<le> floor_key after then after else ho_floor h) h
               else (Inr (), h)))"

end
