(* ===== verification/Upload_Cover.thy ===== *)
theory Upload_Cover
  imports Upload_Scan
begin

text \<open>
  What an upload scan may not lose. A row is covered while it is uploaded, lies past the floor, is
  on the list of ids to retry, or lies in the region that the sweep still has to walk. A scan that
  is answered as \<open>reads_hold\<close> states keeps every row covered.
\<close>

section \<open>Coverage\<close>

definition swept_by :: "sweep \<Rightarrow> stored_item \<Rightarrow> bool" where
  "swept_by s r \<longleftrightarrow>
     floor_key (sw_from s) < row_key r \<and> (row_key r \<le> floor_key (sw_next s) \<longrightarrow> 0 < sw_seen s)"

definition swept :: "unreadable_uploads \<Rightarrow> stored_item \<Rightarrow> bool" where
  "swept u r \<longleftrightarrow> (\<exists>s. un_sweep u = Some s \<and> swept_by s r)"

definition offered :: "(stored_item \<Rightarrow> local_item option) \<Rightarrow> local_item list \<Rightarrow> stored_item \<Rightarrow> bool" where
  "offered loc items r \<longleftrightarrow> (\<exists>item \<in> set items. loc r = Some item)"

definition covered :: "upload_floor \<Rightarrow> unreadable_uploads \<Rightarrow> stored_item set \<Rightarrow> stored_item \<Rightarrow> bool" where
  "covered fl u done_rows r \<longleftrightarrow>
     r \<in> done_rows \<or> floor_key fl < row_key r \<or> si_id r |\<in>| un_ids u \<or> swept u r"

definition bounded_ids :: "unreadable_uploads \<Rightarrow> bool" where
  "bounded_ids u \<longleftrightarrow> fcard (un_ids u) \<le> max_unreadable_tracked"

text \<open>\<open>grows u items u' items'\<close>: nothing that was tracked or offered is dropped, and the list stays in its bound.\<close>

definition grows :: "unreadable_uploads \<Rightarrow> local_item list \<Rightarrow> unreadable_uploads \<Rightarrow> local_item list \<Rightarrow> bool" where
  "grows u items u' items' \<longleftrightarrow>
     un_ids u |\<subseteq>| un_ids u' \<and> set items \<subseteq> set items' \<and> (bounded_ids u \<longrightarrow> bounded_ids u')"

lemma grows_refl [simp]: "grows u items u items"
  by (simp add: grows_def)

lemma grows_trans: "grows u i u' i' \<Longrightarrow> grows u' i' u'' i'' \<Longrightarrow> grows u i u'' i''"
  by (auto simp: grows_def)

lemma grows_offered: "grows u items u' items' \<Longrightarrow> offered loc items r \<Longrightarrow> offered loc items' r"
  by (auto simp: grows_def offered_def)

lemma grows_ids: "grows u items u' items' \<Longrightarrow> k |\<in>| un_ids u \<Longrightarrow> k |\<in>| un_ids u'"
  by (auto simp: grows_def)

lemma grows_item [simp]: "grows u items u (items @ [item])"
  by (auto simp: grows_def)

lemma grows_track: "track k u = (b, u') \<Longrightarrow> grows u items u' items \<and> un_sweep u' = un_sweep u \<and> (b \<longrightarrow> k |\<in>| un_ids u')"
  by (auto simp: track_def grows_def bounded_ids_def fcard_finsert_if split: if_splits)

section \<open>Rows retried by id\<close>

lemma track_within:
  assumes "un_ids u |\<subseteq>| P" and "fcard P \<le> max_unreadable_tracked" and "k |\<in>| P"
  shows "k |\<in>| un_ids (snd (track k u)) \<and> un_ids (snd (track k u)) |\<subseteq>| P \<and> un_sweep (snd (track k u)) = un_sweep u
    \<and> grows u items (snd (track k u)) items"
proof (cases "fcard (un_ids u) \<ge> max_unreadable_tracked")
  case True
  with assms have "un_ids u = P" using fcard_seteq by (metis order_trans)
  with True assms(3) show ?thesis by (simp add: track_def)
next
  case False
  then show ?thesis using assms by (auto simp: track_def grows_def bounded_ids_def fcard_finsert_if)
qed

lemma retry_rows_covers:
  assumes "retry_rows loc mb rows (u, items) = (u', items')" and "un_ids u |\<subseteq>| P" and "fcard P \<le> max_unreadable_tracked"
    and "\<forall>r \<in> set rows. si_id r |\<in>| P"
  shows "grows u items u' items' \<and> un_ids u' |\<subseteq>| P \<and> un_sweep u' = un_sweep u
    \<and> (\<forall>r \<in> set rows. offered loc items' r \<or> si_id r |\<in>| un_ids u')"
  using assms
proof (induction rows arbitrary: u items)
  case Nil
  then show ?case by simp
next
  case (Cons x rows)
  define v where "v = snd (track (si_id x) u)"
  have t: "si_id x |\<in>| un_ids v" "un_ids v |\<subseteq>| P" "un_sweep v = un_sweep u" "grows u items v items"
    using track_within[OF Cons.prems(2,3), of "si_id x" items] Cons.prems(4) by (auto simp: v_def)
  consider (takes) item where "loc x = Some item" "retry_rows loc mb rows (u, items @ [item]) = (u', items')"
    | (tracks) "retry_rows loc mb rows (v, items) = (u', items')"
    using Cons.prems(1) by (auto simp: v_def split: option.splits if_splits)
  then show ?case
  proof cases
    case (takes item)
    from Cons.IH[OF takes(2) Cons.prems(2,3)] Cons.prems(4)
    have ih: "grows u (items @ [item]) u' items'" "un_ids u' |\<subseteq>| P" "un_sweep u' = un_sweep u"
      "\<forall>r \<in> set rows. offered loc items' r \<or> si_id r |\<in>| un_ids u'" by auto
    moreover have "offered loc items' x" using takes(1) ih(1) by (auto simp: offered_def grows_def)
    ultimately show ?thesis using grows_trans[OF grows_item ih(1)] by auto
  next
    case tracks
    from Cons.IH[OF tracks t(2) Cons.prems(3)] Cons.prems(4)
    have ih: "grows v items u' items'" "un_ids u' |\<subseteq>| P" "un_sweep u' = un_sweep v"
      "\<forall>r \<in> set rows. offered loc items' r \<or> si_id r |\<in>| un_ids u'" by auto
    with t grows_trans[OF t(4) ih(1)] grows_ids[OF ih(1) t(1)] show ?thesis by auto
  qed
qed

section \<open>The walk\<close>

definition handled ::
  "(stored_item \<Rightarrow> local_item option) \<Rightarrow> string fset \<Rightarrow> sweep \<Rightarrow> unreadable_uploads \<Rightarrow> local_item list \<Rightarrow> stored_item \<Rightarrow> bool" where
  "handled loc prev s u items r \<longleftrightarrow>
     si_id r |\<in>| prev \<or> offered loc items r \<or> si_id r |\<in>| un_ids u \<or> 0 < sw_seen s"

fun walk_sweep :: "walk \<Rightarrow> sweep" where
  "walk_sweep (WalkFull s u items) = s" | "walk_sweep (WalkEnd c s u items) = s"

fun walk_found :: "walk \<Rightarrow> unreadable_uploads" where
  "walk_found (WalkFull s u items) = u" | "walk_found (WalkEnd c s u items) = u"

fun walk_items :: "walk \<Rightarrow> local_item list" where
  "walk_items (WalkFull s u items) = items" | "walk_items (WalkEnd c s u items) = items"

fun walk_ended :: "walk \<Rightarrow> bool" where
  "walk_ended (WalkFull s u items) = False" | "walk_ended (WalkEnd c s u items) = c"

lemma walk_endedE: "walk_ended res \<Longrightarrow> \<exists>s u items. res = WalkEnd True s u items"
  by (cases res) simp_all

definition walk_ok ::
  "(stored_item \<Rightarrow> local_item option) \<Rightarrow> string fset \<Rightarrow> upload_floor \<Rightarrow> bool \<Rightarrow> stored_item list \<Rightarrow> sweep \<Rightarrow> unreadable_uploads
   \<Rightarrow> local_item list \<Rightarrow> walk \<Rightarrow> bool" where
  "walk_ok loc prev fl cycled rows s u items res \<longleftrightarrow>
     sw_from (walk_sweep res) = sw_from s \<and> (0 < sw_seen s \<longrightarrow> 0 < sw_seen (walk_sweep res))
     \<and> grows u items (walk_found res) (walk_items res)
     \<and> (sw_next (walk_sweep res) = sw_next s
        \<or> (\<exists>x \<in> set rows. sw_next (walk_sweep res) = keyset_of x \<and> row_key x \<le> floor_key fl))
     \<and> (\<forall>x \<in> set rows. row_key x \<le> floor_key (sw_next (walk_sweep res)) \<longrightarrow>
          handled loc prev (walk_sweep res) (walk_found res) (walk_items res) x)
     \<and> (case res of
          WalkFull _ _ _ \<Rightarrow> \<exists>x \<in> set rows. row_key x \<le> floor_key fl
        | WalkEnd c _ _ _ \<Rightarrow>
            (\<forall>x \<in> set rows. floor_key fl < row_key x \<or> handled loc prev (walk_sweep res) (walk_found res) (walk_items res) x)
            \<and> (c \<longleftrightarrow> cycled \<or> (\<exists>x \<in> set rows. floor_key fl < row_key x)))"

lemma handled_mono:
  assumes "handled loc prev s u items r" and "grows u items u' items'" and "0 < sw_seen s \<longrightarrow> 0 < sw_seen s'"
  shows "handled loc prev s' u' items' r"
  using assms by (auto simp: handled_def dest: grows_offered grows_ids)

lemma walk_ok_step:
  assumes "walk_ok loc prev fl cycled rows (s'\<lparr>sw_next := keyset_of x\<rparr>) u' items' res" and "row_key x \<le> floor_key fl"
    and "sw_from s' = sw_from s" and "0 < sw_seen s \<longrightarrow> 0 < sw_seen s'" and "grows u items u' items'"
    and "handled loc prev s' u' items' x"
  shows "walk_ok loc prev fl cycled (x # rows) s u items res"
proof -
  have h: "handled loc prev (walk_sweep res) (walk_found res) (walk_items res) x"
    by (rule handled_mono[OF assms(6)]) (use assms(1) in \<open>auto simp: walk_ok_def\<close>)
  have g: "grows u items (walk_found res) (walk_items res)"
    using assms(1,5) by (auto simp: walk_ok_def intro: grows_trans)
  show ?thesis using assms(1-4) h g by (cases res) (auto simp: walk_ok_def)
qed

lemma record_walked_spec:
  assumes "record_walked k s u = (s', u')"
  shows "sw_from s' = sw_from s \<and> (0 < sw_seen s \<longrightarrow> 0 < sw_seen s') \<and> grows u items u' items
    \<and> (k |\<in>| un_ids u' \<or> 0 < sw_seen s')"
  using assms grows_track[of k u _ u' items]
  by (auto simp: record_walked_def u32_saturating_add_def split: prod.splits bool.splits)

lemma walk_rows_ok:
  assumes "sorted_wrt (<) (map (\<lambda>r. row_key r) rows)" and "\<forall>x \<in> set rows. floor_key (sw_next s) < row_key x"
  shows "walk_ok loc prev fl cycled rows s u items (walk_rows loc mb fl prev cycled rows s u items)"
  using assms
proof (induction rows arbitrary: s u items)
  case Nil
  then show ?case by (simp add: walk_ok_def)
next
  case (Cons x rows)
  have later: "\<forall>y \<in> set rows. row_key x < row_key y" using Cons.prems(1) by auto
  have IH: "walk_ok loc prev fl cycled rows (s'\<lparr>sw_next := keyset_of x\<rparr>) u' items'
      (walk_rows loc mb fl prev cycled rows (s'\<lparr>sw_next := keyset_of x\<rparr>) u' items')" for s' u' items'
    by (rule Cons.IH) (use Cons.prems(1) later in auto)
  show ?case
  proof (cases "floor_key fl < row_key x")
    case True
    with later have "\<forall>y \<in> set (x # rows). floor_key fl < row_key y" by (auto intro: less_trans)
    with True Cons.prems(2) show ?thesis by (auto simp: walk_ok_def Let_def)
  next
    case False
    then have fl: "row_key x \<le> floor_key fl" by simp
    show ?thesis
    proof (cases "si_id x |\<in>| prev")
      case True
      with False walk_ok_step[where s = s and s' = s and u = u and u' = u and items = items and items' = items, OF IH fl] show ?thesis by (simp add: Let_def handled_def)
    next
      case out: False
      show ?thesis
      proof (cases "loc x")
        case None
        obtain s' u' where r: "record_walked (si_id x) s u = (s', u')" by fastforce
        note spec = record_walked_spec[OF r, of items]
        have "handled loc prev s' u' items x" using spec by (auto simp: handled_def)
        with False out None r spec walk_ok_step[where s = s and s' = s' and u = u and u' = u' and items = items and items' = items, OF IH fl] show ?thesis by (simp add: Let_def)
      next
        case (Some item)
        show ?thesis
        proof (cases "content_sum items + length (li_content item) > mb")
          case True
          with False out Some Cons.prems(2) fl show ?thesis by (auto simp: walk_ok_def Let_def)
        next
          case fits: False
          have "handled loc prev s u (items @ [item]) x" using Some by (simp add: handled_def offered_def)
          with False out Some fits walk_ok_step[where s = s and s' = s and u = u and u' = u and items = items and items' = "items @ [item]", OF IH fl] show ?thesis
            by (simp add: Let_def)
        qed
      qed
    qed
  qed
qed

section \<open>What the history answers\<close>

text \<open>A page is in strict key order, past the position asked for, and skips no row of the history.\<close>

definition keyset_page :: "stored_item set \<Rightarrow> int \<times> string option \<Rightarrow> nat \<Rightarrow> stored_item list \<Rightarrow> bool" where
  "keyset_page H k n rows \<longleftrightarrow>
     sorted_wrt (<) (map (\<lambda>r. row_key r) rows) \<and> (\<forall>x \<in> set rows. k < row_key x)
     \<and> (\<forall>r \<in> H. k < row_key r \<longrightarrow> r \<in> set rows \<or> n \<le> length rows \<and> (\<forall>x \<in> set rows. row_key x < row_key r))"

definition reads_hold :: "scan_reads \<Rightarrow> stored_item set \<Rightarrow> bool" where
  "reads_hold rd H \<longleftrightarrow>
     (\<forall>ids rows. rd_versions rd ids = Inr rows \<longrightarrow>
        si_id ` set rows \<subseteq> set ids \<and> (\<forall>r \<in> H. si_id r \<in> set ids \<longrightarrow> r \<in> set rows))
     \<and> (\<forall>since after n rows. rd_walk rd since after n = Inr rows \<longrightarrow> keyset_page H (since, after) n rows)
     \<and> (\<forall>since after n rows. rd_after rd since after n = Inr rows \<longrightarrow> keyset_page H (since, after) n rows)"

lemma floor_key_pair: "(uf_created_at f, uf_item_id f) = floor_key f"
  by (simp add: floor_key_def)

text \<open>Where a sweep may stand when the main scan starts from the floor.\<close>

definition sweep_below :: "upload_floor \<Rightarrow> sweep option \<Rightarrow> bool" where
  "sweep_below fl so \<longleftrightarrow> (\<forall>s. so = Some s \<longrightarrow> sw_next s = sw_from s \<or> floor_key (sw_next s) \<le> floor_key fl)"

lemma walk_keeps_row:
  assumes page: "keyset_page H (floor_key (sw_next s)) n rows"
    and ok: "walk_ok loc prev fl (length rows < n) rows s u items res" and r: "r \<in> H" "swept_by s r"
  shows "floor_key fl < row_key r \<or> handled loc prev (walk_sweep res) (walk_found res) (walk_items res) r
      \<or> floor_key (sw_next (walk_sweep res)) < row_key r \<and> \<not> walk_ended res"
proof (cases "row_key r \<le> floor_key (sw_next s)")
  case True
  with r(2) ok have "0 < sw_seen (walk_sweep res)" by (simp add: swept_by_def walk_ok_def)
  then show ?thesis by (simp add: handled_def)
next
  case False
  with page r(1) consider (shown) "r \<in> set rows" | (beyond) "n \<le> length rows" "\<forall>x \<in> set rows. row_key x < row_key r"
    by (auto simp: keyset_page_def)
  then show ?thesis
  proof cases
    case shown
    show ?thesis
    proof (cases "\<not> walk_ended res")
      case True
      with ok shown show ?thesis by (auto simp: walk_ok_def)
    next
      case ended: False
      obtain s' u' i' where "res = WalkEnd True s' u' i'" using ended walk_endedE by blast
      with ok shown show ?thesis by (auto simp: walk_ok_def)
    qed
  next
    case beyond
    have next': "floor_key (sw_next (walk_sweep res)) < row_key r"
      using ok beyond(2) False by (auto simp: walk_ok_def)
    show ?thesis
    proof (cases "\<not> walk_ended res")
      case ended: False
      obtain s' u' i' where "res = WalkEnd True s' u' i'" using ended walk_endedE by blast
      with ok beyond obtain x where "x \<in> set rows" "floor_key fl < row_key x" by (auto simp: walk_ok_def)
      with beyond(2) show ?thesis by (meson less_trans)
    qed (use next' in blast)
  qed
qed

lemma walk_left_behind_covers:
  assumes reads: "reads_hold rd H" and run: "walk_left_behind rd mb fl prev s u items = Inr (so, u', items')"
  shows "grows u items u' items' \<and> sweep_below fl so
    \<and> (\<forall>r \<in> H. swept_by s r \<longrightarrow> floor_key fl < row_key r \<or> si_id r |\<in>| prev \<or> offered (rd_local rd) items' r
         \<or> si_id r |\<in>| un_ids u' \<or> (\<exists>s'. so = Some s' \<and> swept_by s' r))"
proof -
  from run obtain rows where read: "rd_walk rd (uf_created_at (sw_next s)) (uf_item_id (sw_next s)) upload_scan_limit = Inr rows"
    and fin: "(so, u', items') = (case walk_rows (rd_local rd) mb fl prev (length rows < upload_scan_limit) rows s u items of
              WalkFull sweep found items \<Rightarrow> (Some sweep, found, items)
            | WalkEnd cycled sweep found items \<Rightarrow>
                if \<not> cycled then (Some sweep, found, items)
                else let sweep = sweep\<lparr>sw_settled := sw_seen sweep, sw_seen := 0, sw_next := sw_from sweep\<rparr>
                     in (if sw_settled sweep > 0 then Some sweep else None, found, items))"
    unfolding walk_left_behind_def by (cases "rd_walk rd (uf_created_at (sw_next s)) (uf_item_id (sw_next s)) upload_scan_limit") auto
  have page: "keyset_page H (floor_key (sw_next s)) upload_scan_limit rows"
    using reads read unfolding reads_hold_def by (metis floor_key_pair)
  define res where "res = walk_rows (rd_local rd) mb fl prev (length rows < upload_scan_limit) rows s u items"
  have ok: "walk_ok (rd_local rd) prev fl (length rows < upload_scan_limit) rows s u items res"
    unfolding res_def by (rule walk_rows_ok) (use page in \<open>auto simp: keyset_page_def\<close>)
  have out: "u' = walk_found res" "items' = walk_items res"
    using fin unfolding res_def[symmetric] by (auto split: walk.splits if_splits simp: Let_def)
  have so: "so = Some (walk_sweep res)" if "\<not> walk_ended res"
    using fin that unfolding res_def[symmetric] by (cases res) auto
  have so': "so = (if 0 < sw_seen s' then Some (s'\<lparr>sw_settled := sw_seen s', sw_seen := 0, sw_next := sw_from s'\<rparr>) else None)"
    if "res = WalkEnd True s' v i'" for s' v i'
    using fin that unfolding res_def[symmetric] by (auto simp: Let_def)
  have below: "sweep_below fl so"
  proof (cases "\<not> walk_ended res")
    case True
    have "\<exists>x \<in> set rows. row_key x \<le> floor_key fl"
    proof (cases res)
      case WalkFull
      with ok show ?thesis by (simp add: walk_ok_def)
    next
      case (WalkEnd c s' v i')
      with True have "\<not> c" by auto
      with ok WalkEnd have "\<forall>x \<in> set rows. row_key x \<le> floor_key fl" "rows \<noteq> []"
        by (auto simp: walk_ok_def upload_scan_limit_def not_less)
      then show ?thesis by (auto simp: neq_Nil_conv)
    qed
    then have "floor_key (sw_next s) < floor_key fl" using page by (auto simp: keyset_page_def)
    with ok so[OF True] show ?thesis by (auto simp: sweep_below_def walk_ok_def)
  next
    case False
    then obtain s' v i' where e: "res = WalkEnd True s' v i'" using walk_endedE by blast
    from so'[OF e] show ?thesis by (auto simp: sweep_below_def split: if_splits)
  qed
  have "floor_key fl < row_key r \<or> si_id r |\<in>| prev \<or> offered (rd_local rd) items' r
         \<or> si_id r |\<in>| un_ids u' \<or> (\<exists>s'. so = Some s' \<and> swept_by s' r)" if r: "r \<in> H" "swept_by s r" for r
  proof -
    have from': "floor_key (sw_from (walk_sweep res)) < row_key r"
      using r(2) ok by (simp add: swept_by_def walk_ok_def)
    have seen: "\<exists>s'. so = Some s' \<and> swept_by s' r" if "0 < sw_seen (walk_sweep res)"
    proof (cases "\<not> walk_ended res")
      case True
      with so that from' show ?thesis by (simp add: swept_by_def)
    next
      case False
      then obtain s' v i' where e: "res = WalkEnd True s' v i'" using walk_endedE by blast
      with that from' so'[OF e] show ?thesis by (simp add: swept_by_def)
    qed
    from walk_keeps_row[OF page ok r] seen from' so show ?thesis
      unfolding handled_def out swept_by_def by (metis leD)
  qed
  then show ?thesis using ok below by (auto simp: walk_ok_def out)
qed

section \<open>The main scan\<close>

text \<open>A row the scan has dealt with, and what may not change while it goes on.\<close>

definition settled ::
  "(stored_item \<Rightarrow> local_item option) \<Rightarrow> string fset \<Rightarrow> unreadable_uploads \<Rightarrow> local_item list \<Rightarrow> stored_item \<Rightarrow> bool" where
  "settled loc prev u items r \<longleftrightarrow> si_id r |\<in>| prev \<or> offered loc items r \<or> si_id r |\<in>| un_ids u \<or> swept u r"

definition progress :: "unreadable_uploads \<Rightarrow> local_item list \<Rightarrow> unreadable_uploads \<Rightarrow> local_item list \<Rightarrow> bool" where
  "progress u items u' items' \<longleftrightarrow> grows u items u' items' \<and> (\<forall>r. swept u r \<longrightarrow> swept u' r)"

lemma progress_refl [simp]: "progress u items u items"
  by (simp add: progress_def)

lemma progress_trans: "progress u i u' i' \<Longrightarrow> progress u' i' u'' i'' \<Longrightarrow> progress u i u'' i''"
  unfolding progress_def using grows_trans by blast

lemma progress_settled: "progress u items u' items' \<Longrightarrow> settled loc prev u items r \<Longrightarrow> settled loc prev u' items' r"
  unfolding progress_def settled_def using grows_offered grows_ids by blast

lemma sweep_from_spec:
  assumes "sweep_below behind (un_sweep u)" and "floor_key behind < row_key x"
  shows "progress u items (sweep_from behind u) items \<and> swept (sweep_from behind u) x \<and> sweep_below behind (un_sweep (sweep_from behind u))"
  using assms
  by (auto simp: progress_def grows_def bounded_ids_def swept_def swept_by_def sweep_below_def sweep_from_def split: option.splits)

lemma sweep_below_mono: "sweep_below b so \<Longrightarrow> floor_key b \<le> floor_key b' \<Longrightarrow> sweep_below b' so"
  by (auto simp: sweep_below_def)

definition main_ok ::
  "(stored_item \<Rightarrow> local_item option) \<Rightarrow> string fset \<Rightarrow> stored_item list \<Rightarrow> offer \<Rightarrow> unreadable_uploads \<Rightarrow> local_item list
   \<Rightarrow> offer \<times> unreadable_uploads \<times> local_item list \<Rightarrow> bool" where
  "main_ok loc prev rows off u items = (\<lambda>(off', u', items').
     progress u items u' items'
     \<and> (off' = off \<and> (\<forall>x \<in> set rows. settled loc prev u' items' x)
        \<or> of_truncated off' \<and> (\<exists>x \<in> set rows. floor_key (of_last off') < row_key x)
          \<and> (\<forall>x \<in> set rows. floor_key (of_last off') < row_key x \<or> settled loc prev u' items' x)))"

lemma main_ok_step:
  assumes "main_ok loc prev rows off v items1 res" and "progress u items v items1" and "settled loc prev v items1 x"
  shows "main_ok loc prev (x # rows) off u items res"
proof -
  obtain off' u' items' where res: "res = (off', u', items')" by (metis prod_cases3)
  have p: "progress v items1 u' items'" using assms(1) by (simp add: main_ok_def res)
  have x: "settled loc prev u' items' x" by (rule progress_settled[OF p assms(3)])
  have "progress u items u' items'" by (rule progress_trans[OF assms(2) p])
  with assms(1) x show ?thesis by (auto simp: main_ok_def res)
qed

lemma main_rows_ok:
  assumes "sorted_wrt (<) (map (\<lambda>r. row_key r) rows)" and "\<forall>x \<in> set rows. floor_key behind < row_key x"
    and "sweep_below behind (un_sweep u)"
  shows "main_ok loc prev rows off u items (main_rows loc mb prev rows behind used off u items)"
  using assms
proof (induction rows arbitrary: behind used u items)
  case Nil
  then show ?case by (simp add: main_ok_def)
next
  case (Cons x rows)
  have x: "floor_key behind < row_key x" using Cons.prems(2) by simp
  have IH: "main_ok loc prev rows off v items1 (main_rows loc mb prev rows (keyset_of x) used' off v items1)"
    if "sweep_below behind (un_sweep v)" for v items1 used'
    by (rule Cons.IH) (use Cons.prems(1) that x in \<open>auto intro: sweep_below_mono\<close>)
  show ?case
  proof (cases "si_id x |\<in>| prev")
    case True
    with main_ok_step[OF IH[OF Cons.prems(3)] progress_refl] show ?thesis by (simp add: settled_def)
  next
    case out: False
    show ?thesis
    proof (cases "loc x")
      case (Some item)
      have "progress u items u (items @ [item])" "settled loc prev u (items @ [item]) x"
        using Some by (simp_all add: progress_def settled_def offered_def)
      from main_ok_step[OF IH[OF Cons.prems(3)] this] out Some Cons.prems(2) show ?thesis
        by (auto simp: main_ok_def)
    next
      case None
      obtain b v where t: "track (si_id x) u = (b, v)" by fastforce
      note tr = grows_track[OF t, of items]
      have v: "progress u items v items" "sweep_below behind (un_sweep v)"
        using tr Cons.prems(3) by (auto simp: progress_def swept_def)
      show ?thesis
      proof (cases b)
        case True
        with tr have "settled loc prev v items x" by (simp add: settled_def)
        with main_ok_step[OF IH[OF v(2)] v(1)] out None t True show ?thesis by simp
      next
        case False
        note sw = sweep_from_spec[OF v(2) x, of items]
        have "progress u items (sweep_from behind v) items" using v(1) sw progress_trans by blast
        moreover have "settled loc prev (sweep_from behind v) items x" using sw by (simp add: settled_def)
        ultimately show ?thesis using main_ok_step[OF IH] sw out None t False by simp
      qed
    qed
  qed
qed

section \<open>A whole scan\<close>

lemma retry_chunks_covers:
  assumes reads: "reads_hold rd H" and "retry_chunks rd mb chunks (u, items) = Inr (u', items')" and "un_ids u |\<subseteq>| P"
    and "fcard P \<le> max_unreadable_tracked" and "set (concat chunks) \<subseteq> fset P"
  shows "grows u items u' items' \<and> un_ids u' |\<subseteq>| P \<and> un_sweep u' = un_sweep u
    \<and> (\<forall>r \<in> H. si_id r \<in> set (concat chunks) \<longrightarrow> offered (rd_local rd) items' r \<or> si_id r |\<in>| un_ids u')"
  using assms(2,3,5)
proof (induction chunks arbitrary: u items)
  case Nil
  then show ?case by simp
next
  case (Cons chunk chunks)
  from Cons.prems(1) obtain rows where rows: "rd_versions rd chunk = Inr rows"
    and rest: "retry_chunks rd mb chunks (retry_rows (rd_local rd) mb rows (u, items)) = Inr (u', items')"
    by (auto simp: res_bind_Inr_iff)
  obtain v items1 where one: "retry_rows (rd_local rd) mb rows (u, items) = (v, items1)" by fastforce
  have law: "si_id ` set rows \<subseteq> set chunk" "\<forall>r \<in> H. si_id r \<in> set chunk \<longrightarrow> r \<in> set rows"
    using reads rows unfolding reads_hold_def by blast+
  have "\<forall>r \<in> set rows. si_id r |\<in>| P" using law(1) Cons.prems(3) by auto
  note first = retry_rows_covers[OF one Cons.prems(2) assms(4) this]
  have "set (concat chunks) \<subseteq> fset P" using Cons.prems(3) by simp
  note later = Cons.IH[OF rest[unfolded one] _ this]
  have l: "grows v items1 u' items'" "un_ids u' |\<subseteq>| P" "un_sweep u' = un_sweep v"
    "\<forall>r \<in> H. si_id r \<in> set (concat chunks) \<longrightarrow> offered (rd_local rd) items' r \<or> si_id r |\<in>| un_ids u'"
    using later first by blast+
  have "grows u items u' items'" by (rule grows_trans[OF _ l(1)]) (use first in blast)
  moreover have "offered (rd_local rd) items' r \<or> si_id r |\<in>| un_ids u'" if "r \<in> H" "si_id r \<in> set chunk" for r
    using law(2) that first grows_offered[OF l(1)] grows_ids[OF l(1)] by blast
  ultimately show ?case using l first by auto
qed

text \<open>An unreadable record restarts the scan: the floor it starts from and what it still remembers.\<close>

definition scan_floor :: "unreadable_uploads \<Rightarrow> upload_floor \<Rightarrow> upload_floor" where
  "scan_floor prev since = (if un_reset_floor prev then \<lparr>uf_created_at = 0, uf_item_id = None\<rparr> else since)"

definition remembered :: "unreadable_uploads \<Rightarrow> unreadable_uploads" where
  "remembered prev = (if un_reset_floor prev then prev\<lparr>un_sweep := None\<rparr> else prev)"

lemma settle_total_keeps [simp]:
  "un_ids (settle_total u) = un_ids u" "swept (settle_total u) r = swept u r" "bounded_ids (settle_total u) = bounded_ids u"
  by (simp_all add: settle_total_def swept_def bounded_ids_def)

text \<open>The first two steps: the ids that are retried, then the walk.\<close>

lemma scan_behind:
  assumes reads: "reads_hold rd H" and prev: "bounded_ids prev"
    and retry: "retry_chunks rd mb (chunks_of upload_scan_limit (sorted_list_of_fset (un_ids prev))) (unreadable_default, []) = Inr (u, items)"
    and walk: "(case un_sweep (remembered prev) of
         None \<Rightarrow> Inr (u, items)
       | Some sweep \<Rightarrow>
           res_bind (walk_left_behind rd mb fl (un_ids prev) sweep u items) (\<lambda>(walked, u, items).
             Inr (u\<lparr>un_sweep := walked\<rparr>, items))) = Inr (v, items1)"
  shows "bounded_ids v \<and> sweep_below fl (un_sweep v)
    \<and> (\<forall>r \<in> H. si_id r |\<in>| un_ids prev \<longrightarrow> offered (rd_local rd) items1 r \<or> si_id r |\<in>| un_ids v)
    \<and> (\<forall>r \<in> H. swept (remembered prev) r \<longrightarrow> floor_key fl < row_key r \<or> settled (rd_local rd) (un_ids prev) v items1 r)"
proof -
  have ids: "set (concat (chunks_of upload_scan_limit (sorted_list_of_fset (un_ids prev)))) = fset (un_ids prev)"
    by (simp add: concat_chunks_of upload_scan_limit_def)
  have u: "un_ids u |\<subseteq>| un_ids prev" "un_sweep u = None"
    "\<forall>r \<in> H. si_id r |\<in>| un_ids prev \<longrightarrow> offered (rd_local rd) items r \<or> si_id r |\<in>| un_ids u"
    using retry_chunks_covers[OF reads retry, of "un_ids prev"] prev unfolding ids
    by (auto simp: unreadable_default_def bounded_ids_def)
  have bounded: "bounded_ids u"
    using prev fcard_mono[OF u(1)] by (simp add: bounded_ids_def)
  show ?thesis
  proof (cases "un_sweep (remembered prev)")
    case None
    with walk u bounded show ?thesis by (auto simp: sweep_below_def swept_def)
  next
    case (Some s)
    with walk obtain so u' where w: "walk_left_behind rd mb fl (un_ids prev) s u items = Inr (so, u', items1)"
      and v: "v = u'\<lparr>un_sweep := so\<rparr>" by (auto simp: res_bind_Inr_iff)
    from walk_left_behind_covers[OF reads w] have g: "grows u items u' items1" and b: "sweep_below fl so"
      and c: "\<forall>r \<in> H. swept_by s r \<longrightarrow> floor_key fl < row_key r \<or> si_id r |\<in>| un_ids prev \<or> offered (rd_local rd) items1 r
         \<or> si_id r |\<in>| un_ids u' \<or> (\<exists>s'. so = Some s' \<and> swept_by s' r)" by blast+
    have "bounded_ids v" using g bounded by (simp add: v grows_def bounded_ids_def)
    moreover have "offered (rd_local rd) items1 r \<or> si_id r |\<in>| un_ids v" if "r \<in> H" "si_id r |\<in>| un_ids prev" for r
      using u(3) that grows_offered[OF g] grows_ids[OF g] by (auto simp: v)
    ultimately show ?thesis using b c by (auto simp: v Some settled_def swept_def)
  qed
qed

lemma scan_covers:
  assumes reads: "reads_hold rd H" and prev: "bounded_ids prev" and run: "scan_bounded rd since epoch prev mb = Inr sc"
    and r: "r \<in> H" "covered (scan_floor prev since) (remembered prev) up r"
    and F: "of_truncated (sn_offer sc) \<longrightarrow> floor_key F \<le> floor_key (of_last (sn_offer sc))"
  shows "bounded_ids (sn_unreadable sc)
    \<and> covered F (sn_unreadable sc) (up \<union> {r. offered (rd_local rd) (sn_items sc) r}) r"
proof -
  let ?fl = "scan_floor prev since" and ?loc = "rd_local rd"
  have carried: "(if un_reset_floor prev then None else un_sweep prev) = un_sweep (remembered prev)"
    by (simp add: remembered_def)
  from run obtain u items v items1 rows where
    retry: "retry_chunks rd mb (chunks_of upload_scan_limit (sorted_list_of_fset (un_ids prev))) (unreadable_default, []) = Inr (u, items)"
    and walk: "(case un_sweep (remembered prev) of
         None \<Rightarrow> Inr (u, items)
       | Some sweep \<Rightarrow>
           res_bind (walk_left_behind rd mb ?fl (un_ids prev) sweep u items) (\<lambda>(walked, u, items).
             Inr (u\<lparr>un_sweep := walked\<rparr>, items))) = Inr (v, items1)"
    and main: "rd_after rd (uf_created_at ?fl) (uf_item_id ?fl) upload_scan_limit = Inr rows"
    and sc: "(case main_rows ?loc mb (un_ids prev) rows ?fl (content_sum items1)
         \<lparr>of_truncated = length rows \<ge> upload_scan_limit, of_last = (if rows = [] then ?fl else keyset_of (last rows)),
          of_started = ?fl, of_started_epoch = epoch\<rparr> v items1 of
       (off, u, items) \<Rightarrow> Inr \<lparr>sn_items = items, sn_offer = off, sn_unreadable = settle_total u\<rparr>) = (Inr sc :: store_error + scan)"
    unfolding scan_bounded_def Let_def scan_floor_def[symmetric] carried by (auto simp: res_bind_Inr_iff)
  note behind = scan_behind[OF reads prev retry walk]
  have page: "keyset_page H (floor_key ?fl) upload_scan_limit rows"
    using reads main unfolding reads_hold_def by (metis floor_key_pair)
  define off where "off = \<lparr>of_truncated = length rows \<ge> upload_scan_limit,
      of_last = (if rows = [] then ?fl else keyset_of (last rows)), of_started = ?fl, of_started_epoch = epoch\<rparr>"
  obtain off' u' items' where res: "main_rows ?loc mb (un_ids prev) rows ?fl (content_sum items1) off v items1 = (off', u', items')"
    by (metis prod_cases3)
  have ok: "main_ok ?loc (un_ids prev) rows off v items1 (off', u', items')"
    unfolding res[symmetric] by (rule main_rows_ok) (use page behind in \<open>auto simp: keyset_page_def\<close>)
  have sc': "sn_items sc = items'" "sn_offer sc = off'" "sn_unreadable sc = settle_total u'"
    using sc by (auto simp: off_def[symmetric] res)
  have p: "progress v items1 u' items'" using ok by (simp add: main_ok_def)
  have retried: "offered ?loc items' r \<or> si_id r |\<in>| un_ids u'" if "si_id r |\<in>| un_ids prev"
    using behind r(1) that p grows_offered grows_ids unfolding progress_def by blast
  have done': "covered F (settle_total u') (up \<union> {r. offered ?loc items' r}) r" if "settled ?loc (un_ids prev) u' items' r"
    using that retried by (auto simp: settled_def covered_def)
  have shown: "settled ?loc (un_ids prev) u' items' r \<or> floor_key F < row_key r" if k: "floor_key ?fl < row_key r"
  proof (cases "r \<in> set rows")
    case True
    with ok F sc'(2) show ?thesis by (auto simp: main_ok_def)
  next
    case False
    with page r(1) k have b: "upload_scan_limit \<le> length rows" "\<forall>x \<in> set rows. row_key x < row_key r" by (auto simp: keyset_page_def)
    then have "rows \<noteq> []" by (auto simp: upload_scan_limit_def)
    with b have "of_truncated off" "floor_key (of_last off) < row_key r" by (simp_all add: off_def)
    with ok b(2) F sc'(2) have "of_truncated off' \<and> floor_key (of_last off') < row_key r" by (auto simp: main_ok_def)
    with F sc'(2) show ?thesis by auto
  qed
  have "bounded_ids u'" using p behind by (simp add: progress_def grows_def)
  moreover have "covered F (settle_total u') (up \<union> {r. offered ?loc items' r}) r"
    using r(2) unfolding covered_def[of ?fl]
  proof (elim disjE)
    assume "floor_key ?fl < row_key r"
    with shown done' show ?thesis by (auto simp: covered_def)
  next
    assume "si_id r |\<in>| un_ids (remembered prev)"
    with retried show ?thesis by (auto simp: covered_def remembered_def split: if_splits)
  next
    assume "swept (remembered prev) r"
    with behind r(1) shown done' progress_settled[OF p] show ?thesis by (auto simp: covered_def)
  qed (simp add: covered_def)
  ultimately show ?thesis by (simp add: sc')
qed

end
