(* ===== verification/Upload_Props.thy ===== *)
theory Upload_Props
  imports Upload_Cover History_Props "HOL-Library.Countable"
begin

text \<open>
  The upload scan over a sound database: the reads of \<open>Store::versions_after\<close> are pages that skip
  no row, so a completed round loses nothing, a version written while it runs is not committed
  away, and a failed one may still forget a row that had become readable.
\<close>

section \<open>The database answers in pages\<close>

definition db_rows :: "db \<Rightarrow> stored_item set" where
  "db_rows d = {r. r \<in> set (versions [si_id r] d)}"


lemma set_versions: "set (versions ids d) = {r \<in> db_rows d. si_id r \<in> set ids}"
proof -
  have "r \<in> set (versions ids d) \<longleftrightarrow> si_id r \<in> set ids \<and> r \<in> set (versions [si_id r] d)" for r
    by (force simp: versions_def row_to_item_def org_to_item_def)
  then show ?thesis by (auto simp: db_rows_def)
qed

definition all_versions :: "db \<Rightarrow> version list" where
  "all_versions d = map (\<lambda>(k, r). item_version k r) (fm_entries (db_items d)) @ map (\<lambda>(k, r). org_version k r) (fm_entries (db_orgs d))"

lemma all_version_ids: "map v_id (all_versions d) = fm_keys (db_items d) @ fm_keys (db_orgs d)"
  by (simp add: all_versions_def item_version_def org_version_def comp_def case_prod_beta flip: map_fst_fm_entries)

lemma sound_ids: "db_ok he d \<Longrightarrow> distinct (map v_id (all_versions d))"
proof -
  assume ok: "db_ok he d"
  have apart: "fmlookup (db_orgs d) k = None" if "fmlookup (db_items d) k = Some r" for k r
    using ok_butD(1)[OF ok that] ok_butD(4)[OF ok] by (auto simp: row_ok_def orgs_ok_def)
  show ?thesis unfolding all_version_ids using apart by (auto simp: fm_keys_def fmlookup_dom_iff sorted_list_of_fset.rep_eq)
qed

lemma db_rows_iff:
  "r \<in> db_rows d \<longleftrightarrow> (\<exists>k q. fmlookup (db_items d) k = Some q \<and> r = row_to_item k q d) \<or> (\<exists>k q. fmlookup (db_orgs d) k = Some q \<and> r = org_to_item k q)"
  by (auto simp: db_rows_def versions_def set_fm_entries row_to_item_def org_to_item_def image_iff Bex_def)

lemma set_all_versions:
  "v \<in> set (all_versions d) \<longleftrightarrow> (\<exists>k q. fmlookup (db_items d) k = Some q \<and> v = item_version k q) \<or> (\<exists>k q. fmlookup (db_orgs d) k = Some q \<and> v = org_version k q)"
  by (auto simp: all_versions_def set_fm_entries image_iff Bex_def)

text \<open>Each version has a row with its id and stamp, and each row a version.\<close>

lemma version_row: "v \<in> set (all_versions d) \<Longrightarrow> \<exists>r \<in> db_rows d. si_id r = v_id v \<and> si_created_at r = v_created_at v"
  unfolding set_all_versions Bex_def db_rows_iff
  by (elim disjE exE conjE) (force simp: item_version_def org_version_def row_to_item_def org_to_item_def)+

lemma row_version: "r \<in> db_rows d \<Longrightarrow> \<exists>v \<in> set (all_versions d). v_id v = si_id r \<and> v_created_at v = si_created_at r"
  unfolding set_all_versions Bex_def db_rows_iff
  by (elim disjE exE conjE) (force simp: item_version_def org_version_def row_to_item_def org_to_item_def)+

lemma version_ids_of_rows: "map si_id (versions ids d) = filter (\<lambda>k. k \<in> set ids) (map v_id (all_versions d))"
  unfolding all_version_ids
  by (simp add: versions_def row_to_item_def org_to_item_def comp_def case_prod_unfold filter_map flip: map_fst_fm_entries)

text \<open>Two sorted streams, each cut before they are merged, give the page of their union.\<close>

lemma distinct_map_sort: "distinct (map f (sort_key g xs)) = distinct (map f xs)"
  by (rule mset_eq_imp_distinct_iff) simp

lemma distinct_map_with: "distinct (map g xs) \<Longrightarrow> distinct (map (\<lambda>x. (h x, g x)) xs)"
  by (induction xs) auto

lemma distinct_map_take: "distinct (map f xs) \<Longrightarrow> distinct (map f (take n xs))"
  by (metis distinct_take take_map)

lemma merged_page:
  fixes f :: "'a \<Rightarrow> 'b :: linorder"
  defines "cutoff \<equiv> \<lambda>n xs. take n (sort_key f xs)"
  assumes dist: "distinct (map f (A @ B))" and v: "v \<in> set A \<union> set B" and out: "v \<notin> set (cutoff n (cutoff n A @ cutoff n B))"
  shows "length (cutoff n (cutoff n A @ cutoff n B)) = n \<and> (\<forall>x \<in> set (cutoff n (cutoff n A @ cutoff n B)). f x < f v)"
proof -
  let ?l = "cutoff n A @ cutoff n B" and ?page = "cutoff n (cutoff n A @ cutoff n B)"
  have d: "distinct (map f (cutoff n A))" "distinct (map f (cutoff n B))" "distinct (map f (sort_key f A))" "distinct (map f (sort_key f B))"
    using dist unfolding cutoff_def by (simp_all add: distinct_map_take distinct_map_sort del: map_append)
      (simp_all add: distinct_map_take distinct_map_sort)
  have sub: "set (cutoff n A) \<subseteq> set A" "set (cutoff n B) \<subseteq> set B" using set_take_subset[of n "sort_key f A"] set_take_subset[of n "sort_key f B"] by (auto simp: cutoff_def)
  have "f ` set A \<inter> f ` set B = {}" using dist by simp
  then have dl: "distinct (map f ?l)" using d(1,2) sub by (simp only: map_append distinct_append list.set_map) blast
  then have dp: "distinct (map f (sort_key f ?l))" by (simp only: distinct_map_sort)
  have before: "f x < f y" if "x \<in> set ?page" "y \<in> set ?l" "y \<notin> set ?page" for x y
    using sorted_take_before[of f "sort_key f ?l" x n y] dp that by (simp add: cutoff_def)
  have full: "length ?page = n" if "n \<le> length ?l" using that by (simp add: cutoff_def)
  show ?thesis
  proof (cases "v \<in> set ?l")
    case True
    have "\<not> length ?l \<le> n" using True out by (auto simp: cutoff_def)
    with full before[OF _ True out] show ?thesis by simp
  next
    case False
    have "\<exists>C. set (cutoff n C) \<subseteq> set ?l \<and> length (cutoff n C) = n \<and> distinct (map f (cutoff n C)) \<and> (\<forall>x \<in> set (cutoff n C). f x < f v)"
    proof -
      have "length (cutoff n C) = n \<and> (\<forall>x \<in> set (cutoff n C). f x < f v)" if "v \<in> set C" "v \<notin> set (cutoff n C)" "distinct (map f (sort_key f C))" for C
      proof -
        have "\<not> length C \<le> n" using that(1,2) by (auto simp: cutoff_def)
        moreover have "f x < f v" if "x \<in> set (cutoff n C)" for x
          using sorted_take_before[of f "sort_key f C" x n v] that \<open>v \<in> set C\<close> \<open>v \<notin> set (cutoff n C)\<close> \<open>distinct (map f (sort_key f C))\<close>
          by (simp add: cutoff_def)
        ultimately show ?thesis by (simp add: cutoff_def)
      qed
      with v False d show ?thesis by (metis UnE set_append Un_upper1 Un_upper2 UnI1 UnI2)
    qed
    then obtain C where C: "set C \<subseteq> set ?l" "length C = n" "distinct (map f C)" "\<forall>x \<in> set C. f x < f v" by blast
    have "n \<le> length ?l" using C(1-3) dl by (metis card_mono distinct_card distinct_map finite_set)
    note len = full[OF this]
    have "f x < f v" if x: "x \<in> set ?page" for x
    proof (cases "x \<in> set C")
      case False
      have "\<not> set C \<subseteq> set ?page"
      proof
        assume "set C \<subseteq> set ?page"
        with x False have "insert x (set C) \<subseteq> set ?page" "card (insert x (set C)) = Suc n"
          using C(2,3) by (simp_all add: distinct_card distinct_map)
        then have "Suc n \<le> card (set ?page)" by (metis card_mono finite_set)
        with len show False using card_length[of ?page] by simp
      qed
      then obtain y where "y \<in> set C" "y \<notin> set ?page" by blast
      with before[OF x] C(1,4) show ?thesis by (meson less_trans subsetD)
    qed (use C(4) in blast)
    with len show ?thesis by blast
  qed
qed

lemma keyset_order: "after_keyset since after (si_created_at r) (si_id r) \<longleftrightarrow> (since, after) < row_key r"
  by (cases after) (auto simp: after_keyset_def floor_key_def keyset_of_def)

lemma row_key_less: "row_key x < row_key y \<longleftrightarrow> (si_created_at x, si_id x) < (si_created_at y, si_id y)"
  by (auto simp: floor_key_def keyset_of_def)

lemma versions_after_page:
  assumes "db_ok he d"
  shows "keyset_page (db_rows d) (since, after) n (versions_after since after n d)"
proof -
  define f :: "version \<Rightarrow> int \<times> string" where "f = (\<lambda>v. (v_created_at v, v_id v))"
  define keep :: "version list \<Rightarrow> version list" where "keep = filter (\<lambda>v. after_keyset since after (v_created_at v) (v_id v))"
  define A where "A = keep (map (\<lambda>(k, r). item_version k r) (fm_entries (db_items d)))"
  define B where "B = keep (map (\<lambda>(k, r). org_version k r) (fm_entries (db_orgs d)))"
  define page where "page = take n (sort_key f (take n (sort_key f A) @ take n (sort_key f B)))"
  have rows: "versions_after since after n d = sort_key (\<lambda>row. (si_created_at row, si_id row)) (versions (map v_id page) d)"
    by (simp add: versions_after_def page_def A_def B_def keep_def f_def by_stamp_def Let_def)
  let ?rows = "versions_after since after n d"
  have AB: "A @ B = filter (\<lambda>v. after_keyset since after (v_created_at v) (v_id v)) (all_versions d)"
    by (simp add: A_def B_def keep_def all_versions_def)
  have ids: "distinct (map v_id (A @ B))" unfolding AB by (rule distinct_map_filter[OF sound_ids[OF assms]])
  then have keys: "distinct (map f (A @ B))" unfolding f_def by (rule distinct_map_with)
  have cut_ids: "distinct (map v_id (take n (sort_key f A) @ take n (sort_key f B)))"
    using ids set_take_subset[of n "sort_key f A"] set_take_subset[of n "sort_key f B"]
      distinct_map_take[of v_id "sort_key f A" n] distinct_map_take[of v_id "sort_key f B" n]
    by (simp only: map_append distinct_append list.set_map distinct_map_sort set_sort) blast
  have page_sub: "set page \<subseteq> set (A @ B)"
    by (auto simp: page_def dest!: in_set_takeD)
  have set_rows: "set ?rows = {r \<in> db_rows d. si_id r \<in> v_id ` set page}" by (simp add: rows set_versions)
  have of_row: "\<exists>v \<in> set page. v_id v = si_id r \<and> v_created_at v = si_created_at r" if r: "r \<in> set ?rows" for r
  proof -
    from r set_rows obtain v where v: "v \<in> set page" "v_id v = si_id r" by auto
    from r set_rows row_version obtain w where w: "w \<in> set (all_versions d)" "v_id w = si_id r" "v_created_at w = si_created_at r" by blast
    have "v \<in> set (all_versions d)" using v(1) page_sub AB by auto
    with w v(2) sound_ids[OF assms] have "v = w" by (metis distinct_map inj_onD)
    with v w show ?thesis by blast
  qed
  have dist_rows: "distinct (map si_id ?rows)"
  proof -
    have "distinct (map si_id (versions (map v_id page) d))"
      unfolding version_ids_of_rows by (rule distinct_filter[OF sound_ids[OF assms]])
    then show ?thesis by (simp only: rows distinct_map_sort)
  qed
  have sorted_rows: "sorted_wrt (<) (map (\<lambda>r. row_key r) ?rows)"
  proof -
    have "sorted (map (\<lambda>row. (si_created_at row, si_id row)) ?rows)" "distinct (map (\<lambda>row. (si_created_at row, si_id row)) ?rows)"
      using distinct_map_with[OF dist_rows] by (simp_all add: rows)
    then have "sorted_wrt (<) (map (\<lambda>row. (si_created_at row, si_id row)) ?rows)" by (simp add: strict_sorted_iff)
    then show ?thesis by (simp add: sorted_wrt_map row_key_less)
  qed
  have past: "(since, after) < row_key x" if "x \<in> set ?rows" for x
  proof -
    from of_row[OF that] obtain v where "v \<in> set (A @ B)" "v_id v = si_id x" "v_created_at v = si_created_at x" using page_sub by blast
    then show ?thesis unfolding AB using keyset_order[of since after x] by simp
  qed
  have "length ?rows = length page"
  proof -
    have "distinct (map v_id page)"
      unfolding page_def by (rule distinct_map_take) (simp only: distinct_map_sort cut_ids)
    moreover have "si_id ` set ?rows = v_id ` set page"
    proof
      show "v_id ` set page \<subseteq> si_id ` set ?rows"
      proof clarify
        fix v assume v: "v \<in> set page"
        then have "v \<in> set (all_versions d)" using page_sub AB by auto
        from version_row[OF this] v set_rows show "v_id v \<in> si_id ` set ?rows" by force
      qed
    qed (auto simp: set_rows)
    ultimately show ?thesis using dist_rows by (metis distinct_card length_map list.set_map)
  qed
  moreover have "length page = n \<and> (\<forall>x \<in> set ?rows. row_key x < row_key r)"
    if r: "r \<in> db_rows d" "(since, after) < row_key r" "r \<notin> set ?rows" for r
  proof -
    from row_version[OF r(1)] obtain v where v: "v \<in> set (all_versions d)" "v_id v = si_id r" "v_created_at v = si_created_at r" by blast
    have "v \<in> set (A @ B)" unfolding AB using v r(2) keyset_order[of since after r] by simp
    moreover have "v \<notin> set page" using r(1,3) set_rows v(2) by (metis (no_types, lifting) image_eqI mem_Collect_eq)
    ultimately have "length page = n \<and> (\<forall>x \<in> set page. f x < f v)"
      using merged_page[OF keys, of v n] by (simp add: page_def)
    moreover have "row_key x < row_key r" if "\<forall>x \<in> set page. f x < f v" "x \<in> set ?rows" for x
    proof -
      from of_row[OF that(2)] obtain u where u: "u \<in> set page" "v_id u = si_id x" "v_created_at u = si_created_at x" by blast
      have "f u < f v" using that(1) u(1) by blast
      then show ?thesis by (simp only: row_key_less f_def u(2,3) v(2,3))
    qed
    ultimately show ?thesis by blast
  qed
  ultimately show ?thesis using sorted_rows past unfolding keyset_page_def by (metis order_refl)
qed

lemma store_reads_hold: "db_ok he d \<Longrightarrow> reads_hold (store_reads he key device_id d) (db_rows d)"
  using versions_after_page[of he d] by (auto simp: reads_hold_def store_reads_def set_versions)

section \<open>The host\<close>

text \<open>What \<open>serde_json\<close> documents: the record has a non-empty text form, and it reads back.\<close>

definition upload_json_ok :: "upload_json \<Rightarrow> bool" where
  "upload_json_ok j \<longleftrightarrow> (\<forall>x. \<exists>s. uj_to_string j x = Some s \<and> s \<noteq> [] \<and> uj_of_str j s = Some x)"

lemma decode_encode:
  assumes "upload_json_ok j"
  shows "unreadable_decode j (Some (unreadable_encode j u)) = u\<lparr>un_reset_floor := False\<rparr>"
proof -
  obtain s where "uj_to_string j (sorted_list_of_fset (un_ids u), un_total u, un_sweep u) = Some s" "s \<noteq> []"
    "uj_of_str j s = Some (sorted_list_of_fset (un_ids u), un_total u, un_sweep u)"
    using assms unfolding upload_json_ok_def by blast
  moreover have "fset_of_list (sorted_list_of_fset (un_ids u)) = un_ids u"
    by (rule fset_eqI) (simp add: fset_of_list.rep_eq sorted_list_of_fset.rep_eq)
  ultimately show ?thesis by (simp add: unreadable_decode_def unreadable_encode_def)
qed

text \<open>What is covered by the state that the host persists.\<close>

definition host_covers :: "upload_json \<Rightarrow> upload_host \<Rightarrow> stored_item set \<Rightarrow> stored_item \<Rightarrow> bool" where
  "host_covers j h up r \<longleftrightarrow>
     (let u = unreadable_decode j (ho_record h) in covered (scan_floor u (ho_floor h)) (remembered u) up r)"

definition host_ok :: "upload_json \<Rightarrow> upload_host \<Rightarrow> bool" where
  "host_ok j h \<longleftrightarrow> 0 \<le> uf_created_at (ho_floor h) \<and> bounded_ids (unreadable_decode j (ho_record h))"

lemma table_access_keeps:
  assumes "table_access h = (b, h')"
  shows "ho_floor h' = ho_floor h" "ho_record h' = ho_record h" "ho_epoch h' = ho_epoch h" "ho_offer h' = ho_offer h"
  using assms by (auto simp: table_access_def split: list.splits)

lemma set_floor_spec:
  assumes "set_floor f h = (q, h')"
  shows "ho_record h' = ho_record h \<and> ho_epoch h' = ho_epoch h \<and> ho_offer h' = ho_offer h
    \<and> (q = Inr () \<longrightarrow> 0 \<le> uf_created_at (ho_floor h') \<and> (0 \<le> uf_created_at f \<longrightarrow> floor_key (ho_floor h') \<le> floor_key f)
         \<and> (uf_item_id f = None \<longrightarrow> ho_floor h' = \<lparr>uf_created_at = max (uf_created_at f) 0, uf_item_id = None\<rparr>))
    \<and> (q \<noteq> Inr () \<longrightarrow> ho_floor h' = ho_floor h)"
proof -
  obtain b g where a: "table_access h = (b, g)" by fastforce
  note g = table_access_keeps[OF a]
  show ?thesis
  proof (cases b)
    case True
    with assms a have h': "q = Inr ()" "h' = g\<lparr>ho_floor := \<lparr>uf_created_at = max (uf_created_at f) 0,
        uf_item_id = (case uf_item_id f of None \<Rightarrow> None | Some k \<Rightarrow> if k = [] then None else Some k)\<rparr>\<rparr>"
      by (simp_all add: set_floor_def)
    then show ?thesis using g by (cases "uf_item_id f") (simp_all add: floor_key_def)
  next
    case False
    with assms a have "q \<noteq> Inr ()" "h' = g" by (auto simp: set_floor_def)
    with g show ?thesis by simp
  qed
qed

lemma main_rows_offer:
  assumes "main_rows loc mb prev rows behind used off u items = (off', u', items')"
  shows "off' = off \<or> (\<exists>b \<in> insert behind (keyset_of ` set rows). off' = off\<lparr>of_last := b, of_truncated := True\<rparr>)"
  using assms
proof (induction rows arbitrary: behind used u items)
  case (Cons x rows)
  consider "off' = off\<lparr>of_last := behind, of_truncated := True\<rparr>"
    | used' v items1 where "main_rows loc mb prev rows (keyset_of x) used' off v items1 = (off', u', items')"
    using Cons.prems by (auto split: if_splits option.splits prod.splits bool.splits)
  then show ?case by cases (auto dest: Cons.IH)
qed simp

lemma scan_started:
  assumes "scan_bounded rd since epoch prev mb = Inr sc"
  shows "\<exists>rows b. rd_after rd (uf_created_at (scan_floor prev since)) (uf_item_id (scan_floor prev since)) upload_scan_limit = Inr rows
    \<and> b \<in> insert (scan_floor prev since) (keyset_of ` set rows) \<and> of_last (sn_offer sc) = b
    \<and> of_started (sn_offer sc) = scan_floor prev since \<and> of_started_epoch (sn_offer sc) = epoch"
proof -
  let ?fl = "scan_floor prev since"
  from assms obtain v items1 rows where
    main: "rd_after rd (uf_created_at ?fl) (uf_item_id ?fl) upload_scan_limit = Inr rows"
    and sc: "(case main_rows (rd_local rd) mb (un_ids prev) rows ?fl (content_sum items1)
         \<lparr>of_truncated = length rows \<ge> upload_scan_limit, of_last = (if rows = [] then ?fl else keyset_of (last rows)),
          of_started = ?fl, of_started_epoch = epoch\<rparr> v items1 of
       (off, u, items) \<Rightarrow> Inr \<lparr>sn_items = items, sn_offer = off, sn_unreadable = settle_total u\<rparr>) = (Inr sc :: store_error + scan)"
    unfolding scan_bounded_def Let_def scan_floor_def[symmetric] by (auto simp: res_bind_Inr_iff)
  obtain off' u' items' where res: "main_rows (rd_local rd) mb (un_ids prev) rows ?fl (content_sum items1)
         \<lparr>of_truncated = length rows \<ge> upload_scan_limit, of_last = (if rows = [] then ?fl else keyset_of (last rows)),
          of_started = ?fl, of_started_epoch = epoch\<rparr> v items1 = (off', u', items')" by (metis prod_cases3)
  with sc have "sn_offer sc = off'" by auto
  with main_rows_offer[OF res] main show ?thesis by (cases "rows = []") auto
qed

lemma scan_request_spec:
  assumes "scan_request j rd enabled since h = (Inr sc, h1)"
  shows "scan_bounded rd since (ho_epoch h1) (unreadable_decode j (ho_record h)) scan_max_bytes = Inr sc
    \<and> ho_record h1 = Some (unreadable_encode j (sn_unreadable sc)) \<and> ho_offer h1 = Some (sn_offer sc)
    \<and> ho_floor h1 = scan_floor (unreadable_decode j (ho_record h)) (ho_floor h)"
proof -
  let ?u = "unreadable_decode j (ho_record h)"
  obtain b g where a: "table_access h = (b, g)" by fastforce
  note g = table_access_keeps[OF a]
  have tail: "scan_bounded rd since (ho_epoch h1) ?u scan_max_bytes = Inr sc
      \<and> ho_record h1 = Some (unreadable_encode j (sn_unreadable sc)) \<and> ho_offer h1 = Some (sn_offer sc) \<and> ho_floor h1 = ho_floor g'"
    if "(case scan_bounded rd since (ho_epoch g') ?u scan_max_bytes of
           Inl _ \<Rightarrow> (Inl ModuleState, g')
         | Inr scan \<Rightarrow>
             (case table_access g' of
                (False, h) \<Rightarrow> (Inl ModuleState, h)
              | (True, h) \<Rightarrow> (Inr scan, h\<lparr>ho_record := Some (unreadable_encode j (sn_unreadable scan)), ho_offer := Some (sn_offer scan)\<rparr>)))
        = (Inr sc, h1)" for g'
  proof -
    obtain c g2 where t: "table_access g' = (c, g2)" by fastforce
    show ?thesis using that t table_access_keeps[OF t]
      by (cases "scan_bounded rd since (ho_epoch g') ?u scan_max_bytes"; cases c) auto
  qed
  have en: "enabled" "b" using assms a by (auto simp: scan_request_def split: if_splits bool.splits)
  show ?thesis
  proof (cases "un_reset_floor ?u")
    case False
    with assms en a g(2) have "ho_floor h1 = ho_floor g \<Longrightarrow> ?thesis" "scan_bounded rd since (ho_epoch h1) ?u scan_max_bytes = Inr sc
        \<and> ho_record h1 = Some (unreadable_encode j (sn_unreadable sc)) \<and> ho_offer h1 = Some (sn_offer sc) \<and> ho_floor h1 = ho_floor g"
      using tail[of g] g(1) by (simp_all add: scan_request_def Let_def scan_floor_def)
    then show ?thesis by blast
  next
    case True
    obtain q g2 where s: "set_floor upload_floor_default g = (q, g2)" by fastforce
    have q: "q = Inr ()"
    proof (cases q)
      case (Inl e)
      with assms en a g(2) True s show ?thesis by (simp add: scan_request_def Let_def)
    qed simp
    from set_floor_spec[OF s] q have fl: "ho_floor g2 = \<lparr>uf_created_at = 0, uf_item_id = None\<rparr>" by (simp add: upload_floor_default_def)
    with tail[of "g2\<lparr>ho_epoch := ho_epoch g2 + 1\<rparr>"] assms en a g(2) True s q show ?thesis
      by (simp add: scan_request_def Let_def scan_floor_def)
  qed
qed

lemma commit_spec:
  assumes "commit_upload enabled started h = (q, h')" and "ho_offer h = Some off" and "0 \<le> uf_created_at (ho_floor h)"
  shows "ho_record h' = ho_record h \<and> 0 \<le> uf_created_at (ho_floor h')
    \<and> (ho_floor h' = ho_floor h
       \<or> of_started_epoch off = ho_epoch h \<and> (floor_key (ho_floor h') \<le> floor_key (ho_floor h)
            \<or> floor_key (ho_floor h') \<le> floor_key (floor_after_round off started)))"
proof -
  obtain b g where a: "table_access h = (b, g)" by fastforce
  note g = table_access_keeps[OF a]
  define m where "m = (if floor_key (ho_floor g) \<le> floor_key (floor_after_round off started) then floor_after_round off started else ho_floor g)"
  have m0: "0 \<le> uf_created_at m"
    using assms(3) g by (auto simp: m_def floor_key_def)
  consider "h' = h \<or> h' = g" | q' where "set_floor m g = (q', h')" "of_started_epoch off = ho_epoch h"
    using assms(1,2) a g by (auto simp: commit_upload_def m_def Let_def split: if_splits bool.splits)
  then show ?thesis
  proof cases
    case (2 q')
    note s = set_floor_spec[OF 2(1)]
    show ?thesis
    proof (cases "q' = Inr ()")
      case True
      with s m0 have "floor_key (ho_floor h') \<le> floor_key m" "0 \<le> uf_created_at (ho_floor h')" by auto
      with 2 s g show ?thesis by (auto simp: m_def split: if_splits)
    qed (use s g assms(3) in auto)
  qed (use g assms(3) in auto)
qed

text \<open>
  C7: A round that completes loses no row of the history. If every row is uploaded, lies past the
  upload floor, is on the list of rows to retry, or lies where the sweep still has to walk, then the
  same holds once the offered rows were uploaded and the round committed, whatever could not be
  opened, whatever did not fit the page, the byte bound or the list of 256 ids, and whether or not
  the commit succeeds. The host's state stays well-formed.
\<close>

theorem completed_round_loses_no_row:
  assumes "upload_json_ok j" and "db_ok he d" and "host_ok j h"
    and "scan_request j (store_reads he key device_id d) enabled (ho_floor h) h = (Inr sc, h1)"
    and "commit_upload enabled started h1 = (q, h2)" and "r \<in> db_rows d" and "host_covers j h up r"
  shows "host_ok j h2 \<and> host_covers j h2 (up \<union> {r. offered (to_local he key device_id d) (sn_items sc) r}) r"
proof -
  let ?prev = "unreadable_decode j (ho_record h)" and ?rd = "store_reads he key device_id d"
  note reads = store_reads_hold[OF assms(2), of key device_id]
  note req = scan_request_spec[OF assms(4)]
  have run: "scan_bounded ?rd (ho_floor h) (ho_epoch h1) ?prev scan_max_bytes = Inr sc" using req by blast
  have fl0: "0 \<le> uf_created_at (ho_floor h1)" using req assms(3) by (auto simp: scan_floor_def host_ok_def)
  obtain rows b where start: "rd_after ?rd (uf_created_at (ho_floor h1)) (uf_item_id (ho_floor h1)) upload_scan_limit = Inr rows"
    "b \<in> insert (ho_floor h1) (keyset_of ` set rows)" "of_last (sn_offer sc) = b"
    using scan_started[OF run] req by auto
  have "keyset_page (db_rows d) (floor_key (ho_floor h1)) upload_scan_limit rows"
    using reads start(1) unfolding reads_hold_def by (metis floor_key_pair)
  with start(2,3) have below: "floor_key (ho_floor h1) \<le> floor_key (of_last (sn_offer sc))" by (auto simp: keyset_page_def)
  note commit = commit_spec[OF assms(5) _ fl0, of "sn_offer sc"]
  have after: "of_truncated (sn_offer sc) \<longrightarrow> floor_key (floor_after_round (sn_offer sc) started) \<le> floor_key (of_last (sn_offer sc))"
    by (auto simp: floor_after_round_def floor_key_def)
  have F: "of_truncated (sn_offer sc) \<longrightarrow> floor_key (ho_floor h2) \<le> floor_key (of_last (sn_offer sc))"
  proof
    assume "of_truncated (sn_offer sc)"
    with after have "floor_key (floor_after_round (sn_offer sc) started) \<le> floor_key (of_last (sn_offer sc))" by blast
    with commit req below show "floor_key (ho_floor h2) \<le> floor_key (of_last (sn_offer sc))" by auto
  qed
  have prev: "bounded_ids ?prev" using assms(3) by (simp add: host_ok_def)
  have "covered (scan_floor ?prev (ho_floor h)) (remembered ?prev) up r" using assms(7) by (simp add: host_covers_def Let_def)
  note cov = scan_covers[OF reads prev run assms(6) this F]
  have rec: "unreadable_decode j (ho_record h2) = (sn_unreadable sc)\<lparr>un_reset_floor := False\<rparr>"
    using commit req decode_encode[OF assms(1)] by simp
  have loc: "rd_local ?rd = to_local he key device_id d" by (simp add: store_reads_def)
  show ?thesis
    using cov commit req unfolding host_ok_def host_covers_def rec loc
    by (simp add: scan_floor_def remembered_def bounded_ids_def covered_def swept_def)
qed

text \<open>
  C14: A version written while a round is under way is not committed away. Whatever its stamp, after
  the host has noted it the floor lies below it, and the commit of the round that was already
  scanning leaves the floor there, because the round's epoch has passed.
\<close>

theorem write_during_a_round_is_kept:
  assumes "scan_request j rd enabled since h = (Inr sc, h1)" and "note_version stamp h1 = (Inr (), h2)"
    and "commit_upload enabled started h2 = (q, h3)"
  shows "ho_floor h3 = ho_floor h2 \<and> floor_key (ho_floor h3) < (max stamp 0, Some k)"
proof -
  note req = scan_request_spec[OF assms(1)]
  have epoch: "of_started_epoch (sn_offer sc) = ho_epoch h1" using scan_started req by blast
  obtain b g where a: "table_access (h1\<lparr>ho_epoch := ho_epoch h1 + 1\<rparr>) = (b, g)" by fastforce
  note g = table_access_keeps[OF a]
  have b: b using assms(2) a by (cases b) (simp_all add: note_version_def)
  have h2: "ho_epoch h2 = ho_epoch h1 + 1 \<and> ho_offer h2 = Some (sn_offer sc) \<and> floor_key (ho_floor h2) < (max stamp 0, Some k)"
  proof (cases "max stamp 0 \<le> uf_created_at (ho_floor g)")
    case True
    with assms(2) a b have s: "set_floor \<lparr>uf_created_at = max stamp 0, uf_item_id = None\<rparr> g = (Inr (), h2)"
      by (simp add: note_version_def)
    from set_floor_spec[OF s] g req show ?thesis by (simp add: floor_key_def)
  next
    case False
    with assms(2) a b have "h2 = g" by (simp add: note_version_def split: if_splits)
    moreover have "uf_created_at (ho_floor g) < max stamp 0" using False by linarith
    then have "floor_key (ho_floor g) < (max stamp 0, Some k)" unfolding floor_key_def by simp
    ultimately show ?thesis using g req by simp
  qed
  obtain c g2 where t: "table_access h2 = (c, g2)" by fastforce
  have "ho_floor h3 = ho_floor h2"
    using assms(3) epoch h2 t table_access_keeps[OF t] by (cases c) (auto simp: commit_upload_def split: if_splits)
  with h2 show ?thesis by simp
qed

section \<open>A round that fails\<close>

lemma versions_after_rows: "set (versions_after since after n d) \<subseteq> db_rows d"
  by (auto simp: versions_after_def Let_def set_versions)

lemma nothing_past_the_floor:
  assumes "db_ok he d" and "\<forall>x \<in> db_rows d. row_key x \<le> floor_key f"
  shows "versions_after (uf_created_at f) (uf_item_id f) n d = []"
proof -
  have "\<forall>x \<in> set (versions_after (uf_created_at f) (uf_item_id f) n d). floor_key f < row_key x"
    using versions_after_page[OF assms(1), of "uf_created_at f" "uf_item_id f" n] by (simp add: keyset_page_def floor_key_pair)
  with assms(2) versions_after_rows[of "uf_created_at f" "uf_item_id f" n d] have "set (versions_after (uf_created_at f) (uf_item_id f) n d) = {}"
    by (metis equals0I leD subsetD)
  then show ?thesis by simp
qed

lemma one_version:
  assumes "db_ok he d" and "r \<in> db_rows d"
  shows "versions [si_id r] d = [r]"
proof -
  have "distinct (map si_id (versions [si_id r] d))" unfolding version_ids_of_rows by (rule distinct_filter[OF sound_ids[OF assms(1)]])
  moreover have "set (map si_id (versions [si_id r] d)) = {si_id r}" using assms(2) by (auto simp: set_versions)
  ultimately have "length (versions [si_id r] d) = 1" by (metis card_1_singleton_iff distinct_card length_map One_nat_def)
  moreover have "r \<in> set (versions [si_id r] d)" using assms(2) by (simp add: set_versions)
  ultimately show ?thesis by (auto simp: length_Suc_conv)
qed

lemma scan_nothing_new:
  assumes "db_ok he d" and "\<forall>x \<in> db_rows d. row_key x \<le> floor_key f"
    and "un_sweep prev = None" and "\<not> un_reset_floor prev"
    and "retry_chunks (store_reads he key device_id d) mb (chunks_of upload_scan_limit (sorted_list_of_fset (un_ids prev))) (unreadable_default, []) = Inr (u, items)"
  shows "scan_bounded (store_reads he key device_id d) f epoch prev mb
    = Inr \<lparr>sn_items = items, sn_offer = \<lparr>of_truncated = False, of_last = f, of_started = f, of_started_epoch = epoch\<rparr>, sn_unreadable = settle_total u\<rparr>"
proof -
  have "rd_after (store_reads he key device_id d) (uf_created_at f) (uf_item_id f) upload_scan_limit = Inr []"
    using nothing_past_the_floor[OF assms(1,2)] by (simp add: store_reads_def)
  with assms(3-5) show ?thesis by (simp add: scan_bounded_def Let_def upload_scan_limit_def)
qed

lemma quiet_request:
  assumes "ho_faults h = []" and "\<not> un_reset_floor (unreadable_decode j (ho_record h))"
    and "scan_bounded rd since (ho_epoch h) (unreadable_decode j (ho_record h)) scan_max_bytes = Inr sc"
  shows "scan_request j rd True since h
    = (Inr sc, h\<lparr>ho_record := Some (unreadable_encode j (sn_unreadable sc)), ho_offer := Some (sn_offer sc)\<rparr>)"
  using assms by (simp add: scan_request_def table_access_def Let_def)

lemma settle_default: "settle_total unreadable_default = unreadable_default"
  by (simp add: settle_total_def unreadable_default_def u32_saturating_add_def fcard_fempty)

lemma repaired_scan:
  assumes "db_ok he d" and "r \<in> db_rows d" and "to_local he key device_id d r = Some item"
    and "length (li_content item) \<le> scan_max_bytes" and "\<forall>x \<in> db_rows d. row_key x \<le> floor_key (ho_floor h)"
    and "unreadable_decode j (ho_record h) = \<lparr>un_ids = {|si_id r|}, un_total = n, un_sweep = None, un_reset_floor = False\<rparr>"
    and "ho_faults h = []"
  shows "\<exists>sc. scan_request j (store_reads he key device_id d) True (ho_floor h) h
        = (Inr sc, h\<lparr>ho_record := Some (unreadable_encode j unreadable_default), ho_offer := Some (sn_offer sc)\<rparr>)
    \<and> sn_items sc = [item] \<and> of_started (sn_offer sc) = ho_floor h \<and> of_started_epoch (sn_offer sc) = ho_epoch h"
proof -
  let ?rd = "store_reads he key device_id d" and ?prev = "unreadable_decode j (ho_record h)"
  have ids: "chunks_of upload_scan_limit (sorted_list_of_fset {|si_id r|}) = [[si_id r]]"
    by (simp add: sorted_list_of_fset.rep_eq chunks_of.simps[of _ "[_]"] chunks_of.simps[of _ "[]"] upload_scan_limit_def)
  have retry: "retry_chunks ?rd scan_max_bytes (chunks_of upload_scan_limit (sorted_list_of_fset (un_ids ?prev))) (unreadable_default, [])
      = Inr (unreadable_default, [item])"
    unfolding assms(6) using assms(3,4) one_version[OF assms(1,2)]
    by (simp add: ids store_reads_def content_sum_def)
  define sc where "sc = \<lparr>sn_items = [item], sn_offer = \<lparr>of_truncated = False, of_last = ho_floor h, of_started = ho_floor h, of_started_epoch = ho_epoch h\<rparr>,
      sn_unreadable = settle_total unreadable_default\<rparr>"
  have "scan_bounded ?rd (ho_floor h) (ho_epoch h) ?prev scan_max_bytes = Inr sc"
    unfolding sc_def by (rule scan_nothing_new[OF assms(1,5) _ _ retry]) (simp_all add: assms(6))
  from quiet_request[OF assms(7) _ this] show ?thesis by (simp add: assms(6) sc_def settle_default)
qed














section \<open>Witnesses\<close>

definition pack_floor :: "upload_floor \<Rightarrow> int \<times> string option" where "pack_floor = floor_key"

definition unpack_floor :: "int \<times> string option \<Rightarrow> upload_floor" where
  "unpack_floor p = \<lparr>uf_created_at = fst p, uf_item_id = snd p\<rparr>"

definition pack_sweep :: "sweep \<Rightarrow> (int \<times> string option) \<times> (int \<times> string option) \<times> nat \<times> nat" where
  "pack_sweep s = (pack_floor (sw_from s), pack_floor (sw_next s), sw_seen s, sw_settled s)"

definition unpack_sweep :: "(int \<times> string option) \<times> (int \<times> string option) \<times> nat \<times> nat \<Rightarrow> sweep" where
  "unpack_sweep = (\<lambda>(a, b, m, n). \<lparr>sw_from = unpack_floor a, sw_next = unpack_floor b, sw_seen = m, sw_settled = n\<rparr>)"

definition demo_upload_json :: upload_json where
  "demo_upload_json =
     \<lparr>uj_of_str = \<lambda>s. Some (map_prod id (map_prod id (map_option unpack_sweep)) (from_nat (length s - 1))),
      uj_to_string = \<lambda>x. Some (replicate (Suc (to_nat (map_prod id (map_prod id (map_option pack_sweep)) x))) CHR ''x'')\<rparr>"

lemma unpack_pack: "unpack_sweep (pack_sweep s) = s"
  by (simp add: unpack_sweep_def pack_sweep_def unpack_floor_def pack_floor_def floor_key_def)

lemma demo_upload_json_ok: "upload_json_ok demo_upload_json"
  by (auto simp: upload_json_ok_def demo_upload_json_def option.map_comp comp_def unpack_pack option.map_ident)

definition demo_clear_row :: item_row where
  "demo_clear_row = demo_row\<lparr>r_ciphertext := Some (''hi'' @ demo_tag), r_nonce := Some (replicate 24 CHR ''n''), r_fts_rowid := None\<rparr>"

definition demo_clear_db :: db where
  "demo_clear_db = empty_db\<lparr>db_items := fmupd ''a'' demo_clear_row fmempty\<rparr>"

lemma demo_clear_ok: "db_ok demo_he demo_clear_db"
  by (rule ok_butI)
    (auto simp: demo_clear_db_def empty_db_def demo_clear_row_def demo_row_def new_row_def demo_clip_def row_ok_def owner_def indexed_at_def
      unique_ok_def orgs_ok_def is_record_id_def org_prefix_def split: if_splits)

abbreviation demo_clear_item :: stored_item where
  "demo_clear_item \<equiv> row_to_item ''a'' demo_clear_row demo_clear_db"

lemma demo_clear_rows: "db_rows demo_clear_db = {demo_clear_item}"
  by (auto simp: db_rows_iff demo_clear_db_def empty_db_def split: if_splits)

lemma demo_clear_fields: "si_id demo_clear_item = ''a''" "si_created_at demo_clear_item = 5"
  by (simp_all add: row_to_item_def demo_clear_row_def demo_row_def new_row_def demo_clip_def)

definition demo_upload_host :: "int \<Rightarrow> upload_host" where
  "demo_upload_host t =
     \<lparr>ho_floor = \<lparr>uf_created_at = t, uf_item_id = None\<rparr>,
      ho_record = Some (unreadable_encode demo_upload_json \<lparr>un_ids = {|''a''|}, un_total = 1, un_sweep = None, un_reset_floor = False\<rparr>),
      ho_epoch = 0, ho_offer = None, ho_faults = []\<rparr>"

lemma demo_upload:
  "to_local demo_he ''k'' ''here'' demo_clear_db demo_clear_item = Some (the (to_local demo_he ''k'' ''here'' demo_clear_db demo_clear_item))"
  "length (li_content (the (to_local demo_he ''k'' ''here'' demo_clear_db demo_clear_item))) \<le> scan_max_bytes"
proof -
  have "open_version_bytes demo_he ''k'' demo_clear_item = Inr ''hi''"
    by (simp add: open_version_bytes_def row_to_item_def joined_ciphertext_def demo_clear_row_def demo_row_def new_row_def demo_clip_def
        demo_clear_db_def empty_db_def is_binary_def classify_def is_text_def content_type_text_def content_type_file_def decrypt_def
        demo_he_def demo_sealing_def map_err_def aead_nonce_len_def aead_tag_len_def demo_untag_def demo_tag_def)
  moreover have "\<not> si_deleted demo_clear_item" by (simp add: row_to_item_def demo_clear_row_def demo_row_def new_row_def)
  ultimately have "\<exists>item. to_local demo_he ''k'' ''here'' demo_clear_db demo_clear_item = Some item \<and> li_content item = ''hi''"
    by (simp add: to_local_def)
  then show "to_local demo_he ''k'' ''here'' demo_clear_db demo_clear_item = Some (the (to_local demo_he ''k'' ''here'' demo_clear_db demo_clear_item))"
    "length (li_content (the (to_local demo_he ''k'' ''here'' demo_clear_db demo_clear_item))) \<le> scan_max_bytes"
    by (auto simp: scan_max_bytes_def)
qed

lemma demo_host_facts:
  "unreadable_decode demo_upload_json (ho_record (demo_upload_host t)) = \<lparr>un_ids = {|si_id demo_clear_item|}, un_total = 1, un_sweep = None, un_reset_floor = False\<rparr>"
  "ho_faults (demo_upload_host t) = []" "\<forall>x \<in> db_rows demo_clear_db. row_key x \<le> floor_key (ho_floor (demo_upload_host 9))"
  "demo_clear_item \<in> db_rows demo_clear_db"
  using demo_clear_fields
  by (simp_all add: demo_upload_host_def decode_encode[OF demo_upload_json_ok] demo_clear_rows floor_key_def keyset_of_def)

theorem completed_round_loses_no_row_witness:
  "\<exists>sc h1 q h2. scan_request demo_upload_json (store_reads demo_he ''k'' ''here'' demo_clear_db) True (ho_floor (demo_upload_host 9)) (demo_upload_host 9) = (Inr sc, h1)
     \<and> commit_upload True 20 h1 = (q, h2) \<and> host_ok demo_upload_json h2
     \<and> host_covers demo_upload_json h2 {r. offered (to_local demo_he ''k'' ''here'' demo_clear_db) (sn_items sc) r} demo_clear_item"
proof -
  from repaired_scan[OF demo_clear_ok demo_host_facts(4) demo_upload demo_host_facts(3,1,2)] obtain sc h1 where
    run: "scan_request demo_upload_json (store_reads demo_he ''k'' ''here'' demo_clear_db) True (ho_floor (demo_upload_host 9)) (demo_upload_host 9) = (Inr sc, h1)"
    by blast
  obtain q h2 where commit: "commit_upload True 20 h1 = (q, h2)" by fastforce
  have "host_ok demo_upload_json (demo_upload_host 9)"
    by (simp add: host_ok_def demo_host_facts(1) bounded_ids_def max_unreadable_tracked_def fcard_finsert_if fcard_fempty) (simp add: demo_upload_host_def)
  moreover have "host_covers demo_upload_json (demo_upload_host 9) {} demo_clear_item"
    by (simp add: host_covers_def demo_host_facts(1) Let_def covered_def remembered_def)
  ultimately show ?thesis
    using completed_round_loses_no_row[OF demo_upload_json_ok demo_clear_ok _ run commit demo_host_facts(4)] run commit by fastforce
qed

theorem write_during_a_round_is_kept_witness:
  "\<exists>sc h1 h2 q h3. scan_request demo_upload_json (store_reads demo_he ''k'' ''here'' demo_clear_db) True (ho_floor (demo_upload_host 9)) (demo_upload_host 9) = (Inr sc, h1)
     \<and> note_version 3 h1 = (Inr (), h2) \<and> commit_upload True 20 h2 = (q, h3) \<and> floor_key (ho_floor h3) < (3, Some ''new'')"
proof -
  from repaired_scan[OF demo_clear_ok demo_host_facts(4) demo_upload demo_host_facts(3,1,2)] obtain sc h1 where
    run: "scan_request demo_upload_json (store_reads demo_he ''k'' ''here'' demo_clear_db) True (ho_floor (demo_upload_host 9)) (demo_upload_host 9) = (Inr sc, h1)"
    and h1: "ho_faults h1 = []" using demo_host_facts(2) by auto
  have "\<exists>h2. note_version 3 h1 = (Inr (), h2)" using h1 by (simp add: note_version_def set_floor_def table_access_def)
  then obtain h2 where noted: "note_version 3 h1 = (Inr (), h2)" by blast
  obtain q h3 where commit: "commit_upload True 20 h2 = (q, h3)" by fastforce
  from write_during_a_round_is_kept[OF run noted commit, of "''new''"] run noted commit show ?thesis by auto
qed



end
