(* ===== verification/Spec2Isabelle.thy ===== *)
theory Spec2Isabelle
  imports Merge Group_Props Codec_Props Sync_Props Cursor Peer_Props Channel Discovery_Props
    Sealing_Props History_Props Cloud_Props Upload_Props
begin

text \<open>
  A verification development for CopyPaste, a clipboard manager whose devices synchronise their
  histories directly with each other over the local network, and through an account of a hosted
  service. It follows the Rust crates \<open>copypaste-p2p\<close>, \<open>copypaste-core\<close> (sealing, history and merge),
  \<open>copypaste-payload\<close>, \<open>copypaste-sync\<close> and \<open>copypaste-cloud\<close> under \<open>crates/\<close>, the host of
  \<open>copypaste-modules/src/sync.rs\<close>, and the parts of \<open>copypaste-ipc\<close> that they use.

  \<^bold>\<open>The parts and how they interact.\<close> A device finds others on the local network (\<open>discovery/\<close>), keeps a list of paired devices (\<open>peers/\<close>) and belongs to
  a device group (\<open>group.rs\<close>), a signed roster that members exchange and from which further pairings
  are derived. Two paired devices open an authenticated channel and run one session
  (\<open>sync/session.rs\<close>): each greets, both send summaries of their history in pages, each plans what it
  wants (\<open>sync/plan.rs\<close>, by the merge decision of \<open>sync/merge.rs\<close>), asks for it, serves what the
  other asked for (\<open>sync/transfer.rs\<close>), checks what arrives and hands it to its history
  (\<open>sync/application.rs\<close>). Messages are encoded and bounded by \<open>protocol/codec.rs\<close> and
  \<open>protocol/items.rs\<close>. What a session leaves behind is a cursor per pairing (\<open>peers/cursor.rs\<close>), so
  that the next one summarises only what is new.

  The history is an SQLite database (\<open>copypaste-core/src/storage/\<close>) of sealed items (\<open>crypto/\<close>, \<open>binary.rs\<close>).
  Captures, deletions, pins, retention and the merge of remote versions (\<open>sync/merge.rs\<close>, \<open>prepare.rs\<close>,
  \<open>batch.rs\<close>) are transactions that interleave with those of other connections. A cloud round
  (\<open>copypaste-cloud/src/sync/driver.rs\<close>) exchanges the group, uploads the local versions that a scan
  offers (\<open>copypaste-sync/src/store.rs\<close>), each sealed and signed under a key that the service does not
  have (\<open>crypto/\<close>), downloads pages after a watermark, and hands what it can verify to the history.

  \<^bold>\<open>Theories.\<close>
  \<^item> \<open>Prelude\<close>: octets, results, 64-bit integers, IEEE doubles, big-endian octets, UTF-8, finite maps with
    the iteration order of a \<open>BTreeMap\<close>.
  \<^item> \<open>Net\<close>: socket addresses, \<open>netif.rs\<close>. \<open>Wire_Base\<close>: the constants, \<open>ItemSummary\<close>, \<open>SyncItem\<close> and the field
    checks of \<open>protocol.rs\<close>, and \<open>device_profile.rs\<close>. \<open>Peers_Base\<close>: \<open>peers/peer.rs\<close> and \<open>peers/error.rs\<close>.
  \<^item> \<open>Merge\<close>: \<open>sync/merge.rs\<close>. The locale \<open>lww\<close> is the contract of a last-writer-wins decision; content and
    pin state are its two interpretations, and convergence is proved once inside it.
  \<^item> \<open>Group\<close>, \<open>Group_Props\<close>: \<open>group.rs\<close>, with a step relation \<open>group_step\<close> over everything that changes a
    group.
  \<^item> \<open>Codec\<close>, \<open>Codec_Props\<close>: \<open>protocol.rs\<close>, \<open>protocol/codec.rs\<close>, \<open>protocol/items.rs\<close>.
  \<^item> \<open>Transport\<close>, \<open>Transport_Props\<close>: \<open>transport/session.rs\<close>, records and their reassembly over a Noise state.
    \<open>Channel\<close>: \<open>node/channel.rs\<close>, the codec on top of it.
  \<^item> \<open>Workspace\<close>: \<open>sync/workspace.rs\<close>. The locale \<open>summary_workspace\<close> is the trait with its laws; the
    in-memory workspace is interpreted in it.
  \<^item> \<open>Plan\<close>: \<open>sync/plan.rs\<close> and the watermarks of \<open>sync/summary.rs\<close>, over any \<open>summary_workspace\<close>.
  \<^item> \<open>Session\<close>: \<open>session.rs\<close>, \<open>summary.rs\<close>, \<open>transfer.rs\<close>, \<open>application.rs\<close>, \<open>source.rs\<close> and \<open>error.rs\<close> of \<open>sync/\<close>, as
    actions over the channel and the local store. \<open>Session_Props\<close>: a total-correctness judgement
    \<open>triple\<close> for such actions, and what serving and receiving do. \<open>Sync_Run\<close>, \<open>Sync_Props\<close>: whole sessions
    in both roles.
  \<^item> \<open>Cursor\<close>: \<open>peers/cursor.rs\<close> and \<open>Node::record_cursor\<close>.
  \<^item> \<open>Peer_Store\<close>: \<open>file.rs\<close>, \<open>crypto.rs\<close>, \<open>store.rs\<close>, \<open>revocation.rs\<close> and \<open>tentative.rs\<close> of \<open>peers/\<close>.
    \<open>Peer_Group\<close>: \<open>peers/group.rs\<close>. \<open>Peer_Invariant\<close>: the invariant of the state and the file.
    \<open>Peer_Contract\<close>: the locale \<open>atomic_operation\<close>, with one interpretation per operation. \<open>Peer_Props\<close>: the
    properties, over the step relation \<open>peer_step\<close>.
  \<^item> \<open>Discovery_Names\<close>, \<open>Discovery_Record\<close>, \<open>Discovery\<close>, \<open>Discovery_Props\<close>: \<open>discovery/\<close>: names and TXT records, the table of
    candidates with the service around it, and its properties over the step relation \<open>discovery_step\<close>.
  \<^item> \<open>Sealing\<close>, \<open>Sealing_Props\<close>: \<open>crypto/\<close>, \<open>binary.rs\<close>, \<open>binary_reference.rs\<close> of \<open>copypaste-core\<close>. \<open>Payload\<close>:
    \<open>copypaste-payload\<close>. \<open>Credentials\<close>: \<open>credentials.rs\<close>.
  \<^item> \<open>History_Db\<close>: the tables, their index and triggers, and the statements of \<open>storage/\<close>. \<open>History_Merge\<close>: \<open>sync/merge.rs\<close>,
    \<open>prepare.rs\<close>, \<open>batch.rs\<close>, \<open>diagnostics.rs\<close>. \<open>History_Local\<close>: captures, deletions, pins, privacy and
    retention. \<open>History_Invariant\<close>: the invariant and the locale \<open>sound_transaction\<close>, interpreted for each
    transaction. \<open>History_Steps\<close>, \<open>History_Runs\<close>, \<open>History_Props\<close>: histories as the step relation
    \<open>history_step\<close>, runs under interference, and the properties.
  \<^item> \<open>Cloud_Row\<close>: \<open>crypto/\<close> and \<open>rest/item.rs\<close> of \<open>copypaste-cloud\<close>. \<open>Cloud_Session\<close>: \<open>sync/retry.rs\<close>, the session of
    \<open>sync/driver.rs\<close>, the faults, the poll interval; with the step relation \<open>session_step\<close> of everything
    that may change a session. \<open>Cloud_Sync\<close>: \<open>sync/push.rs\<close>, \<open>sync/pull.rs\<close>, the source contract.
    \<open>Cloud_Driver\<close>: the requests of \<open>rest/\<close>, \<open>sync/group.rs\<close> and a whole round. \<open>Cloud_Pull\<close>, \<open>Cloud_Props\<close>: what
    holds of them.
  \<^item> \<open>Upload_Scan\<close>: \<open>unreadable.rs\<close>, \<open>scan.rs\<close> and \<open>store.rs\<close> of \<open>copypaste-sync\<close>, \<open>Store::versions_after\<close>, and the upload
    half of the host. \<open>Upload_Cover\<close>: what a scan keeps covered. \<open>Upload_Props\<close>: over a sound database.
  \<^item> This theory: what sessions and cursors guarantee together.

  \<^bold>\<open>How state and operations correspond.\<close> A struct is a \<open>record\<close>, an enum a \<open>datatype\<close>. A function of the
  code has one definition of its name (\<open>upsert\<close>, \<open>plan_workspace\<close>, \<open>run_initiator\<close>), with a prefix where
  HOL has the name already (\<open>group_merge\<close>, \<open>store_list\<close>); a piece of a longer function that a proof speaks
  about has a name of its own. A \<open>Result\<close> is a sum with the error on the left. State is passed
  explicitly: \<open>(result, state after)\<close>. \<open>u64\<close> generations are 64-bit words with the checked and wrapping
  additions of the code; \<open>i64\<close> stamps are integers with the saturation written out; a \<open>usize\<close> count is
  a natural number that saturates where the code saturates. A \<open>BTreeMap\<close> is a finite map listed in key
  order; a \<open>HashMap\<close> is a finite map listed in an order that is an argument. Code outside the
  repository is an argument with named laws: the cryptographic functions and JSON layers (\<open>crypto\<close>,
  \<open>wire\<close>, \<open>store_env\<close>, \<open>cursor_json\<close>), the Noise state of \<open>snow\<close> (\<open>noise_ops\<close>, with \<open>noise_ok\<close> and \<open>authentic\<close>), the clock, the channel (a list of what will arrive, and a fault for each
  send), the history store (\<open>source\<close>, the trait \<open>SyncSource\<close>) and the file system (whether a write fails); the ciphers and
  digests of sealing (\<open>sealing\<close>, \<open>aead_ok\<close>), JSON, base64 and PNG of metadata (\<open>payload_env\<close>, \<open>json_ok\<close>),
  \<open>cloud_env\<close> with \<open>base64_ok\<close>, HTTP with its retries (\<open>http\<close>), the JSON of the upload record
  (\<open>upload_json\<close>). A cloud backend is any \<open>rest_api\<close>; \<open>supabase\<close> is the one of the code, and what a
  pull relies on is \<open>pages_in_order\<close> and \<open>pull_host\<close>, with \<open>pull_log\<close> for a record of what it was answered. Other tasks and connections are scripts that run at
  each transaction (\<open>st_script\<close>) and at each await (\<open>cw_others\<close>).

  \<^bold>\<open>What the lemmas show.\<close> Merging converges in any order of delivery. A removal from the group
  outlasts every history; nobody else changes a device's own record; both ends of a pair derive the
  same credential. Decoding fails closed and inverts encoding. The secure channel delivers what
  was sent; whatever an attacker does with the frames, a session sees a prefix of what its peer sent,
  and a channel that failed stays closed. A session returns against every peer,
  stores only promised, winning and hash-checked items, each once, sends only what it summarised, and
  leaves a cursor below which nothing was lost; recording it relays the new items to the other
  peers. A revoked pairing never returns over any interleaving of operations, rollbacks, failed writes and
  restarts; an operation that fails changes nothing, except a rollback, which owes its write and never
  leaves the repudiated key. What is
  believed of the local network is bounded over every history and independent of hash map order;
  a record is read as it was written. The history keeps its invariant over every interleaving of
  transactions; a page is merged without putting an older version in the place of a newer one;
  sealed content opens to itself. A cloud row that one device pushed with a stamp that is not negative is
  genuine for every other, and its signature fixes every column; a pull passes only what it has judged
  and its watermark follows the clock or a fetched row that was signed with the key; a request is bounded, and a session that was signed out stays so; a
  completed upload round loses no row, whatever could not be read or did not fit. Theorems of kind
  error state what goes wrong where the code does less than it means to.

  \<^bold>\<open>Loops, bounds, fuel.\<close> Loops over collections are structural recursion; the paging loops of a session
  take fuel computed from what they consume (the messages left on the channel, the page limit),
  and the theorems state that they return. No theorem bounds the size of an input.

  \<^bold>\<open>Not modelled.\<close> Tasks, timeouts and locks beyond the poisoned flag (operations are atomic steps, as
  under the store's lock, except where an interference script is an argument); wiping and
  constant-time comparison; logging; the Noise handshakes and pairing ceremonies of \<open>transport/\<close> and
  \<open>node/\<close>, which call protocol libraries; the \<open>SyncSource\<close> over the history
  (\<open>sync/source.rs\<close>, \<open>storage/summary_workspace.rs\<close>), so that a session and the history meet only in the
  merge; lists, search, previews and file transfers of the history; sign-in and the realtime channel
  of the account; the requests of the module host that pass values through; the daemon, the
  platform clipboards, the command line, modules and user interfaces, which are input and output
  around these parts.
\<close>

section \<open>Sessions and cursors\<close>

text \<open>
  C3: what one peer brought is offered to the others. When a session over one pairing succeeds and
  \<open>record_cursor\<close> has recorded it, every item that the session stored with a stamp below our cursor
  for another peer lies within what the next session with that peer summarises, whatever cursor
  that peer reports.
\<close>

theorem session_items_are_relayed:
  assumes "session_setting env src (wd_store s) tbl" and "runs env src listen_addr cursor initiator s = Some (Inr oc, s')"
    and "writes j" and "\<not> cs_poisoned cs" and "fmlookup (cs_state cs) pid = Some r" and "pid \<noteq> from"
  shows "\<exists>bs si. feed src bs (wd_store s) = (wd_store s', si)
    \<and> (\<forall>i \<in> set si. summary_key (summary i) < cu_since_ms r \<longrightarrow>
         (\<forall>reported. advertise_from (cursor_get (record_cursor j False fails from oc cs) pid) reported
            \<le> max (summary_key (summary i)) 0))"
proof -
  from session_outcome[OF assms(1), of listen_addr cursor initiator] assms(2) obtain bs si where
    si: "feed src bs (wd_store s) = (wd_store s', si)" "covers (oc_applied_floor oc) ((\<lambda>i. summary_key (summary i)) ` set si)"
    by (auto simp: ended_def concluded_def changed_def)
  have "advertise_from (cursor_get (record_cursor j False fails from oc cs) pid) reported \<le> max (summary_key (summary i)) 0"
    if i: "i \<in> set si" "summary_key (summary i) < cu_since_ms r" for i reported
  proof -
    from si(2) i(1) obtain f where f: "oc_applied_floor oc = Some f" "f \<le> summary_key (summary i)"
      by (cases "oc_applied_floor oc") (auto simp: covers_def)
    then have "cursor_get (record_cursor j False fails from oc cs) pid = cursor_get (note_applied j False from f cs) pid"
      using assms(6) by (simp add: record_cursor_def record_session_other)
    moreover have "advertise_from (cursor_get (note_applied j False from f cs) pid) reported \<le> max f 0"
      using applied_stamp_is_relayed[OF assms(3-5), of "from" f] assms(6) f(2) i(2) by auto
    ultimately show ?thesis using f(2) by simp
  qed
  with si(1) show ?thesis by blast
qed

lemma demo_stored: "snd (feed demo_source bs st) = concat bs"
proof (induction bs arbitrary: st)
  case (Cons b bs)
  have "map snd (filter fst (zip (map (\<lambda>_. True) b) b)) = b" by (induction b) simp_all
  with Cons show ?case by (simp add: demo_source_def case_prod_unfold)
qed simp

theorem session_items_are_relayed_witness:
  "\<exists>oc s' cs j. run_initiator demo_env demo_source None demo_cursor (demo_world demo_messages []) = Some (Inr oc, s')
     \<and> wd_store s' = [demo_text] \<and> cu_since_ms (cursor_get cs ''p'') = 9
     \<and> advertise_from (cursor_get (record_cursor j False False ''q'' oc cs) ''p'') 9 \<le> 5"
proof -
  define j where "j = \<lparr>cj_to_vec = (\<lambda>m. Some []), cj_from_slice = (\<lambda>b. None)\<rparr>"
  define r where "r = \<lparr>cu_since_ms = 9, cu_relay_floor_ms = None\<rparr>"
  define cs where "cs = \<lparr>cs_state = fmupd ''p'' r fmempty, cs_disk = None, cs_poisoned = False\<rparr>"
  have j: "writes j" by (simp add: writes_def j_def)
  have cs: "\<not> cs_poisoned cs" "fmlookup (cs_state cs) ''p'' = Some r" "''p'' \<noteq> ''q''" by (simp_all add: cs_def)
  have set: "session_setting demo_env demo_source (wd_store (demo_world demo_messages [])) (\<lambda>_. None)"
    by (simp add: demo_setting demo_world_def)
  from demo_run_ok obtain oc s' where run: "run_initiator demo_env demo_source None demo_cursor (demo_world demo_messages []) = Some (Inr oc, s')"
    and store: "wd_store s' = [demo_text]" by blast
  then have "runs demo_env demo_source None demo_cursor True (demo_world demo_messages []) = Some (Inr oc, s')"
    by (simp add: runs_def)
  from session_items_are_relayed[OF set this j cs, of False] obtain bs si where
    feed: "feed demo_source bs [] = ([demo_text], si)"
    and relay: "\<forall>i \<in> set si. summary_key (summary i) < cu_since_ms r \<longrightarrow>
      (\<forall>reported. advertise_from (cursor_get (record_cursor j False False ''q'' oc cs) ''p'') reported \<le> max (summary_key (summary i)) 0)"
    by (auto simp: store demo_world_def)
  from feed demo_feed[of bs "[]"] demo_stored[of bs "[]"] have "si = [demo_text]" by simp
  with relay have "advertise_from (cursor_get (record_cursor j False False ''q'' oc cs) ''p'') 9 \<le> 5"
    by (simp add: r_def summary_key_def demo_text_def demo_item_def summary_def)
  moreover have "cu_since_ms (cursor_get cs ''p'') = 9" by (simp add: cursor_get_def cs_def r_def)
  ultimately show ?thesis using run store by blast
qed

end
